(* ===== verification/Prelude.thy ===== *)
theory Prelude
  imports Complex_Main "HOL-Library.Sublist"
begin

text \<open>
  The part of JavaScript and its standard library that the front end of TinyAutomator uses,
  and the lemmas every component shares.

  \<^item> Strings are lists of code units (\<open>string\<close>; the code units 0 to 255), with
    \<open>trim\<close>, \<open>toLowerCase\<close>, \<open>split\<close>, \<open>join\<close>, \<open>includes\<close>, \<open>startsWith\<close>, \<open>padStart\<close> and
    the decimal printing and reading of numbers.
  \<^item> Run-time values that the code does not give a static shape are of type \<open>jsval\<close>.
  \<^item> Objects and \<open>Map\<close>s whose key order is observable are association lists in insertion
    order (\<open>js_set\<close>); the others are maps.
  \<^item> An exception is a value of \<open>js_error\<close> in the left of a sum.
  \<^item> \<open>machine\<close> is the interface every stateful component is checked against: an initial state,
    a step per event, and an invariant that both respect.
\<close>

section \<open>Proof collections\<close>

named_theorems js_simps \<open>unfolding rules of the JavaScript library functions\<close>
named_theorems js_intros \<open>preservation rules for the components' invariants\<close>

section \<open>Exceptions\<close>

datatype js_error = TypeError | ErrorMsg string

type_synonym 'a js = "js_error + 'a"

fun js_bind :: "'a js \<Rightarrow> ('a \<Rightarrow> 'b js) \<Rightarrow> 'b js" where
  "js_bind (Inl e) f = Inl e"
| "js_bind (Inr x) f = f x"

lemma js_bind_Inr_iff [simp]:
  "js_bind m f = Inr y \<longleftrightarrow> (\<exists>x. m = Inr x \<and> f x = Inr y)"
  by (cases m) auto

lemma js_bind_assoc: "js_bind (js_bind m f) g = js_bind m (\<lambda>x. js_bind (f x) g)"
  by (cases m) auto

text \<open>\<open>Array.prototype.map\<close> with a callback that may throw: the first exception wins.\<close>

fun js_map_err :: "('a \<Rightarrow> 'b js) \<Rightarrow> 'a list \<Rightarrow> 'b list js" where
  "js_map_err f [] = Inr []"
| "js_map_err f (x # xs) =
     js_bind (f x) (\<lambda>y. js_bind (js_map_err f xs) (\<lambda>ys. Inr (y # ys)))"

lemma js_map_err_Inr: "(\<And>x. x \<in> set xs \<Longrightarrow> f x = Inr (g x)) \<Longrightarrow> js_map_err f xs = Inr (map g xs)"
  by (induction xs) auto

lemma js_map_err_length: "js_map_err f xs = Inr ys \<Longrightarrow> length ys = length xs"
  by (induction xs arbitrary: ys) auto

section \<open>Run-time values\<close>

datatype jsval =
    JUndefined
  | JNull
  | JBool bool
  | JNum real
  | JStr string
  | JArr "jsval list"
  | JObj "(string \<times> jsval) list"

fun js_truthy :: "jsval \<Rightarrow> bool" where
  "js_truthy JUndefined = False"
| "js_truthy JNull = False"
| "js_truthy (JBool b) = b"
| "js_truthy (JNum x) = (x \<noteq> 0)"
| "js_truthy (JStr s) = (s \<noteq> [])"
| "js_truthy (JArr xs) = True"
| "js_truthy (JObj fs) = True"

text \<open>Reading a property: \<open>null.p\<close> and \<open>undefined.p\<close> throw, a missing property is \<open>undefined\<close>.\<close>

fun js_get :: "jsval \<Rightarrow> string \<Rightarrow> jsval js" where
  "js_get JUndefined p = Inl TypeError"
| "js_get JNull p = Inl TypeError"
| "js_get (JObj fs) p = Inr (case map_of fs p of None \<Rightarrow> JUndefined | Some v \<Rightarrow> v)"
| "js_get _ p = Inr JUndefined"

text \<open>An optional string that is used in a condition: \<open>null\<close>, \<open>undefined\<close> and \<open>""\<close> are false.\<close>

definition truthy_str :: "string option \<Rightarrow> string option" where
  "truthy_str x = (case x of None \<Rightarrow> None | Some s \<Rightarrow> if s = [] then None else Some s)"

lemma truthy_str_simps [simp]:
  "truthy_str None = None"
  "truthy_str (Some []) = None"
  "s \<noteq> [] \<Longrightarrow> truthy_str (Some s) = Some s"
  "truthy_str (Some (c # cs)) = Some (c # cs)"
  by (auto simp: truthy_str_def)

lemma truthy_str_Some: "truthy_str x = Some s \<longleftrightarrow> x = Some s \<and> s \<noteq> []"
  by (auto simp: truthy_str_def split: option.splits)

lemma truthy_str_None: "truthy_str x = None \<longleftrightarrow> x = None \<or> x = Some []"
  by (auto simp: truthy_str_def split: option.splits)

text \<open>\<open>a || b\<close> on strings.\<close>

definition js_or_str :: "string \<Rightarrow> string \<Rightarrow> string" where
  "js_or_str a b = (if a = [] then b else a)"

section \<open>Strings\<close>

text \<open>White space and case mapping of the code units 0 to 255 (ECMA-262, \<open>TrimString\<close> and
  \<open>toLowerCase\<close>).\<close>

definition js_is_ws :: "char \<Rightarrow> bool" where
  "js_is_ws c \<longleftrightarrow> (let n = (of_char c :: nat) in 9 \<le> n \<and> n \<le> 13 \<or> n = 32 \<or> n = 160)"

definition js_trim :: "string \<Rightarrow> string" where
  "js_trim s = rev (dropWhile js_is_ws (rev (dropWhile js_is_ws s)))"

definition js_lower_char :: "char \<Rightarrow> char" where
  "js_lower_char c = (let n = (of_char c :: nat) in
     if 65 \<le> n \<and> n \<le> 90 \<or> 192 \<le> n \<and> n \<le> 222 \<and> n \<noteq> 215 then char_of (n + 32) else c)"

definition js_lower :: "string \<Rightarrow> string" where
  "js_lower s = map js_lower_char s"

fun js_split :: "char \<Rightarrow> string \<Rightarrow> string list" where
  "js_split c [] = [[]]"
| "js_split c (x # xs) =
     (if x = c then [] # js_split c xs
      else (case js_split c xs of [] \<Rightarrow> [[x]] | w # ws \<Rightarrow> (x # w) # ws))"

fun js_join :: "string \<Rightarrow> string list \<Rightarrow> string" where
  "js_join sep [] = []"
| "js_join sep [w] = w"
| "js_join sep (w # v # ws) = w @ sep @ js_join sep (v # ws)"

fun js_includes :: "string \<Rightarrow> string \<Rightarrow> bool" where
  "js_includes s q = (take (length q) s = q \<or> (case s of [] \<Rightarrow> False | c # t \<Rightarrow> js_includes t q))"

declare js_includes.simps [simp del]

definition js_startsWith :: "string \<Rightarrow> string \<Rightarrow> bool" where
  "js_startsWith s q \<longleftrightarrow> take (length q) s = q"

text \<open>\<open>Number.prototype.toString\<close> on a non-negative integer, \<open>padStart(2, "0")\<close> and the value of a
  string of digits.\<close>

definition digit_char :: "nat \<Rightarrow> char" where
  "digit_char d = char_of (48 + d)"

definition char_digit :: "char \<Rightarrow> nat option" where
  "char_digit c = (let n = (of_char c :: nat) in if 48 \<le> n \<and> n \<le> 57 then Some (n - 48) else None)"

fun js_of_nat :: "nat \<Rightarrow> string" where
  "js_of_nat n = (if n < 10 then [digit_char n] else js_of_nat (n div 10) @ [digit_char (n mod 10)])"

declare js_of_nat.simps [simp del]

definition pad2 :: "string \<Rightarrow> string" where
  "pad2 s = replicate (2 - length s) (CHR ''0'') @ s"

fun js_digits_from :: "nat \<Rightarrow> string \<Rightarrow> nat option" where
  "js_digits_from acc [] = Some acc"
| "js_digits_from acc (c # cs) =
     (case char_digit c of None \<Rightarrow> None | Some d \<Rightarrow> js_digits_from (10 * acc + d) cs)"

definition js_digits :: "string \<Rightarrow> nat option" where
  "js_digits s = (if s = [] then None else js_digits_from 0 s)"

subsection \<open>Trimming and case\<close>

lemma dropWhile_hd: "dropWhile P xs = [] \<or> \<not> P (hd (dropWhile P xs))"
  by (induction xs) auto

lemma dropWhile_id: "xs = [] \<or> \<not> P (hd xs) \<Longrightarrow> dropWhile P xs = xs"
  by (cases xs) auto

lemma js_trim_idem [simp]: "js_trim (js_trim s) = js_trim s"
proof -
  let ?a = "dropWhile js_is_ws s"
  let ?b = "dropWhile js_is_ws (rev ?a)"
  have suf: "\<exists>zs. rev ?a = zs @ ?b" by (metis takeWhile_dropWhile_id)
  then obtain zs where zs: "?a = rev ?b @ rev zs" by (metis rev_append rev_rev_ident)
  have "rev ?b = [] \<or> \<not> js_is_ws (hd (rev ?b))"
  proof (cases "rev ?b = []")
    case False
    then have "hd ?a = hd (rev ?b)" "?a \<noteq> []" using zs by (metis hd_append2, metis append_is_Nil_conv)
    then show ?thesis using dropWhile_hd [of js_is_ws s] by auto
  qed simp
  then have 1: "dropWhile js_is_ws (rev ?b) = rev ?b" by (rule dropWhile_id)
  have "dropWhile js_is_ws ?b = ?b"
    by (rule dropWhile_id) (use dropWhile_hd [of js_is_ws "rev ?a"] in auto)
  with 1 show ?thesis by (simp add: js_trim_def)
qed

lemma set_js_trim: "set (js_trim s) \<subseteq> set s"
  by (auto simp: js_trim_def dest!: set_dropWhileD)

lemma js_trim_Nil [simp]: "js_trim [] = []"
  by (simp add: js_trim_def)

lemma js_trim_no_ws: "(\<And>c. c \<in> set s \<Longrightarrow> \<not> js_is_ws c) \<Longrightarrow> js_trim s = s"
proof -
  assume nw: "\<And>c. c \<in> set s \<Longrightarrow> \<not> js_is_ws c"
  have "dropWhile js_is_ws s = s" by (rule dropWhile_id) (use nw in \<open>cases s; auto\<close>)
  moreover have "dropWhile js_is_ws (rev s) = rev s"
    by (rule dropWhile_id) (use nw in \<open>cases "rev s"; auto simp: rev_eq_Cons_iff\<close>)
  ultimately show ?thesis by (simp add: js_trim_def)
qed

lemma js_lower_char_idem [simp]: "js_lower_char (js_lower_char c) = js_lower_char c"
  by (auto simp: js_lower_char_def Let_def of_char_of mod_less)

lemma js_lower_idem [simp]: "js_lower (js_lower s) = js_lower s"
  by (simp add: js_lower_def)

lemma length_js_lower [simp]: "length (js_lower s) = length s"
  by (simp add: js_lower_def)

lemma js_lower_Nil_iff [simp]: "js_lower s = [] \<longleftrightarrow> s = []"
  by (simp add: js_lower_def)

lemma js_is_ws_lower [simp]: "js_is_ws (js_lower_char c) = js_is_ws c"
  by (auto simp: js_is_ws_def js_lower_char_def Let_def of_char_of)

lemma js_trim_lower: "js_trim (js_lower s) = js_lower (js_trim s)"
  by (simp add: js_trim_def js_lower_def dropWhile_map rev_map o_def)

subsection \<open>Substrings, splitting and joining\<close>

lemma js_includes_sublist: "js_includes s q \<longleftrightarrow> sublist q s"
proof (induction s)
  case Nil
  show ?case by (auto simp: js_includes.simps [of "[]"])
next
  case (Cons c s)
  have "take (length q) (c # s) = q \<longleftrightarrow> prefix q (c # s)"
    by (metis append_eq_conv_conj prefix_def)
  with Cons show ?case
    by (simp add: js_includes.simps [of "c # s"] sublist_Cons_right)
qed

lemma js_includes_Nil [simp]: "js_includes s []"
  by (simp add: js_includes_sublist)

lemma js_split_nonempty [simp]: "js_split c s \<noteq> []"
  by (induction s) (auto split: list.splits)

lemma js_split_no_sep: "w \<in> set (js_split c s) \<Longrightarrow> c \<notin> set w"
  by (induction s arbitrary: w) (fastforce split: if_splits list.splits)+

lemma js_split_plain: "c \<notin> set w \<Longrightarrow> js_split c w = [w]"
  by (induction w) auto

lemma js_split_append: "c \<notin> set w \<Longrightarrow> js_split c (w @ c # s) = w # js_split c s"
  by (induction w) auto

lemma js_split_join:
  "ws \<noteq> [] \<Longrightarrow> (\<And>w. w \<in> set ws \<Longrightarrow> c \<notin> set w) \<Longrightarrow> js_split c (js_join [c] ws) = ws"
proof (induction ws rule: induct_list012)
  case (2 w)
  then show ?case by (simp add: js_split_plain)
next
  case (3 w v ws)
  then show ?case by (simp add: js_split_append)
qed simp

lemma js_join_Nil_Cons: "ws \<noteq> [] \<Longrightarrow> js_join sep ([] # ws) = sep @ js_join sep ws"
  by (cases ws) auto

lemma js_join_split: "js_join [c] (js_split c s) = s"
proof (induction s)
  case (Cons x s)
  have "js_join [c] ((x # w) # ws) = x # js_join [c] (w # ws)" for w ws
    by (cases ws) auto
  with Cons show ?case
    by (cases "js_split c s") (auto simp: js_join_Nil_Cons)
qed simp

subsection \<open>Numbers\<close>

lemma char_digit_digit_char [simp]: "d < 10 \<Longrightarrow> char_digit (digit_char d) = Some d"
  by (simp add: char_digit_def digit_char_def Let_def of_char_of)

lemma js_digits_from_append:
  "js_digits_from acc (s @ [c]) =
     (case js_digits_from acc s of None \<Rightarrow> None
      | Some n \<Rightarrow> (case char_digit c of None \<Rightarrow> None | Some d \<Rightarrow> Some (10 * n + d)))"
  by (induction s arbitrary: acc) (auto split: option.splits)

lemma js_of_nat_nonempty [simp]: "js_of_nat n \<noteq> []"
  by (subst js_of_nat.simps) simp

lemma js_digits_of_nat [simp]: "js_digits (js_of_nat n) = Some n"
proof -
  have "js_digits_from 0 (js_of_nat n) = Some n"
  proof (induction n rule: js_of_nat.induct)
    case (1 n)
    then show ?case
      by (cases "n < 10") (simp_all add: js_of_nat.simps [of n] js_digits_from_append)
  qed
  then show ?thesis by (simp add: js_digits_def)
qed

lemma js_of_nat_inj: "js_of_nat m = js_of_nat n \<longleftrightarrow> m = n"
  by (metis js_digits_of_nat option.inject)

lemma js_of_nat_digits: "c \<in> set (js_of_nat n) \<Longrightarrow> \<exists>d<10. c = digit_char d"
proof (induction n rule: js_of_nat.induct)
  case (1 n)
  have "\<exists>d<10. digit_char (n mod 10) = digit_char d"
    by (rule exI [of _ "n mod 10"]) simp
  with 1 show ?case
    by (cases "n < 10") (auto simp: js_of_nat.simps [of n])
qed

lemma length_js_of_nat_lt100: "n < 100 \<Longrightarrow> length (pad2 (js_of_nat n)) = 2"
  by (subst js_of_nat.simps, subst js_of_nat.simps) (auto simp: pad2_def)

lemma js_digits_pad2 [simp]: "js_digits (pad2 (js_of_nat n)) = Some n"
proof -
  have z: "char_digit (CHR ''0'') = Some 0" by (simp add: char_digit_def)
  have "js_digits_from 0 (replicate k (CHR ''0'') @ s) = js_digits_from 0 s" for k s
    by (induction k) (simp_all add: z)
  then show ?thesis
    using js_digits_of_nat [of n] by (simp add: js_digits_def pad2_def)
qed

section \<open>Objects in insertion order\<close>

fun js_set :: "'k \<Rightarrow> 'v \<Rightarrow> ('k \<times> 'v) list \<Rightarrow> ('k \<times> 'v) list" where
  "js_set k v [] = [(k, v)]"
| "js_set k v ((a, b) # m) = (if a = k then (a, v) # m else (a, b) # js_set k v m)"

definition js_delete :: "'k \<Rightarrow> ('k \<times> 'v) list \<Rightarrow> ('k \<times> 'v) list" where
  "js_delete k m = filter (\<lambda>p. fst p \<noteq> k) m"

lemma map_of_js_set [simp]: "map_of (js_set k v m) = (map_of m)(k \<mapsto> v)"
  by (induction m) auto

lemma map_of_js_delete [simp]: "map_of (js_delete k m) = (map_of m)(k := None)"
  by (induction m) (auto simp: js_delete_def fun_eq_iff)

lemma set_keys_js_set [simp]: "fst ` set (js_set k v m) = insert k (fst ` set m)"
proof (induction m)
  case (Cons p m)
  obtain a b where [simp]: "p = (a, b)" by fastforce
  show ?case using Cons by (cases "a = k") (simp_all add: insert_commute)
qed simp

lemma distinct_js_set [simp]: "distinct (map fst m) \<Longrightarrow> distinct (map fst (js_set k v m))"
  by (induction m) auto

lemma distinct_js_delete [simp]: "distinct (map fst m) \<Longrightarrow> distinct (map fst (js_delete k m))"
  by (induction m) (auto simp: js_delete_def)

section \<open>Lists\<close>

lemma find_Some_iff2: "List.find P xs = Some x \<Longrightarrow> P x \<and> x \<in> set xs"
  by (induction xs) (auto split: if_splits)

lemma find_None_set: "List.find P xs = None \<longleftrightarrow> (\<forall>x\<in>set xs. \<not> P x)"
  by (auto simp: find_None_iff)

lemma find_distinct_key:
  "distinct (map f xs) \<Longrightarrow> x \<in> set xs \<Longrightarrow> List.find (\<lambda>y. f y = f x) xs = Some x"
  by (induction xs) (auto simp: rev_image_eqI)

lemma distinct_map_filter_key: "distinct (map f xs) \<Longrightarrow> distinct (map f (filter P xs))"
  by (induction xs) auto

section \<open>The machine interface\<close>

text \<open>
  A component with state is a machine: an initial state, one step function over its events, and
  an invariant. The laws are that the initial state has the invariant and every step keeps it;
  the lemmas lift this to the states that a sequence of events reaches.
\<close>

locale machine =
  fixes init :: 's
    and step :: "'e \<Rightarrow> 's \<Rightarrow> 's"
    and inv :: "'s \<Rightarrow> bool"
  assumes inv_init: "inv init"
    and inv_step: "inv s \<Longrightarrow> inv (step e s)"
begin

lemma inv_fold: "inv s \<Longrightarrow> inv (fold step es s)"
  by (induction es arbitrary: s) (auto intro: inv_step)

lemma inv_run: "inv (fold step es init)"
  by (rule inv_fold) (rule inv_init)

lemma run_induct:
  assumes "P init" and "\<And>s e. inv s \<Longrightarrow> P s \<Longrightarrow> P (step e s)"
  shows "P (fold step es init)"
proof -
  have "inv s \<Longrightarrow> P s \<Longrightarrow> P (fold step es s)" for s
    by (induction es arbitrary: s) (auto intro: assms(2) inv_step)
  then show ?thesis by (simp add: inv_init assms(1))
qed

end

end
