(* ===== verification/Block_Catalog.thy ===== *)
theory Block_Catalog
  imports Prelude
begin

text \<open>
  The catalogue of building blocks, \<open>components/shared/BlockCategories.tsx\<close> and the type
  \<open>Block\<close> of \<open>BlockTypes.ts\<close>.

  A block's icon is a component of an icon library; it is kept as the component's name. The
  catalogue is a constant of the source and is written out in full. \<open>nodeTypeToBlockMap\<close> is the
  reduction over the catalogue that every other component uses to find the block of a node type;
  the lemmas show that no block shadows another, so the reduction is a faithful index.
\<close>

record block =
  b_category :: string
  b_node_type :: string
  b_label :: string
  b_icon :: string
  b_description :: string
  b_isFavorite :: "bool option"
  b_status :: "string option"

text \<open>No entry of the catalogue sets \<open>isFavorite\<close>.\<close>

definition mk_block :: "string \<Rightarrow> string \<Rightarrow> string \<Rightarrow> string \<Rightarrow> string \<Rightarrow> string option \<Rightarrow> block" where
  "mk_block c n l i d st =
     \<lparr>b_category = c, b_node_type = n, b_label = l, b_icon = i, b_description = d,
      b_isFavorite = None, b_status = st\<rparr>"

text \<open>A category of the catalogue; \<open>expanded\<close> is the optional field that the block panel adds.\<close>

record block_category =
  c_category :: string
  c_icon :: string
  c_blocks :: "block list"
  c_expanded :: "bool option"

definition trigger_blocks :: "block list" where
  "trigger_blocks =
   [mk_block ''trigger'' ''schedule'' ''Schedule'' ''Calendar''
      ''Start a workflow at specified times or intervals'' (Some ''success''),
    mk_block ''trigger'' ''calendar_event'' ''Google Calendar Event'' ''CalendarClock''
      ''Trigger a workflow when a calendar event occurs'' None,
    mk_block ''trigger'' ''webhook'' ''Webhook'' ''Globe''
      ''Trigger a workflow when a webhook is received'' None,
    mk_block ''trigger'' ''email_trigger'' ''Email Received'' ''Mail''
      ''Initiate a workflow when a specific email is received'' None,
    mk_block ''trigger'' ''file_upload'' ''File Upload'' ''FileText''
      ''Begin a workflow when a file is uploaded to a specified location'' None]"

definition action_blocks :: "block list" where
  "action_blocks =
   [mk_block ''action'' ''send_email'' ''Send Email'' ''Mail''
      ''Compose and send an email as part of the workflow'' (Some ''pending''),
    mk_block ''action'' ''google_calendar_create_event'' ''Create Google Calendar Event'' ''Calendar''
      ''Create a Google Calendar event as part of the workflow'' None,
    mk_block ''action'' ''send_sms'' ''Send SMS'' ''MessageSquare''
      ''Send an SMS message to a specified phone number'' (Some ''failed''),
    mk_block ''action'' ''send_notification'' ''Send Notification'' ''Bell''
      ''Dispatch a notification to users or systems'' None,
    mk_block ''action'' ''create_task'' ''Create Task'' ''FileText''
      ''Generate a new task or to-do item in a task management system'' None,
    mk_block ''action'' ''query_database'' ''Query Database'' ''Database''
      ''Execute a database query and retrieve results'' None,
    mk_block ''action'' ''transform_data'' ''Transform Data'' ''Settings''
      ''Modify, format, or restructure data within the workflow'' None,
    mk_block ''action'' ''export_csv'' ''Export to CSV'' ''FileText''
      ''Convert and save data to a CSV file format'' None,
    mk_block ''action'' ''import_data'' ''Import Data'' ''Database''
      ''Load data from external sources into the workflow'' None,
    mk_block ''action'' ''http_request'' ''HTTP Request'' ''Globe''
      ''Send an HTTP request to an external API or service'' None,
    mk_block ''action'' ''api_call'' ''API Call'' ''Globe''
      ''Make a call to a specific API endpoint'' None,
    mk_block ''action'' ''webhook_send'' ''Send Webhook'' ''Globe''
      ''Dispatch a webhook to trigger actions in other systems'' None,
    mk_block ''action'' ''oauth_connect'' ''OAuth Connect'' ''Shield''
      ''Establish a secure OAuth connection with an external service'' None,
    mk_block ''action'' ''slack_message'' ''Slack Message'' ''MessageSquare''
      ''Send a message to a Slack channel or user'' None,
    mk_block ''action'' ''teams_message'' ''Teams Message'' ''MessageSquare''
      ''Post a message to a Microsoft Teams channel or chat'' None,
    mk_block ''action'' ''push_notification'' ''Push Notification'' ''Bell''
      ''Send a push notification to mobile devices'' None,
    mk_block ''action'' ''in_app_notification'' ''In-App Notification'' ''Bell''
      ''Display a notification within the application interface'' None,
    mk_block ''action'' ''create_user'' ''Create User'' ''Users''
      ''Add a new user to the system'' None,
    mk_block ''action'' ''update_user'' ''Update User'' ''Users''
      ''Modify existing user information'' None,
    mk_block ''action'' ''assign_role'' ''Assign Role'' ''Shield''
      ''Assign a specific role or permission to a user'' None,
    mk_block ''action'' ''send_welcome_email'' ''Send Welcome Email'' ''Mail''
      ''Automatically send a welcome email to newly created users'' None,
    mk_block ''action'' ''track_event'' ''Track Event'' ''BarChart2''
      ''Record a specific event or action for analytics purposes'' None,
    mk_block ''action'' ''log_metric'' ''Log Metric'' ''BarChart2''
      ''Record a numerical metric or measurement'' None,
    mk_block ''action'' ''generate_report'' ''Generate Report'' ''FileText''
      ''Create a comprehensive report based on collected data'' None,
    mk_block ''action'' ''export_analytics'' ''Export Analytics'' ''Database''
      ''Export analytics data to an external file or system'' None]"

definition blockCategories :: "block_category list" where
  "blockCategories =
   [\<lparr>c_category = ''Triggers'', c_icon = ''Zap'', c_blocks = trigger_blocks, c_expanded = None\<rparr>,
    \<lparr>c_category = ''Actions'', c_icon = ''Cog'', c_blocks = action_blocks, c_expanded = None\<rparr>]"

text \<open>\<open>reduce\<close> over the categories with \<open>forEach\<close> over the blocks: a later block with the same
  type would replace an earlier one.\<close>

definition nodeTypeToBlockMap :: "string \<rightharpoonup> block" where
  "nodeTypeToBlockMap =
     fold (\<lambda>c acc. fold (\<lambda>b acc. acc(b_node_type b \<mapsto> b)) (c_blocks c) acc) blockCategories Map.empty"

section \<open>The index is faithful\<close>

definition all_blocks :: "block list" where
  "all_blocks = concat (map c_blocks blockCategories)"

lemma fold_index_notin:
  "k \<notin> f ` set bs \<Longrightarrow> fold (\<lambda>b acc. acc(f b \<mapsto> b)) bs m k = m k"
  by (induction bs arbitrary: m) auto

lemma fold_index_distinct:
  "distinct (map f bs) \<Longrightarrow> b \<in> set bs \<Longrightarrow> fold (\<lambda>b acc. acc(f b \<mapsto> b)) bs m (f b) = Some b"
  by (induction bs arbitrary: m) (auto simp: fold_index_notin)

lemma fold_index_dom: "dom (fold (\<lambda>b acc. acc(f b \<mapsto> b)) bs m) = dom m \<union> f ` set bs"
  by (induction bs arbitrary: m) auto

lemma fold_index_concat:
  "fold (\<lambda>c acc. fold (\<lambda>b acc. acc(f b \<mapsto> b)) (g c) acc) cs m =
   fold (\<lambda>b acc. acc(f b \<mapsto> b)) (concat (map g cs)) m"
  by (induction cs arbitrary: m) auto

lemma nodeTypeToBlockMap_fold:
  "nodeTypeToBlockMap = fold (\<lambda>b acc. acc(b_node_type b \<mapsto> b)) all_blocks Map.empty"
  by (simp add: nodeTypeToBlockMap_def all_blocks_def fold_index_concat)

lemma distinct_node_types: "distinct (map b_node_type all_blocks)"
  by (simp add: all_blocks_def blockCategories_def trigger_blocks_def action_blocks_def mk_block_def)

lemma block_category_values: "b \<in> set all_blocks \<Longrightarrow> b_category b = ''trigger'' \<or> b_category b = ''action''"
proof -
  have "list_all (\<lambda>b. b_category b = ''trigger'' \<or> b_category b = ''action'') all_blocks"
    by (simp add: all_blocks_def blockCategories_def trigger_blocks_def action_blocks_def mk_block_def)
  then show "b \<in> set all_blocks \<Longrightarrow> b_category b = ''trigger'' \<or> b_category b = ''action''"
    by (simp add: list_all_iff)
qed

lemma nodeTypeToBlockMap_dom: "dom nodeTypeToBlockMap = b_node_type ` set all_blocks"
  by (simp add: nodeTypeToBlockMap_fold fold_index_dom)

lemma nodeTypeToBlockMap_mem: "b \<in> set all_blocks \<Longrightarrow> nodeTypeToBlockMap (b_node_type b) = Some b"
  unfolding nodeTypeToBlockMap_fold by (rule fold_index_distinct [OF distinct_node_types])

lemma nodeTypeToBlockMap_SomeD:
  assumes "nodeTypeToBlockMap t = Some b"
  shows "b \<in> set all_blocks" and "b_node_type b = t"
proof -
  from assms have "t \<in> dom nodeTypeToBlockMap" by blast
  then obtain b' where "b' \<in> set all_blocks" "t = b_node_type b'"
    by (auto simp: nodeTypeToBlockMap_dom)
  with assms nodeTypeToBlockMap_mem show "b \<in> set all_blocks" "b_node_type b = t"
    by auto
qed

lemma nodeTypeToBlockMap_category:
  "nodeTypeToBlockMap t = Some b \<Longrightarrow> b_category b = ''trigger'' \<or> b_category b = ''action''"
  by (rule block_category_values [OF nodeTypeToBlockMap_SomeD(1)])

text \<open>Two entries that the witnesses of other theories use.\<close>

lemma block_send_email_mem:
  "\<exists>b\<in>set all_blocks. b_node_type b = ''send_email'' \<and> b_category b = ''action''"
  by (simp add: all_blocks_def blockCategories_def action_blocks_def trigger_blocks_def mk_block_def)

lemma block_schedule_mem:
  "\<exists>b\<in>set all_blocks. b_node_type b = ''schedule'' \<and> b_category b = ''trigger''"
  by (simp add: all_blocks_def blockCategories_def action_blocks_def trigger_blocks_def mk_block_def)

end
