(* ===== verification/Flow_Store.thy ===== *)
theory Flow_Store
  imports Block_Catalog
begin

text \<open>
  The canvas store, \<open>components/Canvas/flowStore.ts\<close>: a collection of flows, each under a key,
  and the key of the current one. Every operation of the store is one definition here.

  A node carries a reference to its \<open>data\<close> object (a natural number, resolved in the heap of
  theory \<open>Canvas\<close>), because the settings forms change that object in place and the canvas and the
  selection share it. Fields of a flow are optional: spreading a missing flow (\<open>...undefined\<close>)
  makes a flow object without them, and reading such a field throws where the source reads it.

  \<open>applyNodeChanges\<close>, \<open>applyEdgeChanges\<close> and \<open>addEdge\<close> belong to the canvas library; they are
  arguments of the operations that call them, and the facts about them that a lemma uses are the
  predicates \<open>applyEdgeChanges_doc\<close> and \<open>addEdge_doc\<close>.
\<close>

section \<open>State\<close>

record rf_node =
  n_id :: string
  n_type :: "string option"
  n_position :: "real \<times> real"
  n_data :: nat
  n_selected :: "bool option"

datatype marker_type = ArrowClosed

text \<open>\<open>e_extra\<close> holds the own properties that a spread carries along and the store never reads.\<close>

record rf_edge =
  e_id :: string
  e_source :: string
  e_target :: string
  e_sourceHandle :: "string option"
  e_targetHandle :: "string option"
  e_extra :: "(string \<times> string) list"
  e_animated :: bool
  e_stroke :: "string option"
  e_markerEnd :: "(marker_type \<times> string) option"

record connection =
  cn_source :: string
  cn_target :: string
  cn_sourceHandle :: "string option"
  cn_targetHandle :: "string option"

datatype node_change =
    NC_add rf_node
  | NC_remove string
  | NC_replace string rf_node
  | NC_select string bool
  | NC_position string "(real \<times> real) option"
  | NC_dimensions string

datatype edge_change =
    EC_add rf_edge
  | EC_remove string
  | EC_replace string rf_edge
  | EC_select string bool

record handle_anim =
  ha_source :: "bool option"
  ha_target :: "bool option"

type_synonym handle_animations = "string \<rightharpoonup> handle_anim"
type_synonym node_status = "string \<rightharpoonup> string"

datatype handle_type = HSource | HTarget

record flow_data =
  f_nodes :: "rf_node list option"
  f_edges :: "rf_edge list option"
  f_selectedNode :: "rf_node option option"
  f_recentlyUsed :: "block list option"
  f_handleAnimations :: "handle_animations option"
  f_nodeStatus :: "node_status option"

record flow_state =
  flows :: "string \<rightharpoonup> flow_data"
  currentKey :: "string option"

type_synonym 's throwing = "'s \<times> js_error option"

definition defaultFlowData :: flow_data where
  "defaultFlowData =
     \<lparr>f_nodes = Some [], f_edges = Some [], f_selectedNode = Some None, f_recentlyUsed = Some [],
      f_handleAnimations = Some Map.empty, f_nodeStatus = Some Map.empty\<rparr>"

definition init_store :: flow_state where
  "init_store = \<lparr>flows = Map.empty, currentKey = None\<rparr>"

text \<open>\<open>{ ...undefined }\<close>: a flow object with no field.\<close>

definition no_fields :: flow_data where
  "no_fields =
     \<lparr>f_nodes = None, f_edges = None, f_selectedNode = None, f_recentlyUsed = None,
      f_handleAnimations = None, f_nodeStatus = None\<rparr>"

definition spread_flow :: "flow_state \<Rightarrow> string \<Rightarrow> flow_data" where
  "spread_flow s k = (case flows s k of None \<Rightarrow> no_fields | Some f \<Rightarrow> f)"

text \<open>The guard \<open>if (!currentKey) return\<close> that opens every operation.\<close>

definition current_key :: "flow_state \<Rightarrow> string option" where
  "current_key s = truthy_str (currentKey s)"

definition put_flow :: "string \<Rightarrow> flow_data \<Rightarrow> flow_state \<Rightarrow> flow_state" where
  "put_flow k f s = s\<lparr>flows := (flows s)(k \<mapsto> f)\<rparr>"

section \<open>Opening and closing flows\<close>

definition initializeFlow :: "string \<Rightarrow> flow_state \<Rightarrow> flow_state" where
  "initializeFlow key s =
     \<lparr>flows = (flows s)(key \<mapsto> (case flows s key of None \<Rightarrow> defaultFlowData | Some f \<Rightarrow> f)),
      currentKey = Some key\<rparr>"

definition getCurrentKey :: "flow_state \<Rightarrow> string option" where
  "getCurrentKey s = currentKey s"

definition clearFlow :: "string option \<Rightarrow> flow_state \<Rightarrow> flow_state" where
  "clearFlow key s =
     (case (case truthy_str key of Some k \<Rightarrow> Some k | None \<Rightarrow> current_key s) of
        None \<Rightarrow> s
      | Some k \<Rightarrow>
          \<lparr>flows = (flows s)(k := None),
           currentKey = (if currentKey s = Some k then None else currentKey s)\<rparr>)"

section \<open>Reading the current flow\<close>

definition getNodes :: "flow_state \<Rightarrow> rf_node list" where
  "getNodes s =
     (case current_key s of None \<Rightarrow> []
      | Some k \<Rightarrow> (case flows s k of None \<Rightarrow> [] | Some f \<Rightarrow> (case f_nodes f of None \<Rightarrow> [] | Some ns \<Rightarrow> ns)))"

definition getEdges :: "flow_state \<Rightarrow> rf_edge list" where
  "getEdges s =
     (case current_key s of None \<Rightarrow> []
      | Some k \<Rightarrow> (case flows s k of None \<Rightarrow> [] | Some f \<Rightarrow> (case f_edges f of None \<Rightarrow> [] | Some es \<Rightarrow> es)))"

definition getSelectedNode :: "flow_state \<Rightarrow> rf_node option" where
  "getSelectedNode s =
     (case current_key s of None \<Rightarrow> None
      | Some k \<Rightarrow>
          (case flows s k of None \<Rightarrow> None
           | Some f \<Rightarrow> (case f_selectedNode f of None \<Rightarrow> None | Some sel \<Rightarrow> sel)))"

definition getRecentlyUsed :: "flow_state \<Rightarrow> block list" where
  "getRecentlyUsed s =
     (case current_key s of None \<Rightarrow> []
      | Some k \<Rightarrow>
          (case flows s k of None \<Rightarrow> []
           | Some f \<Rightarrow> (case f_recentlyUsed f of None \<Rightarrow> [] | Some bs \<Rightarrow> bs)))"

definition getHandleAnimations :: "flow_state \<Rightarrow> handle_animations" where
  "getHandleAnimations s =
     (case current_key s of None \<Rightarrow> Map.empty
      | Some k \<Rightarrow>
          (case flows s k of None \<Rightarrow> Map.empty
           | Some f \<Rightarrow> (case f_handleAnimations f of None \<Rightarrow> Map.empty | Some h \<Rightarrow> h)))"

definition getCurrentNodeStatus :: "flow_state \<Rightarrow> node_status" where
  "getCurrentNodeStatus s =
     (case current_key s of None \<Rightarrow> Map.empty
      | Some k \<Rightarrow>
          (case flows s k of None \<Rightarrow> Map.empty
           | Some f \<Rightarrow> (case f_nodeStatus f of None \<Rightarrow> Map.empty | Some h \<Rightarrow> h)))"

text \<open>\<open>flows[currentKey]?.nodeStatus[nodeId]\<close>: only the flow may be missing; a flow object without
  the field throws.\<close>

definition getNodeStatus :: "string \<Rightarrow> flow_state \<Rightarrow> string js" where
  "getNodeStatus nodeId s =
     (case current_key s of None \<Rightarrow> Inr ''pending''
      | Some k \<Rightarrow>
          (case flows s k of None \<Rightarrow> Inr ''pending''
           | Some f \<Rightarrow>
               (case f_nodeStatus f of
                  None \<Rightarrow> Inl TypeError
                | Some st \<Rightarrow>
                    Inr (case truthy_str (st nodeId) of None \<Rightarrow> ''pending'' | Some v \<Rightarrow> v))))"

section \<open>Writing the current flow\<close>

definition setNodeStatus :: "string \<Rightarrow> string \<Rightarrow> flow_state \<Rightarrow> flow_state" where
  "setNodeStatus nodeId status s =
     (case current_key s of None \<Rightarrow> s
      | Some k \<Rightarrow>
          (let f = spread_flow s k;
               st = (case f_nodeStatus f of None \<Rightarrow> Map.empty | Some st \<Rightarrow> st)
           in put_flow k (f\<lparr>f_nodeStatus := Some (st(nodeId \<mapsto> status))\<rparr>) s))"

fun set_handle :: "handle_type \<Rightarrow> bool \<Rightarrow> handle_anim option \<Rightarrow> handle_anim" where
  "set_handle HSource v None = \<lparr>ha_source = Some v, ha_target = None\<rparr>"
| "set_handle HTarget v None = \<lparr>ha_source = None, ha_target = Some v\<rparr>"
| "set_handle HSource v (Some h) = h\<lparr>ha_source := Some v\<rparr>"
| "set_handle HTarget v (Some h) = h\<lparr>ha_target := Some v\<rparr>"

definition setHandleAnimation :: "string \<Rightarrow> handle_type \<Rightarrow> bool \<Rightarrow> flow_state \<Rightarrow> flow_state" where
  "setHandleAnimation nodeId handleType v s =
     (case current_key s of None \<Rightarrow> s
      | Some k \<Rightarrow>
          (let f = spread_flow s k;
               h = (case f_handleAnimations f of None \<Rightarrow> Map.empty | Some h \<Rightarrow> h)
           in put_flow k
                (f\<lparr>f_handleAnimations := Some (h(nodeId \<mapsto> set_handle handleType v (h nodeId)))\<rparr>) s))"

definition resetHandleAnimations :: "flow_state \<Rightarrow> flow_state" where
  "resetHandleAnimations s =
     (case current_key s of None \<Rightarrow> s
      | Some k \<Rightarrow> put_flow k ((spread_flow s k)\<lparr>f_handleAnimations := Some Map.empty\<rparr>) s)"

definition setNodes :: "rf_node list \<Rightarrow> flow_state \<Rightarrow> flow_state" where
  "setNodes nodes s =
     (case current_key s of None \<Rightarrow> s
      | Some k \<Rightarrow> put_flow k ((spread_flow s k)\<lparr>f_nodes := Some nodes\<rparr>) s)"

text \<open>The colour of an edge follows the type of its source node.\<close>

definition edgeColor :: "rf_node list \<Rightarrow> string \<Rightarrow> string" where
  "edgeColor nodes src =
     (case List.find (\<lambda>n. n_id n = src) nodes of
        None \<Rightarrow> ''#60a5fa''
      | Some n \<Rightarrow>
          if n_type n = Some ''trigger'' then ''#d97706''
          else if n_type n = Some ''action'' then ''#9333ea''
          else ''#60a5fa'')"

definition process_edge :: "rf_node list \<Rightarrow> rf_edge \<Rightarrow> rf_edge" where
  "process_edge nodes e =
     (let c = edgeColor nodes (e_source e)
      in e\<lparr>e_animated := True, e_stroke := Some c, e_markerEnd := Some (ArrowClosed, c)\<rparr>)"

definition animate_edge :: "rf_edge \<Rightarrow> handle_animations \<Rightarrow> handle_animations" where
  "animate_edge e h =
     (let h1 = (if e_source e \<noteq> [] then h(e_source e \<mapsto> set_handle HSource True (h (e_source e))) else h)
      in if e_target e \<noteq> [] then h1(e_target e \<mapsto> set_handle HTarget True (h1 (e_target e))) else h1)"

definition computeHandleAnimations :: "rf_edge list option \<Rightarrow> handle_animations" where
  "computeHandleAnimations edges =
     (case edges of None \<Rightarrow> Map.empty | Some es \<Rightarrow> fold animate_edge es Map.empty)"

definition setEdges :: "rf_edge list option \<Rightarrow> flow_state \<Rightarrow> flow_state" where
  "setEdges edges s =
     (case current_key s of None \<Rightarrow> s
      | Some k \<Rightarrow>
          (let nodes = (case f_nodes (spread_flow s k) of None \<Rightarrow> [] | Some ns \<Rightarrow> ns);
               processedEdges = map_option (map (process_edge nodes)) edges
           in put_flow k
                ((spread_flow s k)\<lparr>f_edges := processedEdges,
                   f_handleAnimations := Some (computeHandleAnimations processedEdges)\<rparr>) s))"

definition setSelectedNode :: "rf_node option \<Rightarrow> flow_state \<Rightarrow> flow_state" where
  "setSelectedNode node s =
     (case current_key s of None \<Rightarrow> s
      | Some k \<Rightarrow> put_flow k ((spread_flow s k)\<lparr>f_selectedNode := Some node\<rparr>) s)"

section \<open>Canvas events\<close>

definition onNodesChange ::
  "(node_change list \<Rightarrow> rf_node list option \<Rightarrow> rf_node list js) \<Rightarrow>
   node_change list \<Rightarrow> flow_state \<Rightarrow> flow_state throwing" where
  "onNodesChange applyNodeChanges changes s =
     (case current_key s of None \<Rightarrow> (s, None)
      | Some k \<Rightarrow>
          (case flows s k of None \<Rightarrow> (s, None)
           | Some f \<Rightarrow>
               (case applyNodeChanges changes (f_nodes f) of
                  Inl err \<Rightarrow> (s, Some err)
                | Inr ns \<Rightarrow> (put_flow k (f\<lparr>f_nodes := Some ns\<rparr>) s, None))))"

fun removed_id :: "edge_change \<Rightarrow> string option" where
  "removed_id (EC_remove i) = Some i"
| "removed_id _ = None"

definition removed_ids :: "edge_change list \<Rightarrow> string list" where
  "removed_ids changes = List.map_filter removed_id changes"

definition unanimate_edge :: "rf_edge list \<Rightarrow> rf_edge \<Rightarrow> handle_animations \<Rightarrow> handle_animations" where
  "unanimate_edge newEdges edge h =
     (let stillHasSource = (\<exists>e\<in>set newEdges. e_source e = e_source edge);
          h1 = (if e_source edge \<noteq> [] \<and> h (e_source edge) \<noteq> None \<and> \<not> stillHasSource
                then h(e_source edge \<mapsto> set_handle HSource False (h (e_source edge))) else h);
          stillHasTarget = (\<exists>e\<in>set newEdges. e_target e = e_target edge)
      in if e_target edge \<noteq> [] \<and> h1 (e_target edge) \<noteq> None \<and> \<not> stillHasTarget
         then h1(e_target edge \<mapsto> set_handle HTarget False (h1 (e_target edge))) else h1)"

definition onEdgesChange ::
  "(edge_change list \<Rightarrow> rf_edge list option \<Rightarrow> rf_edge list js) \<Rightarrow>
   edge_change list \<Rightarrow> flow_state \<Rightarrow> flow_state throwing" where
  "onEdgesChange applyEdgeChanges changes s =
     (case current_key s of None \<Rightarrow> (s, None)
      | Some k \<Rightarrow>
          (case flows s k of None \<Rightarrow> (s, None)
           | Some f \<Rightarrow>
               (case applyEdgeChanges changes (f_edges f) of
                  Inl err \<Rightarrow> (s, Some err)
                | Inr newEdges \<Rightarrow>
                    (case f_edges f of
                       None \<Rightarrow> (s, Some TypeError)
                     | Some es \<Rightarrow>
                         (let removedEdges = filter (\<lambda>e. e_id e \<in> set (removed_ids changes)) es;
                              h0 = (case f_handleAnimations f of None \<Rightarrow> Map.empty | Some h \<Rightarrow> h);
                              h = fold (unanimate_edge newEdges) removedEdges h0
                          in (put_flow k
                                (f\<lparr>f_edges := Some newEdges, f_handleAnimations := Some h\<rparr>) s,
                              None))))))"

definition connection_edge :: "rf_node list \<Rightarrow> connection \<Rightarrow> rf_edge" where
  "connection_edge nodes params =
     (let c = edgeColor nodes (cn_source params)
      in \<lparr>e_id = ''e'' @ cn_source params @ ''-'' @ cn_target params,
          e_source = cn_source params, e_target = cn_target params,
          e_sourceHandle = cn_sourceHandle params, e_targetHandle = cn_targetHandle params,
          e_extra = [], e_animated = True, e_stroke = Some c, e_markerEnd = Some (ArrowClosed, c)\<rparr>)"

definition onConnect ::
  "(rf_edge \<Rightarrow> rf_edge list \<Rightarrow> rf_edge list) \<Rightarrow> connection \<Rightarrow> flow_state \<Rightarrow> flow_state throwing" where
  "onConnect addEdge params s =
     (if cn_source params = [] \<or> cn_target params = [] then (s, None)
      else (case current_key s of None \<Rightarrow> (s, None)
       | Some k \<Rightarrow>
           (let s1 = setHandleAnimation (cn_source params) HSource True s;
                s2 = setHandleAnimation (cn_target params) HTarget True s1
            in (case flows s2 k of None \<Rightarrow> (s2, None)
                | Some f \<Rightarrow>
                    (case f_nodes f of
                       None \<Rightarrow> (s2, Some TypeError)
                     | Some nodes \<Rightarrow>
                         (put_flow k
                            (f\<lparr>f_edges := Some (addEdge (connection_edge nodes params)
                                 (case f_edges f of None \<Rightarrow> [] | Some es \<Rightarrow> es))\<rparr>) s2,
                          None))))))"

section \<open>Recently used blocks\<close>

definition addRecentlyUsedBlock :: "block \<Rightarrow> flow_state \<Rightarrow> flow_state throwing" where
  "addRecentlyUsedBlock block s =
     (case current_key s of None \<Rightarrow> (s, None)
      | Some k \<Rightarrow>
          (case flows s k of None \<Rightarrow> (s, None)
           | Some f \<Rightarrow>
               (case f_recentlyUsed f of
                  None \<Rightarrow> (s, Some TypeError)
                | Some bs \<Rightarrow>
                    (let filtered = filter (\<lambda>b. b_node_type b \<noteq> b_node_type block) bs
                     in (put_flow k (f\<lparr>f_recentlyUsed := Some (take 5 (block # filtered))\<rparr>) s, None)))))"

definition clearRecentlyUsed :: "flow_state \<Rightarrow> flow_state" where
  "clearRecentlyUsed s =
     (case current_key s of None \<Rightarrow> s
      | Some k \<Rightarrow> put_flow k ((spread_flow s k)\<lparr>f_recentlyUsed := Some []\<rparr>) s)"

section \<open>The store as a machine\<close>

datatype store_event =
    Ev_initializeFlow string
  | Ev_clearFlow "string option"
  | Ev_setNodes "rf_node list"
  | Ev_setEdges "rf_edge list option"
  | Ev_setSelectedNode "rf_node option"
  | Ev_setNodeStatus string string
  | Ev_setHandleAnimation string handle_type bool
  | Ev_resetHandleAnimations
  | Ev_onNodesChange "node_change list"
  | Ev_onEdgesChange "edge_change list"
  | Ev_onConnect connection
  | Ev_addRecentlyUsedBlock block
  | Ev_clearRecentlyUsed

fun store_step ::
  "(node_change list \<Rightarrow> rf_node list option \<Rightarrow> rf_node list js) \<Rightarrow>
   (edge_change list \<Rightarrow> rf_edge list option \<Rightarrow> rf_edge list js) \<Rightarrow>
   (rf_edge \<Rightarrow> rf_edge list \<Rightarrow> rf_edge list) \<Rightarrow>
   store_event \<Rightarrow> flow_state \<Rightarrow> flow_state throwing" where
  "store_step anc aec ae (Ev_initializeFlow k) s = (initializeFlow k s, None)"
| "store_step anc aec ae (Ev_clearFlow k) s = (clearFlow k s, None)"
| "store_step anc aec ae (Ev_setNodes ns) s = (setNodes ns s, None)"
| "store_step anc aec ae (Ev_setEdges es) s = (setEdges es s, None)"
| "store_step anc aec ae (Ev_setSelectedNode n) s = (setSelectedNode n s, None)"
| "store_step anc aec ae (Ev_setNodeStatus n v) s = (setNodeStatus n v s, None)"
| "store_step anc aec ae (Ev_setHandleAnimation n t v) s = (setHandleAnimation n t v s, None)"
| "store_step anc aec ae Ev_resetHandleAnimations s = (resetHandleAnimations s, None)"
| "store_step anc aec ae (Ev_onNodesChange cs) s = onNodesChange anc cs s"
| "store_step anc aec ae (Ev_onEdgesChange cs) s = onEdgesChange aec cs s"
| "store_step anc aec ae (Ev_onConnect c) s = onConnect ae c s"
| "store_step anc aec ae (Ev_addRecentlyUsedBlock b) s = addRecentlyUsedBlock b s"
| "store_step anc aec ae Ev_clearRecentlyUsed s = (clearRecentlyUsed s, None)"

text \<open>What the canvas library documents: changes to defined arrays do not throw; \<open>remove\<close> deletes
  the edges with that identifier and \<open>select\<close> leaves identifiers and ends alone; \<open>addEdge\<close> appends
  an edge with both ends unless the connection is there already.\<close>

definition edge_ends :: "rf_edge \<Rightarrow> string \<times> string \<times> string" where
  "edge_ends e = (e_id e, e_source e, e_target e)"

fun remove_or_select :: "edge_change \<Rightarrow> bool" where
  "remove_or_select (EC_remove i) = True"
| "remove_or_select (EC_select i b) = True"
| "remove_or_select _ = False"

definition applyNodeChanges_doc ::
  "(node_change list \<Rightarrow> rf_node list option \<Rightarrow> rf_node list js) \<Rightarrow> bool" where
  "applyNodeChanges_doc anc \<longleftrightarrow> (\<forall>cs ns. \<exists>ns'. anc cs (Some ns) = Inr ns')"

definition applyEdgeChanges_doc ::
  "(edge_change list \<Rightarrow> rf_edge list option \<Rightarrow> rf_edge list js) \<Rightarrow> bool" where
  "applyEdgeChanges_doc aec \<longleftrightarrow>
     (\<forall>cs es. \<exists>es'. aec cs (Some es) = Inr es' \<and>
        (list_all remove_or_select cs \<longrightarrow>
           map edge_ends es' = map edge_ends (filter (\<lambda>e. e_id e \<notin> set (removed_ids cs)) es)))"

definition addEdge_doc :: "(rf_edge \<Rightarrow> rf_edge list \<Rightarrow> rf_edge list) \<Rightarrow> bool" where
  "addEdge_doc ae \<longleftrightarrow>
     (\<forall>e es. e_source e \<noteq> [] \<and> e_target e \<noteq> [] \<longrightarrow>
        ae e es = es @ [e] \<or>
        ae e es = es \<and> (\<exists>e'\<in>set es. e_source e' = e_source e \<and> e_target e' = e_target e))"

section \<open>Well-formed stores\<close>

text \<open>Every flow has its fields, the recently used blocks are at most five with different types, and
  a current key names a flow. The list of edges may be undefined: the routes pass \<open>undefined\<close> for a
  workflow without edges.\<close>

definition recent_ok :: "block list \<Rightarrow> bool" where
  "recent_ok bs \<longleftrightarrow> distinct (map b_node_type bs) \<and> length bs \<le> 5"

definition wf_flow :: "flow_data \<Rightarrow> bool" where
  "wf_flow f \<longleftrightarrow> f_nodes f \<noteq> None \<and> f_selectedNode f \<noteq> None \<and> f_handleAnimations f \<noteq> None \<and>
     f_nodeStatus f \<noteq> None \<and> (\<exists>bs. f_recentlyUsed f = Some bs \<and> recent_ok bs)"

definition store_inv :: "flow_state \<Rightarrow> bool" where
  "store_inv s \<longleftrightarrow>
     (\<forall>k. current_key s = Some k \<longrightarrow> flows s k \<noteq> None) \<and>
     (\<forall>k f. flows s k = Some f \<longrightarrow> wf_flow f)"

lemma wf_flow_default [simp]: "wf_flow defaultFlowData"
  by (simp add: wf_flow_def defaultFlowData_def recent_ok_def)

lemma flows_put_flow [simp]: "flows (put_flow k f s) = (flows s)(k \<mapsto> f)"
  by (simp add: put_flow_def)

lemma currentKey_put_flow [simp]: "currentKey (put_flow k f s) = currentKey s"
  by (simp add: put_flow_def)

lemma current_key_put_flow [simp]: "current_key (put_flow k f s) = current_key s"
  by (simp add: current_key_def)

lemma put_flow_twice [simp]: "put_flow k g (put_flow k f s) = put_flow k g s"
  by (simp add: put_flow_def)

lemma spread_put_flow [simp]: "spread_flow (put_flow k f s) k' = (if k' = k then f else spread_flow s k')"
  by (simp add: spread_flow_def)

lemma spread_flow_Some [simp]: "flows s k = Some f \<Longrightarrow> spread_flow s k = f"
  by (simp add: spread_flow_def)

lemma current_key_initializeFlow [simp]:
  "current_key (initializeFlow k s) = (if k = [] then None else Some k)"
  by (simp add: current_key_def initializeFlow_def)

lemma store_inv_current:
  assumes "store_inv s" "current_key s = Some k"
  obtains f where "flows s k = Some f" "wf_flow f" "spread_flow s k = f"
  using assms by (auto simp: store_inv_def)

lemma store_inv_put_flow:
  "store_inv s \<Longrightarrow> wf_flow f \<Longrightarrow> store_inv (put_flow k f s)"
  by (auto simp: store_inv_def)

lemma store_inv_init: "store_inv init_store"
  by (simp add: store_inv_def init_store_def current_key_def)

lemma recent_ok_add:
  "recent_ok bs \<Longrightarrow> recent_ok (take 5 (b # filter (\<lambda>x. b_node_type x \<noteq> b_node_type b) bs))"
proof -
  assume "recent_ok bs"
  then have "distinct (map b_node_type (b # filter (\<lambda>x. b_node_type x \<noteq> b_node_type b) bs))"
    by (auto simp: recent_ok_def intro: distinct_map_filter_key)
  then have "distinct (take 5 (map b_node_type (b # filter (\<lambda>x. b_node_type x \<noteq> b_node_type b) bs)))"
    by (rule distinct_take)
  then show ?thesis by (simp add: recent_ok_def take_map del: take_Suc_Cons)
qed

subsection \<open>Every operation keeps a well-formed store well-formed\<close>

lemma initializeFlow_inv [js_intros]: "store_inv s \<Longrightarrow> store_inv (initializeFlow k s)"
  by (auto simp: store_inv_def initializeFlow_def current_key_def truthy_str_Some split: option.splits)

lemma clearFlow_inv [js_intros]: "store_inv s \<Longrightarrow> store_inv (clearFlow k s)"
  by (auto simp: store_inv_def clearFlow_def current_key_def truthy_str_Some split: option.splits if_splits)

text \<open>A store update that rewrites one field of the current flow.\<close>

lemma update_current_inv:
  assumes "store_inv s" "\<And>f. wf_flow f \<Longrightarrow> wf_flow (g f)"
  shows "store_inv (case current_key s of None \<Rightarrow> s | Some k \<Rightarrow> put_flow k (g (spread_flow s k)) s)"
proof (cases "current_key s")
  case (Some k)
  with assms(1) obtain f where "wf_flow f" "spread_flow s k = f" by (rule store_inv_current)
  with Some assms show ?thesis by (simp add: store_inv_put_flow)
qed (simp add: assms)

lemma setNodes_inv [js_intros]: "store_inv s \<Longrightarrow> store_inv (setNodes ns s)"
  unfolding setNodes_def by (rule update_current_inv) (auto simp: wf_flow_def)

lemma setSelectedNode_inv [js_intros]: "store_inv s \<Longrightarrow> store_inv (setSelectedNode n s)"
  unfolding setSelectedNode_def by (rule update_current_inv) (auto simp: wf_flow_def)

lemma clearRecentlyUsed_inv [js_intros]: "store_inv s \<Longrightarrow> store_inv (clearRecentlyUsed s)"
  unfolding clearRecentlyUsed_def by (rule update_current_inv) (auto simp: wf_flow_def recent_ok_def)

lemma setNodeStatus_inv [js_intros]: "store_inv s \<Longrightarrow> store_inv (setNodeStatus n v s)"
  unfolding setNodeStatus_def Let_def by (rule update_current_inv) (auto simp: wf_flow_def)

lemma setHandleAnimation_inv [js_intros]: "store_inv s \<Longrightarrow> store_inv (setHandleAnimation n t v s)"
  unfolding setHandleAnimation_def Let_def by (rule update_current_inv) (auto simp: wf_flow_def)

lemma resetHandleAnimations_inv [js_intros]: "store_inv s \<Longrightarrow> store_inv (resetHandleAnimations s)"
  unfolding resetHandleAnimations_def by (rule update_current_inv) (auto simp: wf_flow_def)

lemma setEdges_inv [js_intros]: "store_inv s \<Longrightarrow> store_inv (setEdges es s)"
  unfolding setEdges_def Let_def by (rule update_current_inv) (auto simp: wf_flow_def)

lemma onNodesChange_inv [js_intros]: "store_inv s \<Longrightarrow> store_inv (fst (onNodesChange anc cs s))"
  by (auto simp: onNodesChange_def split: option.splits sum.splits intro!: store_inv_put_flow)
    (auto simp: store_inv_def wf_flow_def)

lemma onEdgesChange_inv [js_intros]: "store_inv s \<Longrightarrow> store_inv (fst (onEdgesChange aec cs s))"
  by (auto simp: onEdgesChange_def Let_def split: option.splits sum.splits intro!: store_inv_put_flow)
    (auto simp: store_inv_def wf_flow_def)

lemma addRecentlyUsedBlock_inv [js_intros]: "store_inv s \<Longrightarrow> store_inv (fst (addRecentlyUsedBlock b s))"
proof -
  assume s: "store_inv s"
  have "wf_flow (f\<lparr>f_recentlyUsed := Some (take 5 (b # filter (\<lambda>x. b_node_type x \<noteq> b_node_type b) bs))\<rparr>)"
    if "wf_flow f" "f_recentlyUsed f = Some bs" for f bs
    using that recent_ok_add [of bs b] by (auto simp: wf_flow_def)
  with s show ?thesis
    by (auto simp: addRecentlyUsedBlock_def Let_def simp del: take_Suc_Cons
        split: option.splits intro!: store_inv_put_flow) (auto simp: store_inv_def)
qed

lemma onConnect_inv [js_intros]: "store_inv s \<Longrightarrow> store_inv (fst (onConnect ae c s))"
proof -
  assume s: "store_inv s"
  let ?s2 = "setHandleAnimation (cn_target c) HTarget True (setHandleAnimation (cn_source c) HSource True s)"
  have s2: "store_inv ?s2" by (intro setHandleAnimation_inv s)
  then have "store_inv (put_flow k (f\<lparr>f_edges := Some es\<rparr>) ?s2)" if "flows ?s2 k = Some f" for k f es
    using that by (intro store_inv_put_flow) (auto simp: store_inv_def wf_flow_def)
  with s s2 show ?thesis
    by (auto simp: onConnect_def Let_def split: option.splits)
qed

lemma store_step_inv: "store_inv s \<Longrightarrow> store_inv (fst (store_step anc aec ae ev s))"
  by (cases ev) (auto intro: js_intros)

interpretation store: machine init_store "\<lambda>ev s. fst (store_step anc aec ae ev s)" store_inv
  for anc aec ae
  by unfold_locales (auto intro: store_inv_init store_step_inv)

end
