(* ===== verification/Flow_Laws.thy ===== *)
theory Flow_Laws
  imports Flow_Store
begin

text \<open>
  Correctness of the canvas store of theory \<open>Flow_Store\<close>: the animated handles are exactly the
  connected ones, no operation throws in a reachable store, flows under different keys do not
  interfere, and the recently used blocks are the most recent ones.
\<close>

section \<open>Handles are animated exactly while they are connected\<close>

definition src_on :: "handle_animations \<Rightarrow> string \<Rightarrow> bool" where
  "src_on h n \<longleftrightarrow> (\<exists>a. h n = Some a \<and> ha_source a = Some True)"

definition tgt_on :: "handle_animations \<Rightarrow> string \<Rightarrow> bool" where
  "tgt_on h n \<longleftrightarrow> (\<exists>a. h n = Some a \<and> ha_target a = Some True)"

definition anim_exact :: "handle_animations \<Rightarrow> rf_edge list \<Rightarrow> bool" where
  "anim_exact h es \<longleftrightarrow>
     (\<forall>n. n \<noteq> [] \<longrightarrow> (src_on h n \<longleftrightarrow> n \<in> e_source ` set es) \<and> (tgt_on h n \<longleftrightarrow> n \<in> e_target ` set es))"

definition flow_anim :: "flow_data \<Rightarrow> bool" where
  "flow_anim f \<longleftrightarrow>
     anim_exact (case f_handleAnimations f of None \<Rightarrow> Map.empty | Some h \<Rightarrow> h)
       (case f_edges f of None \<Rightarrow> [] | Some es \<Rightarrow> es)"

definition anim_inv :: "flow_state \<Rightarrow> bool" where
  "anim_inv s \<longleftrightarrow> (\<forall>k f. flows s k = Some f \<longrightarrow> flow_anim f)"

text \<open>What the application does with the store: the canvas reports that edges were removed or selected, it never adds or replaces an edge itself, and no
  component sets or resets the animation of handles directly.\<close>

fun ui_event :: "store_event \<Rightarrow> bool" where
  "ui_event (Ev_onEdgesChange cs) = list_all remove_or_select cs"
| "ui_event (Ev_setHandleAnimation n t v) = False"
| "ui_event Ev_resetHandleAnimations = False"
| "ui_event _ = True"

lemma src_on_upd [simp]:
  "src_on (h(m \<mapsto> set_handle HSource v a)) n = (if n = m then v else src_on h n)"
  "src_on (h(m \<mapsto> set_handle HTarget v (h m))) n = src_on h n"
  by (cases a; auto simp: src_on_def) (cases "h m"; auto simp: src_on_def)

lemma tgt_on_upd [simp]:
  "tgt_on (h(m \<mapsto> set_handle HTarget v a)) n = (if n = m then v else tgt_on h n)"
  "tgt_on (h(m \<mapsto> set_handle HSource v (h m))) n = tgt_on h n"
  by (cases a; auto simp: tgt_on_def) (cases "h m"; auto simp: tgt_on_def)

lemma src_on_animate [simp]:
  "n \<noteq> [] \<Longrightarrow> src_on (animate_edge e h) n \<longleftrightarrow> n = e_source e \<or> src_on h n"
  by (auto simp: animate_edge_def Let_def)

lemma tgt_on_animate [simp]:
  "n \<noteq> [] \<Longrightarrow> tgt_on (animate_edge e h) n \<longleftrightarrow> n = e_target e \<or> tgt_on h n"
  by (auto simp: animate_edge_def Let_def)

lemma src_on_fold_animate:
  "n \<noteq> [] \<Longrightarrow> src_on (fold animate_edge es h) n \<longleftrightarrow> n \<in> e_source ` set es \<or> src_on h n"
  by (induction es arbitrary: h) auto

lemma tgt_on_fold_animate:
  "n \<noteq> [] \<Longrightarrow> tgt_on (fold animate_edge es h) n \<longleftrightarrow> n \<in> e_target ` set es \<or> tgt_on h n"
  by (induction es arbitrary: h) auto

lemma anim_exact_compute:
  "anim_exact (computeHandleAnimations es) (case es of None \<Rightarrow> [] | Some es \<Rightarrow> es)"
  by (cases es)
    (simp_all add: anim_exact_def computeHandleAnimations_def src_on_fold_animate tgt_on_fold_animate,
      simp_all add: src_on_def tgt_on_def)

lemma image_iff_eq: "n \<in> f ` S \<longleftrightarrow> (\<exists>e\<in>S. f e = n)"
  by auto

lemma src_on_unanimate:
  "n \<noteq> [] \<Longrightarrow>
   src_on (unanimate_edge new e h) n \<longleftrightarrow> src_on h n \<and> (n = e_source e \<longrightarrow> n \<in> e_source ` set new)"
  by (auto simp: unanimate_edge_def Let_def image_iff_eq) (auto simp: src_on_def)

lemma tgt_on_unanimate:
  "n \<noteq> [] \<Longrightarrow>
   tgt_on (unanimate_edge new e h) n \<longleftrightarrow> tgt_on h n \<and> (n = e_target e \<longrightarrow> n \<in> e_target ` set new)"
  by (auto simp: unanimate_edge_def Let_def image_iff_eq) (auto simp: tgt_on_def split: if_splits)

lemma src_on_fold_unanimate:
  "n \<noteq> [] \<Longrightarrow> src_on (fold (unanimate_edge new) es h) n \<longleftrightarrow>
     src_on h n \<and> (n \<in> e_source ` set es \<longrightarrow> n \<in> e_source ` set new)"
  by (induction es arbitrary: h) (auto simp: src_on_unanimate)

lemma tgt_on_fold_unanimate:
  "n \<noteq> [] \<Longrightarrow> tgt_on (fold (unanimate_edge new) es h) n \<longleftrightarrow>
     tgt_on h n \<and> (n \<in> e_target ` set es \<longrightarrow> n \<in> e_target ` set new)"
  by (induction es arbitrary: h) (auto simp: tgt_on_unanimate)

lemma edge_ends_image:
  "map edge_ends es' = map edge_ends es \<Longrightarrow>
   e_source ` set es' = e_source ` set es \<and> e_target ` set es' = e_target ` set es"
proof -
  assume "map edge_ends es' = map edge_ends es"
  then have "edge_ends ` set es' = edge_ends ` set es" by (metis set_map)
  then have "(fst \<circ> snd) ` edge_ends ` set es' = (fst \<circ> snd) ` edge_ends ` set es"
    and "(snd \<circ> snd) ` edge_ends ` set es' = (snd \<circ> snd) ` edge_ends ` set es" by simp_all
  then show ?thesis by (simp add: image_image edge_ends_def o_def)
qed

lemma anim_exact_remove:
  assumes "anim_exact h es"
    and "map edge_ends new = map edge_ends (filter (\<lambda>e. e_id e \<notin> R) es)"
  shows "anim_exact (fold (unanimate_edge new) (filter (\<lambda>e. e_id e \<in> R) es) h) new"
proof -
  have "e_source ` set new = e_source ` {e \<in> set es. e_id e \<notin> R}"
    and "e_target ` set new = e_target ` {e \<in> set es. e_id e \<notin> R}"
    using edge_ends_image [OF assms(2)] by auto
  with assms(1) show ?thesis
    by (auto simp: anim_exact_def src_on_fold_unanimate tgt_on_fold_unanimate image_iff)
qed

subsection \<open>The operations\<close>

lemma anim_inv_put_flow: "anim_inv s \<Longrightarrow> flow_anim f \<Longrightarrow> anim_inv (put_flow k f s)"
  by (auto simp: anim_inv_def)

lemma anim_inv_current: "anim_inv s \<Longrightarrow> flows s k = Some f \<Longrightarrow> flow_anim f"
  by (auto simp: anim_inv_def)

lemma flow_anim_no_fields: "flow_anim no_fields"
  by (simp add: flow_anim_def no_fields_def anim_exact_def src_on_def tgt_on_def)

lemma flow_anim_spread: "anim_inv s \<Longrightarrow> flow_anim (spread_flow s k)"
  by (auto simp: spread_flow_def flow_anim_no_fields anim_inv_def split: option.splits)

lemma flow_anim_default: "flow_anim defaultFlowData"
  by (simp add: flow_anim_def defaultFlowData_def anim_exact_def src_on_def tgt_on_def)

lemma flow_anim_frame:
  "flow_anim (f\<lparr>f_nodes := a\<rparr>) = flow_anim f" "flow_anim (f\<lparr>f_selectedNode := b\<rparr>) = flow_anim f"
  "flow_anim (f\<lparr>f_recentlyUsed := c\<rparr>) = flow_anim f" "flow_anim (f\<lparr>f_nodeStatus := d\<rparr>) = flow_anim f"
  by (simp_all add: flow_anim_def)

lemmas anim_frame = flow_anim_frame flow_anim_spread anim_inv_put_flow anim_inv_current

lemma onConnect_flow:
  assumes "store_inv s" "current_key s = Some k" "cn_source c \<noteq> []" "cn_target c \<noteq> []"
  obtains f nodes h where "flows s k = Some f" "f_nodes f = Some nodes" "f_handleAnimations f = Some h"
    "onConnect ae c s =
       (put_flow k (f\<lparr>f_handleAnimations :=
            Some (animate_edge (connection_edge nodes c) h),
          f_edges := Some (ae (connection_edge nodes c) (case f_edges f of None \<Rightarrow> [] | Some es \<Rightarrow> es))\<rparr>) s,
        None)"
proof -
  from assms(1,2) obtain f where f: "flows s k = Some f" "wf_flow f" by (rule store_inv_current)
  then obtain nodes h where nh: "f_nodes f = Some nodes" "f_handleAnimations f = Some h"
    by (auto simp: wf_flow_def)
  let ?f' = "f\<lparr>f_handleAnimations := Some (animate_edge (connection_edge nodes c) h)\<rparr>"
  have "setHandleAnimation (cn_target c) HTarget True (setHandleAnimation (cn_source c) HSource True s)
      = put_flow k ?f' s"
    using assms f nh
    by (simp add: setHandleAnimation_def animate_edge_def connection_edge_def Let_def)
  with assms f nh that [of f nodes h] show thesis
    by (simp add: onConnect_def)
qed

lemma onConnect_anim:
  assumes "addEdge_doc ae" "store_inv s" "anim_inv s"
  shows "anim_inv (fst (onConnect ae c s))"
proof (cases "cn_source c = [] \<or> cn_target c = [] \<or> current_key s = None")
  case True
  with assms show ?thesis by (auto simp: onConnect_def)
next
  case False
  then obtain k where k: "current_key s = Some k" by auto
  with False assms(2) obtain f nodes h where f: "flows s k = Some f" and h: "f_handleAnimations f = Some h"
    and eq: "onConnect ae c s =
       (put_flow k (f\<lparr>f_handleAnimations := Some (animate_edge (connection_edge nodes c) h),
          f_edges := Some (ae (connection_edge nodes c) (case f_edges f of None \<Rightarrow> [] | Some es \<Rightarrow> es))\<rparr>) s,
        None)"
    using onConnect_flow [of s k c ae] by blast
  define es where es: "es = (case f_edges f of None \<Rightarrow> [] | Some es \<Rightarrow> es)"
  let ?e = "connection_edge nodes c" and ?es = es
  have ends: "e_source ?e \<noteq> []" "e_target ?e \<noteq> []"
    using False by (simp_all add: connection_edge_def Let_def)
  with assms(1) have "ae ?e ?es = ?es @ [?e] \<or>
      ae ?e ?es = ?es \<and> (\<exists>e'\<in>set ?es. e_source e' = e_source ?e \<and> e_target e' = e_target ?e)"
    by (simp add: addEdge_doc_def)
  moreover have "anim_exact h ?es"
    using anim_inv_current [OF assms(3) f] h by (simp add: flow_anim_def es)
  ultimately have "anim_exact (animate_edge ?e h) (ae ?e ?es)"
    by (auto simp: anim_exact_def image_iff_eq)
  with eq assms(3) show ?thesis
    by (simp add: flow_anim_def anim_inv_put_flow es)
qed

lemma onEdgesChange_anim:
  assumes "applyEdgeChanges_doc aec" "list_all remove_or_select cs" "anim_inv s"
  shows "anim_inv (fst (onEdgesChange aec cs s))"
proof -
  have "map edge_ends new = map edge_ends (filter (\<lambda>e. e_id e \<notin> set (removed_ids cs)) es)"
    if "aec cs (Some es) = Inr new" for new es
    using assms(1,2) that by (auto simp: applyEdgeChanges_doc_def dest!: spec [of _ cs] spec [of _ es])
  with assms(3) show ?thesis
    by (auto simp: onEdgesChange_def Let_def flow_anim_def split: option.splits sum.splits
        intro!: anim_inv_put_flow anim_exact_remove dest!: anim_inv_current [OF assms(3)])
qed

lemma store_step_anim:
  assumes "applyEdgeChanges_doc aec" "addEdge_doc ae" "ui_event ev" "store_inv s" "anim_inv s"
  shows "anim_inv (fst (store_step anc aec ae ev s))"
proof (cases ev)
  case (Ev_initializeFlow k)
  with assms show ?thesis
    by (auto simp: anim_inv_def initializeFlow_def flow_anim_default split: option.splits)
next
  case (Ev_clearFlow k)
  with assms show ?thesis
    by (auto simp: anim_inv_def clearFlow_def split: option.splits if_splits)
next
  case (Ev_setEdges es)
  have "flow_anim (f\<lparr>f_edges := es', f_handleAnimations := Some (computeHandleAnimations es')\<rparr>)" for f es'
    using anim_exact_compute by (simp add: flow_anim_def)
  with Ev_setEdges assms show ?thesis
    by (simp add: setEdges_def Let_def anim_inv_put_flow split: option.split)
next
  case (Ev_onEdgesChange cs)
  with assms show ?thesis by (simp add: onEdgesChange_anim)
next
  case (Ev_onConnect c)
  with assms show ?thesis by (simp add: onConnect_anim)
next
  case (Ev_onNodesChange cs)
  with assms show ?thesis
    by (auto simp: onNodesChange_def flow_anim_frame split: option.splits sum.splits
        intro!: anim_inv_put_flow intro: anim_inv_current)
next
  case (Ev_addRecentlyUsedBlock b)
  with assms show ?thesis
    by (auto simp: addRecentlyUsedBlock_def Let_def flow_anim_frame split: option.splits
        intro!: anim_inv_put_flow intro: anim_inv_current)
qed (use assms in \<open>simp_all add: setNodes_def setSelectedNode_def setNodeStatus_def clearRecentlyUsed_def
      Let_def anim_frame split: option.split\<close>)

lemma run_anim:
  assumes "applyEdgeChanges_doc aec" "addEdge_doc ae" "list_all ui_event evs" "store_inv s" "anim_inv s"
  shows "anim_inv (fold (\<lambda>ev s. fst (store_step anc aec ae ev s)) evs s)"
  using assms(3-5)
proof (induction evs arbitrary: s)
  case (Cons ev evs)
  then show ?case using assms(1,2) by (simp add: store_step_anim store_step_inv)
qed simp

section \<open>No operation throws\<close>

text \<open>With a defined list of edges in every flow, and the routes passing one, no operation of the
  store throws.\<close>

definition edges_defined :: "flow_state \<Rightarrow> bool" where
  "edges_defined s \<longleftrightarrow> (\<forall>k f. flows s k = Some f \<longrightarrow> f_edges f \<noteq> None)"

fun passes_edges :: "store_event \<Rightarrow> bool" where
  "passes_edges (Ev_setEdges es) = (es \<noteq> None)"
| "passes_edges _ = True"

lemma edges_defined_update:
  assumes "store_inv s" "edges_defined s" "\<And>f. f_edges f \<noteq> None \<Longrightarrow> f_edges (g f) \<noteq> None"
  shows "edges_defined (case current_key s of None \<Rightarrow> s | Some k \<Rightarrow> put_flow k (g (spread_flow s k)) s)"
proof (cases "current_key s")
  case (Some k)
  with assms(1) obtain f where "flows s k = Some f" "spread_flow s k = f" by (rule store_inv_current)
  with Some assms(2,3) show ?thesis by (simp add: edges_defined_def)
qed (simp add: assms)

lemma setHandleAnimation_edges_defined:
  "store_inv s \<Longrightarrow> edges_defined s \<Longrightarrow> edges_defined (setHandleAnimation n t v s)"
  unfolding setHandleAnimation_def Let_def by (rule edges_defined_update) auto

lemma store_step_edges_defined:
  assumes "store_inv s" "edges_defined s" "passes_edges ev"
  shows "edges_defined (fst (store_step anc aec ae ev s))"
proof (cases ev)
  case (Ev_onConnect c)
  have "edges_defined (setHandleAnimation (cn_target c) HTarget True
      (setHandleAnimation (cn_source c) HSource True s))"
    by (intro setHandleAnimation_edges_defined setHandleAnimation_inv assms)
  with Ev_onConnect assms show ?thesis
    by (auto simp: onConnect_def Let_def edges_defined_def split: option.splits)
next
  case (Ev_setNodes ns)
  show ?thesis unfolding Ev_setNodes store_step.simps fst_conv setNodes_def
    by (rule edges_defined_update) (use assms in auto)
next
  case (Ev_setEdges es)
  show ?thesis unfolding Ev_setEdges store_step.simps fst_conv setEdges_def Let_def
    by (rule edges_defined_update) (use assms Ev_setEdges in auto)
next
  case (Ev_setSelectedNode n)
  show ?thesis unfolding Ev_setSelectedNode store_step.simps fst_conv setSelectedNode_def
    by (rule edges_defined_update) (use assms in auto)
next
  case (Ev_setNodeStatus n v)
  show ?thesis unfolding Ev_setNodeStatus store_step.simps fst_conv setNodeStatus_def Let_def
    by (rule edges_defined_update) (use assms in auto)
next
  case (Ev_setHandleAnimation n t v)
  show ?thesis unfolding Ev_setHandleAnimation store_step.simps fst_conv
    by (rule setHandleAnimation_edges_defined) (use assms in auto)
next
  case Ev_resetHandleAnimations
  show ?thesis unfolding Ev_resetHandleAnimations store_step.simps fst_conv resetHandleAnimations_def
    by (rule edges_defined_update) (use assms in auto)
next
  case Ev_clearRecentlyUsed
  show ?thesis unfolding Ev_clearRecentlyUsed store_step.simps fst_conv clearRecentlyUsed_def
    by (rule edges_defined_update) (use assms in auto)
qed (use assms in \<open>auto simp: edges_defined_def initializeFlow_def defaultFlowData_def clearFlow_def
      onNodesChange_def onEdgesChange_def addRecentlyUsedBlock_def Let_def
      split: option.splits sum.splits if_splits\<close>)

lemma store_step_no_throw:
  assumes "applyNodeChanges_doc anc" "applyEdgeChanges_doc aec" "store_inv s" "edges_defined s"
  shows "snd (store_step anc aec ae ev s) = None"
proof -
  have nodes: "\<exists>ns'. anc cs (f_nodes f) = Inr ns'" if "flows s k = Some f" for k f cs
    using assms(1,3) that by (fastforce simp: applyNodeChanges_doc_def store_inv_def wf_flow_def)
  have edges: "\<exists>es es'. f_edges f = Some es \<and> aec cs (f_edges f) = Inr es'" if "flows s k = Some f" for k f cs
    using assms(2,4) that by (fastforce simp: applyEdgeChanges_doc_def edges_defined_def)
  have conn: "snd (onConnect ae c s) = None" for c
  proof -
    let ?s2 = "setHandleAnimation (cn_target c) HTarget True (setHandleAnimation (cn_source c) HSource True s)"
    have "store_inv ?s2" by (intro setHandleAnimation_inv assms)
    then have "flows ?s2 k = Some f \<Longrightarrow> f_nodes f \<noteq> None" for k f
      by (simp add: store_inv_def wf_flow_def)
    then show ?thesis
      by (fastforce simp: onConnect_def Let_def split: option.split)
  qed
  show ?thesis
  proof (cases ev)
    case (Ev_onNodesChange cs)
    then show ?thesis
      by (auto simp: onNodesChange_def split: option.split sum.split dest: nodes [of _ _ cs])
  next
    case (Ev_onEdgesChange cs)
    then show ?thesis
      by (auto simp: onEdgesChange_def Let_def split: option.split sum.split dest: edges [of _ _ cs])
  next
    case (Ev_addRecentlyUsedBlock b)
    have "flows s k = Some f \<Longrightarrow> \<exists>bs. f_recentlyUsed f = Some bs" for k f
      using assms(3) by (meson store_inv_def wf_flow_def)
    with Ev_addRecentlyUsedBlock show ?thesis
      by (fastforce simp: addRecentlyUsedBlock_def Let_def split: option.split)
  qed (simp_all add: conn)
qed

lemma run_edges_defined:
  assumes "list_all passes_edges evs" "store_inv s" "edges_defined s"
  shows "edges_defined (fold (\<lambda>ev s. fst (store_step anc aec ae ev s)) evs s)"
  using assms by (induction evs arbitrary: s) (auto intro: store_step_edges_defined store_step_inv)

section \<open>Flows do not interfere\<close>

text \<open>An event that does not name the flow \<open>k\<close>: anything but opening or closing \<open>k\<close> by its key.\<close>

fun keeps_off :: "string \<Rightarrow> store_event \<Rightarrow> bool" where
  "keeps_off k (Ev_initializeFlow k') = (k' \<noteq> k)"
| "keeps_off k (Ev_clearFlow (Some k')) = (k' \<noteq> k)"
| "keeps_off k _ = True"

lemma setHandleAnimation_key [simp]: "currentKey (setHandleAnimation n t v s) = currentKey s"
  by (simp add: setHandleAnimation_def Let_def split: option.split)

lemma setHandleAnimation_frame:
  "current_key s \<noteq> Some k \<Longrightarrow> flows (setHandleAnimation n t v s) k = flows s k"
  by (auto simp: setHandleAnimation_def Let_def split: option.split)

lemma store_step_key:
  "currentKey s \<noteq> Some k \<Longrightarrow> keeps_off k ev \<Longrightarrow> currentKey (fst (store_step anc aec ae ev s)) \<noteq> Some k"
  by (cases ev) (auto simp: initializeFlow_def clearFlow_def setNodes_def setEdges_def setSelectedNode_def
      setNodeStatus_def onNodesChange_def onEdgesChange_def onConnect_def addRecentlyUsedBlock_def
      clearRecentlyUsed_def resetHandleAnimations_def Let_def split: option.split sum.split)

lemma store_step_frame:
  assumes "currentKey s \<noteq> Some k" "keeps_off k ev"
  shows "flows (fst (store_step anc aec ae ev s)) k = flows s k"
proof -
  have ck: "current_key s \<noteq> Some k" using assms(1) by (auto simp: current_key_def truthy_str_Some)
  have conn: "flows (fst (onConnect ae c s)) k = flows s k" for c
  proof -
    let ?s1 = "setHandleAnimation (cn_source c) HSource True s"
    have "current_key ?s1 \<noteq> Some k" using ck by (simp add: current_key_def)
    then have "flows (setHandleAnimation (cn_target c) HTarget True ?s1) k = flows s k"
      using ck by (simp add: setHandleAnimation_frame)
    then show ?thesis using ck by (auto simp: onConnect_def Let_def split: option.split)
  qed
  from assms ck show ?thesis
  proof (cases ev)
    case (Ev_clearFlow key)
    with assms ck show ?thesis by (cases key) (auto simp: clearFlow_def truthy_str_def split: option.split)
  next
    case (Ev_onConnect c)
    then show ?thesis by (simp add: conn)
  next
    case (Ev_setHandleAnimation n t v)
    then show ?thesis using ck by (simp add: setHandleAnimation_frame)
  qed (auto simp: initializeFlow_def setNodes_def setEdges_def setSelectedNode_def
      setNodeStatus_def onNodesChange_def onEdgesChange_def addRecentlyUsedBlock_def
      clearRecentlyUsed_def resetHandleAnimations_def Let_def split: option.split sum.split)
qed

lemma run_frame:
  assumes "currentKey s \<noteq> Some k" "list_all (keeps_off k) evs"
  shows "flows (fold (\<lambda>ev s. fst (store_step anc aec ae ev s)) evs s) k = flows s k"
  using assms
  by (induction evs arbitrary: s) (simp_all add: store_step_key store_step_frame)

text \<open>The interface between the store and the canvas: a field of the current flow with its getter and
  setter. What is written while another flow is current leaves the field of this flow alone.\<close>

locale current_field =
  fixes get :: "flow_state \<Rightarrow> 'a"
    and put :: "'a \<Rightarrow> flow_state \<Rightarrow> flow_state"
  assumes get_put: "current_key s \<noteq> None \<Longrightarrow> get (put x s) = x"
    and put_put: "put y (put x s) = put y s"
    and put_idle: "current_key s = None \<Longrightarrow> put x s = s"
    and put_key: "currentKey (put x s) = currentKey s"
    and put_defined: "current_key s = Some k \<Longrightarrow> flows (put x s) k \<noteq> None"
    and get_local: "current_key s = current_key t \<Longrightarrow>
        (\<And>k. current_key s = Some k \<Longrightarrow> flows s k = flows t k) \<Longrightarrow> get s = get t"
begin

lemma current_key_put: "current_key (put x s) = current_key s"
  by (simp add: current_key_def put_key)

text \<open>Leaving the flow for another one, doing anything there, and coming back.\<close>

lemma resume:
  assumes k: "current_key s = Some k" and other: "k' \<noteq> k" and evs: "list_all (keeps_off k) evs"
  shows "get (initializeFlow k
           (fold (\<lambda>ev s. fst (store_step anc aec ae ev s)) evs (initializeFlow k' (put x s)))) = x"
proof -
  let ?t = "fold (\<lambda>ev s. fst (store_step anc aec ae ev s)) evs (initializeFlow k' (put x s))"
  have "flows ?t k = flows (initializeFlow k' (put x s)) k"
    by (rule run_frame [OF _ evs]) (simp add: initializeFlow_def other)
  also have "\<dots> = flows (put x s) k" using other by (simp add: initializeFlow_def)
  finally have kept: "flows ?t k = flows (put x s) k" .
  have "get (initializeFlow k ?t) = get (put x s)"
  proof (rule get_local)
    have "k \<noteq> []" using k by (auto simp: current_key_def truthy_str_Some)
    then show key: "current_key (initializeFlow k ?t) = current_key (put x s)"
      by (simp add: current_key_put k)
    fix j assume "current_key (initializeFlow k ?t) = Some j"
    with key k have "j = k" by (simp add: current_key_put)
    with kept put_defined [OF k, of x] show "flows (initializeFlow k ?t) j = flows (put x s) j"
      by (auto simp: initializeFlow_def split: option.split)
  qed
  with k show ?thesis by (simp add: get_put)
qed

end

lemma put_spread_simps:
  "current_key (case current_key s of None \<Rightarrow> s | Some k \<Rightarrow> put_flow k (g k) s) = current_key s"
  "currentKey (case current_key s of None \<Rightarrow> s | Some k \<Rightarrow> put_flow k (g k) s) = currentKey s"
  by (simp_all split: option.split)

interpretation nodes: current_field getNodes setNodes
  by unfold_locales (auto simp: getNodes_def setNodes_def split: option.splits)

interpretation selected: current_field getSelectedNode setSelectedNode
  by unfold_locales (auto simp: getSelectedNode_def setSelectedNode_def split: option.splits)

section \<open>The recently used blocks\<close>

text \<open>Reference: the whole history of used blocks, most recent first, each type once. The store keeps
  five entries and drops the rest at every step; the result is the same as cutting the reference
  at the end.\<close>

fun mru_push :: "block \<Rightarrow> block list \<Rightarrow> block list" where
  "mru_push b bs = b # filter (\<lambda>x. b_node_type x \<noteq> b_node_type b) bs"

declare mru_push.simps [simp del]

definition mru :: "block list \<Rightarrow> block list" where
  "mru bs = fold mru_push bs []"

lemma filter_take_one:
  assumes "distinct (map f xs)"
  shows "take n (filter (\<lambda>x. f x \<noteq> a) (take (Suc n) xs)) = take n (filter (\<lambda>x. f x \<noteq> a) xs)"
  using assms
proof (induction xs arbitrary: n)
  case (Cons x xs)
  show ?case
  proof (cases "f x = a")
    case True
    with Cons.prems have no: "\<forall>y\<in>set xs. f y \<noteq> a" by (auto simp: image_iff_eq)
    then have "filter (\<lambda>x. f x \<noteq> a) xs = xs" "filter (\<lambda>x. f x \<noteq> a) (take n xs) = take n xs"
      by (auto simp: filter_id_conv dest: in_set_takeD)
    with True show ?thesis by simp
  next
    case False
    with Cons show ?thesis by (cases n) auto
  qed
qed simp

lemma distinct_mru_push: "distinct (map b_node_type bs) \<Longrightarrow> distinct (map b_node_type (mru_push b bs))"
  by (auto simp: mru_push.simps intro: distinct_map_filter_key)

lemma take5_push:
  "distinct (map b_node_type bs) \<Longrightarrow> take 5 (mru_push b (take 5 bs)) = take 5 (mru_push b bs)"
  using filter_take_one [of b_node_type bs 4 "b_node_type b"] by (simp add: mru_push.simps)

lemma fold_take5_push:
  "distinct (map b_node_type bs) \<Longrightarrow>
   fold (\<lambda>b bs. take 5 (mru_push b bs)) xs (take 5 bs) = take 5 (fold mru_push xs bs)"
proof (induction xs arbitrary: bs)
  case (Cons x xs)
  have "fold (\<lambda>b bs. take 5 (mru_push b bs)) (x # xs) (take 5 bs) =
      fold (\<lambda>b bs. take 5 (mru_push b bs)) xs (take 5 (mru_push x bs))"
    using take5_push [OF Cons.prems, of x] by simp
  also have "\<dots> = take 5 (fold mru_push (x # xs) bs)"
    using Cons.IH [OF distinct_mru_push [OF Cons.prems, of x]] by simp
  finally show ?case .
qed simp

lemma getRecentlyUsed_add:
  assumes "store_inv s" "current_key s \<noteq> None"
  shows "getRecentlyUsed (fst (addRecentlyUsedBlock b s)) = take 5 (mru_push b (getRecentlyUsed s))"
    and "current_key (fst (addRecentlyUsedBlock b s)) = current_key s"
proof -
  from assms(2) obtain k where k: "current_key s = Some k" by auto
  with assms(1) obtain f where f: "flows s k = Some f" "wf_flow f" by (rule store_inv_current)
  then obtain bs where "f_recentlyUsed f = Some bs" by (auto simp: wf_flow_def)
  with k f show "getRecentlyUsed (fst (addRecentlyUsedBlock b s)) = take 5 (mru_push b (getRecentlyUsed s))"
    and "current_key (fst (addRecentlyUsedBlock b s)) = current_key s"
    by (simp_all add: getRecentlyUsed_def addRecentlyUsedBlock_def Let_def mru_push.simps)
qed

lemma getRecentlyUsed_adds:
  assumes "store_inv s" "current_key s \<noteq> None"
  shows "getRecentlyUsed (fold (\<lambda>b s. fst (addRecentlyUsedBlock b s)) bs s) =
         fold (\<lambda>b bs. take 5 (mru_push b bs)) bs (getRecentlyUsed s)"
  using assms
proof (induction bs arbitrary: s)
  case (Cons b bs)
  note add = getRecentlyUsed_add [OF Cons.prems, of b]
  have "store_inv (fst (addRecentlyUsedBlock b s))" by (rule addRecentlyUsedBlock_inv) (rule Cons.prems)
  with Cons.IH [of "fst (addRecentlyUsedBlock b s)"] Cons.prems(2) add show ?case by simp
qed simp

section \<open>The properties\<close>

text \<open>A concrete canvas library for the witnesses: \<open>remove\<close> filters, the other changes keep the array,
  and \<open>addEdge\<close> appends unless the connection exists.\<close>

definition demo_applyNodeChanges :: "node_change list \<Rightarrow> rf_node list option \<Rightarrow> rf_node list js" where
  "demo_applyNodeChanges cs ns =
     (case ns of None \<Rightarrow> Inl TypeError
      | Some ns \<Rightarrow> Inr (filter (\<lambda>n. NC_remove (n_id n) \<notin> set cs) ns))"

definition demo_applyEdgeChanges :: "edge_change list \<Rightarrow> rf_edge list option \<Rightarrow> rf_edge list js" where
  "demo_applyEdgeChanges cs es =
     (case es of None \<Rightarrow> Inl TypeError
      | Some es \<Rightarrow> Inr (filter (\<lambda>e. e_id e \<notin> set (removed_ids cs)) es))"

definition demo_addEdge :: "rf_edge \<Rightarrow> rf_edge list \<Rightarrow> rf_edge list" where
  "demo_addEdge e es =
     (if (\<exists>e'\<in>set es. e_source e' = e_source e \<and> e_target e' = e_target e) then es else es @ [e])"

lemma demo_docs:
  "applyNodeChanges_doc demo_applyNodeChanges" "applyEdgeChanges_doc demo_applyEdgeChanges"
  "addEdge_doc demo_addEdge"
  by (auto simp: applyNodeChanges_doc_def demo_applyNodeChanges_def applyEdgeChanges_doc_def
      demo_applyEdgeChanges_def addEdge_doc_def demo_addEdge_def)

definition demo_events :: "store_event list" where
  "demo_events =
    [Ev_initializeFlow ''builder-new'',
     Ev_onConnect \<lparr>cn_source = ''a'', cn_target = ''b'', cn_sourceHandle = None, cn_targetHandle = None\<rparr>,
     Ev_onEdgesChange [EC_remove ''ea-b'']]"

definition demo_node :: rf_node where
  "demo_node = \<lparr>n_id = ''a'', n_type = Some ''trigger'', n_position = (0, 0), n_data = 0, n_selected = None\<rparr>"

definition demo_store :: flow_state where
  "demo_store = initializeFlow ''builder-new'' init_store"

lemma demo_store_inv: "store_inv demo_store" "current_key demo_store = Some ''builder-new''"
  by (simp_all add: demo_store_def initializeFlow_inv store_inv_init)

text \<open>Claim C1: whatever the canvas library does, every sequence of store operations from the empty
  store leaves it well-formed: a current key names an existing flow, every flow has all its fields
  except possibly the edges, and its recently used blocks are at most five with different types.\<close>

theorem store_reachable_inv:
  "store_inv (fold (\<lambda>ev s. fst (store_step anc aec ae ev s)) evs init_store)"
  by (rule store.inv_run)

text \<open>Claim C16: in every store that the application reaches from the empty one, a node's source handle
  is animated exactly when an edge leaves the node, and its target handle exactly when an edge enters
  it. The application uses all operations except \<open>setHandleAnimation\<close> and \<open>resetHandleAnimations\<close>, which no component calls directly, and changes of edges are
  removals and selections. The canvas library is assumed to remove the edges it is told to remove and to add a connection
  once.\<close>

theorem handles_track_edges:
  assumes "applyEdgeChanges_doc aec" "addEdge_doc ae" "list_all ui_event evs"
  shows "anim_inv (fold (\<lambda>ev s. fst (store_step anc aec ae ev s)) evs init_store)"
  using assms by (rule run_anim) (rule store_inv_init, simp add: anim_inv_def init_store_def)

theorem handles_track_edges_witness:
  "anim_inv (fold (\<lambda>ev s. fst (store_step demo_applyNodeChanges demo_applyEdgeChanges demo_addEdge ev s))
     demo_events init_store)"
  by (rule handles_track_edges) (simp_all add: demo_docs demo_events_def)

text \<open>Claim C23: no operation of the store throws in a store that operations have reached from the
  empty one with the edges of every loaded workflow defined.\<close>

theorem store_never_throws:
  assumes "applyNodeChanges_doc anc" "applyEdgeChanges_doc aec" "list_all passes_edges evs"
  shows "snd (store_step anc aec ae ev
      (fold (\<lambda>ev s. fst (store_step anc aec ae ev s)) evs init_store)) = None"
proof -
  have "edges_defined init_store" by (simp add: edges_defined_def init_store_def)
  with assms show ?thesis
    by (intro store_step_no_throw store.inv_run run_edges_defined store_inv_init)
qed

theorem store_never_throws_witness:
  "snd (store_step demo_applyNodeChanges demo_applyEdgeChanges demo_addEdge
      (Ev_addRecentlyUsedBlock (mk_block ''action'' ''send_sms'' ''Send SMS'' ''Mail'' ''d'' None))
      (fold (\<lambda>ev s. fst (store_step demo_applyNodeChanges demo_applyEdgeChanges demo_addEdge ev s))
        demo_events init_store)) = None"
  by (rule store_never_throws) (simp_all add: demo_docs demo_events_def)

text \<open>Claim C24: the nodes and the selection of a flow survive any work on other flows: after they are
  set, the user may open another flow and do anything there that does not open or close this flow
  by its key, and finds them unchanged on return.\<close>

theorem flows_are_isolated:
  assumes "current_key s = Some k" "k' \<noteq> k" "list_all (keeps_off k) evs"
  shows "getNodes (initializeFlow k
             (fold (\<lambda>ev s. fst (store_step anc aec ae ev s)) evs (initializeFlow k' (setNodes ns s)))) = ns \<and>
         getSelectedNode (initializeFlow k
             (fold (\<lambda>ev s. fst (store_step anc aec ae ev s)) evs (initializeFlow k' (setSelectedNode sel s)))) = sel"
  using nodes.resume [OF assms] selected.resume [OF assms] by simp

theorem flows_are_isolated_witness:
  "getNodes (initializeFlow ''builder-new''
     (fold (\<lambda>ev s. fst (store_step demo_applyNodeChanges demo_applyEdgeChanges demo_addEdge ev s))
       [Ev_setNodes [], Ev_clearFlow None] (initializeFlow ''run-7'' (setNodes [demo_node] demo_store)))) = [demo_node] \<and>
   getSelectedNode (initializeFlow ''builder-new''
     (fold (\<lambda>ev s. fst (store_step demo_applyNodeChanges demo_applyEdgeChanges demo_addEdge ev s))
       [Ev_setNodes [], Ev_clearFlow None] (initializeFlow ''run-7'' (setSelectedNode (Some demo_node) demo_store)))) = Some demo_node"
  by (rule flows_are_isolated [OF demo_store_inv(2)]) simp_all

text \<open>Claim C21: using blocks one after the other in an open flow, the recently used list shows the
  five most recent distinct types, most recent first: dropping the sixth entry at every step gives
  the same list as keeping the whole history and cutting it at the end.\<close>

theorem recently_used_is_mru:
  assumes "store_inv s" "current_key s \<noteq> None" "getRecentlyUsed s = []"
  shows "getRecentlyUsed (fold (\<lambda>b s. fst (addRecentlyUsedBlock b s)) bs s) = take 5 (mru bs)"
  using getRecentlyUsed_adds [OF assms(1,2), of bs] assms(3) fold_take5_push [of "[]" bs]
  by (simp add: mru_def)

theorem recently_used_is_mru_witness:
  "getRecentlyUsed (fold (\<lambda>b s. fst (addRecentlyUsedBlock b s)) trigger_blocks demo_store) =
     take 5 (mru trigger_blocks)"
proof (rule recently_used_is_mru)
  show "getRecentlyUsed demo_store = []"
    by (simp add: demo_store_def getRecentlyUsed_def init_store_def initializeFlow_def current_key_def
        defaultFlowData_def)
qed (simp_all add: demo_store_inv)

text \<open>Connecting two nodes in an open flow leaves an edge between them in the flow, animates
  both handles, and when the edge is new it has the colour of its source node's type and the
  identifier made of its two ends.\<close>

lemma onConnect_adds_edge:
  assumes "addEdge_doc ae" "store_inv s" "current_key s \<noteq> None" "cn_source c \<noteq> []" "cn_target c \<noteq> []"
  shows "(\<exists>e\<in>set (getEdges (fst (onConnect ae c s))). e_source e = cn_source c \<and> e_target e = cn_target c) \<and>
         src_on (getHandleAnimations (fst (onConnect ae c s))) (cn_source c) \<and>
         tgt_on (getHandleAnimations (fst (onConnect ae c s))) (cn_target c) \<and>
         (getEdges (fst (onConnect ae c s)) = getEdges s \<or>
          getEdges (fst (onConnect ae c s)) = getEdges s @ [connection_edge (getNodes s) c])"
proof -
  from assms(3) obtain k where k: "current_key s = Some k" by auto
  then obtain f nodes h where f: "flows s k = Some f" "f_nodes f = Some nodes"
    and eq: "onConnect ae c s =
       (put_flow k (f\<lparr>f_handleAnimations := Some (animate_edge (connection_edge nodes c) h),
          f_edges := Some (ae (connection_edge nodes c) (case f_edges f of None \<Rightarrow> [] | Some es \<Rightarrow> es))\<rparr>) s,
        None)"
    using onConnect_flow [OF assms(2) k assms(4,5), of ae] by blast
  have g: "getNodes s = nodes" "getEdges s = (case f_edges f of None \<Rightarrow> [] | Some es \<Rightarrow> es)"
    using k f by (simp_all add: getNodes_def getEdges_def)
  have ends: "e_source (connection_edge nodes c) = cn_source c" "e_target (connection_edge nodes c) = cn_target c"
    by (simp_all add: connection_edge_def Let_def)
  have new: "getEdges (fst (onConnect ae c s)) = ae (connection_edge nodes c) (getEdges s)"
    "getHandleAnimations (fst (onConnect ae c s)) = animate_edge (connection_edge nodes c) h"
    using k by (simp_all add: eq g, simp_all add: getEdges_def getHandleAnimations_def)
  from assms(1,4,5) ends have "ae (connection_edge nodes c) (getEdges s) = getEdges s @ [connection_edge nodes c] \<or>
      ae (connection_edge nodes c) (getEdges s) = getEdges s \<and>
        (\<exists>e'\<in>set (getEdges s). e_source e' = cn_source c \<and> e_target e' = cn_target c)"
    unfolding addEdge_doc_def by metis
  with assms(4,5) show ?thesis by (auto simp: new g(1) ends)
qed

lemma onConnect_adds_edge_example:
  "\<exists>e\<in>set (getEdges (fst (onConnect demo_addEdge
       \<lparr>cn_source = ''a'', cn_target = ''b'', cn_sourceHandle = None, cn_targetHandle = None\<rparr> demo_store))).
     e_source e = ''a'' \<and> e_target e = ''b''"
  using onConnect_adds_edge [OF demo_docs(3) demo_store_inv(1), of
      "\<lparr>cn_source = ''a'', cn_target = ''b'', cn_sourceHandle = None, cn_targetHandle = None\<rparr>"]
  by (simp add: demo_store_inv)

end
