(* ===== verification/Js_Json.thy ===== *)
theory Js_Json
  imports Prelude
begin

text \<open>
  The two text formats of the platform that the front end writes: JSON (\<open>JSON.stringify\<close>) and the
  \<open>application/x-www-form-urlencoded\<close> form of \<open>URLSearchParams\<close>. The decimal text of a number is an
  argument (\<open>num\<close>) of \<open>json_stringify\<close>; everything else is written out.
\<close>

section \<open>JSON\<close>

definition hex_digit :: "nat \<Rightarrow> char" where
  "hex_digit d = (if d < 10 then char_of (48 + d) else char_of (87 + d))"

definition json_quote_char :: "char \<Rightarrow> string" where
  "json_quote_char c = (let n = (of_char c :: nat) in
     if n = 34 then [CHR 0x5C, CHR 0x22]
     else if n = 92 then [CHR 0x5C, CHR 0x5C]
     else if n = 8 then [CHR 0x5C, CHR ''b'']
     else if n = 12 then [CHR 0x5C, CHR ''f'']
     else if n = 10 then [CHR 0x5C, CHR ''n'']
     else if n = 13 then [CHR 0x5C, CHR ''r'']
     else if n = 9 then [CHR 0x5C, CHR ''t'']
     else if n < 32 then [CHR 0x5C, CHR ''u'', CHR ''0'', CHR ''0'', hex_digit (n div 16), hex_digit (n mod 16)]
     else [c])"

definition json_quote :: "string \<Rightarrow> string" where
  "json_quote s = CHR 0x22 # concat (map json_quote_char s) @ [CHR 0x22]"

text \<open>A property whose value is \<open>undefined\<close> is left out of an object; in an array it is \<open>null\<close>.\<close>

fun json_stringify :: "(real \<Rightarrow> string) \<Rightarrow> jsval \<Rightarrow> string option"
  and json_items :: "(real \<Rightarrow> string) \<Rightarrow> jsval list \<Rightarrow> string list"
  and json_fields :: "(real \<Rightarrow> string) \<Rightarrow> (string \<times> jsval) list \<Rightarrow> string list" where
  "json_stringify num JUndefined = None"
| "json_stringify num JNull = Some ''null''"
| "json_stringify num (JBool b) = Some (if b then ''true'' else ''false'')"
| "json_stringify num (JNum x) = Some (num x)"
| "json_stringify num (JStr s) = Some (json_quote s)"
| "json_stringify num (JArr xs) = Some (''['' @ js_join '','' (json_items num xs) @ '']'')"
| "json_stringify num (JObj fs) = Some (''{'' @ js_join '','' (json_fields num fs) @ ''}'')"
| "json_items num [] = []"
| "json_items num (x # xs) =
     (case json_stringify num x of None \<Rightarrow> ''null'' | Some t \<Rightarrow> t) # json_items num xs"
| "json_fields num [] = []"
| "json_fields num ((k, v) # fs) =
     (case json_stringify num v of None \<Rightarrow> json_fields num fs
      | Some t \<Rightarrow> (json_quote k @ '':'' @ t) # json_fields num fs)"

text \<open>No control character survives in JSON text, so it always fits in one header line.\<close>

definition printable :: "char \<Rightarrow> bool" where
  "printable c \<longleftrightarrow> 32 \<le> (of_char c :: nat)"

lemma printable_Char [simp]: "printable (Char b0 b1 b2 b3 b4 b5 b6 b7) \<longleftrightarrow> b5 \<or> b6 \<or> b7"
  by (cases b0; cases b1; cases b2; cases b3; cases b4) (auto simp: printable_def of_bool_def)

lemma hex_digit_printable: "d < 16 \<Longrightarrow> printable (hex_digit d)"
  by (auto simp: printable_def hex_digit_def of_char_of)

lemma json_quote_char_printable: "list_all printable (json_quote_char c)"
proof -
  have "(of_char c :: nat) div 16 < 16" "(of_char c :: nat) mod 16 < 16"
    using less_mult_imp_div_less [of "of_char c" 16 16] nat_of_char_less_256 [of c] by simp_all
  then show ?thesis
    by (auto simp: json_quote_char_def Let_def hex_digit_printable)
      (auto simp: printable_def)
qed

lemma json_quote_printable [simp]: "list_all printable (json_quote s)"
proof -
  have "list_all printable (concat (map json_quote_char s))"
    by (induction s) (simp_all add: json_quote_char_printable)
  then show ?thesis by (simp add: json_quote_def printable_def [of "CHR 0x22"])
qed

lemma js_join_all:
  "list_all P sep \<Longrightarrow> list_all (list_all P) ws \<Longrightarrow> list_all P (js_join sep ws)"
  by (induction ws rule: induct_list012) auto

lemma json_printable:
  assumes "\<And>x. list_all printable (num x)"
  shows "\<And>t. json_stringify num v = Some t \<Longrightarrow> list_all printable t"
    and "list_all (list_all printable) (json_items num xs)"
    and "list_all (list_all printable) (json_fields num fs)"
  using assms
  by (induction num v and num xs and num fs rule: json_stringify_json_items_json_fields.induct)
    (auto simp: js_join_all split: option.splits)

section \<open>Form encoding\<close>

definition form_plain :: "char \<Rightarrow> bool" where
  "form_plain c = (let n = (of_char c :: nat) in
     48 \<le> n \<and> n \<le> 57 \<or> 65 \<le> n \<and> n \<le> 90 \<or> 97 \<le> n \<and> n \<le> 122 \<or> n \<in> {42, 45, 46, 95})"

definition hex_upper :: "nat \<Rightarrow> char" where
  "hex_upper d = (if d < 10 then char_of (48 + d) else char_of (55 + d))"

definition percent_byte :: "nat \<Rightarrow> string" where
  "percent_byte n = [CHR ''%'', hex_upper (n div 16), hex_upper (n mod 16)]"

definition form_encode_char :: "char \<Rightarrow> string" where
  "form_encode_char c = (let n = (of_char c :: nat) in
     if form_plain c then [c]
     else if n = 32 then ''+''
     else if n < 128 then percent_byte n
     else percent_byte (192 + n div 64) @ percent_byte (128 + n mod 64))"

definition form_encode :: "string \<Rightarrow> string" where
  "form_encode s = concat (map form_encode_char s)"

definition url_search_params :: "(string \<times> string) list \<Rightarrow> string" where
  "url_search_params ps = js_join ''&'' (map (\<lambda>(k, v). form_encode k @ ''='' @ form_encode v) ps)"

section \<open>Template literals\<close>

text \<open>The text of a value in a template literal; \<open>null\<close> and \<open>undefined\<close> are empty inside an array.\<close>

fun js_show :: "(real \<Rightarrow> string) \<Rightarrow> jsval \<Rightarrow> string" where
  "js_show num JUndefined = ''undefined''"
| "js_show num JNull = ''null''"
| "js_show num (JBool b) = (if b then ''true'' else ''false'')"
| "js_show num (JNum x) = num x"
| "js_show num (JStr s) = s"
| "js_show num (JArr xs) =
     js_join '','' (map (\<lambda>x. case x of JUndefined \<Rightarrow> [] | JNull \<Rightarrow> [] | _ \<Rightarrow> js_show num x) xs)"
| "js_show num (JObj fs) = ''[object Object]''"

end
