(* ===== verification/Workflow_Api.thy ===== *)
theory Workflow_Api
  imports Js_Json
begin

text \<open>
  The API clients, \<open>api/base.ts\<close> and \<open>api/*/client.ts\<close>, with the data types of \<open>api/*/types.ts\<close>.

  A client call builds one request and settles on the outcome of \<open>fetch\<close>: \<open>net\<close> below stands for
  the network, a function from the request sent to the response (\<open>None\<close>: \<open>fetch\<close> rejects). A
  response carries its status and the value its body parses to (\<open>None\<close>: \<open>response.json()\<close>
  rejects). The result of a call is a value, an \<open>ApiError\<close>, or an exception that is not one.
  \<open>base_url\<close> is the build-time constant \<open>VITE_API_BASE_URL\<close>, \<open>num\<close> the decimal text of a number.
\<close>

section \<open>Data transfer types\<close>

record workflow =
  w_id :: string
  w_user_id :: string
  w_name :: string
  w_description :: string
  w_status :: string
  w_created_at :: string
  w_updated_at :: string
  w_tags :: "string list option"
  w_isFavorite :: "bool option"

type_synonym config = "(string \<times> jsval) list"

record workflow_node =
  wn_id :: string
  wn_category :: string
  wn_node_type :: string
  wn_config :: config
  wn_position :: "real \<times> real"

record workflow_edge =
  we_id :: string
  we_source_node_id :: string
  we_target_node_id :: string

record create_workflow_dto =
  cw_name :: string
  cw_description :: string
  cw_status :: string
  cw_nodes :: "workflow_node list"
  cw_edges :: "workflow_edge list"

record update_workflow_dto =
  uw_name :: string
  uw_description :: string
  uw_nodes :: "workflow_node list"
  uw_edges :: "workflow_edge list"

record rendered_workflow =
  rw_id :: string
  rw_name :: string
  rw_description :: string
  rw_nodes :: "workflow_node list"
  rw_edges :: "workflow_edge list option"

record workflow_run =
  wr_workflow_id :: string
  wr_workflow_name :: string
  wr_workflow_run_id :: string
  wr_status :: string
  wr_created_at :: string
  wr_finished_at :: "string option"

record send_email_dto =
  se_to :: "string list"
  se_subject :: string
  se_body :: string
  se_cc :: "string list option"
  se_bcc :: "string list option"

record calendar_dto =
  cal_id :: string
  cal_summary :: string
  cal_primary :: "bool option"

text \<open>The objects that the calls pass on as request bodies.\<close>

definition node_json :: "workflow_node \<Rightarrow> jsval" where
  "node_json n = JObj
     [(''id'', JStr (wn_id n)), (''category'', JStr (wn_category n)),
      (''node_type'', JStr (wn_node_type n)), (''config'', JObj (wn_config n)),
      (''position'', JObj [(''x'', JNum (fst (wn_position n))), (''y'', JNum (snd (wn_position n)))])]"

definition edge_json :: "workflow_edge \<Rightarrow> jsval" where
  "edge_json e = JObj
     [(''id'', JStr (we_id e)), (''source_node_id'', JStr (we_source_node_id e)),
      (''target_node_id'', JStr (we_target_node_id e))]"

definition create_json :: "create_workflow_dto \<Rightarrow> jsval" where
  "create_json d = JObj
     [(''name'', JStr (cw_name d)), (''description'', JStr (cw_description d)),
      (''status'', JStr (cw_status d)), (''nodes'', JArr (map node_json (cw_nodes d))),
      (''edges'', JArr (map edge_json (cw_edges d)))]"

definition update_json :: "update_workflow_dto \<Rightarrow> jsval" where
  "update_json d = JObj
     [(''name'', JStr (uw_name d)), (''description'', JStr (uw_description d)),
      (''nodes'', JArr (map node_json (uw_nodes d))), (''edges'', JArr (map edge_json (uw_edges d)))]"

definition strings_json :: "string list option \<Rightarrow> jsval" where
  "strings_json x = (case x of None \<Rightarrow> JUndefined | Some ss \<Rightarrow> JArr (map JStr ss))"

definition send_email_json :: "send_email_dto \<Rightarrow> jsval" where
  "send_email_json d = JObj
     [(''to'', strings_json (Some (se_to d))), (''subject'', JStr (se_subject d)),
      (''body'', JStr (se_body d)), (''cc'', strings_json (se_cc d)), (''bcc'', strings_json (se_bcc d))]"

section \<open>Requests\<close>

record request_init =
  ri_method :: "string option"
  ri_body :: "string option"
  ri_headers :: "(string \<times> string) list"

record http_request =
  rq_url :: string
  rq_method :: "string option"
  rq_body :: "string option"
  rq_credentials :: string
  rq_headers :: "(string \<times> string) list"

record http_response =
  rs_status :: nat
  rs_json :: "jsval option"

definition rs_ok :: "http_response \<Rightarrow> bool" where
  "rs_ok r \<longleftrightarrow> 200 \<le> rs_status r \<and> rs_status r \<le> 299"

type_synonym net = "http_request \<Rightarrow> http_response option"

record api_error =
  ae_status :: nat
  ae_message :: jsval
  ae_details :: jsval

datatype request_error = ApiErr api_error | Other js_error

type_synonym api_result = "request_error + jsval"

text \<open>The class \<open>Headers\<close>: names are tokens, compared in lower case; values are trimmed and must not
  hold NUL, LF or CR; a repeated name appends.\<close>

definition header_name_ok :: "string \<Rightarrow> bool" where
  "header_name_ok n \<longleftrightarrow> n \<noteq> [] \<and>
     list_all (\<lambda>c. let k = (of_char c :: nat) in
        48 \<le> k \<and> k \<le> 57 \<or> 65 \<le> k \<and> k \<le> 90 \<or> 97 \<le> k \<and> k \<le> 122 \<or>
        k \<in> {33, 35, 36, 37, 38, 39, 42, 43, 45, 46, 94, 95, 96, 124, 126}) n"

definition header_ws :: "char \<Rightarrow> bool" where
  "header_ws c \<longleftrightarrow> (of_char c :: nat) \<in> {9, 10, 13, 32}"

definition header_norm :: "string \<Rightarrow> string" where
  "header_norm v = rev (dropWhile header_ws (rev (dropWhile header_ws v)))"

definition header_value_ok :: "string \<Rightarrow> bool" where
  "header_value_ok v \<longleftrightarrow> list_all (\<lambda>c. (of_char c :: nat) \<notin> {0, 10, 13}) v"

definition header_check :: "string \<Rightarrow> string \<Rightarrow> bool" where
  "header_check n v \<longleftrightarrow> header_name_ok n \<and> header_value_ok (header_norm v)"

definition headers_append ::
  "string \<Rightarrow> string \<Rightarrow> (string \<times> string) list \<Rightarrow> (string \<times> string) list js" where
  "headers_append n v hs =
     (if \<not> header_check n v then Inl TypeError
      else Inr (case map_of hs (js_lower n) of
                  None \<Rightarrow> js_set (js_lower n) (header_norm v) hs
                | Some old \<Rightarrow> js_set (js_lower n) (old @ '', '' @ header_norm v) hs))"

definition headers_set ::
  "string \<Rightarrow> string \<Rightarrow> (string \<times> string) list \<Rightarrow> (string \<times> string) list js" where
  "headers_set n v hs =
     (if \<not> header_check n v then Inl TypeError else Inr (js_set (js_lower n) (header_norm v) hs))"

fun headers_fill ::
  "(string \<times> string) list \<Rightarrow> (string \<times> string) list \<Rightarrow> (string \<times> string) list js" where
  "headers_fill [] hs = Inr hs"
| "headers_fill ((n, v) # ps) hs = js_bind (headers_append n v hs) (headers_fill ps)"

definition request_headers :: "string option \<Rightarrow> request_init \<Rightarrow> (string \<times> string) list js" where
  "request_headers authToken options =
     js_bind
       (headers_fill
          (fold (\<lambda>(k, v) m. js_set k v m) (ri_headers options) [(''Content-Type'', ''application/json'')])
          [])
       (\<lambda>hs. case truthy_str authToken of
          None \<Rightarrow> Inr hs
        | Some t \<Rightarrow> headers_set ''Authorization'' (''Bearer '' @ t) hs)"

text \<open>\<open>data.error || "..."\<close>: the read throws on \<open>null\<close>.\<close>

definition js_get_or :: "jsval \<Rightarrow> string \<Rightarrow> string \<Rightarrow> jsval js" where
  "js_get_or d p dflt =
     js_bind (js_get d p) (\<lambda>v. Inr (if js_truthy v then v else JStr dflt))"

definition network_error :: request_error where
  "network_error = ApiErr \<lparr>ae_status = 500, ae_message = JStr ''Network error occurred'',
                           ae_details = JUndefined\<rparr>"

text \<open>The \<open>try\<close> block, from the call of \<open>fetch\<close> on: what is thrown inside it and is not an
  \<open>ApiError\<close> becomes the network error.\<close>

definition request_settle :: "http_response option \<Rightarrow> api_result" where
  "request_settle answer =
     (case answer of
        None \<Rightarrow> Inl network_error
      | Some response \<Rightarrow>
          (case rs_json response of
             None \<Rightarrow> Inl network_error
           | Some d \<Rightarrow>
               if rs_ok response then Inr d
               else (case js_bind (js_get_or d ''error'' ''An error occurred'')
                             (\<lambda>m. js_bind (js_get_or d ''details'' '''') (\<lambda>dt. Inr (m, dt))) of
                       Inl e \<Rightarrow> Inl network_error
                     | Inr (m, dt) \<Rightarrow>
                         Inl (ApiErr \<lparr>ae_status = rs_status response, ae_message = m,
                                      ae_details = dt\<rparr>))))"

definition request :: "string \<Rightarrow> net \<Rightarrow> string \<Rightarrow> string option \<Rightarrow> request_init \<Rightarrow> api_result" where
  "request base_url net endpoint authToken options =
     (case request_headers authToken options of
        Inl e \<Rightarrow> Inl (Other e)
      | Inr hs \<Rightarrow>
          request_settle (net \<lparr>rq_url = base_url @ endpoint, rq_method = ri_method options,
                               rq_body = ri_body options, rq_credentials = ''include'',
                               rq_headers = hs\<rparr>))"

definition api_get ::
  "string \<Rightarrow> net \<Rightarrow> string \<Rightarrow> string option \<Rightarrow> (string \<times> string) list option \<Rightarrow> api_result" where
  "api_get base_url net endpoint authToken params =
     (let queryString = (case params of None \<Rightarrow> '''' | Some ps \<Rightarrow> ''?'' @ url_search_params ps)
      in request base_url net (endpoint @ queryString) authToken
           \<lparr>ri_method = Some ''GET'', ri_body = None, ri_headers = []\<rparr>)"

definition body_text :: "(real \<Rightarrow> string) \<Rightarrow> jsval \<Rightarrow> string option" where
  "body_text num body = (if js_truthy body then json_stringify num body else None)"

definition api_post ::
  "(real \<Rightarrow> string) \<Rightarrow> string \<Rightarrow> net \<Rightarrow> string \<Rightarrow> string option \<Rightarrow> jsval \<Rightarrow> api_result" where
  "api_post num base_url net endpoint authToken body =
     request base_url net endpoint authToken
       \<lparr>ri_method = Some ''POST'', ri_body = body_text num body, ri_headers = []\<rparr>"

definition api_put ::
  "(real \<Rightarrow> string) \<Rightarrow> string \<Rightarrow> net \<Rightarrow> string \<Rightarrow> string option \<Rightarrow> jsval \<Rightarrow> api_result" where
  "api_put num base_url net endpoint authToken body =
     request base_url net endpoint authToken
       \<lparr>ri_method = Some ''PUT'', ri_body = body_text num body, ri_headers = []\<rparr>"

definition api_delete :: "string \<Rightarrow> net \<Rightarrow> string \<Rightarrow> string option \<Rightarrow> api_result" where
  "api_delete base_url net endpoint authToken =
     request base_url net endpoint authToken
       \<lparr>ri_method = Some ''DELETE'', ri_body = None, ri_headers = []\<rparr>"

definition api_patch ::
  "(real \<Rightarrow> string) \<Rightarrow> string \<Rightarrow> net \<Rightarrow> string \<Rightarrow> string option \<Rightarrow> jsval \<Rightarrow> api_result" where
  "api_patch num base_url net endpoint authToken body =
     request base_url net endpoint authToken
       \<lparr>ri_method = Some ''PATCH'', ri_body = body_text num body, ri_headers = []\<rparr>"

section \<open>Clients\<close>

definition getUserWorkflows :: "string \<Rightarrow> net \<Rightarrow> string option \<Rightarrow> api_result" where
  "getUserWorkflows base_url net authToken = api_get base_url net ''/api/workflow'' authToken None"

definition renderWorkflow :: "string \<Rightarrow> net \<Rightarrow> string \<Rightarrow> string option \<Rightarrow> api_result" where
  "renderWorkflow base_url net wid authToken =
     api_get base_url net (''/api/workflow/'' @ wid @ ''/render'') authToken None"

definition createWorkflow ::
  "(real \<Rightarrow> string) \<Rightarrow> string \<Rightarrow> net \<Rightarrow> create_workflow_dto \<Rightarrow> string option \<Rightarrow> api_result" where
  "createWorkflow num base_url net dto authToken =
     api_post num base_url net ''/api/workflow'' authToken (create_json dto)"

definition updateWorkflow ::
  "(real \<Rightarrow> string) \<Rightarrow> string \<Rightarrow> net \<Rightarrow> string \<Rightarrow> update_workflow_dto \<Rightarrow> string option \<Rightarrow> api_result" where
  "updateWorkflow num base_url net wid dto authToken =
     api_put num base_url net (''/api/workflow/'' @ wid) authToken (update_json dto)"

definition runWorkflow ::
  "(real \<Rightarrow> string) \<Rightarrow> string \<Rightarrow> net \<Rightarrow> string \<Rightarrow> string option \<Rightarrow> api_result" where
  "runWorkflow num base_url net wid authToken =
     (case api_post num base_url net (''/api/workflow-run/'' @ wid) authToken (JObj []) of
        Inl e \<Rightarrow> Inl e
      | Inr res \<Rightarrow> (case js_get res ''run_id'' of Inl e \<Rightarrow> Inl (Other e) | Inr v \<Rightarrow> Inr v))"

definition getUserWorkflowRuns :: "string \<Rightarrow> net \<Rightarrow> string option \<Rightarrow> api_result" where
  "getUserWorkflowRuns base_url net authToken =
     api_get base_url net ''/api/workflow-runs'' authToken None"

definition archiveWorkflow ::
  "(real \<Rightarrow> string) \<Rightarrow> string \<Rightarrow> net \<Rightarrow> string \<Rightarrow> string option \<Rightarrow> api_result" where
  "archiveWorkflow num base_url net wid authToken =
     api_patch num base_url net (''/api/workflow/'' @ wid @ ''/archive'') authToken JUndefined"

definition getAuthUrl :: "string \<Rightarrow> net \<Rightarrow> api_result" where
  "getAuthUrl base_url net = api_get base_url net ''/api/integrations/google/auth-url'' None None"

definition handleCallback :: "string \<Rightarrow> net \<Rightarrow> request_error + unit" where
  "handleCallback base_url net =
     (case api_get base_url net ''/api/integrations/google/callback'' None None of
        Inl e \<Rightarrow> Inl e | Inr _ \<Rightarrow> Inr ())"

text \<open>\<open>sendEmail\<close> passes the JSON text in the place of the token and no body.\<close>

definition sendEmail :: "(real \<Rightarrow> string) \<Rightarrow> string \<Rightarrow> net \<Rightarrow> send_email_dto \<Rightarrow> api_result" where
  "sendEmail num base_url net dto =
     api_post num base_url net ''/api/integrations/google/send-email''
       (json_stringify num (send_email_json dto)) JUndefined"

definition getCalendars :: "string \<Rightarrow> net \<Rightarrow> api_result" where
  "getCalendars base_url net = api_get base_url net ''/api/calendar/list'' None None"

section \<open>The table of endpoints\<close>

text \<open>
  What the back end's routes expect, written once as a table: the method, the path and the body of
  every call of the workflow client, and what the call returns of the answer.
\<close>

datatype api_call =
    GetUserWorkflows
  | RenderWorkflow string
  | CreateWorkflow create_workflow_dto
  | UpdateWorkflow string update_workflow_dto
  | RunWorkflow string
  | GetUserWorkflowRuns
  | ArchiveWorkflow string

fun perform :: "(real \<Rightarrow> string) \<Rightarrow> string \<Rightarrow> api_call \<Rightarrow> net \<Rightarrow> string option \<Rightarrow> api_result" where
  "perform num base_url GetUserWorkflows net t = getUserWorkflows base_url net t"
| "perform num base_url (RenderWorkflow i) net t = renderWorkflow base_url net i t"
| "perform num base_url (CreateWorkflow d) net t = createWorkflow num base_url net d t"
| "perform num base_url (UpdateWorkflow i d) net t = updateWorkflow num base_url net i d t"
| "perform num base_url (RunWorkflow i) net t = runWorkflow num base_url net i t"
| "perform num base_url GetUserWorkflowRuns net t = getUserWorkflowRuns base_url net t"
| "perform num base_url (ArchiveWorkflow i) net t = archiveWorkflow num base_url net i t"

fun call_method :: "api_call \<Rightarrow> string" where
  "call_method (CreateWorkflow d) = ''POST''"
| "call_method (RunWorkflow i) = ''POST''"
| "call_method (UpdateWorkflow i d) = ''PUT''"
| "call_method (ArchiveWorkflow i) = ''PATCH''"
| "call_method _ = ''GET''"

fun call_path :: "api_call \<Rightarrow> string" where
  "call_path GetUserWorkflows = ''/api/workflow''"
| "call_path (CreateWorkflow d) = ''/api/workflow''"
| "call_path (RenderWorkflow i) = ''/api/workflow/'' @ i @ ''/render''"
| "call_path (UpdateWorkflow i d) = ''/api/workflow/'' @ i"
| "call_path (RunWorkflow i) = ''/api/workflow-run/'' @ i"
| "call_path GetUserWorkflowRuns = ''/api/workflow-runs''"
| "call_path (ArchiveWorkflow i) = ''/api/workflow/'' @ i @ ''/archive''"

fun call_body :: "api_call \<Rightarrow> jsval option" where
  "call_body (CreateWorkflow d) = Some (create_json d)"
| "call_body (UpdateWorkflow i d) = Some (update_json d)"
| "call_body (RunWorkflow i) = Some (JObj [])"
| "call_body _ = None"

text \<open>The call returns the answer, of a started run only its \<open>run_id\<close>.\<close>

fun call_reply :: "api_call \<Rightarrow> jsval \<Rightarrow> jsval js" where
  "call_reply (RunWorkflow i) d = js_get d ''run_id''"
| "call_reply _ d = Inr d"

definition auth_headers :: "string option \<Rightarrow> (string \<times> string) list" where
  "auth_headers tok =
     (''content-type'', ''application/json'') #
     (case truthy_str tok of None \<Rightarrow> [] | Some t \<Rightarrow> [(''authorization'', header_norm (''Bearer '' @ t))])"

definition call_request ::
  "(real \<Rightarrow> string) \<Rightarrow> string \<Rightarrow> api_call \<Rightarrow> string option \<Rightarrow> http_request" where
  "call_request num base_url c tok =
     \<lparr>rq_url = base_url @ call_path c, rq_method = Some (call_method c),
      rq_body = (case call_body c of None \<Rightarrow> None | Some b \<Rightarrow> json_stringify num b),
      rq_credentials = ''include'', rq_headers = auth_headers tok\<rparr>"

definition token_ok :: "string option \<Rightarrow> bool" where
  "token_ok tok \<longleftrightarrow> (case tok of None \<Rightarrow> True | Some t \<Rightarrow> header_value_ok t)"

section \<open>Headers\<close>

lemma header_norm_subset: "set (header_norm v) \<subseteq> set v"
  by (auto simp: header_norm_def dest!: set_dropWhileD)

lemma header_value_ok_norm: "header_value_ok v \<Longrightarrow> header_value_ok (header_norm v)"
  using header_norm_subset by (auto simp: header_value_ok_def list_all_iff)

lemma header_value_ok_Cons [simp]:
  "header_value_ok (c # v) \<longleftrightarrow> (of_char c :: nat) \<notin> {0, 10, 13} \<and> header_value_ok v"
  by (simp add: header_value_ok_def)

lemma header_value_ok_Nil [simp]: "header_value_ok []"
  by (simp add: header_value_ok_def)

lemma header_literals [simp]:
  "header_name_ok ''Content-Type''" "header_name_ok ''Authorization''"
  "header_norm ''application/json'' = ''application/json''"
  "header_value_ok ''application/json''"
  by (simp_all add: header_name_ok_def header_norm_def header_ws_def header_value_ok_def)

lemma header_lower [simp]:
  "js_lower ''Content-Type'' = ''content-type''" "js_lower ''Authorization'' = ''authorization''"
  by code_simp+

lemma request_headers_token:
  assumes "token_ok tok" and "ri_headers i = []"
  shows "request_headers tok i = Inr (auth_headers tok)"
proof (cases "truthy_str tok")
  case None
  then show ?thesis using assms(2)
    by (simp add: request_headers_def headers_append_def header_check_def auth_headers_def)
next
  case (Some t)
  then have "header_value_ok (header_norm (''Bearer '' @ t))"
    using assms(1) by (intro header_value_ok_norm) (auto simp: token_ok_def truthy_str_Some)
  then show ?thesis using Some assms(2)
    by (simp add: request_headers_def headers_append_def headers_set_def header_check_def auth_headers_def)
qed

lemma request_sends:
  assumes "token_ok tok" and "ri_headers i = []"
  shows "request base_url net ep tok i =
    request_settle (net \<lparr>rq_url = base_url @ ep, rq_method = ri_method i, rq_body = ri_body i,
                         rq_credentials = ''include'', rq_headers = auth_headers tok\<rparr>)"
  by (simp add: request_def request_headers_token [OF assms])

section \<open>Settling\<close>

lemma request_settle_Inr:
  "request_settle a = Inr d \<longleftrightarrow> (\<exists>r. a = Some r \<and> rs_ok r \<and> rs_json r = Some d)"
  by (auto simp: request_settle_def split: option.splits sum.splits prod.splits)

lemma js_get_fails: "js_get d p = Inl e \<longleftrightarrow> e = TypeError \<and> (d = JNull \<or> d = JUndefined)"
  by (cases "(d, p)" rule: js_get.cases) auto

text \<open>An error carries the status of the answer when the answer is a JSON value other than
  \<open>null\<close>, and is the network error otherwise.\<close>

definition settled_status :: "http_response option \<Rightarrow> nat" where
  "settled_status a =
     (case a of None \<Rightarrow> 500
      | Some r \<Rightarrow> (case rs_json r of None \<Rightarrow> 500
                   | Some d \<Rightarrow> if d = JNull \<or> d = JUndefined then 500 else rs_status r))"

lemma request_settle_Inl:
  assumes "request_settle a = Inl e"
  shows "\<exists>err. e = ApiErr err \<and> ae_status err = settled_status a"
proof (cases a)
  case None
  then show ?thesis using assms
    by (auto simp: request_settle_def settled_status_def network_error_def)
next
  case (Some r)
  show ?thesis
  proof (cases "rs_json r")
    case None
    then show ?thesis using assms Some
      by (auto simp: request_settle_def settled_status_def network_error_def)
  next
    case js: (Some d)
    then show ?thesis using assms Some
      by (cases d) (auto simp: request_settle_def settled_status_def network_error_def js_get_or_def
          split: if_splits)
  qed
qed

section \<open>The contract of an endpoint\<close>

text \<open>
  An endpoint turns a token into one request and post-processes the answer. The callers (the route
  loaders, the canvas header, the cards) rely on the three laws derived here.
\<close>

locale endpoint =
  fixes call :: "net \<Rightarrow> string option \<Rightarrow> api_result"
    and req :: "string option \<Rightarrow> http_request"
    and reply :: "jsval \<Rightarrow> jsval js"
  assumes call_settles: "token_ok tok \<Longrightarrow> call net tok =
    (case request_settle (net (req tok)) of Inl e \<Rightarrow> Inl e
     | Inr d \<Rightarrow> (case reply d of Inl e \<Rightarrow> Inl (Other e) | Inr v \<Rightarrow> Inr v))"
begin

lemma call_value:
  "token_ok tok \<Longrightarrow> call net tok = Inr v \<longleftrightarrow>
     (\<exists>r d. net (req tok) = Some r \<and> rs_ok r \<and> rs_json r = Some d \<and> reply d = Inr v)"
proof -
  assume "token_ok tok"
  then have "call net tok = Inr v \<longleftrightarrow> (\<exists>d. request_settle (net (req tok)) = Inr d \<and> reply d = Inr v)"
    by (auto simp: call_settles split: sum.splits)
  then show ?thesis by (auto simp: request_settle_Inr)
qed

lemma call_one_request:
  "token_ok tok \<Longrightarrow> net (req tok) = net' (req tok) \<Longrightarrow> call net tok = call net' tok"
  by (simp add: call_settles)

lemma call_error:
  assumes "token_ok tok" and "call net tok = Inl e"
  shows "(\<exists>err. e = ApiErr err \<and> ae_status err = settled_status (net (req tok))) \<or>
         (\<exists>r d x. net (req tok) = Some r \<and> rs_ok r \<and> rs_json r = Some d \<and> reply d = Inl x \<and> e = Other x)"
  using assms request_settle_Inl [of "net (req tok)" e]
  by (auto simp: call_settles request_settle_Inr split: sum.splits)

end

lemma body_text_object [simp]: "body_text num (JObj fs) = json_stringify num (JObj fs)"
  by (simp add: body_text_def)

lemma body_text_undefined [simp]: "body_text num JUndefined = None"
  by (simp add: body_text_def)

lemmas verb_defs = api_get_def api_post_def api_put_def api_patch_def
lemmas client_defs = getUserWorkflows_def renderWorkflow_def createWorkflow_def updateWorkflow_def
  runWorkflow_def getUserWorkflowRuns_def archiveWorkflow_def

interpretation wf: endpoint "perform num base_url c" "call_request num base_url c" "call_reply c"
  for num base_url c
proof
  fix tok net
  assume "token_ok tok"
  then show "perform num base_url c net tok =
    (case request_settle (net (call_request num base_url c tok)) of Inl e \<Rightarrow> Inl e
     | Inr d \<Rightarrow> (case call_reply c d of Inl e \<Rightarrow> Inl (Other e) | Inr v \<Rightarrow> Inr v))"
    by (cases c) (simp_all add: client_defs verb_defs request_sends call_request_def
        create_json_def update_json_def split: sum.splits)
qed

section \<open>Properties\<close>

text \<open>Claim C27: a call of the workflow client returns a value exactly when the one request that the
  table of endpoints prescribes (method, path, JSON body, credentials and bearer token) is answered
  with a status of 200 to 299 and a JSON body, and the value is that body (for a started run, its
  \<open>run_id\<close>).\<close>

theorem client_call_value:
  assumes "token_ok tok"
  shows "perform num base_url c net tok = Inr v \<longleftrightarrow>
    (\<exists>r d. net (call_request num base_url c tok) = Some r \<and> rs_ok r \<and> rs_json r = Some d \<and>
           call_reply c d = Inr v)"
  using assms by (rule wf.call_value)

definition demo_net :: net where
  "demo_net rq =
     (if rq_method rq = Some ''POST'' \<and> rq_url rq = ''http://h/api/workflow-run/7''
      then Some \<lparr>rs_status = 200, rs_json = Some (JObj [(''run_id'', JNum 42)])\<rparr>
      else if rq_method rq = Some ''GET''
      then Some \<lparr>rs_status = 404, rs_json = Some (JObj [(''error'', JStr ''nope'')])\<rparr>
      else None)"

theorem client_call_value_witness:
  "perform (\<lambda>x. ''0'') ''http://h'' (RunWorkflow ''7'') demo_net (Some ''tok'') = Inr (JNum 42)"
proof -
  have "token_ok (Some ''tok'')" by (simp add: token_ok_def)
  then show ?thesis
    by (subst client_call_value) (auto simp: demo_net_def call_request_def rs_ok_def)
qed

text \<open>Claim C28: a call of the workflow client whose token, if it has one, can be sent in a header fails with an \<open>ApiError\<close>, which carries the
  status of the answer, or 500 when there is no answer, no JSON body or the body is \<open>null\<close>; the one
  exception is a successful start of a run whose answer is \<open>null\<close>, which is a \<open>TypeError\<close>.\<close>

theorem client_call_error:
  assumes "token_ok tok" and "perform num base_url c net tok = Inl e"
  shows "(\<exists>err. e = ApiErr err \<and>
                ae_status err = settled_status (net (call_request num base_url c tok))) \<or>
         (\<exists>i r. c = RunWorkflow i \<and> net (call_request num base_url c tok) = Some r \<and> rs_ok r \<and>
                (rs_json r = Some JNull \<or> rs_json r = Some JUndefined) \<and> e = Other TypeError)"
  using wf.call_error [OF assms] by (cases c) (auto simp: js_get_fails)

theorem client_call_error_witness:
  "\<exists>err. perform (\<lambda>x. ''0'') ''http://h'' GetUserWorkflows demo_net None = Inl (ApiErr err) \<and> ae_status err = 404"
proof -
  let ?e = "ApiErr \<lparr>ae_status = 404, ae_message = JStr ''nope'', ae_details = JStr []\<rparr>"
  have t: "token_ok None" by (simp add: token_ok_def)
  have p: "perform (\<lambda>x. ''0'') ''http://h'' GetUserWorkflows demo_net None = Inl ?e"
    unfolding wf.call_settles [OF t]
    by (simp add: demo_net_def call_request_def request_settle_def rs_ok_def js_get_or_def)
  show ?thesis
    using client_call_error [OF t p] p by simp
qed

text \<open>Sending an e-mail always reaches the server with an empty body and with the message
  as the bearer token, whatever the message holds.\<close>

lemma sendEmail_without_body:
  assumes "\<And>x. list_all printable (num x)"
  shows "\<exists>rq t. json_stringify num (send_email_json dto) = Some t \<and>
            sendEmail num base_url net dto = request_settle (net rq) \<and>
            rq_body rq = None \<and>
            map_of (rq_headers rq) ''authorization'' = Some (header_norm (''Bearer '' @ t))"
proof -
  obtain t where t: "json_stringify num (send_email_json dto) = Some t" "t \<noteq> []"
    by (simp add: send_email_json_def)
  have "list_all printable t" using json_printable(1) [OF assms t(1)] .
  then have "token_ok (Some t)"
    by (auto simp: token_ok_def header_value_ok_def list_all_iff printable_def)
  then show ?thesis
    using t by (auto simp: sendEmail_def verb_defs request_sends auth_headers_def)
qed

definition demo_email :: send_email_dto where
  "demo_email = \<lparr>se_to = [''a@b.co''], se_subject = ''hi'', se_body = [CHR 0x0A], se_cc = None, se_bcc = None\<rparr>"

lemma sendEmail_without_body_example:
  "\<exists>rq t. json_stringify (\<lambda>x. ''0'') (send_email_json demo_email) = Some t \<and>
     sendEmail (\<lambda>x. ''0'') ''http://h'' demo_net demo_email = request_settle (demo_net rq) \<and>
     rq_body rq = None \<and>
     map_of (rq_headers rq) ''authorization'' = Some (header_norm (''Bearer '' @ t))"
  by (rule sendEmail_without_body) simp

end
