(* ===== verification/Js_View.thy ===== *)
theory Js_View
  imports Prelude
begin

text \<open>
  What a React component renders: a tree of elements and texts. An element has the name of the
  component or HTML tag, its attributes and its children. Attributes keep what depends on the
  state or names a handler: the text of an attribute, \<open>"true"\<close> or \<open>"false"\<close> for a boolean, the
  handler's name for an event. Class names that are constant are styling and are left out; class
  names that depend on the state are kept under \<open>class\<close>.
\<close>

datatype view = Txt string | Elem string "(string \<times> string) list" "view list"

definition js_bool :: "bool \<Rightarrow> string" where
  "js_bool b = (if b then ''true'' else ''false'')"

text \<open>\<open>{c && v}\<close> and \<open>{v ?? nothing}\<close> among the children of an element.\<close>

definition show_if :: "bool \<Rightarrow> 'a \<Rightarrow> 'a list" where
  "show_if c v = (if c then [v] else [])"

definition opt_list :: "'a option \<Rightarrow> 'a list" where
  "opt_list x = (case x of None \<Rightarrow> [] | Some v \<Rightarrow> [v])"

fun view_texts :: "view \<Rightarrow> string list" where
  "view_texts (Txt s) = [s]"
| "view_texts (Elem t as vs) = concat (map view_texts vs)"

fun view_elems :: "view \<Rightarrow> (string \<times> (string \<times> string) list) list" where
  "view_elems (Txt s) = []"
| "view_elems (Elem t as vs) = (t, as) # concat (map view_elems vs)"

definition view_handlers :: "string \<Rightarrow> view \<Rightarrow> string list" where
  "view_handlers ev v = concat (map (\<lambda>e. opt_list (map_of (snd e) ev)) (view_elems v))"

definition view_count :: "string \<Rightarrow> view \<Rightarrow> nat" where
  "view_count t v = length (filter (\<lambda>e. fst e = t) (view_elems v))"

lemma js_bool_simps [simp]: "js_bool True = ''true''" "js_bool False = ''false''"
  by (simp_all add: js_bool_def)

lemma js_bool_inject [simp]: "js_bool a = js_bool b \<longleftrightarrow> a = b"
  by (simp add: js_bool_def)

lemma show_if_simps [simp]: "show_if True v = [v]" "show_if False v = []"
  by (simp_all add: show_if_def)

lemma set_show_if [simp]: "x \<in> set (show_if c v) \<longleftrightarrow> c \<and> x = v"
  by (auto simp: show_if_def)

lemma map_show_if [simp]: "map f (show_if c v) = show_if c (f v)"
  by (simp add: show_if_def)

lemma opt_list_simps [simp]: "opt_list None = []" "opt_list (Some v) = [v]"
  by (simp_all add: opt_list_def)

lemma concat_map_concat: "concat (map f (concat xss)) = concat (map (\<lambda>xs. concat (map f xs)) xss)"
  by (induction xss) simp_all

lemma view_handlers_Txt [simp]: "view_handlers ev (Txt s) = []"
  by (simp add: view_handlers_def)

lemma view_handlers_Elem [simp]:
  "view_handlers ev (Elem t as vs) = opt_list (map_of as ev) @ concat (map (view_handlers ev) vs)"
  by (simp add: view_handlers_def [abs_def] concat_map_concat o_def)

lemma view_count_Txt [simp]: "view_count t (Txt s) = 0"
  by (simp add: view_count_def)

lemma view_count_Elem [simp]:
  "view_count t (Elem u as vs) = (if u = t then 1 else 0) + sum_list (map (view_count t) vs)"
  by (simp add: view_count_def [abs_def] filter_concat length_concat o_def)

end
