(* ===== verification/Canvas.thy ===== *)
theory Canvas
  imports Flow_Laws Workflow_Api Js_View
begin

text \<open>
  The canvas: \<open>components/Canvas/CanvasBody.tsx\<close>, \<open>CanvasHeader.tsx\<close>, the workflow builder route
  and the keyboard layout around them.

  The state is the store of theory \<open>Flow_Store\<close> and a heap of node \<open>data\<close> objects: the settings
  forms write \<open>selectedNode.data.config\<close> in place, and the node in the canvas shares that object,
  so the saved workflow has the new configuration although the store never changes.
\<close>

section \<open>Node data in the heap\<close>

record node_data =
  d_category :: string
  d_nodeType :: string
  d_config :: config
  d_label :: string
  d_description :: string
  d_icon :: string
  d_status :: "string option"

record canvas_state =
  cv_store :: flow_state
  cv_heap :: "nat \<rightharpoonup> node_data"
  cv_next :: nat

definition init_canvas :: canvas_state where
  "init_canvas = \<lparr>cv_store = init_store, cv_heap = Map.empty, cv_next = 0\<rparr>"

text \<open>\<open>NodeBuilder\<close> allocates the data object; reading \<open>block.category\<close> of a node type that is not in
  the catalogue throws. The second component is the heap after the call.\<close>

definition NodeBuilder ::
  "string \<Rightarrow> real \<times> real \<Rightarrow> string \<Rightarrow> string \<Rightarrow> config \<Rightarrow> canvas_state \<Rightarrow> (rf_node \<times> canvas_state) js" where
  "NodeBuilder nid position category nodeType config s =
     (case nodeTypeToBlockMap nodeType of
        None \<Rightarrow> Inl TypeError
      | Some block \<Rightarrow>
          Inr (\<lparr>n_id = nid, n_type = Some (b_category block), n_position = position,
                n_data = cv_next s, n_selected = None\<rparr>,
               s\<lparr>cv_heap := (cv_heap s)(cv_next s \<mapsto>
                    \<lparr>d_category = category, d_nodeType = nodeType, d_config = config,
                     d_label = b_label block, d_description = b_description block,
                     d_icon = b_icon block, d_status = b_status block\<rparr>),
                 cv_next := Suc (cv_next s)\<rparr>))"

text \<open>\<open>nodes.map((n) => NodeBuilder(...))\<close>.\<close>

fun build_nodes :: "workflow_node list \<Rightarrow> canvas_state \<Rightarrow> (rf_node list \<times> canvas_state) js" where
  "build_nodes [] s = Inr ([], s)"
| "build_nodes (n # ns) s =
     js_bind (NodeBuilder (wn_id n) (wn_position n) (wn_category n) (wn_node_type n) (wn_config n) s)
       (\<lambda>(m, s1). js_bind (build_nodes ns s1) (\<lambda>(ms, s2). Inr (m # ms, s2)))"

definition on_store :: "(flow_state \<Rightarrow> flow_state) \<Rightarrow> canvas_state \<Rightarrow> canvas_state" where
  "on_store f s = s\<lparr>cv_store := f (cv_store s)\<rparr>"

definition on_store_throwing ::
  "(flow_state \<Rightarrow> flow_state throwing) \<Rightarrow> canvas_state \<Rightarrow> canvas_state throwing" where
  "on_store_throwing f s = (case f (cv_store s) of (s', e) \<Rightarrow> (s\<lparr>cv_store := s'\<rparr>, e))"

section \<open>Canvas body\<close>

definition onNodeClick :: "rf_node \<Rightarrow> canvas_state \<Rightarrow> canvas_state" where
  "onNodeClick node = on_store (setSelectedNode (Some node))"

definition onPaneClick :: "canvas_state \<Rightarrow> canvas_state" where
  "onPaneClick = on_store (setSelectedNode None)"

text \<open>A drop: \<open>data\<close> is what the drag carries, the two strings of the JSON object that a block of
  the block panel puts there, or \<open>None\<close> when the text of a foreign drag does not parse;
  \<open>position\<close> is the result of \<open>screenToFlowPosition\<close> and \<open>uuid\<close> that of \<open>uuidv4\<close>.\<close>

definition onDrop ::
  "(string \<times> string) option \<Rightarrow> real \<times> real \<Rightarrow> string \<Rightarrow> canvas_state \<Rightarrow> canvas_state throwing" where
  "onDrop dropped position uuid s =
     (let nodes = getNodes (cv_store s);
          s1 = on_store (setSelectedNode None) s
      in (case dropped of
            None \<Rightarrow> (s1, Some (ErrorMsg ''SyntaxError''))
          | Some (category, nodeType) \<Rightarrow>
              (case NodeBuilder uuid position category nodeType [] s1 of
                 Inl e \<Rightarrow> (s1, Some e)
               | Inr (newNode, s2) \<Rightarrow>
                   (let s3 = on_store (setNodes (map (\<lambda>n. n\<lparr>n_selected := Some False\<rparr>) nodes @ [newNode])) s2
                    in (case nodeTypeToBlockMap nodeType of
                          None \<Rightarrow> (s3, Some TypeError)
                        | Some b \<Rightarrow> on_store_throwing (addRecentlyUsedBlock b) s3)))))"

definition CanvasBody :: "string \<Rightarrow> canvas_state \<Rightarrow> view" where
  "CanvasBody theme s =
     Elem ''div'' []
       [Elem ''ReactFlow''
          [(''nodeTypes'', ''action:NodeUI trigger:NodeUI''),
           (''nodes'', js_join '','' (map n_id (getNodes (cv_store s)))),
           (''edges'', js_join '','' (map e_id (getEdges (cv_store s)))),
           (''onNodesChange'', ''onNodesChange''), (''onEdgesChange'', ''onEdgesChange''),
           (''onConnect'', ''onConnect''), (''onDragOver'', ''onDragOver''), (''onDrop'', ''onDrop''),
           (''onNodeClick'', ''onNodeClick''), (''onPaneClick'', ''onPaneClick''),
           (''fitView'', ''true''), (''selectNodesOnDrag'', ''false''), (''nodesFocusable'', ''false''),
           (''edgesFocusable'', ''false''), (''attributionPosition'', ''top-right''),
           (''colorMode'', if theme = ''dark'' then ''dark'' else ''light'')]
          [Elem ''Background'' [] [], Elem ''Controls'' [] [],
           Elem ''MiniMap'' [(''nodeColor'', ''#ddd'')] []]]"

section \<open>Loading a workflow\<close>

text \<open>\<open>{...edge, id, source, target, animated, style, markerEnd}\<close>: the spread leaves the two fields of
  the workflow edge on the object.\<close>

definition loaded_edge :: "workflow_edge \<Rightarrow> rf_edge" where
  "loaded_edge e =
     \<lparr>e_id = we_id e, e_source = we_source_node_id e, e_target = we_target_node_id e,
      e_sourceHandle = None, e_targetHandle = None,
      e_extra = [(''source_node_id'', we_source_node_id e), (''target_node_id'', we_target_node_id e)],
      e_animated = True, e_stroke = Some ''#60a5fa'', e_markerEnd = Some (ArrowClosed, ''#60a5fa'')\<rparr>"

definition load_workflow :: "rendered_workflow \<Rightarrow> canvas_state \<Rightarrow> canvas_state throwing" where
  "load_workflow w s =
     (case build_nodes (rw_nodes w) s of
        Inl e \<Rightarrow> (s, Some e)
      | Inr (parsedNodes, s1) \<Rightarrow>
          (on_store (setEdges (map_option (map loaded_edge) (rw_edges w)))
             (on_store (setNodes parsedNodes) s1), None))"

definition builder_key :: "rendered_workflow option \<Rightarrow> string" where
  "builder_key w = ''builder-'' @ (case w of None \<Rightarrow> ''new'' | Some r \<Rightarrow> rw_id r)"

text \<open>The two effects of the builder route, in order.\<close>

definition WorkflowBuilder_effects :: "rendered_workflow option \<Rightarrow> canvas_state \<Rightarrow> canvas_state throwing" where
  "WorkflowBuilder_effects workflowToEdit s =
     (let s1 = on_store (initializeFlow (builder_key workflowToEdit)) s
      in (case workflowToEdit of None \<Rightarrow> (s1, None) | Some w \<Rightarrow> load_workflow w s1))"

text \<open>The loader: \<open>None\<close> is the new workflow, a call is made only for an identifier.\<close>

definition builder_loader ::
  "string \<Rightarrow> net \<Rightarrow> string option \<Rightarrow> string option \<Rightarrow> request_error + jsval option" where
  "builder_loader base_url net workflowID token =
     (case truthy_str workflowID of
        None \<Rightarrow> Inr None
      | Some i \<Rightarrow> (case renderWorkflow base_url net i token of Inl e \<Rightarrow> Inl e | Inr d \<Rightarrow> Inr (Some d)))"

section \<open>Canvas header\<close>

record header_state =
  h_name :: string
  h_editingName :: bool

definition header_init :: "rendered_workflow option \<Rightarrow> header_state" where
  "header_init workflow =
     (let nm = (case workflow of None \<Rightarrow> [] | Some w \<Rightarrow> rw_name w)
      in \<lparr>h_name = nm, h_editingName = (nm = [])\<rparr>)"

definition setName :: "string \<Rightarrow> header_state \<Rightarrow> header_state" where
  "setName v h = h\<lparr>h_name := v\<rparr>"

definition handleSaveName :: "header_state \<Rightarrow> header_state" where
  "handleSaveName h = h\<lparr>h_editingName := False, h_name := js_trim (h_name h)\<rparr>"

definition handleEditName :: "header_state \<Rightarrow> header_state" where
  "handleEditName h = h\<lparr>h_editingName := True\<rparr>"

definition handleInputKeyDown :: "string \<Rightarrow> header_state \<Rightarrow> header_state" where
  "handleInputKeyDown key h =
     (let h1 = (if key = ''Enter'' then handleSaveName h else h)
      in if key = ''Escape'' then h1\<lparr>h_editingName := False\<rparr> else h1)"

text \<open>\<open>node.data.category\<close> reads the heap; a node whose data object is missing throws.\<close>

definition saved_node :: "(nat \<rightharpoonup> node_data) \<Rightarrow> rf_node \<Rightarrow> workflow_node js" where
  "saved_node heap node =
     (case heap (n_data node) of
        None \<Rightarrow> Inl TypeError
      | Some d \<Rightarrow>
          Inr \<lparr>wn_id = n_id node, wn_category = d_category d, wn_node_type = d_nodeType d,
               wn_config = d_config d, wn_position = n_position node\<rparr>)"

definition saved_edge :: "rf_edge \<Rightarrow> workflow_edge" where
  "saved_edge e = \<lparr>we_id = e_id e, we_source_node_id = e_source e, we_target_node_id = e_target e\<rparr>"

datatype toast = ToastSuccess string | ToastError string | ToastInfo string

text \<open>What a press on Save does: the call it starts, the toast it shows and where it navigates. The
  update is not awaited: its outcome does not reach the toast.\<close>

record save_effect =
  sv_call :: "api_call option"
  sv_navigate :: "string option"
  sv_toast :: toast

definition update_dto ::
  "rendered_workflow \<Rightarrow> header_state \<Rightarrow> workflow_node list \<Rightarrow> rf_edge list \<Rightarrow> update_workflow_dto" where
  "update_dto w h ns es =
     \<lparr>uw_name = js_or_str (h_name h) (rw_name w), uw_description = rw_description w,
      uw_nodes = ns, uw_edges = map saved_edge es\<rparr>"

definition create_dto :: "header_state \<Rightarrow> workflow_node list \<Rightarrow> rf_edge list \<Rightarrow> create_workflow_dto" where
  "create_dto h ns es =
     \<lparr>cw_name = h_name h, cw_description = ''New Workflow Description'', cw_status = ''draft'',
      cw_nodes = ns, cw_edges = map saved_edge es\<rparr>"

definition handleSaveWorkflow ::
  "(real \<Rightarrow> string) \<Rightarrow> string \<Rightarrow> net \<Rightarrow> rendered_workflow option \<Rightarrow> header_state \<Rightarrow> canvas_state \<Rightarrow> save_effect" where
  "handleSaveWorkflow num base_url net workflow h s =
     (let failed = (\<lambda>c. \<lparr>sv_call = c, sv_navigate = None, sv_toast = ToastError ''Failed to save workflow''\<rparr>);
          saved = (\<lambda>c n. \<lparr>sv_call = Some c, sv_navigate = n,
                          sv_toast = ToastSuccess ''Workflow saved successfully''\<rparr>);
          edges = getEdges (cv_store s)
      in (case js_map_err (saved_node (cv_heap s)) (getNodes (cv_store s)) of
            Inl e \<Rightarrow> failed None
          | Inr ns \<Rightarrow>
              (case workflow of
                 Some w \<Rightarrow> saved (UpdateWorkflow (rw_id w) (update_dto w h ns edges)) None
               | None \<Rightarrow>
                   (let c = CreateWorkflow (create_dto h ns edges)
                    in (case perform num base_url c net None of
                          Inl e \<Rightarrow> failed (Some c)
                        | Inr response \<Rightarrow>
                            (case js_get response ''id'' of
                               Inl e \<Rightarrow> failed (Some c)
                             | Inr i \<Rightarrow> saved c (Some (''/workflow-builder/'' @ js_show num i))))))))"

definition CanvasHeader :: "bool option \<Rightarrow> header_state \<Rightarrow> view" where
  "CanvasHeader collapsed h =
     Elem ''div'' []
       [Elem ''div'' []
          (opt_list (map_option (\<lambda>c. Elem ''Button''
               [(''onClick'', ''onCollapseToggle''),
                (''aria-label'', if c then ''Expand block panel'' else ''Collapse block panel'')]
               [Elem ''Menu'' [] []]) collapsed) @
           [if h_editingName h
            then Elem ''Input''
                   [(''type'', ''text''), (''placeholder'', ''Enter workflow name...''),
                    (''value'', h_name h), (''onChange'', ''setName''), (''onBlur'', ''handleSaveName''),
                    (''onKeyDown'', ''handleInputKeyDown'')] []
            else Elem ''div'' []
                   [Elem ''h4'' [] [Txt (h_name h)],
                    Elem ''Button'' [(''onClick'', ''handleEditName'')] [Elem ''Pencil'' [] []]],
            Elem ''Badge'' [] [Txt ''Draft'']]),
        Elem ''div'' []
          [Elem ''Button'' [(''onClick'', ''handleSaveWorkflow'')] [Txt ''Save''],
           Elem ''Button'' [] [Txt ''Publish'']]]"

section \<open>Keyboard layout\<close>

text \<open>\<open>open\<close> is the state of the sidebar.\<close>

record layout_state =
  toggleBlockPanel :: bool
  toggleInspectorPanel :: bool
  searchFocused :: bool
  ly_open :: bool
  ly_initialized :: bool

definition layout_init :: "bool \<Rightarrow> layout_state" where
  "layout_init sidebar =
     \<lparr>toggleBlockPanel = True, toggleInspectorPanel = True, searchFocused = False,
      ly_open = sidebar, ly_initialized = False\<rparr>"

definition layout_effect :: "layout_state \<Rightarrow> layout_state" where
  "layout_effect s = (if \<not> ly_initialized s then s\<lparr>ly_open := False, ly_initialized := True\<rparr> else s)"

record key_event =
  k_key :: string
  k_meta :: bool
  k_ctrl :: bool
  k_textInput :: bool

definition handleKeyPress :: "key_event \<Rightarrow> layout_state \<Rightarrow> layout_state" where
  "handleKeyPress e s =
     (if k_key e = ''/'' \<and> \<not> k_textInput e then s\<lparr>toggleBlockPanel := True, searchFocused := True\<rparr>
      else if k_key e = ''f'' \<and> \<not> k_textInput e then
        (let isFullscreen = (\<not> (toggleBlockPanel s \<or> toggleInspectorPanel s \<or> ly_open s))
         in s\<lparr>ly_open := isFullscreen, toggleInspectorPanel := isFullscreen,
              toggleBlockPanel := isFullscreen\<rparr>)
      else if k_key e = ''b'' \<and> \<not> (k_meta e \<or> k_ctrl e) \<and> \<not> k_textInput e then
        s\<lparr>toggleBlockPanel := \<not> toggleBlockPanel s\<rparr>
      else if k_key e = ''i'' \<and> \<not> k_textInput e then
        s\<lparr>toggleInspectorPanel := \<not> toggleInspectorPanel s\<rparr>
      else s)"

definition WorkflowBuilder :: "layout_state \<Rightarrow> header_state \<Rightarrow> string \<Rightarrow> canvas_state \<Rightarrow> view" where
  "WorkflowBuilder ly h theme s =
     Elem ''div'' []
       [Elem ''div'' [(''class'', if toggleBlockPanel ly then ''w-64 pointer-events-auto''
                                  else ''w-0 pointer-events-none'')]
          [Elem ''BlockPanel'' [(''searchFocused'', js_bool (searchFocused ly)),
                                (''setSearchFocused'', ''setSearchFocused''),
                                (''blockPanelOpen'', js_bool (toggleBlockPanel ly))] []],
        Elem ''div'' []
          [CanvasHeader (Some (\<not> toggleBlockPanel ly)) h, Elem ''Separator'' [] [], CanvasBody theme s],
        Elem ''InspectorPanel'' [(''toggleInspectorPanel'', js_bool (toggleInspectorPanel ly)),
                                 (''setToggleInspectorPanel'', ''setToggleInspectorPanel'')] []]"

section \<open>The canvas as a machine\<close>

text \<open>\<open>selectedNode.data.config = c\<close>, the write with which every settings form ends.\<close>

definition write_config :: "config \<Rightarrow> canvas_state \<Rightarrow> canvas_state" where
  "write_config c s =
     (case getSelectedNode (cv_store s) of
        None \<Rightarrow> s
      | Some n \<Rightarrow>
          (case cv_heap s (n_data n) of
             None \<Rightarrow> s
           | Some d \<Rightarrow> s\<lparr>cv_heap := (cv_heap s)(n_data n \<mapsto> d\<lparr>d_config := c\<rparr>)\<rparr>))"

text \<open>The changes that the canvas library reports for what a user does; the other two kinds of change
  are reported only for its imperative interface, which no component calls.\<close>

datatype user_change =
    UC_remove string
  | UC_select string bool
  | UC_position string "(real \<times> real) option"
  | UC_dimensions string

fun user_node_change :: "user_change \<Rightarrow> node_change" where
  "user_node_change (UC_remove i) = NC_remove i"
| "user_node_change (UC_select i b) = NC_select i b"
| "user_node_change (UC_position i p) = NC_position i p"
| "user_node_change (UC_dimensions i) = NC_dimensions i"

datatype canvas_event =
    CE_open "rendered_workflow option"
  | CE_click nat
  | CE_pane
  | CE_drop "(string \<times> string) option" "real \<times> real" string
  | CE_nodes "user_change list"
  | CE_edges "edge_change list"
  | CE_connect connection
  | CE_configure config

fun canvas_step ::
  "(node_change list \<Rightarrow> rf_node list option \<Rightarrow> rf_node list js) \<Rightarrow>
   (edge_change list \<Rightarrow> rf_edge list option \<Rightarrow> rf_edge list js) \<Rightarrow>
   (rf_edge \<Rightarrow> rf_edge list \<Rightarrow> rf_edge list) \<Rightarrow>
   canvas_event \<Rightarrow> canvas_state \<Rightarrow> canvas_state throwing" where
  "canvas_step anc aec ae (CE_open w) s = WorkflowBuilder_effects w s"
| "canvas_step anc aec ae (CE_click i) s =
     (let ns = getNodes (cv_store s) in if i < length ns then (onNodeClick (ns ! i) s, None) else (s, None))"
| "canvas_step anc aec ae CE_pane s = (onPaneClick s, None)"
| "canvas_step anc aec ae (CE_drop d p u) s = onDrop d p u s"
| "canvas_step anc aec ae (CE_nodes cs) s = on_store_throwing (onNodesChange anc (map user_node_change cs)) s"
| "canvas_step anc aec ae (CE_edges cs) s = on_store_throwing (onEdgesChange aec cs) s"
| "canvas_step anc aec ae (CE_connect c) s = on_store_throwing (onConnect ae c) s"
| "canvas_step anc aec ae (CE_configure c) s = (write_config c s, None)"

text \<open>What the canvas library documents of these changes: removed
  nodes go, the others keep their identifiers and their data objects.\<close>

definition applyNodeChanges_keeps ::
  "(node_change list \<Rightarrow> rf_node list option \<Rightarrow> rf_node list js) \<Rightarrow> bool" where
  "applyNodeChanges_keeps anc \<longleftrightarrow>
     (\<forall>cs ns ns'. anc (map user_node_change cs) (Some ns) = Inr ns' \<longrightarrow>
        (\<exists>P. map (\<lambda>n. (n_id n, n_data n)) ns' = map (\<lambda>n. (n_id n, n_data n)) (filter P ns)))"

text \<open>The invariant: every node on a canvas has a data object of its own.\<close>

definition nodes_own_data :: "canvas_state \<Rightarrow> bool" where
  "nodes_own_data s \<longleftrightarrow>
     (\<forall>k f ns. flows (cv_store s) k = Some f \<longrightarrow> f_nodes f = Some ns \<longrightarrow>
        distinct (map n_data ns) \<and> n_data ` set ns \<subseteq> dom (cv_heap s))"

definition cv_inv :: "canvas_state \<Rightarrow> bool" where
  "cv_inv s \<longleftrightarrow> store_inv (cv_store s) \<and> nodes_own_data s \<and> dom (cv_heap s) \<subseteq> {..<cv_next s}"

section \<open>Every node owns its data\<close>

lemma on_store_simps [simp]:
  "cv_store (on_store f s) = f (cv_store s)" "cv_heap (on_store f s) = cv_heap s"
  "cv_next (on_store f s) = cv_next s"
  by (simp_all add: on_store_def)

lemma on_store_throwing_simps [simp]:
  "cv_store (fst (on_store_throwing f s)) = fst (f (cv_store s))"
  "cv_heap (fst (on_store_throwing f s)) = cv_heap s"
  "cv_next (fst (on_store_throwing f s)) = cv_next s"
  "snd (on_store_throwing f s) = snd (f (cv_store s))"
  by (simp_all add: on_store_throwing_def split: prod.splits)

lemma fst_on_store_throwing: "fst (on_store_throwing f s) = s\<lparr>cv_store := fst (f (cv_store s))\<rparr>"
  by (simp add: on_store_throwing_def split: prod.splits)

text \<open>A list of nodes that may stand in a flow over a given heap.\<close>

definition own_data :: "(nat \<rightharpoonup> node_data) \<Rightarrow> rf_node list \<Rightarrow> bool" where
  "own_data heap ns \<longleftrightarrow> distinct (map n_data ns) \<and> n_data ` set ns \<subseteq> dom heap"

definition flow_own :: "(nat \<rightharpoonup> node_data) \<Rightarrow> flow_data \<Rightarrow> bool" where
  "flow_own heap f \<longleftrightarrow> (\<forall>ns. f_nodes f = Some ns \<longrightarrow> own_data heap ns)"

lemma nodes_own_data_alt:
  "nodes_own_data s \<longleftrightarrow> (\<forall>k f. flows (cv_store s) k = Some f \<longrightarrow> flow_own (cv_heap s) f)"
  by (auto simp: nodes_own_data_def flow_own_def own_data_def)

lemma cv_inv_flow: "cv_inv s \<Longrightarrow> flows (cv_store s) k = Some f \<Longrightarrow> flow_own (cv_heap s) f"
  by (simp add: cv_inv_def nodes_own_data_alt)

lemma own_data_Nil [simp]: "own_data h []"
  by (simp add: own_data_def)

lemma own_data_mono: "own_data h ns \<Longrightarrow> dom h \<subseteq> dom h' \<Longrightarrow> own_data h' ns"
  unfolding own_data_def by blast

lemma own_data_filter: "own_data h ns \<Longrightarrow> own_data h (filter P ns)"
  by (auto simp: own_data_def distinct_map_filter_key)

lemma own_data_keeps:
  assumes "own_data h ns" and "map (\<lambda>n. (n_id n, n_data n)) ns' = map (\<lambda>n. (n_id n, n_data n)) (filter P ns)"
  shows "own_data h ns'"
proof -
  have "map n_data ns' = map n_data (filter P ns)"
    using arg_cong [OF assms(2), of "map snd"] by (simp add: o_def)
  then show ?thesis
    using own_data_filter [OF assms(1), of P] unfolding own_data_def by (metis list.set_map)
qed

lemma getNodes_own: "cv_inv s \<Longrightarrow> own_data (cv_heap s) (getNodes (cv_store s))"
  by (simp add: getNodes_def split: option.splits) (metis cv_inv_flow flow_own_def)

text \<open>Store operations on a canvas: it is enough to look at the nodes of the flows.\<close>

lemma cv_inv_store:
  assumes "cv_inv s" and "store_inv st"
    and "\<And>k f. flows st k = Some f \<Longrightarrow> flow_own (cv_heap s) f"
  shows "cv_inv (s\<lparr>cv_store := st\<rparr>)"
  using assms by (simp add: cv_inv_def nodes_own_data_alt)

lemma flow_own_fields:
  assumes "flow_own h (spread_flow s k)" and "f_nodes g = f_nodes (spread_flow s k)"
  shows "flow_own h g"
  using assms by (simp add: flow_own_def)

lemma flow_own_spread: "cv_inv s \<Longrightarrow> flow_own (cv_heap s) (spread_flow (cv_store s) k)"
  by (auto simp: spread_flow_def flow_own_def no_fields_def split: option.splits
      dest: cv_inv_flow [unfolded flow_own_def])

definition same_nodes :: "flow_state \<Rightarrow> flow_state \<Rightarrow> bool" where
  "same_nodes s t \<longleftrightarrow> (\<forall>k f. flows t k = Some f \<longrightarrow> f_nodes f = Some [] \<or> f_nodes f = f_nodes (spread_flow s k))"

lemma cv_inv_same_nodes:
  assumes "cv_inv s" and "store_inv st" and "same_nodes (cv_store s) st"
  shows "cv_inv (s\<lparr>cv_store := st\<rparr>)"
proof (rule cv_inv_store [OF assms(1,2)])
  fix k f assume "flows st k = Some f"
  then have "f_nodes f = Some [] \<or> f_nodes f = f_nodes (spread_flow (cv_store s) k)"
    using assms(3) by (simp add: same_nodes_def)
  then show "flow_own (cv_heap s) f"
    using flow_own_spread [OF assms(1), of k] by (auto simp: flow_own_def)
qed

subsection \<open>The operations\<close>

lemma setSelectedNode_same: "same_nodes s (setSelectedNode n s)"
  by (auto simp: same_nodes_def setSelectedNode_def split: option.splits)

lemma setEdges_same: "same_nodes s (setEdges es s)"
  by (auto simp: same_nodes_def setEdges_def Let_def split: option.splits)

lemma initializeFlow_same: "same_nodes s (initializeFlow k s)"
  by (auto simp: same_nodes_def initializeFlow_def defaultFlowData_def split: option.splits)

lemma addRecentlyUsedBlock_same: "same_nodes s (fst (addRecentlyUsedBlock b s))"
  by (auto simp: same_nodes_def addRecentlyUsedBlock_def Let_def split: option.splits)

lemma onEdgesChange_same: "same_nodes s (fst (onEdgesChange aec cs s))"
  by (auto simp: same_nodes_def onEdgesChange_def Let_def split: option.splits sum.splits)

lemma setHandleAnimation_same: "same_nodes s (setHandleAnimation n t v s)"
  by (auto simp: same_nodes_def setHandleAnimation_def Let_def split: option.splits)

lemma onConnect_same: "same_nodes s (fst (onConnect ae c s))"
proof -
  have 1: "f_nodes (spread_flow (setHandleAnimation n t v s) k) = f_nodes (spread_flow s k)" for n t v s k
    by (auto simp: setHandleAnimation_def Let_def split: option.splits)
  let ?s2 = "setHandleAnimation (cn_target c) HTarget True (setHandleAnimation (cn_source c) HSource True s)"
  have 2: "flows ?s2 k = Some f \<Longrightarrow> f_nodes f = f_nodes (spread_flow s k)" for k f
    using 1 [of "cn_target c" HTarget True "setHandleAnimation (cn_source c) HSource True s" k]
      1 [of "cn_source c" HSource True s k] by simp
  have "same_nodes s (put_flow k (f\<lparr>f_edges := es\<rparr>) ?s2)" if "flows ?s2 k = Some f" for k f es
    using that 2 by (auto simp: same_nodes_def)
  moreover have "same_nodes s ?s2" "same_nodes s s" using 2 by (auto simp: same_nodes_def)
  ultimately show ?thesis
    by (auto simp: onConnect_def Let_def split: option.splits)
qed

lemmas same_nodes_ops = setSelectedNode_same setEdges_same initializeFlow_same
  addRecentlyUsedBlock_same onEdgesChange_same onConnect_same

lemma cv_inv_on_store:
  "cv_inv s \<Longrightarrow> (\<And>t. store_inv t \<Longrightarrow> store_inv (f t)) \<Longrightarrow> same_nodes (cv_store s) (f (cv_store s)) \<Longrightarrow>
   cv_inv (on_store f s)"
  unfolding on_store_def by (rule cv_inv_same_nodes) (auto simp: cv_inv_def)

lemma cv_inv_on_store_throwing:
  "cv_inv s \<Longrightarrow> (\<And>t. store_inv t \<Longrightarrow> store_inv (fst (f t))) \<Longrightarrow>
   same_nodes (cv_store s) (fst (f (cv_store s))) \<Longrightarrow> cv_inv (fst (on_store_throwing f s))"
  unfolding fst_on_store_throwing by (rule cv_inv_same_nodes) (auto simp: cv_inv_def)

lemma cv_inv_setNodes:
  assumes "cv_inv s" and "own_data (cv_heap s) ns"
  shows "cv_inv (on_store (setNodes ns) s)"
  unfolding on_store_def
proof (rule cv_inv_store [OF assms(1)])
  show "store_inv (setNodes ns (cv_store s))" using assms(1) by (auto simp: cv_inv_def intro: js_intros)
  fix k f assume "flows (setNodes ns (cv_store s)) k = Some f"
  then show "flow_own (cv_heap s) f"
    using assms cv_inv_flow by (auto simp: setNodes_def flow_own_def split: option.splits if_splits)
qed

lemma cv_inv_onNodesChange:
  assumes "cv_inv s" and "applyNodeChanges_keeps anc"
  shows "cv_inv (fst (on_store_throwing (onNodesChange anc (map user_node_change cs)) s))"
proof -
  let ?t = "fst (onNodesChange anc (map user_node_change cs) (cv_store s))"
  have "cv_inv (s\<lparr>cv_store := ?t\<rparr>)"
  proof (rule cv_inv_store [OF assms(1)])
    show si: "store_inv ?t" using assms(1) by (auto simp: cv_inv_def intro: js_intros)
    fix k f assume f: "flows ?t k = Some f"
    show "flow_own (cv_heap s) f"
    proof (cases "flows (cv_store s) k = Some f")
      case True
      then show ?thesis using cv_inv_flow [OF assms(1)] by blast
    next
      case False
      then obtain g ns' where g: "flows (cv_store s) k = Some g" "f_nodes f = Some ns'"
          "anc (map user_node_change cs) (f_nodes g) = Inr ns'"
        using f by (auto simp: onNodesChange_def split: option.splits sum.splits if_splits)
      moreover have "wf_flow g" using g(1) assms(1) by (simp add: cv_inv_def store_inv_def)
      then obtain ns where "f_nodes g = Some ns" by (auto simp: wf_flow_def)
      ultimately have "flows (cv_store s) k = Some g" "f_nodes g = Some ns" "f_nodes f = Some ns'"
          "anc (map user_node_change cs) (Some ns) = Inr ns'" by simp_all
      moreover from this assms(2) obtain P where
        "map (\<lambda>n. (n_id n, n_data n)) ns' = map (\<lambda>n. (n_id n, n_data n)) (filter P ns)"
        unfolding applyNodeChanges_keeps_def by blast
      moreover have "own_data (cv_heap s) ns"
        using cv_inv_flow [OF assms(1) g(1)] \<open>f_nodes g = Some ns\<close> by (simp add: flow_own_def)
      ultimately show ?thesis using own_data_keeps by (simp add: flow_own_def)
    qed
  qed
  then show ?thesis by (auto simp: on_store_throwing_def split: prod.splits)
qed

text \<open>Allocation: new nodes point to new objects, the old objects stay.\<close>

lemma NodeBuilder_alloc:
  assumes "NodeBuilder i p c t cfg s = Inr (n, s')"
  shows "n_data n = cv_next s" "cv_next s' = Suc (cv_next s)" "cv_store s' = cv_store s"
    "n_id n = i" "n_position n = p" "n_selected n = None"
    "\<exists>b. nodeTypeToBlockMap t = Some b \<and> n_type n = Some (b_category b) \<and>
         cv_heap s' = (cv_heap s)(cv_next s \<mapsto>
           \<lparr>d_category = c, d_nodeType = t, d_config = cfg, d_label = b_label b,
            d_description = b_description b, d_icon = b_icon b, d_status = b_status b\<rparr>)"
  using assms by (auto simp: NodeBuilder_def split: option.splits)

lemma cv_inv_heap:
  assumes "cv_inv s" and "cv_store s' = cv_store s" and "dom (cv_heap s) \<subseteq> dom (cv_heap s')"
    and "dom (cv_heap s') \<subseteq> {..<cv_next s'}"
  shows "cv_inv s'"
  using assms own_data_mono [OF _ assms(3)] unfolding cv_inv_def nodes_own_data_alt flow_own_def
  by metis

lemma build_nodes_alloc:
  assumes "build_nodes ws s = Inr (ns, s')" and "dom (cv_heap s) \<subseteq> {..<cv_next s}"
  shows "cv_store s' = cv_store s \<and> cv_next s \<le> cv_next s' \<and> dom (cv_heap s') \<subseteq> {..<cv_next s'} \<and>
    distinct (map n_data ns) \<and> n_data ` set ns \<subseteq> dom (cv_heap s') \<and> n_data ` set ns \<subseteq> {cv_next s..} \<and>
    (\<forall>r<cv_next s. cv_heap s' r = cv_heap s r)"
  using assms
proof (induction ws arbitrary: s ns)
  case (Cons w ws)
  from Cons.prems(1) obtain m s1 ms where
    nb: "NodeBuilder (wn_id w) (wn_position w) (wn_category w) (wn_node_type w) (wn_config w) s = Inr (m, s1)"
    and rec: "build_nodes ws s1 = Inr (ms, s')" and ns: "ns = m # ms"
    by auto
  note a = NodeBuilder_alloc [OF nb]
  have d1: "dom (cv_heap s1) = insert (cv_next s) (dom (cv_heap s))" using a(7) by auto
  then have "dom (cv_heap s1) \<subseteq> {..<cv_next s1}" using Cons.prems(2) a(2) by auto
  note r = Cons.IH [OF rec this]
  have "cv_heap s' (cv_next s) = cv_heap s1 (cv_next s)" using r a(2) by simp
  then have "n_data m \<in> dom (cv_heap s')" using a(1,7) by auto
  moreover have "\<forall>r<cv_next s. cv_heap s1 r = cv_heap s r" using a(7) by auto
  ultimately show ?case using r a(1,2,3) by (auto simp: ns)
qed simp

lemma build_nodes_inv:
  assumes "cv_inv s" and "build_nodes ws s = Inr (ns, s')"
  shows "cv_inv s'" and "own_data (cv_heap s') ns"
proof -
  have b: "dom (cv_heap s) \<subseteq> {..<cv_next s}" using assms(1) by (simp add: cv_inv_def)
  note a = build_nodes_alloc [OF assms(2) b]
  have "dom (cv_heap s) \<subseteq> dom (cv_heap s')"
  proof
    fix r assume "r \<in> dom (cv_heap s)"
    moreover from this b have "r < cv_next s" by auto
    ultimately show "r \<in> dom (cv_heap s')" using a by (auto simp: domIff)
  qed
  with a show "cv_inv s'" by (intro cv_inv_heap [OF assms(1)]) auto
  show "own_data (cv_heap s') ns" using a by (simp add: own_data_def)
qed

lemma WorkflowBuilder_effects_inv: "cv_inv s \<Longrightarrow> cv_inv (fst (WorkflowBuilder_effects w s))"
proof -
  assume s: "cv_inv s"
  let ?s1 = "on_store (initializeFlow (builder_key w)) s"
  have s1: "cv_inv ?s1" by (intro cv_inv_on_store s js_intros same_nodes_ops)
  show ?thesis
  proof (cases w)
    case (Some r)
    have "cv_inv (on_store (setEdges es) (on_store (setNodes ns) s2))"
      if "build_nodes (rw_nodes r) ?s1 = Inr (ns, s2)" for ns s2 es
      by (intro cv_inv_on_store cv_inv_setNodes build_nodes_inv [OF s1 that] js_intros same_nodes_ops)
    with s1 Some show ?thesis
      by (auto simp: WorkflowBuilder_effects_def load_workflow_def Let_def split: sum.splits)
  qed (use s1 in \<open>simp add: WorkflowBuilder_effects_def Let_def\<close>)
qed

lemma own_data_map_selected [simp]: "own_data h (map (\<lambda>n. n\<lparr>n_selected := v\<rparr>) ns) = own_data h ns"
  by (simp add: own_data_def o_def image_image)

lemma onDrop_inv: "cv_inv s \<Longrightarrow> cv_inv (fst (onDrop d p u s))"
proof -
  assume s: "cv_inv s"
  let ?s1 = "on_store (setSelectedNode None) s"
  let ?old = "map (\<lambda>n. n\<lparr>n_selected := Some False\<rparr>) (getNodes (cv_store s))"
  have s1: "cv_inv ?s1" by (intro cv_inv_on_store s js_intros same_nodes_ops)
  have "cv_inv (on_store (setNodes (?old @ [n])) s2)"
    if nb: "NodeBuilder u p c t [] ?s1 = Inr (n, s2)" for c t n s2
  proof -
    note a = NodeBuilder_alloc [OF nb]
    have dom2: "dom (cv_heap s2) = insert (cv_next s) (dom (cv_heap s))" using a(7) by auto
    have lt: "dom (cv_heap s) \<subseteq> {..<cv_next s}" using s by (simp add: cv_inv_def)
    have "cv_inv s2" using lt by (intro cv_inv_heap [OF s1]) (auto simp: a dom2)
    moreover have "own_data (cv_heap s2) (?old @ [n])"
    proof -
      have "cv_next s \<notin> n_data ` set (getNodes (cv_store s))"
        using getNodes_own [OF s] lt unfolding own_data_def by blast
      then show ?thesis
        using getNodes_own [OF s] unfolding own_data_def by (auto simp: dom2 a(1) image_image o_def)
    qed
    ultimately show ?thesis by (rule cv_inv_setNodes)
  qed
  with s1 show ?thesis
    by (auto simp: onDrop_def Let_def split: option.splits sum.splits prod.splits
        intro: cv_inv_on_store_throwing js_intros same_nodes_ops)
qed

lemma write_config_inv: "cv_inv s \<Longrightarrow> cv_inv (write_config c s)"
proof -
  assume s: "cv_inv s"
  then have lt: "dom (cv_heap s) \<subseteq> {..<cv_next s}" by (simp add: cv_inv_def)
  have "cv_inv (s\<lparr>cv_heap := (cv_heap s)(r \<mapsto> d')\<rparr>)" if "cv_heap s r = Some d" for r d d'
  proof (rule cv_inv_heap [OF s])
    have "dom ((cv_heap s)(r \<mapsto> d')) = dom (cv_heap s)" using that by auto
    with lt show "dom (cv_heap (s\<lparr>cv_heap := (cv_heap s)(r \<mapsto> d')\<rparr>)) \<subseteq> {..<cv_next (s\<lparr>cv_heap := (cv_heap s)(r \<mapsto> d')\<rparr>)}"
      by simp
  qed auto
  with s show ?thesis by (simp add: write_config_def split: option.splits)
qed

lemma canvas_step_inv:
  assumes "applyNodeChanges_keeps anc" and "cv_inv s"
  shows "cv_inv (fst (canvas_step anc aec ae ev s))"
proof (cases ev)
  case (CE_nodes cs)
  then show ?thesis using cv_inv_onNodesChange [OF assms(2,1)] by simp
qed (use assms(2) in \<open>auto simp: Let_def onNodeClick_def onPaneClick_def
      intro!: WorkflowBuilder_effects_inv onDrop_inv write_config_inv
        cv_inv_on_store cv_inv_on_store_throwing same_nodes_ops js_intros\<close>)

lemma init_canvas_inv: "cv_inv init_canvas"
  by (auto simp: cv_inv_def nodes_own_data_def init_canvas_def store_inv_init)
    (simp_all add: init_store_def)

text \<open>The canvas is a machine whenever the canvas library keeps its promise.\<close>

lemma canvas_machine:
  "applyNodeChanges_keeps anc \<Longrightarrow>
   machine init_canvas (\<lambda>ev s. fst (canvas_step anc aec ae ev s)) cv_inv"
  by unfold_locales (auto intro: init_canvas_inv canvas_step_inv)

section \<open>Saving\<close>

lemma build_nodes_keeps:
  "build_nodes ws s = Inr (ns, s') \<Longrightarrow> r < cv_next s \<Longrightarrow> cv_heap s' r = cv_heap s r"
proof (induction ws arbitrary: s ns)
  case (Cons w ws)
  then obtain m s1 ms where
    nb: "NodeBuilder (wn_id w) (wn_position w) (wn_category w) (wn_node_type w) (wn_config w) s = Inr (m, s1)"
    and rec: "build_nodes ws s1 = Inr (ms, s')" by auto
  note a = NodeBuilder_alloc [OF nb]
  have "cv_heap s' r = cv_heap s1 r" using Cons.IH [OF rec] Cons.prems(2) a(2) by simp
  also have "\<dots> = cv_heap s r" using a(7) Cons.prems(2) by auto
  finally show ?case .
qed simp

lemma build_nodes_saved:
  assumes "\<forall>n\<in>set ws. nodeTypeToBlockMap (wn_node_type n) \<noteq> None"
  shows "\<exists>ns s'. build_nodes ws s = Inr (ns, s') \<and> cv_store s' = cv_store s \<and>
           js_map_err (saved_node (cv_heap s')) ns = Inr ws"
  using assms
proof (induction ws arbitrary: s)
  case (Cons w ws)
  obtain m s1 where
    nb: "NodeBuilder (wn_id w) (wn_position w) (wn_category w) (wn_node_type w) (wn_config w) s = Inr (m, s1)"
    using Cons.prems by (auto simp: NodeBuilder_def)
  note a = NodeBuilder_alloc [OF nb]
  obtain ms s' where rec: "build_nodes ws s1 = Inr (ms, s')" "cv_store s' = cv_store s1"
      "js_map_err (saved_node (cv_heap s')) ms = Inr ws"
    using Cons.IH [of s1] Cons.prems by auto
  have "cv_heap s' (n_data m) = cv_heap s1 (n_data m)"
    using build_nodes_keeps [OF rec(1)] a(1,2) by simp
  then have "saved_node (cv_heap s') m = Inr w"
    using a by (auto simp: saved_node_def)
  with nb rec a(3) show ?case by auto
qed simp

lemma saved_loaded_edge [simp]: "saved_edge (process_edge ns (loaded_edge e)) = e"
  by (simp add: saved_edge_def process_edge_def loaded_edge_def Let_def)

lemma load_workflow_reads:
  assumes k: "current_key (cv_store s) = Some k"
    and b: "build_nodes (rw_nodes w) s = Inr (ns, s1)" "cv_store s1 = cv_store s"
  shows "snd (load_workflow w s) = None" "getNodes (cv_store (fst (load_workflow w s))) = ns"
    "map saved_edge (getEdges (cv_store (fst (load_workflow w s)))) =
       (case rw_edges w of None \<Rightarrow> [] | Some es \<Rightarrow> es)"
    "cv_heap (fst (load_workflow w s)) = cv_heap s1"
  using assms
  by (auto simp: load_workflow_def getNodes_def getEdges_def setEdges_def setNodes_def Let_def o_def
      split: option.splits)

text \<open>Claim C9: opening a workflow in the builder and saving it unchanged sends back exactly the
  workflow that was loaded (name, description, nodes with their configuration and position, edges),
  provided its node types are in the catalogue.\<close>

theorem load_save_roundtrip:
  assumes types: "\<forall>n\<in>set (rw_nodes w). nodeTypeToBlockMap (wn_node_type n) \<noteq> None"
  shows "snd (WorkflowBuilder_effects (Some w) s) = None \<and>
    handleSaveWorkflow num base_url net (Some w) (header_init (Some w)) (fst (WorkflowBuilder_effects (Some w) s)) =
      \<lparr>sv_call = Some (UpdateWorkflow (rw_id w)
          \<lparr>uw_name = rw_name w, uw_description = rw_description w, uw_nodes = rw_nodes w,
           uw_edges = (case rw_edges w of None \<Rightarrow> [] | Some es \<Rightarrow> es)\<rparr>),
       sv_navigate = None, sv_toast = ToastSuccess ''Workflow saved successfully''\<rparr>"
proof -
  let ?s1 = "on_store (initializeFlow (builder_key (Some w))) s"
  obtain ns s2 where b: "build_nodes (rw_nodes w) ?s1 = Inr (ns, s2)" "cv_store s2 = cv_store ?s1"
      "js_map_err (saved_node (cv_heap s2)) ns = Inr (rw_nodes w)"
    using build_nodes_saved [OF types] by blast
  have "current_key (cv_store ?s1) = Some (builder_key (Some w))" by (simp add: builder_key_def)
  note r = load_workflow_reads [OF this b(1,2)]
  have e: "WorkflowBuilder_effects (Some w) s = load_workflow w ?s1"
    by (simp add: WorkflowBuilder_effects_def Let_def)
  show ?thesis
    unfolding e handleSaveWorkflow_def Let_def r(2,4) b(3)
    using r by (simp add: update_dto_def header_init_def Let_def js_or_str_def)
qed

definition demo_workflow :: rendered_workflow where
  "demo_workflow =
     \<lparr>rw_id = ''7'', rw_name = ''Weekly report'', rw_description = ''d'',
      rw_nodes = [\<lparr>wn_id = ''1'', wn_category = ''action'', wn_node_type = ''send_email'',
                   wn_config = [(''subject'', JStr ''hi'')], wn_position = (0, 10)\<rparr>],
      rw_edges = None\<rparr>"

lemma demo_workflow_types:
  "\<forall>n\<in>set (rw_nodes demo_workflow). nodeTypeToBlockMap (wn_node_type n) \<noteq> None"
  using block_send_email_mem by (auto simp: demo_workflow_def dest: nodeTypeToBlockMap_mem)

theorem load_save_roundtrip_witness:
  "sv_call (handleSaveWorkflow (\<lambda>x. ''0'') ''http://h'' demo_net (Some demo_workflow)
      (header_init (Some demo_workflow)) (fst (WorkflowBuilder_effects (Some demo_workflow) init_canvas))) =
   Some (UpdateWorkflow ''7''
     \<lparr>uw_name = ''Weekly report'', uw_description = ''d'', uw_nodes = rw_nodes demo_workflow, uw_edges = []\<rparr>)"
  using load_save_roundtrip [OF demo_workflow_types, of init_canvas "\<lambda>x. ''0''" "''http://h''" demo_net]
  by (simp add: demo_workflow_def)

text \<open>The write of a settings form and the nodes that a save reads.\<close>

lemma saved_nodes_total:
  "n_data ` set ns \<subseteq> dom h \<Longrightarrow> js_map_err (saved_node h) ns = Inr (map (\<lambda>n. projr (saved_node h n)) ns)"
  by (rule js_map_err_Inr) (auto simp: saved_node_def)

lemma saved_node_write:
  assumes "getSelectedNode (cv_store s) = Some n" and "n_data n \<in> dom (cv_heap s)"
    and "n_data m \<in> dom (cv_heap s)"
  shows "projr (saved_node (cv_heap (write_config c s)) m) =
    (if n_data m = n_data n then (projr (saved_node (cv_heap s) m))\<lparr>wn_config := c\<rparr>
     else projr (saved_node (cv_heap s) m))"
  using assms by (auto simp: saved_node_def write_config_def)

lemma dom_write_config [simp]: "dom (cv_heap (write_config c s)) = dom (cv_heap s)"
  by (auto simp: write_config_def split: option.splits)

lemma getNodes_setSelected [simp]: "getNodes (setSelectedNode n s) = getNodes s"
  by (auto simp: getNodes_def setSelectedNode_def spread_flow_def no_fields_def split: option.splits)

text \<open>Writing a configuration into the node that was clicked changes exactly that node in the next save.\<close>

lemma configured_save:
  assumes inv: "cv_inv s" and i: "i < length (getNodes (cv_store s))"
    and t: "t = write_config c (onNodeClick (getNodes (cv_store s) ! i) s)"
  shows "\<exists>ws. js_map_err (saved_node (cv_heap s)) (getNodes (cv_store s)) = Inr ws \<and>
              js_map_err (saved_node (cv_heap t)) (getNodes (cv_store t)) = Inr (ws[i := (ws ! i)\<lparr>wn_config := c\<rparr>])"
proof -
  let ?ns = "getNodes (cv_store s)" and ?u = "onNodeClick (getNodes (cv_store s) ! i) s"
  note own = getNodes_own [OF inv]
  have key: "current_key (cv_store s) \<noteq> None" using i by (auto simp: getNodes_def split: option.splits)
  have sel: "getSelectedNode (cv_store ?u) = Some (?ns ! i)"
    using selected.get_put [OF key] by (simp add: onNodeClick_def)
  have nodes: "getNodes (cv_store t) = ?ns"
    by (simp add: t write_config_def onNodeClick_def split: option.splits)
  have heap: "cv_heap ?u = cv_heap s" by (simp add: onNodeClick_def)
  have dom: "n_data ` set ?ns \<subseteq> dom (cv_heap s)" "n_data ` set ?ns \<subseteq> dom (cv_heap t)"
    using own by (simp_all add: own_data_def t heap)
  let ?w = "\<lambda>h n. projr (saved_node h n)"
  have dist: "n_data (?ns ! j) = n_data (?ns ! i) \<longleftrightarrow> j = i" if "j < length ?ns" for j
    using own i that by (auto simp: own_data_def distinct_conv_nth)
  have upd: "?w (cv_heap t) (?ns ! j) =
      (if j = i then (?w (cv_heap s) (?ns ! i))\<lparr>wn_config := c\<rparr> else ?w (cv_heap s) (?ns ! j))"
    if "j < length ?ns" for j
    using saved_node_write [OF sel, of "?ns ! j" c] dist [OF that] dom(1) that i
    by (auto simp: t heap subset_iff)
  have "map (?w (cv_heap t)) ?ns = (map (?w (cv_heap s)) ?ns)[i := (map (?w (cv_heap s)) ?ns ! i)\<lparr>wn_config := c\<rparr>]"
    by (rule nth_equalityI) (auto simp: upd nth_list_update i)
  then show ?thesis
    using saved_nodes_total [OF dom(1)] saved_nodes_total [OF dom(2)] by (simp add: nodes)
qed

text \<open>In every reachable canvas, clicking a node and storing a configuration with a
  settings form changes exactly that node's configuration in the next save; the other nodes are
  saved as they would have been without it.\<close>

lemma configure_reaches_save:
  assumes lib: "applyNodeChanges_keeps anc"
    and s: "s = fold (\<lambda>ev s. fst (canvas_step anc aec ae ev s)) evs init_canvas"
    and i: "i < length (getNodes (cv_store s))"
    and t: "t = fst (canvas_step anc aec ae (CE_configure c) (fst (canvas_step anc aec ae (CE_click i) s)))"
  shows "\<exists>ws. js_map_err (saved_node (cv_heap s)) (getNodes (cv_store s)) = Inr ws \<and>
              js_map_err (saved_node (cv_heap t)) (getNodes (cv_store t)) = Inr (ws[i := (ws ! i)\<lparr>wn_config := c\<rparr>])"
proof (rule configured_save [OF _ i])
  show "cv_inv s" unfolding s by (rule machine.inv_run [OF canvas_machine [OF lib]])
  show "t = write_config c (onNodeClick (getNodes (cv_store s) ! i) s)" using i by (simp add: t Let_def)
qed

lemma demo_keeps: "applyNodeChanges_keeps demo_applyNodeChanges"
  unfolding applyNodeChanges_keeps_def demo_applyNodeChanges_def by auto

lemma demo_opened: "length (getNodes (cv_store (fst (WorkflowBuilder_effects (Some demo_workflow) init_canvas)))) = 1"
proof -
  let ?s1 = "on_store (initializeFlow (builder_key (Some demo_workflow))) init_canvas"
  obtain ns s2 where b: "build_nodes (rw_nodes demo_workflow) ?s1 = Inr (ns, s2)" "cv_store s2 = cv_store ?s1"
      "js_map_err (saved_node (cv_heap s2)) ns = Inr (rw_nodes demo_workflow)"
    using build_nodes_saved [OF demo_workflow_types] by blast
  have "current_key (cv_store ?s1) = Some (builder_key (Some demo_workflow))" by (simp add: builder_key_def)
  note r = load_workflow_reads [OF this b(1,2)]
  have "length ns = 1" using js_map_err_length [OF b(3)] by (simp add: demo_workflow_def)
  with r(2) show ?thesis by (simp add: WorkflowBuilder_effects_def Let_def)
qed

lemma configure_reaches_save_example:
  "\<exists>s t ws. s = fst (WorkflowBuilder_effects (Some demo_workflow) init_canvas) \<and>
     t = fst (canvas_step demo_applyNodeChanges demo_applyEdgeChanges demo_addEdge (CE_configure [])
               (fst (canvas_step demo_applyNodeChanges demo_applyEdgeChanges demo_addEdge (CE_click 0) s))) \<and>
     js_map_err (saved_node (cv_heap t)) (getNodes (cv_store t)) = Inr (ws[0 := (ws ! 0)\<lparr>wn_config := []\<rparr>])"
proof -
  let ?s = "fst (WorkflowBuilder_effects (Some demo_workflow) init_canvas)"
  have s: "?s = fold (\<lambda>ev s. fst (canvas_step demo_applyNodeChanges demo_applyEdgeChanges demo_addEdge ev s))
      [CE_open (Some demo_workflow)] init_canvas" by simp
  show ?thesis
    using configure_reaches_save [OF demo_keeps s, of 0 _ "[]"] demo_opened by fastforce
qed

section \<open>The contract of a settings form\<close>

text \<open>
  A settings form of the inspector either stores one configuration in the selected node or leaves the
  canvas as it is; which configuration a submission stores depends on the values of the form alone.
  From this law the canvas gets that every submission keeps its invariant and that the next save
  carries the stored configuration, at the selected node only.
\<close>

locale settings_form =
  fixes stored :: "'v \<Rightarrow> config option"
    and submit :: "'v \<Rightarrow> canvas_state \<Rightarrow> canvas_state"
  assumes submit_stores: "submit v s = (case stored v of None \<Rightarrow> s | Some c \<Rightarrow> write_config c s)"
begin

lemma submit_inv: "cv_inv s \<Longrightarrow> cv_inv (submit v s)"
  by (simp add: submit_stores write_config_inv split: option.splits)

lemma submit_saved:
  assumes inv: "cv_inv s" and i: "i < length (getNodes (cv_store s))"
    and t: "t = submit v (onNodeClick (getNodes (cv_store s) ! i) s)"
  shows "\<exists>ws. js_map_err (saved_node (cv_heap s)) (getNodes (cv_store s)) = Inr ws \<and>
    js_map_err (saved_node (cv_heap t)) (getNodes (cv_store t)) =
      Inr (case stored v of None \<Rightarrow> ws | Some c \<Rightarrow> ws[i := (ws ! i)\<lparr>wn_config := c\<rparr>])"
proof (cases "stored v")
  case None
  then have "cv_heap t = cv_heap s" "getNodes (cv_store t) = getNodes (cv_store s)"
    by (simp_all add: t submit_stores onNodeClick_def)
  then show ?thesis using configured_save [OF inv i refl] None by auto
next
  case (Some c)
  then have "t = write_config c (onNodeClick (getNodes (cv_store s) ! i) s)" by (simp add: t submit_stores)
  then show ?thesis using configured_save [OF inv i] Some by simp
qed

end

text \<open>A form is stable when the values that it reads back from a stored configuration are the accepted
  ones, and accepting them again changes nothing: opening a configured node and saving it unchanged is
  then without effect.\<close>

locale stable_form = settings_form stored submit
  for stored :: "'v \<Rightarrow> config option" and submit +
  fixes accept :: "'v \<Rightarrow> 'v option"
    and config_of :: "'v \<Rightarrow> config"
    and reread :: "config \<Rightarrow> 'v option"
  assumes stored_accept: "stored v = map_option config_of (accept v)"
    and reread_config: "reread (config_of v) = Some v"
    and accept_idem: "accept v = Some d \<Longrightarrow> accept d = Some d"
begin

lemma reopened: "stored v = Some c \<Longrightarrow> \<exists>d. accept v = Some d \<and> reread c = Some d \<and> stored d = Some c"
  using accept_idem by (fastforce simp: stored_accept reread_config)

lemma resubmit:
  assumes "stored v = Some c" and "reread c = Some d"
  shows "submit d (submit v s) = submit v s"
proof -
  have "stored d = Some c" using reopened [OF assms(1)] assms(2) by auto
  then show ?thesis
    using assms(1) by (auto simp: submit_stores write_config_def split: option.splits)
qed

end

section \<open>Data objects of the catalogue\<close>

text \<open>A data object describes a block of the catalogue: whatever is loaded, dropped or configured, its node type
  is known and its label, description, icon and status are those of the catalogue.\<close>

definition from_catalogue :: "node_data \<Rightarrow> bool" where
  "from_catalogue d \<longleftrightarrow>
     (\<exists>b. nodeTypeToBlockMap (d_nodeType d) = Some b \<and> d_label d = b_label b \<and> d_description d = b_description b \<and>
          d_icon d = b_icon b \<and> d_status d = b_status b)"

definition heap_typed :: "canvas_state \<Rightarrow> bool" where
  "heap_typed s \<longleftrightarrow> (\<forall>r d. cv_heap s r = Some d \<longrightarrow> from_catalogue d)"

lemma heap_typed_store [simp]: "heap_typed (s\<lparr>cv_store := x\<rparr>) = heap_typed s" "heap_typed (on_store f s) = heap_typed s"
  by (simp_all add: heap_typed_def on_store_def)

lemma heap_typed_throwing [simp]: "heap_typed (fst (on_store_throwing f s)) = heap_typed s"
  by (simp add: on_store_throwing_def split: prod.splits)

lemma NodeBuilder_typed: "NodeBuilder i p c t cfg s = Inr (n, s') \<Longrightarrow> heap_typed s \<Longrightarrow> heap_typed s'"
  by (auto simp: NodeBuilder_def heap_typed_def from_catalogue_def split: option.splits if_splits)

lemma build_nodes_typed: "build_nodes ws s = Inr (ns, s') \<Longrightarrow> heap_typed s \<Longrightarrow> heap_typed s'"
proof (induction ws arbitrary: s ns)
  case (Cons w ws)
  then obtain m s1 ms where
    "NodeBuilder (wn_id w) (wn_position w) (wn_category w) (wn_node_type w) (wn_config w) s = Inr (m, s1)"
    "build_nodes ws s1 = Inr (ms, s')" by auto
  then show ?case using Cons.IH Cons.prems(2) NodeBuilder_typed by blast
qed simp

lemma write_config_typed: "heap_typed s \<Longrightarrow> heap_typed (write_config c s)"
  by (auto simp: write_config_def heap_typed_def from_catalogue_def split: option.splits if_splits)

lemma canvas_step_typed:
  assumes "heap_typed s"
  shows "heap_typed (fst (canvas_step anc aec ae ev s))"
proof (cases ev)
  case (CE_open w)
  then show ?thesis using assms
    by (auto simp: WorkflowBuilder_effects_def load_workflow_def Let_def intro: build_nodes_typed split: option.splits sum.splits)
next
  case (CE_drop d p u)
  then show ?thesis using assms
    by (auto simp: onDrop_def Let_def intro: NodeBuilder_typed split: option.splits sum.splits prod.splits)
qed (use assms in \<open>auto simp: onNodeClick_def onPaneClick_def Let_def write_config_typed\<close>)

section \<open>Dropping a block\<close>

lemma getRecentlyUsed_setNodes [simp]: "getRecentlyUsed (setNodes ns s) = getRecentlyUsed s"
  by (auto simp: getRecentlyUsed_def setNodes_def spread_flow_def no_fields_def split: option.splits)

lemma getRecentlyUsed_setSelectedNode [simp]: "getRecentlyUsed (setSelectedNode n s) = getRecentlyUsed s"
  by (auto simp: getRecentlyUsed_def setSelectedNode_def spread_flow_def no_fields_def split: option.splits)

lemma getSelectedNode_setNodes [simp]: "getSelectedNode (setNodes ns s) = getSelectedNode s"
  by (auto simp: getSelectedNode_def setNodes_def spread_flow_def no_fields_def split: option.splits)

lemma addRecentlyUsedBlock_reads:
  assumes "store_inv s"
  shows "getNodes (fst (addRecentlyUsedBlock b s)) = getNodes s"
    "getSelectedNode (fst (addRecentlyUsedBlock b s)) = getSelectedNode s"
    "snd (addRecentlyUsedBlock b s) = None"
proof -
  have "f_recentlyUsed f \<noteq> None" if "flows s k = Some f" for k f
  proof -
    have "wf_flow f" using assms that by (simp add: store_inv_def)
    then show ?thesis by (auto simp: wf_flow_def)
  qed
  then show "getNodes (fst (addRecentlyUsedBlock b s)) = getNodes s"
    "getSelectedNode (fst (addRecentlyUsedBlock b s)) = getSelectedNode s"
    "snd (addRecentlyUsedBlock b s) = None"
    by (auto simp: addRecentlyUsedBlock_def getNodes_def getSelectedNode_def Let_def
        simp del: not_None_eq split: option.splits)
qed

lemma selection_cleared: "store_inv s \<Longrightarrow> getSelectedNode (setSelectedNode None s) = None"
  by (auto simp: getSelectedNode_def setSelectedNode_def split: option.splits)

lemma current_key_setters [simp]:
  "current_key (setNodes ns s) = current_key s" "current_key (setSelectedNode n s) = current_key s"
  by (auto simp: setNodes_def setSelectedNode_def split: option.splits)

lemma drop_known_block:
  assumes inv: "store_inv (cv_store s)" and key: "current_key (cv_store s) \<noteq> None"
    and Some: "nodeTypeToBlockMap t = Some b"
  shows "\<exists>n s'. onDrop (Some (c, t)) p u s = (s', None) \<and>
          getNodes (cv_store s') = map (\<lambda>m. m\<lparr>n_selected := Some False\<rparr>) (getNodes (cv_store s)) @ [n] \<and>
          n_id n = u \<and> n_position n = p \<and> n_type n = Some (b_category b) \<and>
          cv_heap s' = (cv_heap s)(n_data n \<mapsto>
            \<lparr>d_category = c, d_nodeType = t, d_config = [], d_label = b_label b,
             d_description = b_description b, d_icon = b_icon b, d_status = b_status b\<rparr>) \<and>
          getSelectedNode (cv_store s') = None \<and>
          getRecentlyUsed (cv_store s') =
            take 5 (b # filter (\<lambda>x. b_node_type x \<noteq> b_node_type b) (getRecentlyUsed (cv_store s)))"
proof -
  let ?s1 = "on_store (setSelectedNode None) s"
  obtain n s2 where nb: "NodeBuilder u p c t [] ?s1 = Inr (n, s2)"
    using Some by (auto simp: NodeBuilder_def)
  note a = NodeBuilder_alloc [OF nb]
  let ?ns = "map (\<lambda>m. m\<lparr>n_selected := Some False\<rparr>) (getNodes (cv_store s)) @ [n]"
  let ?s3 = "on_store (setNodes ?ns) s2"
  have drop: "onDrop (Some (c, t)) p u s = on_store_throwing (addRecentlyUsedBlock b) ?s3"
    using nb Some by (simp add: onDrop_def Let_def)
  have s3: "cv_store ?s3 = setNodes ?ns (setSelectedNode None (cv_store s))" by (simp add: a)
  have i3: "store_inv (cv_store ?s3)" unfolding s3 by (intro js_intros inv)
  have k3: "current_key (cv_store ?s3) \<noteq> None" unfolding s3 using key by simp
  note add = addRecentlyUsedBlock_reads [OF i3, of b] getRecentlyUsed_add(1) [OF i3 k3, of b]
  let ?s' = "fst (onDrop (Some (c, t)) p u s)"
  have st: "cv_store ?s' = fst (addRecentlyUsedBlock b (cv_store ?s3))" by (simp add: drop)
  have "getNodes (cv_store ?s3) = ?ns" unfolding s3 by (rule nodes.get_put) (simp add: key)
  moreover have "getSelectedNode (cv_store ?s3) = None" unfolding s3 by (simp add: selection_cleared inv)
  moreover have "getRecentlyUsed (cv_store ?s3) = getRecentlyUsed (cv_store s)" unfolding s3 by simp
  ultimately have "getNodes (cv_store ?s') = ?ns" "getSelectedNode (cv_store ?s') = None"
      "getRecentlyUsed (cv_store ?s') =
         take 5 (b # filter (\<lambda>x. b_node_type x \<noteq> b_node_type b) (getRecentlyUsed (cv_store s)))"
    unfolding st add by (simp_all add: mru_push.simps)
  moreover have "cv_heap ?s' = cv_heap s2" "snd (onDrop (Some (c, t)) p u s) = None"
    using add by (simp_all add: drop)
  ultimately show ?thesis
    using a Some by (auto intro!: exI [of _ n] exI [of _ ?s'] simp: prod_eq_iff)
qed

text \<open>Dropping a block of the catalogue on an open canvas never throws: it deselects the
  other nodes, adds one node with the new identifier, the drop position, the block's category as its
  type and the block's label, description, icon and an empty configuration as its data, clears the
  selection and moves the block to the front of the recently used ones. Dropping an unknown type
  throws a \<open>TypeError\<close> and only clears the selection.\<close>

lemma onDrop_contract:
  assumes inv: "store_inv (cv_store s)" and key: "current_key (cv_store s) \<noteq> None"
  shows "case nodeTypeToBlockMap t of
      None \<Rightarrow> onDrop (Some (c, t)) p u s = (on_store (setSelectedNode None) s, Some TypeError)
    | Some b \<Rightarrow>
        \<exists>n s'. onDrop (Some (c, t)) p u s = (s', None) \<and>
          getNodes (cv_store s') = map (\<lambda>m. m\<lparr>n_selected := Some False\<rparr>) (getNodes (cv_store s)) @ [n] \<and>
          n_id n = u \<and> n_position n = p \<and> n_type n = Some (b_category b) \<and>
          cv_heap s' = (cv_heap s)(n_data n \<mapsto>
            \<lparr>d_category = c, d_nodeType = t, d_config = [], d_label = b_label b,
             d_description = b_description b, d_icon = b_icon b, d_status = b_status b\<rparr>) \<and>
          getSelectedNode (cv_store s') = None \<and>
          getRecentlyUsed (cv_store s') =
            take 5 (b # filter (\<lambda>x. b_node_type x \<noteq> b_node_type b) (getRecentlyUsed (cv_store s)))"
proof (cases "nodeTypeToBlockMap t")
  case None
  then show ?thesis by (simp add: onDrop_def NodeBuilder_def Let_def)
next
  case (Some b)
  then show ?thesis using drop_known_block [OF inv key Some, of c p u] by simp
qed

lemma onDrop_contract_example:
  "\<exists>s n s'. onDrop (Some (''action'', ''send_email'')) (3, 4) ''u1'' s = (s', None) \<and>
     getNodes (cv_store s') = map (\<lambda>m. m\<lparr>n_selected := Some False\<rparr>) (getNodes (cv_store s)) @ [n] \<and>
     n_id n = ''u1'' \<and> n_type n = Some ''action''"
proof -
  let ?s = "\<lparr>cv_store = demo_store, cv_heap = Map.empty, cv_next = 0\<rparr>"
  obtain b where b: "nodeTypeToBlockMap ''send_email'' = Some b" "b_category b = ''action''"
    using block_send_email_mem nodeTypeToBlockMap_mem by metis
  have "store_inv (cv_store ?s)" "current_key (cv_store ?s) \<noteq> None" using demo_store_inv by simp_all
  from onDrop_contract [OF this, where t = "''send_email''" and c = "''action''" and p = "(3, 4)" and u = "''u1''"] b
  show ?thesis by (intro exI [of _ ?s]) auto
qed

section \<open>Saving an existing workflow does not wait for the server\<close>

text \<open>Saving an existing workflow reports success whatever the server answers, while
  saving a new workflow reports success and opens the new workflow exactly when the server created
  it.\<close>

lemma save_reports:
  assumes inv: "cv_inv s"
  shows "sv_toast (handleSaveWorkflow num base_url net (Some w) h s) =
           ToastSuccess ''Workflow saved successfully'' \<and>
         (sv_toast (handleSaveWorkflow num base_url net None h s) =
           ToastSuccess ''Workflow saved successfully'' \<longleftrightarrow>
          (\<exists>ns d. js_map_err (saved_node (cv_heap s)) (getNodes (cv_store s)) = Inr ns \<and>
             perform num base_url (CreateWorkflow (create_dto h ns (getEdges (cv_store s)))) net None = Inr d \<and>
             d \<noteq> JNull \<and> d \<noteq> JUndefined))"
proof -
  obtain ns where "js_map_err (saved_node (cv_heap s)) (getNodes (cv_store s)) = Inr ns"
    using saved_nodes_total getNodes_own [OF inv] unfolding own_data_def by blast
  then show ?thesis
    by (auto simp: handleSaveWorkflow_def Let_def js_get_fails split: sum.splits)
qed

lemma save_reports_example:
  "sv_toast (handleSaveWorkflow (\<lambda>x. ''0'') ''http://h'' (\<lambda>rq. None) (Some demo_workflow)
      (header_init (Some demo_workflow)) init_canvas) = ToastSuccess ''Workflow saved successfully''"
  using save_reports [OF init_canvas_inv] by blast

section \<open>Keys\<close>

text \<open>Outside text fields the key \<open>f\<close> hides the sidebar and both panels when any of them
  shows and shows all three when none does, so that pressing it again undoes it up to showing
  everything; \<open>/\<close> always opens the block panel with the search focused; inside a text field no key
  changes the layout.\<close>

lemma layout_keys:
  "(let t = handleKeyPress \<lparr>k_key = ''f'', k_meta = m, k_ctrl = c, k_textInput = False\<rparr> s;
        hidden = (\<not> toggleBlockPanel s \<and> \<not> toggleInspectorPanel s \<and> \<not> ly_open s)
    in toggleBlockPanel t = hidden \<and> toggleInspectorPanel t = hidden \<and> ly_open t = hidden \<and>
       searchFocused t = searchFocused s) \<and>
   (let t = handleKeyPress \<lparr>k_key = ''/'', k_meta = m, k_ctrl = c, k_textInput = False\<rparr> s
    in toggleBlockPanel t \<and> searchFocused t \<and> toggleInspectorPanel t = toggleInspectorPanel s) \<and>
   handleKeyPress \<lparr>k_key = key, k_meta = m, k_ctrl = c, k_textInput = True\<rparr> s = s"
  by (simp add: handleKeyPress_def Let_def)

end
