(* ===== verification/Block_Panel.thy ===== *)
theory Block_Panel
  imports Canvas
begin

text \<open>
  The block panel of the workflow builder, \<open>BlockPanel.tsx\<close> and \<open>SearchBar.tsx\<close>: the catalogue with
  its search, the expanded categories, the favourites and the recently used blocks of the store.
  Handlers that carry arguments are written with their arguments in the attribute.
\<close>

section \<open>State and operations\<close>

datatype view_mode = DefaultMode | CompactMode

record panel_state =
  searchQuery :: string
  viewMode :: view_mode
  categories :: "block_category list"
  favorites :: "block list"

definition panel_init :: panel_state where
  "panel_init = \<lparr>searchQuery = [], viewMode = DefaultMode, categories = blockCategories, favorites = []\<rparr>"

definition setSearchQuery :: "string \<Rightarrow> panel_state \<Rightarrow> panel_state" where
  "setSearchQuery q p = p\<lparr>searchQuery := q\<rparr>"

definition setViewMode :: "view_mode \<Rightarrow> panel_state \<Rightarrow> panel_state" where
  "setViewMode m p = p\<lparr>viewMode := m\<rparr>"

text \<open>\<open>!category.expanded\<close>: a missing field is false.\<close>

definition is_expanded :: "block_category \<Rightarrow> bool" where
  "is_expanded c = (c_expanded c = Some True)"

definition toggleCategory :: "string \<Rightarrow> panel_state \<Rightarrow> panel_state" where
  "toggleCategory c p = p\<lparr>categories :=
     map (\<lambda>category. if c_category category = c
            then category\<lparr>c_expanded := Some (\<not> is_expanded category)\<rparr> else category) (categories p)\<rparr>"

definition isBlockFavorite :: "panel_state \<Rightarrow> string \<Rightarrow> bool" where
  "isBlockFavorite p node_type \<longleftrightarrow> (\<exists>f\<in>set (favorites p). b_node_type f = node_type)"

definition toggleFavorite :: "string \<Rightarrow> string \<Rightarrow> panel_state \<Rightarrow> panel_state" where
  "toggleFavorite node_type categoryName p =
     (case List.find (\<lambda>c. c_category c = categoryName) (categories p) of
        None \<Rightarrow> p
      | Some category \<Rightarrow>
          (case List.find (\<lambda>b. b_node_type b = node_type) (c_blocks category) of
             None \<Rightarrow> p
           | Some block \<Rightarrow>
               if isBlockFavorite p node_type
               then p\<lparr>favorites := filter (\<lambda>f. b_node_type f \<noteq> node_type) (favorites p)\<rparr>
               else p\<lparr>favorites := favorites p @ [block]\<rparr>))"

definition block_matches :: "string \<Rightarrow> block \<Rightarrow> bool" where
  "block_matches q block \<longleftrightarrow>
     js_includes (js_lower (b_label block)) (js_lower q) \<or>
     js_includes (js_lower (b_description block)) (js_lower q)"

definition filteredCategories :: "panel_state \<Rightarrow> block_category list" where
  "filteredCategories p =
     filter (\<lambda>c. length (c_blocks c) > 0)
       (map (\<lambda>c. c\<lparr>c_blocks := filter (block_matches (searchQuery p)) (c_blocks c)\<rparr>) (categories p))"

definition getBlockCategoryName :: "panel_state \<Rightarrow> block \<Rightarrow> string" where
  "getBlockCategoryName p block =
     (case List.find (\<lambda>cat. \<exists>b\<in>set (c_blocks cat). b_node_type b = b_node_type block) (categories p) of
        None \<Rightarrow> ''recent'' | Some c \<Rightarrow> c_category c)"

text \<open>\<open>onDragStart\<close>: what the drag carries to the drop handler of the canvas.\<close>

definition drag_payload :: "block \<Rightarrow> string \<times> string" where
  "drag_payload block = (b_category block, b_node_type block)"

section \<open>Views\<close>

definition ViewModeToggle :: "view_mode \<Rightarrow> view" where
  "ViewModeToggle m =
     Elem ''div'' []
       [Elem ''Button'' [(''class'', if m = DefaultMode then ''bg-blue-100'' else []), (''onClick'', ''onViewModeChange:default'')]
          [Txt ''Default''],
        Elem ''Button'' [(''class'', if m = CompactMode then ''bg-blue-100'' else []), (''onClick'', ''onViewModeChange:compact'')]
          [Txt ''Compact'']]"

definition BlockItem :: "block \<Rightarrow> string \<Rightarrow> view_mode \<Rightarrow> bool \<Rightarrow> view" where
  "BlockItem block categoryName m isFavorite =
     (let iconColor = (if js_lower categoryName = ''triggers'' then ''text-amber-600''
                       else if js_lower categoryName = ''actions'' then ''text-purple-600'' else ''text-gray-600'')
      in Elem ''div''
           [(''key'', b_node_type block), (''class'', if m = CompactMode then ''py-2'' else ''py-3''),
            (''draggable'', ''true''),
            (''onDragStart'', fst (drag_payload block) @ ''/'' @ snd (drag_payload block)),
            (''onClick'', ''handleUse'')]
           [Elem ''div'' [] [Elem (b_icon block) [(''class'', iconColor)] []],
            Elem ''div'' [(''class'', if m = CompactMode then ''text-sm'' else [])]
              (Elem ''div'' [] [Elem ''p'' [] [Txt (b_label block)]] #
               show_if (m \<noteq> CompactMode) (Elem ''p'' [] [Txt (b_description block)])),
            Elem ''Button''
              [(''class'', if isFavorite then ''text-yellow-500'' else ''text-gray-400''),
               (''onClick'', ''onToggleFavorite:'' @ b_node_type block @ '':'' @ categoryName)]
              [Elem ''Star'' [(''fill'', if isFavorite then ''currentColor'' else ''none'')] []]])"

definition BlockCategory :: "block_category \<Rightarrow> (block \<Rightarrow> string \<Rightarrow> view) \<Rightarrow> string option \<Rightarrow> view list" where
  "BlockCategory category renderBlock icon =
     (if length (c_blocks category) = 0 then []
      else [Elem ''div'' [(''key'', c_category category)]
              (Elem ''Button'' [(''onClick'', ''onToggleCategory:'' @ c_category category)]
                 [Elem ''span'' []
                    ((if is_expanded category then Elem ''ChevronDown'' [] [] else Elem ''ChevronRight'' [] []) #
                     opt_list (map_option (\<lambda>i. Elem i [] []) icon) @ [Txt (c_category category)]),
                  Elem ''span'' [] [Txt (js_of_nat (length (c_blocks category)))]] #
               show_if (is_expanded category)
                 (Elem ''div'' [] (map (\<lambda>b. renderBlock b (c_category category)) (c_blocks category))))])"

definition BlockSection ::
  "string \<Rightarrow> string \<Rightarrow> block list \<Rightarrow> string \<Rightarrow> (block \<Rightarrow> string \<Rightarrow> view) \<Rightarrow> string option \<Rightarrow> view list" where
  "BlockSection title icon blocks categoryName renderBlock onClear =
     (if length blocks = 0 then []
      else [Elem ''div'' []
              [Elem ''div'' []
                 ([Elem icon [] [], Txt title] @
                  opt_list (map_option (\<lambda>h. Elem ''button''
                     [(''onClick'', h), (''title'', ''Clear Recently Used''), (''type'', ''button'')] [Txt ''Clear'']) onClear)),
               Elem ''div'' [] (map (\<lambda>b. renderBlock b categoryName) blocks),
               Elem ''Separator'' [] []]])"

definition NoResults :: "string \<Rightarrow> view" where
  "NoResults q = Elem ''div'' [] [Elem ''Search'' [] [], Elem ''p'' [] [Txt (''No blocks found matching '' @ [CHR 0x22] @ q @ [CHR 0x22])]]"

definition KeyboardShortcut :: view where
  "KeyboardShortcut = Elem ''div'' [] [Elem ''kbd'' [] [Txt ''/''], Txt ''to search'']"

definition SearchBar :: "string \<Rightarrow> view" where
  "SearchBar q =
     Elem ''div'' []
       [Elem ''Label'' []
          [Elem ''Search'' [] [],
           Elem ''Input'' [(''ref'', ''inputRef''), (''placeholder'', ''Search blocks...''), (''value'', q),
              (''onChange'', ''onSearchChange''), (''onFocus'', ''setSearchFocused:true''),
              (''onBlur'', ''setSearchFocused:false'')] []]]"

text \<open>The effect of the search bar: when to focus the field, and the remembered state of the panel.
  The early return of the delayed case leaves the remembered state alone.\<close>

datatype focus_action = NoFocus | FocusNow | FocusAfter nat

definition searchBar_effect :: "bool \<Rightarrow> bool \<Rightarrow> bool \<Rightarrow> focus_action \<times> bool" where
  "searchBar_effect focused blockPanelOpen prevPanelOpen =
     (if focused
      then (if \<not> prevPanelOpen \<and> blockPanelOpen then (FocusAfter 300, prevPanelOpen)
            else (FocusNow, blockPanelOpen))
      else (NoFocus, blockPanelOpen))"

definition BlockPanelHeader :: "string \<Rightarrow> view_mode \<Rightarrow> view" where
  "BlockPanelHeader q m =
     Elem ''div'' []
       [Elem ''h2'' [] [Txt ''Blocks''], SearchBar q,
        Elem ''div'' [] [ViewModeToggle m, KeyboardShortcut]]"

definition render_block :: "panel_state \<Rightarrow> block \<Rightarrow> string \<Rightarrow> view" where
  "render_block p block categoryName =
     BlockItem block categoryName (viewMode p) (isBlockFavorite p (b_node_type block))"

definition category_icon :: "block_category \<Rightarrow> string option" where
  "category_icon c =
     (if js_lower (c_category c) = ''triggers'' then Some ''Rocket''
      else if js_lower (c_category c) = ''actions'' then Some ''Cog'' else None)"

definition BlockPanel :: "flow_state \<Rightarrow> panel_state \<Rightarrow> view" where
  "BlockPanel st p =
     Elem ''div'' []
       [BlockPanelHeader (searchQuery p) (viewMode p),
        Elem ''ScrollArea'' []
          (BlockSection ''Favorites'' ''Star'' (favorites p) ''favorites'' (render_block p) None @
           (if searchQuery p = []
            then BlockSection ''Recently Used'' ''Clock'' (getRecentlyUsed st) ''recent''
                   (\<lambda>b _. render_block p b (getBlockCategoryName p b)) (Some ''clearRecentlyUsed'')
            else []) @
           concat (map (\<lambda>c. BlockCategory c (render_block p) (category_icon c)) (filteredCategories p)) @
           show_if (length (filteredCategories p) = 0) (NoResults (searchQuery p)))]"

section \<open>The panel as a machine\<close>

datatype panel_event =
    PE_search string
  | PE_mode view_mode
  | PE_category string
  | PE_favorite string string

fun panel_step :: "panel_event \<Rightarrow> panel_state \<Rightarrow> panel_state" where
  "panel_step (PE_search q) p = setSearchQuery q p"
| "panel_step (PE_mode m) p = setViewMode m p"
| "panel_step (PE_category c) p = toggleCategory c p"
| "panel_step (PE_favorite t c) p = toggleFavorite t c p"

definition folded :: "block_category \<Rightarrow> block_category" where
  "folded c = c\<lparr>c_expanded := None\<rparr>"

definition panel_inv :: "panel_state \<Rightarrow> bool" where
  "panel_inv p \<longleftrightarrow> map folded (categories p) = blockCategories \<and>
     distinct (map b_node_type (favorites p)) \<and> set (favorites p) \<subseteq> set all_blocks"

lemma panel_categories:
  assumes "panel_inv p"
  shows "map c_blocks (categories p) = map c_blocks blockCategories"
    and "map c_category (categories p) = map c_category blockCategories"
proof -
  have "map folded (categories p) = blockCategories" using assms by (simp add: panel_inv_def)
  from arg_cong [OF this, of "map c_blocks"] arg_cong [OF this, of "map c_category"]
  show "map c_blocks (categories p) = map c_blocks blockCategories"
    "map c_category (categories p) = map c_category blockCategories"
    by (simp_all add: o_def folded_def)
qed

lemma panel_blocks: "panel_inv p \<Longrightarrow> concat (map c_blocks (categories p)) = all_blocks"
  by (simp add: panel_categories all_blocks_def)

lemma toggleCategory_inv [js_intros]: "panel_inv p \<Longrightarrow> panel_inv (toggleCategory c p)"
proof -
  assume p: "panel_inv p"
  have "map folded (categories (toggleCategory c p)) = map folded (categories p)"
    by (simp add: toggleCategory_def folded_def)
  with p show ?thesis by (simp add: panel_inv_def toggleCategory_def)
qed

lemma toggleFavorite_inv [js_intros]: "panel_inv p \<Longrightarrow> panel_inv (toggleFavorite t c p)"
proof -
  assume p: "panel_inv p"
  have mem: "b \<in> set all_blocks" if "List.find P (categories p) = Some cat" "List.find Q (c_blocks cat) = Some b" for P Q cat b
  proof -
    have "cat \<in> set (categories p)" "b \<in> set (c_blocks cat)" using that by (simp_all add: find_Some_iff2)
    then have "b \<in> set (concat (map c_blocks (categories p)))" by auto
    then show ?thesis using panel_blocks [OF p] by simp
  qed
  have "panel_inv (p\<lparr>favorites := favorites p @ [b]\<rparr>)"
    if "\<not> isBlockFavorite p (b_node_type b)" "b \<in> set all_blocks" for b
    using p that by (auto simp: panel_inv_def isBlockFavorite_def)
  moreover have "panel_inv (p\<lparr>favorites := filter P (favorites p)\<rparr>)" for P
    using p by (auto simp: panel_inv_def intro: distinct_map_filter_key)
  ultimately show ?thesis
    using p by (auto simp: toggleFavorite_def dest: mem find_Some_iff2 split: option.splits)
qed

lemma panel_step_inv: "panel_inv p \<Longrightarrow> panel_inv (panel_step e p)"
  by (cases e) (auto simp: setSearchQuery_def setViewMode_def panel_inv_def
      intro!: toggleCategory_inv [unfolded panel_inv_def] toggleFavorite_inv [unfolded panel_inv_def])

lemma panel_init_inv: "panel_inv panel_init"
  by (simp add: panel_init_def panel_inv_def blockCategories_def folded_def)

interpretation panel: machine panel_init panel_step panel_inv
  by unfold_locales (rule panel_init_inv, rule panel_step_inv)

section \<open>Properties\<close>

lemma filteredCategories_blocks:
  "concat (map c_blocks (filteredCategories p)) =
   filter (block_matches (searchQuery p)) (concat (map c_blocks (categories p)))"
proof -
  have "concat (map c_blocks (filter (\<lambda>c. length (c_blocks c) > 0)
      (map (\<lambda>c. c\<lparr>c_blocks := filter P (c_blocks c)\<rparr>) cs))) = filter P (concat (map c_blocks cs))" for P cs
    by (induction cs) auto
  then show ?thesis by (simp add: filteredCategories_def)
qed

lemma filteredCategories_nonempty: "c \<in> set (filteredCategories p) \<Longrightarrow> c_blocks c \<noteq> []"
  by (auto simp: filteredCategories_def)

lemma filteredCategories_Nil:
  "filteredCategories p = [] \<longleftrightarrow> filter (block_matches (searchQuery p)) (concat (map c_blocks (categories p))) = []"
  using filteredCategories_blocks [of p] filteredCategories_nonempty [of _ p]
  by (cases "filteredCategories p") auto

text \<open>Whatever a user did in the block panel before, the categories list exactly the blocks
  of the catalogue, in the catalogue's order, whose label or description contains the search text
  without regard to case, the message that nothing was found shows exactly when there is none, and
  no category is shown empty.\<close>

lemma panel_search_exact:
  "let p = fold panel_step evs panel_init; q = searchQuery p
   in concat (map c_blocks (filteredCategories p)) =
        filter (\<lambda>b. sublist (js_lower q) (js_lower (b_label b)) \<or>
                    sublist (js_lower q) (js_lower (b_description b))) all_blocks \<and>
      (filteredCategories p = [] \<longleftrightarrow> (\<forall>b\<in>set all_blocks. \<not> block_matches q b)) \<and>
      (\<forall>c\<in>set (filteredCategories p). c_blocks c \<noteq> [])"
proof -
  define p where "p = fold panel_step evs panel_init"
  have "panel_inv p" unfolding p_def by (rule panel.inv_run)
  then have "filter (block_matches q) (concat (map c_blocks (categories p))) = filter (block_matches q) all_blocks" for q
    by (simp add: panel_blocks)
  moreover have "block_matches q = (\<lambda>b. sublist (js_lower q) (js_lower (b_label b)) \<or>
                    sublist (js_lower q) (js_lower (b_description b)))" for q
    by (simp add: fun_eq_iff block_matches_def js_includes_sublist)
  ultimately show ?thesis
    unfolding p_def [symmetric] Let_def
    using filteredCategories_blocks [of p] filteredCategories_Nil [of p] filteredCategories_nonempty [of _ p]
    by (auto simp: filter_empty_conv)
qed

lemma panel_search_exact_example:
  "filteredCategories (fold panel_step [PE_search ''zzzz''] panel_init) = [] \<longleftrightarrow>
     (\<forall>b\<in>set all_blocks. \<not> block_matches ''zzzz'' b)"
  using panel_search_exact [of "[PE_search ''zzzz'']"] by (simp add: Let_def setSearchQuery_def)

text \<open>The category under which the catalogue lists a block.\<close>

lemma favorite_lookup:
  assumes "panel_inv p" and "c \<in> set blockCategories" and "b \<in> set (c_blocks c)"
  shows "\<exists>cat. List.find (\<lambda>x. c_category x = c_category c) (categories p) = Some cat \<and>
           List.find (\<lambda>x. b_node_type x = b_node_type b) (c_blocks cat) = Some b"
proof -
  have "distinct (map c_category blockCategories)" by (simp add: blockCategories_def)
  then have d: "distinct (map c_category (categories p))" using panel_categories(2) [OF assms(1)] by simp
  obtain cat where cat: "cat \<in> set (categories p)" "c = folded cat"
    using assms(1,2) unfolding panel_inv_def by (metis (no_types, lifting) imageE list.set_map)
  then have "List.find (\<lambda>x. c_category x = c_category cat) (categories p) = Some cat"
    using d by (intro find_distinct_key)
  moreover have "distinct (map b_node_type (c_blocks cat))"
  proof -
    have "c_blocks cat = c_blocks c" using cat(2) by (simp add: folded_def)
    then show ?thesis using distinct_node_types assms(2)
      by (auto simp: all_blocks_def map_concat blockCategories_def)
  qed
  ultimately show ?thesis
    using cat assms(3) find_distinct_key [of b_node_type "c_blocks cat" b] by (auto simp: folded_def)
qed

text \<open>In every panel a user can reach, pressing the star of a block in its category adds
  it to the favourites or removes it, changes no other block, and leaves every block at most once
  among them; pressing a star in the Favourites section, which passes the category name
  \<open>favorites\<close>, does nothing.\<close>

lemma favorites_toggle:
  assumes p: "p = fold panel_step evs panel_init"
    and "c \<in> set blockCategories" and "b \<in> set (c_blocks c)"
  shows "let p' = toggleFavorite (b_node_type b) (c_category c) p
         in set (favorites p') = (if b \<in> set (favorites p) then set (favorites p) - {b} else insert b (set (favorites p))) \<and>
            distinct (favorites p') \<and> toggleFavorite (b_node_type b) ''favorites'' p = p"
proof -
  have inv: "panel_inv p" unfolding p by (rule panel.inv_run)
  then have inv': "panel_inv (toggleFavorite (b_node_type b) (c_category c) p)" by (rule js_intros)
  obtain cat where look: "List.find (\<lambda>x. c_category x = c_category c) (categories p) = Some cat"
      "List.find (\<lambda>x. b_node_type x = b_node_type b) (c_blocks cat) = Some b"
    using favorite_lookup [OF inv assms(2,3)] by blast
  have ball: "b \<in> set all_blocks" using assms(2,3) by (auto simp: all_blocks_def)
  have same: "f \<in> set (favorites p) \<Longrightarrow> b_node_type f = b_node_type b \<longleftrightarrow> f = b" for f
  proof -
    assume "f \<in> set (favorites p)"
    then have "f \<in> set all_blocks" using inv by (auto simp: panel_inv_def)
    then show ?thesis using ball distinct_node_types by (auto simp: distinct_map inj_on_def)
  qed
  have "isBlockFavorite p (b_node_type b) \<longleftrightarrow> b \<in> set (favorites p)"
    using same by (auto simp: isBlockFavorite_def)
  then have "set (favorites (toggleFavorite (b_node_type b) (c_category c) p)) =
      (if b \<in> set (favorites p) then set (favorites p) - {b} else insert b (set (favorites p)))"
    using same by (auto simp: toggleFavorite_def look)
  moreover have "distinct (favorites (toggleFavorite (b_node_type b) (c_category c) p))"
    using inv' by (simp add: panel_inv_def distinct_map)
  moreover have "toggleFavorite (b_node_type b) ''favorites'' p = p"
  proof -
    have "''favorites'' \<notin> set (map c_category (categories p))"
      unfolding panel_categories(2) [OF inv] by (simp add: blockCategories_def)
    then have "\<forall>x\<in>set (categories p). c_category x \<noteq> ''favorites''" by (metis image_eqI list.set_map)
    then have "List.find (\<lambda>x. c_category x = ''favorites'') (categories p) = None"
      by (simp add: find_None_set)
    then show ?thesis by (simp add: toggleFavorite_def)
  qed
  ultimately show ?thesis by (simp add: Let_def)
qed

lemma action_category:
  "\<exists>c\<in>set blockCategories. c_category c = ''Actions'' \<and> (\<exists>b\<in>set (c_blocks c). b_node_type b = ''send_email'')"
  by (simp add: blockCategories_def) (simp add: action_blocks_def mk_block_def)

lemma favorites_toggle_example:
  "\<exists>b. b_node_type b = ''send_email'' \<and>
     set (favorites (toggleFavorite ''send_email'' ''Actions'' panel_init)) = {b} \<and>
     toggleFavorite ''send_email'' ''favorites'' panel_init = panel_init"
proof -
  obtain c b where cb: "c \<in> set blockCategories" "c_category c = ''Actions''" "b \<in> set (c_blocks c)"
      "b_node_type b = ''send_email''" using action_category by blast
  have "panel_init = fold panel_step [] panel_init" by simp
  from favorites_toggle [OF this cb(1,3)] cb(2,4) show ?thesis
    by (auto simp: Let_def panel_init_def)
qed



end
