(* ===== verification/Node_Ui.thy ===== *)
theory Node_Ui
  imports Canvas
begin

text \<open>
  The node of the canvas, \<open>components/shared/NodeUI.tsx\<close>: its status icon, its handles and the
  frame that runs around it while it executes. A node renders or throws: the status of a node comes
  from the event stream and is looked up in \<open>statusVariants\<close>. \<open>num\<close> is the decimal text of a number.
\<close>

section \<open>Status\<close>

definition statusVariants :: "string \<Rightarrow> (string \<times> string) option" where
  "statusVariants = map_of
     [(''success'', (''CheckCircle2'', ''text-green-500'')),
      (''failed'', (''AlertCircle'', ''text-red-500'')),
      (''pending'', (''Clock'', ''text-yellow-500'')),
      (''running'', (''Loader'', ''text-blue-400''))]"

section \<open>Handles\<close>

record handle_state =
  isHovered :: bool
  isActive :: bool

definition handle_init :: handle_state where
  "handle_init = \<lparr>isHovered = False, isActive = False\<rparr>"

text \<open>The mouse: over the handle, pressed on it, released anywhere.\<close>

datatype handle_event = MouseEnter | MouseLeave | MouseDown | MouseUp

fun handle_step :: "handle_event \<Rightarrow> handle_state \<Rightarrow> handle_state" where
  "handle_step MouseEnter h = h\<lparr>isHovered := True\<rparr>"
| "handle_step MouseLeave h = h\<lparr>isHovered := False\<rparr>"
| "handle_step MouseDown h = h\<lparr>isActive := True\<rparr>"
| "handle_step MouseUp h = h\<lparr>isActive := False\<rparr>"

text \<open>A colour in three strengths by node type: active, hovered or animated, idle.\<close>

definition borderColor :: "string \<Rightarrow> bool \<Rightarrow> handle_state \<Rightarrow> string" where
  "borderColor nodeType animateHandle h =
     (if nodeType = ''action''
      then (if isActive h then ''border-purple-700''
            else if isHovered h \<or> animateHandle then ''border-purple-600'' else ''border-purple-500'')
      else if nodeType = ''trigger''
      then (if isActive h then ''border-amber-700''
            else if isHovered h \<or> animateHandle then ''border-amber-600'' else ''border-amber-500'')
      else ''border-blue-400'')"

definition innerBgColor :: "string \<Rightarrow> bool \<Rightarrow> handle_state \<Rightarrow> string" where
  "innerBgColor nodeType animateHandle h =
     (if nodeType = ''action''
      then (if isActive h then ''bg-purple-500''
            else if isHovered h \<or> animateHandle then ''bg-purple-400'' else ''bg-purple-300'')
      else if nodeType = ''trigger''
      then (if isActive h then ''bg-amber-500''
            else if isHovered h \<or> animateHandle then ''bg-amber-400'' else ''bg-amber-300'')
      else ''bg-blue-200'')"

definition by_node_type :: "string \<Rightarrow> string \<Rightarrow> string \<Rightarrow> string \<Rightarrow> string" where
  "by_node_type nodeType a t other =
     (if nodeType = ''action'' then a else if nodeType = ''trigger'' then t else other)"

definition CustomHandle ::
  "handle_type \<Rightarrow> string \<Rightarrow> string \<Rightarrow> bool \<Rightarrow> string \<Rightarrow> handle_state \<Rightarrow> view" where
  "CustomHandle htype position handleType animateHandle nodeType h =
     Elem ''CustomHandle''
       [(''class'', (if isHovered h \<or> isActive h \<or> animateHandle then ''opacity-100'' else ''opacity-70'') @
           (if handleType = ''output'' then '' top-full mt-3'' else '' bottom-full mb-3'')),
        (''animateHandle'', js_bool animateHandle),
        (''type'', case htype of HSource \<Rightarrow> ''source'' | HTarget \<Rightarrow> ''target'')]
       [Elem ''div'' []
          ([Elem ''div''
              [(''class'', (if handleType = ''input'' then ''top-[100%] '' else ''bottom-[100%] '') @
                  (if isHovered h \<or> animateHandle then ''opacity-100 scale-y-100 '' else ''opacity-0 scale-y-0 '') @
                  by_node_type nodeType ''from-purple-600'' ''from-amber-500'' ''from-blue-400'')] [],
            Elem ''div''
              [(''class'', if isActive h \<or> isHovered h then ''scale-110'' else ''scale-100''),
               (''onMouseEnter'', ''MouseEnter''), (''onMouseLeave'', ''MouseLeave''), (''ref'', ''handleRef'')]
              [Elem ''Handle'' [(''type'', case htype of HSource \<Rightarrow> ''source'' | HTarget \<Rightarrow> ''target''),
                                (''position'', position)] [],
               Elem ''div'' [(''class'', (if animateHandle then ''animate-handle-spin-slow '' else []) @
                                borderColor nodeType animateHandle h)] [],
               Elem ''div'' [(''class'', innerBgColor nodeType animateHandle h @
                                (if isActive h then '' scale-125''
                                 else if isHovered h \<or> animateHandle then '' scale-100'' else '' scale-75''))] [],
               Elem ''div'' [(''class'', if isActive h \<or> animateHandle then ''scale-0'' else ''scale-100'')] []]] @
           show_if (\<not> animateHandle)
             (Elem ''div''
                [(''class'', (if handleType = ''input'' then ''bottom-full mb-1 '' else ''top-full mt-1 '') @
                    (if isHovered h then ''opacity-100 transform translate-y-0''
                     else ''opacity-0 transform '' @
                       (if handleType = ''input'' then ''translate-y-1'' else ''-translate-y-1'')))]
                [Elem ''span'' [(''class'', by_node_type nodeType ''text-purple-400'' ''text-amber-500'' ''text-blue-400'')]
                   [Txt (if handleType = ''input'' then ''Drop connection here'' else ''Drag to connect'')]]) @
           show_if (isActive h)
             (Elem ''div'' [(''class'', by_node_type nodeType ''bg-purple-200'' ''bg-amber-200'' ''bg-blue-200'')] []))]"

section \<open>Nodes\<close>

text \<open>The frame: thirty per cent of the perimeter of the inner rectangle is drawn.\<close>

definition perimeter :: "real \<Rightarrow> real \<Rightarrow> real" where
  "perimeter width height = 2 * (width + height - 2 * 8)"

definition dashLength :: "real \<Rightarrow> real \<Rightarrow> real" where
  "dashLength width height = 0.3 * perimeter width height"

definition gapLength :: "real \<Rightarrow> real \<Rightarrow> real" where
  "gapLength width height = 0.7 * perimeter width height"

definition running_frame :: "(real \<Rightarrow> string) \<Rightarrow> real \<Rightarrow> real \<Rightarrow> view" where
  "running_frame num width height =
     (let box = [(''x'', num (3 / 2)), (''y'', num (3 / 2)), (''width'', num (width - 3)),
                 (''height'', num (height - 3)), (''rx'', num 8), (''fill'', ''none'')]
      in Elem ''svg'' [(''width'', num width), (''height'', num height),
                       (''viewBox'', ''0 0 '' @ num width @ '' '' @ num height)]
           [Elem ''rect'' (box @ [(''stroke'', ''#d1fae5'')]) [],
            Elem ''rect'' (box @ [(''stroke'', ''#10b981''),
                 (''strokeDasharray'', num (dashLength width height) @ '' '' @ num (gapLength width height)),
                 (''strokeDashoffset'', ''0'')])
              [Elem ''animate'' [(''attributeName'', ''stroke-dashoffset''),
                   (''values'', num (perimeter width height) @ '';0''), (''dur'', ''2.7s''),
                   (''repeatCount'', ''indefinite'')] []]])"

text \<open>\<open>{status === "running" && width && height && frame}\<close>: a zero that ends the conjunction is itself
  rendered.\<close>

definition node_frame :: "(real \<Rightarrow> string) \<Rightarrow> string \<Rightarrow> real option \<Rightarrow> real option \<Rightarrow> view list" where
  "node_frame num nodeStatus width height =
     (if nodeStatus \<noteq> ''running'' then []
      else (case width of None \<Rightarrow> []
            | Some w \<Rightarrow> if w = 0 then [Txt (num 0)]
                        else (case height of None \<Rightarrow> []
                              | Some ht \<Rightarrow> if ht = 0 then [Txt (num 0)] else [running_frame num w ht])))"

definition handle_on :: "bool option option \<Rightarrow> bool" where
  "handle_on a = (case a of None \<Rightarrow> False | Some None \<Rightarrow> False | Some (Some b) \<Rightarrow> b)"

definition NodeUI ::
  "(real \<Rightarrow> string) \<Rightarrow> flow_state \<Rightarrow> rf_node \<Rightarrow> node_data \<Rightarrow> real option \<Rightarrow> real option \<Rightarrow>
   handle_state \<Rightarrow> handle_state \<Rightarrow> view js" where
  "NodeUI num st node d width height hin hout =
     (let handleAnimations = getHandleAnimations st;
          nid = n_id node;
          ntype = (case n_type node of None \<Rightarrow> [] | Some t \<Rightarrow> t);
          action = (ntype = ''action'')
      in js_bind (getNodeStatus nid st) (\<lambda>nodeStatus.
           case statusVariants nodeStatus of
             None \<Rightarrow> Inl TypeError
           | Some (icon, color) \<Rightarrow> Inr
               (Elem ''div'' []
                 (node_frame num nodeStatus width height @
                  [Elem ''div'' []
                    ([Elem ''div'' []
                        [Elem ''div'' []
                           [Elem ''div'' [(''class'', if action then ''bg-purple-100'' else ''bg-amber-100'')]
                              (show_if (d_icon d \<noteq> []) (Elem (d_icon d) [(''size'', ''16'')] [])),
                            Elem ''div'' [] [Txt (d_label d)],
                            Elem icon [(''class'', color @ (if nodeStatus = ''running'' then '' animate-spin-slow'' else []))] []],
                         Elem ''div'' [] [Txt (d_description d)]],
                      Elem ''div'' []
                        [Elem ''div'' []
                           [Elem ''Badge'' [(''class'', if action then ''bg-purple-100'' else ''bg-amber-100'')]
                              [Txt (if action then ''Action'' else ''Trigger'')],
                            Elem ''Button'' [] [Txt ''Configure'']]]] @
                     show_if action
                       (CustomHandle HTarget ''top'' ''input''
                          (handle_on (map_option ha_target (handleAnimations nid))) ntype hin) @
                     [CustomHandle HSource ''bottom'' ''output''
                        (handle_on (map_option ha_source (handleAnimations nid))) ntype hout,
                      Elem ''div'' [(''class'', if n_selected node = Some True then ''opacity-100'' else [])] []])]))))"

section \<open>Rendering\<close>

lemma frame_handlers [simp]:
  "concat (map (view_handlers ''animateHandle'') (node_frame num st w h)) = []"
  by (cases w; cases h) (simp_all add: node_frame_def running_frame_def Let_def)

lemma CustomHandle_animated [simp]:
  "view_handlers ''animateHandle'' (CustomHandle t p ht b nt h) = [js_bool b]"
  by (cases b; cases "isActive h") (simp_all add: CustomHandle_def)

lemma map_view_show_if [simp]: "concat (map f (show_if c v)) = (if c then f v else [])"
  by (simp add: show_if_def)

lemma NodeUI_animated:
  assumes "NodeUI num st node d w h hin hout = Inr v"
  shows "view_handlers ''animateHandle'' v =
    (if n_type node = Some ''action''
     then [js_bool (handle_on (map_option ha_target (getHandleAnimations st (n_id node))))] else []) @
    [js_bool (handle_on (map_option ha_source (getHandleAnimations st (n_id node))))]"
  using assms
  by (auto simp: NodeUI_def Let_def split: option.splits)

lemma handle_on_iff:
  "handle_on (map_option ha_source (h n)) \<longleftrightarrow> src_on h n"
  "handle_on (map_option ha_target (h n)) \<longleftrightarrow> tgt_on h n"
  by (auto simp: handle_on_def src_on_def tgt_on_def split: option.splits)

lemma getHandleAnimations_exact:
  assumes "anim_inv s" and "store_inv s"
  shows "anim_exact (getHandleAnimations s) (getEdges s)"
proof (cases "current_key s")
  case None
  then show ?thesis by (simp add: getHandleAnimations_def getEdges_def anim_exact_def src_on_def tgt_on_def)
next
  case (Some k)
  with assms(2) obtain f where f: "flows s k = Some f" by (rule store_inv_current)
  with assms(1) have "flow_anim f" by (rule anim_inv_current)
  with Some f show ?thesis
    by (simp add: getHandleAnimations_def getEdges_def flow_anim_def)
qed

text \<open>Claim C25: in every store that the operations reach, a node that renders shows its output handle
  as connected exactly when an edge leaves it and, for an action, its input handle exactly when an
  edge enters it; a trigger has no input handle.\<close>

theorem rendered_handles_match_edges:
  assumes "applyEdgeChanges_doc aec" "addEdge_doc ae" "list_all ui_event evs"
    and s: "s = fold (\<lambda>ev s. fst (store_step anc aec ae ev s)) evs init_store"
    and "n_id node \<noteq> []" and "NodeUI num s node d w h hin hout = Inr v"
  shows "view_handlers ''animateHandle'' v =
    (if n_type node = Some ''action'' then [js_bool (\<exists>e\<in>set (getEdges s). e_target e = n_id node)] else []) @
    [js_bool (\<exists>e\<in>set (getEdges s). e_source e = n_id node)]"
proof -
  have "store_inv s" unfolding s by (rule store.inv_run)
  moreover have "anim_inv s" unfolding s using assms(1-3)
    by (rule run_anim) (rule store_inv_init, simp add: anim_inv_def init_store_def)
  ultimately have "anim_exact (getHandleAnimations s) (getEdges s)" by (intro getHandleAnimations_exact)
  with assms(5) show ?thesis
    by (auto simp: NodeUI_animated [OF assms(6)] handle_on_iff anim_exact_def image_iff_eq)
qed

lemma getNodeStatus_inv: "store_inv s \<Longrightarrow> \<exists>st. getNodeStatus n s = Inr st"
proof -
  assume s: "store_inv s"
  have "f_nodeStatus f \<noteq> None" if "flows s k = Some f" for k f
  proof -
    have "wf_flow f" using s that by (simp add: store_inv_def)
    then show ?thesis by (simp add: wf_flow_def)
  qed
  then show ?thesis by (auto simp: getNodeStatus_def simp del: not_None_eq split: option.splits)
qed

text \<open>In a well-formed store a node renders exactly when its status is one of success,
  failed, pending and running, and throws a \<open>TypeError\<close> for any other status that an event may have
  set.\<close>

lemma NodeUI_renders_iff:
  assumes "store_inv s"
  shows "(\<exists>v. NodeUI num s node d w h hin hout = Inr v) \<longleftrightarrow>
           getNodeStatus (n_id node) s \<in> Inr ` {''success'', ''failed'', ''pending'', ''running''}"
proof -
  obtain st where st: "getNodeStatus (n_id node) s = Inr st" using getNodeStatus_inv [OF assms] by blast
  have "(\<exists>v. NodeUI num s node d w h hin hout = Inr v) \<longleftrightarrow> statusVariants st \<noteq> None"
    by (auto simp: NodeUI_def Let_def st split: option.splits)
  also have "\<dots> \<longleftrightarrow> st \<in> {''success'', ''failed'', ''pending'', ''running''}"
    by (auto simp: statusVariants_def split: if_splits)
  finally show ?thesis by (auto simp: st)
qed

definition demo_data :: node_data where
  "demo_data = \<lparr>d_category = ''trigger'', d_nodeType = ''schedule'', d_config = [], d_label = ''Schedule'',
      d_description = ''d'', d_icon = ''Calendar'', d_status = None\<rparr>"

lemma NodeUI_renders_iff_example:
  "\<not> (\<exists>v. NodeUI (\<lambda>x. ''0'') (setNodeStatus ''a'' ''skipped'' demo_store) demo_node demo_data None None
            handle_init handle_init = Inr v)"
proof -
  have "store_inv (setNodeStatus ''a'' ''skipped'' demo_store)" by (intro js_intros demo_store_inv)
  note iff = NodeUI_renders_iff [OF this]
  have "getNodeStatus ''a'' (setNodeStatus ''a'' ''skipped'' demo_store) = Inr ''skipped''"
    using demo_store_inv by (simp add: getNodeStatus_def setNodeStatus_def Let_def)
  then show ?thesis unfolding iff by (auto simp: demo_node_def)
qed

definition demo_connected :: flow_state where
  "demo_connected = fold (\<lambda>ev s. fst (store_step demo_applyNodeChanges demo_applyEdgeChanges demo_addEdge ev s))
     (take 2 demo_events) init_store"

theorem rendered_handles_match_edges_witness:
  "\<exists>v. NodeUI (\<lambda>x. ''0'') demo_connected demo_node demo_data None None handle_init handle_init = Inr v \<and>
     view_handlers ''animateHandle'' v = [''true'']"
proof -
  have dc: "demo_connected = fold (\<lambda>ev s. fst (store_step demo_applyNodeChanges demo_applyEdgeChanges demo_addEdge ev s))
     (take 2 demo_events) init_store" by (simp add: demo_connected_def)
  have st: "getNodeStatus ''a'' demo_connected = Inr ''pending''" "\<exists>e\<in>set (getEdges demo_connected). e_source e = ''a''"
    by (simp_all add: demo_connected_def demo_events_def initializeFlow_def init_store_def current_key_def
        onConnect_def defaultFlowData_def setHandleAnimation_def put_flow_def spread_flow_def Let_def
        getNodeStatus_def getEdges_def demo_addEdge_def connection_edge_def)
  then obtain v where v: "NodeUI (\<lambda>x. ''0'') demo_connected demo_node demo_data None None handle_init handle_init = Inr v"
    by (auto simp: NodeUI_def Let_def demo_node_def statusVariants_def)
  have "list_all ui_event (take 2 demo_events)" by (simp add: demo_events_def)
  from rendered_handles_match_edges [OF demo_docs(2,3) this dc _ v] st v show ?thesis
    by (auto simp: demo_node_def)
qed

end
