(* ===== verification/Run_Calls.thy ===== *)
theory Run_Calls
  imports Prelude
begin

text \<open>
  What the server's services for workflow runs share: the tables of the database that they read and write
  (\<open>backend/db/\<close>, \<open>backend/repositories/workflow_run.go\<close>), the sets and channels in Redis
  (\<open>backend/clients/redis/client.go\<close>), the message queue (\<open>backend/clients/rabbitmq/client.go\<close>), and programs as trees of
  calls to them. A program is a call with a continuation for every answer, so the same definition of a service
  function can be run from start to end or in steps that interleave with other workers. Each call is atomic; it can
  fail before it has an effect, or take effect and still be answered with an error.

  Timestamps and metadata columns are left out. The column \<open>started_at\<close> only orders rows of which the services count and
  search, and the others are only written. \<open>history\<close> is not in the program: it records in which order
  things happened.
\<close>

section \<open>Tables, queue and cache\<close>

text \<open>The values that the check constraints of the tables admit.\<close>

datatype node_state = Pending | Running | Success | Failed

datatype run_status = RunRunning | RunSuccess | RunFailed | RunCancelled

record wf_node =
  nd_id :: int
  nd_workflow :: int
  nd_category :: string
  nd_type :: string
  nd_config :: string

record wf_edge =
  we_workflow :: int
  we_source :: int
  we_target :: int

record run_row =
  rr_id :: int
  rr_workflow :: int
  rr_status :: run_status

record node_run =
  nr_id :: int
  nr_run :: int
  nr_node :: int
  nr_status :: node_state
  nr_retry :: nat
  nr_error :: "string option"

record task =
  t_user :: string
  t_workflow :: int
  t_run :: int
  t_node :: int
  t_nodeRun :: int
  t_retry :: nat
  t_status :: "node_state option"

text \<open>A message with its header \<open>x-retry-count\<close>.\<close>

record message =
  m_task :: task
  m_retry :: "nat option"

datatype run_note =
    Succeeded int int
  | Started int int
  | Sent int int

record world =
  wd_nodes :: "wf_node list"
  wd_edges :: "wf_edge list"
  wd_runs :: "run_row list"
  wd_nodeRuns :: "node_run list"
  wd_nextRun :: int
  wd_nextNodeRun :: int
  wd_sets :: "int \<Rightarrow> int set option"
  wd_locks :: "int set"
  wd_queue :: "message list"
  wd_dead :: "message list"
  wd_updates :: "(int \<times> int \<times> node_state) list"
  wd_history :: "run_note list"

definition BuildWorkflowNodeTaskPayload :: "string \<Rightarrow> int \<Rightarrow> int \<Rightarrow> int \<Rightarrow> int \<Rightarrow> task" where
  "BuildWorkflowNodeTaskPayload userID workflowID runID nodeID nodeRunID =
     \<lparr>t_user = userID, t_workflow = workflowID, t_run = runID, t_node = nodeID, t_nodeRun = nodeRunID,
      t_retry = 0, t_status = None\<rparr>"

section \<open>Queries\<close>

definition GetWorkflowNodeRun :: "int \<Rightarrow> int \<Rightarrow> world \<Rightarrow> node_run option" where
  "GetWorkflowNodeRun run node w = List.find (\<lambda>r. nr_run r = run \<and> nr_node r = node) (wd_nodeRuns w)"

definition GetWorkflowNodeRuns :: "int \<Rightarrow> node_state option \<Rightarrow> world \<Rightarrow> node_run list" where
  "GetWorkflowNodeRuns run status w =
     filter (\<lambda>r. nr_run r = run \<and> (case status of None \<Rightarrow> True | Some s \<Rightarrow> s = nr_status r)) (wd_nodeRuns w)"

text \<open>The rows of a run joined with the edges into, and out of, a node.\<close>

definition GetParentWorkflowNodeRuns :: "int \<Rightarrow> int \<Rightarrow> world \<Rightarrow> node_run list" where
  "GetParentWorkflowNodeRuns run node w =
     concat (map (\<lambda>r. map (\<lambda>e. r) (filter (\<lambda>e. we_source e = nr_node r \<and> we_target e = node) (wd_edges w)))
       (filter (\<lambda>r. nr_run r = run) (wd_nodeRuns w)))"

definition GetChildWorkflowNodeRuns :: "int \<Rightarrow> int \<Rightarrow> world \<Rightarrow> node_run list" where
  "GetChildWorkflowNodeRuns run node w =
     concat (map (\<lambda>r. map (\<lambda>e. r) (filter (\<lambda>e. we_target e = nr_node r \<and> we_source e = node) (wd_edges w)))
       (filter (\<lambda>r. nr_run r = run) (wd_nodeRuns w)))"

definition GetWorkflowNode :: "int \<Rightarrow> world \<Rightarrow> wf_node option" where
  "GetWorkflowNode node w = List.find (\<lambda>n. nd_id n = node) (wd_nodes w)"

text \<open>The nodes of a workflow with the edges that leave them. An unknown workflow has no rows and is an error.\<close>

definition GetWorkflowGraph :: "int \<Rightarrow> world \<Rightarrow> (wf_node list \<times> wf_edge list) option" where
  "GetWorkflowGraph workflow w =
     (let nodes = filter (\<lambda>n. nd_workflow n = workflow) (wd_nodes w)
      in if nodes = [] then None
         else Some (nodes, concat (map (\<lambda>n. filter (\<lambda>e. we_workflow e = workflow \<and> we_source e = nd_id n) (wd_edges w)) nodes)))"

section \<open>Updates\<close>

text \<open>A new run with one row per node; triggers have done their work already.\<close>

definition initial_status :: "string \<Rightarrow> node_state" where
  "initial_status category = (if category = ''trigger'' then Success else Pending)"

primrec create_rows :: "int \<Rightarrow> int \<Rightarrow> (int \<times> string) list \<Rightarrow> node_run list" where
  "create_rows run i [] = []"
| "create_rows run i (n # ns) =
     \<lparr>nr_id = i, nr_run = run, nr_node = fst n, nr_status = initial_status (snd n), nr_retry = 0, nr_error = None\<rparr> #
     create_rows run (i + 1) ns"

definition CreateWorkflowRun :: "int \<Rightarrow> (int \<times> string) list \<Rightarrow> world \<Rightarrow> (int \<times> world) option" where
  "CreateWorkflowRun workflow nodes w =
     (if nodes = [] then None
      else let run = wd_nextRun w
           in Some (run, w\<lparr>wd_runs := wd_runs w @ [\<lparr>rr_id = run, rr_workflow = workflow, rr_status = RunRunning\<rparr>],
                wd_nodeRuns := wd_nodeRuns w @ create_rows run (wd_nextNodeRun w) nodes,
                wd_nextRun := run + 1,
                wd_nextNodeRun := wd_nextNodeRun w + int (length nodes),
                wd_history := wd_history w @ map (\<lambda>n. Succeeded run (fst n)) (filter (\<lambda>n. snd n = ''trigger'') nodes)\<rparr>))"

definition CompleteWorkflowRun :: "int \<Rightarrow> run_status \<Rightarrow> world \<Rightarrow> world" where
  "CompleteWorkflowRun run status w =
     w\<lparr>wd_runs := map (\<lambda>r. if rr_id r = run then r\<lparr>rr_status := status\<rparr> else r) (wd_runs w)\<rparr>"

text \<open>What the update of a row by its id notes in the history.\<close>

definition note_rows :: "(int \<Rightarrow> int \<Rightarrow> run_note) \<Rightarrow> int \<Rightarrow> world \<Rightarrow> run_note list" where
  "note_rows ev i w = map (\<lambda>r. ev (nr_run r) (nr_node r)) (filter (\<lambda>r. nr_id r = i) (wd_nodeRuns w))"

definition MarkWorkflowNodeAsRunning :: "int \<Rightarrow> nat \<Rightarrow> world \<Rightarrow> world" where
  "MarkWorkflowNodeAsRunning i retryCount w =
     w\<lparr>wd_nodeRuns := map (\<lambda>r. if nr_id r = i then r\<lparr>nr_status := Running, nr_retry := retryCount\<rparr> else r) (wd_nodeRuns w),
       wd_history := wd_history w @ note_rows Started i w\<rparr>"

definition UpdateWorkflowNodeRunStatus :: "int \<Rightarrow> node_state \<Rightarrow> string option \<Rightarrow> world \<Rightarrow> world" where
  "UpdateWorkflowNodeRunStatus i status err w =
     w\<lparr>wd_nodeRuns := map (\<lambda>r. if nr_id r = i then r\<lparr>nr_status := status, nr_error := err\<rparr> else r) (wd_nodeRuns w),
       wd_history := wd_history w @ (if status = Success then note_rows Succeeded i w else [])\<rparr>"

definition Publish :: "task \<Rightarrow> world \<Rightarrow> world" where
  "Publish t w = w\<lparr>wd_queue := wd_queue w @ [\<lparr>m_task = t, m_retry = None\<rparr>]\<rparr>"

definition PublishNodeStatusUpdate :: "int \<Rightarrow> int \<Rightarrow> node_state \<Rightarrow> world \<Rightarrow> world" where
  "PublishNodeStatusUpdate run node status w = w\<lparr>wd_updates := wd_updates w @ [(run, node, status)]\<rparr>"

text \<open>A set without members does not exist in Redis, and adding no members is not tried.\<close>

definition InitializeRunningNodeSet :: "int \<Rightarrow> int list \<Rightarrow> world \<Rightarrow> world" where
  "InitializeRunningNodeSet run nodes w =
     (if nodes = [] then w
      else w\<lparr>wd_sets := (wd_sets w)(run \<mapsto> (case wd_sets w run of None \<Rightarrow> {} | Some S \<Rightarrow> S) \<union> set nodes)\<rparr>)"

definition TryAcquireWorkflowRunFinalizationLock :: "int \<Rightarrow> world \<Rightarrow> bool \<times> world" where
  "TryAcquireWorkflowRunFinalizationLock run w =
     (if run \<in> wd_locks w then (False, w) else (True, w\<lparr>wd_locks := insert run (wd_locks w)\<rparr>))"

definition MarkNodeCompleteAndCountRemaining :: "int \<Rightarrow> int \<Rightarrow> world \<Rightarrow> nat option \<times> world" where
  "MarkNodeCompleteAndCountRemaining run node w =
     (case wd_sets w run of
        None \<Rightarrow> (None, w)
      | Some S \<Rightarrow> let S' = S - {node}
                  in (Some (card S'), w\<lparr>wd_sets := (wd_sets w)(run := if S' = {} then None else Some S')\<rparr>))"

section \<open>Calls and programs\<close>

datatype op =
    CGetWorkflowNodeRun int int
  | CGetWorkflowNodeRuns int "node_state option"
  | CGetParents int int
  | CGetChildren int int
  | CGetWorkflowNode int
  | CGetWorkflowGraph int
  | CCreateWorkflowRun int "(int \<times> string) list"
  | CCompleteWorkflowRun int run_status
  | CMarkRunning int nat
  | CUpdateStatus int node_state "string option"
  | CPublish task
  | CPublishUpdate int int node_state
  | CInitializeSet int "int list"
  | CTryLock int
  | CMarkComplete int int
  | CSendEmail int int string string

datatype reply =
    RErr
  | RUnit
  | RRow node_run
  | RRows "node_run list"
  | RNode wf_node
  | RGraph "wf_node list" "wf_edge list"
  | RNumber int
  | RCount nat
  | RFlag bool

fun perform_call :: "op \<Rightarrow> world \<Rightarrow> reply \<times> world" where
  "perform_call (CGetWorkflowNodeRun run node) w =
     ((case GetWorkflowNodeRun run node w of None \<Rightarrow> RErr | Some r \<Rightarrow> RRow r), w)"
| "perform_call (CGetWorkflowNodeRuns run status) w = (RRows (GetWorkflowNodeRuns run status w), w)"
| "perform_call (CGetParents run node) w = (RRows (GetParentWorkflowNodeRuns run node w), w)"
| "perform_call (CGetChildren run node) w = (RRows (GetChildWorkflowNodeRuns run node w), w)"
| "perform_call (CGetWorkflowNode node) w = ((case GetWorkflowNode node w of None \<Rightarrow> RErr | Some n \<Rightarrow> RNode n), w)"
| "perform_call (CGetWorkflowGraph workflow) w =
     ((case GetWorkflowGraph workflow w of None \<Rightarrow> RErr | Some g \<Rightarrow> RGraph (fst g) (snd g)), w)"
| "perform_call (CCreateWorkflowRun workflow nodes) w =
     (case CreateWorkflowRun workflow nodes w of None \<Rightarrow> (RErr, w) | Some rw \<Rightarrow> (RNumber (fst rw), snd rw))"
| "perform_call (CCompleteWorkflowRun run status) w = (RUnit, CompleteWorkflowRun run status w)"
| "perform_call (CMarkRunning i retryCount) w = (RUnit, MarkWorkflowNodeAsRunning i retryCount w)"
| "perform_call (CUpdateStatus i status err) w = (RUnit, UpdateWorkflowNodeRunStatus i status err w)"
| "perform_call (CPublish t) w = (RUnit, Publish t w)"
| "perform_call (CPublishUpdate run node status) w = (RUnit, PublishNodeStatusUpdate run node status w)"
| "perform_call (CInitializeSet run nodes) w = (RUnit, InitializeRunningNodeSet run nodes w)"
| "perform_call (CTryLock run) w =
     (let (b, w') = TryAcquireWorkflowRunFinalizationLock run w in (RFlag b, w'))"
| "perform_call (CMarkComplete run node) w =
     (let (c, w') = MarkNodeCompleteAndCountRemaining run node w
      in (case c of None \<Rightarrow> RErr | Some n \<Rightarrow> RCount n, w'))"
| "perform_call (CSendEmail run node user config) w = (RUnit, w\<lparr>wd_history := wd_history w @ [Sent run node]\<rparr>)"

datatype fault = Fine | Lost | Unsure

fun attempt :: "fault \<Rightarrow> op \<Rightarrow> world \<Rightarrow> reply \<times> world" where
  "attempt Fine c w = perform_call c w"
| "attempt Lost c w = (RErr, w)"
| "attempt Unsure c w = (RErr, snd (perform_call c w))"

datatype 'a prog = Ret 'a | Call op "reply \<Rightarrow> 'a prog"

primrec bindp :: "'a prog \<Rightarrow> ('a \<Rightarrow> 'b prog) \<Rightarrow> 'b prog" where
  "bindp (Ret x) f = f x"
| "bindp (Call c k) f = Call c (\<lambda>r. bindp (k r) f)"

text \<open>Running a program from start to end, with the fault of each call.\<close>

primrec exec :: "(op \<Rightarrow> fault) \<Rightarrow> 'a prog \<Rightarrow> world \<Rightarrow> 'a \<times> world" where
  "exec F (Ret x) w = (x, w)"
| "exec F (Call c k) w = exec F (k (fst (attempt (F c) c w))) (snd (attempt (F c) c w))"

lemma exec_bindp [simp]: "exec F (bindp p f) w = exec F (f (fst (exec F p w))) (snd (exec F p w))"
  by (induction p arbitrary: w) auto

lemma bindp_assoc: "bindp (bindp p f) g = bindp p (\<lambda>x. bindp (f x) g)"
  by (induction p) auto

lemma in_parents:
  "r \<in> set (GetParentWorkflowNodeRuns run node w) \<longleftrightarrow>
   r \<in> set (wd_nodeRuns w) \<and> nr_run r = run \<and> (\<exists>e\<in>set (wd_edges w). we_source e = nr_node r \<and> we_target e = node)"
  by (auto simp: GetParentWorkflowNodeRuns_def)

lemma in_children:
  "r \<in> set (GetChildWorkflowNodeRuns run node w) \<longleftrightarrow>
   r \<in> set (wd_nodeRuns w) \<and> nr_run r = run \<and> (\<exists>e\<in>set (wd_edges w). we_target e = nr_node r \<and> we_source e = node)"
  by (auto simp: GetChildWorkflowNodeRuns_def)

end
