(* ===== verification/Run_Engine.thy ===== *)
theory Run_Engine
  imports Run_Calls
begin

text \<open>
  The services that carry a workflow run: the orchestrator (\<open>backend/services/orchestrator.go\<close>), the helpers that put nodes
  into the queue (\<open>backend/internal/\<close>), the executor (\<open>backend/services/executor.go\<close>) and the consumer with its
  retries (\<open>backend/clients/rabbitmq/client.go\<close>, \<open>backend/cmd/worker/worker.go\<close>). The functions are programs over the calls of
  \<open>Run_Calls\<close>. A system has any number of them in progress: requests that start runs and deliveries that workers
  handle. Its events let one of them make its next call, with or without a fault, deliver any message of the queue,
  kill a worker, whose message the broker delivers again, and let keys in Redis expire.

  Logging is left out. An error is the text of its innermost message.
\<close>

section \<open>Starting nodes\<close>

definition GetRootNodes :: "wf_node list \<Rightarrow> wf_edge list \<Rightarrow> wf_node list" where
  "GetRootNodes nodes edges = filter (\<lambda>n. nd_id n \<notin> set (map we_target edges)) nodes"

definition EnqueueNode :: "string \<Rightarrow> int \<Rightarrow> int \<Rightarrow> int \<Rightarrow> (string + unit) prog" where
  "EnqueueNode userID workflowID workflowRunID nodeID =
     Call (CGetWorkflowNodeRun workflowRunID nodeID) (\<lambda>r. case r of
       RRow nodeRun \<Rightarrow>
         if nr_status nodeRun \<noteq> Pending then Ret (Inr ())
         else Call (CPublish (BuildWorkflowNodeTaskPayload userID workflowID workflowRunID nodeID (nr_id nodeRun)))
                (\<lambda>r. if r = RErr then Ret (Inl ''failed to publish message for child node'') else Ret (Inr ()))
     | _ \<Rightarrow> Ret (Inl ''failed to get workflow node run''))"

primrec publish_all :: "task list \<Rightarrow> (string + unit) prog" where
  "publish_all [] = Ret (Inr ())"
| "publish_all (t # ts) =
     Call (CPublish t) (\<lambda>r. if r = RErr then Ret (Inl ''failed to publish message for child node'') else publish_all ts)"

definition EnqueueChildNodes :: "string \<Rightarrow> int \<Rightarrow> int \<Rightarrow> int \<Rightarrow> (string + unit) prog" where
  "EnqueueChildNodes userID workflowID parentNodeID workflowRunID =
     Call (CGetChildren workflowRunID parentNodeID) (\<lambda>r. case r of
       RRows c \<Rightarrow>
         publish_all (map (\<lambda>n. BuildWorkflowNodeTaskPayload userID workflowID workflowRunID (nr_node n) (nr_id n))
           (filter (\<lambda>n. nr_status n = Pending) c))
     | _ \<Rightarrow> Ret (Inl ''failed to get child workflow node runs''))"

section \<open>Orchestrator\<close>

text \<open>The loop over the root nodes. A failed status update is only logged.\<close>

primrec start_roots :: "string \<Rightarrow> int \<Rightarrow> int \<Rightarrow> wf_node list \<Rightarrow> (string + int) prog" where
  "start_roots userID workflowID run [] = Ret (Inr run)"
| "start_roots userID workflowID run (parent # ps) =
     (if nd_category parent = ''trigger''
      then bindp (EnqueueChildNodes userID workflowID (nd_id parent) run) (\<lambda>r. case r of
             Inl e \<Rightarrow> Ret (Inl e)
           | Inr _ \<Rightarrow> Call (CPublishUpdate run (nd_id parent) Success) (\<lambda>_. start_roots userID workflowID run ps))
      else bindp (EnqueueNode userID workflowID run (nd_id parent)) (\<lambda>r. case r of
             Inl e \<Rightarrow> Ret (Inl e)
           | Inr _ \<Rightarrow> start_roots userID workflowID run ps))"

text \<open>\<open>validate\<close> is \<open>ValidateWorkflowGraph\<close>, which is given the nodes and the edges.\<close>

definition OrchestrateWorkflow ::
  "(wf_node list \<Rightarrow> wf_edge list \<Rightarrow> string option) \<Rightarrow> string \<Rightarrow> int \<Rightarrow> (string + int) prog" where
  "OrchestrateWorkflow validate userID workflowID =
     Call (CGetWorkflowGraph workflowID) (\<lambda>r. case r of
       RGraph nodes edges \<Rightarrow>
         (let rootNodes = GetRootNodes nodes edges;
              nIDs = map nd_id (filter (\<lambda>n. nd_id n \<notin> set (map nd_id rootNodes)) nodes)
          in case validate nodes edges of
               Some e \<Rightarrow> Ret (Inl e)
             | None \<Rightarrow>
                 Call (CCreateWorkflowRun workflowID (map (\<lambda>n. (nd_id n, nd_category n)) nodes)) (\<lambda>r. case r of
                   RNumber run \<Rightarrow>
                     Call (CInitializeSet run nIDs) (\<lambda>_. start_roots userID workflowID run rootNodes)
                 | _ \<Rightarrow> Ret (Inl ''orchestrate workflow failed to create workflow run'')))
     | _ \<Rightarrow> Ret (Inl ''orchestrate workflow failed to get workflow graph''))"

section \<open>Executor\<close>

definition shouldSkipNodeTaskExecution :: "task \<Rightarrow> (string + bool \<times> task) prog" where
  "shouldSkipNodeTaskExecution t =
     Call (CGetWorkflowNodeRun (t_run t) (t_node t)) (\<lambda>r. case r of
       RRow nodeRun \<Rightarrow> Ret (Inr (nr_status nodeRun = Success \<or> nr_retry nodeRun = 3, t\<lparr>t_retry := nr_retry nodeRun\<rparr>))
     | _ \<Rightarrow> Ret (Inl ''failed to get workflow node run status from db''))"

definition reinitializeRunningNodeSet :: "int \<Rightarrow> int list \<Rightarrow> (string + unit) prog" where
  "reinitializeRunningNodeSet runID nIDs =
     Call (CTryLock runID) (\<lambda>r. case r of
       RFlag True \<Rightarrow> Call (CInitializeSet runID nIDs) (\<lambda>_. Ret (Inr ()))
     | RFlag False \<Rightarrow> Ret (Inl ''workflow run reinitialization in redis already in progress by another worker'')
     | _ \<Rightarrow> Ret (Inl ''failed to acquire workflow reinitialization lock''))"

definition shouldFinalizeWorkflowRun :: "task \<Rightarrow> (string + bool) prog" where
  "shouldFinalizeWorkflowRun t =
     Call (CMarkComplete (t_run t) (t_node t)) (\<lambda>r. case r of
       RCount remaining \<Rightarrow> Ret (Inr (remaining = 0))
     | _ \<Rightarrow> Call (CGetWorkflowNodeRuns (t_run t) (Some Pending)) (\<lambda>r. case r of
         RRows rs \<Rightarrow>
           if rs = [] then Ret (Inr True)
           else bindp (reinitializeRunningNodeSet (t_run t) (map nr_node rs)) (\<lambda>_. Ret (Inr (length rs = 0)))
       | _ \<Rightarrow> Ret (Inl ''failed to get workflow node runs and count remaining'')))"

text \<open>The registry knows one action; an action of any other type succeeds without doing anything.\<close>

definition ActionRegistry_Execute :: "task \<Rightarrow> wf_node \<Rightarrow> (string + unit) prog" where
  "ActionRegistry_Execute t node =
     (if nd_type node = ''send_email''
      then Call (CSendEmail (t_run t) (t_node t) (t_user t) (nd_config node))
             (\<lambda>r. if r = RErr then Ret (Inl ''failed to execute action'') else Ret (Inr ()))
      else Ret (Inr ()))"

text \<open>What follows the action: the status of the row, the update for the listeners, and after the last attempt the
  status of the run.\<close>

definition record_outcome :: "task \<Rightarrow> (string + unit) \<Rightarrow> (string + task) prog" where
  "record_outcome t outcome =
     (case outcome of
        Inl e \<Rightarrow>
          Call (CUpdateStatus (t_nodeRun t) Failed (Some e)) (\<lambda>r.
            if r = RErr then Ret (Inl ''failed to mark node run as failed'')
            else Call (CPublishUpdate (t_run t) (t_node t) Failed) (\<lambda>_.
              if t_retry t = 3
              then Call (CCompleteWorkflowRun (t_run t) RunFailed) (\<lambda>r.
                     if r = RErr then Ret (Inl ''failed to complete workflow run'') else Ret (Inl ''task execution failed''))
              else Ret (Inl ''task execution failed'')))
      | Inr _ \<Rightarrow>
          Call (CUpdateStatus (t_nodeRun t) Success None) (\<lambda>r.
            if r = RErr then Ret (Inl ''failed to mark node run as success'')
            else Call (CPublishUpdate (t_run t) (t_node t) Success) (\<lambda>_. Ret (Inr (t\<lparr>t_status := Some Success\<rparr>)))))"

definition runWorkflowNodeTask :: "task \<Rightarrow> (string + task) prog" where
  "runWorkflowNodeTask t0 =
     Call (CGetWorkflowNode (t_node t0)) (\<lambda>r. case r of
       RNode workflowNode \<Rightarrow>
         (let t = t0\<lparr>t_retry := Suc (t_retry t0)\<rparr>
          in Call (CMarkRunning (t_nodeRun t) (t_retry t)) (\<lambda>r.
               if r = RErr then Ret (Inl ''failed to mark node run as running'')
               else Call (CPublishUpdate (t_run t) (t_node t) Running) (\<lambda>_.
                 bindp (ActionRegistry_Execute t workflowNode) (record_outcome t))))
     | _ \<Rightarrow> Ret (Inl ''failed to get workflow node''))"

definition finalizeWorkflowRun :: "task \<Rightarrow> (string + unit) prog" where
  "finalizeWorkflowRun t =
     Call (CGetWorkflowNodeRuns (t_run t) None) (\<lambda>r. case r of
       RRows rs \<Rightarrow>
         Call (CCompleteWorkflowRun (t_run t) (if \<exists>r\<in>set rs. nr_status r = Failed then RunFailed else RunSuccess))
           (\<lambda>r. if r = RErr then Ret (Inl ''failed to complete workflow run'') else Ret (Inr ()))
     | _ \<Rightarrow> Ret (Inl ''failed to get workflow node runs''))"

text \<open>The part of \<open>ExecuteWorkflowNode\<close> after the node's own task.\<close>

definition after_task :: "task \<Rightarrow> (string + unit) prog" where
  "after_task t =
     bindp (EnqueueChildNodes (t_user t) (t_workflow t) (t_node t) (t_run t)) (\<lambda>r. case r of
       Inl e \<Rightarrow> Ret (Inl e)
     | Inr _ \<Rightarrow> bindp (shouldFinalizeWorkflowRun t) (\<lambda>r. case r of
         Inl e \<Rightarrow> Ret (Inl e)
       | Inr shouldFinalize \<Rightarrow> if shouldFinalize then finalizeWorkflowRun t else Ret (Inr ())))"

definition ExecuteWorkflowNode :: "task \<Rightarrow> (string + unit) prog" where
  "ExecuteWorkflowNode t =
     Call (CGetParents (t_run t) (t_node t)) (\<lambda>r. case r of
       RRows parentNodeRuns \<Rightarrow>
         if \<exists>p\<in>set parentNodeRuns. nr_status p \<noteq> Success then Ret (Inr ())
         else bindp (shouldSkipNodeTaskExecution t) (\<lambda>r. case r of
           Inl e \<Rightarrow> Ret (Inl e)
         | Inr (skip, t') \<Rightarrow>
             if skip then after_task t'
             else bindp (runWorkflowNodeTask t') (\<lambda>r. case r of Inl e \<Rightarrow> Ret (Inl e) | Inr t'' \<Rightarrow> after_task t''))
     | _ \<Rightarrow> Ret (Inl ''failed to get parent workflow node runs''))"

section \<open>Retries\<close>

definition maxRetries :: nat where
  "maxRetries = 3"

definition retry_delay :: "nat \<Rightarrow> nat" where
  "retry_delay retryCount = min (2000 * 2 ^ retryCount) 120000"

text \<open>A message whose handling failed is published again with a higher count until it has been retried three times;
  then, or when publishing reports an error, it goes to the dead letters.\<close>

definition handleFailedMessage :: "fault \<Rightarrow> message \<Rightarrow> world \<Rightarrow> world" where
  "handleFailedMessage f m w =
     (let retryCount = (case m_retry m of None \<Rightarrow> 0 | Some c \<Rightarrow> c);
          nacked = (\<lambda>w. w\<lparr>wd_dead := wd_dead w @ [m]\<rparr>);
          retried = (\<lambda>w. w\<lparr>wd_queue := wd_queue w @ [m\<lparr>m_retry := Some (retryCount + 1)\<rparr>]\<rparr>)
      in if maxRetries \<le> retryCount then nacked w
         else (case f of Fine \<Rightarrow> retried w | Lost \<Rightarrow> nacked w | Unsure \<Rightarrow> nacked (retried w)))"

section \<open>Requests and workers in progress\<close>

datatype job =
    Request "(string + int) prog"
  | Delivery message "(string + unit) prog"

record engine =
  en_world :: world
  en_jobs :: "job list"

datatype engine_event =
    RunRequest string int
  | Deliver nat
  | Advance nat fault
  | Crash nat
  | ExpireSet int
  | ExpireLock int

definition drop_nth :: "nat \<Rightarrow> 'a list \<Rightarrow> 'a list" where
  "drop_nth i xs = take i xs @ drop (Suc i) xs"

definition advance_job :: "fault \<Rightarrow> job \<Rightarrow> world \<Rightarrow> job option \<times> world" where
  "advance_job f j w =
     (case j of
        Request p \<Rightarrow> (case p of
            Ret _ \<Rightarrow> (None, w)
          | Call c k \<Rightarrow> (Some (Request (k (fst (attempt f c w)))), snd (attempt f c w)))
      | Delivery m p \<Rightarrow> (case p of
            Ret (Inr _) \<Rightarrow> (None, w)
          | Ret (Inl _) \<Rightarrow> (None, handleFailedMessage f m w)
          | Call c k \<Rightarrow> (Some (Delivery m (k (fst (attempt f c w)))), snd (attempt f c w))))"

fun engine_step :: "(wf_node list \<Rightarrow> wf_edge list \<Rightarrow> string option) \<Rightarrow> engine_event \<Rightarrow> engine \<Rightarrow> engine" where
  "engine_step validate (RunRequest userID workflowID) s =
     s\<lparr>en_jobs := en_jobs s @ [Request (OrchestrateWorkflow validate userID workflowID)]\<rparr>"
| "engine_step validate (Deliver i) s =
     (if i < length (wd_queue (en_world s))
      then let m = wd_queue (en_world s) ! i
           in \<lparr>en_world = (en_world s)\<lparr>wd_queue := drop_nth i (wd_queue (en_world s))\<rparr>,
               en_jobs = en_jobs s @ [Delivery m (ExecuteWorkflowNode (m_task m))]\<rparr>
      else s)"
| "engine_step validate (Advance i f) s =
     (if i < length (en_jobs s)
      then case advance_job f (en_jobs s ! i) (en_world s) of
             (None, w) \<Rightarrow> \<lparr>en_world = w, en_jobs = drop_nth i (en_jobs s)\<rparr>
           | (Some j, w) \<Rightarrow> \<lparr>en_world = w, en_jobs = (en_jobs s)[i := j]\<rparr>
      else s)"
| "engine_step validate (Crash i) s =
     (if i < length (en_jobs s)
      then case en_jobs s ! i of
             Request p \<Rightarrow> s\<lparr>en_jobs := drop_nth i (en_jobs s)\<rparr>
           | Delivery m p \<Rightarrow> \<lparr>en_world = (en_world s)\<lparr>wd_queue := wd_queue (en_world s) @ [m]\<rparr>,
                              en_jobs = drop_nth i (en_jobs s)\<rparr>
      else s)"
| "engine_step validate (ExpireSet run) s = s\<lparr>en_world := (en_world s)\<lparr>wd_sets := (wd_sets (en_world s))(run := None)\<rparr>\<rparr>"
| "engine_step validate (ExpireLock run) s = s\<lparr>en_world := (en_world s)\<lparr>wd_locks := wd_locks (en_world s) - {run}\<rparr>\<rparr>"

definition idle_world :: "wf_node list \<Rightarrow> wf_edge list \<Rightarrow> world" where
  "idle_world nodes edges =
     \<lparr>wd_nodes = nodes, wd_edges = edges, wd_runs = [], wd_nodeRuns = [], wd_nextRun = 1, wd_nextNodeRun = 1,
      wd_sets = (\<lambda>_. None), wd_locks = {}, wd_queue = [], wd_dead = [], wd_updates = [], wd_history = []\<rparr>"

definition idle_engine :: "wf_node list \<Rightarrow> wf_edge list \<Rightarrow> engine" where
  "idle_engine nodes edges = \<lparr>en_world = idle_world nodes edges, en_jobs = []\<rparr>"

end
