(* ===== verification/Run_Safety.thy ===== *)
theory Run_Safety
  imports Run_Engine
begin

text \<open>
  What holds of workflow runs however requests and workers interleave, calls fail and workers die: a node starts only
  after each of its parents has succeeded, and no node is given more than three attempts by its counter.

  The proof is a calculus for programs under interference. \<open>later w w'\<close> is what every call of every worker respects,
  \<open>wp p Q w\<close> says that \<open>p\<close>, started at or after \<open>w\<close>, makes only permitted calls and ends with \<open>Q\<close>.
\<close>

section \<open>What every call respects\<close>

lemma append_eq_split:
  "xs @ ys = pre @ ev # post \<Longrightarrow> (\<exists>post'. xs = pre @ ev # post') \<or> (\<exists>pre'. pre = xs @ pre' \<and> ev \<in> set ys)"
proof (induction xs arbitrary: pre)
  case (Cons x xs)
  then show ?case by (cases pre) auto
qed auto

definition row_key :: "node_run \<Rightarrow> int \<times> int \<times> int" where
  "row_key r = (nr_id r, nr_run r, nr_node r)"

definition parents_in :: "world \<Rightarrow> int \<Rightarrow> int \<Rightarrow> run_note list \<Rightarrow> bool" where
  "parents_in w run node h \<longleftrightarrow>
     (\<forall>r\<in>set (GetParentWorkflowNodeRuns run node w). Succeeded run (nr_node r) \<in> set h)"

definition ready :: "world \<Rightarrow> int \<Rightarrow> int \<Rightarrow> bool" where
  "ready w run node \<longleftrightarrow> run < wd_nextRun w \<and> parents_in w run node (wd_history w)"

definition history_ok :: "world \<Rightarrow> bool" where
  "history_ok w \<longleftrightarrow>
     (\<forall>pre ev post run node. wd_history w = pre @ ev # post \<longrightarrow> ev = Started run node \<or> ev = Sent run node \<longrightarrow>
        run < wd_nextRun w \<and> parents_in w run node pre)"

lemma history_okD:
  "history_ok w \<Longrightarrow> wd_history w = pre @ ev # post \<Longrightarrow> ev = Started run node \<or> ev = Sent run node \<Longrightarrow>
   run < wd_nextRun w \<and> parents_in w run node pre"
  unfolding history_ok_def by blast

definition world_ok :: "world \<Rightarrow> bool" where
  "world_ok w \<longleftrightarrow>
     distinct (map nr_id (wd_nodeRuns w)) \<and>
     (\<forall>r\<in>set (wd_nodeRuns w). nr_id r < wd_nextNodeRun w \<and> nr_run r < wd_nextRun w \<and> nr_retry r \<le> 3 \<and>
        (nr_status r = Success \<longrightarrow> Succeeded (nr_run r) (nr_node r) \<in> set (wd_history w))) \<and>
     history_ok w"

definition later :: "world \<Rightarrow> world \<Rightarrow> bool" where
  "later w w' \<longleftrightarrow>
     world_ok w' \<and> wd_edges w' = wd_edges w \<and> wd_nodes w' = wd_nodes w \<and> wd_nextRun w \<le> wd_nextRun w' \<and>
     prefix (wd_history w) (wd_history w') \<and>
     (\<exists>new. map row_key (wd_nodeRuns w') = map row_key (wd_nodeRuns w) @ new \<and>
        (\<forall>k\<in>set new. wd_nextRun w \<le> fst (snd k)))"

definition known_task :: "world \<Rightarrow> task \<Rightarrow> bool" where
  "known_task w t \<longleftrightarrow> (t_nodeRun t, t_run t, t_node t) \<in> row_key ` set (wd_nodeRuns w)"

lemma known_task_retry [simp]: "known_task w (t\<lparr>t_retry := k\<rparr>) = known_task w t"
  by (simp add: known_task_def)

fun permitted :: "op \<Rightarrow> world \<Rightarrow> bool" where
  "permitted (CMarkRunning i retryCount) w \<longleftrightarrow>
     retryCount \<le> 3 \<and> (\<forall>r\<in>set (wd_nodeRuns w). nr_id r = i \<longrightarrow> ready w (nr_run r) (nr_node r))"
| "permitted (CSendEmail run node user config) w \<longleftrightarrow> ready w run node"
| "permitted (CPublish t) w \<longleftrightarrow> known_task w t"
| "permitted _ w \<longleftrightarrow> True"

lemma later_refl: "world_ok w \<Longrightarrow> later w w"
  by (auto simp: later_def)

lemma later_trans: "later u v \<Longrightarrow> later v w \<Longrightarrow> later u w"
  unfolding later_def by (fastforce intro: prefix_order.trans)

lemma later_ok: "later w w' \<Longrightarrow> world_ok w'"
  by (simp add: later_def)

lemma later_rows:
  assumes "later w w'" and "r' \<in> set (wd_nodeRuns w')" and "nr_run r' < wd_nextRun w"
  obtains r where "r \<in> set (wd_nodeRuns w)" "row_key r = row_key r'"
proof -
  obtain new where new: "map row_key (wd_nodeRuns w') = map row_key (wd_nodeRuns w) @ new"
    "\<forall>k\<in>set new. wd_nextRun w \<le> fst (snd k)" using assms(1) by (auto simp: later_def)
  have "row_key r' \<in> set (map row_key (wd_nodeRuns w'))" using assms(2) by simp
  then have "row_key r' \<in> set (map row_key (wd_nodeRuns w)) \<or> row_key r' \<in> set new"
    unfolding new(1) by auto
  then have "row_key r' \<in> set (map row_key (wd_nodeRuns w))"
    using new(2) assms(3) by (fastforce simp: row_key_def)
  then show thesis using that by (auto simp: image_iff)
qed

lemma later_known:
  assumes "later w w'" and "known_task w t"
  shows "known_task w' t"
proof -
  obtain new where "map row_key (wd_nodeRuns w') = map row_key (wd_nodeRuns w) @ new"
    using assms(1) by (auto simp: later_def)
  from arg_cong [OF this, of set] show ?thesis using assms(2) by (auto simp: known_task_def)
qed

lemma later_parents:
  assumes "later w w'" and "run < wd_nextRun w" and "parents_in w run node h"
  shows "parents_in w' run node h"
  unfolding parents_in_def
proof
  fix r' assume r': "r' \<in> set (GetParentWorkflowNodeRuns run node w')"
  then have "nr_run r' < wd_nextRun w" using assms(2) by (simp add: in_parents)
  with r' obtain r where "r \<in> set (wd_nodeRuns w)" "row_key r = row_key r'"
    using later_rows [OF assms(1)] by (auto simp: in_parents)
  with r' assms(1) have "r \<in> set (GetParentWorkflowNodeRuns run node w)" "nr_node r = nr_node r'"
    by (auto simp: in_parents later_def row_key_def)
  then show "Succeeded run (nr_node r') \<in> set h" using assms(3) by (auto simp: parents_in_def)
qed

lemma parents_mono: "parents_in w run node h \<Longrightarrow> set h \<subseteq> set h' \<Longrightarrow> parents_in w run node h'"
  by (auto simp: parents_in_def)

lemma later_ready: "later w w' \<Longrightarrow> ready w run node \<Longrightarrow> ready w' run node"
  unfolding ready_def
  by (meson later_def later_parents order_less_le_trans parents_mono set_mono_prefix)

lemma parents_in_keys:
  "parents_in w run node h \<longleftrightarrow>
     (\<forall>k\<in>row_key ` set (wd_nodeRuns w). fst (snd k) = run \<longrightarrow>
        (\<exists>e\<in>set (wd_edges w). we_source e = snd (snd k) \<and> we_target e = node) \<longrightarrow> Succeeded run (snd (snd k)) \<in> set h)"
  unfolding parents_in_def Ball_def in_parents by (auto simp: row_key_def)

section \<open>Calls keep the invariant\<close>

text \<open>A change that keeps the keys of the rows and adds events to the history.\<close>

lemma later_update:
  assumes ok: "world_ok w"
    and keys: "map row_key (wd_nodeRuns w') = map row_key (wd_nodeRuns w)"
    and rows: "\<forall>r\<in>set (wd_nodeRuns w'). nr_retry r \<le> 3 \<and>
      (nr_status r = Success \<longrightarrow> Succeeded (nr_run r) (nr_node r) \<in> set (wd_history w'))"
    and hist: "wd_history w' = wd_history w @ evs"
    and evs: "\<forall>run node. Started run node \<in> set evs \<or> Sent run node \<in> set evs \<longrightarrow> ready w run node"
    and same: "wd_edges w' = wd_edges w" "wd_nodes w' = wd_nodes w" "wd_nextRun w' = wd_nextRun w"
      "wd_nextNodeRun w' = wd_nextNodeRun w"
  shows "later w w'"
proof -
  have ks: "row_key ` set (wd_nodeRuns w') = row_key ` set (wd_nodeRuns w)"
    using arg_cong [OF keys, of set] by simp
  have par: "parents_in w' run node h = parents_in w run node h" for run node h
    by (simp add: parents_in_keys ks same)
  have "history_ok w'"
    unfolding history_ok_def
  proof (intro allI impI)
    fix pre ev post run node
    assume h: "wd_history w' = pre @ ev # post" and ev: "ev = Started run node \<or> ev = Sent run node"
    from append_eq_split [OF h [unfolded hist]]
    show "run < wd_nextRun w' \<and> parents_in w' run node pre"
    proof (elim disjE exE conjE)
      fix post' assume "wd_history w = pre @ ev # post'"
      then show ?thesis using history_okD [of w] ok ev by (simp add: world_ok_def par same)
    next
      fix pre' assume "pre = wd_history w @ pre'" and "ev \<in> set evs"
      moreover from this have "ready w run node" using evs ev by blast
      ultimately show ?thesis by (auto simp: ready_def par same intro: parents_mono)
    qed
  qed
  moreover have "map nr_id (wd_nodeRuns w') = map nr_id (wd_nodeRuns w)"
    using arg_cong [OF keys, of "map fst"] by (simp add: row_key_def o_def)
  moreover have "\<forall>r\<in>set (wd_nodeRuns w'). nr_id r < wd_nextNodeRun w \<and> nr_run r < wd_nextRun w"
  proof
    fix r assume "r \<in> set (wd_nodeRuns w')"
    then have "row_key r \<in> row_key ` set (wd_nodeRuns w)" using ks by blast
    then show "nr_id r < wd_nextNodeRun w \<and> nr_run r < wd_nextRun w"
      using ok by (auto simp: world_ok_def row_key_def)
  qed
  ultimately show ?thesis using ok rows by (simp add: later_def world_ok_def keys hist same)
qed

lemma later_frame:
  assumes "world_ok w" and "wd_nodeRuns w' = wd_nodeRuns w" "wd_history w' = wd_history w" "wd_edges w' = wd_edges w"
    "wd_nodes w' = wd_nodes w" "wd_nextRun w' = wd_nextRun w" "wd_nextNodeRun w' = wd_nextNodeRun w"
  shows "later w w'"
  using assms by (intro later_update [where evs = "[]"]) (auto simp: world_ok_def)

lemma map_row_key_update:
  "(\<And>r. row_key (f r) = row_key r) \<Longrightarrow> map row_key (map (\<lambda>r. if nr_id r = i then f r else r) rs) = map row_key rs"
  by simp

lemma note_rows_in: "ev run node \<in> set (note_rows ev i w) \<longleftrightarrow> (\<exists>r\<in>set (wd_nodeRuns w). nr_id r = i \<and> ev run node = ev (nr_run r) (nr_node r))"
  by (auto simp: note_rows_def)

lemma later_MarkRunning:
  assumes "world_ok w" and "permitted (CMarkRunning i k) w"
  shows "later w (MarkWorkflowNodeAsRunning i k w)"
  using assms
  by (intro later_update [where evs = "note_rows Started i w"])
    (auto simp: MarkWorkflowNodeAsRunning_def map_row_key_update row_key_def note_rows_def world_ok_def)

lemma later_UpdateStatus:
  assumes "world_ok w"
  shows "later w (UpdateWorkflowNodeRunStatus i st err w)"
  using assms
  by (intro later_update [where evs = "if st = Success then note_rows Succeeded i w else []"])
    (auto simp: UpdateWorkflowNodeRunStatus_def map_row_key_update row_key_def note_rows_def world_ok_def)

lemma create_rows_keys:
  "r \<in> set (create_rows run i ns) \<Longrightarrow>
   nr_run r = run \<and> i \<le> nr_id r \<and> nr_id r < i + int (length ns) \<and> nr_retry r = 0 \<and>
   (\<exists>n\<in>set ns. nr_node r = fst n \<and> nr_status r = initial_status (snd n))"
  by (induction ns arbitrary: i) fastforce+

lemma create_rows_distinct: "distinct (map nr_id (create_rows run i ns))"
proof (induction ns arbitrary: i)
  case (Cons n ns)
  show ?case using Cons [of "i + 1"] create_rows_keys [of _ run "i + 1" ns] by fastforce
qed simp

lemma later_Create:
  assumes ok: "world_ok w" and c: "CreateWorkflowRun workflow ns w = Some (run, w')"
  shows "later w w'"
proof -
  let ?new = "create_rows run (wd_nextNodeRun w) ns"
  let ?evs = "map (\<lambda>n. Succeeded run (fst n)) (filter (\<lambda>n. snd n = ''trigger'') ns)"
  have run: "run = wd_nextRun w" and w': "wd_nodeRuns w' = wd_nodeRuns w @ ?new" "wd_history w' = wd_history w @ ?evs"
    "wd_edges w' = wd_edges w" "wd_nodes w' = wd_nodes w" "wd_nextRun w' = run + 1"
    "wd_nextNodeRun w' = wd_nextNodeRun w + int (length ns)"
    using c by (auto simp: CreateWorkflowRun_def Let_def split: if_splits)
  have old: "\<forall>r\<in>set (wd_nodeRuns w). nr_id r < wd_nextNodeRun w \<and> nr_run r < run \<and> nr_retry r \<le> 3 \<and>
      (nr_status r = Success \<longrightarrow> Succeeded (nr_run r) (nr_node r) \<in> set (wd_history w))"
    and hw: "history_ok w" and dist: "distinct (map nr_id (wd_nodeRuns w))"
    using ok by (auto simp: world_ok_def run)
  have par: "parents_in w' r n h = parents_in w r n h" if "r < run" for r n h
    unfolding parents_in_keys w' using that create_rows_keys [of _ run] by (auto simp: row_key_def)
  have "history_ok w'"
    unfolding history_ok_def
  proof (intro allI impI)
    fix pre ev post r n
    assume h: "wd_history w' = pre @ ev # post" and ev: "ev = Started r n \<or> ev = Sent r n"
    have "ev \<notin> set ?evs" using ev by auto
    then obtain post' where "wd_history w = pre @ ev # post'"
      using append_eq_split [OF h [unfolded w'(2)]] by blast
    then show "r < wd_nextRun w' \<and> parents_in w' r n pre"
      using history_okD [OF hw _ ev, of pre post'] par [of r n pre] by (simp add: w' run)
  qed
  moreover have "set (map nr_id (wd_nodeRuns w)) \<inter> set (map nr_id ?new) = {}"
    using old create_rows_keys [of _ run "wd_nextNodeRun w" ns] by fastforce
  moreover have "\<forall>r\<in>set ?new. nr_status r = Success \<longrightarrow> Succeeded run (nr_node r) \<in> set ?evs"
    using create_rows_keys [of _ run "wd_nextNodeRun w" ns] by (fastforce simp: initial_status_def split: if_splits)
  moreover have "\<forall>r\<in>set ?new. nr_run r = run \<and> nr_id r < wd_nextNodeRun w + int (length ns) \<and> nr_retry r = 0"
    using create_rows_keys [of _ run "wd_nextNodeRun w" ns] by blast
  ultimately have "world_ok w'"
    using old dist create_rows_distinct [of run "wd_nextNodeRun w" ns] by (auto simp: world_ok_def w')
  then show ?thesis
    using create_rows_keys [of _ run "wd_nextNodeRun w" ns] unfolding later_def w' by (auto simp: run row_key_def)
qed

lemma perform_later:
  assumes ok: "world_ok w" and p: "permitted c w"
  shows "later w (snd (perform_call c w))"
proof (cases c)
  case (CCreateWorkflowRun workflow ns)
  then show ?thesis using ok later_Create [OF ok] by (auto simp: later_refl split: option.splits)
next
  case (CMarkRunning i k)
  then show ?thesis using later_MarkRunning [OF ok] p by simp
next
  case (CUpdateStatus i st err)
  then show ?thesis using later_UpdateStatus [OF ok] by simp
next
  case (CSendEmail run node user config)
  then show ?thesis using ok p by (intro later_update [where evs = "[Sent run node]"]) (auto simp: world_ok_def)
qed (use ok in \<open>auto intro!: later_frame simp: CompleteWorkflowRun_def Publish_def PublishNodeStatusUpdate_def
    InitializeRunningNodeSet_def TryAcquireWorkflowRunFinalizationLock_def MarkNodeCompleteAndCountRemaining_def
    Let_def split: option.splits\<close>)

lemma attempt_later: "world_ok w \<Longrightarrow> permitted c w \<Longrightarrow> later w (snd (attempt f c w))"
  by (cases f) (simp_all add: perform_later later_refl)

section \<open>Programs under interference\<close>

primrec wp :: "'a prog \<Rightarrow> ('a \<Rightarrow> world \<Rightarrow> bool) \<Rightarrow> world \<Rightarrow> bool" where
  "wp (Ret x) Q w \<longleftrightarrow> Q x w"
| "wp (Call c k) Q w \<longleftrightarrow>
     (\<forall>w'. later w w' \<longrightarrow> permitted c w' \<and> (\<forall>f. wp (k (fst (attempt f c w'))) Q (snd (attempt f c w'))))"

abbreviation safe :: "'a prog \<Rightarrow> world \<Rightarrow> bool" where
  "safe p w \<equiv> wp p (\<lambda>_ _. True) w"

lemma safe_later: "later w w' \<Longrightarrow> safe p w \<Longrightarrow> safe p w'"
  by (cases p) (auto intro: later_trans)

lemma wp_bindp: "wp p (\<lambda>x w. wp (f x) Q w) w \<Longrightarrow> wp (bindp p f) Q w"
  by (induction p arbitrary: w) auto

lemma wp_mono: "wp p Q w \<Longrightarrow> (\<And>x w. Q x w \<Longrightarrow> Q' x w) \<Longrightarrow> wp p Q' w"
  by (induction p arbitrary: w) auto

text \<open>A call is safe when it is permitted, and the program goes on safely from what it may be answered.\<close>

lemma wp_CallI:
  assumes perm: "\<And>w'. later w w' \<Longrightarrow> permitted c w'"
    and ans: "\<And>w' w''. later w w' \<Longrightarrow> later w' w'' \<Longrightarrow> world_ok w' \<Longrightarrow> wp (k (fst (perform_call c w'))) Q w''"
    and err: "\<And>w'. later w w' \<Longrightarrow> wp (k RErr) Q w'"
  shows "wp (Call c k) Q w"
proof -
  have "wp (k (fst (attempt f c w'))) Q (snd (attempt f c w'))" if w': "later w w'" for f w'
  proof -
    have "later w' (snd (perform_call c w'))" using w' perm by (auto intro: perform_later dest: later_ok)
    then show ?thesis
      using ans [OF w'] err w' by (cases f) (auto intro: later_trans dest: later_ok)
  qed
  then show ?thesis using perm by simp
qed

declare wp.simps(2) [simp del]

text \<open>Calls that read, and calls whose answer does not matter.\<close>

lemma wp_skipI:
  assumes "\<And>w'. permitted c w'" and "\<And>r w'. later w w' \<Longrightarrow> wp (k r) Q w'"
  shows "wp (Call c k) Q w"
  by (rule wp_CallI) (auto intro: assms later_trans)

section \<open>The services make only permitted calls\<close>

lemma known_row:
  "r \<in> set (wd_nodeRuns w) \<Longrightarrow> known_task w (BuildWorkflowNodeTaskPayload u wid (nr_run r) (nr_node r) (nr_id r))"
  by (force simp: known_task_def BuildWorkflowNodeTaskPayload_def row_key_def)

lemmas known_row_later = later_known [OF _ known_row]

lemma GetWorkflowNodeRun_Some:
  "GetWorkflowNodeRun run node w = Some r \<Longrightarrow> r \<in> set (wd_nodeRuns w) \<and> nr_run r = run \<and> nr_node r = node"
  unfolding GetWorkflowNodeRun_def by (drule find_Some_iff2) auto

lemma safe_publish:
  "known_task w t \<Longrightarrow> (\<And>r w'. later w w' \<Longrightarrow> safe (k r) w') \<Longrightarrow> safe (Call (CPublish t) k) w"
  by (rule wp_CallI) (auto intro: later_known later_trans)

lemma safe_EnqueueNode: "safe (EnqueueNode u wid run node) w"
  unfolding EnqueueNode_def
  by (rule wp_CallI)
    (auto split: option.splits intro!: safe_publish intro: known_row_later dest!: GetWorkflowNodeRun_Some)

lemma safe_publish_all: "\<forall>t\<in>set ts. known_task w t \<Longrightarrow> safe (publish_all ts) w"
proof (induction ts arbitrary: w)
  case (Cons t ts)
  have "safe (publish_all ts) w'" if "later w w'" for w'
    by (rule Cons.IH) (use Cons.prems later_known [OF that] in auto)
  then show ?case using Cons.prems by (auto intro: safe_publish)
qed simp

lemma safe_EnqueueChildNodes: "safe (EnqueueChildNodes u wid node run) w"
  unfolding EnqueueChildNodes_def
  by (rule wp_CallI)
    (auto intro!: safe_publish_all intro: known_row_later simp: in_children)

lemma safe_bind_any: "safe p w \<Longrightarrow> (\<And>x w'. safe (f x) w') \<Longrightarrow> safe (bindp p f) w"
  by (rule wp_bindp) (auto intro: wp_mono)

lemma safe_start_roots: "safe (start_roots u wid run ps) w"
proof (induction ps arbitrary: w)
  case (Cons p ps)
  then show ?case
    by (auto intro!: safe_bind_any safe_EnqueueChildNodes safe_EnqueueNode wp_skipI split: sum.splits)
qed simp

lemma safe_Orchestrate: "safe (OrchestrateWorkflow validate u wid) w"
  unfolding OrchestrateWorkflow_def Let_def
  by (intro wp_skipI) (auto intro!: wp_skipI safe_start_roots split: reply.splits option.splits)

lemma safe_shouldFinalize: "safe (shouldFinalizeWorkflowRun t) w"
  unfolding shouldFinalizeWorkflowRun_def reinitializeRunningNodeSet_def
  by (intro wp_skipI) (auto intro!: wp_skipI split: reply.splits bool.splits)

lemma safe_finalize: "safe (finalizeWorkflowRun t) w"
  unfolding finalizeWorkflowRun_def
  by (intro wp_skipI) (auto intro!: wp_skipI split: reply.splits)

lemma safe_after_task: "safe (after_task t) w"
  unfolding after_task_def
  by (auto intro!: safe_bind_any safe_EnqueueChildNodes safe_shouldFinalize safe_finalize split: sum.splits)

lemma safe_record_outcome: "safe (record_outcome t out) w"
  unfolding record_outcome_def
  by (auto intro!: wp_skipI split: sum.splits)

lemma wp_shouldSkip:
  "wp (shouldSkipNodeTaskExecution t)
     (\<lambda>r w'. \<forall>t'. r = Inr (False, t') \<longrightarrow> t_retry t' < 3 \<and> (\<exists>k. t' = t\<lparr>t_retry := k\<rparr>) \<and> later w w') w"
  unfolding shouldSkipNodeTaskExecution_def
  by (rule wp_CallI)
    (auto split: option.splits dest!: GetWorkflowNodeRun_Some intro: later_trans simp: world_ok_def le_less)

lemma safe_Execute_action: "ready w (t_run t) (t_node t) \<Longrightarrow> safe (ActionRegistry_Execute t n) w"
  unfolding ActionRegistry_Execute_def by (auto intro!: wp_CallI intro: later_ready)

lemma permitted_MarkRunning:
  assumes "world_ok w" "known_task w t" "ready w (t_run t) (t_node t)" "k \<le> 3"
  shows "permitted (CMarkRunning (t_nodeRun t) k) w"
proof -
  obtain r where r: "r \<in> set (wd_nodeRuns w)" "nr_id r = t_nodeRun t" "nr_run r = t_run t" "nr_node r = t_node t"
    using assms(2) by (auto simp: known_task_def row_key_def)
  have "r' = r" if "r' \<in> set (wd_nodeRuns w)" "nr_id r' = t_nodeRun t" for r'
    using r that assms(1) inj_onD [of nr_id "set (wd_nodeRuns w)"] by (simp add: world_ok_def distinct_map)
  then have "ready w (nr_run r') (nr_node r')" if "r' \<in> set (wd_nodeRuns w)" "nr_id r' = t_nodeRun t" for r'
    using that r assms(3) by metis
  then show ?thesis using assms(4) by simp
qed

lemma safe_runTask:
  assumes "known_task w t" "ready w (t_run t) (t_node t)" "t_retry t < 3"
  shows "safe (runWorkflowNodeTask t) w"
proof -
  let ?t = "t\<lparr>t_retry := Suc (t_retry t)\<rparr>"
  have action: "safe (bindp (ActionRegistry_Execute ?t n) (record_outcome ?t)) w'" if "later w w'" for n w'
    by (rule safe_bind_any [OF safe_Execute_action safe_record_outcome]) (use assms(2) that later_ready in auto)
  have "safe (Call (CMarkRunning (t_nodeRun ?t) (t_retry ?t)) (\<lambda>r.
      if r = RErr then Ret (Inl ''failed to mark node run as running'')
      else Call (CPublishUpdate (t_run ?t) (t_node ?t) Running) (\<lambda>_. bindp (ActionRegistry_Execute ?t n) (record_outcome ?t)))) w'"
    if w': "later w w'" for n w'
  proof (rule wp_CallI)
    fix w'' assume "later w' w''"
    then have "later w w''" using w' later_trans by blast
    then show "permitted (CMarkRunning (t_nodeRun ?t) (t_retry ?t)) w''"
      using permitted_MarkRunning [of w'' t "Suc (t_retry t)"] assms later_ok later_known later_ready by simp
  qed (use w' in \<open>auto intro!: wp_skipI action intro: later_trans\<close>)
  then show ?thesis
    unfolding runWorkflowNodeTask_def Let_def by (intro wp_skipI) (simp_all split: reply.splits)
qed

text \<open>When all parents are read as successful, the node is ready.\<close>

lemma parents_read:
  assumes "world_ok w" "run < wd_nextRun w" "\<forall>p\<in>set (GetParentWorkflowNodeRuns run node w). nr_status p = Success"
  shows "ready w run node"
  using assms by (auto simp: ready_def parents_in_def world_ok_def in_parents)

lemma safe_ExecuteWorkflowNode:
  assumes "known_task w t"
  shows "safe (ExecuteWorkflowNode t) w"
proof -
  let ?rest = "bindp (shouldSkipNodeTaskExecution t) (\<lambda>r. case r of
           Inl e \<Rightarrow> Ret (Inl e)
         | Inr (skip, t') \<Rightarrow>
             if skip then after_task t'
             else bindp (runWorkflowNodeTask t') (\<lambda>r. case r of Inl e \<Rightarrow> Ret (Inl e) | Inr t'' \<Rightarrow> after_task t''))"
  have rest: "safe ?rest w'" if w': "later w w'" and rdy: "ready w' (t_run t) (t_node t)" for w'
  proof (rule wp_bindp, rule wp_mono [OF wp_shouldSkip])
    fix r :: "string + bool \<times> task" and w'' assume r: "\<forall>t'. r = Inr (False, t') \<longrightarrow> t_retry t' < 3 \<and> (\<exists>k. t' = t\<lparr>t_retry := k\<rparr>) \<and> later w' w''"
    have "safe (runWorkflowNodeTask t') w''" if "r = Inr (False, t')" for t'
    proof (rule safe_runTask)
      show "known_task w'' t'"
        using r that later_known [of w' w'' t] later_known [OF w' assms] by auto
      show "ready w'' (t_run t') (t_node t')" using r that later_ready [OF _ rdy] by auto
      show "t_retry t' < 3" using r that by blast
    qed
    then show "safe (case r of Inl e \<Rightarrow> Ret (Inl e) | Inr (skip, t') \<Rightarrow>
        if skip then after_task t'
        else bindp (runWorkflowNodeTask t') (\<lambda>r. case r of Inl e \<Rightarrow> Ret (Inl e) | Inr t'' \<Rightarrow> after_task t'')) w''"
      by (auto intro!: safe_after_task safe_bind_any split: sum.splits)
  qed
  have run: "t_run t < wd_nextRun w'" if "later w w'" for w'
    using later_known [OF that assms] later_ok [OF that] by (auto simp: known_task_def row_key_def world_ok_def)
  show ?thesis
    unfolding ExecuteWorkflowNode_def
    by (rule wp_CallI)
      (auto intro!: rest intro: later_trans later_ready parents_read run)
qed

section \<open>The system\<close>

fun job_ok :: "job \<Rightarrow> world \<Rightarrow> bool" where
  "job_ok (Request p) w \<longleftrightarrow> safe p w"
| "job_ok (Delivery m p) w \<longleftrightarrow> known_task w (m_task m) \<and> safe p w"

definition engine_ok :: "wf_edge list \<Rightarrow> engine \<Rightarrow> bool" where
  "engine_ok edges s \<longleftrightarrow>
     world_ok (en_world s) \<and> wd_edges (en_world s) = edges \<and>
     (\<forall>j\<in>set (en_jobs s). job_ok j (en_world s)) \<and>
     (\<forall>m\<in>set (wd_queue (en_world s)). known_task (en_world s) (m_task m))"

lemma job_later: "later w w' \<Longrightarrow> job_ok j w \<Longrightarrow> job_ok j w'"
  by (cases j) (auto intro: safe_later later_known)

lemma perform_call_queue:
  "permitted c w \<Longrightarrow> m \<in> set (wd_queue (snd (perform_call c w))) \<Longrightarrow> m \<in> set (wd_queue w) \<or> known_task w (m_task m)"
  by (cases c) (auto simp: CompleteWorkflowRun_def Publish_def PublishNodeStatusUpdate_def CreateWorkflowRun_def
      MarkWorkflowNodeAsRunning_def UpdateWorkflowNodeRunStatus_def InitializeRunningNodeSet_def Let_def
      TryAcquireWorkflowRunFinalizationLock_def MarkNodeCompleteAndCountRemaining_def split: option.splits if_splits)

lemma attempt_queue:
  "permitted c w \<Longrightarrow> m \<in> set (wd_queue (snd (attempt f c w))) \<Longrightarrow> m \<in> set (wd_queue w) \<or> known_task w (m_task m)"
  by (cases f) (auto dest: perform_call_queue)

lemma safe_call:
  assumes "world_ok w" and "safe (Call c k) w"
  shows "permitted c w" and "safe (k (fst (attempt f c w))) (snd (attempt f c w))"
  using assms later_refl [OF assms(1)] by (auto simp: wp.simps(2))

lemma set_drop_nth: "set (drop_nth i xs) \<subseteq> set xs"
  using set_take_subset [of i xs] set_drop_subset [of "Suc i" xs] by (auto simp: drop_nth_def)

lemma handleFailed_fields:
  "wd_nodeRuns (handleFailedMessage f m w) = wd_nodeRuns w" "wd_history (handleFailedMessage f m w) = wd_history w"
  "wd_edges (handleFailedMessage f m w) = wd_edges w" "wd_nodes (handleFailedMessage f m w) = wd_nodes w"
  "wd_nextRun (handleFailedMessage f m w) = wd_nextRun w" "wd_nextNodeRun (handleFailedMessage f m w) = wd_nextNodeRun w"
  "\<forall>m'\<in>set (wd_queue (handleFailedMessage f m w)). m' \<in> set (wd_queue w) \<or> m_task m' = m_task m"
  by (cases f; simp add: handleFailedMessage_def Let_def)+

lemma advance_later:
  assumes "world_ok w" and "job_ok j w" and "advance_job f j w = (j', w')"
  shows "later w w' \<and> (\<forall>j''. j' = Some j'' \<longrightarrow> job_ok j'' w') \<and>
    (\<forall>m\<in>set (wd_queue w'). m \<in> set (wd_queue w) \<or> known_task w (m_task m))"
proof (cases j)
  case (Request p)
  show ?thesis
  proof (cases p)
    case (Call c k)
    have s: "safe (Call c k) w" using assms(2) by (simp add: Request Call)
    note sc = safe_call [OF assms(1) s]
    show ?thesis
      using assms(3) sc(1) sc(2) [of f] attempt_later [OF assms(1) sc(1), of f] attempt_queue [OF sc(1), of _ f]
      by (auto simp: Request Call advance_job_def)
  qed (use assms in \<open>auto simp: Request advance_job_def later_refl\<close>)
next
  case (Delivery m p)
  show ?thesis
  proof (cases p)
    case (Ret x)
    have "later w (handleFailedMessage f m w)"
      by (rule later_frame) (simp_all add: assms(1) handleFailed_fields)
    then show ?thesis
      using assms handleFailed_fields(7) [of f m w]
      by (cases x) (auto simp: Delivery Ret advance_job_def later_refl)
  next
    case (Call c k)
    have s: "safe (Call c k) w" using assms(2) by (simp add: Delivery Call)
    note sc = safe_call [OF assms(1) s]
    show ?thesis
      using assms sc(1) sc(2) [of f] attempt_later [OF assms(1) sc(1), of f] attempt_queue [OF sc(1), of _ f]
      by (auto simp: Delivery Call advance_job_def intro: later_known)
  qed
qed

text \<open>A change of the world after which the jobs are a part of those before, and messages are known.\<close>

lemma engine_ok_later:
  assumes "engine_ok edges s" and "later (en_world s) (en_world s')"
    and "\<And>j. j \<in> set (en_jobs s') \<Longrightarrow> j \<in> set (en_jobs s) \<or> job_ok j (en_world s')"
    and "\<And>m. m \<in> set (wd_queue (en_world s')) \<Longrightarrow> m \<in> set (wd_queue (en_world s)) \<or> known_task (en_world s) (m_task m)"
  shows "engine_ok edges s'"
  unfolding engine_ok_def
proof (intro conjI ballI)
  show "world_ok (en_world s')" using assms(2) by (rule later_ok)
  show "wd_edges (en_world s') = edges" using assms(1,2) by (simp add: engine_ok_def later_def)
next
  fix j assume "j \<in> set (en_jobs s')"
  then show "job_ok j (en_world s')" using assms(1,2,3) job_later [OF assms(2)] unfolding engine_ok_def by blast
next
  fix m assume "m \<in> set (wd_queue (en_world s'))"
  then show "known_task (en_world s') (m_task m)" using assms(1,2,4) later_known [OF assms(2)] unfolding engine_ok_def by blast
qed

lemma engine_step_ok:
  assumes ok: "engine_ok edges s"
  shows "engine_ok edges (engine_step validate ev s)"
proof -
  have w: "world_ok (en_world s)" and jobs: "\<forall>j\<in>set (en_jobs s). job_ok j (en_world s)"
    and known: "\<forall>m\<in>set (wd_queue (en_world s)). known_task (en_world s) (m_task m)"
    using ok by (auto simp: engine_ok_def)
  show ?thesis
  proof (cases ev)
    case (RunRequest u wid)
    then show ?thesis using ok by (intro engine_ok_later [OF ok]) (auto simp: later_refl w safe_Orchestrate)
  next
    case (Deliver i)
    show ?thesis
    proof (cases "i < length (wd_queue (en_world s))")
      case True
      let ?m = "wd_queue (en_world s) ! i" and ?w = "(en_world s)\<lparr>wd_queue := drop_nth i (wd_queue (en_world s))\<rparr>"
      have l: "later (en_world s) ?w" by (rule later_frame) (simp_all add: w)
      have "known_task ?w (m_task ?m)" using known True by (auto intro!: later_known [OF l])
      then show ?thesis
        using True set_drop_nth [of i "wd_queue (en_world s)"] l
        by (intro engine_ok_later [OF ok]) (auto simp: Deliver Let_def safe_ExecuteWorkflowNode)
    qed (use ok Deliver in simp)
  next
    case (Advance i f)
    show ?thesis
    proof (cases "i < length (en_jobs s)")
      case True
      obtain j' w' where a: "advance_job f (en_jobs s ! i) (en_world s) = (j', w')" by fastforce
      have "job_ok (en_jobs s ! i) (en_world s)" using jobs True by simp
      note al = advance_later [OF w this a]
      show ?thesis
        using True al set_drop_nth [of i "en_jobs s"] set_update_subset_insert [of "en_jobs s" i]
        by (intro engine_ok_later [OF ok]) (fastforce simp: Advance a split: option.splits)+
    qed (use ok Advance in simp)
  next
    case (Crash i)
    show ?thesis
    proof (cases "i < length (en_jobs s)")
      case True
      then have j: "job_ok (en_jobs s ! i) (en_world s)" using jobs by simp
      show ?thesis
        using True j set_drop_nth [of i "en_jobs s"] w
        by (intro engine_ok_later [OF ok]) (auto simp: Crash later_refl intro!: later_frame split: job.splits)
    qed (use ok Crash in simp)
  qed (use w in \<open>auto intro!: engine_ok_later [OF ok] later_frame\<close>)
qed

interpretation run_engine: machine "idle_engine nodes edges" "engine_step validate" "engine_ok edges" for validate nodes edges
proof
  show "engine_ok edges (idle_engine nodes edges)"
    by (simp add: idle_engine_def idle_world_def engine_ok_def world_ok_def history_ok_def)
qed (rule engine_step_ok)

section \<open>Every interleaving\<close>

text \<open>Claim C7: However requests and workers interleave, calls fail, workers die and keys expire, a node is started, and its e-mail is
  sent, only after each node with an edge into it that belongs to the run has succeeded.\<close>

theorem parents_succeed_first:
  assumes "s = fold (engine_step validate) evs (idle_engine nodes edges)"
    and "wd_history (en_world s) = pre @ ev # post" and "ev = Started run node \<or> ev = Sent run node"
    and "e \<in> set edges" and "we_target e = node" and "GetWorkflowNodeRun run (we_source e) (en_world s) \<noteq> None"
  shows "Succeeded run (we_source e) \<in> set pre"
proof -
  have ok: "engine_ok edges s" using run_engine.inv_run [of edges validate evs nodes] assms(1) by simp
  then have p: "parents_in (en_world s) run node pre" and es: "wd_edges (en_world s) = edges"
    using history_okD [OF _ assms(2,3)] by (auto simp: engine_ok_def world_ok_def)
  obtain r where r: "r \<in> set (wd_nodeRuns (en_world s))" "nr_run r = run" "nr_node r = we_source e"
    using assms(6) by (auto simp: GetWorkflowNodeRun_def find_Some_iff dest: nth_mem)
  then have "r \<in> set (GetParentWorkflowNodeRuns run node (en_world s))" using assms(4,5) es by (auto simp: in_parents)
  then show ?thesis using p r(3) by (auto simp: parents_in_def)
qed

text \<open>A workflow of two nodes: the trigger 1 and the e-mail 2.\<close>

definition sample_node :: "int \<Rightarrow> string \<Rightarrow> string \<Rightarrow> wf_node" where
  "sample_node i category typ = \<lparr>nd_id = i, nd_workflow = 7, nd_category = category, nd_type = typ, nd_config = ''''\<rparr>"

definition sample_edge :: "int \<Rightarrow> int \<Rightarrow> wf_edge" where
  "sample_edge a b = \<lparr>we_workflow = 7, we_source = a, we_target = b\<rparr>"

definition mail_after_trigger :: engine where
  "mail_after_trigger = idle_engine [sample_node 1 ''trigger'' ''schedule'', sample_node 2 ''action'' ''send_email''] [sample_edge 1 2]"

definition mail_events :: "engine_event list" where
  "mail_events = RunRequest ''u'' 7 # replicate 7 (Advance 0 Fine) @ Deliver 0 # replicate 4 (Advance 0 Fine)"

lemma mail_run:
  "wd_history (en_world (fold (engine_step (\<lambda>_ _. None)) mail_events mail_after_trigger)) = [Succeeded 1 1] @ Started 1 2 # []"
  "GetWorkflowNodeRun 1 1 (en_world (fold (engine_step (\<lambda>_ _. None)) mail_events mail_after_trigger)) \<noteq> None"
  by code_simp+

theorem parents_succeed_first_witness:
  "wd_history (en_world (fold (engine_step (\<lambda>_ _. None)) mail_events mail_after_trigger)) = [Succeeded 1 1] @ Started 1 2 # [] \<and>
   Succeeded 1 1 \<in> set [Succeeded 1 1]"
  using parents_succeed_first [OF refl mail_run(1) [unfolded mail_after_trigger_def], of 1 2 "sample_edge 1 2"] mail_run
  by (simp add: sample_edge_def mail_after_trigger_def)

text \<open>The counter of a node never exceeds three, whatever happens.\<close>

lemma attempts_bounded:
  assumes "s = fold (engine_step validate) evs (idle_engine nodes edges)" and "GetWorkflowNodeRun run node (en_world s) = Some r"
  shows "nr_retry r \<le> 3"
  using run_engine.inv_run [of edges validate evs nodes] assms
  by (auto simp: engine_ok_def world_ok_def GetWorkflowNodeRun_def find_Some_iff dest: nth_mem)

lemma attempts_bounded_example:
  "map_option nr_retry (GetWorkflowNodeRun 1 2 (en_world (fold (engine_step (\<lambda>_ _. None)) mail_events mail_after_trigger))) = Some 1 \<and>
   (1::nat) \<le> 3"
proof -
  have 1: "map_option nr_retry (GetWorkflowNodeRun 1 2 (en_world (fold (engine_step (\<lambda>_ _. None)) mail_events mail_after_trigger))) = Some 1"
    by code_simp
  then obtain r where r: "GetWorkflowNodeRun 1 2 (en_world (fold (engine_step (\<lambda>_ _. None)) mail_events mail_after_trigger)) = Some r"
    "nr_retry r = 1" by auto
  show ?thesis using 1 attempts_bounded [OF refl r(1) [unfolded mail_after_trigger_def]] r(2) by simp
qed

text \<open>Two triggers with the same child put it into the queue twice. When the two messages are handled at the same
  time the e-mail is sent twice.\<close>

lemma email_sent_twice:
  "wd_history (en_world (fold (engine_step (\<lambda>_ _. None))
     (RunRequest ''u'' 7 # replicate 10 (Advance 0 Fine) @ [Deliver 0, Deliver 0] @ replicate 2 (Advance 0 Fine) @
      replicate 2 (Advance 1 Fine) @ replicate 6 (Advance 0 Fine) @ replicate 6 (Advance 1 Fine))
     (idle_engine [sample_node 1 ''trigger'' ''schedule'', sample_node 2 ''trigger'' ''schedule'', sample_node 3 ''action'' ''send_email'']
        [sample_edge 1 3, sample_edge 2 3]))) =
   [Succeeded 1 1, Succeeded 1 2, Started 1 3, Sent 1 3, Succeeded 1 3, Started 1 3, Sent 1 3, Succeeded 1 3]"
  by code_simp

definition early_world :: world where
  "early_world = en_world (fold (engine_step (\<lambda>_ _. None))
     (RunRequest ''u'' 7 # replicate 8 (Advance 0 Fine) @ [Deliver 0] @ replicate 12 (Advance 0 Fine) @
      [Deliver 1] @ replicate 13 (Advance 0 Fine))
     (idle_engine [sample_node 1 ''action'' ''wait'', sample_node 2 ''action'' ''wait'', sample_node 3 ''action'' ''wait'']
        [sample_edge 1 3]))"

text \<open>A run of a workflow with two actions at its start, one of which leads to a third, is marked as successful while
  the other is pending and its message is in the queue.\<close>

lemma run_succeeds_early:
  "map rr_status (wd_runs early_world) = [RunSuccess] \<and> map_option nr_status (GetWorkflowNodeRun 1 2 early_world) = Some Pending \<and>
   map (t_node \<circ> m_task) (wd_queue early_world) = [2]"
  by code_simp

end
