(* ===== verification/Run_Progress.thy ===== *)
theory Run_Progress
  imports Run_Engine "HOL-Library.Multiset"
begin

text \<open>
  One run seen from outside: the status and the number of attempts of its nodes, its messages in the queue, the set in
  Redis and the status of the run. \<open>handle\<close> delivers a message and runs its handler to the end, without faults other
  than that of the action; \<open>advance\<close> is what this does to the run that the message belongs to, and \<open>handle_refines\<close> shows
  that it is this and nothing else.
\<close>

section \<open>Handlers that run undisturbed\<close>

definition quiet :: "fault \<Rightarrow> op \<Rightarrow> fault" where
  "quiet f c = (case c of CSendEmail _ _ _ _ \<Rightarrow> f | _ \<Rightarrow> Fine)"

definition handle :: "nat \<Rightarrow> fault \<Rightarrow> world \<Rightarrow> world" where
  "handle i f w =
     (if i < length (wd_queue w)
      then let m = wd_queue w ! i
           in case exec (quiet f) (ExecuteWorkflowNode (m_task m)) (w\<lparr>wd_queue := drop_nth i (wd_queue w)\<rparr>) of
                (Inl _, w') \<Rightarrow> handleFailedMessage Fine m w'
              | (Inr _, w') \<Rightarrow> w'
      else w)"

text \<open>The system of requests and workers does the same in a sequence of steps.\<close>

lemma program_by_steps:
  "\<exists>evs. fold (engine_step validate) evs \<lparr>en_world = w, en_jobs = [Delivery m p]\<rparr> =
     \<lparr>en_world = snd (exec F p w), en_jobs = [Delivery m (Ret (fst (exec F p w)))]\<rparr>"
proof (induction p arbitrary: w)
  case (Call c k)
  let ?r = "fst (attempt (F c) c w)" and ?w = "snd (attempt (F c) c w)"
  obtain evs where evs: "fold (engine_step validate) evs \<lparr>en_world = ?w, en_jobs = [Delivery m (k ?r)]\<rparr> =
     \<lparr>en_world = snd (exec F (k ?r) ?w), en_jobs = [Delivery m (Ret (fst (exec F (k ?r) ?w)))]\<rparr>"
    using Call.IH [of "k ?r" ?w] by blast
  have "engine_step validate (Advance 0 (F c)) \<lparr>en_world = w, en_jobs = [Delivery m (Call c k)]\<rparr> =
     \<lparr>en_world = ?w, en_jobs = [Delivery m (k ?r)]\<rparr>"
    by (simp add: advance_job_def)
  with evs show ?case by (intro exI [of _ "Advance 0 (F c) # evs"]) simp
qed (auto intro: exI [of _ "[]"])

lemma handle_by_steps:
  "\<exists>evs. fold (engine_step validate) evs \<lparr>en_world = w, en_jobs = []\<rparr> = \<lparr>en_world = handle i f w, en_jobs = []\<rparr>"
proof (cases "i < length (wd_queue w)")
  case True
  let ?m = "wd_queue w ! i" and ?w = "w\<lparr>wd_queue := drop_nth i (wd_queue w)\<rparr>"
  let ?p = "ExecuteWorkflowNode (m_task ?m)"
  obtain evs where evs: "fold (engine_step validate) evs \<lparr>en_world = ?w, en_jobs = [Delivery ?m ?p]\<rparr> =
     \<lparr>en_world = snd (exec (quiet f) ?p ?w), en_jobs = [Delivery ?m (Ret (fst (exec (quiet f) ?p ?w)))]\<rparr>"
    using program_by_steps by blast
  have "engine_step validate (Advance 0 Fine)
      \<lparr>en_world = snd (exec (quiet f) ?p ?w), en_jobs = [Delivery ?m (Ret (fst (exec (quiet f) ?p ?w)))]\<rparr> =
    \<lparr>en_world = handle i f w, en_jobs = []\<rparr>"
    using True by (auto simp: handle_def advance_job_def Let_def drop_nth_def split: prod.splits sum.splits)
  then show ?thesis
    using evs True by (intro exI [of _ "Deliver i # evs @ [Advance 0 Fine]"]) (simp add: Let_def)
qed (auto simp: handle_def intro: exI [of _ "[]"])

section \<open>The progress of a run\<close>

record progress =
  pg_status :: "int \<Rightarrow> node_state option"
  pg_tries :: "int \<Rightarrow> nat"
  pg_msgs :: "(int \<times> nat) multiset"
  pg_open :: "int set option"
  pg_result :: "run_status option"

definition retries :: "message \<Rightarrow> nat" where
  "retries m = (case m_retry m of None \<Rightarrow> 0 | Some c \<Rightarrow> c)"

definition run_msgs :: "int \<Rightarrow> message list \<Rightarrow> (int \<times> nat) multiset" where
  "run_msgs run ms = mset (map (\<lambda>m. (t_node (m_task m), retries m)) (filter (\<lambda>m. t_run (m_task m) = run) ms))"

definition progress_of :: "int \<Rightarrow> world \<Rightarrow> progress" where
  "progress_of run w =
     \<lparr>pg_status = (\<lambda>n. map_option nr_status (GetWorkflowNodeRun run n w)),
      pg_tries = (\<lambda>n. case GetWorkflowNodeRun run n w of None \<Rightarrow> 0 | Some r \<Rightarrow> nr_retry r),
      pg_msgs = run_msgs run (wd_queue w),
      pg_open = wd_sets w run,
      pg_result = map_option rr_status (List.find (\<lambda>r. rr_id r = run) (wd_runs w))\<rparr>"

definition parents_of :: "int \<Rightarrow> world \<Rightarrow> int \<Rightarrow> int set" where
  "parents_of run w n = nr_node ` set (GetParentWorkflowNodeRuns run n w)"

definition children_of :: "int \<Rightarrow> world \<Rightarrow> int \<Rightarrow> int list" where
  "children_of run w n = map nr_node (GetChildWorkflowNodeRuns run n w)"

definition result_of :: "progress \<Rightarrow> run_status" where
  "result_of p = (if \<exists>n. pg_status p n = Some Failed then RunFailed else RunSuccess)"

text \<open>The end of a handler: children that wait are published, the node leaves the set, and the run is completed when
  the set is empty. Without a set the nodes that wait are counted, and the set is made anew unless another worker
  holds the lock.\<close>

definition finish :: "(int \<Rightarrow> int list) \<Rightarrow> bool \<Rightarrow> int \<Rightarrow> progress \<Rightarrow> progress" where
  "finish kids locked n p0 =
     (let p = p0\<lparr>pg_msgs := pg_msgs p0 + mset (map (\<lambda>c. (c, 0)) (filter (\<lambda>c. pg_status p0 c = Some Pending) (kids n)))\<rparr>
      in case pg_open p of
           None \<Rightarrow>
             (let waiting = {m. pg_status p m = Some Pending}
              in if waiting = {} then p\<lparr>pg_result := map_option (\<lambda>_. result_of p) (pg_result p)\<rparr>
                 else if locked then p else p\<lparr>pg_open := Some waiting\<rparr>)
         | Some S \<Rightarrow>
             if S - {n} = {} then p\<lparr>pg_open := None, pg_result := map_option (\<lambda>_. result_of p) (pg_result p)\<rparr>
             else p\<lparr>pg_open := Some (S - {n})\<rparr>)"

definition advance :: "(int \<Rightarrow> int set) \<Rightarrow> (int \<Rightarrow> int list) \<Rightarrow> bool \<Rightarrow> bool \<Rightarrow> int \<Rightarrow> nat \<Rightarrow> progress \<Rightarrow> progress" where
  "advance pars kids locked ok n h p0 =
     (let p = p0\<lparr>pg_msgs := pg_msgs p0 - {#(n, h)#}\<rparr>;
          k = Suc (pg_tries p n);
          tried = (\<lambda>s. p\<lparr>pg_status := (pg_status p)(n \<mapsto> s), pg_tries := (pg_tries p)(n := k)\<rparr>)
      in if \<exists>q\<in>pars n. pg_status p q \<noteq> Some Success then p
         else if pg_status p n = Some Success \<or> pg_tries p n = 3 then finish kids locked n p
         else if ok then finish kids locked n (tried Success)
         else (tried Failed)\<lparr>pg_result := (if k = 3 then map_option (\<lambda>_. RunFailed) (pg_result p) else pg_result p),
                pg_msgs := pg_msgs p + (if h < maxRetries then {#(n, Suc h)#} else {#})\<rparr>)"

section \<open>Reading and changing rows\<close>

definition node_key :: "node_run \<Rightarrow> int \<times> int" where
  "node_key r = (nr_run r, nr_node r)"

definition tables_ok :: "world \<Rightarrow> bool" where
  "tables_ok w \<longleftrightarrow>
     distinct (map nr_id (wd_nodeRuns w)) \<and> distinct (map node_key (wd_nodeRuns w)) \<and>
     (\<forall>run S. wd_sets w run = Some S \<longrightarrow> finite S)"

definition task_row :: "world \<Rightarrow> task \<Rightarrow> bool" where
  "task_row w t \<longleftrightarrow> (\<exists>r\<in>set (wd_nodeRuns w). nr_id r = t_nodeRun t \<and> nr_run r = t_run t \<and> nr_node r = t_node t) \<and>
     GetWorkflowNode (t_node t) w \<noteq> None"

lemma row_iff:
  assumes "tables_ok w"
  shows "GetWorkflowNodeRun run n w = Some r \<longleftrightarrow> r \<in> set (wd_nodeRuns w) \<and> nr_run r = run \<and> nr_node r = n"
proof
  assume "r \<in> set (wd_nodeRuns w) \<and> nr_run r = run \<and> nr_node r = n"
  then show "GetWorkflowNodeRun run n w = Some r"
    using assms find_distinct_key [of node_key "wd_nodeRuns w" r]
    by (auto simp: tables_ok_def GetWorkflowNodeRun_def node_key_def)
qed (auto simp: GetWorkflowNodeRun_def dest!: find_Some_iff2)

lemma find_map_key: "(\<And>x. P (f x) = P x) \<Longrightarrow> List.find P (map f xs) = map_option f (List.find P xs)"
  by (induction xs) auto

lemma row_update:
  assumes "wd_nodeRuns w' = map (\<lambda>r. if nr_id r = i then g r else r) (wd_nodeRuns w)" and "\<And>r. node_key (g r) = node_key r"
  shows "GetWorkflowNodeRun run n w' = map_option (\<lambda>r. if nr_id r = i then g r else r) (GetWorkflowNodeRun run n w)"
  unfolding GetWorkflowNodeRun_def assms(1)
  by (rule find_map_key) (use assms(2) in \<open>auto simp: node_key_def\<close>)

lemma row_of_task:
  assumes "tables_ok w" and "task_row w t" and "GetWorkflowNodeRun run n w = Some r"
  shows "nr_id r = t_nodeRun t \<longleftrightarrow> run = t_run t \<and> n = t_node t"
proof -
  obtain x where x: "x \<in> set (wd_nodeRuns w)" "nr_id x = t_nodeRun t" "nr_run x = t_run t" "nr_node x = t_node t"
    using assms(2) by (auto simp: task_row_def)
  have r: "r \<in> set (wd_nodeRuns w)" "nr_run r = run" "nr_node r = n" using assms(1,3) by (auto simp: row_iff)
  have "nr_id r = nr_id x \<longleftrightarrow> r = x"
    using assms(1) x(1) r(1) inj_onD [of nr_id "set (wd_nodeRuns w)"] by (auto simp: tables_ok_def distinct_map)
  moreover have "r = x" if "run = t_run t" "n = t_node t"
    using that assms(1) x r row_iff [OF assms(1), of run n r] row_iff [OF assms(1), of run n x] by auto
  ultimately show ?thesis using x r by auto
qed

lemma progress_row_update:
  assumes ok: "tables_ok w" and t: "task_row w t"
    and rows: "wd_nodeRuns w' = map (\<lambda>r. if nr_id r = t_nodeRun t then g r else r) (wd_nodeRuns w)"
    and same: "wd_queue w' = wd_queue w" "wd_sets w' = wd_sets w" "wd_runs w' = wd_runs w"
    and g: "\<And>r. node_key (g r) = node_key r" "\<And>r. nr_status (g r) = s" "\<And>r. nr_retry (g r) = k (nr_retry r)"
  shows "progress_of run w' =
    (if run = t_run t
     then (progress_of run w)\<lparr>pg_status := (pg_status (progress_of run w))(t_node t \<mapsto> s),
            pg_tries := (pg_tries (progress_of run w))(t_node t := k (pg_tries (progress_of run w) (t_node t)))\<rparr>
     else progress_of run w)"
proof -
  have row: "GetWorkflowNodeRun run n w' =
      map_option (\<lambda>r. if run = t_run t \<and> n = t_node t then g r else r) (GetWorkflowNodeRun run n w)" for n
    using row_update [OF rows g(1), of run n] row_of_task [OF ok t, of run n]
    by (cases "GetWorkflowNodeRun run n w") auto
  obtain r where "GetWorkflowNodeRun (t_run t) (t_node t) w = Some r"
    using t row_iff [OF ok] by (fastforce simp: task_row_def)
  then show ?thesis
    by (auto simp: progress_of_def row same g fun_eq_iff option.map_comp o_def split: option.split)
qed

lemma progress_MarkRunning:
  assumes "tables_ok w" and "task_row w t"
  shows "progress_of run (MarkWorkflowNodeAsRunning (t_nodeRun t) k w) =
    (if run = t_run t
     then (progress_of run w)\<lparr>pg_status := (pg_status (progress_of run w))(t_node t \<mapsto> Running),
            pg_tries := (pg_tries (progress_of run w))(t_node t := k)\<rparr>
     else progress_of run w)"
  using progress_row_update [OF assms, of _ "\<lambda>r. r\<lparr>nr_status := Running, nr_retry := k\<rparr>" Running "\<lambda>_. k"]
  by (simp add: MarkWorkflowNodeAsRunning_def node_key_def)

lemma progress_UpdateStatus:
  assumes "tables_ok w" and "task_row w t"
  shows "progress_of run (UpdateWorkflowNodeRunStatus (t_nodeRun t) s e w) =
    (if run = t_run t
     then (progress_of run w)\<lparr>pg_status := (pg_status (progress_of run w))(t_node t \<mapsto> s)\<rparr>
     else progress_of run w)"
  using progress_row_update [OF assms, of "UpdateWorkflowNodeRunStatus (t_nodeRun t) s e w"
      "\<lambda>r. r\<lparr>nr_status := s, nr_error := e\<rparr>" s "\<lambda>k. k"]
  by (simp add: UpdateWorkflowNodeRunStatus_def node_key_def)

text \<open>The keys of the rows decide which tasks are known, and the parents and children in a run.\<close>

lemma task_row_keys:
  "task_row w t \<longleftrightarrow> (t_nodeRun t, t_run t, t_node t) \<in> set (map (\<lambda>r. (nr_id r, node_key r)) (wd_nodeRuns w)) \<and>
     GetWorkflowNode (t_node t) w \<noteq> None"
  by (force simp: task_row_def node_key_def)

lemma parents_of_keys:
  "parents_of run w n = {snd k | k e. k \<in> set (map node_key (wd_nodeRuns w)) \<and> fst k = run \<and> e \<in> set (wd_edges w) \<and>
     we_source e = snd k \<and> we_target e = n}"
  by (force simp: parents_of_def in_parents node_key_def)

lemma children_of_keys:
  "children_of run w n =
     concat (map (\<lambda>k. map (\<lambda>e. snd k) (filter (\<lambda>e. we_target e = snd k \<and> we_source e = n) (wd_edges w)))
       (filter (\<lambda>k. fst k = run) (map node_key (wd_nodeRuns w))))"
  by (simp add: children_of_def GetChildWorkflowNodeRuns_def filter_map map_concat o_def node_key_def)

definition same_plan :: "world \<Rightarrow> world \<Rightarrow> bool" where
  "same_plan w w' \<longleftrightarrow>
     map (\<lambda>r. (nr_id r, node_key r)) (wd_nodeRuns w') = map (\<lambda>r. (nr_id r, node_key r)) (wd_nodeRuns w) \<and>
     wd_nodes w' = wd_nodes w \<and> wd_edges w' = wd_edges w \<and> wd_nextRun w' = wd_nextRun w \<and>
     ((\<forall>run S. wd_sets w run = Some S \<longrightarrow> finite S) \<longrightarrow> (\<forall>run S. wd_sets w' run = Some S \<longrightarrow> finite S))"

lemma same_plan_refl [simp]: "same_plan w w"
  by (simp add: same_plan_def)

lemma same_plan_trans: "same_plan u v \<Longrightarrow> same_plan v w \<Longrightarrow> same_plan u w"
  unfolding same_plan_def by metis

lemma same_planD:
  assumes "same_plan w w'"
  shows "tables_ok w \<Longrightarrow> tables_ok w'" and "task_row w t \<Longrightarrow> task_row w' t"
    and "parents_of run w' = parents_of run w" and "children_of run w' = children_of run w"
proof -
  have k: "map (\<lambda>r. (nr_id r, node_key r)) (wd_nodeRuns w') = map (\<lambda>r. (nr_id r, node_key r)) (wd_nodeRuns w)"
    using assms by (simp add: same_plan_def)
  have k': "map nr_id (wd_nodeRuns w') = map nr_id (wd_nodeRuns w)" "map node_key (wd_nodeRuns w') = map node_key (wd_nodeRuns w)"
    using arg_cong [OF k, of "map fst"] arg_cong [OF k, of "map snd"] by (simp_all add: o_def)
  show "tables_ok w \<Longrightarrow> tables_ok w'" using assms by (simp add: tables_ok_def k' same_plan_def)
  show "task_row w t \<Longrightarrow> task_row w' t" using assms by (simp only: task_row_keys k) (simp add: same_plan_def GetWorkflowNode_def)
  show "parents_of run w' = parents_of run w"
    using assms by (intro ext) (simp only: parents_of_keys k', simp add: same_plan_def)
  show "children_of run w' = children_of run w"
    using assms by (intro ext) (simp only: children_of_keys k', simp add: same_plan_def)
qed

lemma same_plan_perform:
  assumes "\<And>workflow ns. c \<noteq> CCreateWorkflowRun workflow ns"
  shows "same_plan w (snd (perform_call c w))"
  using assms
  by (cases c)
    (auto simp: same_plan_def CompleteWorkflowRun_def Publish_def PublishNodeStatusUpdate_def MarkWorkflowNodeAsRunning_def
      UpdateWorkflowNodeRunStatus_def InitializeRunningNodeSet_def TryAcquireWorkflowRunFinalizationLock_def
      MarkNodeCompleteAndCountRemaining_def Let_def node_key_def split: option.splits if_splits)

primrec no_create :: "'a prog \<Rightarrow> bool" where
  "no_create (Ret x) \<longleftrightarrow> True"
| "no_create (Call c k) \<longleftrightarrow> (\<forall>workflow ns. c \<noteq> CCreateWorkflowRun workflow ns) \<and> (\<forall>r. no_create (k r))"

lemma no_create_bindp: "no_create p \<Longrightarrow> (\<And>x. no_create (f x)) \<Longrightarrow> no_create (bindp p f)"
  by (induction p) auto

lemma same_plan_exec: "no_create p \<Longrightarrow> same_plan w (snd (exec F p w))"
proof (induction p arbitrary: w)
  case (Call c k)
  have "same_plan w (snd (attempt (F c) c w))"
    using Call.prems same_plan_perform [of c w] by (cases "F c") auto
  then show ?case using Call by (auto intro: same_plan_trans)
qed simp

lemma no_create_publish_all: "no_create (publish_all ts)"
  by (induction ts) auto

lemma no_create_services:
  "no_create (EnqueueChildNodes u wid n run)" "no_create (shouldFinalizeWorkflowRun t)" "no_create (finalizeWorkflowRun t)"
  "no_create (shouldSkipNodeTaskExecution t)" "no_create (record_outcome t out)" "no_create (ActionRegistry_Execute t node)"
  by (auto simp: EnqueueChildNodes_def shouldFinalizeWorkflowRun_def reinitializeRunningNodeSet_def finalizeWorkflowRun_def
      shouldSkipNodeTaskExecution_def record_outcome_def ActionRegistry_Execute_def
      intro!: no_create_bindp no_create_publish_all split: reply.splits bool.splits sum.splits)

lemma no_create_after_task: "no_create (after_task t)"
  unfolding after_task_def by (auto intro!: no_create_bindp no_create_services split: sum.splits)

lemma no_create_Execute: "no_create (ExecuteWorkflowNode t)"
  unfolding ExecuteWorkflowNode_def runWorkflowNodeTask_def Let_def
  by (auto intro!: no_create_bindp no_create_services no_create_after_task split: sum.splits reply.splits)

section \<open>What the end of a handler does\<close>

lemma quiet_simps [simp]:
  "quiet f (CGetWorkflowNodeRun run n) = Fine" "quiet f (CGetWorkflowNodeRuns run so) = Fine" "quiet f (CGetParents run n) = Fine"
  "quiet f (CGetChildren run n) = Fine" "quiet f (CGetWorkflowNode n) = Fine" "quiet f (CCompleteWorkflowRun run rs) = Fine"
  "quiet f (CMarkRunning i k) = Fine" "quiet f (CUpdateStatus i s e) = Fine" "quiet f (CPublish t) = Fine"
  "quiet f (CPublishUpdate run n s) = Fine" "quiet f (CInitializeSet run ns) = Fine" "quiet f (CTryLock run) = Fine"
  "quiet f (CMarkComplete run n) = Fine" "quiet f (CSendEmail run n u c) = f"
  by (simp_all add: quiet_def)

lemma exec_publish_all:
  "exec (quiet f) (publish_all ts) w = (Inr (), w\<lparr>wd_queue := wd_queue w @ map (\<lambda>t. \<lparr>m_task = t, m_retry = None\<rparr>) ts\<rparr>)"
  by (induction ts arbitrary: w) (auto simp: Publish_def)

definition enqueued :: "string \<Rightarrow> int \<Rightarrow> int \<Rightarrow> int \<Rightarrow> world \<Rightarrow> world" where
  "enqueued u wid n run w =
     w\<lparr>wd_queue := wd_queue w @ map (\<lambda>r. \<lparr>m_task = BuildWorkflowNodeTaskPayload u wid run (nr_node r) (nr_id r), m_retry = None\<rparr>)
       (filter (\<lambda>r. nr_status r = Pending) (GetChildWorkflowNodeRuns run n w))\<rparr>"

lemma exec_EnqueueChildNodes: "exec (quiet f) (EnqueueChildNodes u wid n run) w = (Inr (), enqueued u wid n run w)"
  by (simp add: EnqueueChildNodes_def exec_publish_all enqueued_def o_def)

lemma enqueued_fields [simp]:
  "wd_nodeRuns (enqueued u wid n run w) = wd_nodeRuns w" "wd_sets (enqueued u wid n run w) = wd_sets w"
  "wd_runs (enqueued u wid n run w) = wd_runs w" "wd_locks (enqueued u wid n run w) = wd_locks w"
  by (simp_all add: enqueued_def)

lemma run_msgs_append [simp]: "run_msgs run (xs @ ys) = run_msgs run xs + run_msgs run ys"
  by (simp add: run_msgs_def)

lemma progress_enqueued:
  assumes "tables_ok w"
  shows "progress_of run' (enqueued u wid n run w) =
    (if run' = run
     then (progress_of run w)\<lparr>pg_msgs := pg_msgs (progress_of run w) +
            mset (map (\<lambda>c. (c, 0)) (filter (\<lambda>c. pg_status (progress_of run w) c = Some Pending) (children_of run w n)))\<rparr>
     else progress_of run' w)"
proof -
  have st: "pg_status (progress_of run w) (nr_node r) = Some (nr_status r)"
    if "r \<in> set (GetChildWorkflowNodeRuns run n w)" for r
    using that row_iff [OF assms, of run "nr_node r" r] by (auto simp: progress_of_def in_children)
  have fl: "filter (\<lambda>c. pg_status (progress_of run w) c = Some Pending) (children_of run w n) =
      map nr_node (filter (\<lambda>r. nr_status r = Pending) (GetChildWorkflowNodeRuns run n w))"
    unfolding children_of_def filter_map by (intro arg_cong [where f = "map nr_node"] filter_cong) (auto simp: st)
  have msgs: "map (\<lambda>m. (t_node (m_task m), retries m)) (filter (\<lambda>m. t_run (m_task m) = run')
        (map (\<lambda>r. \<lparr>m_task = BuildWorkflowNodeTaskPayload u wid run (nr_node r) (nr_id r), m_retry = None\<rparr>) rs)) =
      (if run' = run then map (\<lambda>c. (c, 0)) (map nr_node rs) else [])" for rs
    by (induction rs) (auto simp: BuildWorkflowNodeTaskPayload_def retries_def)
  have ms: "run_msgs run' (map (\<lambda>r. \<lparr>m_task = BuildWorkflowNodeTaskPayload u wid run (nr_node r) (nr_id r), m_retry = None\<rparr>) rs) =
      (if run' = run then mset (map (\<lambda>c. (c, 0)) (map nr_node rs)) else {#})" for rs
    unfolding run_msgs_def msgs by (simp del: mset_map)
  have "progress_of run' (enqueued u wid n run w) = (progress_of run' w)\<lparr>pg_msgs := pg_msgs (progress_of run' w) +
      run_msgs run' (map (\<lambda>r. \<lparr>m_task = BuildWorkflowNodeTaskPayload u wid run (nr_node r) (nr_id r), m_retry = None\<rparr>)
        (filter (\<lambda>r. nr_status r = Pending) (GetChildWorkflowNodeRuns run n w)))\<rparr>"
    by (simp add: progress_of_def enqueued_def GetWorkflowNodeRun_def)
  then show ?thesis unfolding ms fl by (simp del: mset_map)
qed

lemma progress_Complete:
  "progress_of run' (CompleteWorkflowRun run st w) =
    (if run' = run then (progress_of run w)\<lparr>pg_result := map_option (\<lambda>_. st) (pg_result (progress_of run w))\<rparr>
     else progress_of run' w)"
proof -
  have f: "List.find (\<lambda>r. rr_id r = run') (map (\<lambda>r. if rr_id r = run then r\<lparr>rr_status := st\<rparr> else r) rs) =
      map_option (\<lambda>r. if rr_id r = run then r\<lparr>rr_status := st\<rparr> else r) (List.find (\<lambda>r. rr_id r = run') rs)" for rs
    by (rule find_map_key) auto
  have "rr_id r = run'" if "List.find (\<lambda>r. rr_id r = run') (wd_runs w) = Some r" for r
    using find_Some_iff2 [OF that] by simp
  then show ?thesis
    by (cases "List.find (\<lambda>r. rr_id r = run') (wd_runs w)")
      (auto simp: progress_of_def CompleteWorkflowRun_def GetWorkflowNodeRun_def f)
qed

text \<open>Which rows a run has in a state, read from its progress.\<close>

lemma rows_with_status:
  assumes "tables_ok w"
  shows "nr_node ` set (GetWorkflowNodeRuns run (Some s) w) = {n. pg_status (progress_of run w) n = Some s}"
    and "(\<exists>r\<in>set (GetWorkflowNodeRuns run None w). nr_status r = s) \<longleftrightarrow> (\<exists>n. pg_status (progress_of run w) n = Some s)"
  using row_iff [OF assms] by (fastforce simp: GetWorkflowNodeRuns_def progress_of_def image_iff)+

lemma exec_finalize:
  assumes "tables_ok w"
  shows "exec (quiet f) (finalizeWorkflowRun t) w = (Inr (), CompleteWorkflowRun (t_run t) (result_of (progress_of (t_run t) w)) w)"
  using rows_with_status(2) [OF assms, of "t_run t" Failed] by (simp add: finalizeWorkflowRun_def result_of_def)

lemma progress_sets:
  "progress_of run' (w\<lparr>wd_sets := (wd_sets w)(run := v)\<rparr>) =
    (if run' = run then (progress_of run w)\<lparr>pg_open := v\<rparr> else progress_of run' w)"
  by (simp add: progress_of_def GetWorkflowNodeRun_def)

lemma progress_locks [simp]: "progress_of run (w\<lparr>wd_locks := L\<rparr>) = progress_of run w"
  by (simp add: progress_of_def GetWorkflowNodeRun_def)

lemma tables_ok_frame:
  "wd_nodeRuns w' = wd_nodeRuns w \<Longrightarrow> (\<forall>run S. wd_sets w run = Some S \<longrightarrow> finite S) \<longrightarrow> (\<forall>run S. wd_sets w' run = Some S \<longrightarrow> finite S) \<Longrightarrow>
   tables_ok w \<Longrightarrow> tables_ok w'"
  by (simp add: tables_ok_def)

lemma result_of_fields [simp]: "result_of (p\<lparr>pg_open := v\<rparr>) = result_of p" "result_of (p\<lparr>pg_msgs := ms\<rparr>) = result_of p"
  by (simp_all add: result_of_def)

text \<open>The end of a handler from the point where the children are published.\<close>

definition closing :: "task \<Rightarrow> (string + unit) prog" where
  "closing t = bindp (shouldFinalizeWorkflowRun t) (\<lambda>r. case r of
      Inl e \<Rightarrow> Ret (Inl e) | Inr fin \<Rightarrow> if fin then finalizeWorkflowRun t else Ret (Inr ()))"

lemma after_task_closing: "exec (quiet f) (after_task t) w = exec (quiet f) (closing t) (enqueued (t_user t) (t_workflow t) (t_node t) (t_run t) w)"
  by (simp add: after_task_def closing_def exec_EnqueueChildNodes)

lemma exec_closing_set:
  assumes ok: "tables_ok w" and S: "wd_sets w (t_run t) = Some S"
  shows "fst (exec (quiet f) (closing t) w) = Inr ()"
    and "progress_of run (snd (exec (quiet f) (closing t) w)) =
      (if run = t_run t
       then let p = progress_of run w
            in if S - {t_node t} = {} then p\<lparr>pg_open := None, pg_result := map_option (\<lambda>_. result_of p) (pg_result p)\<rparr>
               else p\<lparr>pg_open := Some (S - {t_node t})\<rparr>
       else progress_of run w)"
proof -
  let ?S = "S - {t_node t}"
  let ?w = "w\<lparr>wd_sets := (wd_sets w)(t_run t := if ?S = {} then None else Some ?S)\<rparr>"
  have fin: "finite S" using ok S by (auto simp: tables_ok_def)
  have okw: "tables_ok ?w" by (rule tables_ok_frame [OF _ _ ok]) (use fin in auto)
  have c: "card ?S = 0 \<longleftrightarrow> ?S = {}" using fin by simp
  have m: "perform_call (CMarkComplete (t_run t) (t_node t)) w = (RCount (card ?S), ?w)"
    by (simp add: MarkNodeCompleteAndCountRemaining_def S Let_def)
  have e: "exec (quiet f) (closing t) w =
      (if ?S = {} then (Inr (), CompleteWorkflowRun (t_run t) (result_of (progress_of (t_run t) ?w)) ?w) else (Inr (), ?w))"
  proof (cases "?S = {}")
    case True
    then have "card ?S = 0" using c by simp
    with True show ?thesis
      using exec_finalize [OF okw, of f t] by (simp add: closing_def shouldFinalizeWorkflowRun_def m del: perform_call.simps)
  qed (use c in \<open>simp add: closing_def shouldFinalizeWorkflowRun_def m del: perform_call.simps\<close>)
  show "fst (exec (quiet f) (closing t) w) = Inr ()" unfolding e by simp
  show "progress_of run (snd (exec (quiet f) (closing t) w)) =
      (if run = t_run t
       then let p = progress_of run w
            in if S - {t_node t} = {} then p\<lparr>pg_open := None, pg_result := map_option (\<lambda>_. result_of p) (pg_result p)\<rparr>
               else p\<lparr>pg_open := Some (S - {t_node t})\<rparr>
       else progress_of run w)"
    unfolding e by (simp add: progress_Complete progress_sets Let_def)
qed

lemma exec_closing_none:
  assumes ok: "tables_ok w" and none: "wd_sets w (t_run t) = None"
  shows "fst (exec (quiet f) (closing t) w) = Inr ()"
    and "progress_of run (snd (exec (quiet f) (closing t) w)) =
      (if run = t_run t
       then let p = progress_of run w; waiting = {m. pg_status p m = Some Pending}
            in if waiting = {} then p\<lparr>pg_result := map_option (\<lambda>_. result_of p) (pg_result p)\<rparr>
               else if t_run t \<in> wd_locks w then p else p\<lparr>pg_open := Some waiting\<rparr>
       else progress_of run w)"
proof -
  let ?rs = "GetWorkflowNodeRuns (t_run t) (Some Pending) w"
  let ?W = "{m. pg_status (progress_of (t_run t) w) m = Some Pending}"
  have W: "set (map nr_node ?rs) = ?W" using rows_with_status(1) [OF ok] by simp
  then have rs: "?rs = [] \<longleftrightarrow> ?W = {}" by force
  have m: "perform_call (CMarkComplete (t_run t) (t_node t)) w = (RErr, w)"
    by (simp add: MarkNodeCompleteAndCountRemaining_def none)
  have re: "snd (exec (quiet f) (reinitializeRunningNodeSet (t_run t) (map nr_node ?rs)) w) =
      (if t_run t \<in> wd_locks w then w
       else w\<lparr>wd_locks := insert (t_run t) (wd_locks w), wd_sets := (wd_sets w)(t_run t \<mapsto> ?W)\<rparr>)" if "?rs \<noteq> []"
    using that W by (simp add: reinitializeRunningNodeSet_def TryAcquireWorkflowRunFinalizationLock_def InitializeRunningNodeSet_def none)
  have e: "exec (quiet f) (closing t) w =
      (if ?W = {} then (Inr (), CompleteWorkflowRun (t_run t) (result_of (progress_of (t_run t) w)) w)
       else (Inr (), if t_run t \<in> wd_locks w then w
         else w\<lparr>wd_locks := insert (t_run t) (wd_locks w), wd_sets := (wd_sets w)(t_run t \<mapsto> ?W)\<rparr>))"
  proof (cases "?rs = []")
    case True
    then show ?thesis
      using rs exec_finalize [OF ok, of f t] by (simp add: closing_def shouldFinalizeWorkflowRun_def m del: perform_call.simps(15))
  next
    case False
    then show ?thesis
      using rs re [OF False] by (auto simp: closing_def shouldFinalizeWorkflowRun_def m simp del: perform_call.simps(15))
  qed
  show "fst (exec (quiet f) (closing t) w) = Inr ()" unfolding e by simp
  have "progress_of run (w\<lparr>wd_locks := L, wd_sets := (wd_sets w)(t_run t \<mapsto> ?W)\<rparr>) =
      (if run = t_run t then (progress_of run w)\<lparr>pg_open := Some ?W\<rparr> else progress_of run w)" for L
    using progress_sets [of run "w\<lparr>wd_locks := L\<rparr>" "t_run t" "Some ?W"] by simp
  then show "progress_of run (snd (exec (quiet f) (closing t) w)) =
      (if run = t_run t
       then let p = progress_of run w; waiting = {m. pg_status p m = Some Pending}
            in if waiting = {} then p\<lparr>pg_result := map_option (\<lambda>_. result_of p) (pg_result p)\<rparr>
               else if t_run t \<in> wd_locks w then p else p\<lparr>pg_open := Some waiting\<rparr>
       else progress_of run w)"
    unfolding e by (cases "run = t_run t") (simp_all add: progress_Complete Let_def)
qed

lemma tables_ok_enqueued: "tables_ok w \<Longrightarrow> tables_ok (enqueued u wid n run w)"
  by (simp add: tables_ok_def)

lemma exec_after_task:
  assumes ok: "tables_ok w"
  shows "fst (exec (quiet f) (after_task t) w) = Inr ()"
    and "progress_of run (snd (exec (quiet f) (after_task t) w)) =
      (if run = t_run t
       then finish (children_of run w) (run \<in> wd_locks w) (t_node t) (progress_of run w)
       else progress_of run w)"
proof -
  let ?e = "enqueued (t_user t) (t_workflow t) (t_node t) (t_run t) w"
  have oke: "tables_ok ?e" using ok by (rule tables_ok_enqueued)
  show "fst (exec (quiet f) (after_task t) w) = Inr ()"
    unfolding after_task_closing
    by (cases "wd_sets ?e (t_run t)") (simp_all add: exec_closing_set [OF oke] exec_closing_none [OF oke])
  show "progress_of run (snd (exec (quiet f) (after_task t) w)) =
      (if run = t_run t
       then finish (children_of run w) (run \<in> wd_locks w) (t_node t) (progress_of run w)
       else progress_of run w)"
  proof (cases "wd_sets w (t_run t)")
    case None
    then have "pg_open (progress_of (t_run t) w) = None" by (simp add: progress_of_def)
    then show ?thesis
      using exec_closing_none(2) [OF oke, of t run f] None
      by (simp add: after_task_closing progress_enqueued [OF ok] finish_def Let_def result_of_def)
  next
    case (Some S)
    then have "pg_open (progress_of (t_run t) w) = Some S" by (simp add: progress_of_def)
    then show ?thesis
      using exec_closing_set(2) [OF oke, of t S run f] Some
      by (simp add: after_task_closing progress_enqueued [OF ok] finish_def Let_def result_of_def)
  qed
qed

section \<open>What a whole handler does\<close>

lemma progress_update [simp]: "progress_of run (PublishNodeStatusUpdate run' n s w) = progress_of run w"
  "progress_of run (w\<lparr>wd_history := h\<rparr>) = progress_of run w"
  by (simp_all add: progress_of_def PublishNodeStatusUpdate_def GetWorkflowNodeRun_def)

text \<open>Whether the action of a node succeeds, and what it does.\<close>

definition action_ok :: "fault \<Rightarrow> world \<Rightarrow> int \<Rightarrow> bool" where
  "action_ok f w n \<longleftrightarrow>
     (case GetWorkflowNode n w of None \<Rightarrow> True | Some node \<Rightarrow> nd_type node = ''send_email'' \<longrightarrow> f = Fine)"

lemma exec_action:
  "\<exists>r h. exec (quiet f) (ActionRegistry_Execute t node) w = (r, w\<lparr>wd_history := h\<rparr>) \<and>
     (r = Inr () \<longleftrightarrow> (nd_type node = ''send_email'' \<longrightarrow> f = Fine))"
proof (cases "nd_type node = ''send_email''")
  case True
  then show ?thesis by (cases f) (auto simp: ActionRegistry_Execute_def intro: exI [of _ "wd_history w"])
qed (auto simp: ActionRegistry_Execute_def intro: exI [of _ "wd_history w"])

lemma task_fields_retry [simp]: "task_row w (t\<lparr>t_retry := k\<rparr>) = task_row w t" "task_row w (t\<lparr>t_status := s\<rparr>) = task_row w t"
  by (simp_all add: task_row_def)

text \<open>The node's own task, for a node that is not skipped.\<close>

definition running :: "task \<Rightarrow> nat \<Rightarrow> run_note list \<Rightarrow> world \<Rightarrow> world" where
  "running t k h w =
     (PublishNodeStatusUpdate (t_run t) (t_node t) Running (MarkWorkflowNodeAsRunning (t_nodeRun t) k w))\<lparr>wd_history := h\<rparr>"

lemma same_plan_running: "same_plan w (running t k h w)"
  by (simp add: running_def same_plan_def PublishNodeStatusUpdate_def MarkWorkflowNodeAsRunning_def node_key_def)

lemma wd_locks_running: "wd_locks (running t k h w) = wd_locks w"
  by (simp add: running_def PublishNodeStatusUpdate_def MarkWorkflowNodeAsRunning_def)

lemma progress_tried:
  assumes ok: "tables_ok w" and t: "task_row w t"
  shows "progress_of run (UpdateWorkflowNodeRunStatus (t_nodeRun t) s e (running t k h w)) =
    (if run = t_run t
     then (progress_of run w)\<lparr>pg_status := (pg_status (progress_of run w))(t_node t \<mapsto> s),
            pg_tries := (pg_tries (progress_of run w))(t_node t := k)\<rparr>
     else progress_of run w)"
proof -
  have "tables_ok (running t k h w)" "task_row (running t k h w) t"
    using same_planD [OF same_plan_running] ok t by auto
  from progress_UpdateStatus [OF this] progress_MarkRunning [OF ok t] show ?thesis
    by (simp add: running_def)
qed

lemma exec_runTask:
  assumes t: "task_row w t"
  obtains r h where
    "exec (quiet f) (runWorkflowNodeTask t) w = exec (quiet f) (record_outcome (t\<lparr>t_retry := Suc (t_retry t)\<rparr>) r) (running t (Suc (t_retry t)) h w)"
    "r = Inr () \<longleftrightarrow> action_ok f w (t_node t)"
proof -
  obtain node where node: "GetWorkflowNode (t_node t) w = Some node" using t by (auto simp: task_row_def)
  let ?t = "t\<lparr>t_retry := Suc (t_retry t)\<rparr>"
  let ?w1 = "PublishNodeStatusUpdate (t_run t) (t_node t) Running (MarkWorkflowNodeAsRunning (t_nodeRun t) (Suc (t_retry t)) w)"
  obtain r h where ex: "exec (quiet f) (ActionRegistry_Execute ?t node) ?w1 = (r, ?w1\<lparr>wd_history := h\<rparr>)"
    and r: "r = Inr () \<longleftrightarrow> (nd_type node = ''send_email'' \<longrightarrow> f = Fine)"
    using exec_action [of f ?t node ?w1] by blast
  show thesis
    by (rule that [of r h]) (simp_all add: runWorkflowNodeTask_def node ex running_def r action_ok_def Let_def)
qed

lemma wd_locks_simps [simp]:
  "wd_locks (UpdateWorkflowNodeRunStatus i s e w) = wd_locks w" "wd_locks (PublishNodeStatusUpdate run n s w) = wd_locks w"
  "wd_locks (CompleteWorkflowRun run st w) = wd_locks w"
  by (simp_all add: UpdateWorkflowNodeRunStatus_def PublishNodeStatusUpdate_def CompleteWorkflowRun_def)

lemma exec_runTask_ok:
  assumes ok: "tables_ok w" and t: "task_row w t" and act: "action_ok f w (t_node t)"
  shows "\<exists>w'. exec (quiet f) (runWorkflowNodeTask t) w = (Inr (t\<lparr>t_retry := Suc (t_retry t), t_status := Some Success\<rparr>), w') \<and>
    wd_locks w' = wd_locks w \<and> same_plan w w' \<and>
    (\<forall>run. progress_of run w' =
      (if run = t_run t
       then (progress_of run w)\<lparr>pg_status := (pg_status (progress_of run w))(t_node t \<mapsto> Success),
              pg_tries := (pg_tries (progress_of run w))(t_node t := Suc (t_retry t))\<rparr>
       else progress_of run w))"
proof -
  let ?k = "Suc (t_retry t)"
  from exec_runTask [OF t] obtain r h where
    e: "exec (quiet f) (runWorkflowNodeTask t) w = exec (quiet f) (record_outcome (t\<lparr>t_retry := ?k\<rparr>) r) (running t ?k h w)"
    and r: "r = Inr () \<longleftrightarrow> action_ok f w (t_node t)" by metis
  let ?u = "UpdateWorkflowNodeRunStatus (t_nodeRun t) Success None (running t ?k h w)"
  let ?w' = "PublishNodeStatusUpdate (t_run t) (t_node t) Success ?u"
  have "exec (quiet f) (runWorkflowNodeTask t) w = (Inr (t\<lparr>t_retry := ?k, t_status := Some Success\<rparr>), ?w')"
    using r act by (simp add: e record_outcome_def)
  moreover have "same_plan (running t ?k h w) ?w'"
    by (simp add: same_plan_def PublishNodeStatusUpdate_def UpdateWorkflowNodeRunStatus_def node_key_def)
  then have "same_plan w ?w'" by (rule same_plan_trans [OF same_plan_running])
  moreover have "wd_locks ?w' = wd_locks w" by (simp add: wd_locks_running)
  moreover have "progress_of run ?w' = progress_of run ?u" for run by simp
  ultimately show ?thesis using progress_tried [OF ok t] by (intro exI [of _ ?w']) simp
qed

lemma exec_runTask_failed:
  assumes ok: "tables_ok w" and t: "task_row w t" and act: "\<not> action_ok f w (t_node t)"
  shows "\<exists>x w'. exec (quiet f) (runWorkflowNodeTask t) w = (Inl x, w') \<and>
    (\<forall>run. progress_of run w' =
      (if run = t_run t
       then (progress_of run w)\<lparr>pg_status := (pg_status (progress_of run w))(t_node t \<mapsto> Failed),
              pg_tries := (pg_tries (progress_of run w))(t_node t := Suc (t_retry t)),
              pg_result := (if Suc (t_retry t) = 3 then map_option (\<lambda>_. RunFailed) (pg_result (progress_of run w))
                            else pg_result (progress_of run w))\<rparr>
       else progress_of run w))"
proof -
  let ?k = "Suc (t_retry t)"
  from exec_runTask [OF t] obtain r h where
    e: "exec (quiet f) (runWorkflowNodeTask t) w = exec (quiet f) (record_outcome (t\<lparr>t_retry := ?k\<rparr>) r) (running t ?k h w)"
    and r: "r = Inr () \<longleftrightarrow> action_ok f w (t_node t)" by metis
  obtain x where x: "r = Inl x" using r act by (cases r) auto
  let ?u = "UpdateWorkflowNodeRunStatus (t_nodeRun t) Failed (Some x) (running t ?k h w)"
  let ?v = "PublishNodeStatusUpdate (t_run t) (t_node t) Failed ?u"
  let ?w' = "if ?k = 3 then CompleteWorkflowRun (t_run t) RunFailed ?v else ?v"
  have "exec (quiet f) (runWorkflowNodeTask t) w = (Inl ''task execution failed'', ?w')"
    by (simp add: e x record_outcome_def)
  moreover have "progress_of run ?w' =
      (if run = t_run t \<and> ?k = 3
       then (progress_of run ?u)\<lparr>pg_result := map_option (\<lambda>_. RunFailed) (pg_result (progress_of run ?u))\<rparr>
       else progress_of run ?u)" for run
    by (simp add: progress_Complete)
  ultimately show ?thesis
    unfolding progress_tried [OF ok t] by (intro exI [of _ "''task execution failed''"] exI [of _ ?w']) auto
qed

section \<open>Refinement\<close>

lemma blocked_iff:
  assumes "tables_ok w"
  shows "(\<exists>r\<in>set (GetParentWorkflowNodeRuns run n w). nr_status r \<noteq> Success) \<longleftrightarrow>
    (\<exists>q\<in>parents_of run w n. pg_status (progress_of run w) q \<noteq> Some Success)"
proof -
  have "pg_status (progress_of run w) (nr_node r) = Some (nr_status r)" if "r \<in> set (GetParentWorkflowNodeRuns run n w)" for r
    using that row_iff [OF assms, of run "nr_node r" r] by (auto simp: progress_of_def in_parents)
  then show ?thesis by (auto simp: parents_of_def)
qed

lemma exec_skip:
  assumes ok: "tables_ok w" and t: "task_row w t"
  shows "exec (quiet f) (shouldSkipNodeTaskExecution t) w =
    (Inr (pg_status (progress_of (t_run t) w) (t_node t) = Some Success \<or> pg_tries (progress_of (t_run t) w) (t_node t) = 3,
       t\<lparr>t_retry := pg_tries (progress_of (t_run t) w) (t_node t)\<rparr>), w)"
proof -
  obtain r where "GetWorkflowNodeRun (t_run t) (t_node t) w = Some r"
    using t row_iff [OF ok] by (fastforce simp: task_row_def)
  then show ?thesis by (simp add: shouldSkipNodeTaskExecution_def progress_of_def)
qed

text \<open>What the handler of a task does to the run of the task, when it fails and when it does not.\<close>

lemma exec_Execute:
  fixes t :: task and w :: world and f :: fault
  assumes ok: "tables_ok w" and t: "task_row w t"
  defines "p \<equiv> progress_of (t_run t) w" and "n \<equiv> t_node t" and "good \<equiv> action_ok f w (t_node t)"
  defines "skip \<equiv> pg_status p n = Some Success \<or> pg_tries p n = 3"
    and "blocked \<equiv> \<exists>q\<in>parents_of (t_run t) w n. pg_status p q \<noteq> Some Success"
    and "tried \<equiv> \<lambda>s. p\<lparr>pg_status := (pg_status p)(n \<mapsto> s), pg_tries := (pg_tries p)(n := Suc (pg_tries p n))\<rparr>"
    and "close \<equiv> finish (children_of (t_run t) w) (t_run t \<in> wd_locks w) n"
  defines "e \<equiv> exec (quiet f) (ExecuteWorkflowNode t) w"
  shows "(\<exists>x. fst e = Inl x) \<longleftrightarrow> \<not> blocked \<and> \<not> skip \<and> \<not> good"
    and "progress_of run (snd e) =
      (if run \<noteq> t_run t then progress_of run w
       else if blocked then p
       else if skip then close p
       else if good then close (tried Success)
       else (tried Failed)\<lparr>pg_result := (if Suc (pg_tries p n) = 3 then map_option (\<lambda>_. RunFailed) (pg_result p) else pg_result p)\<rparr>)"
proof -
  have b: "(\<exists>r\<in>set (GetParentWorkflowNodeRuns (t_run t) (t_node t) w). nr_status r \<noteq> Success) \<longleftrightarrow> blocked"
    unfolding blocked_def p_def n_def by (rule blocked_iff [OF ok])
  let ?t = "t\<lparr>t_retry := pg_tries p n\<rparr>"
  have sk: "exec (quiet f) (shouldSkipNodeTaskExecution t) w = (Inr (skip, ?t), w)"
    unfolding skip_def p_def n_def by (rule exec_skip [OF ok t])
  have skipped: "exec (quiet f) (ExecuteWorkflowNode t) w = exec (quiet f) (after_task ?t) w" if "\<not> blocked" skip
    using that b sk by (auto simp: ExecuteWorkflowNode_def)
  have ran: "exec (quiet f) (ExecuteWorkflowNode t) w =
      exec (quiet f) (case fst (exec (quiet f) (runWorkflowNodeTask ?t) w) of Inl e \<Rightarrow> Ret (Inl e) | Inr t'' \<Rightarrow> after_task t'')
        (snd (exec (quiet f) (runWorkflowNodeTask ?t) w))" if "\<not> blocked" "\<not> skip"
    using that b sk by (auto simp: ExecuteWorkflowNode_def)
  have tr: "task_row w ?t" using t by simp
  consider (blocked) blocked | (skip) "\<not> blocked" skip | (good) "\<not> blocked" "\<not> skip" good | (bad) "\<not> blocked" "\<not> skip" "\<not> good"
    by blast
  then have "((\<exists>x. fst e = Inl x) \<longleftrightarrow> \<not> blocked \<and> \<not> skip \<and> \<not> good) \<and> progress_of run (snd e) =
      (if run \<noteq> t_run t then progress_of run w
       else if blocked then p
       else if skip then close p
       else if good then close (tried Success)
       else (tried Failed)\<lparr>pg_result := (if Suc (pg_tries p n) = 3 then map_option (\<lambda>_. RunFailed) (pg_result p) else pg_result p)\<rparr>)"
  proof cases
    case blocked
    then have "e = (Inr (), w)" using b by (simp add: e_def ExecuteWorkflowNode_def)
    then show ?thesis using blocked by (simp add: p_def)
  next
    case skip
    then show ?thesis
      using exec_after_task [OF ok, where f = f and t = ?t] skipped [OF skip] by (simp add: e_def close_def p_def n_def)
  next
    case good
    then obtain w' where w': "exec (quiet f) (runWorkflowNodeTask ?t) w = (Inr (?t\<lparr>t_retry := Suc (t_retry ?t), t_status := Some Success\<rparr>), w')"
      "wd_locks w' = wd_locks w" "same_plan w w'"
      "progress_of (t_run t) w' = tried Success" "\<And>run. run \<noteq> t_run t \<Longrightarrow> progress_of run w' = progress_of run w"
      using exec_runTask_ok [OF ok tr, of f] by (auto simp: good_def tried_def p_def n_def)
    have ok': "tables_ok w'" using same_planD(1) [OF w'(3)] ok by simp
    show ?thesis
      using exec_after_task [OF ok', where f = f and t = "?t\<lparr>t_retry := Suc (t_retry ?t), t_status := Some Success\<rparr>"]
        ran [OF good(1,2)] w' good same_planD(4) [OF w'(3)]
      by (auto simp: e_def close_def n_def)
  next
    case bad
    then obtain x w' where w': "exec (quiet f) (runWorkflowNodeTask ?t) w = (Inl x, w')"
      "progress_of (t_run t) w' = (tried Failed)\<lparr>pg_result := (if Suc (pg_tries p n) = 3 then map_option (\<lambda>_. RunFailed) (pg_result p) else pg_result p)\<rparr>"
      "\<And>run. run \<noteq> t_run t \<Longrightarrow> progress_of run w' = progress_of run w"
      using exec_runTask_failed [OF ok tr, of f] by (auto simp: good_def tried_def p_def n_def)
    show ?thesis using ran [OF bad(1,2)] w' bad by (auto simp: e_def)
  qed
  then show "(\<exists>x. fst e = Inl x) \<longleftrightarrow> \<not> blocked \<and> \<not> skip \<and> \<not> good"
    and "progress_of run (snd e) =
      (if run \<noteq> t_run t then progress_of run w
       else if blocked then p
       else if skip then close p
       else if good then close (tried Success)
       else (tried Failed)\<lparr>pg_result := (if Suc (pg_tries p n) = 3 then map_option (\<lambda>_. RunFailed) (pg_result p) else pg_result p)\<rparr>)"
    by blast+
qed

lemma mset_drop_nth: "i < length xs \<Longrightarrow> mset (drop_nth i xs) = mset xs - {#xs ! i#}"
proof -
  assume "i < length xs"
  then have "xs = take i xs @ xs ! i # drop (Suc i) xs" by (rule id_take_nth_drop)
  then have "mset xs = mset (take i xs) + add_mset (xs ! i) (mset (drop (Suc i) xs))" by (metis mset.simps(2) mset_append)
  then show ?thesis by (simp add: drop_nth_def)
qed

lemma run_msgs_mset:
  "run_msgs run ms = image_mset (\<lambda>m. (t_node (m_task m), retries m)) (filter_mset (\<lambda>m. t_run (m_task m) = run) (mset ms))"
  by (simp add: run_msgs_def)

lemma progress_taken:
  assumes "i < length (wd_queue w)"
  shows "progress_of run (w\<lparr>wd_queue := drop_nth i (wd_queue w)\<rparr>) =
    (let m = wd_queue w ! i; p = progress_of run w
     in if t_run (m_task m) = run then p\<lparr>pg_msgs := pg_msgs p - {#(t_node (m_task m), retries m)#}\<rparr> else p)"
proof -
  have "wd_queue w ! i \<in># mset (wd_queue w)" using assms by simp
  then have "run_msgs run (drop_nth i (wd_queue w)) =
    (if t_run (m_task (wd_queue w ! i)) = run
     then run_msgs run (wd_queue w) - {#(t_node (m_task (wd_queue w ! i)), retries (wd_queue w ! i))#}
     else run_msgs run (wd_queue w))"
    using mset_drop_nth [OF assms]
    by (auto simp: run_msgs_mset image_mset_Diff dest!: multi_member_split)
  then show ?thesis by (simp add: progress_of_def GetWorkflowNodeRun_def Let_def)
qed

lemma progress_failed_message:
  "progress_of run (handleFailedMessage Fine m w) =
    (if t_run (m_task m) = run \<and> retries m < maxRetries
     then (progress_of run w)\<lparr>pg_msgs := pg_msgs (progress_of run w) + {#(t_node (m_task m), Suc (retries m))#}\<rparr>
     else progress_of run w)"
  by (auto simp: handleFailedMessage_def Let_def progress_of_def GetWorkflowNodeRun_def run_msgs_mset retries_def split: option.splits)

lemma same_plan_failed_message: "same_plan w (handleFailedMessage f m w)"
  by (cases f) (auto simp: same_plan_def handleFailedMessage_def Let_def)

lemma same_plan_handle: "same_plan w (handle i f w)"
proof -
  let ?w = "w\<lparr>wd_queue := drop_nth i (wd_queue w)\<rparr>"
  have w: "same_plan w ?w" by (simp add: same_plan_def)
  obtain r w' where e: "exec (quiet f) (ExecuteWorkflowNode (m_task (wd_queue w ! i))) ?w = (r, w')" by fastforce
  then have w': "same_plan w w'" using same_plan_trans [OF w same_plan_exec [OF no_create_Execute]] by (metis snd_conv)
  then have "same_plan w (handleFailedMessage Fine m w')" for m
    by (rule same_plan_trans) (rule same_plan_failed_message)
  with w' show ?thesis by (cases r) (simp_all add: handle_def Let_def e)
qed

lemma handle_progress:
  assumes ok: "tables_ok w" and i: "i < length (wd_queue w)" and m: "m = wd_queue w ! i" and t: "task_row w (m_task m)"
  shows "progress_of run (handle i f w) =
    (if run = t_run (m_task m)
     then advance (parents_of run w) (children_of run w) (run \<in> wd_locks w) (action_ok f w (t_node (m_task m)))
            (t_node (m_task m)) (retries m) (progress_of run w)
     else progress_of run w)"
proof -
  let ?t = "m_task m" and ?w = "w\<lparr>wd_queue := drop_nth i (wd_queue w)\<rparr>"
  have plan: "same_plan w ?w" by (simp add: same_plan_def)
  have ok': "tables_ok ?w" and t': "task_row ?w ?t" using same_planD [OF plan] ok t by auto
  have act: "action_ok f ?w (t_node ?t) = action_ok f w (t_node ?t)" by (simp add: action_ok_def GetWorkflowNode_def)
  have h: "handle i f w = (case exec (quiet f) (ExecuteWorkflowNode ?t) ?w of (Inl _, w') \<Rightarrow> handleFailedMessage Fine m w' | (Inr _, w') \<Rightarrow> w')"
    using i unfolding m by (simp add: handle_def Let_def)
  have taken: "progress_of run ?w = (if t_run ?t = run then (progress_of run w)\<lparr>pg_msgs := pg_msgs (progress_of run w) - {#(t_node ?t, retries m)#}\<rparr>
      else progress_of run w)" for run
    using progress_taken [OF i, of run] m by (simp add: Let_def)
  note ex = exec_Execute [OF ok' t', where f = f, unfolded act same_planD(3,4) [OF plan] taken]
  show ?thesis
  proof (cases "\<exists>x. fst (exec (quiet f) (ExecuteWorkflowNode ?t) ?w) = Inl x")
    case True
    then obtain x w' where e: "exec (quiet f) (ExecuteWorkflowNode ?t) ?w = (Inl x, w')" by (metis prod.collapse)
    then have "handle i f w = handleFailedMessage Fine m w'" by (simp add: h)
    then show ?thesis
      using ex(1) ex(2) [of run] e by (auto simp: progress_failed_message advance_def Let_def)
  next
    case False
    then obtain w' where e: "exec (quiet f) (ExecuteWorkflowNode ?t) ?w = (Inr (), w')"
      by (metis (full_types) old.sum.exhaust old.unit.exhaust prod.collapse)
    then have "handle i f w = w'" by (simp add: h)
    then show ?thesis using ex(1) ex(2) [of run] e by (auto simp: advance_def Let_def)
  qed
qed

end
