(* ===== verification/Run_Settles.thy ===== *)
theory Run_Settles
  imports Run_Safety Run_Progress
begin

text \<open>
  A run comes to rest. Handlers run one after the other, in any order of the messages, with actions that succeed or fail and
  keys in Redis that expire. Then every delivery makes a measure smaller, so the queue drains, and a run that has no more messages is
  complete: successful exactly when all its nodes succeeded, failed exactly when a node has failed three times, and what has not run
  waits for a node that did not succeed.
\<close>

section \<open>The invariant of a run\<close>

definition members :: "progress \<Rightarrow> int set" where
  "members p = {n. pg_status p n \<noteq> None}"

definition waiting :: "progress \<Rightarrow> int set" where
  "waiting p = {n. pg_status p n = Some Pending}"

definition all_success :: "progress \<Rightarrow> bool" where
  "all_success p \<longleftrightarrow> (\<forall>n\<in>members p. pg_status p n = Some Success)"

definition gave_up :: "progress \<Rightarrow> int \<Rightarrow> bool" where
  "gave_up p n \<longleftrightarrow> pg_status p n = Some Failed \<and> pg_tries p n = 3"

definition plan_ok :: "(int \<Rightarrow> int set) \<Rightarrow> (int \<Rightarrow> int list) \<Rightarrow> int set \<Rightarrow> bool" where
  "plan_ok pars kids N \<longleftrightarrow>
     (\<forall>n\<in>N. pars n \<subseteq> N) \<and> (\<forall>q\<in>N. set (kids q) = {n\<in>N. q \<in> pars n}) \<and> (\<exists>n\<in>N. pars n \<noteq> {})"

definition nodes_ok :: "(int \<Rightarrow> int set) \<Rightarrow> progress \<Rightarrow> bool" where
  "nodes_ok pars p \<longleftrightarrow>
     (\<forall>n\<in>members p. pg_status p n \<noteq> Some Running \<and> pg_tries p n \<le> 3 \<and>
        (pars n = {} \<longrightarrow> pg_status p n = Some Success) \<and>
        (pg_status p n = Some Pending \<longrightarrow> pg_tries p n = 0) \<and>
        (pg_status p n \<noteq> Some Pending \<longrightarrow> (\<forall>q\<in>pars n. pg_status p q = Some Success)))"

definition msgs_ok :: "(int \<Rightarrow> int set) \<Rightarrow> progress \<Rightarrow> bool" where
  "msgs_ok pars p \<longleftrightarrow>
     (\<forall>n h. (n, h) \<in># pg_msgs p \<longrightarrow> n \<in> members p \<and> pars n \<noteq> {} \<and> h \<le> pg_tries p n)"

text \<open>A node that can run, or run again, has a message.\<close>

definition served :: "(int \<Rightarrow> int set) \<Rightarrow> progress \<Rightarrow> int \<Rightarrow> bool" where
  "served pars p n \<longleftrightarrow>
     (pg_status p n = Some Pending \<and> (\<forall>q\<in>pars n. pg_status p q = Some Success) \<or>
      pg_status p n = Some Failed \<and> pg_tries p n < 3 \<longrightarrow> (\<exists>h. (n, h) \<in># pg_msgs p))"

definition open_ok :: "progress \<Rightarrow> bool" where
  "open_ok p \<longleftrightarrow> (\<forall>S. pg_open p = Some S \<longrightarrow> S \<noteq> {} \<and> waiting p \<subseteq> S \<and> (\<forall>n\<in>S. n \<in> members p \<and> pg_status p n \<noteq> Some Success))"

definition result_ok :: "progress \<Rightarrow> bool" where
  "result_ok p \<longleftrightarrow>
     pg_result p \<in> {Some RunRunning, Some RunSuccess, Some RunFailed} \<and>
     (pg_result p = Some RunSuccess \<longleftrightarrow> all_success p) \<and> ((\<exists>n. gave_up p n) \<longrightarrow> pg_result p = Some RunFailed)"

definition run_ok :: "(int \<Rightarrow> int set) \<Rightarrow> (int \<Rightarrow> int list) \<Rightarrow> progress \<Rightarrow> bool" where
  "run_ok pars kids p \<longleftrightarrow>
     plan_ok pars kids (members p) \<and> nodes_ok pars p \<and> msgs_ok pars p \<and> (\<forall>n\<in>members p. served pars p n) \<and>
     open_ok p \<and> result_ok p"

lemmas run_ok_defs = nodes_ok_def msgs_ok_def served_def open_ok_def result_ok_def members_def waiting_def all_success_def gave_up_def

section \<open>The end of a handler keeps it\<close>

lemma result_of_Success: "result_of p = RunSuccess \<longleftrightarrow> (\<forall>n. pg_status p n \<noteq> Some Failed)"
  by (simp add: result_of_def)

lemma result_of_cases: "result_of p = RunSuccess \<or> result_of p = RunFailed"
  by (simp add: result_of_def)

text \<open>A completed run has the right status when no node waits.\<close>

lemma result_ok_final:
  assumes "nodes_ok pars p" and "waiting p = {}" and "pg_result p \<noteq> None"
  shows "result_ok (p\<lparr>pg_open := S, pg_result := map_option (\<lambda>_. result_of p) (pg_result p)\<rparr>)"
proof -
  have "pg_status p n = Some Success \<or> pg_status p n = Some Failed" if "pg_status p n \<noteq> None" for n
  proof -
    obtain s where s: "pg_status p n = Some s" using \<open>pg_status p n \<noteq> None\<close> by blast
    then have "s \<noteq> Running" "s \<noteq> Pending" using assms(1,2) by (auto simp: nodes_ok_def members_def waiting_def)
    then show ?thesis using s by (cases s) auto
  qed
  then have "(\<forall>n. pg_status p n \<noteq> Some Failed) \<longleftrightarrow> all_success p"
    by (fastforce simp: all_success_def members_def)
  then show ?thesis
    using assms(3) by (auto simp: result_ok_def result_of_def all_success_def members_def gave_up_def)
qed

lemma end_fields [simp]:
  "members (p\<lparr>pg_open := S, pg_result := r\<rparr>) = members p" "nodes_ok pars (p\<lparr>pg_open := S, pg_result := r\<rparr>) = nodes_ok pars p"
  "msgs_ok pars (p\<lparr>pg_open := S, pg_result := r\<rparr>) = msgs_ok pars p" "served pars (p\<lparr>pg_open := S, pg_result := r\<rparr>) n = served pars p n"
  by (simp_all add: members_def nodes_ok_def msgs_ok_def served_def)

lemma run_okI:
  assumes "plan_ok pars kids (members p)" "nodes_ok pars p" "msgs_ok pars p" "\<And>n. n \<in> members p \<Longrightarrow> served pars p n"
    and "open_ok (p\<lparr>pg_open := S, pg_result := r\<rparr>)" "result_ok (p\<lparr>pg_open := S, pg_result := r\<rparr>)"
  shows "run_ok pars kids (p\<lparr>pg_open := S, pg_result := r\<rparr>)"
  using assms unfolding run_ok_def by simp

definition told :: "(int \<Rightarrow> int list) \<Rightarrow> int \<Rightarrow> progress \<Rightarrow> progress" where
  "told kids n p = p\<lparr>pg_msgs := pg_msgs p + mset (map (\<lambda>c. (c, 0)) (filter (\<lambda>c. pg_status p c = Some Pending) (kids n)))\<rparr>"

lemma told_fields [simp]:
  "pg_status (told kids n p) = pg_status p" "pg_tries (told kids n p) = pg_tries p" "pg_open (told kids n p) = pg_open p"
  "pg_result (told kids n p) = pg_result p" "members (told kids n p) = members p" "waiting (told kids n p) = waiting p"
  "all_success (told kids n p) = all_success p" "gave_up (told kids n p) = gave_up p" "result_of (told kids n p) = result_of p"
  by (simp_all add: told_def members_def waiting_def all_success_def gave_up_def fun_eq_iff)

lemma finish_told:
  "finish kids locked n p =
     (case pg_open p of
        None \<Rightarrow>
          if waiting p = {} then (told kids n p)\<lparr>pg_open := None, pg_result := map_option (\<lambda>_. result_of p) (pg_result p)\<rparr>
          else if locked then (told kids n p)\<lparr>pg_open := None, pg_result := pg_result p\<rparr>
          else (told kids n p)\<lparr>pg_open := Some (waiting p), pg_result := pg_result p\<rparr>
      | Some S \<Rightarrow>
          if S - {n} = {} then (told kids n p)\<lparr>pg_open := None, pg_result := map_option (\<lambda>_. result_of p) (pg_result p)\<rparr>
          else (told kids n p)\<lparr>pg_open := Some (S - {n}), pg_result := pg_result p\<rparr>)"
  by (simp add: finish_def told_def Let_def waiting_def split: option.splits)

lemma told_ok:
  assumes plan: "plan_ok pars kids (members p)" and n: "n \<in> members p" and nodes: "nodes_ok pars p" and msgs: "msgs_ok pars p"
    and serv: "\<And>m. m \<in> members p \<Longrightarrow> m \<in> set (kids n) \<and> pg_status p m = Some Pending \<or> served pars p m"
  shows "nodes_ok pars (told kids n p)" and "msgs_ok pars (told kids n p)"
    and "\<And>m. m \<in> members p \<Longrightarrow> served pars (told kids n p) m"
proof -
  show "nodes_ok pars (told kids n p)" using nodes by (simp add: nodes_ok_def)
  have "m \<in> members p \<and> pars m \<noteq> {}" if "m \<in> set (kids n)" for m
    using plan n that by (auto simp: plan_ok_def)
  then show "msgs_ok pars (told kids n p)"
    using msgs by (auto simp: msgs_ok_def) (auto simp: told_def)
  show "served pars (told kids n p) m" if "m \<in> members p" for m
    using serv [OF that] by (auto simp: served_def) (auto simp: told_def image_iff)
qed

lemma finish_ok:
  assumes plan: "plan_ok pars kids (members p)" and nodes: "nodes_ok pars p" and msgs: "msgs_ok pars p"
    and n: "n \<in> members p" "pg_status p n \<noteq> Some Pending"
    and serv: "\<And>m. m \<in> members p \<Longrightarrow> m \<in> set (kids n) \<and> pg_status p m = Some Pending \<or> served pars p m"
    and op: "\<And>S. pg_open p = Some S \<Longrightarrow> waiting p \<subseteq> S \<and> (\<forall>m\<in>S - {n}. m \<in> members p \<and> pg_status p m \<noteq> Some Success)"
    and res: "pg_result p \<in> {Some RunRunning, Some RunSuccess, Some RunFailed}" "pg_result p = Some RunSuccess \<longrightarrow> all_success p"
      "(\<exists>m. gave_up p m) \<longrightarrow> pg_result p = Some RunFailed"
  shows "run_ok pars kids (finish kids locked n p)"
proof -
  let ?p = "told kids n p"
  note told = told_ok [OF plan n(1) nodes msgs serv]
  have final: "run_ok pars kids (?p\<lparr>pg_open := None, pg_result := map_option (\<lambda>_. result_of p) (pg_result p)\<rparr>)" if "waiting p = {}"
    using result_ok_final [OF told(1), of None] that res(1)
    by (intro run_okI) (use plan told in \<open>auto simp: open_ok_def\<close>)
  have keep: "run_ok pars kids (?p\<lparr>pg_open := S, pg_result := pg_result p\<rparr>)"
    if "\<not> all_success p" and "\<And>S'. S = Some S' \<Longrightarrow> S' \<noteq> {} \<and> waiting p \<subseteq> S' \<and> (\<forall>m\<in>S'. m \<in> members p \<and> pg_status p m \<noteq> Some Success)" for S
  proof (rule run_okI)
    show "open_ok (?p\<lparr>pg_open := S, pg_result := pg_result p\<rparr>)"
      using that(2) by (auto simp: open_ok_def waiting_def members_def)
    show "result_ok (?p\<lparr>pg_open := S, pg_result := pg_result p\<rparr>)"
      using that(1) res by (auto simp: result_ok_def all_success_def members_def gave_up_def)
  qed (use plan told in auto)
  show ?thesis
  proof (cases "pg_open p")
    case None
    have "\<not> all_success p" if "waiting p \<noteq> {}"
      using that by (auto simp: waiting_def all_success_def members_def)
    then show ?thesis
      using None final keep [of None] keep [of "Some (waiting p)"]
      by (auto simp: finish_told waiting_def members_def)
  next
    case (Some S)
    have w: "waiting p \<subseteq> S - {n}" using op [OF Some] n by (auto simp: waiting_def)
    have "\<not> all_success p" if "S - {n} \<noteq> {}" using op [OF Some] that by (auto simp: all_success_def)
    then show ?thesis
      using Some w final keep [of "Some (S - {n})"] op [OF Some] by (auto simp: finish_told)
  qed
qed

section \<open>Handlers keep it\<close>

text \<open>Taking a message keeps the nodes and messages in order; only its own node may have lost its last message.\<close>

definition took :: "int \<Rightarrow> nat \<Rightarrow> progress \<Rightarrow> progress" where
  "took n h p = p\<lparr>pg_msgs := pg_msgs p - {#(n, h)#}\<rparr>"

lemma took_fields [simp]:
  "pg_status (took n h p) = pg_status p" "pg_tries (took n h p) = pg_tries p" "pg_open (took n h p) = pg_open p"
  "pg_result (took n h p) = pg_result p" "members (took n h p) = members p" "waiting (took n h p) = waiting p"
  "all_success (took n h p) = all_success p" "gave_up (took n h p) = gave_up p"
  "nodes_ok pars (took n h p) = nodes_ok pars p" "open_ok (took n h p) = open_ok p" "result_ok (took n h p) = result_ok p"
  by (simp_all add: took_def members_def waiting_def all_success_def gave_up_def fun_eq_iff nodes_ok_def open_ok_def result_ok_def)

lemma took_msgs: "msgs_ok pars p \<Longrightarrow> msgs_ok pars (took n h p)"
  by (auto simp: msgs_ok_def) (auto simp: took_def dest: in_diffD)

lemma took_served:
  assumes "served pars p m" and "m \<noteq> n"
  shows "served pars (took n h p) m"
proof -
  have "(m, k) \<in># pg_msgs (took n h p) \<longleftrightarrow> (m, k) \<in># pg_msgs p" for k
    using assms(2) by (simp add: took_def in_diff_count)
  then show ?thesis using assms(1) by (simp add: served_def)
qed

lemma run_okD:
  assumes "run_ok pars kids p"
  shows "plan_ok pars kids (members p)" "nodes_ok pars p" "msgs_ok pars p" "\<And>n. n \<in> members p \<Longrightarrow> served pars p n"
    "open_ok p" "result_ok p"
  using assms by (auto simp: run_ok_def)

lemma advance_blocked:
  assumes ok: "run_ok pars kids p" and m: "(n, h) \<in># pg_msgs p" and b: "\<exists>q\<in>pars n. pg_status p q \<noteq> Some Success"
  shows "run_ok pars kids (took n h p)"
proof -
  note r = run_okD [OF ok]
  have n: "n \<in> members p" using r(3) m by (auto simp: msgs_ok_def)
  have "pg_status p n = Some Pending" using r(2) n b by (auto simp: nodes_ok_def)
  then have "served pars (took n h p) n" using b by (auto simp: served_def)
  then show ?thesis using r took_msgs took_served unfolding run_ok_def by (metis took_fields(5,9,10,11))
qed

lemma advance_skipped:
  assumes ok: "run_ok pars kids p" and m: "(n, h) \<in># pg_msgs p" and sk: "pg_status p n = Some Success \<or> pg_tries p n = 3"
  shows "run_ok pars kids (finish kids locked n (took n h p))"
proof -
  note r = run_okD [OF ok]
  have n: "n \<in> members p" using r(3) m by (auto simp: msgs_ok_def)
  have np: "pg_status p n \<noteq> Some Pending" using r(2) n sk by (auto simp: nodes_ok_def)
  have "served pars (took n h p) n" using sk np by (auto simp: served_def)
  then have "served pars (took n h p) x" if "x \<in> members p" for x using r(4) that took_served by metis
  then show ?thesis
    using r n np by (intro finish_ok) (auto simp: took_msgs open_ok_def result_ok_def)
qed

definition tried :: "int \<Rightarrow> node_state \<Rightarrow> progress \<Rightarrow> progress" where
  "tried n s p = p\<lparr>pg_status := (pg_status p)(n \<mapsto> s), pg_tries := (pg_tries p)(n := Suc (pg_tries p n))\<rparr>"

lemma tried_fields [simp]:
  "pg_status (tried n s p) = (pg_status p)(n \<mapsto> s)" "pg_tries (tried n s p) = (pg_tries p)(n := Suc (pg_tries p n))"
  "pg_msgs (tried n s p) = pg_msgs p" "pg_open (tried n s p) = pg_open p" "pg_result (tried n s p) = pg_result p"
  "members (tried n s p) = insert n (members p)"
  by (auto simp: tried_def members_def)

lemma advance_eq:
  "advance pars kids locked good n h p =
     (if \<exists>q\<in>pars n. pg_status p q \<noteq> Some Success then took n h p
      else if pg_status p n = Some Success \<or> pg_tries p n = 3 then finish kids locked n (took n h p)
      else if good then finish kids locked n (tried n Success (took n h p))
      else (tried n Failed (took n h p))\<lparr>
        pg_result := (if Suc (pg_tries p n) = 3 then map_option (\<lambda>_. RunFailed) (pg_result p) else pg_result p),
        pg_msgs := pg_msgs p - {#(n, h)#} + (if h < maxRetries then {#(n, Suc h)#} else {#})\<rparr>)"
  by (simp add: advance_def Let_def took_def tried_def)

text \<open>A node that is not skipped and not blocked: its attempt keeps the nodes and messages in order.\<close>

lemma tried_ok:
  assumes nodes: "nodes_ok pars p" and msgs: "msgs_ok pars p" and n: "n \<in> members p" "pars n \<noteq> {}"
    and go: "\<forall>q\<in>pars n. pg_status p q = Some Success" "pg_status p n \<noteq> Some Success" "pg_tries p n \<noteq> 3"
    and s: "s = Success \<or> s = Failed"
  shows "nodes_ok pars (tried n s p)" and "msgs_ok pars (tried n s p)"
proof -
  have le: "Suc (pg_tries p n) \<le> 3" using nodes n go(3) by (fastforce simp: nodes_ok_def)
  have self: "n \<notin> pars n" using go by auto
  have other: "n \<notin> pars m" if "m \<in> members p" "pg_status p m \<noteq> Some Pending" for m
    using nodes that go(2) by (auto simp: nodes_ok_def)
  show "nodes_ok pars (tried n s p)"
    unfolding nodes_ok_def
  proof
    fix m assume "m \<in> members (tried n s p)"
    then have m: "m \<in> members p" using n by auto
    let ?P = "\<lambda>p. pg_status p m \<noteq> Some Running \<and> pg_tries p m \<le> 3 \<and> (pars m = {} \<longrightarrow> pg_status p m = Some Success) \<and>
        (pg_status p m = Some Pending \<longrightarrow> pg_tries p m = 0) \<and>
        (pg_status p m \<noteq> Some Pending \<longrightarrow> (\<forall>q\<in>pars m. pg_status p q = Some Success))"
    have P: "?P p" using nodes m by (simp add: nodes_ok_def)
    show "?P (tried n s p)"
    proof (cases "m = n")
      case True
      have "\<forall>q\<in>pars n. pg_status (tried n s p) q = Some Success" using go(1) self by auto
      then show ?thesis using True n(2) s le by auto
    next
      case False
      have "\<forall>q\<in>pars m. pg_status (tried n s p) q = Some Success" if "pg_status p m \<noteq> Some Pending"
        using P other [OF m that] that by auto
      then show ?thesis using P False by simp
    qed
  qed
  show "msgs_ok pars (tried n s p)" using msgs n by (auto simp: msgs_ok_def intro: le_SucI)
qed

lemma advance_good:
  assumes ok: "run_ok pars kids p" and m: "(n, h) \<in># pg_msgs p"
    and go: "\<forall>q\<in>pars n. pg_status p q = Some Success" "pg_status p n \<noteq> Some Success" "pg_tries p n \<noteq> 3"
  shows "run_ok pars kids (finish kids locked n (tried n Success (took n h p)))"
proof -
  note r = run_okD [OF ok]
  have n: "n \<in> members p" "pars n \<noteq> {}" using r(3) m by (auto simp: msgs_ok_def)
  then have mem: "members (tried n Success (took n h p)) = members p" by auto
  note t = tried_ok [of pars "took n h p" n Success]
  have serv: "x \<in> set (kids n) \<and> pg_status (tried n Success (took n h p)) x = Some Pending \<or> served pars (tried n Success (took n h p)) x"
    if x: "x \<in> members p" for x
  proof (cases "x = n \<or> x \<in> set (kids n)")
    case True
    then show ?thesis
    proof
      assume "x \<in> set (kids n)"
      moreover from this have "n \<in> pars x" using r(1) n(1) by (auto simp: plan_ok_def)
      then have "pg_status p x = Some Pending" using r(2) x go(2) by (auto simp: nodes_ok_def)
      ultimately show ?thesis by (auto simp: served_def)
    qed (auto simp: served_def)
  next
    case False
    then have "n \<notin> pars x" using r(1) n(1) x by (auto simp: plan_ok_def)
    then have "(\<forall>q\<in>pars x. ((pg_status p)(n \<mapsto> Success)) q = Some Success) \<longleftrightarrow> (\<forall>q\<in>pars x. pg_status p q = Some Success)"
      by auto
    then show ?thesis using took_served [OF r(4) [OF x], of n h] False by (auto simp: served_def)
  qed
  have ns: "\<not> all_success p" using n go(2) by (auto simp: all_success_def)
  show ?thesis
  proof (rule finish_ok)
    show "nodes_ok pars (tried n Success (took n h p))" "msgs_ok pars (tried n Success (took n h p))"
      using t r n go took_msgs by auto
    show "waiting (tried n Success (took n h p)) \<subseteq> S \<and>
        (\<forall>m\<in>S - {n}. m \<in> members (tried n Success (took n h p)) \<and> pg_status (tried n Success (took n h p)) m \<noteq> Some Success)"
      if "pg_open (tried n Success (took n h p)) = Some S" for S
      using r(5) that by (auto simp: open_ok_def waiting_def)
    show "pg_result (tried n Success (took n h p)) = Some RunSuccess \<longrightarrow> all_success (tried n Success (took n h p))"
      using r(6) ns by (auto simp: result_ok_def)
    show "(\<exists>m. gave_up (tried n Success (took n h p)) m) \<longrightarrow> pg_result (tried n Success (took n h p)) = Some RunFailed"
      using r(6) by (auto simp: result_ok_def gave_up_def)
    show "x \<in> set (kids n) \<and> pg_status (tried n Success (took n h p)) x = Some Pending \<or> served pars (tried n Success (took n h p)) x"
      if "x \<in> members (tried n Success (took n h p))" for x
      using serv that unfolding mem by blast
    show "plan_ok pars kids (members (tried n Success (took n h p)))" using r(1) unfolding mem .
    show "pg_result (tried n Success (took n h p)) \<in> {Some RunRunning, Some RunSuccess, Some RunFailed}"
      using r(6) by (auto simp: result_ok_def)
  qed simp_all
qed

lemma advance_bad:
  assumes ok: "run_ok pars kids p" and m: "(n, h) \<in># pg_msgs p"
    and go: "\<forall>q\<in>pars n. pg_status p q = Some Success" "pg_status p n \<noteq> Some Success" "pg_tries p n \<noteq> 3"
  shows "run_ok pars kids ((tried n Failed (took n h p))\<lparr>
      pg_result := (if Suc (pg_tries p n) = 3 then map_option (\<lambda>_. RunFailed) (pg_result p) else pg_result p),
      pg_msgs := pg_msgs p - {#(n, h)#} + (if h < maxRetries then {#(n, Suc h)#} else {#})\<rparr>)"
    (is "run_ok pars kids ?p'")
proof -
  note r = run_okD [OF ok]
  have n: "n \<in> members p" "pars n \<noteq> {}" and h: "h \<le> pg_tries p n" using r(3) m by (auto simp: msgs_ok_def)
  have "pg_tries p n < 3" using r(2) n go(3) by (fastforce simp: nodes_ok_def)
  then have again: "h < maxRetries" using h by (simp add: maxRetries_def)
  have mem: "members ?p' = members p" using n by (auto simp: members_def)
  note t = tried_ok [of pars "took n h p" n Failed]
  have tm: "members (tried n Failed (took n h p)) = members p" using n by auto
  have "nodes_ok pars (tried n Failed (took n h p))" "msgs_ok pars (tried n Failed (took n h p))"
    using t r n go took_msgs by auto
  then have "nodes_ok pars ?p'" "msgs_ok pars ?p'"
    using n h again unfolding nodes_ok_def msgs_ok_def mem tm by (simp_all add: took_def)
  moreover have "served pars ?p' x" if x: "x \<in> members p" for x
  proof (cases "x = n")
    case True
    then show ?thesis using again by (auto simp: served_def)
  next
    case False
    have ready: "\<forall>q\<in>pars x. pg_status p q = Some Success" if "\<forall>q\<in>pars x. ((pg_status p)(n \<mapsto> Failed)) q = Some Success"
      using that by (metis fun_upd_apply node_state.distinct(11) option.inject)
    have "served pars (took n h p) x" using took_served [OF r(4) [OF x] False] .
    then show ?thesis using False ready by (auto simp: served_def took_def)
  qed
  moreover have "open_ok ?p'" using r(5) n by (auto simp: open_ok_def waiting_def members_def)
  moreover have "result_ok ?p'"
    using r(6) n go(2) by (auto simp: result_ok_def all_success_def members_def gave_up_def split: if_splits)
  ultimately show ?thesis using r(1) unfolding run_ok_def mem by blast
qed

lemma advance_ok:
  assumes "run_ok pars kids p" and "(n, h) \<in># pg_msgs p"
  shows "run_ok pars kids (advance pars kids locked good n h p)"
  using advance_blocked [OF assms] advance_skipped [OF assms] advance_good [OF assms] advance_bad [OF assms]
  by (auto simp: advance_eq)

section \<open>A run at rest\<close>

lemma run_at_rest:
  assumes ok: "run_ok pars kids p" and none: "pg_msgs p = {#}"
    and wf: "wf {(q, n). n \<in> members p \<and> q \<in> pars n}"
  shows "\<forall>n\<in>members p. pg_status p n = Some Success \<or> gave_up p n \<or>
      pg_status p n = Some Pending \<and> (\<exists>q\<in>pars n. pg_status p q \<noteq> Some Success)"
    and "pg_result p = Some (if all_success p then RunSuccess else RunFailed)"
    and "all_success p \<longleftrightarrow> \<not> (\<exists>n. gave_up p n)"
proof -
  note r = run_okD [OF ok]
  show nodes: "\<forall>n\<in>members p. pg_status p n = Some Success \<or> gave_up p n \<or>
      pg_status p n = Some Pending \<and> (\<exists>q\<in>pars n. pg_status p q \<noteq> Some Success)"
  proof
    fix n assume n: "n \<in> members p"
    then obtain s where s: "pg_status p n = Some s" by (auto simp: members_def)
    have "served pars p n" "s \<noteq> Running" "pg_tries p n \<le> 3" using r(2,4) n s by (auto simp: nodes_ok_def)
    then show "pg_status p n = Some Success \<or> gave_up p n \<or> pg_status p n = Some Pending \<and> (\<exists>q\<in>pars n. pg_status p q \<noteq> Some Success)"
      using s none by (cases s) (auto simp: served_def gave_up_def le_less)
  qed
  show all: "all_success p \<longleftrightarrow> \<not> (\<exists>n. gave_up p n)"
  proof
    assume none: "\<not> (\<exists>n. gave_up p n)"
    have "n \<in> members p \<longrightarrow> pg_status p n = Some Success" for n
    proof (rule wf_induct_rule [OF wf, of _ n])
      fix n assume IH: "\<And>q. (q, n) \<in> {(q, n). n \<in> members p \<and> q \<in> pars n} \<Longrightarrow> q \<in> members p \<longrightarrow> pg_status p q = Some Success"
      show "n \<in> members p \<longrightarrow> pg_status p n = Some Success"
      proof
        assume n: "n \<in> members p"
        then have "pars n \<subseteq> members p" using r(1) by (auto simp: plan_ok_def)
        then show "pg_status p n = Some Success" using nodes n none IH by blast
      qed
    qed
    then show "all_success p" by (auto simp: all_success_def)
  qed (auto simp: all_success_def gave_up_def members_def)
  show "pg_result p = Some (if all_success p then RunSuccess else RunFailed)"
    using r(6) all by (auto simp: result_ok_def)
qed

section \<open>Every delivery counts\<close>

definition edge_rel :: "wf_edge list \<Rightarrow> (int \<times> int) set" where
  "edge_rel edges = (\<lambda>e. (we_source e, we_target e)) ` set edges"

definition msg_less :: "wf_edge list \<Rightarrow> ((int \<times> int \<times> nat) \<times> (int \<times> int \<times> nat)) set" where
  "msg_less edges = {((r', n', h'), (r, n, h)). (n, n') \<in> edge_rel edges \<or> n' = n \<and> h < h' \<and> h' \<le> maxRetries}"

definition queue_msgs :: "world \<Rightarrow> (int \<times> int \<times> nat) multiset" where
  "queue_msgs w = image_mset (\<lambda>m. (t_run (m_task m), t_node (m_task m), retries m)) (mset (wd_queue w))"

lemma wf_msg_less:
  assumes "acyclic (edge_rel edges)"
  shows "wf (msg_less edges)"
proof -
  have "wf ((edge_rel edges)\<inverse>)"
    using assms by (intro finite_acyclic_wf_converse) (auto simp: edge_rel_def)
  then have "wf (inv_image ((edge_rel edges)\<inverse> <*lex*> measure (\<lambda>h. maxRetries - h)) snd)" by (intro wf_inv_image wf_lex_prod) auto
  moreover have "msg_less edges \<subseteq> inv_image ((edge_rel edges)\<inverse> <*lex*> measure (\<lambda>h. maxRetries - h)) snd"
    by (auto simp: msg_less_def)
  ultimately show ?thesis by (rule wf_subset)
qed

lemma count_queue_msgs: "count (queue_msgs w) (run, x) = count (pg_msgs (progress_of run w)) x"
proof -
  have "count (image_mset (\<lambda>m. (t_run (m_task m), t_node (m_task m), retries m)) M) (run, x) =
      count (image_mset (\<lambda>m. (t_node (m_task m), retries m)) (filter_mset (\<lambda>m. t_run (m_task m) = run) M)) x" for M
    by (induction M) auto
  then show ?thesis by (simp add: queue_msgs_def progress_of_def run_msgs_mset)
qed

lemma finish_msgs: "pg_msgs (finish kids locked n p) = pg_msgs (told kids n p)"
  by (simp add: finish_told told_def split: option.splits)

text \<open>A handler replaces its message by smaller ones.\<close>

lemma advance_msgs:
  assumes kids: "\<And>c. c \<in> set (kids n) \<Longrightarrow> (n, c) \<in> edge_rel edges"
  shows "\<exists>K. pg_msgs (advance pars kids locked good n h p) = pg_msgs p - {#(n, h)#} + K \<and>
    (\<forall>(c, k)\<in>#K. (n, c) \<in> edge_rel edges \<or> c = n \<and> h < k \<and> k \<le> maxRetries)"
proof -
  have "\<exists>K. pg_msgs (finish kids locked n q) = pg_msgs q + K \<and> (\<forall>(c, k)\<in>#K. (n, c) \<in> edge_rel edges)" for q
    using kids by (auto simp: finish_msgs told_def)
  then have fin: "\<exists>K. pg_msgs (finish kids locked n q) = pg_msgs p - {#(n, h)#} + K \<and>
      (\<forall>(c, k)\<in>#K. (n, c) \<in> edge_rel edges \<or> c = n \<and> h < k \<and> k \<le> maxRetries)"
    if "pg_msgs q = pg_msgs p - {#(n, h)#}" for q
    using that by (metis (mono_tags, lifting) case_prod_beta)
  have took: "pg_msgs (took n h p) = pg_msgs p - {#(n, h)#}" by (simp add: took_def)
  show ?thesis
  proof (cases "(\<exists>q\<in>pars n. pg_status p q \<noteq> Some Success) \<or> pg_status p n = Some Success \<or> pg_tries p n = 3 \<or> good")
    case True
    then show ?thesis
      using fin [OF took] fin [of "tried n Success (took n h p)"] took by (auto simp: advance_eq intro!: exI [of _ "{#}"])
  next
    case False
    then show ?thesis
      by (intro exI [of _ "if h < maxRetries then {#(n, Suc h)#} else {#}"]) (auto simp: advance_eq)
  qed
qed

section \<open>Requests and deliveries one after the other\<close>

datatype quiet_event = StartRun string int | Handle nat fault | ForgetSet int | ForgetLock int

fun quiet_step :: "(wf_node list \<Rightarrow> wf_edge list \<Rightarrow> string option) \<Rightarrow> quiet_event \<Rightarrow> world \<Rightarrow> world" where
  "quiet_step validate (StartRun userID workflowID) w = snd (exec (quiet Fine) (OrchestrateWorkflow validate userID workflowID) w)"
| "quiet_step validate (Handle i f) w = handle i f w"
| "quiet_step validate (ForgetSet run) w = w\<lparr>wd_sets := (wd_sets w)(run := None)\<rparr>"
| "quiet_step validate (ForgetLock run) w = w\<lparr>wd_locks := wd_locks w - {run}\<rparr>"

text \<open>Workflows as the canvas intends them: edges stay within a workflow and form no cycle, the triggers are the nodes without
  incoming edges, and there is something to do.\<close>

definition graphs_ok :: "wf_node list \<Rightarrow> wf_edge list \<Rightarrow> bool" where
  "graphs_ok nodes edges \<longleftrightarrow>
     distinct (map nd_id nodes) \<and>
     (\<forall>e\<in>set edges. \<exists>a\<in>set nodes. \<exists>b\<in>set nodes. nd_id a = we_source e \<and> nd_id b = we_target e \<and>
        nd_workflow a = we_workflow e \<and> nd_workflow b = we_workflow e) \<and>
     acyclic (edge_rel edges) \<and>
     (\<forall>n\<in>set nodes. nd_category n = ''trigger'' \<longleftrightarrow> nd_id n \<notin> snd ` edge_rel edges) \<and>
     (\<forall>n\<in>set nodes. \<exists>a\<in>set nodes. nd_workflow a = nd_workflow n \<and> nd_category a \<noteq> ''trigger'')"

definition quiet_ok :: "wf_node list \<Rightarrow> wf_edge list \<Rightarrow> world \<Rightarrow> bool" where
  "quiet_ok nodes edges w \<longleftrightarrow>
     engine_ok edges \<lparr>en_world = w, en_jobs = []\<rparr> \<and> tables_ok w \<and> wd_nodes w = nodes \<and>
     (\<forall>r\<in>set (wd_nodeRuns w). nr_node r \<in> nd_id ` set nodes) \<and>
     (\<forall>run\<ge>wd_nextRun w. pg_result (progress_of run w) = None \<and> pg_open (progress_of run w) = None) \<and>
     (\<forall>run. pg_result (progress_of run w) \<noteq> None \<longrightarrow> run_ok (parents_of run w) (children_of run w) (progress_of run w))"

lemma GetWorkflowNode_known: "n \<in> nd_id ` set (wd_nodes w) \<Longrightarrow> GetWorkflowNode n w \<noteq> None"
  by (auto simp: GetWorkflowNode_def find_None_iff)

lemma same_plan_nodes: "same_plan w w' \<Longrightarrow> nr_node ` set (wd_nodeRuns w') = nr_node ` set (wd_nodeRuns w)"
proof -
  assume "same_plan w w'"
  then have "map (\<lambda>r. (nr_id r, node_key r)) (wd_nodeRuns w') = map (\<lambda>r. (nr_id r, node_key r)) (wd_nodeRuns w)"
    by (simp add: same_plan_def)
  from arg_cong [OF this, of "\<lambda>ks. (snd \<circ> snd) ` set ks"] show ?thesis by (simp add: image_image node_key_def)
qed

lemma rows_known: "(\<forall>r\<in>set rs. nr_node r \<in> N) \<longleftrightarrow> nr_node ` set rs \<subseteq> N"
  by auto

lemma quiet_task:
  assumes "quiet_ok nodes edges w" and "m \<in> set (wd_queue w)"
  shows "task_row w (m_task m)" and "t_run (m_task m) < wd_nextRun w"
proof -
  have "known_task w (m_task m)" using assms by (auto simp: quiet_ok_def engine_ok_def)
  then obtain r where r: "r \<in> set (wd_nodeRuns w)" "nr_id r = t_nodeRun (m_task m)" "nr_run r = t_run (m_task m)" "nr_node r = t_node (m_task m)"
    by (auto simp: known_task_def row_key_def)
  then have "t_node (m_task m) \<in> nd_id ` set (wd_nodes w)" using assms(1) unfolding quiet_ok_def by metis
  then show "task_row w (m_task m)" using r GetWorkflowNode_known unfolding task_row_def by blast
  show "t_run (m_task m) < wd_nextRun w" using assms(1) r by (auto simp: quiet_ok_def engine_ok_def world_ok_def)
qed

lemma quiet_handle:
  assumes ok: "quiet_ok nodes edges w"
  shows "quiet_ok nodes edges (handle i f w)"
proof (cases "i < length (wd_queue w)")
  case True
  let ?m = "wd_queue w ! i" and ?w = "handle i f w"
  let ?run = "t_run (m_task ?m)"
  have tab: "tables_ok w" using ok by (simp add: quiet_ok_def)
  have m: "?m \<in> set (wd_queue w)" using True by simp
  note t = quiet_task [OF ok m]
  note plan = same_plan_handle [of w i f]
  have pr: "progress_of run ?w =
    (if run = ?run
     then advance (parents_of run w) (children_of run w) (run \<in> wd_locks w) (action_ok f w (t_node (m_task ?m)))
            (t_node (m_task ?m)) (retries ?m) (progress_of run w)
     else progress_of run w)" for run
    by (rule handle_progress [OF tab True refl t(1)])
  have "engine_ok edges \<lparr>en_world = ?w, en_jobs = []\<rparr>"
    using handle_by_steps [of "\<lambda>_ _. None" w i f] run_engine.inv_fold [of edges "\<lparr>en_world = w, en_jobs = []\<rparr>"] ok
    by (metis quiet_ok_def)
  moreover have "tables_ok ?w" using same_planD(1) [OF plan tab] .
  moreover have "wd_nodes ?w = nodes" using plan ok by (simp add: same_plan_def quiet_ok_def)
  moreover have "\<forall>r\<in>set (wd_nodeRuns ?w). nr_node r \<in> nd_id ` set nodes"
    using ok same_plan_nodes [OF plan] unfolding quiet_ok_def rows_known by simp
  moreover have "pg_result (progress_of run ?w) = None \<and> pg_open (progress_of run ?w) = None" if "wd_nextRun ?w \<le> run" for run
    using that plan t(2) ok by (auto simp: pr same_plan_def quiet_ok_def)
  moreover have "run_ok (parents_of run ?w) (children_of run ?w) (progress_of run ?w)" if "pg_result (progress_of run ?w) \<noteq> None" for run
  proof (cases "run = ?run")
    case True
    have mem: "(t_node (m_task ?m), retries ?m) \<in># pg_msgs (progress_of ?run w)"
      using m by (auto simp: progress_of_def run_msgs_mset)
    have "pg_result (progress_of run w) \<noteq> None"
      using that True by (auto simp: pr advance_eq finish_told split: option.splits if_splits)
    then show ?thesis
      using ok True mem unfolding same_planD(3,4) [OF plan] pr by (auto simp: quiet_ok_def intro!: advance_ok)
  next
    case False
    then show ?thesis using that ok unfolding same_planD(3,4) [OF plan] pr by (auto simp: quiet_ok_def)
  qed
  ultimately show ?thesis by (simp add: quiet_ok_def)
qed (use ok in \<open>simp add: handle_def\<close>)

section \<open>Starting a run\<close>

lemma exec_engine_ok:
  assumes "engine_ok edges \<lparr>en_world = w, en_jobs = []\<rparr>" and "safe p w"
  shows "engine_ok edges \<lparr>en_world = snd (exec F p w), en_jobs = []\<rparr>"
  using assms
proof (induction p arbitrary: w)
  case (Call c k)
  let ?r = "fst (attempt (F c) c w)" and ?w = "snd (attempt (F c) c w)"
  have w: "world_ok w" using Call.prems(1) by (simp add: engine_ok_def)
  note sc = safe_call [OF w Call.prems(2)]
  have "engine_ok edges \<lparr>en_world = ?w, en_jobs = []\<rparr>"
    by (rule engine_ok_later [OF Call.prems(1)])
      (use attempt_later [OF w sc(1)] attempt_queue [OF sc(1)] in auto)
  then show ?case using Call.IH [of "k ?r" ?w] sc(2) [of "F c"] by simp
qed simp

definition start_root :: "string \<Rightarrow> int \<Rightarrow> int \<Rightarrow> wf_node \<Rightarrow> world \<Rightarrow> world" where
  "start_root u wid run q w = PublishNodeStatusUpdate run (nd_id q) Success (enqueued u wid (nd_id q) run w)"

lemma exec_start_roots:
  "\<forall>q\<in>set ps. nd_category q = ''trigger'' \<Longrightarrow>
   exec (quiet f) (start_roots u wid run ps) w = (Inr run, fold (start_root u wid run) ps w)"
  by (induction ps arbitrary: w) (auto simp: exec_EnqueueChildNodes start_root_def)

lemma same_plan_root: "same_plan w (start_root u wid run q w)"
  by (simp add: same_plan_def start_root_def PublishNodeStatusUpdate_def enqueued_def)

lemma same_plan_roots: "same_plan w (fold (start_root u wid run) ps w)"
proof (induction ps arbitrary: w)
  case (Cons q ps)
  show ?case using same_plan_trans [OF same_plan_root Cons] by simp
qed simp

lemma wd_locks_roots [simp]: "wd_locks (fold (start_root u wid run) ps w) = wd_locks w"
  by (induction ps arbitrary: w) (simp_all add: start_root_def)

lemma progress_roots:
  assumes "tables_ok w"
  shows "progress_of run' (fold (start_root u wid run) ps w) =
    (if run' = run then (progress_of run w)\<lparr>pg_msgs := pg_msgs (progress_of run w) + mset (concat (map (\<lambda>q.
        map (\<lambda>c. (c, 0)) (filter (\<lambda>c. pg_status (progress_of run w) c = Some Pending) (children_of run w (nd_id q)))) ps))\<rparr>
     else progress_of run' w)"
  using assms
proof (induction ps arbitrary: w)
  case (Cons q ps)
  let ?w = "start_root u wid run q w"
  have "tables_ok ?w" using same_planD(1) [OF same_plan_root Cons.prems] .
  note IH = Cons.IH [OF this, unfolded same_planD(4) [OF same_plan_root]]
  have "progress_of run'' ?w = (if run'' = run then (progress_of run w)\<lparr>pg_msgs := pg_msgs (progress_of run w) + mset
        (map (\<lambda>c. (c, 0)) (filter (\<lambda>c. pg_status (progress_of run w) c = Some Pending) (children_of run w (nd_id q))))\<rparr>
     else progress_of run'' w)" for run''
    using progress_enqueued [OF Cons.prems, of run''] by (simp add: start_root_def)
  then show ?case using IH by (simp add: union_assoc)
qed simp

text \<open>The rows of a new run.\<close>

lemma find_create_rows:
  "List.find (\<lambda>r. nr_run r = run' \<and> nr_node r = n) (create_rows run i ns) \<noteq> None \<longleftrightarrow> run' = run \<and> n \<in> fst ` set ns"
  "map_option nr_status (List.find (\<lambda>r. nr_run r = run \<and> nr_node r = n) (create_rows run i ns)) = map_option initial_status (map_of ns n)"
  "List.find (\<lambda>r. nr_run r = run \<and> nr_node r = n) (create_rows run i ns) = Some r \<Longrightarrow> nr_retry r = 0"
  by (induction ns arbitrary: i) (auto split: if_splits)

lemma find_append: "List.find P (xs @ ys) = (case List.find P xs of None \<Rightarrow> List.find P ys | Some x \<Rightarrow> Some x)"
  by (induction xs) auto

lemma node_key_create: "map node_key (create_rows run i ns) = map (\<lambda>n. (run, fst n)) ns"
  by (induction ns arbitrary: i) (auto simp: node_key_def)

lemma parents_of_filter:
  "parents_of run w n = snd ` {k \<in> set (filter (\<lambda>k. fst k = run) (map node_key (wd_nodeRuns w))).
     \<exists>e\<in>set (wd_edges w). we_source e = snd k \<and> we_target e = n}"
  unfolding parents_of_keys image_def by auto (metis fst_conv snd_conv)+

lemma created:
  assumes ok: "quiet_ok nodes edges w" and c: "CreateWorkflowRun wid ns w = Some (run, w1)" and d: "distinct (map fst ns)"
  shows "run = wd_nextRun w" "wd_nextRun w1 = run + 1" "wd_edges w1 = edges" "wd_nodes w1 = nodes" "tables_ok w1"
    and "progress_of run w1 = \<lparr>pg_status = (\<lambda>n. map_option initial_status (map_of ns n)), pg_tries = (\<lambda>_. 0), pg_msgs = {#},
      pg_open = None, pg_result = Some RunRunning\<rparr>"
    and "\<And>run'. run' \<noteq> run \<Longrightarrow> progress_of run' w1 = progress_of run' w \<and> parents_of run' w1 = parents_of run' w \<and>
      children_of run' w1 = children_of run' w"
    and "\<And>n. parents_of run w1 n = {q \<in> fst ` set ns. (q, n) \<in> edge_rel edges}"
    and "\<And>q. set (children_of run w1 q) = {n \<in> fst ` set ns. (q, n) \<in> edge_rel edges}"
    and "set (map nr_node (wd_nodeRuns w1)) = set (map nr_node (wd_nodeRuns w)) \<union> fst ` set ns"
proof -
  let ?new = "create_rows run (wd_nextNodeRun w) ns"
  have f: "run = wd_nextRun w" "wd_nodeRuns w1 = wd_nodeRuns w @ ?new" "wd_nodes w1 = wd_nodes w" "wd_edges w1 = wd_edges w"
    "wd_nextRun w1 = run + 1" "wd_queue w1 = wd_queue w" "wd_sets w1 = wd_sets w"
    "wd_runs w1 = wd_runs w @ [\<lparr>rr_id = run, rr_workflow = wid, rr_status = RunRunning\<rparr>]"
    using c by (auto simp: CreateWorkflowRun_def Let_def split: if_splits)
  have q: "tables_ok w" "wd_nodes w = nodes" "wd_edges w = edges" "world_ok w"
    "pg_result (progress_of run w) = None" "pg_open (progress_of run w) = None"
    using ok by (auto simp: quiet_ok_def engine_ok_def f(1))
  have old: "nr_run r < run \<and> nr_id r < wd_nextNodeRun w" if "r \<in> set (wd_nodeRuns w)" for r
    using q(4) that by (auto simp: world_ok_def f(1))
  have nk: "map node_key (wd_nodeRuns w1) = map node_key (wd_nodeRuns w) @ map (\<lambda>n. (run, fst n)) ns"
    by (simp add: f(2) node_key_create)
  show "run = wd_nextRun w" "wd_nextRun w1 = run + 1" "wd_edges w1 = edges" "wd_nodes w1 = nodes" using f q by auto
  have "distinct (map node_key (wd_nodeRuns w1))"
    using q(1) d old unfolding nk by (auto simp: tables_ok_def distinct_map inj_on_def node_key_def)
  moreover have "distinct (map nr_id (wd_nodeRuns w1))"
    using later_ok [OF later_Create [OF q(4) c]] by (simp add: world_ok_def)
  ultimately show "tables_ok w1" using q(1) by (simp add: tables_ok_def f(7))
  have none: "List.find (\<lambda>r. nr_run r = run \<and> nr_node r = n) (wd_nodeRuns w) = None" for n
    using old by (force simp: find_None_iff)
  have msgs: "run_msgs run (wd_queue w) = {#}"
    using quiet_task(2) [OF ok] by (force simp: run_msgs_def f(1) filter_empty_conv)
  have res: "List.find (\<lambda>r. rr_id r = run) (wd_runs w) = None" and op: "wd_sets w run = None"
    using q(5,6) by (auto simp: progress_of_def)
  show "progress_of run w1 = \<lparr>pg_status = (\<lambda>n. map_option initial_status (map_of ns n)), pg_tries = (\<lambda>_. 0), pg_msgs = {#},
      pg_open = None, pg_result = Some RunRunning\<rparr>"
    using find_create_rows(3) [of run _ "wd_nextNodeRun w" ns]
    by (auto simp: progress_of_def GetWorkflowNodeRun_def f(2,6,7,8) find_append none find_create_rows(2) msgs res op fun_eq_iff
        split: option.splits)
  have kfil: "filter (\<lambda>k. fst k = run') (map node_key (wd_nodeRuns w1)) =
      (if run' = run then map (\<lambda>n. (run, fst n)) ns else filter (\<lambda>k. fst k = run') (map node_key (wd_nodeRuns w)))" for run'
    unfolding nk using old by (auto simp: filter_empty_conv node_key_def filter_map o_def)
  show "progress_of run' w1 = progress_of run' w \<and> parents_of run' w1 = parents_of run' w \<and> children_of run' w1 = children_of run' w"
    if "run' \<noteq> run" for run'
  proof (intro conjI ext)
    have "List.find (\<lambda>r. nr_run r = run' \<and> nr_node r = n) ?new = None" for n
      using find_create_rows(1) that by blast
    then show "progress_of run' w1 = progress_of run' w"
      using that by (auto simp: progress_of_def GetWorkflowNodeRun_def f(2,6,7,8) find_append fun_eq_iff split: option.splits)
    fix n
    show "parents_of run' w1 n = parents_of run' w n" unfolding parents_of_filter kfil f(4) using that by simp
    show "children_of run' w1 n = children_of run' w n" unfolding children_of_keys kfil f(4) using that by simp
  qed
  show "parents_of run w1 n = {q \<in> fst ` set ns. (q, n) \<in> edge_rel edges}" for n
    unfolding parents_of_filter kfil f(4) q(3) edge_rel_def by (force simp: image_iff)
  show "set (children_of run w1 q') = {n \<in> fst ` set ns. (q', n) \<in> edge_rel edges}" for q'
    unfolding children_of_keys kfil f(4) q(3) edge_rel_def by (force simp: image_iff)
  have "nr_node ` set ?new = fst ` set ns"
    using arg_cong [OF node_key_create [of run "wd_nextNodeRun w" ns], of "\<lambda>xs. snd ` set xs"]
    by (simp add: image_image node_key_def)
  then show "set (map nr_node (wd_nodeRuns w1)) = set (map nr_node (wd_nodeRuns w)) \<union> fst ` set ns"
    by (simp add: f(2) image_Un)
qed

lemma root_iff_trigger:
  assumes g: "graphs_ok nodes edges" and w: "wd_nodes w = nodes" "wd_edges w = edges"
    and graph: "GetWorkflowGraph wid w = Some (ns, es)" and n: "n \<in> set ns"
  shows "nd_id n \<in> set (map nd_id (GetRootNodes ns es)) \<longleftrightarrow> nd_category n = ''trigger''"
proof -
  have ns: "ns = filter (\<lambda>n. nd_workflow n = wid) nodes"
    and es: "es = concat (map (\<lambda>n. filter (\<lambda>e. we_workflow e = wid \<and> we_source e = nd_id n) edges) ns)"
    using graph w by (auto simp: GetWorkflowGraph_def Let_def split: if_splits)
  have inj: "a = b" if "a \<in> set nodes" "b \<in> set nodes" "nd_id a = nd_id b" for a b
    using g that by (auto simp: graphs_ok_def distinct_map inj_on_def)
  have "nd_id n \<in> set (map we_target es) \<longleftrightarrow> nd_id n \<in> snd ` edge_rel edges"
  proof
    assume "nd_id n \<in> snd ` edge_rel edges"
    then obtain e where e: "e \<in> set edges" "we_target e = nd_id n" by (auto simp: edge_rel_def)
    then obtain a b where ab: "a \<in> set nodes" "b \<in> set nodes" "nd_id a = we_source e" "nd_id b = we_target e"
      "nd_workflow a = we_workflow e" "nd_workflow b = we_workflow e" using g unfolding graphs_ok_def by blast
    have "b = n" using inj ab e n ns by auto
    then have "e \<in> set es" using ab e n ns by (auto simp: es)
    then show "nd_id n \<in> set (map we_target es)" using e by force
  qed (auto simp: es edge_rel_def image_image)
  moreover have "nd_id n \<in> set (map nd_id (GetRootNodes ns es)) \<longleftrightarrow> nd_id n \<notin> set (map we_target es)"
    using n by (auto simp: GetRootNodes_def image_iff)
  ultimately show ?thesis using g n ns by (auto simp: graphs_ok_def)
qed

text \<open>The progress of a run that has just been started.\<close>

lemma started_run_ok:
  assumes N: "\<And>n. n \<in> N \<Longrightarrow> trig n \<longleftrightarrow> pars n = {}" and act: "\<exists>n\<in>N. \<not> trig n"
    and pars: "\<And>n. n \<in> N \<Longrightarrow> pars n \<subseteq> N" and kids: "\<And>q. q \<in> N \<Longrightarrow> set (kids q) = {n\<in>N. q \<in> pars n}"
    and st: "\<And>n. pg_status p n = (if n \<in> N then Some (if trig n then Success else Pending) else None)"
    and tries: "\<And>n. pg_tries p n = 0" and res: "pg_result p = Some RunRunning" and op: "pg_open p = Some {n\<in>N. \<not> trig n}"
    and msgs: "\<And>c h. (c, h) \<in># pg_msgs p \<longleftrightarrow> h = 0 \<and> (\<exists>q\<in>N. trig q \<and> c \<in> set (kids q) \<and> \<not> trig c)"
  shows "run_ok pars kids p"
proof -
  have mem: "members p = N" by (auto simp: members_def st split: if_splits)
  have nt: "\<exists>n\<in>N. pars n \<noteq> {}" using act N by blast
  have "plan_ok pars kids N" using pars kids nt unfolding plan_ok_def by blast
  moreover have "nodes_ok pars p" using N by (auto simp: nodes_ok_def mem st tries)
  moreover have "msgs_ok pars p" using kids N by (auto simp: msgs_ok_def mem msgs)
  moreover have "served pars p n" if n: "n \<in> N" for n
  proof (cases "trig n")
    case False
    then obtain q where q: "q \<in> pars n" using N n by blast
    then have "q \<in> N" "n \<in> set (kids q)" using pars kids n by auto
    then show ?thesis using q False n by (auto simp: served_def st msgs split: if_splits)
  qed (use n in \<open>simp add: served_def st\<close>)
  moreover have "open_ok p" using act by (auto simp: open_ok_def op waiting_def mem st split: if_splits)
  moreover have "result_ok p" using act by (auto simp: result_ok_def res all_success_def mem st gave_up_def split: if_splits)
  ultimately show ?thesis by (simp add: run_ok_def mem)
qed

lemma has_action:
  assumes "graphs_ok nodes edges" and "filter (\<lambda>n. nd_workflow n = wid) nodes \<noteq> []"
  shows "\<exists>a\<in>set (filter (\<lambda>n. nd_workflow n = wid) nodes). nd_category a \<noteq> ''trigger''"
proof -
  obtain n where "n \<in> set nodes" "nd_workflow n = wid" using assms(2) by (auto simp: filter_empty_conv)
  then show ?thesis using assms(1) unfolding graphs_ok_def by fastforce
qed

lemma edge_within:
  assumes "graphs_ok nodes edges" and "(q, n) \<in> edge_rel edges" and "n \<in> nd_id ` set (filter (\<lambda>x. nd_workflow x = wid) nodes)"
  shows "q \<in> nd_id ` set (filter (\<lambda>x. nd_workflow x = wid) nodes)"
proof -
  obtain e where e: "e \<in> set edges" "we_source e = q" "we_target e = n" using assms(2) by (auto simp: edge_rel_def)
  then obtain a b where ab: "a \<in> set nodes" "b \<in> set nodes" "nd_id a = q" "nd_id b = n" "nd_workflow a = nd_workflow b"
    using assms(1) unfolding graphs_ok_def by metis
  obtain x where x: "x \<in> set nodes" "nd_id x = n" "nd_workflow x = wid" using assms(3) by auto
  have "x = b" using assms(1) ab x by (auto simp: graphs_ok_def distinct_map inj_on_def)
  then show ?thesis using ab x by auto
qed

text \<open>The world after the root nodes of a new run have been started.\<close>

lemma started_quiet:
  fixes nodes :: "wf_node list" and wid :: int
  defines "ns \<equiv> filter (\<lambda>n. nd_workflow n = wid) nodes"
  defines "N \<equiv> nd_id ` set ns" and "trig \<equiv> \<lambda>i. \<exists>n\<in>set ns. nd_id n = i \<and> nd_category n = ''trigger''"
  assumes g: "graphs_ok nodes edges" and ok: "quiet_ok nodes edges w" and ne: "ns \<noteq> []"
    and c: "CreateWorkflowRun wid (map (\<lambda>n. (nd_id n, nd_category n)) ns) w = Some (run, w1)"
    and roots: "set (map nd_id roots) = {i\<in>N. trig i}"
    and w2: "w2 = w1\<lparr>wd_sets := (wd_sets w1)(run \<mapsto> {i\<in>N. \<not> trig i})\<rparr>"
    and eng: "engine_ok edges \<lparr>en_world = fold (start_root u wid run) roots w2, en_jobs = []\<rparr>"
  shows "quiet_ok nodes edges (fold (start_root u wid run) roots w2)" (is "quiet_ok _ _ ?w3")
proof -
  have d: "distinct (map nd_id ns)" using g unfolding ns_def by (auto simp: graphs_ok_def intro: distinct_map_filter_key)
  have cr: "distinct (map fst (map (\<lambda>n. (nd_id n, nd_category n)) ns))" using d by (simp add: o_def)
  note cr = created [OF ok c cr]
  have Nf: "fst ` set (map (\<lambda>n. (nd_id n, nd_category n)) ns) = N" by (simp add: N_def image_image)
  have ok2: "tables_ok w2" using cr(5) by (auto simp: tables_ok_def w2 N_def)
  note plan = same_plan_roots [of w2 u wid run roots]
  have pc: "parents_of r ?w3 = parents_of r w1" "children_of r ?w3 = children_of r w1" for r
    using same_planD(3,4) [OF plan] by (simp_all add: w2 parents_of_keys children_of_keys fun_eq_iff)
  have p2: "progress_of r w2 = (if r = run then (progress_of run w1)\<lparr>pg_open := Some {i\<in>N. \<not> trig i}\<rparr> else progress_of r w1)" for r
    unfolding w2 by (rule progress_sets)
  note p3 = progress_roots [OF ok2, of _ u wid run roots]
  have other: "progress_of r ?w3 = progress_of r w" "parents_of r ?w3 = parents_of r w" "children_of r ?w3 = children_of r w" if "r \<noteq> run" for r
    using cr(7) [OF that] that by (simp_all add: p3 p2 pc)
  have uniq: "m = n" if "m \<in> set ns" "n \<in> set ns" "nd_id m = nd_id n" for m n
    using d that by (auto simp: distinct_map inj_on_def)
  have st: "map_option initial_status (map_of (map (\<lambda>n. (nd_id n, nd_category n)) ns) i) =
      (if i \<in> N then Some (if trig i then Success else Pending) else None)" for i
  proof (cases "i \<in> N")
    case True
    then obtain n where n: "n \<in> set ns" "nd_id n = i" by (auto simp: N_def)
    then have "map_of (map (\<lambda>n. (nd_id n, nd_category n)) ns) i = Some (nd_category n)"
      using d by (auto simp: map_of_eq_Some_iff o_def)
    moreover have "trig i \<longleftrightarrow> nd_category n = ''trigger''" using n uniq by (auto simp: trig_def)
    ultimately show ?thesis using True by (simp add: initial_status_def)
  next
    case False
    then show ?thesis by (auto simp: N_def map_of_eq_None_iff image_image)
  qed
  have pars: "parents_of run ?w3 n = {q \<in> N. (q, n) \<in> edge_rel edges}" for n unfolding pc cr(8) Nf by (rule refl)
  have kids: "set (children_of run ?w3 q) = {n \<in> N. (q, n) \<in> edge_rel edges}" for q unfolding pc cr(9) Nf by (rule refl)
  have new: "run_ok (parents_of run ?w3) (children_of run ?w3) (progress_of run ?w3)"
  proof (rule started_run_ok [where N = N and trig = trig])
    show "trig n \<longleftrightarrow> parents_of run ?w3 n = {}" if n: "n \<in> N" for n
    proof -
      obtain x where x: "x \<in> set ns" "nd_id x = n" using n by (auto simp: N_def)
      then have "trig n \<longleftrightarrow> n \<notin> snd ` edge_rel edges" using g uniq by (auto simp: trig_def graphs_ok_def ns_def)
      moreover have "n \<in> snd ` edge_rel edges \<longleftrightarrow> (\<exists>q. (q, n) \<in> edge_rel edges)" by force
      moreover have "q \<in> N" if "(q, n) \<in> edge_rel edges" for q
        using edge_within [OF g that, of wid] n unfolding N_def ns_def by blast
      ultimately show ?thesis unfolding pars by blast
    qed
    obtain a where "a \<in> set ns" "nd_category a \<noteq> ''trigger''" using has_action [OF g ne [unfolded ns_def]] unfolding ns_def by blast
    then show "\<exists>n\<in>N. \<not> trig n" using uniq by (auto simp: N_def trig_def)
    show "(c', h) \<in># pg_msgs (progress_of run ?w3) \<longleftrightarrow>
        h = 0 \<and> (\<exists>q\<in>N. trig q \<and> c' \<in> set (children_of run ?w3 q) \<and> \<not> trig c')" for c' h
    proof -
      have st2: "pg_status (progress_of run w2) i = Some Pending \<longleftrightarrow> i \<in> N \<and> \<not> trig i" for i by (simp add: p2 cr(6) st)
      have "(c', h) \<in># pg_msgs (progress_of run ?w3) \<longleftrightarrow>
          h = 0 \<and> (\<exists>r\<in>set roots. c' \<in> set (children_of run w2 (nd_id r)) \<and> pg_status (progress_of run w2) c' = Some Pending)"
        using p3 [of run] by (auto simp: p2 cr(6))
      also have "\<dots> \<longleftrightarrow> h = 0 \<and> (\<exists>q\<in>nd_id ` set roots. c' \<in> set (children_of run ?w3 q) \<and> c' \<in> N \<and> \<not> trig c')"
        unfolding st2 same_planD(4) [OF plan] by blast
      finally show ?thesis unfolding roots [unfolded list.set_map] kids by blast
    qed
  qed (use pars kids in \<open>auto simp: p3 p2 cr(6) st\<close>)
  have "nr_node ` set (wd_nodeRuns ?w3) = nr_node ` set (wd_nodeRuns w1)" using same_plan_nodes [OF plan] by (simp add: w2)
  then have "\<forall>r\<in>set (wd_nodeRuns ?w3). nr_node r \<in> nd_id ` set nodes"
    using cr(10) ok unfolding Nf quiet_ok_def N_def ns_def list.set_map rows_known by auto
  moreover have "wd_nextRun ?w3 = run + 1" "wd_nodes ?w3 = nodes" using plan cr(2,4) by (auto simp: same_plan_def w2)
  moreover have "pg_result (progress_of r ?w3) = None \<and> pg_open (progress_of r ?w3) = None" if "run + 1 \<le> r" for r
    using that other(1) [of r] ok cr(1) by (auto simp: quiet_ok_def)
  moreover have "run_ok (parents_of r ?w3) (children_of r ?w3) (progress_of r ?w3)" if "pg_result (progress_of r ?w3) \<noteq> None" for r
    using new other [of r] that ok by (cases "r = run") (auto simp: quiet_ok_def)
  ultimately show ?thesis using eng same_planD(1) [OF plan ok2] by (simp add: quiet_ok_def)
qed

text \<open>A request that is refused changes nothing; otherwise it creates the run and starts the roots.\<close>

lemma orchestrated:
  fixes nodes :: "wf_node list" and wid :: int
  defines "ns \<equiv> filter (\<lambda>n. nd_workflow n = wid) nodes"
  defines "trig \<equiv> \<lambda>i. \<exists>n\<in>set ns. nd_id n = i \<and> nd_category n = ''trigger''"
  assumes g: "graphs_ok nodes edges" and ok: "quiet_ok nodes edges w"
    and new: "snd (exec (quiet Fine) (OrchestrateWorkflow validate u wid) w) \<noteq> w"
  obtains run w1 roots where "ns \<noteq> []" "CreateWorkflowRun wid (map (\<lambda>n. (nd_id n, nd_category n)) ns) w = Some (run, w1)"
    "set (map nd_id roots) = {i\<in>nd_id ` set ns. trig i}"
    "snd (exec (quiet Fine) (OrchestrateWorkflow validate u wid) w) =
       fold (start_root u wid run) roots (w1\<lparr>wd_sets := (wd_sets w1)(run \<mapsto> {i\<in>nd_id ` set ns. \<not> trig i})\<rparr>)"
proof -
  have wn: "wd_nodes w = nodes" "wd_edges w = edges" using ok by (auto simp: quiet_ok_def engine_ok_def)
  have F: "quiet Fine c = Fine" for c by (simp add: quiet_def split: op.splits)
  have "snd (exec (quiet Fine) (OrchestrateWorkflow validate u wid) w) = w" if "GetWorkflowGraph wid w = None"
    using that by (simp add: OrchestrateWorkflow_def F)
  then have "GetWorkflowGraph wid w \<noteq> None" using new by blast
  then obtain es where G: "GetWorkflowGraph wid w = Some (ns, es)" and ne: "ns \<noteq> []"
    using wn by (auto simp: GetWorkflowGraph_def Let_def ns_def split: if_splits)
  let ?ps = "map (\<lambda>n. (nd_id n, nd_category n)) ns" and ?roots = "GetRootNodes ns es"
  let ?nIDs = "map nd_id (filter (\<lambda>n. nd_id n \<notin> set (map nd_id ?roots)) ns)"
  have "snd (exec (quiet Fine) (OrchestrateWorkflow validate u wid) w) = w" if "validate ns es = Some e" for e
    using that G by (simp add: OrchestrateWorkflow_def F Let_def)
  then have valid: "validate ns es = None" using new by (cases "validate ns es") auto
  obtain run w1 where c: "CreateWorkflowRun wid ?ps w = Some (run, w1)" using ne by (auto simp: CreateWorkflowRun_def Let_def)
  have d: "distinct (map nd_id ns)" using g unfolding ns_def by (auto simp: graphs_ok_def intro: distinct_map_filter_key)
  then have inj: "x = y" if "x \<in> set ns" "y \<in> set ns" "nd_id x = nd_id y" for x y
    using that by (auto simp: distinct_map inj_on_def)
  have "distinct (map fst ?ps)" using d by (simp add: o_def)
  note cr = created [OF ok c this] and root = root_iff_trigger [OF g wn G]
  have tr2: "trig (nd_id x) \<longleftrightarrow> nd_id x \<in> set (map nd_id ?roots)" if "x \<in> set ns" for x
    using root [OF that] inj [OF that] that unfolding trig_def by metis
  have nids: "set ?nIDs = {i \<in> nd_id ` set ns. \<not> trig i}" using tr2 by auto
  obtain a where "a \<in> set ns" "nd_category a \<noteq> ''trigger''" using has_action [OF g] ne unfolding ns_def by metis
  then have nid: "?nIDs \<noteq> []" using root by (auto simp: filter_empty_conv)
  have s1: "wd_sets w1 run = None" using cr(6) by (simp add: progress_of_def)
  have tr: "\<forall>q\<in>set ?roots. nd_category q = ''trigger''" using root by (auto simp: GetRootNodes_def)
  have e: "snd (exec (quiet Fine) (OrchestrateWorkflow validate u wid) w) =
      fold (start_root u wid run) ?roots (w1\<lparr>wd_sets := (wd_sets w1)(run \<mapsto> set ?nIDs)\<rparr>)"
    using exec_start_roots [OF tr, of Fine u wid run] nid s1
    by (simp add: OrchestrateWorkflow_def F G valid c Let_def InitializeRunningNodeSet_def)
  show ?thesis
  proof (rule that [OF ne c])
    show "set (map nd_id ?roots) = {i\<in>nd_id ` set ns. trig i}" using tr2 by (auto simp: GetRootNodes_def)
  qed (use e nids in simp)
qed

lemma quiet_start:
  assumes g: "graphs_ok nodes edges" and ok: "quiet_ok nodes edges w"
  shows "quiet_ok nodes edges (snd (exec (quiet Fine) (OrchestrateWorkflow validate u wid) w))" (is "quiet_ok nodes edges ?w")
proof (cases "?w = w")
  case False
  have "engine_ok edges \<lparr>en_world = ?w, en_jobs = []\<rparr>"
    using ok by (intro exec_engine_ok safe_Orchestrate) (auto simp: quiet_ok_def engine_ok_def)
  then show ?thesis
    by (cases rule: orchestrated [OF g ok False]) (use started_quiet [OF g ok] in simp)
qed (use ok in simp)

section \<open>Reachable worlds\<close>

lemma run_ok_forget:
  assumes "run_ok pars kids p"
  shows "run_ok pars kids (p\<lparr>pg_open := None\<rparr>)"
proof -
  note r = run_okD [OF assms]
  have "run_ok pars kids (p\<lparr>pg_open := None, pg_result := pg_result p\<rparr>)"
    by (rule run_okI)
      (use r in \<open>auto simp: open_ok_def result_ok_def all_success_def members_def gave_up_def\<close>)
  then show ?thesis by simp
qed

lemma quiet_forget_set:
  assumes ok: "quiet_ok nodes edges w"
  shows "quiet_ok nodes edges (w\<lparr>wd_sets := (wd_sets w)(run := None)\<rparr>)" (is "quiet_ok _ _ ?w")
proof -
  have pr: "progress_of r ?w = (if r = run then (progress_of r w)\<lparr>pg_open := None\<rparr> else progress_of r w)" for r
    by (simp add: progress_of_def GetWorkflowNodeRun_def)
  have pc: "parents_of r ?w = parents_of r w" "children_of r ?w = children_of r w" for r
    by (simp_all add: parents_of_keys children_of_keys fun_eq_iff)
  have "engine_ok edges \<lparr>en_world = ?w, en_jobs = []\<rparr>"
    using run_engine.inv_step [of edges "\<lparr>en_world = w, en_jobs = []\<rparr>" "\<lambda>_ _. None" "ExpireSet run"] ok
    by (simp add: quiet_ok_def)
  moreover have "tables_ok ?w" using ok by (auto simp: quiet_ok_def tables_ok_def)
  moreover have "run_ok (parents_of r w) (children_of r w) (progress_of r ?w)" if "pg_result (progress_of r ?w) \<noteq> None" for r
    using that ok by (auto simp: pr quiet_ok_def intro!: run_ok_forget split: if_splits)
  ultimately show ?thesis using ok unfolding quiet_ok_def pc by (simp add: pr)
qed

lemma quiet_forget_lock:
  assumes ok: "quiet_ok nodes edges w"
  shows "quiet_ok nodes edges (w\<lparr>wd_locks := wd_locks w - {run}\<rparr>)" (is "quiet_ok _ _ ?w")
proof -
  have pr: "progress_of r ?w = progress_of r w" for r by (simp add: progress_of_def GetWorkflowNodeRun_def)
  have pc: "parents_of r ?w = parents_of r w" "children_of r ?w = children_of r w" for r
    by (simp_all add: parents_of_keys children_of_keys fun_eq_iff)
  have "engine_ok edges \<lparr>en_world = ?w, en_jobs = []\<rparr>"
    using run_engine.inv_step [of edges "\<lparr>en_world = w, en_jobs = []\<rparr>" "\<lambda>_ _. None" "ExpireLock run"] ok
    by (simp add: quiet_ok_def)
  moreover have "tables_ok ?w" using ok by (auto simp: quiet_ok_def tables_ok_def)
  ultimately show ?thesis using ok unfolding quiet_ok_def pc by (auto simp: pr)
qed

lemma quiet_idle: "distinct (map nd_id nodes) \<Longrightarrow> quiet_ok nodes edges (idle_world nodes edges)"
  using run_engine.inv_init [of edges nodes]
  by (simp add: quiet_ok_def idle_engine_def tables_ok_def idle_world_def progress_of_def)

interpretation quiet_runs: machine "idle_world nodes edges" "quiet_step validate" "\<lambda>w. graphs_ok nodes edges \<longrightarrow> quiet_ok nodes edges w"
  for validate nodes edges
proof
  show "graphs_ok nodes edges \<longrightarrow> quiet_ok nodes edges (idle_world nodes edges)"
    by (simp add: graphs_ok_def quiet_idle)
  show "graphs_ok nodes edges \<longrightarrow> quiet_ok nodes edges (quiet_step validate e w)"
    if "graphs_ok nodes edges \<longrightarrow> quiet_ok nodes edges w" for w e
    using that by (cases e) (auto simp: quiet_start quiet_handle quiet_forget_set quiet_forget_lock)
qed

lemma quiet_reachable:
  assumes "graphs_ok nodes edges" and "w = fold (quiet_step validate) evs (idle_world nodes edges)"
  shows "quiet_ok nodes edges w"
  using quiet_runs.inv_run [of nodes edges validate evs] assms by simp

lemma parents_edges: "q \<in> parents_of run w n \<Longrightarrow> (q, n) \<in> edge_rel (wd_edges w)"
  and children_edges: "n \<in> set (children_of run w q) \<Longrightarrow> (q, n) \<in> edge_rel (wd_edges w)"
  unfolding parents_of_keys children_of_keys edge_rel_def by force+

text \<open>One delivery replaces one message by finitely many smaller ones.\<close>

lemma handle_smaller:
  assumes ok: "quiet_ok nodes edges w" and i: "i < length (wd_queue w)"
  shows "(queue_msgs (handle i f w), queue_msgs w) \<in> mult1 (msg_less edges)"
proof -
  let ?m = "wd_queue w ! i"
  let ?run = "t_run (m_task ?m)" and ?n = "t_node (m_task ?m)"
  have m: "?m \<in> set (wd_queue w)" using i by simp
  have tab: "tables_ok w" and e: "wd_edges w = edges" using ok by (auto simp: quiet_ok_def engine_ok_def)
  note pr = handle_progress [OF tab i refl quiet_task(1) [OF ok m], of _ f]
  obtain K where K: "pg_msgs (progress_of ?run (handle i f w)) = pg_msgs (progress_of ?run w) - {#(?n, retries ?m)#} + K"
      "\<forall>(c, k)\<in>#K. (?n, c) \<in> edge_rel edges \<or> c = ?n \<and> retries ?m < k \<and> k \<le> maxRetries"
    using advance_msgs [of "children_of ?run w" ?n edges "parents_of ?run w" "?run \<in> wd_locks w" "action_ok f w ?n" "retries ?m"
        "progress_of ?run w"] children_edges [of _ ?run w ?n] unfolding e pr if_P [OF refl] by blast
  have a: "(?run, ?n, retries ?m) \<in># queue_msgs w" using m by (auto simp: queue_msgs_def)
  have cnt: "count (image_mset (Pair ?run) K) (r, x) = (if r = ?run then count K x else 0)" for r x
    by (induction K) auto
  have "queue_msgs (handle i f w) = queue_msgs w - {#(?run, ?n, retries ?m)#} + image_mset (Pair ?run) K"
  proof (rule multiset_eqI)
    fix rx :: "int \<times> int \<times> nat"
    obtain r x where rx: "rx = (r, x)" by (cases rx)
    show "count (queue_msgs (handle i f w)) rx = count (queue_msgs w - {#(?run, ?n, retries ?m)#} + image_mset (Pair ?run) K) rx"
    proof (cases "r = ?run")
      case True
      then show ?thesis unfolding rx count_union count_diff count_queue_msgs cnt by (simp add: K(1))
    next
      case False
      then have "progress_of r (handle i f w) = progress_of r w" using pr [of r] by simp
      then show ?thesis using False unfolding rx count_union count_diff count_queue_msgs cnt by simp
    qed
  qed
  moreover have "queue_msgs w = add_mset (?run, ?n, retries ?m) (queue_msgs w - {#(?run, ?n, retries ?m)#})" using a by simp
  moreover have "\<forall>b. b \<in># image_mset (Pair ?run) K \<longrightarrow> (b, (?run, ?n, retries ?m)) \<in> msg_less edges"
    using K(2) by (auto simp: msg_less_def)
  ultimately show ?thesis unfolding mult1_def by blast
qed

text \<open>Claim C5: a run that has no message left has its final status: it is successful exactly when all its nodes are, it is failed
  exactly when some node has failed three times, and a node that never ran waits for a node that did not succeed. It is so for workflows as the canvas
  intends (no cycle, the triggers are exactly the nodes without incoming edges, and every workflow has an action, so that a workflow of triggers only is left out), and after
  requests and deliveries that follow one another, where no worker dies, and where of what a delivery calls only the action may fail, though keys of Redis may expire.\<close>

theorem run_settles:
  assumes "graphs_ok nodes edges" and "w = fold (quiet_step validate) evs (idle_world nodes edges)"
    and "p = progress_of run w" and "pg_result p \<noteq> None" and "\<forall>m\<in>set (wd_queue w). t_run (m_task m) \<noteq> run"
  shows "pg_result p = Some (if all_success p then RunSuccess else RunFailed) \<and>
    (all_success p \<longleftrightarrow> \<not> (\<exists>n. gave_up p n)) \<and>
    (\<forall>n\<in>members p. pg_status p n = Some Success \<or> gave_up p n \<or>
      pg_status p n = Some Pending \<and> (\<exists>q\<in>parents_of run w n. pg_status p q \<noteq> Some Success))"
proof -
  have ok: "quiet_ok nodes edges w" using quiet_reachable assms(1,2) by blast
  then have r: "run_ok (parents_of run w) (children_of run w) p" and e: "wd_edges w = edges"
    using assms(3,4) by (auto simp: quiet_ok_def engine_ok_def)
  have none: "pg_msgs p = {#}"
    using assms(5) unfolding assms(3) by (auto simp: progress_of_def run_msgs_def filter_empty_conv)
  have "finite (edge_rel edges)" "acyclic (edge_rel edges)" using assms(1) by (auto simp: edge_rel_def graphs_ok_def)
  then have wf: "wf {(q, n). n \<in> members p \<and> q \<in> parents_of run w n}"
    by (rule wf_subset [OF finite_acyclic_wf]) (use parents_edges e in blast)
  show ?thesis using run_at_rest [OF r none wf] by blast
qed

text \<open>Claim C11: Deliveries do not go on for ever: whatever order the messages are taken in and whatever the actions answer, only finitely
  many deliveries follow one another without a new request.\<close>

theorem deliveries_terminate:
  assumes "graphs_ok nodes edges"
  shows "wf {(handle i f w, w) | i f w evs. w = fold (quiet_step validate) evs (idle_world nodes edges) \<and> i < length (wd_queue w)}"
proof (rule wf_subset)
  have "wf (msg_less edges)" using assms by (intro wf_msg_less) (simp add: graphs_ok_def)
  then show "wf (inv_image (mult1 (msg_less edges)) queue_msgs)" by (intro wf_inv_image wf_mult1)
  show "{(handle i f w, w) | i f w evs. w = fold (quiet_step validate) evs (idle_world nodes edges) \<and> i < length (wd_queue w)}
      \<subseteq> inv_image (mult1 (msg_less edges)) queue_msgs"
    using handle_smaller [OF quiet_reachable [OF assms]] by (auto simp: in_inv_image)
qed

text \<open>Claim C17: Whatever has been requested and delivered before, handling a message changes the run it belongs to as \<open>advance\<close> says
  and no other run.\<close>

theorem handle_refines:
  assumes "graphs_ok nodes edges" and "w = fold (quiet_step validate) evs (idle_world nodes edges)"
    and "i < length (wd_queue w)" and "m = wd_queue w ! i"
  shows "progress_of run (handle i f w) =
    (if run = t_run (m_task m)
     then advance (parents_of run w) (children_of run w) (run \<in> wd_locks w) (action_ok f w (t_node (m_task m)))
            (t_node (m_task m)) (retries m) (progress_of run w)
     else progress_of run w)"
proof -
  have ok: "quiet_ok nodes edges w" using quiet_reachable assms(1,2) by blast
  have "tables_ok w" "task_row w (m_task m)" using ok quiet_task(1) [OF ok] assms(3,4) by (auto simp: quiet_ok_def)
  then show ?thesis using handle_progress assms(3,4) by blast
qed

section \<open>A run of two nodes\<close>

definition sample_nodes :: "wf_node list" where
  "sample_nodes = [sample_node 1 ''trigger'' ''schedule'', sample_node 2 ''action'' ''send_email'']"

definition sample_world :: "quiet_event list \<Rightarrow> world" where
  "sample_world evs = fold (quiet_step (\<lambda>_ _. None)) evs (idle_world sample_nodes [sample_edge 1 2])"

lemma sample_graph: "graphs_ok sample_nodes [sample_edge 1 2]"
  by (simp add: graphs_ok_def sample_nodes_def sample_node_def sample_edge_def edge_rel_def acyclic_insert wf_acyclic)

theorem run_settles_witness:
  "wd_queue (sample_world [StartRun ''u'' 7, Handle 0 Fine]) = [] \<and>
   pg_result (progress_of 1 (sample_world [StartRun ''u'' 7, Handle 0 Fine])) = Some RunSuccess \<and>
   all_success (progress_of 1 (sample_world [StartRun ''u'' 7, Handle 0 Fine]))"
proof -
  have 1: "wd_queue (sample_world [StartRun ''u'' 7, Handle 0 Fine]) = []" by code_simp
  have "map_option rr_status (List.find (\<lambda>r. rr_id r = 1) (wd_runs (sample_world [StartRun ''u'' 7, Handle 0 Fine]))) = Some RunSuccess"
    by code_simp
  then have 2: "pg_result (progress_of 1 (sample_world [StartRun ''u'' 7, Handle 0 Fine])) = Some RunSuccess"
    by (simp add: progress_of_def)
  show ?thesis
    using 1 2 run_settles [OF sample_graph sample_world_def refl, of 1 "[StartRun ''u'' 7, Handle 0 Fine]"] by (auto split: if_splits)
qed

theorem deliveries_terminate_witness:
  "wf {(handle i f w, w) | i f w evs. w = sample_world evs \<and> i < length (wd_queue w)}"
  using deliveries_terminate [OF sample_graph, of "\<lambda>_ _. None"] unfolding sample_world_def .

theorem handle_refines_witness:
  "map (t_node \<circ> m_task) (wd_queue (sample_world [StartRun ''u'' 7])) = [2] \<and>
   progress_of 2 (handle 0 Lost (sample_world [StartRun ''u'' 7])) = progress_of 2 (sample_world [StartRun ''u'' 7])"
proof -
  have 1: "map (t_node \<circ> m_task) (wd_queue (sample_world [StartRun ''u'' 7])) = [2]"
    "t_run (m_task (wd_queue (sample_world [StartRun ''u'' 7]) ! 0)) = 1" by code_simp+
  then have "0 < length (wd_queue (sample_world [StartRun ''u'' 7]))" by auto
  from handle_refines [OF sample_graph sample_world_def this refl, of 2 Lost] show ?thesis using 1 by simp
qed

end
