(* ===== verification/Run_Stream.thy ===== *)
theory Run_Stream
  imports Node_Ui
begin

text \<open>
  The page of a workflow run, \<open>workflow.$workflowID.run.$runID/route.tsx\<close>: it loads the workflow into
  a flow of its own and follows the run on a stream of server-sent events.

  \<open>rn_source\<close> is \<open>eventSourceRef.current\<close>: \<open>None\<close> before the effect and after the clean-up, otherwise
  whether the source is still open. A closed source delivers nothing. The payload of a
  \<open>node_update\<close> is the node identifier and the status of the parsed object, or \<open>None\<close> when the text
  does not parse to an object.
\<close>

section \<open>State and steps\<close>

record run_state =
  rn_canvas :: canvas_state
  rn_inspector :: bool
  rn_parsedNodes :: "rf_node list"
  rn_source :: "bool option"

definition run_loader ::
  "string \<Rightarrow> net \<Rightarrow> string \<Rightarrow> string \<Rightarrow> string option \<Rightarrow> request_error + (jsval \<times> string)" where
  "run_loader base_url net workflowID runID token =
     (case renderWorkflow base_url net workflowID token of Inl e \<Rightarrow> Inl e | Inr res \<Rightarrow> Inr (res, runID))"

definition run_key :: "string \<Rightarrow> string" where
  "run_key runId = ''run-'' @ runId"

definition sse_url :: "string \<Rightarrow> string \<Rightarrow> string" where
  "sse_url wid runId = ''http://localhost:9000/api/workflow-progress/'' @ wid @ ''/run/'' @ runId"

text \<open>The two effects at mount. A node type that is not in the catalogue throws before the source
  is opened.\<close>

definition WorkflowRun_mount ::
  "rendered_workflow option \<Rightarrow> string \<Rightarrow> canvas_state \<Rightarrow> run_state throwing" where
  "WorkflowRun_mount workflowRun runId s =
     (let s1 = on_store (initializeFlow (run_key runId)) s;
          idle = (\<lambda>s. \<lparr>rn_canvas = s, rn_inspector = False, rn_parsedNodes = [], rn_source = None\<rparr>)
      in (case workflowRun of
            None \<Rightarrow> (idle s1, None)
          | Some w \<Rightarrow>
              (case build_nodes (rw_nodes w) s1 of
                 Inl e \<Rightarrow> (idle s1, Some e)
               | Inr (parsedNodes, s2) \<Rightarrow>
                   (\<lparr>rn_canvas = on_store (setEdges (map_option (map loaded_edge) (rw_edges w)))
                                   (on_store (setNodes parsedNodes) s2),
                     rn_inspector = False, rn_parsedNodes = parsedNodes, rn_source = Some True\<rparr>, None))))"

datatype sse_event =
    SSE_open
  | SSE_error
  | SSE_connection_established
  | SSE_node_update "(string \<times> string) option"
  | SSE_heartbeat
  | SSE_workflow_run_completed
  | SSE_message

definition run_store :: "(flow_state \<Rightarrow> flow_state) \<Rightarrow> run_state \<Rightarrow> run_state" where
  "run_store f r = r\<lparr>rn_canvas := on_store f (rn_canvas r)\<rparr>"

fun sse_handler :: "sse_event \<Rightarrow> run_state \<Rightarrow> run_state" where
  "sse_handler SSE_open r = r"
| "sse_handler SSE_error r = r\<lparr>rn_source := Some False\<rparr>"
| "sse_handler SSE_connection_established r = r"
| "sse_handler (SSE_node_update None) r = r"
| "sse_handler (SSE_node_update (Some (nodeId, status))) r = run_store (setNodeStatus nodeId status) r"
| "sse_handler SSE_heartbeat r = r"
| "sse_handler SSE_workflow_run_completed r =
     run_store (fold (\<lambda>node. setNodeStatus (n_id node) ''success'') (rn_parsedNodes r)) (r\<lparr>rn_source := Some False\<rparr>)"
| "sse_handler SSE_message r = r"

datatype run_event = RE_sse sse_event | RE_unmount | RE_runId string

text \<open>A new run identifier in the address re-renders the page: the effect on the key runs, the
  effect that loads the workflow does not, since its list of dependencies is empty.\<close>

fun run_step :: "run_event \<Rightarrow> run_state \<Rightarrow> run_state" where
  "run_step (RE_sse e) r = (if rn_source r = Some True then sse_handler e r else r)"
| "run_step RE_unmount r = r\<lparr>rn_source := None\<rparr>"
| "run_step (RE_runId i) r = run_store (initializeFlow (run_key i)) r"

definition WorkflowRun :: "layout_state \<Rightarrow> header_state \<Rightarrow> string \<Rightarrow> run_state \<Rightarrow> view" where
  "WorkflowRun ly h theme r =
     Elem ''div'' []
       [Elem ''div'' [] [CanvasHeader None h, Elem ''Separator'' [] [], CanvasBody theme (rn_canvas r)],
        Elem ''InspectorPanel'' [(''toggleInspectorPanel'', js_bool (toggleInspectorPanel ly)),
                                 (''setToggleInspectorPanel'', ''setToggleInspectorPanel'')] []]"

section \<open>The run as a machine\<close>

definition run_inv :: "run_state \<Rightarrow> bool" where
  "run_inv r \<longleftrightarrow> store_inv (cv_store (rn_canvas r)) \<and> current_key (cv_store (rn_canvas r)) \<noteq> None"

lemma run_store_simps [simp]:
  "cv_store (rn_canvas (run_store f r)) = f (cv_store (rn_canvas r))"
  "rn_source (run_store f r) = rn_source r" "rn_parsedNodes (run_store f r) = rn_parsedNodes r"
  by (simp_all add: run_store_def)

lemma setNodeStatus_key [simp]: "current_key (setNodeStatus n v s) = current_key s"
  by (auto simp: setNodeStatus_def Let_def split: option.splits)

lemma mark_all_keeps:
  "store_inv s \<Longrightarrow> store_inv (fold (\<lambda>node. setNodeStatus (n_id node) v) ns s)"
  "current_key (fold (\<lambda>node. setNodeStatus (n_id node) v) ns s) = current_key s"
  by (induction ns arbitrary: s) (auto intro: js_intros)

lemma run_step_inv: "run_inv r \<Longrightarrow> run_inv (run_step e r)"
proof (cases e)
  case (RE_sse x)
  assume "run_inv r"
  then have "run_inv (sse_handler x r)"
    by (cases "(x, r)" rule: sse_handler.cases) (auto simp: run_inv_def mark_all_keeps intro: js_intros)
  with \<open>run_inv r\<close> RE_sse show ?thesis by simp
qed (auto simp: run_inv_def run_key_def intro: js_intros)

lemma build_nodes_store: "build_nodes ws s = Inr (ns, s') \<Longrightarrow> cv_store s' = cv_store s"
proof (induction ws arbitrary: s ns)
  case (Cons w ws)
  then obtain m s1 ms where
    nb: "NodeBuilder (wn_id w) (wn_position w) (wn_category w) (wn_node_type w) (wn_config w) s = Inr (m, s1)"
    and rec: "build_nodes ws s1 = Inr (ms, s')" by auto
  show ?case using Cons.IH [OF rec] NodeBuilder_alloc(3) [OF nb] by simp
qed simp

lemma build_nodes_ids: "build_nodes ws s = Inr (ns, s') \<Longrightarrow> map n_id ns = map wn_id ws"
proof (induction ws arbitrary: s ns)
  case (Cons w ws)
  then obtain m s1 ms where
    nb: "NodeBuilder (wn_id w) (wn_position w) (wn_category w) (wn_node_type w) (wn_config w) s = Inr (m, s1)"
    and rec: "build_nodes ws s1 = Inr (ms, s')" and "ns = m # ms" by auto
  then show ?case using Cons.IH [OF rec] NodeBuilder_alloc(4) [OF nb] by simp
qed simp

lemma setEdges_key [simp]: "current_key (setEdges es s) = current_key s"
  by (auto simp: setEdges_def Let_def split: option.splits)

lemma mount_inv:
  assumes "store_inv (cv_store s)"
  shows "run_inv (fst (WorkflowRun_mount w runId s))"
proof -
  have 1: "store_inv (initializeFlow (run_key runId) (cv_store s))" by (intro js_intros assms)
  have 2: "current_key (initializeFlow (run_key runId) (cv_store s)) \<noteq> None" by (simp add: run_key_def)
  show ?thesis
    using 1 2
    by (auto simp: WorkflowRun_mount_def run_inv_def Let_def build_nodes_store split: option.splits sum.splits
        intro!: js_intros)
qed

text \<open>Every page of a run, mounted on a well-formed store, is a machine.\<close>

lemma run_machine:
  "store_inv (cv_store s) \<Longrightarrow> machine (fst (WorkflowRun_mount w runId s)) run_step run_inv"
  by unfold_locales (auto intro: mount_inv run_step_inv)

section \<open>Statuses\<close>

lemma getNodeStatus_set:
  assumes "store_inv s" and "current_key s \<noteq> None"
  shows "getNodeStatus n (setNodeStatus m v s) =
    (if n = m then Inr (js_or_str v ''pending'') else getNodeStatus n s)"
proof -
  obtain k where k: "current_key s = Some k" using assms(2) by blast
  with assms(1) obtain f where f: "flows s k = Some f" "wf_flow f" by (rule store_inv_current)
  then obtain st where "f_nodeStatus f = Some st" by (auto simp: wf_flow_def)
  with k f show ?thesis
    by (auto simp: getNodeStatus_def setNodeStatus_def Let_def js_or_str_def truthy_str_def)
qed

lemma mark_all_status:
  "store_inv s \<Longrightarrow> current_key s \<noteq> None \<Longrightarrow>
   getNodeStatus n (fold (\<lambda>node. setNodeStatus (n_id node) ''success'') ns s) =
     (if n \<in> n_id ` set ns then Inr ''success'' else getNodeStatus n s)"
proof (induction ns arbitrary: s)
  case (Cons m ns)
  have "store_inv (setNodeStatus (n_id m) ''success'' s)" by (intro js_intros Cons.prems)
  with Cons show ?case by (auto simp: getNodeStatus_set js_or_str_def)
qed simp

text \<open>Reference: the last status that an update carried for a node.\<close>

fun last_update :: "string \<Rightarrow> sse_event list \<Rightarrow> string option" where
  "last_update n [] = None"
| "last_update n (e # es) =
     (case last_update n es of Some v \<Rightarrow> Some v
      | None \<Rightarrow> (case e of SSE_node_update (Some (m, v)) \<Rightarrow> if m = n then Some v else None | _ \<Rightarrow> None))"

definition live_event :: "sse_event \<Rightarrow> bool" where
  "live_event e \<longleftrightarrow> e \<noteq> SSE_error \<and> e \<noteq> SSE_workflow_run_completed"

lemma live_step:
  assumes "run_inv r" "rn_source r = Some True" "live_event e"
  shows "rn_source (run_step (RE_sse e) r) = Some True"
    "rn_parsedNodes (run_step (RE_sse e) r) = rn_parsedNodes r"
    "getNodeStatus n (cv_store (rn_canvas (run_step (RE_sse e) r))) =
      (case last_update n [e] of None \<Rightarrow> getNodeStatus n (cv_store (rn_canvas r))
       | Some v \<Rightarrow> Inr (js_or_str v ''pending''))"
  using assms
  by (cases "(e, r)" rule: sse_handler.cases; simp add: live_event_def run_inv_def getNodeStatus_set)+

lemma live_run:
  assumes "run_inv r" "rn_source r = Some True" "list_all live_event es"
  shows "rn_source (fold run_step (map RE_sse es) r) = Some True \<and>
    rn_parsedNodes (fold run_step (map RE_sse es) r) = rn_parsedNodes r \<and>
    run_inv (fold run_step (map RE_sse es) r) \<and>
    getNodeStatus n (cv_store (rn_canvas (fold run_step (map RE_sse es) r))) =
      (case last_update n es of None \<Rightarrow> getNodeStatus n (cv_store (rn_canvas r))
       | Some v \<Rightarrow> Inr (js_or_str v ''pending''))"
  using assms
proof (induction es arbitrary: r)
  case (Cons e es)
  let ?r = "run_step (RE_sse e) r"
  have e: "live_event e" using Cons.prems by simp
  note st = live_step [OF Cons.prems(1,2) e]
  have "run_inv ?r" by (rule run_step_inv [OF Cons.prems(1)])
  from Cons.IH [OF this st(1)] Cons.prems(3) st(2) st(3) [of n] show ?case
    by (simp del: run_step.simps split: option.splits)
qed simp

lemma closed_run: "rn_source r \<noteq> Some True \<Longrightarrow> fold run_step (map RE_sse es) r = r"
  by (induction es) auto

section \<open>Properties\<close>

lemma mount_ok:
  assumes "WorkflowRun_mount (Some w) runId s = (r, None)"
  shows "rn_source r = Some True" and "n_id ` set (rn_parsedNodes r) = wn_id ` set (rw_nodes w)"
proof -
  obtain ns s2 where b: "build_nodes (rw_nodes w) (on_store (initializeFlow (run_key runId)) s) = Inr (ns, s2)"
      "rn_parsedNodes r = ns" "rn_source r = Some True"
    using assms by (auto simp: WorkflowRun_mount_def Let_def split: sum.splits)
  show "rn_source r = Some True" by (rule b(3))
  have "n_id ` set ns = wn_id ` set (rw_nodes w)"
    using arg_cong [OF build_nodes_ids [OF b(1)], of set] by simp
  with b(2) show "n_id ` set (rn_parsedNodes r) = wn_id ` set (rw_nodes w)" by simp
qed

lemma mount_pending:
  assumes "WorkflowRun_mount (Some w) runId s = (r, None)" and "flows (cv_store s) (run_key runId) = None"
  shows "getNodeStatus n (cv_store (rn_canvas r)) = Inr ''pending''"
  using assms
  by (auto simp: WorkflowRun_mount_def Let_def getNodeStatus_def setEdges_def setNodes_def build_nodes_store
      initializeFlow_def current_key_def run_key_def defaultFlowData_def spread_flow_def put_flow_def
      split: sum.splits)

lemma shown_status:
  assumes "store_inv (cv_store s)" and "flows (cv_store s) (run_key runId) = None"
    and "WorkflowRun_mount (Some w) runId s = (r, None)" and "list_all live_event es"
  shows "getNodeStatus n (cv_store (rn_canvas (fold run_step (map RE_sse es) r))) =
    Inr (case last_update n es of None \<Rightarrow> ''pending'' | Some v \<Rightarrow> js_or_str v ''pending'')"
proof -
  have "run_inv r" using mount_inv [OF assms(1), of "Some w" runId] assms(3) by simp
  from live_run [OF this mount_ok(1) [OF assms(3)] assms(4), of n]
  show ?thesis
    using mount_pending [OF assms(3,2), of n] by (simp split: option.splits)
qed

text \<open>Once the server reports the run as completed, every node of the workflow is shown as
  successful and stays so whatever arrives later, even if an update had reported it as failed before.\<close>

lemma completed_status:
  assumes "store_inv (cv_store s)" and "WorkflowRun_mount (Some w) runId s = (r, None)"
    and "list_all live_event es" and "n \<in> set (rw_nodes w)"
  shows "let r' = fold run_step (map RE_sse (es @ SSE_workflow_run_completed # late)) r
         in getNodeStatus (wn_id n) (cv_store (rn_canvas r')) = Inr ''success'' \<and> rn_source r' = Some False"
proof -
  have "run_inv r" using mount_inv [OF assms(1), of "Some w" runId] assms(2) by simp
  note live = live_run [OF this mount_ok(1) [OF assms(2)] assms(3)]
  let ?a = "fold run_step (map RE_sse es) r"
  let ?b = "run_step (RE_sse SSE_workflow_run_completed) ?a"
  have b: "rn_source ?b = Some False"
      "getNodeStatus (wn_id n) (cv_store (rn_canvas ?b)) = Inr ''success''"
    using live mount_ok(2) [OF assms(2)] assms(4) by (auto simp: mark_all_status run_inv_def)
  have "fold run_step (map RE_sse (es @ SSE_workflow_run_completed # late)) r = fold run_step (map RE_sse late) ?b"
    by simp
  also have "\<dots> = ?b" by (rule closed_run) (simp add: b(1))
  finally show ?thesis using b by (simp add: Let_def)
qed

text \<open>Claim C26: while the stream of a newly opened run is neither broken nor completed, the status
  shown of every node is the one that its last update carried, and \<open>pending\<close> before the first.\<close>

theorem run_status_follows_updates:
  assumes "store_inv (cv_store s)" and "flows (cv_store s) (run_key runId) = None"
    and "WorkflowRun_mount (Some w) runId s = (r, None)" and "list_all live_event es"
  shows "getNodeStatus n (cv_store (rn_canvas (fold run_step (map RE_sse es) r))) =
    Inr (case last_update n es of None \<Rightarrow> ''pending'' | Some v \<Rightarrow> js_or_str v ''pending'')"
  by (rule shown_status [OF assms])

text \<open>After an error of the event source nothing that the server sends for the run changes
  the page any more: the source is closed and not opened again.\<close>

lemma run_error_is_final:
  assumes "rn_source r = Some True"
  shows "fold run_step (map RE_sse (SSE_error # late)) r = r\<lparr>rn_source := Some False\<rparr>"
  using assms by (simp add: closed_run)

lemma demo_mount: "\<exists>r. WorkflowRun_mount (Some demo_workflow) ''3'' init_canvas = (r, None)"
  using build_nodes_saved [OF demo_workflow_types, of "on_store (initializeFlow (run_key ''3'')) init_canvas"]
  by (auto simp: WorkflowRun_mount_def Let_def)

theorem run_status_follows_updates_witness:
  "\<exists>r. WorkflowRun_mount (Some demo_workflow) ''3'' init_canvas = (r, None) \<and>
     getNodeStatus ''1'' (cv_store (rn_canvas (fold run_step
        (map RE_sse [SSE_node_update (Some (''1'', ''running'')), SSE_node_update (Some (''1'', ''failed''))]) r))) = Inr ''failed''"
proof -
  obtain r where r: "WorkflowRun_mount (Some demo_workflow) ''3'' init_canvas = (r, None)" using demo_mount by blast
  have "store_inv (cv_store init_canvas)" "flows (cv_store init_canvas) (run_key ''3'') = None"
    by (simp_all add: init_canvas_def store_inv_init) (simp add: init_store_def)
  from run_status_follows_updates [OF this r,
      of "[SSE_node_update (Some (''1'', ''running'')), SSE_node_update (Some (''1'', ''failed''))]" "''1''"] r
  show ?thesis by (auto simp: live_event_def js_or_str_def simp del: fold_simps list.map)
qed

lemma completed_status_example:
  "\<exists>r. WorkflowRun_mount (Some demo_workflow) ''3'' init_canvas = (r, None) \<and>
     getNodeStatus ''1'' (cv_store (rn_canvas (fold run_step
        (map RE_sse ([SSE_node_update (Some (''1'', ''failed''))] @ SSE_workflow_run_completed # [])) r))) = Inr ''success''"
proof -
  obtain r where r: "WorkflowRun_mount (Some demo_workflow) ''3'' init_canvas = (r, None)" using demo_mount by blast
  have i: "store_inv (cv_store init_canvas)" by (simp add: init_canvas_def store_inv_init)
  have l: "list_all live_event [SSE_node_update (Some (''1'', ''failed''))]" by (simp add: live_event_def)
  have n: "hd (rw_nodes demo_workflow) \<in> set (rw_nodes demo_workflow)" "wn_id (hd (rw_nodes demo_workflow)) = ''1''"
    by (simp_all add: demo_workflow_def)
  from completed_status [OF i r l n(1), of "[]"] r n(2)
  show ?thesis unfolding Let_def by metis
qed

end
