(* ===== verification/Js_Date.thy ===== *)
theory Js_Date
  imports Prelude
begin

text \<open>
  The class \<open>Date\<close> (ECMA-262): a time value in milliseconds, \<open>None\<close> for an invalid date, read and
  changed in local time. The time zone is the host's: \<open>tz_utc\<close> is the offset at a time value and
  \<open>tz_loc\<close> the offset used for a local time, as in the standard's \<open>LocalTime\<close> and \<open>UTC\<close>. The bound on
  time values (a hundred million days around 1970) is not modelled.
\<close>

type_synonym date = "int option"

record tz =
  tz_utc :: "int \<Rightarrow> int"
  tz_loc :: "int \<Rightarrow> int"

definition msPerDay :: int where
  "msPerDay = 86400000"

definition LocalTime :: "tz \<Rightarrow> int \<Rightarrow> int" where
  "LocalTime tz t = t + tz_utc tz t"

definition UTC :: "tz \<Rightarrow> int \<Rightarrow> int" where
  "UTC tz l = l - tz_loc tz l"

definition Day :: "int \<Rightarrow> int" where
  "Day l = l div msPerDay"

definition MakeTime :: "int \<Rightarrow> int \<Rightarrow> int \<Rightarrow> int \<Rightarrow> int" where
  "MakeTime h m s ms = h * 3600000 + m * 60000 + s * 1000 + ms"

definition getHours :: "tz \<Rightarrow> int \<Rightarrow> nat" where
  "getHours tz t = nat (LocalTime tz t div 3600000 mod 24)"

definition getMinutes :: "tz \<Rightarrow> int \<Rightarrow> nat" where
  "getMinutes tz t = nat (LocalTime tz t div 60000 mod 60)"

text \<open>\<open>setHours(h, m, s, ms)\<close> and \<open>setHours(h, m)\<close>; an argument that is \<open>NaN\<close> makes the date invalid.\<close>

definition setHours4 :: "tz \<Rightarrow> int \<Rightarrow> int \<Rightarrow> int \<Rightarrow> int \<Rightarrow> int \<Rightarrow> int" where
  "setHours4 tz t h m s ms = UTC tz (Day (LocalTime tz t) * msPerDay + MakeTime h m s ms)"

definition setHours2 :: "tz \<Rightarrow> int \<Rightarrow> int option \<Rightarrow> int option \<Rightarrow> date" where
  "setHours2 tz t h m =
     (case (h, m) of
        (Some h, Some m) \<Rightarrow>
          (let l = LocalTime tz t
           in Some (UTC tz (Day l * msPerDay + MakeTime h m (l div 1000 mod 60) (l mod 1000))))
      | _ \<Rightarrow> None)"

text \<open>\<open>new Date(y, m, d)\<close> of the local calendar day of a date: its local midnight.\<close>

definition local_midnight :: "tz \<Rightarrow> int \<Rightarrow> int" where
  "local_midnight tz t = UTC tz (Day (LocalTime tz t) * msPerDay)"

text \<open>\<open>Number(s)\<close> of a string of digits; the empty string is 0. Signs, fractions and exponents do not
  occur in the times of the forms and are not modelled.\<close>

definition js_number :: "string \<Rightarrow> int option" where
  "js_number s =
     (let t = js_trim s in if t = [] then Some 0 else (case js_digits t of None \<Rightarrow> None | Some n \<Rightarrow> Some (int n)))"

text \<open>\<open>a < b\<close> and \<open>a <= b\<close> on dates: false when one of them is invalid.\<close>

definition date_less :: "date \<Rightarrow> date \<Rightarrow> bool" where
  "date_less a b = (case (a, b) of (Some x, Some y) \<Rightarrow> x < y | _ \<Rightarrow> False)"

definition date_le :: "date \<Rightarrow> date \<Rightarrow> bool" where
  "date_le a b = (case (a, b) of (Some x, Some y) \<Rightarrow> x \<le> y | _ \<Rightarrow> False)"

section \<open>Clock times\<close>

text \<open>The text \<open>HH:mm\<close>.\<close>

definition clock :: "nat \<Rightarrow> nat \<Rightarrow> string" where
  "clock h m = pad2 (js_of_nat h) @ '':'' @ pad2 (js_of_nat m)"

lemma digit_not_ws: "d < 10 \<Longrightarrow> \<not> js_is_ws (digit_char d)"
  by (simp add: js_is_ws_def digit_char_def Let_def of_char_of)

lemma digit_not_colon: "d < 10 \<Longrightarrow> digit_char d \<noteq> CHR '':''"
  by (auto simp: digit_char_def dest!: arg_cong [of _ _ "of_char :: char \<Rightarrow> nat"])

lemma pad2_chars: "c \<in> set (pad2 (js_of_nat n)) \<Longrightarrow> \<exists>d<10. c = digit_char d"
proof -
  have "CHR ''0'' = digit_char 0" by code_simp
  then show "c \<in> set (pad2 (js_of_nat n)) \<Longrightarrow> \<exists>d<10. c = digit_char d"
    using js_of_nat_digits [of c n] by (force simp: pad2_def)
qed

lemma js_number_pad2 [simp]: "js_number (pad2 (js_of_nat n)) = Some (int n)"
proof -
  have "js_trim (pad2 (js_of_nat n)) = pad2 (js_of_nat n)"
    using pad2_chars digit_not_ws by (intro js_trim_no_ws) blast
  moreover have "pad2 (js_of_nat n) \<noteq> []" by (simp add: pad2_def)
  ultimately show ?thesis by (simp add: js_number_def)
qed

lemma clock_split: "js_split (CHR '':'') (clock h m) = [pad2 (js_of_nat h), pad2 (js_of_nat m)]"
proof -
  have "CHR '':'' \<notin> set (pad2 (js_of_nat n))" for n
    using pad2_chars [of "CHR '':''" n] digit_not_colon by metis
  then show ?thesis by (simp add: clock_def js_split_append js_split_plain)
qed

section \<open>Time zones\<close>

text \<open>A local time exists when reading back the date built from it gives it again; it fails only for
  the times that a change of the clocks skips. A zone without such changes has every local time.\<close>

definition local_exists :: "tz \<Rightarrow> int \<Rightarrow> bool" where
  "local_exists tz l \<longleftrightarrow> LocalTime tz (UTC tz l) = l"

definition fixed_tz :: "int \<Rightarrow> tz" where
  "fixed_tz off = \<lparr>tz_utc = (\<lambda>t. off), tz_loc = (\<lambda>l. off)\<rparr>"

lemma fixed_tz_simps [simp]:
  "LocalTime (fixed_tz off) t = t + off" "UTC (fixed_tz off) l = l - off" "local_exists (fixed_tz off) l"
  by (simp_all add: LocalTime_def UTC_def fixed_tz_def local_exists_def)

lemma MakeTime_bounds:
  assumes "0 \<le> h" "h < 24" "0 \<le> m" "m < 60"
  shows "0 \<le> MakeTime h m 0 0" "MakeTime h m 0 0 < msPerDay"
  using assms by (simp_all add: MakeTime_def msPerDay_def)

lemma local_parts:
  assumes "0 \<le> h" "h < 24" "0 \<le> m" "m < 60"
  shows "Day (d * msPerDay + MakeTime h m 0 0) = d"
    "(d * msPerDay + MakeTime h m 0 0) div 3600000 mod 24 = h"
    "(d * msPerDay + MakeTime h m 0 0) div 60000 mod 60 = m"
    "(d * msPerDay + MakeTime h m 0 0) div 1000 mod 60 = 0"
    "(d * msPerDay + MakeTime h m 0 0) mod 1000 = 0"
proof -
  let ?x = "(d * 24 + h) * 60 + m"
  have l: "d * msPerDay + MakeTime h m 0 0 = ?x * 60000" by (simp add: MakeTime_def msPerDay_def)
  have q: "?x * 60000 div 60000 = ?x" by simp
  have h: "?x div 60 = d * 24 + h" using assms by (simp add: div_pos_pos_trivial)
  have "?x * 60000 div (60000 * 60) = ?x div 60" by (subst zdiv_zmult2_eq) simp_all
  then have q2: "?x * 60000 div 3600000 = d * 24 + h" using h by simp
  have "?x * 60000 div (3600000 * 24) = (d * 24 + h) div 24"
    by (subst zdiv_zmult2_eq, simp, simp only: q2)
  also have "\<dots> = d" using assms by (simp add: div_pos_pos_trivial)
  finally show "Day (d * msPerDay + MakeTime h m 0 0) = d" by (simp add: Day_def l) (simp add: msPerDay_def)
  show "(d * msPerDay + MakeTime h m 0 0) div 3600000 mod 24 = h"
    unfolding l q2 using assms by (simp add: mod_pos_pos_trivial)
  show "(d * msPerDay + MakeTime h m 0 0) div 60000 mod 60 = m"
    unfolding l q mod_mult_self3 using assms by simp
  have "?x * 60000 = (?x * 60) * 1000" by simp
  then show "(d * msPerDay + MakeTime h m 0 0) div 1000 mod 60 = 0" "(d * msPerDay + MakeTime h m 0 0) mod 1000 = 0"
    unfolding l by (simp_all only: nonzero_mult_div_cancel_right mod_mult_self2_is_0 mod_mult_self1_is_0)
qed

lemma local_decompose:
  "\<exists>r. 0 \<le> r \<and> r < 60000 \<and>
     LocalTime tz t = Day (LocalTime tz t) * msPerDay + MakeTime (int (getHours tz t)) (int (getMinutes tz t)) 0 0 + r"
  and getHours_lt: "getHours tz t < 24" and getMinutes_lt: "getMinutes tz t < 60"
proof -
  let ?l = "LocalTime tz t"
  have h: "int (getHours tz t) = ?l div 3600000 mod 24" and m: "int (getMinutes tz t) = ?l div 60000 mod 60"
    by (simp_all add: getHours_def getMinutes_def)
  then show "getHours tz t < 24" "getMinutes tz t < 60" by linarith+
  have q1: "?l div 3600000 = ?l div 60000 div 60" using zdiv_zmult2_eq [of 60 ?l 60000] by simp
  have q2: "?l div msPerDay = ?l div 3600000 div 24" using zdiv_zmult2_eq [of 24 ?l 3600000] by (simp add: msPerDay_def)
  have "?l = ?l div 60000 * 60000 + ?l mod 60000" by simp
  moreover have "?l div 60000 = ?l div 3600000 * 60 + ?l div 60000 mod 60" unfolding q1 by simp
  moreover have "?l div 3600000 = ?l div msPerDay * 24 + ?l div 3600000 mod 24" unfolding q2 by simp
  ultimately have "?l = Day ?l * msPerDay + MakeTime (int (getHours tz t)) (int (getMinutes tz t)) 0 0 + ?l mod 60000"
    unfolding h m Day_def MakeTime_def msPerDay_def by linarith
  then show "\<exists>r. 0 \<le> r \<and> r < 60000 \<and>
     ?l = Day ?l * msPerDay + MakeTime (int (getHours tz t)) (int (getMinutes tz t)) 0 0 + r"
    by (intro exI [of _ "?l mod 60000"]) simp
qed

section \<open>Decimal text of integers\<close>

definition show_int :: "int \<Rightarrow> string" where
  "show_int t = (if t < 0 then ''-'' else []) @ js_of_nat (nat (abs t))"

definition read_int :: "string \<Rightarrow> int option" where
  "read_int s = (case s of
     CHR ''-'' # r \<Rightarrow> map_option (\<lambda>n. - int n) (js_digits r)
   | _ \<Rightarrow> map_option int (js_digits s))"

lemma digit_not_minus: "d < 10 \<Longrightarrow> digit_char d \<noteq> CHR ''-''"
  by (auto simp: digit_char_def dest!: arg_cong [of _ _ "of_char :: char \<Rightarrow> nat"])

lemma read_show_int [simp]: "read_int (show_int t) = Some t"
proof (cases "t < 0")
  case True
  then show ?thesis by (simp add: read_int_def show_int_def)
next
  case False
  obtain c cs where c: "js_of_nat (nat t) = c # cs" using js_of_nat_nonempty by (metis neq_Nil_conv)
  then have "c \<noteq> CHR ''-''" using js_of_nat_digits [of c "nat t"] digit_not_minus by (metis list.set_intros(1))
  moreover have "read_int (c # cs) = map_option int (js_digits (c # cs))" if "c \<noteq> CHR ''-''" for c cs
    using that unfolding read_int_def by (auto split: char.splits bool.splits)
  ultimately show ?thesis using False js_digits_of_nat [of "nat t"] by (simp add: show_int_def c)
qed

end
