(* ===== verification/Run_Live.thy ===== *)
theory Run_Live
  imports Run_Settles Run_Stream Js_Date
begin

text \<open>
  A run as it is watched: the server's stream of a run (\<open>StreamWorkflowRunProgress\<close> of \<open>backend/controllers/workflow_run.go\<close> with the
  dispatching of \<open>backend/services/workflow_run.go\<close>) between the engine and the page of the run. A client is registered for the updates that
  the engine publishes, is sent the state of all nodes, and then the updates as they arrive through a channel that holds ten.
  The page then shows of every node what the database holds of it. A run that is over is only reported as completed, and the page
  shows every node of it as successful, also when it failed.

  The access check before the stream and the heartbeats, which the page ignores, are left out. What an encoder writes as the number of a
  node is the text that the page uses as the key of its status.
\<close>

section \<open>What handlers publish\<close>

primrec silent :: "'a prog \<Rightarrow> bool" where
  "silent (Ret x) \<longleftrightarrow> True"
| "silent (Call c k) \<longleftrightarrow> (\<forall>run n s. c \<noteq> CPublishUpdate run n s) \<and> (\<forall>r. silent (k r))"

lemma silent_bindp: "silent p \<Longrightarrow> (\<And>x. silent (f x)) \<Longrightarrow> silent (bindp p f)"
  by (induction p) auto

lemma silent_perform: "(\<And>run n s. c \<noteq> CPublishUpdate run n s) \<Longrightarrow> wd_updates (snd (perform_call c w)) = wd_updates w"
  by (cases c)
    (auto simp: CompleteWorkflowRun_def Publish_def MarkWorkflowNodeAsRunning_def UpdateWorkflowNodeRunStatus_def CreateWorkflowRun_def
      InitializeRunningNodeSet_def TryAcquireWorkflowRunFinalizationLock_def MarkNodeCompleteAndCountRemaining_def Let_def
      split: option.splits if_splits)

lemma silent_exec: "silent p \<Longrightarrow> wd_updates (snd (exec F p w)) = wd_updates w"
proof (induction p arbitrary: w)
  case (Call c k)
  have "wd_updates (snd (attempt (F c) c w)) = wd_updates w" using Call.prems silent_perform [of c w] by (cases "F c") auto
  then show ?case using Call by auto
qed simp

lemma silent_publish_all: "silent (publish_all ts)"
  by (induction ts) auto

lemma silent_services:
  "silent (EnqueueChildNodes u wid n run)" "silent (shouldFinalizeWorkflowRun t)" "silent (finalizeWorkflowRun t)"
  by (auto simp: EnqueueChildNodes_def shouldFinalizeWorkflowRun_def reinitializeRunningNodeSet_def finalizeWorkflowRun_def
      intro!: silent_bindp silent_publish_all split: reply.splits bool.splits)

lemma silent_after_task: "silent (after_task t)"
  unfolding after_task_def by (auto intro!: silent_bindp silent_services split: sum.splits)

lemma updates_simps [simp]:
  "wd_updates (PublishNodeStatusUpdate run n s w) = wd_updates w @ [(run, n, s)]"
  "wd_updates (CompleteWorkflowRun run st w) = wd_updates w" "wd_updates (UpdateWorkflowNodeRunStatus i s' e w) = wd_updates w"
  "wd_updates (running t k h w) = wd_updates w @ [(t_run t, t_node t, Running)]" "wd_updates (handleFailedMessage f m w) = wd_updates w"
  by (simp_all add: PublishNodeStatusUpdate_def CompleteWorkflowRun_def UpdateWorkflowNodeRunStatus_def running_def
      MarkWorkflowNodeAsRunning_def handleFailedMessage_def Let_def split: fault.split)

lemma updates_runTask:
  assumes "task_row w t"
  shows "wd_updates (snd (exec (quiet f) (runWorkflowNodeTask t) w)) =
    wd_updates w @ [(t_run t, t_node t, Running), (t_run t, t_node t, if action_ok f w (t_node t) then Success else Failed)]"
proof -
  from exec_runTask [OF assms, of f] obtain r h where
    e: "exec (quiet f) (runWorkflowNodeTask t) w = exec (quiet f) (record_outcome (t\<lparr>t_retry := Suc (t_retry t)\<rparr>) r) (running t (Suc (t_retry t)) h w)"
    and r: "r = Inr () \<longleftrightarrow> action_ok f w (t_node t)" by metis
  show ?thesis using r unfolding e by (cases r) (simp_all add: record_outcome_def)
qed

lemma updates_Execute:
  assumes ok: "tables_ok w" and t: "task_row w t"
  shows "wd_updates (snd (exec (quiet f) (ExecuteWorkflowNode t) w)) = wd_updates w @
    (if (\<exists>q\<in>parents_of (t_run t) w (t_node t). pg_status (progress_of (t_run t) w) q \<noteq> Some Success) \<or>
        pg_status (progress_of (t_run t) w) (t_node t) = Some Success \<or> pg_tries (progress_of (t_run t) w) (t_node t) = 3
     then []
     else [(t_run t, t_node t, Running), (t_run t, t_node t, if action_ok f w (t_node t) then Success else Failed)])"
proof -
  let ?t = "t\<lparr>t_retry := pg_tries (progress_of (t_run t) w) (t_node t)\<rparr>"
  have run: "wd_updates (snd (exec (quiet f) (case fst (exec (quiet f) (runWorkflowNodeTask ?t) w) of Inl e \<Rightarrow> Ret (Inl e) | Inr t'' \<Rightarrow> after_task t'')
      (snd (exec (quiet f) (runWorkflowNodeTask ?t) w)))) = wd_updates (snd (exec (quiet f) (runWorkflowNodeTask ?t) w))"
    by (rule silent_exec) (simp add: silent_after_task split: sum.splits)
  show ?thesis
    using blocked_iff [OF ok, of "t_run t" "t_node t"] exec_skip [OF ok t, of f] updates_runTask [of w ?t f] t
    by (auto simp: ExecuteWorkflowNode_def run silent_exec [OF silent_after_task])
qed

lemma updates_handle:
  assumes ok: "quiet_ok nodes edges w" and i: "i < length (wd_queue w)" and t: "t = m_task (wd_queue w ! i)"
  shows "wd_updates (handle i f w) = wd_updates w @
    (if (\<exists>q\<in>parents_of (t_run t) w (t_node t). pg_status (progress_of (t_run t) w) q \<noteq> Some Success) \<or>
        pg_status (progress_of (t_run t) w) (t_node t) = Some Success \<or> pg_tries (progress_of (t_run t) w) (t_node t) = 3
     then []
     else [(t_run t, t_node t, Running), (t_run t, t_node t, if action_ok f w (t_node t) then Success else Failed)])"
proof -
  let ?w = "w\<lparr>wd_queue := drop_nth i (wd_queue w)\<rparr>"
  have plan: "same_plan w ?w" by (simp add: same_plan_def)
  have "tables_ok ?w" "task_row ?w t"
    using same_planD(1,2) [OF plan] quiet_task(1) [OF ok, of "wd_queue w ! i"] ok i t by (auto simp: quiet_ok_def)
  note u = updates_Execute [OF this, of f]
  have p: "pg_status (progress_of run ?w) = pg_status (progress_of run w)" "pg_tries (progress_of run ?w) = pg_tries (progress_of run w)"
    "action_ok f ?w (t_node t) = action_ok f w (t_node t)" for run
    by (simp_all add: progress_of_def GetWorkflowNodeRun_def action_ok_def GetWorkflowNode_def)
  have "wd_updates (handle i f w) = wd_updates (snd (exec (quiet f) (ExecuteWorkflowNode t) ?w))"
    using i unfolding t by (simp add: handle_def Let_def split: prod.splits sum.splits)
  then show ?thesis unfolding u p same_planD(3) [OF plan] by simp
qed

section \<open>Updates follow the database\<close>

definition last_status :: "int \<Rightarrow> int \<Rightarrow> (int \<times> int \<times> node_state) list \<Rightarrow> node_state option" where
  "last_status run n us = fold (\<lambda>(r, m, s) acc. if r = run \<and> m = n then Some s else acc) us None"

lemma last_status_Nil [simp]: "last_status run n [] = None"
  by (simp add: last_status_def)

lemma last_status_snoc [simp]:
  "last_status run n (us @ [u]) = (if fst u = run \<and> fst (snd u) = n then Some (snd (snd u)) else last_status run n us)"
  by (cases u) (simp add: last_status_def)

lemma last_status_append:
  "last_status run n (us @ vs) = (case last_status run n vs of None \<Rightarrow> last_status run n us | Some s \<Rightarrow> Some s)"
proof (induction vs rule: rev_induct)
  case (snoc v vs)
  then show ?case unfolding append_assoc [symmetric] last_status_snoc by simp
qed simp

text \<open>What was published between two worlds leads from the statuses of a run in the first to those in the second.\<close>

definition tracked :: "int \<Rightarrow> world \<Rightarrow> world \<Rightarrow> bool" where
  "tracked run w w' \<longleftrightarrow>
     (\<exists>us. wd_updates w' = wd_updates w @ us \<and>
        dom (pg_status (progress_of run w')) = dom (pg_status (progress_of run w)) \<and>
        (\<forall>n. pg_status (progress_of run w') n =
          (case last_status run n us of None \<Rightarrow> pg_status (progress_of run w) n | Some s \<Rightarrow> Some s)))"

lemma tracked_same: "wd_updates w' = wd_updates w \<Longrightarrow> pg_status (progress_of run w') = pg_status (progress_of run w) \<Longrightarrow> tracked run w w'"
  by (simp add: tracked_def)

lemma tracked_trans:
  assumes "tracked run u v" and "tracked run v w"
  shows "tracked run u w"
proof -
  obtain a where a: "wd_updates v = wd_updates u @ a" "dom (pg_status (progress_of run v)) = dom (pg_status (progress_of run u))" "\<And>n. pg_status (progress_of run v) n =
      (case last_status run n a of None \<Rightarrow> pg_status (progress_of run u) n | Some s \<Rightarrow> Some s)" using assms(1) by (auto simp: tracked_def)
  obtain b where b: "wd_updates w = wd_updates v @ b" "dom (pg_status (progress_of run w)) = dom (pg_status (progress_of run v))" "\<And>n. pg_status (progress_of run w) n =
      (case last_status run n b of None \<Rightarrow> pg_status (progress_of run v) n | Some s \<Rightarrow> Some s)" using assms(2) by (auto simp: tracked_def)
  show ?thesis
    unfolding tracked_def by (rule exI [of _ "a @ b"]) (simp add: a b last_status_append split: option.splits)
qed

lemma finish_status [simp]: "pg_status (finish kids locked n p) = pg_status p"
  by (simp add: finish_told split: option.splits)

lemma tracked_handle:
  assumes ok: "quiet_ok nodes edges w"
  shows "tracked run w (handle i f w)"
proof (cases "i < length (wd_queue w)")
  case True
  let ?t = "m_task (wd_queue w ! i)" and ?w = "handle i f w"
  let ?p = "progress_of (t_run ?t) w"
  let ?idle = "(\<exists>q\<in>parents_of (t_run ?t) w (t_node ?t). pg_status ?p q \<noteq> Some Success) \<or>
    pg_status ?p (t_node ?t) = Some Success \<or> pg_tries ?p (t_node ?t) = 3"
  have m: "wd_queue w ! i \<in> set (wd_queue w)" using True by simp
  have tab: "tables_ok w" using ok by (simp add: quiet_ok_def)
  note pr = handle_progress [OF tab True refl quiet_task(1) [OF ok m], of run f] and up = updates_handle [OF ok True refl, of f]
  show ?thesis
  proof (cases ?idle)
    case idle: True
    then have "pg_status (progress_of run ?w) = pg_status (progress_of run w)" unfolding pr by (auto simp: advance_eq)
    then show ?thesis using up idle by (intro tracked_same) simp_all
  next
    case False
    let ?s = "if action_ok f w (t_node ?t) then Success else Failed"
    have "wd_updates ?w = wd_updates w @ [(t_run ?t, t_node ?t, Running), (t_run ?t, t_node ?t, ?s)]" using up False by simp
    moreover have "pg_status (progress_of run ?w) =
        (if run = t_run ?t then (pg_status ?p)(t_node ?t \<mapsto> ?s) else pg_status (progress_of run w))"
      using False unfolding pr by (auto simp: advance_eq)
    moreover have "t_node ?t \<in> dom (pg_status ?p)"
      using quiet_task(1) [OF ok m] row_iff [OF tab] by (fastforce simp: task_row_def progress_of_def)
    ultimately show ?thesis
      unfolding tracked_def
      by (intro exI [of _ "[(t_run ?t, t_node ?t, Running), (t_run ?t, t_node ?t, ?s)]"]) (auto simp: last_status_def)
  qed
qed (simp add: handle_def tracked_same)

lemma updates_roots:
  "wd_updates (fold (start_root u wid run) ps w) = wd_updates w @ map (\<lambda>q. (run, nd_id q, Success)) ps"
  by (induction ps arbitrary: w) (simp_all add: start_root_def enqueued_def)

lemma last_status_other: "\<forall>u\<in>set us. fst u \<noteq> run \<Longrightarrow> last_status run n us = None"
  by (induction us rule: rev_induct) simp_all

lemma tracked_start:
  assumes g: "graphs_ok nodes edges" and ok: "quiet_ok nodes edges w" and old: "run < wd_nextRun w"
  shows "tracked run w (quiet_step validate (StartRun u wid) w) \<and> wd_nextRun w \<le> wd_nextRun (quiet_step validate (StartRun u wid) w)"
proof (cases "snd (exec (quiet Fine) (OrchestrateWorkflow validate u wid) w) = w")
  case True
  then show ?thesis by (simp add: tracked_same)
next
  case False
  show ?thesis
  proof (cases rule: orchestrated [OF g ok False])
    case (1 new w1 roots)
    let ?ns = "filter (\<lambda>n. nd_workflow n = wid) nodes"
    have d: "distinct (map fst (map (\<lambda>n. (nd_id n, nd_category n)) ?ns))"
      using g by (auto simp: graphs_ok_def o_def intro: distinct_map_filter_key)
    note cr = created [OF ok 1(2) d]
    let ?w2 = "w1\<lparr>wd_sets := (wd_sets w1)(new \<mapsto> {i \<in> nd_id ` set ?ns. \<not> (\<exists>n\<in>set ?ns. nd_id n = i \<and> nd_category n = ''trigger'')})\<rparr>"
    have e: "quiet_step validate (StartRun u wid) w = fold (start_root u wid new) roots ?w2" using 1(4) by simp
    have ne: "run \<noteq> new" using old cr(1) by simp
    have "wd_updates w1 = wd_updates w" using 1(2) by (auto simp: CreateWorkflowRun_def Let_def split: if_splits)
    then have up: "wd_updates (fold (start_root u wid new) roots ?w2) = wd_updates w @ map (\<lambda>q. (new, nd_id q, Success)) roots"
      by (simp add: updates_roots)
    have "tables_ok ?w2" using cr(5) by (auto simp: tables_ok_def)
    from progress_roots [OF this, of run u wid new roots]
    have "progress_of run (fold (start_root u wid new) roots ?w2) = progress_of run w"
      using ne cr(7) [OF ne] progress_sets [of run w1 new] by simp
    then have "tracked run w (fold (start_root u wid new) roots ?w2)"
      using up ne unfolding tracked_def by (intro exI [of _ "map (\<lambda>q. (new, nd_id q, Success)) roots"]) (simp add: last_status_other)
    moreover have "wd_nextRun (fold (start_root u wid new) roots ?w2) = new + 1"
      using same_plan_roots [of ?w2 u wid new roots] cr(2) by (simp add: same_plan_def)
    ultimately show ?thesis unfolding e using cr(1) by simp
  qed
qed

lemma tracked_step:
  assumes g: "graphs_ok nodes edges" and ok: "quiet_ok nodes edges w" and old: "run < wd_nextRun w"
  shows "tracked run w (quiet_step validate ev w) \<and> wd_nextRun w \<le> wd_nextRun (quiet_step validate ev w)"
proof (cases ev)
  case (StartRun u wid)
  then show ?thesis using tracked_start [OF assms] by simp
next
  case (Handle i f)
  then show ?thesis using tracked_handle [OF ok] same_plan_handle [of w i f] by (simp add: same_plan_def)
next
  case (ForgetSet r)
  then show ?thesis by (auto intro!: tracked_same simp: progress_of_def GetWorkflowNodeRun_def)
next
  case (ForgetLock r)
  then show ?thesis by (auto intro!: tracked_same)
qed

lemma tracked_steps:
  assumes g: "graphs_ok nodes edges"
  shows "quiet_ok nodes edges w \<Longrightarrow> run < wd_nextRun w \<Longrightarrow> tracked run w (fold (quiet_step validate) evs w)"
proof (induction evs arbitrary: w)
  case (Cons ev evs)
  let ?w = "quiet_step validate ev w"
  note st = tracked_step [OF g Cons.prems, of validate ev]
  have "quiet_ok nodes edges ?w" using quiet_runs.inv_step [of nodes edges w validate ev] g Cons.prems(1) by blast
  from Cons.IH [OF this] st Cons.prems(2) show ?case by (auto intro: tracked_trans)
qed (simp add: tracked_same)

section \<open>The stream of a run\<close>

definition status_text :: "node_state \<Rightarrow> string" where
  "status_text s = (case s of Pending \<Rightarrow> ''pending'' | Running \<Rightarrow> ''running'' | Success \<Rightarrow> ''success'' | Failed \<Rightarrow> ''failed'')"

text \<open>The run and its nodes; a run without nodes is an error. The nodes come in the order of a Go map, which is any order.\<close>

definition GetWorkflowRun :: "(node_run list \<Rightarrow> node_run list) \<Rightarrow> int \<Rightarrow> world \<Rightarrow> (run_row \<times> node_run list) option" where
  "GetWorkflowRun order run w =
     (case List.find (\<lambda>r. rr_id r = run) (wd_runs w) of
        None \<Rightarrow> None
      | Some r \<Rightarrow>
          (let rows = filter (\<lambda>nr. nr_run nr = run) (wd_nodeRuns w)
           in if rows = [] then None else Some (r, order rows)))"

definition node_event :: "int \<Rightarrow> node_state \<Rightarrow> sse_event" where
  "node_event node status = SSE_node_update (Some (show_int node, status_text status))"

text \<open>The events before the stream of updates, and whether that stream follows.\<close>

definition stream_opening :: "(node_run list \<Rightarrow> node_run list) \<Rightarrow> int \<Rightarrow> world \<Rightarrow> sse_event list \<times> bool" where
  "stream_opening order run w =
     (case GetWorkflowRun order run w of
        None \<Rightarrow> ([SSE_connection_established], False)
      | Some (r, nodes) \<Rightarrow>
          if rr_status r \<noteq> RunRunning then ([SSE_connection_established, SSE_workflow_run_completed], False)
          else (SSE_connection_established # map (\<lambda>nr. node_event (nr_node nr) (nr_status nr)) nodes, True))"

text \<open>One client: the channel that the listener fills and what has been sent. An update that finds the channel full is dropped.\<close>

record subscriber =
  sb_chan :: "(int \<times> node_state) list"
  sb_sent :: "sse_event list"

definition no_subscriber :: subscriber where
  "no_subscriber = \<lparr>sb_chan = [], sb_sent = []\<rparr>"

datatype stream_event = Arrives int node_state | Sends

definition dispatchUpdate :: "int \<Rightarrow> node_state \<Rightarrow> subscriber \<Rightarrow> subscriber" where
  "dispatchUpdate node status s =
     (if length (sb_chan s) < 10 then s\<lparr>sb_chan := sb_chan s @ [(node, status)]\<rparr> else s)"

definition stream_next :: "subscriber \<Rightarrow> subscriber" where
  "stream_next s =
     (case sb_chan s of
        [] \<Rightarrow> s
      | u # us \<Rightarrow> \<lparr>sb_chan = us, sb_sent = sb_sent s @ [node_event (fst u) (snd u)]\<rparr>)"

fun stream_step :: "stream_event \<Rightarrow> subscriber \<Rightarrow> subscriber" where
  "stream_step (Arrives node status) s = dispatchUpdate node status s"
| "stream_step Sends s = stream_next s"

fun arrivals :: "stream_event list \<Rightarrow> (int \<times> node_state) list" where
  "arrivals [] = []"
| "arrivals (Arrives n st # es) = (n, st) # arrivals es"
| "arrivals (Sends # es) = arrivals es"

text \<open>Whether the channel has room for every update that arrives.\<close>

fun keeps_up :: "stream_event list \<Rightarrow> subscriber \<Rightarrow> bool" where
  "keeps_up [] s \<longleftrightarrow> True"
| "keeps_up (e # es) s \<longleftrightarrow> (e \<noteq> Sends \<longrightarrow> length (sb_chan s) < 10) \<and> keeps_up es (stream_step e s)"

lemma stream_sent:
  "keeps_up es s \<Longrightarrow>
   sb_sent (fold stream_step es s) @ map (\<lambda>u. node_event (fst u) (snd u)) (sb_chan (fold stream_step es s)) =
   sb_sent s @ map (\<lambda>u. node_event (fst u) (snd u)) (sb_chan s @ arrivals es)"
proof (induction es arbitrary: s)
  case (Cons e es)
  then show ?case by (cases e) (auto simp: dispatchUpdate_def stream_next_def split: list.splits)
qed simp

section \<open>What the page shows\<close>

lemma show_int_inject [simp]: "show_int a = show_int b \<longleftrightarrow> a = b"
  by (metis option.inject read_show_int)

lemma last_update_append:
  "last_update n (es @ fs) = (case last_update n fs of None \<Rightarrow> last_update n es | Some v \<Rightarrow> Some v)"
  by (induction es) (auto split: option.splits)

lemma last_update_snapshot:
  assumes "\<And>nr. nr \<in> set rows \<Longrightarrow> nr_node nr = n \<Longrightarrow> nr_status nr = st" and "n \<in> nr_node ` set rows"
  shows "last_update (show_int n) (map (\<lambda>nr. node_event (nr_node nr) (nr_status nr)) rows) = Some (status_text st)"
  using assms
proof (induction rows)
  case (Cons r rows)
  show ?case
  proof (cases "n \<in> nr_node ` set rows")
    case True
    then show ?thesis using Cons by simp
  next
    case False
    have "last_update (show_int n) (map (\<lambda>nr. node_event (nr_node nr) (nr_status nr)) rows) = None"
      using False by (induction rows) (auto simp: node_event_def)
    then show ?thesis using Cons.prems False by (auto simp: node_event_def)
  qed
qed simp

lemma last_update_published:
  "last_update (show_int n) (map (\<lambda>u. node_event (fst u) (snd u)) (map snd (filter (\<lambda>u. fst u = run) us))) =
   map_option status_text (last_status run n us)"
  by (induction us rule: rev_induct) (auto simp: last_update_append node_event_def split: option.splits)

lemma js_or_status: "js_or_str (status_text s) d = status_text s"
  by (cases s) (simp_all add: js_or_str_def status_text_def)

lemma snapshot_status:
  assumes ok: "quiet_ok nodes edges w" and perm: "\<And>rs. set (order rs) = set rs"
    and run: "pg_result (progress_of run w) = Some RunRunning" and n: "pg_status (progress_of run w) n = Some st"
  shows "last_update (show_int n) (fst (stream_opening order run w)) = Some (status_text st)"
    and "list_all live_event (fst (stream_opening order run w))"
proof -
  let ?rows = "filter (\<lambda>nr. nr_run nr = run) (wd_nodeRuns w)"
  obtain r where r: "List.find (\<lambda>r. rr_id r = run) (wd_runs w) = Some r" "rr_status r = RunRunning"
    using run by (auto simp: progress_of_def)
  obtain row where row: "row \<in> set ?rows" "nr_node row = n" "nr_status row = st"
    using n ok row_iff [of w run n] by (auto simp: progress_of_def quiet_ok_def)
  have "?rows \<noteq> []" using row(1) by force
  then have op: "fst (stream_opening order run w) = SSE_connection_established # map (\<lambda>nr. node_event (nr_node nr) (nr_status nr)) (order ?rows)"
    using r by (simp add: stream_opening_def GetWorkflowRun_def Let_def)
  have uniq: "nr_status x = st" if "x \<in> set (order ?rows)" "nr_node x = n" for x
  proof -
    have "x \<in> set ?rows" using that(1) perm by blast
    then have "GetWorkflowNodeRun run n w = Some x" using that(2) ok row_iff [of w run n x] by (auto simp: quiet_ok_def)
    then show ?thesis using n by (simp add: progress_of_def)
  qed
  have "n \<in> nr_node ` set (order ?rows)" using row perm by (metis imageI)
  with uniq have "last_update (show_int n) (map (\<lambda>nr. node_event (nr_node nr) (nr_status nr)) (order ?rows)) = Some (status_text st)"
    by (rule last_update_snapshot)
  then show "last_update (show_int n) (fst (stream_opening order run w)) = Some (status_text st)" unfolding op by simp
  show "list_all live_event (fst (stream_opening order run w))" unfolding op by (simp add: live_event_def node_event_def list_all_iff)
qed

text \<open>Claim C4: a page that is opened on a run in progress shows of every node the status that the database holds: the client is
  registered, then the nodes are read and sent, then the updates follow, with any requests and deliveries before, between and after.
  It is so under these conditions. The workflows are as the canvas intends (no cycle, the triggers are exactly the nodes without incoming edges, every workflow has an
  action). Requests and deliveries follow one another, no worker dies, and of what a delivery calls only the action may fail, though keys of Redis may expire. And
  the channel of the client never overflows, and everything in it has been sent: a client that is too slow loses updates, and its page then shows an older status.\<close>

theorem page_shows_server_status:
  assumes "graphs_ok nodes edges" and "w0 = fold (quiet_step validate) evs0 (idle_world nodes edges)"
    and "w1 = fold (quiet_step validate) evs1 w0" and "w2 = fold (quiet_step validate) evs2 w1"
    and "pg_result (progress_of run w0) \<noteq> None" and "pg_result (progress_of run w1) = Some RunRunning"
    and "\<forall>rs. set (order rs) = set rs"
    and "arrivals sevs = map snd (filter (\<lambda>u. fst u = run) (drop (length (wd_updates w0)) (wd_updates w2)))"
    and "keeps_up sevs no_subscriber" and "sb_chan (fold stream_step sevs no_subscriber) = []"
    and "store_inv (cv_store s)" and "flows (cv_store s) (run_key runId) = None" and "WorkflowRun_mount (Some page) runId s = (r, None)"
    and "es = fst (stream_opening order run w1) @ sb_sent (fold stream_step sevs no_subscriber)"
    and "GetWorkflowNodeRun run n w2 = Some row"
  shows "getNodeStatus (show_int n) (cv_store (rn_canvas (fold run_step (map RE_sse es) r))) = Inr (status_text (nr_status row))"
proof -
  have ok0: "quiet_ok nodes edges w0" using quiet_reachable [OF assms(1,2)] .
  have "w1 = fold (quiet_step validate) (evs0 @ evs1) (idle_world nodes edges)" using assms(2,3) by simp
  then have ok1: "quiet_ok nodes edges w1" using quiet_reachable [OF assms(1)] by blast
  have old: "run < wd_nextRun w0" using ok0 assms(5) by (force simp: quiet_ok_def not_less [symmetric])
  have "tracked run w0 w1" unfolding assms(3) by (rule tracked_steps [OF assms(1) ok0 old])
  then obtain us where us: "wd_updates w1 = wd_updates w0 @ us" "\<And>n. pg_status (progress_of run w1) n =
      (case last_status run n us of None \<Rightarrow> pg_status (progress_of run w0) n | Some s \<Rightarrow> Some s)" unfolding tracked_def by blast
  have "run < wd_nextRun w1" using ok1 assms(6) by (force simp: quiet_ok_def not_less [symmetric])
  then have "tracked run w1 w2" unfolding assms(4) by (rule tracked_steps [OF assms(1) ok1])
  then obtain vs where vs: "wd_updates w2 = wd_updates w1 @ vs" "\<And>n. pg_status (progress_of run w2) n =
      (case last_status run n vs of None \<Rightarrow> pg_status (progress_of run w1) n | Some s \<Rightarrow> Some s)"
      "dom (pg_status (progress_of run w2)) = dom (pg_status (progress_of run w1))" unfolding tracked_def by blast
  have fin: "pg_status (progress_of run w2) n = Some (nr_status row)" using assms(15) by (simp add: progress_of_def)
  then obtain st where st: "pg_status (progress_of run w1) n = Some st" using vs(3) by (metis domD domI)
  note snap = snapshot_status [OF ok1 _ assms(6) st, of order]
  have sent: "sb_sent (fold stream_step sevs no_subscriber) = map (\<lambda>u. node_event (fst u) (snd u)) (map snd (filter (\<lambda>u. fst u = run) (us @ vs)))"
    using stream_sent [OF assms(9)] assms(8,10) us(1) vs(1) by (simp add: no_subscriber_def)
  have live: "list_all live_event es"
    using snap(2) assms(7) unfolding assms(14) sent by (auto simp: list_all_iff live_event_def node_event_def)
  have v: "(case last_status run n vs of None \<Rightarrow> st | Some x \<Rightarrow> x) = nr_status row"
    using vs(2) [of n] fin st by (simp split: option.splits)
  have u: "x = st" if "last_status run n us = Some x" for x using us(2) [of n] st that by simp
  have "last_update (show_int n) es = Some (status_text (nr_status row))"
    using snap(1) assms(7) v u unfolding assms(14) sent last_update_append last_update_published
    by (cases "last_status run n vs"; cases "last_status run n us") (simp_all add: last_status_append)
  then show ?thesis
    using shown_status [OF assms(11,12,13) live, of "show_int n"] by (simp add: js_or_status)
qed

text \<open>Claim C37: A page that is opened on a run that is over shows every node of the workflow as successful, whatever the run came to.\<close>

theorem finished_run_shown_as_success:
  assumes "GetWorkflowRun order run w = Some (row, rows)" and "rr_status row \<noteq> RunRunning"
    and "store_inv (cv_store s)" and "WorkflowRun_mount (Some page) runId s = (r, None)" and "n \<in> set (rw_nodes page)"
  shows "getNodeStatus (wn_id n) (cv_store (rn_canvas (fold run_step (map RE_sse (fst (stream_opening order run w))) r))) = Inr ''success''"
proof -
  have "fst (stream_opening order run w) = [SSE_connection_established] @ SSE_workflow_run_completed # []"
    using assms(1,2) by (simp add: stream_opening_def)
  moreover have "list_all live_event [SSE_connection_established]" by (simp add: live_event_def)
  ultimately show ?thesis using completed_status [OF assms(3,4) _ assms(5), of "[SSE_connection_established]" "[]"] by (simp add: Let_def)
qed

text \<open>When more than ten updates arrive before the client is served, the rest is lost and not sent again.\<close>

lemma full_channel_drops:
  "length (sb_chan s) = 10 \<Longrightarrow> fold stream_step (map (\<lambda>u. Arrives (fst u) (snd u)) us) s = s"
  by (induction us) (simp_all add: dispatchUpdate_def)

theorem page_shows_server_status_witness:
  "\<exists>r. WorkflowRun_mount (Some demo_workflow) ''3'' init_canvas = (r, None) \<and>
     getNodeStatus (show_int 2) (cv_store (rn_canvas (fold run_step (map RE_sse
       (fst (stream_opening id 1 (sample_world [StartRun ''u'' 7])) @
        sb_sent (fold stream_step [Arrives 2 Running, Sends, Arrives 2 Failed, Sends] no_subscriber))) r))) = Inr ''failed''"
proof -
  obtain r where r: "WorkflowRun_mount (Some demo_workflow) ''3'' init_canvas = (r, None)" using demo_mount by blast
  have page: "store_inv (cv_store init_canvas)" "flows (cv_store init_canvas) (run_key ''3'') = None"
    by (simp_all add: init_canvas_def store_inv_init) (simp add: init_store_def)
  let ?w = "sample_world [StartRun ''u'' 7]" and ?sevs = "[Arrives 2 Running, Sends, Arrives 2 Failed, Sends]"
  have w1: "?w = fold (quiet_step (\<lambda>_ _. None)) [] ?w" by simp
  have w2: "sample_world [StartRun ''u'' 7, Handle 0 Lost] = fold (quiet_step (\<lambda>_ _. None)) [Handle 0 Lost] ?w"
    by (simp add: sample_world_def)
  have "map_option rr_status (List.find (\<lambda>r. rr_id r = 1) (wd_runs ?w)) = Some RunRunning" by code_simp
  then have run: "pg_result (progress_of 1 ?w) = Some RunRunning" by (simp add: progress_of_def)
  then have run0: "pg_result (progress_of 1 ?w) \<noteq> None" by simp
  have arr: "arrivals ?sevs = map snd (filter (\<lambda>u. fst u = 1)
      (drop (length (wd_updates ?w)) (wd_updates (sample_world [StartRun ''u'' 7, Handle 0 Lost]))))" by code_simp
  have up: "keeps_up ?sevs no_subscriber" "sb_chan (fold stream_step ?sevs no_subscriber) = []" by code_simp+
  have "map_option nr_status (GetWorkflowNodeRun 1 2 (sample_world [StartRun ''u'' 7, Handle 0 Lost])) = Some Failed" by code_simp
  then obtain row where row: "GetWorkflowNodeRun 1 2 (sample_world [StartRun ''u'' 7, Handle 0 Lost]) = Some row" "nr_status row = Failed" by auto
  have id: "\<forall>rs. set (id rs) = set rs" by simp
  have "status_text (nr_status row) = ''failed''" using row(2) by (simp add: status_text_def)
  then show ?thesis
    using page_shows_server_status [OF sample_graph sample_world_def w1 w2 run0 run id arr up page r refl row(1)] r by metis
qed

definition failed_world :: world where
  "failed_world = sample_world [StartRun ''u'' 7, Handle 0 Lost, Handle 0 Lost, Handle 0 Lost]"

theorem finished_run_shown_as_success_witness:
  "\<exists>r row. WorkflowRun_mount (Some demo_workflow) ''3'' init_canvas = (r, None) \<and>
     GetWorkflowRun id 1 failed_world = Some row \<and> rr_status (fst row) = RunFailed \<and>
     getNodeStatus ''1'' (cv_store (rn_canvas (fold run_step (map RE_sse (fst (stream_opening id 1 failed_world))) r))) = Inr ''success''"
proof -
  obtain r where r: "WorkflowRun_mount (Some demo_workflow) ''3'' init_canvas = (r, None)" using demo_mount by blast
  have "map_option (rr_status \<circ> fst) (GetWorkflowRun id 1 failed_world) = Some RunFailed" by code_simp
  then obtain row rows where row: "GetWorkflowRun id 1 failed_world = Some (row, rows)" "rr_status row = RunFailed" by auto
  have i: "store_inv (cv_store init_canvas)" by (simp add: init_canvas_def store_inv_init)
  have n: "hd (rw_nodes demo_workflow) \<in> set (rw_nodes demo_workflow)" "wn_id (hd (rw_nodes demo_workflow)) = ''1''"
    by (simp_all add: demo_workflow_def)
  have "rr_status row \<noteq> RunRunning" using row(2) by simp
  from finished_run_shown_as_success [OF row(1) this i r n(1)] r row n(2) show ?thesis by auto
qed

end
