(* ===== verification/Graph_Check.thy ===== *)
theory Graph_Check
  imports Run_Engine Js_Date
begin

text \<open>
  The check that a workflow passes before it is stored and before it is run: \<open>ValidateWorkflowGraph\<close> of
  \<open>backend/services/workflow.go\<close>. It rejects empty identifiers, edges to unknown nodes, cycles and, by levels that it gives to the
  nodes along a topological order, some of the graphs in which a node is reached on paths of different lengths.

  The order and the neighbours of a node come from the package \<open>yourbasic/graph\<close>: \<open>topsort\<close> and \<open>visit\<close> are arguments, and what
  the package documents of them is \<open>sorts_graphs\<close> and \<open>visits_graphs\<close>. A concrete pair shows that both can hold.
\<close>

section \<open>The check\<close>

record validate_node =
  vn_id :: string
  vn_type :: string
  vn_category :: string

record validate_edge =
  ve_source :: string
  ve_target :: string

datatype graph_error = EmptyNodeID | InvalidEdge string string | CycleDetected | InvalidRelationship string string

text \<open>The index of every identifier; of nodes with the same identifier the last one counts.\<close>

primrec index_nodes :: "nat \<Rightarrow> validate_node list \<Rightarrow> (string \<rightharpoonup> nat) \<Rightarrow> graph_error + (string \<rightharpoonup> nat)" where
  "index_nodes i [] idToIdx = Inr idToIdx"
| "index_nodes i (n # ns) idToIdx =
     (if vn_id n = [] then Inl EmptyNodeID else index_nodes (Suc i) ns (idToIdx(vn_id n \<mapsto> i)))"

primrec add_edges :: "(string \<rightharpoonup> nat) \<Rightarrow> validate_edge list \<Rightarrow> (nat \<times> nat) set \<Rightarrow> graph_error + (nat \<times> nat) set" where
  "add_edges idToIdx [] g = Inr g"
| "add_edges idToIdx (e # es) g =
     (case (idToIdx (ve_source e), idToIdx (ve_target e)) of
        (Some fromIdx, Some toIdx) \<Rightarrow> add_edges idToIdx es (insert (fromIdx, toIdx) g)
      | _ \<Rightarrow> Inl (InvalidEdge (ve_source e) (ve_target e)))"

primrec visit_children :: "string \<Rightarrow> string list \<Rightarrow> (string \<rightharpoonup> nat) \<Rightarrow> graph_error + (string \<rightharpoonup> nat)" where
  "visit_children parent [] level = Inr level"
| "visit_children parent (child # cs) level =
     (if \<exists>pl\<in>set_option (level parent). \<exists>cl\<in>set_option (level child). pl > 0 \<and> cl > 0 \<and> pl \<ge> cl
      then Inl (InvalidRelationship parent child)
      else visit_children parent cs (level(child \<mapsto> (case level parent of None \<Rightarrow> 0 | Some pl \<Rightarrow> pl) + 1)))"

primrec check_levels ::
  "string list \<Rightarrow> (nat \<Rightarrow> nat list) \<Rightarrow> nat list \<Rightarrow> (string \<rightharpoonup> nat) \<Rightarrow> graph_error option" where
  "check_levels ids neighbours [] level = None"
| "check_levels ids neighbours (v # vs) level =
     (let level1 = (if level (ids ! v) = None then level(ids ! v \<mapsto> 0) else level)
      in case visit_children (ids ! v) (map ((!) ids) (neighbours v)) level1 of
           Inl e \<Rightarrow> Some e
         | Inr level2 \<Rightarrow> check_levels ids neighbours vs level2)"

definition ValidateWorkflowGraph ::
  "(nat \<Rightarrow> (nat \<times> nat) set \<Rightarrow> nat list option) \<Rightarrow> ((nat \<times> nat) set \<Rightarrow> nat \<Rightarrow> nat list) \<Rightarrow>
   validate_node list \<Rightarrow> validate_edge list \<Rightarrow> graph_error option" where
  "ValidateWorkflowGraph topsort visit nodes edges =
     (case index_nodes 0 nodes Map.empty of
        Inl e \<Rightarrow> Some e
      | Inr idToIdx \<Rightarrow> (case add_edges idToIdx edges {} of
          Inl e \<Rightarrow> Some e
        | Inr g \<Rightarrow> (case topsort (length nodes) g of
            None \<Rightarrow> Some CycleDetected
          | Some order \<Rightarrow> check_levels (map vn_id nodes) (visit g) order Map.empty)))"

text \<open>The nodes and edges that the orchestrator passes, and the message of the error in UTF-8.\<close>

definition graph_error_text :: "graph_error \<Rightarrow> string" where
  "graph_error_text e =
     (case e of
        EmptyNodeID \<Rightarrow> ''validation error: node ID is empty''
      | InvalidEdge s t \<Rightarrow> ''validation error: invalid edge: '' @ s @ '' -> '' @ t
      | CycleDetected \<Rightarrow> ''validation error: cycle detected''
      | InvalidRelationship p c \<Rightarrow>
          ''validation error: node id '' @ p @ '' '' @ [CHR 0xE2, CHR 0x86, CHR 0x92] @ '' '' @ c @ '' invalid relationship'')"

definition graph_check ::
  "(nat \<Rightarrow> (nat \<times> nat) set \<Rightarrow> nat list option) \<Rightarrow> ((nat \<times> nat) set \<Rightarrow> nat \<Rightarrow> nat list) \<Rightarrow>
   wf_node list \<Rightarrow> wf_edge list \<Rightarrow> string option" where
  "graph_check topsort visit nodes edges =
     map_option graph_error_text (ValidateWorkflowGraph topsort visit
       (map (\<lambda>n. \<lparr>vn_id = show_int (nd_id n), vn_type = nd_type n, vn_category = nd_category n\<rparr>) nodes)
       (map (\<lambda>e. \<lparr>ve_source = show_int (we_source e), ve_target = show_int (we_target e)\<rparr>) edges))"

section \<open>What the graph package promises\<close>

definition topological :: "(nat \<times> nat) set \<Rightarrow> nat list \<Rightarrow> bool" where
  "topological g order \<longleftrightarrow> (\<forall>pre v post. order = pre @ v # post \<longrightarrow> (\<forall>u. (u, v) \<in> g \<longrightarrow> u \<in> set pre))"

definition sorts_graphs :: "(nat \<Rightarrow> (nat \<times> nat) set \<Rightarrow> nat list option) \<Rightarrow> bool" where
  "sorts_graphs topsort \<longleftrightarrow>
     (\<forall>n g. g \<subseteq> {..<n} \<times> {..<n} \<longrightarrow>
        (case topsort n g of
           None \<Rightarrow> \<not> acyclic g
         | Some order \<Rightarrow> distinct order \<and> set order = {..<n} \<and> topological g order))"

definition visits_graphs :: "((nat \<times> nat) set \<Rightarrow> nat \<Rightarrow> nat list) \<Rightarrow> bool" where
  "visits_graphs visit \<longleftrightarrow> (\<forall>g v. finite g \<longrightarrow> distinct (visit g v) \<and> set (visit g v) = {w. (v, w) \<in> g})"

lemma topologicalD: "topological g (pre @ v # post) \<Longrightarrow> (u, v) \<in> g \<Longrightarrow> u \<in> set pre"
  unfolding topological_def by blast

lemma topological_acyclic:
  assumes top: "topological g order" and sub: "g \<subseteq> UNIV \<times> set order"
  shows "acyclic g"
proof -
  define pos where "pos v = length (takeWhile (\<lambda>x. x \<noteq> v) order)" for v
  have "pos u < pos v" if e: "(u, v) \<in> g" for u v
  proof -
    obtain pre post where v: "order = pre @ v # post" "v \<notin> set pre" using sub e by (metis SigmaE2 split_list_first subsetD)
    then obtain a b where u: "pre = a @ u # b" "u \<notin> set a" using top e topologicalD by (metis split_list_first)
    have before: "takeWhile (\<lambda>x. x \<noteq> y) (c @ y # d) = c" if "y \<notin> set c" for c y d
      using that by (induction c) auto
    have "takeWhile (\<lambda>x. x \<noteq> v) order = pre" using v before by simp
    moreover have "takeWhile (\<lambda>x. x \<noteq> u) order = a" using v u before [of u a "b @ v # post"] by simp
    ultimately show ?thesis using u by (simp add: pos_def)
  qed
  then have "g \<subseteq> measure pos" by auto
  then show ?thesis using wf_subset [OF wf_measure] wf_acyclic by blast
qed

text \<open>A concrete package: take a vertex without predecessors among those that are left, in the order of a given list.\<close>

fun kahn :: "nat \<Rightarrow> nat list \<Rightarrow> (nat \<times> nat) set \<Rightarrow> nat list option" where
  "kahn 0 vs g = (if vs = [] then Some [] else None)"
| "kahn (Suc k) vs g =
     (if vs = [] then Some []
      else case List.find (\<lambda>v. \<forall>u\<in>set vs. (u, v) \<notin> g) vs of
             None \<Rightarrow> None
           | Some v \<Rightarrow> map_option (Cons v) (kahn k (remove1 v vs) g))"

lemma kahn_Some:
  "kahn k vs g = Some order \<Longrightarrow> distinct vs \<Longrightarrow>
   distinct order \<and> set order = set vs \<and>
   (\<forall>pre v post. order = pre @ v # post \<longrightarrow> (\<forall>u\<in>set vs. (u, v) \<in> g \<longrightarrow> u \<in> set pre))"
proof (induction k vs g arbitrary: order rule: kahn.induct)
  case (2 k vs g)
  show ?case
  proof (cases "vs = []")
    case False
    then obtain v os where v: "List.find (\<lambda>v. \<forall>u\<in>set vs. (u, v) \<notin> g) vs = Some v" and os: "kahn k (remove1 v vs) g = Some os" "order = v # os"
      using "2.prems"(1) by (auto split: option.splits if_splits)
    have vin: "v \<in> set vs" "\<forall>u\<in>set vs. (u, v) \<notin> g" using find_Some_iff2 [OF v] by auto
    have IH: "distinct os" "set os = set vs - {v}"
      "\<And>pre x post. os = pre @ x # post \<Longrightarrow> \<forall>u\<in>set vs - {v}. (u, x) \<in> g \<longrightarrow> u \<in> set pre"
      using "2.IH" [OF False v os(1)] "2.prems"(2) by (auto simp: set_remove1_eq)
    have "\<forall>u\<in>set vs. (u, x) \<in> g \<longrightarrow> u \<in> set pre" if "order = pre @ x # post" for pre x post
    proof (cases pre)
      case (Cons y ys)
      then have "os = ys @ x # post" "y = v" using that os(2) by auto
      then show ?thesis using IH(3) [of ys x post] Cons by auto
    qed (use that vin os(2) in auto)
    then show ?thesis using IH vin os(2) by auto
  qed (use "2.prems" in auto)
qed (auto split: if_splits)

lemma kahn_None:
  "kahn k vs g = None \<Longrightarrow> length vs \<le> k \<Longrightarrow> \<not> acyclic (g \<inter> set vs \<times> set vs)"
proof (induction k vs g rule: kahn.induct)
  case (2 k vs g)
  have ne: "vs \<noteq> []" using "2.prems"(1) by auto
  show ?case
  proof (cases "List.find (\<lambda>v. \<forall>u\<in>set vs. (u, v) \<notin> g) vs")
    case None
    then have pred: "\<exists>u\<in>set vs. (u, v) \<in> g" if "v \<in> set vs" for v using that by (auto simp: find_None_iff)
    show ?thesis
    proof
      assume "acyclic (g \<inter> set vs \<times> set vs)"
      then have "wf (g \<inter> set vs \<times> set vs)" by (intro finite_acyclic_wf) auto
      moreover have "set vs \<subseteq> (g \<inter> set vs \<times> set vs) `` set vs"
      proof
        fix v assume v: "v \<in> set vs"
        from pred [OF v] obtain u where "u \<in> set vs" "(u, v) \<in> g" by blast
        then show "v \<in> (g \<inter> set vs \<times> set vs) `` set vs" using v by (auto simp: Image_iff)
      qed
      ultimately have "set vs = {}" by (rule wfE_pf)
      then show False using ne by simp
    qed
  next
    case (Some v)
    have "v \<in> set vs" using find_Some_iff2 [OF Some] by simp
    moreover have "kahn k (remove1 v vs) g = None" using "2.prems"(1) Some ne by simp
    ultimately have "\<not> acyclic (g \<inter> set (remove1 v vs) \<times> set (remove1 v vs))"
      using "2.IH" [OF ne Some] "2.prems"(2) by (simp add: length_remove1)
    then show ?thesis
      by (rule contrapos_nn) (erule acyclic_subset, intro Int_mono Sigma_mono set_remove1_subset subset_refl)
  qed
qed (auto split: if_splits)

lemma kahn_sorts:
  assumes "\<And>n. distinct (f n) \<and> set (f n) = {..<n}"
  shows "sorts_graphs (\<lambda>n g. kahn n (f n) g)"
  unfolding sorts_graphs_def
proof (intro allI impI)
  fix n and g :: "(nat \<times> nat) set" assume g: "g \<subseteq> {..<n} \<times> {..<n}"
  have f: "distinct (f n)" "set (f n) = {..<n}" "length (f n) = n" using assms [of n] distinct_card [of "f n"] by auto
  show "case kahn n (f n) g of None \<Rightarrow> \<not> acyclic g | Some order \<Rightarrow> distinct order \<and> set order = {..<n} \<and> topological g order"
  proof (cases "kahn n (f n) g")
    case None
    then show ?thesis using kahn_None [OF None] f g by (simp add: Int_absorb2)
  next
    case (Some order)
    then show ?thesis using kahn_Some [OF Some f(1)] f(2) g by (fastforce simp: topological_def)
  qed
qed

definition neighbours :: "(nat \<times> nat) set \<Rightarrow> nat \<Rightarrow> nat list" where
  "neighbours g v = sorted_list_of_set (snd ` {e \<in> g. fst e = v})"

lemma neighbours_visits: "visits_graphs neighbours"
  unfolding visits_graphs_def neighbours_def
proof (intro allI impI conjI)
  fix g :: "(nat \<times> nat) set" and v assume "finite g"
  then have "finite (snd ` {e \<in> g. fst e = v})" by simp
  then show "set (sorted_list_of_set (snd ` {e \<in> g. fst e = v})) = {w. (v, w) \<in> g}"
    by (force simp: image_iff)
qed simp

section \<open>What the check accepts\<close>

lemma index_nodes_Inr:
  "index_nodes i ns m = Inr m' \<Longrightarrow>
   (\<forall>n\<in>set ns. vn_id n \<noteq> []) \<and> dom m' = dom m \<union> vn_id ` set ns \<and>
   (\<forall>x k. m' x = Some k \<longrightarrow> m x = Some k \<or> i \<le> k \<and> k < i + length ns \<and> map vn_id ns ! (k - i) = x)"
proof (induction ns arbitrary: i m)
  case (Cons n ns)
  then have n: "vn_id n \<noteq> []" and step: "index_nodes (Suc i) ns (m(vn_id n \<mapsto> i)) = Inr m'" by (auto split: if_splits)
  note IH = Cons.IH [OF step]
  have "m x = Some k \<or> i \<le> k \<and> k < i + length (n # ns) \<and> map vn_id (n # ns) ! (k - i) = x" if "m' x = Some k" for x k
  proof -
    have "(m(vn_id n \<mapsto> i)) x = Some k \<or> Suc i \<le> k \<and> k < Suc i + length ns \<and> map vn_id ns ! (k - Suc i) = x" using IH that by blast
    then show ?thesis by (auto simp: nth_Cons' Suc_diff_le split: if_splits)
  qed
  then show ?case using n IH by auto
qed simp

lemma index_nodes_ok: "\<forall>n\<in>set ns. vn_id n \<noteq> [] \<Longrightarrow> \<exists>m'. index_nodes i ns m = Inr m'"
  by (induction ns arbitrary: i m) auto

lemma add_edges_Inr:
  "add_edges m es g = Inr g' \<Longrightarrow>
   (\<forall>e\<in>set es. ve_source e \<in> dom m \<and> ve_target e \<in> dom m) \<and>
   g' = g \<union> (\<lambda>e. (the (m (ve_source e)), the (m (ve_target e)))) ` set es"
  by (induction es arbitrary: g) (auto split: option.splits)

lemma add_edges_ok: "\<forall>e\<in>set es. ve_source e \<in> dom m \<and> ve_target e \<in> dom m \<Longrightarrow> \<exists>g'. add_edges m es g = Inr g'"
  by (induction es arbitrary: g) (auto split: option.splits)

text \<open>The graph that the check builds from nodes and edges.\<close>

lemma built_graph:
  assumes "index_nodes 0 nodes Map.empty = Inr m" and "add_edges m edges {} = Inr g"
  shows "g = (\<lambda>e. (the (m (ve_source e)), the (m (ve_target e)))) ` set edges"
    and "dom m = vn_id ` set nodes" and "\<And>x k. m x = Some k \<Longrightarrow> k < length nodes \<and> vn_id (nodes ! k) = x"
    and "g \<subseteq> {..<length nodes} \<times> {..<length nodes}" and "finite g"
    and "\<forall>e\<in>set edges. ve_source e \<in> vn_id ` set nodes \<and> ve_target e \<in> vn_id ` set nodes"
proof -
  note i = index_nodes_Inr [OF assms(1)] and a = add_edges_Inr [OF assms(2)]
  show g: "g = (\<lambda>e. (the (m (ve_source e)), the (m (ve_target e)))) ` set edges" using a by simp
  show d: "dom m = vn_id ` set nodes" using i by auto
  show k: "k < length nodes \<and> vn_id (nodes ! k) = x" if "m x = Some k" for x k using i that by fastforce
  show "g \<subseteq> {..<length nodes} \<times> {..<length nodes}"
  proof
    fix p assume "p \<in> g"
    then obtain e where e: "e \<in> set edges" "p = (the (m (ve_source e)), the (m (ve_target e)))" using g by auto
    then obtain a b where "m (ve_source e) = Some a" "m (ve_target e) = Some b" using a by (meson domD)
    then show "p \<in> {..<length nodes} \<times> {..<length nodes}" using k e by auto
  qed
  show "finite g" using g by simp
  show "\<forall>e\<in>set edges. ve_source e \<in> vn_id ` set nodes \<and> ve_target e \<in> vn_id ` set nodes" using a d by auto
qed

lemma acyclic_image:
  assumes "acyclic ((\<lambda>(a, b). (f a, f b)) ` r)"
  shows "acyclic r"
proof -
  have "(f a, f b) \<in> ((\<lambda>(a, b). (f a, f b)) ` r)\<^sup>+" if "(a, b) \<in> r\<^sup>+" for a b
    using that
  proof induction
    case (step y z)
    then show ?case by (auto intro: trancl_into_trancl)
  qed auto
  then show ?thesis using assms unfolding acyclic_def by blast
qed

lemma validated:
  assumes sorts: "sorts_graphs topsort" and ok: "ValidateWorkflowGraph topsort visit nodes edges = None"
  shows "\<forall>n\<in>set nodes. vn_id n \<noteq> []"
    and "\<forall>e\<in>set edges. ve_source e \<in> vn_id ` set nodes \<and> ve_target e \<in> vn_id ` set nodes"
    and "acyclic ((\<lambda>e. (ve_source e, ve_target e)) ` set edges)"
proof -
  obtain m where m: "index_nodes 0 nodes Map.empty = Inr m" using ok by (auto simp: ValidateWorkflowGraph_def split: sum.splits)
  then obtain g where g: "add_edges m edges {} = Inr g" using ok by (auto simp: ValidateWorkflowGraph_def split: sum.splits)
  then obtain order where o: "topsort (length nodes) g = Some order"
    using ok m by (auto simp: ValidateWorkflowGraph_def split: option.splits)
  note b = built_graph [OF m g]
  show "\<forall>n\<in>set nodes. vn_id n \<noteq> []" using index_nodes_Inr [OF m] by simp
  show "\<forall>e\<in>set edges. ve_source e \<in> vn_id ` set nodes \<and> ve_target e \<in> vn_id ` set nodes" by (rule b(6))
  have "topological g order" "set order = {..<length nodes}" using sorts b(4) o by (auto simp: sorts_graphs_def split: option.splits)
  then have "acyclic g" using b(4) by (intro topological_acyclic) auto
  then show "acyclic ((\<lambda>e. (ve_source e, ve_target e)) ` set edges)"
    by (intro acyclic_image [where f = "\<lambda>x. the (m x)"]) (simp add: b(1) image_image)
qed

section \<open>Graphs whose nodes lie on levels\<close>

text \<open>When every edge leads from one level to the next, the check gives each node its level and finds nothing to reject.\<close>

lemma visit_children_graded:
  assumes "\<And>x l. level x = Some l \<Longrightarrow> l = rank x" and "level parent = Some (rank parent)"
    and "\<forall>c\<in>set cs. rank c = Suc (rank parent)"
  shows "visit_children parent cs level = Inr (\<lambda>x. if x \<in> set cs then Some (rank x) else level x)"
  using assms
proof (induction cs arbitrary: level)
  case (Cons c cs)
  let ?level = "level(c \<mapsto> (case level parent of None \<Rightarrow> 0 | Some pl \<Rightarrow> pl) + 1)"
  have c: "rank c = Suc (rank parent)" using Cons.prems(3) by simp
  then have ne: "parent \<noteq> c" by auto
  have cl: "cl = rank c" if "cl \<in> set_option (level c)" for cl by (rule Cons.prems(1)) (use that in simp)
  have "\<not> (\<exists>pl\<in>set_option (level parent). \<exists>cl\<in>set_option (level c). pl > 0 \<and> cl > 0 \<and> pl \<ge> cl)"
  proof
    assume "\<exists>pl\<in>set_option (level parent). \<exists>cl\<in>set_option (level c). pl > 0 \<and> cl > 0 \<and> pl \<ge> cl"
    then obtain pl cl where "level parent = Some pl" "cl \<in> set_option (level c)" "pl \<ge> cl" by auto
    then show False using cl [of cl] Cons.prems(2) c by simp
  qed
  moreover have "visit_children parent cs ?level = Inr (\<lambda>x. if x \<in> set cs then Some (rank x) else ?level x)"
  proof (rule Cons.IH)
    show "l = rank x" if "?level x = Some l" for x l
      using that Cons.prems(1) [of x l] Cons.prems(2) c by (simp split: if_splits)
  qed (use Cons.prems(2,3) ne in simp_all)
  ultimately show ?case using Cons.prems(2) c by (simp only: visit_children.simps if_False) (simp add: fun_eq_iff)
next
  case Nil
  show ?case by (simp add: fun_eq_iff)
qed

lemma check_levels_graded:
  assumes top: "topological g (pre @ vs)" and nb: "\<And>v. set (nb v) = {w. (v, w) \<in> g}"
    and rank: "\<And>u v. (u, v) \<in> g \<Longrightarrow> rank (ids ! v) = Suc (rank (ids ! u))"
    and root: "\<And>v. v \<in> set (pre @ vs) \<Longrightarrow> (\<forall>u. (u, v) \<notin> g) \<Longrightarrow> rank (ids ! v) = 0"
    and lev: "\<And>x l. level x = Some l \<Longrightarrow> l = rank x" and seen: "\<And>u v. u \<in> set pre \<Longrightarrow> (u, v) \<in> g \<Longrightarrow> level (ids ! v) \<noteq> None"
  shows "check_levels ids nb vs level = None"
  using assms(1,4,5,6)
proof (induction vs arbitrary: pre level)
  case (Cons v vs)
  let ?level = "if level (ids ! v) = None then level(ids ! v \<mapsto> 0) else level"
  let ?cs = "map ((!) ids) (nb v)"
  let ?next = "\<lambda>x. if x \<in> set ?cs then Some (rank x) else ?level x"
  have r0: "rank (ids ! v) = 0" if "level (ids ! v) = None"
  proof (rule Cons.prems(2))
    show "\<forall>u. (u, v) \<notin> g" using topologicalD [OF Cons.prems(1)] Cons.prems(4) [of _ v] that by auto
  qed simp
  then have lev: "l = rank x" if "?level x = Some l" for x l using that Cons.prems(3) [of x l] by (simp split: if_splits)
  moreover have "?level (ids ! v) = Some (rank (ids ! v))" using r0 Cons.prems(3) [of "ids ! v"] by (cases "level (ids ! v)") simp_all
  moreover have "\<forall>c\<in>set ?cs. rank c = Suc (rank (ids ! v))"
  proof
    fix c assume "c \<in> set ?cs"
    then obtain y where "c = ids ! y" "(v, y) \<in> g" using nb by auto
    then show "rank c = Suc (rank (ids ! v))" using rank by blast
  qed
  ultimately have "visit_children (ids ! v) ?cs ?level = Inr ?next" by (rule visit_children_graded)
  moreover have "check_levels ids nb vs ?next = None"
  proof (rule Cons.IH [of "pre @ [v]"])
    show "?next (ids ! y) \<noteq> None" if "u \<in> set (pre @ [v])" "(u, y) \<in> g" for u y
    proof (cases "u = v")
      case True
      then have "y \<in> set (nb v)" using that(2) nb by simp
      then have "ids ! y \<in> set ?cs" by simp
      then show ?thesis by (simp only: if_True) simp
    next
      case False
      then have "level (ids ! y) \<noteq> None" using that Cons.prems(4) [of u y] by simp
      then show ?thesis by (simp split: if_split)
    qed
    show "l = rank x" if "?next x = Some l" for x l
      using that lev [of x l] by (cases "x \<in> set ?cs") (simp_all only: if_True if_False option.inject)
    show "topological g ((pre @ [v]) @ vs)" using Cons.prems(1) by simp
    show "rank (ids ! y) = 0" if "y \<in> set ((pre @ [v]) @ vs)" "\<forall>u. (u, y) \<notin> g" for y
      using Cons.prems(2) [of y] that by simp
  qed
  ultimately show ?case by (simp add: Let_def)
qed simp

section \<open>Properties\<close>

text \<open>Claim C18: A workflow that passes the check has no empty identifier, its edges join its own nodes and they form no cycle,
  whatever order the graph package chooses.\<close>

theorem validated_acyclic:
  assumes "sorts_graphs topsort" and "ValidateWorkflowGraph topsort visit nodes edges = None"
  shows "(\<forall>n\<in>set nodes. vn_id n \<noteq> []) \<and>
    (\<forall>e\<in>set edges. ve_source e \<in> vn_id ` set nodes \<and> ve_target e \<in> vn_id ` set nodes) \<and>
    acyclic ((\<lambda>e. (ve_source e, ve_target e)) ` set edges)"
  using validated [OF assms] by blast

text \<open>Claim C19: A workflow whose edges all lead from one level to the next, such as a forest, passes the check whatever order the graph
  package chooses.\<close>

theorem graded_accepted:
  assumes "sorts_graphs topsort" and "visits_graphs visit"
    and "distinct (map vn_id nodes)" and "\<forall>n\<in>set nodes. vn_id n \<noteq> []"
    and "\<forall>e\<in>set edges. ve_source e \<in> vn_id ` set nodes \<and> ve_target e \<in> vn_id ` set nodes \<and> rank (ve_target e) = Suc (rank (ve_source e))"
    and "\<forall>n\<in>set nodes. vn_id n \<notin> ve_target ` set edges \<longrightarrow> rank (vn_id n) = 0"
  shows "ValidateWorkflowGraph topsort visit nodes edges = None"
proof -
  let ?ids = "map vn_id nodes"
  obtain m where m: "index_nodes 0 nodes Map.empty = Inr m" using index_nodes_ok [OF assms(4)] by blast
  have dom: "dom m = vn_id ` set nodes" using index_nodes_Inr [OF m] by auto
  then obtain g where g: "add_edges m edges {} = Inr g" using add_edges_ok [of edges m "{}"] assms(5) by auto
  note b = built_graph [OF m g]
  have idx: "the (m x) < length nodes \<and> ?ids ! the (m x) = x" if "x \<in> vn_id ` set nodes" for x
    using that dom b(3) by (metis domD nth_map option.sel)
  have edge: "\<exists>e\<in>set edges. ?ids ! u = ve_source e \<and> ?ids ! v = ve_target e" if uv: "(u, v) \<in> g" for u v
  proof -
    obtain e where e: "e \<in> set edges" "u = the (m (ve_source e))" "v = the (m (ve_target e))" using uv unfolding b(1) by auto
    then show ?thesis using idx [of "ve_source e"] idx [of "ve_target e"] assms(5) by auto
  qed
  have rank: "rank (?ids ! v) = Suc (rank (?ids ! u))" if "(u, v) \<in> g" for u v using edge [OF that] assms(5) by auto
  have "g \<subseteq> measure (\<lambda>v. rank (?ids ! v))" using rank by fastforce
  then have "acyclic g" using wf_subset [OF wf_measure] wf_acyclic by blast
  moreover have "case topsort (length nodes) g of None \<Rightarrow> \<not> acyclic g
      | Some order \<Rightarrow> distinct order \<and> set order = {..<length nodes} \<and> topological g order"
    using assms(1) b(4) unfolding sorts_graphs_def by blast
  ultimately obtain order where o: "topsort (length nodes) g = Some order" "set order = {..<length nodes}" "topological g order"
    by (auto split: option.splits)
  have root: "rank (?ids ! v) = 0" if v: "v < length nodes" and none: "\<forall>u. (u, v) \<notin> g" for v
  proof -
    have "vn_id (nodes ! v) \<notin> ve_target ` set edges"
    proof
      assume "vn_id (nodes ! v) \<in> ve_target ` set edges"
      then obtain e where e: "e \<in> set edges" "ve_target e = vn_id (nodes ! v)" by auto
      have "the (m (ve_target e)) < length nodes" "?ids ! the (m (ve_target e)) = ?ids ! v" using idx [of "ve_target e"] e v by auto
      then have "the (m (ve_target e)) = v" using nth_eq_iff_index_eq [OF assms(3)] v by (metis length_map)
      then show False using e(1) b(1) none by blast
    qed
    then show ?thesis using assms(6) v by simp
  qed
  have "check_levels ?ids (visit g) order Map.empty = None"
  proof (rule check_levels_graded [where pre = "[]" and g = g and rank = rank])
    show "set (visit g v) = {w. (v, w) \<in> g}" for v using assms(2) b(5) by (simp add: visits_graphs_def)
    show "rank (?ids ! v) = Suc (rank (?ids ! u))" if "(u, v) \<in> g" for u v using that by (rule rank)
    show "rank (?ids ! v) = 0" if "v \<in> set ([] @ order)" "\<forall>u. (u, v) \<notin> g" for v using that o(2) by (intro root) simp_all
  qed (use o(3) in simp_all)
  then show ?thesis by (simp add: ValidateWorkflowGraph_def m g o)
qed

text \<open>A run is started only for a workflow whose stored edges form no cycle.\<close>

lemma started_runs_acyclic:
  assumes "sorts_graphs topsort" and "GetWorkflowGraph wid w = Some (nodes, edges)"
    and "fst (exec F (OrchestrateWorkflow (graph_check topsort visit) u wid) w) = Inr run"
  shows "acyclic ((\<lambda>e. (we_source e, we_target e)) ` set edges)"
proof -
  have "graph_check topsort visit nodes edges = None"
    using assms(2,3)
    by (cases "F (CGetWorkflowGraph wid)") (auto simp: OrchestrateWorkflow_def Let_def split: option.splits)
  then have "ValidateWorkflowGraph topsort visit
      (map (\<lambda>n. \<lparr>vn_id = show_int (nd_id n), vn_type = nd_type n, vn_category = nd_category n\<rparr>) nodes)
      (map (\<lambda>e. \<lparr>ve_source = show_int (we_source e), ve_target = show_int (we_target e)\<rparr>) edges) = None"
    by (simp add: graph_check_def)
  note v = validated(3) [OF assms(1) this]
  show ?thesis
    by (rule acyclic_image [where f = show_int]) (use v in \<open>simp add: image_image\<close>)
qed

section \<open>Examples\<close>

definition in_order :: "nat \<Rightarrow> (nat \<times> nat) set \<Rightarrow> nat list option" where
  "in_order n g = kahn n [0..<n] g"

definition in_reverse :: "nat \<Rightarrow> (nat \<times> nat) set \<Rightarrow> nat list option" where
  "in_reverse n g = kahn n (rev [0..<n]) g"

lemma in_order_sorts: "sorts_graphs in_order"
  using kahn_sorts [of "\<lambda>n. [0..<n]"] by (simp add: in_order_def [abs_def] atLeast0LessThan)

lemma in_reverse_sorts: "sorts_graphs in_reverse"
  using kahn_sorts [of "\<lambda>n. rev [0..<n]"] by (simp add: in_reverse_def [abs_def] atLeast0LessThan)

definition letters :: "string \<Rightarrow> validate_node list" where
  "letters s = map (\<lambda>c. \<lparr>vn_id = [c], vn_type = ''send_email'', vn_category = ''action''\<rparr>) s"

definition arrows :: "string list \<Rightarrow> validate_edge list" where
  "arrows ps = map (\<lambda>p. \<lparr>ve_source = [p ! 0], ve_target = [p ! 1]\<rparr>) ps"

theorem validated_acyclic_witness:
  "ValidateWorkflowGraph in_order neighbours (letters ''ABC'') (arrows [''AB'', ''BC'']) = None \<and>
   acyclic ((\<lambda>e. (ve_source e, ve_target e)) ` set (arrows [''AB'', ''BC'']))"
proof -
  have 1: "ValidateWorkflowGraph in_order neighbours (letters ''ABC'') (arrows [''AB'', ''BC'']) = None" by code_simp
  show ?thesis using 1 validated_acyclic [OF in_order_sorts 1] by blast
qed

theorem graded_accepted_witness:
  "ValidateWorkflowGraph in_order neighbours (letters ''ABCD'') (arrows [''AB'', ''AC'', ''BD'', ''CD'']) = None"
  by (rule graded_accepted [OF in_order_sorts neighbours_visits,
        where rank = "\<lambda>x. if x = ''A'' then 0 else if x = ''D'' then 2 else 1"])
    (auto simp: letters_def arrows_def)

text \<open>The verdict on a workflow depends on the order that the graph package happens to choose: with two starting nodes and
  paths of different lengths to the same node, one topological order accepts what another rejects.\<close>

lemma verdict_depends_on_order:
  "sorts_graphs in_order \<and> sorts_graphs in_reverse \<and>
   ValidateWorkflowGraph in_order neighbours (letters ''ABCD'') (arrows [''AB'', ''BC'', ''DC'']) = None \<and>
   ValidateWorkflowGraph in_reverse neighbours (letters ''ABCD'') (arrows [''AB'', ''BC'', ''DC'']) = Some (InvalidRelationship ''B'' ''C'')"
proof (intro conjI)
  show "ValidateWorkflowGraph in_order neighbours (letters ''ABCD'') (arrows [''AB'', ''BC'', ''DC'']) = None" by code_simp
  show "ValidateWorkflowGraph in_reverse neighbours (letters ''ABCD'') (arrows [''AB'', ''BC'', ''DC'']) =
      Some (InvalidRelationship ''B'' ''C'')" by code_simp
qed (rule in_order_sorts in_reverse_sorts)+

definition two_step_world :: world where
  "two_step_world = idle_world
     [\<lparr>nd_id = 1, nd_workflow = 7, nd_category = ''trigger'', nd_type = ''schedule'', nd_config = []\<rparr>,
      \<lparr>nd_id = 2, nd_workflow = 7, nd_category = ''action'', nd_type = ''send_email'', nd_config = []\<rparr>]
     [\<lparr>we_workflow = 7, we_source = 1, we_target = 2\<rparr>]"

lemma started_runs_acyclic_example:
  "fst (exec (\<lambda>_. Fine) (OrchestrateWorkflow (graph_check in_order neighbours) ''u'' 7) two_step_world) = Inr 1 \<and> acyclic {(1::int, 2::int)}"
proof -
  have 1: "fst (exec (\<lambda>_. Fine) (OrchestrateWorkflow (graph_check in_order neighbours) ''u'' 7) two_step_world) = Inr 1" by code_simp
  have 2: "GetWorkflowGraph 7 two_step_world = Some (wd_nodes two_step_world, [\<lparr>we_workflow = 7, we_source = 1, we_target = 2\<rparr>])"
    by code_simp
  show ?thesis using 1 started_runs_acyclic [OF in_order_sorts 2 1] by simp
qed

end
