(* ===== verification/Library.thy ===== *)
theory Library
  imports Workflow_Api Js_View
begin

text \<open>
  The workflow library, \<open>routes/_workspace_layout.workflow-library\<close>: the search parameters in the
  address, their validation and update, the filter with its counts, the pages, and the views.

  The address's parameters are a list of pairs in order (\<open>URLSearchParams\<close>). The schema of
  \<open>utils/schemas.ts\<close> is written out by the documented meaning of its combinators; a failed parse is the
  exception \<open>ZodError\<close>. \<open>fmt\<close> is \<open>formatDistanceToNow\<close> of the date of a text, which throws on a
  text that is no date.
\<close>

section \<open>Search parameters\<close>

type_synonym url_params = "(string \<times> string) list"

text \<open>\<open>Object.fromEntries\<close>: the last entry of a name wins. \<open>set\<close> changes the first entry of a name and
  drops the others.\<close>

definition usp_entries :: "url_params \<Rightarrow> string \<Rightarrow> string option" where
  "usp_entries ps = map_of (rev ps)"

definition usp_delete :: "string \<Rightarrow> url_params \<Rightarrow> url_params" where
  "usp_delete k ps = filter (\<lambda>p. fst p \<noteq> k) ps"

fun usp_set :: "string \<Rightarrow> string \<Rightarrow> url_params \<Rightarrow> url_params" where
  "usp_set k v [] = [(k, v)]"
| "usp_set k v (p # ps) = (if fst p = k then (k, v) # usp_delete k ps else p # usp_set k v ps)"

record search_params =
  sp_q :: string
  sp_tab :: string
  sp_tags :: "string list"
  sp_page :: nat

definition parse_tab :: "string option \<Rightarrow> string" where
  "parse_tab v =
     (case v of None \<Rightarrow> ''active''
      | Some s \<Rightarrow> let t = js_lower s in if t \<in> {''draft'', ''active'', ''archived''} then t else ''active'')"

definition parse_tags :: "string option \<Rightarrow> string list js" where
  "parse_tags v =
     (case v of None \<Rightarrow> Inr []
      | Some s \<Rightarrow>
          let ts = map js_trim (filter (\<lambda>w. w \<noteq> []) (js_split (CHR '','') s))
          in if list_all (\<lambda>t. 1 \<le> length t) ts then Inr ts else Inl (ErrorMsg ''ZodError''))"

definition parse_page :: "string option \<Rightarrow> nat" where
  "parse_page v = (case v of None \<Rightarrow> 1 | Some s \<Rightarrow> (case js_digits s of None \<Rightarrow> 1 | Some n \<Rightarrow> n))"

definition searchParamsSchema :: "(string \<Rightarrow> string option) \<Rightarrow> search_params js" where
  "searchParamsSchema m =
     js_bind (parse_tags (m ''tags'')) (\<lambda>tags.
       Inr \<lparr>sp_q = (case m ''q'' of None \<Rightarrow> [] | Some q \<Rightarrow> q), sp_tab = parse_tab (m ''tab''),
            sp_tags = tags, sp_page = parse_page (m ''page'')\<rparr>)"

definition useValidatedSearchParams :: "nat \<Rightarrow> url_params \<Rightarrow> search_params js" where
  "useValidatedSearchParams totalPages ps =
     js_bind (searchParamsSchema (usp_entries ps)) (\<lambda>parsed.
       Inr (parsed\<lparr>sp_page := max 1 (min (sp_page parsed) totalPages)\<rparr>))"

datatype param_value = PUndefined | PStr string | PNum nat | PArr "string list"

definition update_param :: "string \<times> param_value \<Rightarrow> url_params \<Rightarrow> url_params" where
  "update_param kv ps = (case kv of (key, v) \<Rightarrow>
     (case v of
        PUndefined \<Rightarrow> usp_delete key ps
      | PStr s \<Rightarrow>
          if s = [] then usp_delete key ps
          else if key = ''tags'' then usp_set key s ps
          else (let ps1 = usp_set key s ps in if key \<noteq> ''page'' then usp_set ''page'' ''1'' ps1 else ps1)
      | PArr ws \<Rightarrow>
          if key = ''tags''
          then (let ps1 = usp_set key (js_join '','' ws) ps in if length ws = 0 then usp_delete key ps1 else ps1)
          else usp_delete key ps
      | PNum n \<Rightarrow>
          (let ps1 = usp_set key (js_of_nat n) ps in if key \<noteq> ''page'' then usp_set ''page'' ''1'' ps1 else ps1)))"

definition updateParams :: "(string \<times> param_value) list \<Rightarrow> url_params \<Rightarrow> url_params" where
  "updateParams newParams ps = fold update_param newParams ps"

section \<open>State of the list\<close>

text \<open>Every component of the page calls the hook with its default of one page.\<close>

definition list_state :: "url_params \<Rightarrow> search_params js" where
  "list_state ps = useValidatedSearchParams 1 ps"

definition updateState :: "(string \<times> param_value) list \<Rightarrow> url_params \<Rightarrow> url_params" where
  "updateState newState ps = updateParams newState ps"

definition clearSearch :: "url_params \<Rightarrow> url_params" where
  "clearSearch ps = updateParams [(''q'', PStr [])] ps"

definition setPage :: "nat \<Rightarrow> url_params \<Rightarrow> url_params" where
  "setPage page ps = updateParams [(''page'', PNum page)] ps"

definition setTags :: "string list \<Rightarrow> url_params \<Rightarrow> url_params" where
  "setTags tags ps = updateParams [(''tags'', PArr tags)] ps"

definition debouncedSetSearch :: "string \<Rightarrow> url_params \<Rightarrow> url_params" where
  "debouncedSetSearch v ps = updateParams [(''q'', PStr v)] ps"

section \<open>Filtering and counting\<close>

record workflow_result =
  wf_workflows :: "workflow list"
  tagCounts :: "(string \<times> nat) list"
  statusCounts :: "string \<rightharpoonup> nat"

definition empty_result :: workflow_result where
  "empty_result = \<lparr>wf_workflows = [], tagCounts = [], statusCounts = Map.empty\<rparr>"

definition opt_tags :: "workflow \<Rightarrow> string list" where
  "opt_tags w = (case w_tags w of None \<Rightarrow> [] | Some ts \<Rightarrow> ts)"

definition count_in :: "string \<Rightarrow> (string \<times> nat) list \<Rightarrow> (string \<times> nat) list" where
  "count_in t m = js_set t ((case map_of m t of None \<Rightarrow> 0 | Some n \<Rightarrow> n) + 1) m"

text \<open>The two \<open>continue\<close> conditions at the top of the loop.\<close>

definition skips_tags :: "string list \<Rightarrow> workflow \<Rightarrow> bool" where
  "skips_tags selectedTags w \<longleftrightarrow>
     length selectedTags > 0 \<and> \<not> (\<exists>tag\<in>set selectedTags. tag \<in> set (opt_tags w))"

definition matches_query :: "string \<Rightarrow> workflow \<Rightarrow> bool" where
  "matches_query query w \<longleftrightarrow>
     js_includes (js_lower (w_name w)) query \<or> js_includes (js_lower (w_description w)) query \<or>
     (\<exists>tag\<in>set (opt_tags w). js_includes (js_lower tag) query)"

definition filter_step :: "search_params \<Rightarrow> workflow \<Rightarrow> workflow_result \<Rightarrow> workflow_result" where
  "filter_step params w r =
     (let query = js_lower (sp_q params)
      in if skips_tags (sp_tags params) w then r
         else if query \<noteq> [] \<and> \<not> matches_query query w then r
         else (let n = (case statusCounts r (w_status w) of None \<Rightarrow> 0 | Some n \<Rightarrow> n);
                   r1 = r\<lparr>statusCounts := (statusCounts r)(w_status w \<mapsto> n + 1)\<rparr>
               in if sp_tab params \<noteq> w_status w then r1
                  else r1\<lparr>wf_workflows := wf_workflows r1 @ [w],
                          tagCounts := fold count_in (opt_tags w) (tagCounts r1)\<rparr>))"

definition getWorkflowData :: "workflow list option \<Rightarrow> search_params \<Rightarrow> workflow_result" where
  "getWorkflowData workflows params =
     (case workflows of None \<Rightarrow> empty_result
      | Some ws \<Rightarrow> if length ws = 0 then empty_result else fold (filter_step params) ws empty_result)"

section \<open>Pages\<close>

definition ITEMS_PER_PAGE :: nat where
  "ITEMS_PER_PAGE = 8"

record page_info =
  pg_currentPage :: nat
  pg_totalPages :: nat
  pg_hasNextPage :: bool
  pg_hasPrevPage :: bool
  pg_totalItems :: nat

record filtered_workflows =
  fw_workflows :: "workflow list"
  fw_pagination :: page_info
  fw_tagCounts :: "(string \<times> nat) list"
  fw_statusCounts :: "string \<rightharpoonup> nat"

definition total_pages :: "nat \<Rightarrow> nat" where
  "total_pages n = max 1 ((n + ITEMS_PER_PAGE - 1) div ITEMS_PER_PAGE)"

definition page_slice :: "nat \<Rightarrow> 'a list \<Rightarrow> 'a list" where
  "page_slice page xs = take (page * ITEMS_PER_PAGE - (page - 1) * ITEMS_PER_PAGE) (drop ((page - 1) * ITEMS_PER_PAGE) xs)"

definition useFilteredWorkflows :: "workflow list option \<Rightarrow> url_params \<Rightarrow> filtered_workflows js" where
  "useFilteredWorkflows workflows ps =
     js_bind (useValidatedSearchParams 1 ps) (\<lambda>params.
       let r = getWorkflowData workflows params;
           totalPages = total_pages (length (wf_workflows r));
           page = sp_page params
       in Inr \<lparr>fw_workflows = page_slice page (wf_workflows r),
               fw_pagination = \<lparr>pg_currentPage = page, pg_totalPages = totalPages,
                                pg_hasNextPage = (page < totalPages), pg_hasPrevPage = (page > 1),
                                pg_totalItems = length (wf_workflows r)\<rparr>,
               fw_tagCounts = tagCounts r, fw_statusCounts = statusCounts r\<rparr>)"

text \<open>The window of page numbers.\<close>

definition pageNumbers :: "nat \<Rightarrow> nat \<Rightarrow> nat list" where
  "pageNumbers currentPage totalPages =
     (let cur = int currentPage; total = int totalPages; windowSize = (5 :: int);
          halfWindow = windowSize div 2;
          startPage = max 1 (cur - halfWindow);
          endPage = min total (startPage + windowSize - 1);
          start = (if endPage - startPage + 1 < windowSize then max 1 (endPage - windowSize + 1) else startPage)
      in map nat [start..endPage])"

definition handleNextPage :: "nat \<Rightarrow> nat \<Rightarrow> url_params \<Rightarrow> url_params" where
  "handleNextPage currentPage totalPages ps =
     (if \<not> currentPage \<ge> totalPages then updateState [(''page'', PNum (currentPage + 1))] ps else ps)"

definition handlePreviousPage :: "nat \<Rightarrow> url_params \<Rightarrow> url_params" where
  "handlePreviousPage currentPage ps =
     (if \<not> currentPage \<le> 1 then updateState [(''page'', PNum (currentPage - 1))] ps else ps)"

section \<open>The filter computes what it should\<close>

definition passes :: "search_params \<Rightarrow> workflow \<Rightarrow> bool" where
  "passes params w \<longleftrightarrow>
     (sp_tags params = [] \<or> set (sp_tags params) \<inter> set (opt_tags w) \<noteq> {}) \<and>
     (sp_q params = [] \<or> matches_query (js_lower (sp_q params)) w)"

definition shown :: "search_params \<Rightarrow> workflow \<Rightarrow> bool" where
  "shown params w \<longleftrightarrow> passes params w \<and> w_status w = sp_tab params"

lemma filter_step_cases:
  "filter_step params w r =
     (if \<not> passes params w then r
      else let n = (case statusCounts r (w_status w) of None \<Rightarrow> 0 | Some n \<Rightarrow> n);
               r1 = r\<lparr>statusCounts := (statusCounts r)(w_status w \<mapsto> n + 1)\<rparr>
           in if \<not> shown params w then r1
              else r1\<lparr>wf_workflows := wf_workflows r @ [w], tagCounts := fold count_in (opt_tags w) (tagCounts r)\<rparr>)"
  by (auto simp: filter_step_def passes_def shown_def skips_tags_def Let_def)

definition count_of :: "nat option \<Rightarrow> nat" where
  "count_of x = (case x of None \<Rightarrow> 0 | Some n \<Rightarrow> n)"

lemma count_of_simps [simp]: "count_of None = 0" "count_of (Some n) = n"
  by (simp_all add: count_of_def)

lemma fold_filter_workflows:
  "wf_workflows (fold (filter_step params) ws r) = wf_workflows r @ filter (shown params) ws"
  by (induction ws arbitrary: r) (auto simp: filter_step_cases shown_def Let_def)

lemma fold_filter_tags:
  "tagCounts (fold (filter_step params) ws r) =
     fold count_in (concat (map opt_tags (filter (shown params) ws))) (tagCounts r)"
  by (induction ws arbitrary: r) (auto simp: filter_step_cases shown_def Let_def)

lemma fold_filter_status:
  "count_of (statusCounts (fold (filter_step params) ws r) s) =
     count_of (statusCounts r s) + length (filter (\<lambda>w. passes params w \<and> w_status w = s) ws)"
  by (induction ws arbitrary: r) (auto simp: filter_step_cases Let_def count_of_def)

lemma fold_count_in:
  "map_of (fold count_in ts m) t =
     (if t \<in> set ts then Some (count_of (map_of m t) + count_list ts t) else map_of m t)"
  by (induction ts arbitrary: m) (auto simp: count_in_def count_of_def)

lemma distinct_fold_count_in: "distinct (map fst m) \<Longrightarrow> distinct (map fst (fold count_in ts m))"
  by (induction ts arbitrary: m) (auto simp: count_in_def)

lemma keys_fold_count_in: "fst ` set (fold count_in ts m) = fst ` set m \<union> set ts"
  by (induction ts arbitrary: m) (auto simp: count_in_def)

lemma getWorkflowData_fold:
  "getWorkflowData (Some ws) params = fold (filter_step params) ws empty_result"
  by (simp add: getWorkflowData_def)

text \<open>Claim C22: the one loop of the filter computes all three results: the workflows of the selected
  tab that have one of the selected tags and contain the search text in their name, description or a
  tag without regard to case, in order; for every status the number of workflows that pass tags and
  text; and for every tag its number of occurrences among the listed workflows, each tag once.\<close>

theorem getWorkflowData_spec:
  "let r = getWorkflowData (Some ws) params
   in wf_workflows r = filter (\<lambda>w. passes params w \<and> w_status w = sp_tab params) ws \<and>
      (\<forall>s. count_of (statusCounts r s) = length (filter (\<lambda>w. passes params w \<and> w_status w = s) ws)) \<and>
      (\<forall>t. map_of (tagCounts r) t =
             (let n = count_list (concat (map opt_tags (wf_workflows r))) t in if n = 0 then None else Some n)) \<and>
      distinct (map fst (tagCounts r))"
proof -
  have "shown params = (\<lambda>w. passes params w \<and> w_status w = sp_tab params)"
    by (simp add: fun_eq_iff shown_def)
  then show ?thesis
    by (auto simp: getWorkflowData_fold fold_filter_workflows fold_filter_status fold_filter_tags fold_count_in
        empty_result_def Let_def count_list_0_iff distinct_fold_count_in)
qed

section \<open>Updating the parameters\<close>

lemma usp_entries_Cons: "usp_entries (p # ps) k = (case usp_entries ps k of None \<Rightarrow> if fst p = k then Some (snd p) else None | Some v \<Rightarrow> Some v)"
  by (cases p) (auto simp: usp_entries_def map_add_def split: option.splits)

lemma usp_entries_delete [simp]: "usp_entries (usp_delete k ps) j = (if j = k then None else usp_entries ps j)"
proof (induction ps)
  case Nil
  show ?case by (simp add: usp_entries_def usp_delete_def)
next
  case (Cons p ps)
  have "usp_delete k (p # ps) = (if fst p = k then usp_delete k ps else p # usp_delete k ps)"
    by (simp add: usp_delete_def)
  with Cons show ?case by (auto simp: usp_entries_Cons split: option.splits)
qed

lemma usp_entries_set [simp]: "usp_entries (usp_set k v ps) j = (if j = k then Some v else usp_entries ps j)"
proof (induction ps)
  case Nil
  show ?case by (simp add: usp_entries_def)
next
  case (Cons p ps)
  then show ?case by (auto simp: usp_entries_Cons split: option.splits)
qed

text \<open>A tag that survives the trip through the address: not blank at its ends, no comma.\<close>

definition plain_tag :: "string \<Rightarrow> bool" where
  "plain_tag t \<longleftrightarrow> t \<noteq> [] \<and> js_trim t = t \<and> CHR '','' \<notin> set t"

lemma parse_tags_join:
  assumes "ts \<noteq> []" and "list_all plain_tag ts"
  shows "parse_tags (Some (js_join '','' ts)) = Inr ts"
proof -
  have "js_split (CHR '','') (js_join '','' ts) = ts"
    using assms by (intro js_split_join) (auto simp: list_all_iff plain_tag_def)
  moreover have "filter (\<lambda>w. w \<noteq> []) ts = ts" "map js_trim ts = ts"
    using assms(2) by (induction ts) (auto simp: plain_tag_def)
  moreover have "list_all (\<lambda>t. 1 \<le> length t) ts"
    using assms(2) by (auto simp: list_all_iff plain_tag_def Suc_le_eq)
  ultimately show ?thesis by (simp add: parse_tags_def Let_def)
qed

lemma setTags_entries:
  "usp_entries (setTags tags ps) k =
     (if k = ''tags'' then (if tags = [] then None else Some (js_join '','' tags)) else usp_entries ps k)"
  by (auto simp: setTags_def updateParams_def update_param_def Let_def)

text \<open>Tags that are set are the tags that are read back from the address, for tags without
  commas and without blanks at their ends; the search text and the tab stay.\<close>

lemma setTags_roundtrip:
  assumes "list_all plain_tag tags" and "list_state ps = Inr st"
  shows "list_state (setTags tags ps) = Inr (st\<lparr>sp_tags := tags\<rparr>)"
proof -
  have "parse_tags (usp_entries (setTags tags ps) ''tags'') = Inr tags"
    using parse_tags_join [of tags] assms(1) by (auto simp: setTags_entries parse_tags_def)
  then show ?thesis
    using assms(2)
    by (auto simp: list_state_def useValidatedSearchParams_def searchParamsSchema_def setTags_entries)
qed

lemma setTags_roundtrip_example:
  "list_state (setTags [''mail'', ''weekly report''] [(''tab'', ''DRAFT'')]) =
     Inr \<lparr>sp_q = [], sp_tab = ''draft'', sp_tags = [''mail'', ''weekly report''], sp_page = 1\<rparr>"
proof -
  have s: "list_state [(''tab'', ''DRAFT'')] = Inr \<lparr>sp_q = [], sp_tab = ''draft'', sp_tags = [], sp_page = 1\<rparr>"
    by code_simp
  have "list_all plain_tag [''mail'', ''weekly report'']" by code_simp
  from setTags_roundtrip [OF this s] show ?thesis by simp
qed

text \<open>An address whose tags hold a blank entry makes every component of the library throw:
  the schema rejects it and has no fallback for tags.\<close>

lemma blank_tag_throws:
  assumes "usp_entries ps ''tags'' = Some s" and "w \<in> set (js_split (CHR '','') s)" and "w \<noteq> []" and "js_trim w = []"
  shows "list_state ps = Inl (ErrorMsg ''ZodError'') \<and> useFilteredWorkflows wfs ps = Inl (ErrorMsg ''ZodError'')"
proof -
  have "\<not> list_all (\<lambda>t. 1 \<le> length t) (map js_trim (filter (\<lambda>w. w \<noteq> []) (js_split (CHR '','') s)))"
    using assms(2-4) by (force simp: list_all_iff)
  then have "parse_tags (usp_entries ps ''tags'') = Inl (ErrorMsg ''ZodError'')"
    using assms(1) by (simp add: parse_tags_def Let_def)
  then show ?thesis
    by (simp add: list_state_def useFilteredWorkflows_def useValidatedSearchParams_def searchParamsSchema_def)
qed

lemma blank_tag_throws_example:
  "list_state [(''tags'', ''a, ,b'')] = Inl (ErrorMsg ''ZodError'')"
proof -
  have "usp_entries [(''tags'', ''a, ,b'')] ''tags'' = Some ''a, ,b''" by code_simp
  from blank_tag_throws [OF this, of "'' ''"] show ?thesis
    by (simp add: js_trim_def js_is_ws_def)
qed

section \<open>Pages and windows\<close>

lemma page_slice_Suc: "page_slice (Suc p) xs = take 8 (drop (p * 8) xs)"
  by (simp add: page_slice_def ITEMS_PER_PAGE_def)

lemma concat_pages: "concat (map (\<lambda>p. page_slice (Suc p) xs) [0..<n]) = take (n * 8) xs"
proof (induction n)
  case (Suc n)
  have "take (n * 8) xs @ take 8 (drop (n * 8) xs) = take (n * 8 + 8) xs" by (simp add: take_add)
  with Suc show ?case by (simp add: page_slice_Suc add.commute)
qed simp

text \<open>For any number of pages the pages from the first to the last contain every listed
  workflow exactly once and in order, no page has more than eight, and only an empty list has an
  empty page.\<close>

lemma pages_partition:
  "concat (map (\<lambda>p. page_slice p xs) [1..<Suc (total_pages (length xs))]) = xs \<and>
   list_all (\<lambda>p. length (page_slice p xs) \<le> ITEMS_PER_PAGE \<and> (xs \<noteq> [] \<longrightarrow> page_slice p xs \<noteq> []))
     [1..<Suc (total_pages (length xs))]"
proof -
  let ?n = "total_pages (length xs)"
  have pages: "map (\<lambda>p. page_slice p xs) [1..<Suc ?n] = map (\<lambda>p. page_slice (Suc p) xs) [0..<?n]"
    by (simp only: map_Suc_upt [symmetric] One_nat_def map_map o_def)
  have all: "length xs \<le> ?n * 8" by (auto simp: total_pages_def ITEMS_PER_PAGE_def)
  have "page_slice p xs \<noteq> []" if "xs \<noteq> []" "1 \<le> p" "p \<le> ?n" for p
  proof -
    have "(p - 1) * 8 < length xs"
      using that by (auto simp: total_pages_def ITEMS_PER_PAGE_def max_def split: if_splits)
    then show ?thesis using that(2) page_slice_Suc [of "p - 1" xs] by simp
  qed
  then show ?thesis
    using concat_pages [of xs ?n] all unfolding pages
    by (auto simp: list_all_iff page_slice_def ITEMS_PER_PAGE_def)
qed

lemma pages_partition_example:
  "concat (map (\<lambda>p. page_slice p [0..<20]) [1..<Suc (total_pages (length [0..<20]))]) = [0..<20] \<and>
   page_slice 3 [0..<20] \<noteq> []"
  using pages_partition [of "[0..<20]"]
  by (simp add: list_all_iff total_pages_def ITEMS_PER_PAGE_def del: upt_Suc upt_rec_numeral)

text \<open>The window of page numbers is a run of consecutive pages from the first to the last
  page, at most five and exactly five when there are that many, and always contains the current
  page.\<close>

lemma pageNumbers_window:
  assumes "1 \<le> cur" and "cur \<le> tot"
  shows "\<exists>a. pageNumbers cur tot = [a..<a + min 5 tot] \<and> 1 \<le> a \<and> a + min 5 tot \<le> tot + 1 \<and>
             a \<le> cur \<and> cur < a + min 5 tot"
proof -
  define lo where "lo = max 1 (int cur - 2)"
  define hi where "hi = min (int tot) (lo + 5 - 1)"
  define st where "st = (if hi - lo + 1 < 5 then max 1 (hi - 5 + 1) else lo)"
  have pn: "pageNumbers cur tot = map nat [st..hi]"
    by (simp add: pageNumbers_def Let_def lo_def hi_def st_def)
  have st: "1 \<le> st" "st \<le> int cur" "int cur \<le> hi" "hi \<le> int tot" "hi - st + 1 = int (min 5 tot)"
    using assms by (auto simp: st_def hi_def lo_def)
  have "map nat [st..hi] = [nat st..<nat st + min 5 tot]"
  proof (rule nth_equalityI)
    show len: "length (map nat [st..hi]) = length [nat st..<nat st + min 5 tot]" using st by simp
    fix i assume "i < length (map nat [st..hi])"
    then have "st + int i \<le> hi" "i < length [st..hi]" "i < min 5 tot" using st by auto
    moreover from this(1) have "[st..hi] ! i = st + int i" by (rule nth_upto)
    ultimately show "map nat [st..hi] ! i = [nat st..<nat st + min 5 tot] ! i"
      using st(1) by (simp add: nat_add_distrib del: length_upto)
  qed
  with pn st show ?thesis by (intro exI [of _ "nat st"]) auto
qed

lemma pageNumbers_window_example:
  "\<exists>a. pageNumbers 9 10 = [a..<a + 5] \<and> a \<le> 9 \<and> a + 5 \<le> 11"
  using pageNumbers_window [of 9 10] by auto

text \<open>The first page of a list that has been filtered already.\<close>

lemma params_page_one: "useValidatedSearchParams 1 ps = Inr params \<Longrightarrow> sp_page params = 1"
  by (auto simp: useValidatedSearchParams_def)

lemma useFilteredWorkflows_Inr:
  assumes "useFilteredWorkflows (Some ws) ps = Inr r"
  obtains params where "list_state ps = Inr params"
    "fw_workflows r = take 8 (filter (shown params) ws)"
    "pg_totalPages (fw_pagination r) = total_pages (length (filter (shown params) ws))"
    "\<And>s. count_of (fw_statusCounts r s) = length (filter (\<lambda>w. passes params w \<and> w_status w = s) ws)"
proof -
  obtain params where p: "useValidatedSearchParams 1 ps = Inr params"
    using assms by (auto simp: useFilteredWorkflows_def)
  with assms that [of params] show thesis
    by (auto simp: useFilteredWorkflows_def Let_def params_page_one list_state_def getWorkflowData_fold
        fold_filter_workflows fold_filter_status empty_result_def page_slice_def ITEMS_PER_PAGE_def)
qed

text \<open>Whatever page the address asks for, the library shows the first eight workflows of the
  tab; the components below it receive these eight, so the page control has one page and does not
  render, the counter of every other tab shows zero, and no workflow after the eighth can be
  reached.\<close>

lemma library_stuck_on_first_page:
  assumes r: "useFilteredWorkflows (Some ws) ps = Inr r"
  shows "\<exists>params r'. list_state ps = Inr params \<and>
           fw_workflows r = take 8 (filter (\<lambda>w. passes params w \<and> w_status w = sp_tab params) ws) \<and>
           useFilteredWorkflows (Some (fw_workflows r)) ps = Inr r' \<and>
           pg_totalPages (fw_pagination r') = 1 \<and>
           (\<forall>s. s \<noteq> sp_tab params \<longrightarrow> count_of (fw_statusCounts r' s) = 0)"
proof -
  obtain params where p: "list_state ps = Inr params" "fw_workflows r = take 8 (filter (shown params) ws)"
    using r by (rule useFilteredWorkflows_Inr)
  let ?v = "take 8 (filter (shown params) ws)"
  have "\<exists>r'. useFilteredWorkflows (Some ?v) ps = Inr r'"
    using p(1) by (simp add: useFilteredWorkflows_def list_state_def Let_def)
  then obtain r' where r': "useFilteredWorkflows (Some ?v) ps = Inr r'" ..
  then obtain params' where params': "list_state ps = Inr params'"
      and c: "pg_totalPages (fw_pagination r') = total_pages (length (filter (shown params') ?v))"
        "\<And>s. count_of (fw_statusCounts r' s) = length (filter (\<lambda>w. passes params' w \<and> w_status w = s) ?v)"
    by (rule useFilteredWorkflows_Inr) blast
  have [simp]: "params' = params" using p(1) params' by simp
  have v: "w \<in> set ?v \<Longrightarrow> w_status w = sp_tab params" for w
    using in_set_takeD [of w 8 "filter (shown params) ws"] by (simp add: shown_def)
  have "length (filter (shown params) ?v) \<le> 8"
    by (rule le_trans [OF length_filter_le]) simp
  then have 1: "pg_totalPages (fw_pagination r') = 1"
    by (simp add: c total_pages_def ITEMS_PER_PAGE_def)
  have 2: "\<forall>s. s \<noteq> sp_tab params \<longrightarrow> count_of (fw_statusCounts r' s) = 0"
    unfolding c using v by (auto simp: filter_empty_conv)
  have 3: "shown params = (\<lambda>w. passes params w \<and> w_status w = sp_tab params)"
    by (simp add: fun_eq_iff shown_def)
  show ?thesis
    by (rule exI [of _ params], rule exI [of _ r'], intro conjI p(1) 1 2)
      (use p(2) r' in \<open>simp_all add: 3\<close>)
qed

definition demo_flows :: "workflow list" where
  "demo_flows = map (\<lambda>i. \<lparr>w_id = js_of_nat i, w_user_id = ''u'', w_name = ''n'', w_description = ''d'',
     w_status = ''active'', w_created_at = [], w_updated_at = [], w_tags = None, w_isFavorite = None\<rparr>) [0..<20]"

lemma library_stuck_on_first_page_example:
  "\<exists>r. useFilteredWorkflows (Some demo_flows) [(''page'', ''2'')] = Inr r \<and> fw_workflows r = take 8 demo_flows"
proof -
  let ?st = "\<lparr>sp_q = [], sp_tab = ''active'', sp_tags = [], sp_page = 1\<rparr>"
  have st: "list_state [(''page'', ''2'')] = Inr ?st" by code_simp
  then obtain r where r: "useFilteredWorkflows (Some demo_flows) [(''page'', ''2'')] = Inr r"
    by (auto simp: useFilteredWorkflows_def list_state_def Let_def)
  have "filter (\<lambda>w. passes ?st w \<and> w_status w = sp_tab ?st) demo_flows = demo_flows"
    by (auto simp: demo_flows_def passes_def filter_id_conv)
  with library_stuck_on_first_page [OF r] st r show ?thesis by auto
qed

end
