(* ===== verification/Library_Views.thy ===== *)
theory Library_Views
  imports Library Canvas
begin

text \<open>
  The components of the workflow library page: search input, tag filter, tabs, page control, the list
  with its empty state, the cards with their actions, and the dialog that archives a workflow.
\<close>

section \<open>Search, tags and tabs\<close>

definition SearchInput :: "string \<Rightarrow> view" where
  "SearchInput q =
     Elem ''div'' []
       ([Elem ''Search'' [] [],
         Elem ''Input'' [(''placeholder'', ''Search workflows...''), (''value'', q), (''onChange'', ''updateState:q'')] []] @
        show_if (q \<noteq> [])
          (Elem ''button'' [(''onClick'', ''updateState:q:''), (''aria-label'', ''Clear search'')] [Elem ''X'' [] []]))"

text \<open>The tags of the filter, most frequent first; \<open>sort\<close> is stable.\<close>

definition uniqueTags :: "(string \<times> nat) list \<Rightarrow> string list" where
  "uniqueTags counts = sort_key (\<lambda>t. - int (count_of (map_of counts t))) (map fst counts)"

definition tagFilter_submit :: "string list \<Rightarrow> url_params \<Rightarrow> url_params" where
  "tagFilter_submit checked ps = updateState [(''tags'', PArr checked)] ps"

definition TagFilter :: "bool \<Rightarrow> string list \<Rightarrow> (string \<times> nat) list \<Rightarrow> view" where
  "TagFilter isOpen tags counts =
     (let sel = (if tags \<noteq> [] then ''text-slate-900 dark:text-slate-100'' else [])
      in Elem ''Popover'' [(''open'', js_bool isOpen), (''onOpenChange'', ''setOpen'')]
        [Elem ''PopoverTrigger'' []
           [Elem ''Button'' [(''aria-label'', ''Tag Filters''), (''class'', if tags \<noteq> [] then ''bg-slate-100 dark:bg-slate-800'' else [])]
              [Elem ''ListFilter'' [(''class'', sel)] [], Elem ''span'' [] [Txt ''Filter'']]],
         Elem ''PopoverContent'' []
           [Elem ''div'' []
              [Elem ''div'' [] [Txt ''Tag Filters''],
               Elem ''Form'' [(''method'', ''get''), (''onSubmit'', ''handleSubmit'')]
                 [Elem ''ScrollArea'' []
                    [Elem ''div'' []
                       (map (\<lambda>tag. Elem ''div'' [(''key'', tag)]
                          [Elem ''Checkbox'' [(''id'', tag), (''name'', ''tags''), (''value'', tag),
                                              (''defaultChecked'', js_bool (tag \<in> set tags))] [],
                           Elem ''Label'' [(''htmlFor'', tag)] [Txt tag],
                           Elem ''Badge'' [] [Txt (js_of_nat (count_of (map_of counts tag)))]]) (uniqueTags counts))],
                  Elem ''div'' [(''role'', ''separator'')] [],
                  Elem ''div'' [] [Elem ''Button'' [(''type'', ''submit'')] [Txt ''Apply'']]]]]])"

definition WorkflowController :: "search_params \<Rightarrow> bool \<Rightarrow> (string \<times> nat) list \<Rightarrow> view" where
  "WorkflowController params isOpen counts =
     Elem ''div'' [] [SearchInput (sp_q params), TagFilter isOpen (sp_tags params) counts]"

definition handleTabChange :: "string \<Rightarrow> url_params \<Rightarrow> url_params" where
  "handleTabChange v ps = updateState [(''tab'', PStr v)] ps"

definition WorkflowTabs :: "string \<Rightarrow> (string \<rightharpoonup> nat) \<Rightarrow> view" where
  "WorkflowTabs currentTab counts =
     Elem ''Tabs'' [(''value'', currentTab), (''onValueChange'', ''handleTabChange'')]
       [Elem ''ScrollArea'' []
          [Elem ''TabsList'' []
             (map (\<lambda>t. Elem ''TabsTrigger'' [(''key'', t), (''value'', t)]
                [Elem ''List'' [] [], Elem ''span'' [] [Txt t],
                 Elem ''Badge'' [] [Txt (js_of_nat (count_of (counts t)))]]) [''draft'', ''active'', ''archived'']),
           Elem ''ScrollBar'' [] []]]"

definition removeTag :: "string \<Rightarrow> string list \<Rightarrow> url_params \<Rightarrow> url_params" where
  "removeTag tagToRemove currentTags ps = setTags (filter (\<lambda>tag. tag \<noteq> tagToRemove) currentTags) ps"

definition clearAllTags :: "url_params \<Rightarrow> url_params" where
  "clearAllTags ps = setTags [] ps"

definition ActiveTagFilters :: "string list \<Rightarrow> view" where
  "ActiveTagFilters currentTags =
     Elem ''div'' []
       [Elem ''div'' []
          [Elem ''span'' [] [Txt ''Filtered by:''],
           Elem ''div'' []
             [Elem ''div'' []
                (if length currentTags \<noteq> 0
                 then map (\<lambda>tag. Elem ''Badge'' [(''key'', tag)]
                        [Elem ''span'' [] [Txt tag],
                         Elem ''button'' [(''onClick'', ''removeTag:'' @ tag)]
                           [Elem ''X'' [] [], Elem ''span'' [] [Txt (''Remove '' @ tag @ '' filter'')]]]) currentTags @
                      [Elem ''Button'' [(''onClick'', ''clearAllTags'')] [Txt ''Clear all'']]
                 else [Elem ''span'' [] [Txt ''No active filters'']])]]]"

section \<open>Empty state and pages\<close>

definition CreateWorkflowButton :: view where
  "CreateWorkflowButton =
     Elem ''NavLink'' [(''to'', ''/workflow-builder'')]
       [Elem ''PlusCircleIcon'' [] [], Elem ''span'' [] [Txt ''Create Workflow'']]"

definition getContent :: "string \<Rightarrow> string \<Rightarrow> string \<times> string \<times> string" where
  "getContent query tab =
     (if query \<noteq> [] then (''No results found for '' @ [CHR 0x22] @ query @ [CHR 0x22],
                           ''Try adjusting your search or filters'', ''Search'')
      else if tab = ''templates'' then (''No templates available'', ''Create a template to get started'', ''BlocksIcon'')
      else if tab = ''archived'' then (''No archived workflows'', ''Archived workflows will appear here'', ''Archive'')
      else if tab = ''draft'' then (''No drafted workflows'', ''Drafted workflows will appear here'', ''FileText'')
      else (''No active workflows found'', ''Create your first workflow to get started'', ''FileText''))"

definition EmptyState :: "search_params \<Rightarrow> view" where
  "EmptyState params =
     (case getContent (sp_q params) (sp_tab params) of (title, descr, icon) \<Rightarrow>
        Elem ''div'' []
          ([Elem ''div'' [] [Elem icon [] []], Elem ''h3'' [] [Txt title], Elem ''p'' [] [Txt descr]] @
           show_if (sp_q params = [] \<and> sp_tab params \<noteq> ''archived'') CreateWorkflowButton))"

definition WorkflowPagination :: "nat \<Rightarrow> nat \<Rightarrow> view list" where
  "WorkflowPagination currentPage totalPages =
     (if totalPages \<le> 1 then []
      else [Elem ''Pagination'' []
        [Elem ''PaginationContent'' []
           ([Elem ''PaginationItem'' []
               [Elem ''PaginationPrevious'' [(''onClick'', ''handlePreviousPage''),
                  (''class'', if currentPage \<le> 1 then ''pointer-events-none opacity-50'' else [])] []]] @
            map (\<lambda>n. Elem ''PaginationItem'' [(''key'', js_of_nat n)]
                   [Elem ''PaginationLink'' [(''onClick'', ''updateState:page:'' @ js_of_nat n),
                                             (''isActive'', js_bool (n = currentPage))] [Txt (js_of_nat n)]])
              (pageNumbers currentPage totalPages) @
            [Elem ''PaginationItem'' []
               [Elem ''PaginationNext'' [(''onClick'', ''handleNextPage''),
                  (''class'', if currentPage \<ge> totalPages then ''pointer-events-none opacity-50'' else [])] []]])]])"

section \<open>Cards\<close>

record status_config =
  sc_gradientFrom :: string
  sc_gradientTo :: string
  sc_bgColor :: string
  sc_textColor :: string
  sc_icon :: string
  sc_tooltip :: string

definition WORKFLOW_STATUS_CONFIG :: "string \<Rightarrow> status_config option" where
  "WORKFLOW_STATUS_CONFIG = map_of
     [(''active'', \<lparr>sc_gradientFrom = ''from-emerald-400'', sc_gradientTo = ''to-green-500'', sc_bgColor = ''bg-emerald-50'',
          sc_textColor = ''text-emerald-700'', sc_icon = ''Play'', sc_tooltip = ''This workflow is currently active and running''\<rparr>),
      (''draft'', \<lparr>sc_gradientFrom = ''from-blue-400'', sc_gradientTo = ''to-indigo-500'', sc_bgColor = ''bg-blue-50'',
          sc_textColor = ''text-blue-700'', sc_icon = ''FileText'', sc_tooltip = ''This workflow is in draft mode and not yet published''\<rparr>),
      (''archived'', \<lparr>sc_gradientFrom = ''from-gray-400'', sc_gradientTo = ''to-gray-600'', sc_bgColor = ''bg-gray-100'',
          sc_textColor = ''text-gray-700'', sc_icon = ''Archive'', sc_tooltip = ''This workflow has been archived''\<rparr>),
      (''templates'', \<lparr>sc_gradientFrom = ''from-cyan-400'', sc_gradientTo = ''to-sky-500'', sc_bgColor = ''bg-cyan-50'',
          sc_textColor = ''text-cyan-700'', sc_icon = ''Copy'', sc_tooltip = ''This is a template workflow''\<rparr>)]"

text \<open>\<open>config.bgColor\<close> throws for a status without a configuration.\<close>

definition WorkflowStatusBadge :: "string \<Rightarrow> view js" where
  "WorkflowStatusBadge status =
     (case WORKFLOW_STATUS_CONFIG status of
        None \<Rightarrow> Inl TypeError
      | Some c \<Rightarrow>
          Inr (Elem ''div'' [(''class'', sc_bgColor c @ '' '' @ sc_textColor c)]
                 [Elem ''div'' [(''class'', sc_gradientFrom c @ '' '' @ sc_gradientTo c)] [Elem (sc_icon c) [] []],
                  Elem ''span'' [] [Txt status]]))"

definition WorkflowDescription :: "string \<Rightarrow> view" where
  "WorkflowDescription description =
     Elem ''div'' [] [Elem ''p'' [] [Txt (js_or_str description ''No description provided'')]]"

definition WorkflowTags :: "string list \<Rightarrow> view" where
  "WorkflowTags tags = Elem ''div'' [] (map (\<lambda>t. Elem ''Badge'' [(''key'', t)] [Txt t]) (take 3 tags))"

definition drop_about :: "string \<Rightarrow> string" where
  "drop_about s = (if js_startsWith s ''about '' then drop 6 s else s)"

definition WorkflowFooter :: "(string \<Rightarrow> string js) \<Rightarrow> string \<Rightarrow> view js" where
  "WorkflowFooter fmt updated_at =
     js_bind (fmt updated_at) (\<lambda>t.
       Inr (Elem ''div'' [] [Elem ''Clock'' [] [], Elem ''span'' [] [Txt (''Updated '' @ drop_about t)]]))"

definition WorkflowFavorite :: "workflow \<Rightarrow> view" where
  "WorkflowFavorite w =
     Elem ''button'' [(''onClick'', ''handleFavorite'')]
       [Elem ''Star'' [(''class'', if w_isFavorite w = Some True then ''text-yellow-300 fill-yellow-200'' else ''text-slate-400'')] []]"

definition WorkflowTitle :: "string \<Rightarrow> bool \<Rightarrow> workflow \<Rightarrow> view" where
  "WorkflowTitle title isArchived w =
     Elem ''div'' []
       (show_if (\<not> isArchived) (WorkflowFavorite w) @
        [Elem ''h3'' [(''class'', if isArchived then ''text-slate-500'' else ''text-slate-800''), (''title'', title)] [Txt title]])"

section \<open>Actions\<close>

text \<open>What an action starts: calls of the API (not awaited) and a navigation.\<close>

record action_effect =
  act_calls :: "api_call list"
  act_navigate :: "string option"

definition handleEdit :: "workflow \<Rightarrow> action_effect" where
  "handleEdit w = \<lparr>act_calls = [], act_navigate = Some (''/workflow-builder/'' @ w_id w)\<rparr>"

definition handleRun :: "workflow \<Rightarrow> action_effect" where
  "handleRun w = \<lparr>act_calls = [RunWorkflow (w_id w)], act_navigate = Some (''/workflow/'' @ w_id w @ ''/run/'' @ w_id w)\<rparr>"

definition handleArchive :: "workflow \<Rightarrow> action_effect" where
  "handleArchive w = \<lparr>act_calls = [ArchiveWorkflow (w_id w)], act_navigate = None\<rparr>"

definition handleRestore :: "workflow \<Rightarrow> action_effect" where
  "handleRestore w = \<lparr>act_calls = [], act_navigate = None\<rparr>"

definition handleFavorite :: "workflow \<Rightarrow> action_effect" where
  "handleFavorite w = \<lparr>act_calls = [], act_navigate = None\<rparr>"

definition WorkflowActionsHover :: view where
  "WorkflowActionsHover =
     Elem ''div'' []
       [Elem ''Button'' [(''onClick'', ''handleEdit'')] [Elem ''Settings'' [] [], Txt ''Edit''],
        Elem ''Button'' [(''onClick'', ''handleRun'')] [Elem ''Play'' [] [], Txt ''Run'']]"

text \<open>The menu: label, icon and handler of the actions whose \<open>show\<close> holds.\<close>

definition menu_actions :: "workflow \<Rightarrow> (string \<times> string \<times> string) list" where
  "menu_actions w =
     (let isArchived = (w_status w = ''archived'')
      in map snd (filter fst
           [(\<not> isArchived, ''Edit'', ''Settings'', ''handleEdit''),
            (\<not> isArchived, ''Run'', ''Play'', ''handleRun''),
            (isArchived, ''Restore'', ''Play'', ''handleRestore''),
            (\<not> isArchived, ''Archive'', ''Archive'', ''setArchivingWorkflow'')]))"

definition WorkflowActionsDropdown :: "workflow \<Rightarrow> bool \<Rightarrow> view" where
  "WorkflowActionsDropdown w isOpen =
     Elem ''DropdownMenu'' [(''open'', js_bool isOpen), (''onOpenChange'', ''setOpen'')]
       [Elem ''DropdownMenuTrigger'' [] [Elem ''Button'' [] [Elem ''MoreHorizontal'' [] []]],
        Elem ''DropdownMenuContent'' []
          (map (\<lambda>(l, i, h). Elem ''DropdownMenuItem'' [(''key'', l), (''onClick'', h)] [Elem i [] [], Txt l]) (menu_actions w))]"

definition WorkflowCard :: "(string \<Rightarrow> string js) \<Rightarrow> workflow \<Rightarrow> view js" where
  "WorkflowCard fmt w =
     js_bind (WorkflowStatusBadge (w_status w)) (\<lambda>badge.
       js_bind (WorkflowFooter fmt (w_updated_at w)) (\<lambda>footer.
         Inr (Elem ''Card'' []
           [Elem ''div'' [] [WorkflowActionsDropdown w False],
            WorkflowTitle (w_name w) (w_status w = ''archived'') w,
            Elem ''div'' [] [badge],
            WorkflowTags (opt_tags w),
            Elem ''div'' [] [Elem ''div'' [] [footer]],
            WorkflowDescription (w_description w),
            WorkflowActionsHover])))"

definition WorkflowCardSkeleton :: view where
  "WorkflowCardSkeleton =
     Elem ''div'' [(''minHeight'', ''180'')]
       [Elem ''div'' [] [Elem ''div'' [] []],
        Elem ''div'' [] [Elem ''div'' [] [Elem ''div'' [] []], Elem ''div'' [] []],
        Elem ''div'' [] [Elem ''div'' [] []],
        Elem ''div'' [] (map (\<lambda>i. Elem ''div'' [(''key'', js_of_nat i)] []) [0..<3]),
        Elem ''div'' [] [Elem ''div'' [] [Elem ''div'' [] [], Elem ''div'' [] []]],
        Elem ''div'' [] [Elem ''div'' [] [Elem ''div'' [] [], Elem ''div'' [] []]],
        Elem ''div'' [] [Elem ''div'' [] [], Elem ''div'' [] []]]"

section \<open>Archiving\<close>

text \<open>\<open>archivingWorkflow\<close> of the list is the workflow the dialog asks about.\<close>

definition archive_confirm :: "workflow \<Rightarrow> action_effect \<times> workflow option" where
  "archive_confirm w = (handleArchive w, None)"

definition archive_cancel :: "workflow \<Rightarrow> action_effect \<times> workflow option" where
  "archive_cancel w = (\<lparr>act_calls = [], act_navigate = None\<rparr>, None)"

definition ArchiveWorkflowDialog :: "workflow \<Rightarrow> bool \<Rightarrow> view" where
  "ArchiveWorkflowDialog w isArchiving =
     Elem ''Dialog'' [(''open'', js_bool isArchiving), (''onOpenChange'', ''close'')]
       [Elem ''DialogContent'' [(''onPointerDownOutside'', ''preventDefault'')]
          [Elem ''DialogHeader'' []
             [Elem ''div'' [] [Elem ''AlertTriangle'' [] []],
              Elem ''DialogTitle'' [] [Txt ''Archive Workflow''],
              Elem ''DialogDescription'' []
                [Txt ''Are you sure you want to archive '', Elem ''span'' [] [Txt (w_name w)],
                 Txt ''? This action cannot be undone. Archived workflows are still accessible in the archive tab.'']],
           Elem ''DialogFooter'' []
             [Elem ''Button'' [(''onClick'', ''handleCancel'')] [Txt ''Cancel''],
              Elem ''Button'' [(''onClick'', ''handleConfirm'')] [Txt ''Archive Workflow'']]]]"

definition WorkflowList ::
  "(string \<Rightarrow> string js) \<Rightarrow> bool \<Rightarrow> workflow list \<Rightarrow> view \<Rightarrow> view list \<Rightarrow> workflow option \<Rightarrow> view js" where
  "WorkflowList fmt showLoading workflows emptyState pagination archivingWorkflow =
     (if length workflows = 0 \<and> \<not> showLoading then Inr emptyState
      else js_bind (if showLoading then Inr (map (\<lambda>i. WorkflowCardSkeleton) [0..<8])
                    else js_map_err (WorkflowCard fmt) workflows) (\<lambda>cards.
        Inr (Elem ''div'' []
          ([Elem ''div'' [] [Elem ''div'' [] cards]] @ pagination @
           opt_list (map_option (\<lambda>w. ArchiveWorkflowDialog w True) archivingWorkflow)))))"

definition library_loader :: "string \<Rightarrow> net \<Rightarrow> string option \<Rightarrow> api_result" where
  "library_loader base_url net token = getUserWorkflows base_url net token"

definition WorkflowLibrary ::
  "(string \<Rightarrow> string js) \<Rightarrow> bool \<Rightarrow> bool \<Rightarrow> workflow option \<Rightarrow> workflow list option \<Rightarrow> url_params \<Rightarrow> view js" where
  "WorkflowLibrary fmt showLoading isOpen archiving loaderData ps =
     js_bind (useFilteredWorkflows loaderData ps) (\<lambda>fw.
     js_bind (useFilteredWorkflows (Some (fw_workflows fw)) ps) (\<lambda>again.
     js_bind (list_state ps) (\<lambda>params.
     js_bind (WorkflowList fmt showLoading (fw_workflows fw) (EmptyState params)
                (WorkflowPagination (sp_page params) (pg_totalPages (fw_pagination again))) archiving) (\<lambda>lst.
       Inr (Elem ''div'' []
         [Elem ''div'' []
            [Elem ''div'' [] [Elem ''h3'' [] [Txt ''Workflow Library''],
                              Elem ''p'' [] [Txt ''Manage and organize your automated workflows'']],
             CreateWorkflowButton],
          WorkflowController params isOpen (fw_tagCounts again),
          WorkflowTabs (sp_tab params) (fw_statusCounts again),
          ActiveTagFilters (sp_tags params),
          Elem ''div'' [] [lst]])))))"

section \<open>Properties\<close>

text \<open>The tag filter offers every tag of the listed workflows exactly once, the more frequent
  tag before the less frequent, and tags of equal frequency in the order in which they were met.\<close>

lemma uniqueTags_sorted:
  "let counts = tagCounts (getWorkflowData (Some ws) params);
       n = (\<lambda>t. count_of (map_of counts t))
   in set (uniqueTags counts) = set (concat (map opt_tags (wf_workflows (getWorkflowData (Some ws) params)))) \<and>
      distinct (uniqueTags counts) \<and> sorted_wrt (\<lambda>a b. n b \<le> n a) (uniqueTags counts) \<and>
      (\<forall>k. filter (\<lambda>t. n t = k) (uniqueTags counts) = filter (\<lambda>t. n t = k) (map fst counts))"
proof -
  define counts where "counts = tagCounts (getWorkflowData (Some ws) params)"
  let ?n = "\<lambda>t. count_of (map_of counts t)"
  have c: "counts = fold count_in (concat (map opt_tags (wf_workflows (getWorkflowData (Some ws) params)))) []"
    by (simp add: counts_def getWorkflowData_fold fold_filter_tags fold_filter_workflows empty_result_def)
  have 1: "set (uniqueTags counts) = set (concat (map opt_tags (wf_workflows (getWorkflowData (Some ws) params))))"
    by (simp add: uniqueTags_def c keys_fold_count_in del: set_concat)
  have 2: "distinct (uniqueTags counts)"
    by (simp add: uniqueTags_def c distinct_fold_count_in)
  have "sorted (map (\<lambda>t. - int (?n t)) (uniqueTags counts))"
    unfolding uniqueTags_def by (rule sorted_sort_key)
  then have 3: "sorted_wrt (\<lambda>a b. ?n b \<le> ?n a) (uniqueTags counts)"
    by (simp add: sorted_wrt_map)
  have 4: "filter (\<lambda>t. ?n t = k) (uniqueTags counts) = filter (\<lambda>t. ?n t = k) (map fst counts)" for k
    using sort_key_stable [of "\<lambda>t. - int (?n t)" "- int k" "map fst counts"] by (simp add: uniqueTags_def)
  show ?thesis unfolding Let_def counts_def [symmetric] using 1 2 3 4 by blast
qed

lemma parse_tab_known: "parse_tab v \<in> {''draft'', ''active'', ''archived''}"
  by (simp add: parse_tab_def Let_def split: option.splits)

lemma list_state_tab: "list_state ps = Inr params \<Longrightarrow> sp_tab params \<in> {''draft'', ''active'', ''archived''}"
  using parse_tab_known [of "usp_entries ps ''tab''"]
  by (auto simp: list_state_def useValidatedSearchParams_def searchParamsSchema_def)

lemma WorkflowCard_renders:
  assumes "w_status w \<in> {''draft'', ''active'', ''archived''}" and "fmt (w_updated_at w) = Inr t"
  shows "\<exists>v. WorkflowCard fmt w = Inr v"
proof -
  have "\<exists>c. WORKFLOW_STATUS_CONFIG (w_status w) = Some c" using assms(1) by (auto simp: WORKFLOW_STATUS_CONFIG_def)
  with assms(2) show ?thesis
    by (auto simp: WorkflowCard_def WorkflowStatusBadge_def WorkflowFooter_def)
qed

text \<open>Claim C35: the library page renders whenever the parameters in the address are accepted and the
  dates of the listed workflows can be formatted: since only workflows of one of the three tabs are
  listed, no card meets a status without a badge.\<close>

theorem library_renders:
  assumes ps: "list_state ps = Inr params" and fmt: "\<forall>w\<in>set ws. \<exists>t. fmt (w_updated_at w) = Inr t"
  shows "\<exists>v. WorkflowLibrary fmt showLoading isOpen archiving (Some ws) ps = Inr v"
proof -
  obtain fw where fw: "useFilteredWorkflows (Some ws) ps = Inr fw"
    using ps by (auto simp: useFilteredWorkflows_def list_state_def Let_def)
  then obtain params' where p': "list_state ps = Inr params'" "fw_workflows fw = take 8 (filter (shown params') ws)"
    by (rule useFilteredWorkflows_Inr)
  obtain again where again: "useFilteredWorkflows (Some (fw_workflows fw)) ps = Inr again"
    using ps by (auto simp: useFilteredWorkflows_def list_state_def Let_def)
  have "\<exists>v. WorkflowCard fmt w = Inr v" if "w \<in> set (fw_workflows fw)" for w
  proof -
    have w: "w \<in> set ws" "shown params' w"
      using that in_set_takeD [of w 8 "filter (shown params') ws"] by (auto simp: p'(2))
    then obtain t where "fmt (w_updated_at w) = Inr t" using fmt by blast
    moreover have "w_status w \<in> {''draft'', ''active'', ''archived''}"
      using w(2) list_state_tab [OF p'(1)] by (simp add: shown_def)
    ultimately show ?thesis by (intro WorkflowCard_renders)
  qed
  then have "\<forall>w\<in>set (fw_workflows fw). WorkflowCard fmt w = Inr (projr (WorkflowCard fmt w))" by force
  then have "js_map_err (WorkflowCard fmt) (fw_workflows fw) = Inr (map (\<lambda>w. projr (WorkflowCard fmt w)) (fw_workflows fw))"
    by (intro js_map_err_Inr) simp
  then show ?thesis
    using ps fw again by (simp add: WorkflowLibrary_def WorkflowList_def)
qed

theorem library_renders_witness:
  "\<exists>v. WorkflowLibrary (\<lambda>d. Inr ''about 2 hours ago'') False False None (Some demo_flows) [(''tab'', ''draft'')] = Inr v"
proof -
  have "list_state [(''tab'', ''draft'')] = Inr \<lparr>sp_q = [], sp_tab = ''draft'', sp_tags = [], sp_page = 1\<rparr>" by code_simp
  from library_renders [OF this, of demo_flows] show ?thesis by simp
qed

end
