(* ===== verification/Email_Settings.thy ===== *)
theory Email_Settings
  imports Canvas
begin

text \<open>
  The settings of the e-mail action, \<open>components/InspectorPanel/settings/email\<close>: validation, the
  recipients with their three ways of input, the CSV upload, the preview and the submission that
  writes the configuration of the selected node.

  The address test of the validation library is the argument \<open>is_email\<close>; what is relied on is
  \<open>email_doc\<close>. The CSV library is the argument \<open>papa\<close>: the rows and the error messages of a text.
  The form library keeps the values of the fields; its validation on submit is the schema.
\<close>

section \<open>Validation\<close>

definition normalizeEmail :: "string \<Rightarrow> string" where
  "normalizeEmail email = js_lower (js_trim email)"

definition parseEmail :: "(string \<Rightarrow> bool) \<Rightarrow> string \<Rightarrow> string option" where
  "parseEmail is_email email = (if is_email email then Some (normalizeEmail email) else None)"

definition MAX_MESSAGE_CHAR_COUNT :: nat where
  "MAX_MESSAGE_CHAR_COUNT = 2500"

definition MAX_SUBJECT_CHAR_COUNT :: nat where
  "MAX_SUBJECT_CHAR_COUNT = 100"

record email_form =
  ef_recipients :: "string list"
  ef_subject :: string
  ef_message :: string

text \<open>The issues of a field, in the order of the fields.\<close>

definition recipients_issues :: "string list \<Rightarrow> (string \<times> string) list" where
  "recipients_issues rs =
     show_if (\<not> length rs > 0) (''recipients'', ''At least one valid email recipient is required'')"

definition subject_issues :: "string \<Rightarrow> (string \<times> string) list" where
  "subject_issues s =
     show_if (length s < 1) (''subject'', ''Subject is required'') @
     show_if (length s > MAX_SUBJECT_CHAR_COUNT)
       (''subject'', ''Subject must be under '' @ js_of_nat MAX_SUBJECT_CHAR_COUNT @ '' characters'')"

definition message_issues :: "string \<Rightarrow> (string \<times> string) list" where
  "message_issues s =
     show_if (length s < 1) (''message'', ''Message body is required'') @
     show_if (length s > MAX_MESSAGE_CHAR_COUNT)
       (''message'', ''Message must be under '' @ js_of_nat MAX_MESSAGE_CHAR_COUNT @ '' characters'')"

definition valid_emails :: "(string \<Rightarrow> bool) \<Rightarrow> string list \<Rightarrow> string list" where
  "valid_emails is_email emails = List.map_filter (parseEmail is_email) emails"

definition emailFormSchema :: "(string \<Rightarrow> bool) \<Rightarrow> email_form \<Rightarrow> (string \<times> string) list + email_form" where
  "emailFormSchema is_email v =
     (let rs = valid_emails is_email (ef_recipients v);
          issues = recipients_issues rs @ subject_issues (ef_subject v) @ message_issues (ef_message v)
      in if issues = [] then Inr (v\<lparr>ef_recipients := rs\<rparr>) else Inl issues)"

section \<open>Recipients\<close>

text \<open>The hook \<open>useEmailRecipients\<close>: recipients and an optional error toast.\<close>

definition validRecipients :: "(string \<Rightarrow> bool) \<Rightarrow> string list \<Rightarrow> string list" where
  "validRecipients is_email rs = filter (\<lambda>e. parseEmail is_email e \<noteq> None) rs"

definition invalidRecipients :: "(string \<Rightarrow> bool) \<Rightarrow> string list \<Rightarrow> string list" where
  "invalidRecipients is_email rs = filter (\<lambda>e. parseEmail is_email e = None) rs"

text \<open>\<open>parsed || email\<close>.\<close>

definition parsed_or :: "(string \<Rightarrow> bool) \<Rightarrow> string \<Rightarrow> string" where
  "parsed_or is_email email = (case truthy_str (parseEmail is_email email) of None \<Rightarrow> email | Some p \<Rightarrow> p)"

definition addEmail :: "(string \<Rightarrow> bool) \<Rightarrow> string \<Rightarrow> string list \<Rightarrow> string list \<times> toast option" where
  "addEmail is_email email rs =
     (if email = [] then (rs, None)
      else let p = parsed_or is_email email
           in if p \<in> set rs then (rs, Some (ToastError (''Email '' @ p @ '' has already been added'')))
              else (rs @ [p], None))"

definition updateEmail :: "(string \<Rightarrow> bool) \<Rightarrow> string \<Rightarrow> string \<Rightarrow> string list \<Rightarrow> string list \<times> toast option" where
  "updateEmail is_email oldEmail newEmail rs =
     (if newEmail = [] then (rs, None)
      else let p = parsed_or is_email newEmail
           in if \<exists>r\<in>set rs. r = p \<and> r \<noteq> oldEmail then (rs, Some (ToastError ''Email already added''))
              else (map (\<lambda>r. if r = oldEmail then p else r) rs, None))"

definition removeEmail :: "string \<Rightarrow> string list \<Rightarrow> string list" where
  "removeEmail email rs = filter (\<lambda>r. r \<noteq> email) rs"

definition validateEmail :: "(string \<Rightarrow> bool) \<Rightarrow> string \<Rightarrow> string option" where
  "validateEmail is_email email = truthy_str (parseEmail is_email email)"

section \<open>Typing and pasting\<close>

record input_state =
  in_recipients :: "string list"
  in_value :: string

definition input_handleAdd :: "string \<Rightarrow> input_state \<Rightarrow> input_state" where
  "input_handleAdd email s =
     (if email = [] then s
      else s\<lparr>in_recipients := filter (\<lambda>e. e \<noteq> email) (in_recipients s) @ [email], in_value := []\<rparr>)"

definition input_handleKeyDown :: "string \<Rightarrow> input_state \<Rightarrow> input_state" where
  "input_handleKeyDown key s =
     (if key = ''Tab'' \<and> js_trim (in_value s) = [] then s
      else if key \<in> {''Enter'', '','', ''Tab''} then input_handleAdd (in_value s) s
      else s)"

text \<open>\<open>split(/[\s,]+/)\<close>: the words between maximal runs of separators; a run at an end leaves an empty
  word there.\<close>

function split_runs :: "(char \<Rightarrow> bool) \<Rightarrow> string \<Rightarrow> string list" where
  "split_runs P s =
     (let w = takeWhile (\<lambda>c. \<not> P c) s; rest = dropWhile (\<lambda>c. \<not> P c) s
      in if rest = [] then [w] else w # split_runs P (dropWhile P rest))"
  by pat_completeness auto
termination
proof (relation "measure (\<lambda>(P, s). length s)")
  fix P :: "char \<Rightarrow> bool" and s w rest
  assume r: "rest = dropWhile (\<lambda>c. \<not> P c) s" "rest \<noteq> []"
  then obtain c cs where c: "rest = c # cs" using neq_Nil_conv [of rest] by blast
  have "P c" using r c by (metis dropWhile_eq_Cons_conv)
  then have "length (dropWhile P rest) < length rest"
    using length_dropWhile_le [of P cs] by (simp add: c)
  also have "\<dots> \<le> length s" using length_dropWhile_le [of "\<lambda>c. \<not> P c" s] r(1) by simp
  finally show "((P, dropWhile P rest), P, s) \<in> measure (\<lambda>(P, s). length s)" by simp
qed simp

declare split_runs.simps [simp del]

definition paste_sep :: "char \<Rightarrow> bool" where
  "paste_sep c \<longleftrightarrow> js_is_ws c \<or> c = CHR '',''"

text \<open>\<open>Array.from(new Set(xs))\<close>: the first occurrence of every element.\<close>

definition js_uniq :: "'a list \<Rightarrow> 'a list" where
  "js_uniq xs = rev (remdups (rev xs))"

definition handlePaste :: "string \<Rightarrow> input_state \<Rightarrow> input_state" where
  "handlePaste pastedText s =
     (if \<exists>c\<in>set pastedText. js_is_ws c
      then s\<lparr>in_recipients := js_uniq (in_recipients s @ map js_trim (split_runs paste_sep pastedText)),
             in_value := []\<rparr>
      else s)"

definition input_handleBlur :: "input_state \<Rightarrow> input_state" where
  "input_handleBlur s = (if in_value s \<noteq> [] then input_handleAdd (in_value s) s else s)"

definition RecipientInputField :: "bool \<Rightarrow> input_state \<Rightarrow> view" where
  "RecipientInputField invalid s =
     Elem ''div'' []
       [Elem ''div'' []
          [Elem ''Input'' [(''value'', in_value s), (''onChange'', ''setInputValue''), (''onKeyDown'', ''handleKeyDown''),
              (''onPaste'', ''handlePaste''), (''placeholder'', ''Type or paste email addresses''),
              (''aria-invalid'', js_bool invalid), (''onBlur'', ''handleBlur'')] [],
           Elem ''Button'' [(''type'', ''button''), (''onClick'', ''handleAdd'')] [Elem ''Plus'' [] []]]]"

section \<open>Chips\<close>

record chip_state =
  ch_isEditing :: bool
  ch_editValue :: string

definition chip_init :: "string \<Rightarrow> chip_state" where
  "chip_init recipient = \<lparr>ch_isEditing = False, ch_editValue = recipient\<rparr>"

definition chip_handleEdit :: "chip_state \<Rightarrow> chip_state" where
  "chip_handleEdit c = c\<lparr>ch_isEditing := True\<rparr>"

text \<open>The new state of the chip and the update it asks for.\<close>

definition chip_handleSave :: "(string \<Rightarrow> bool) \<Rightarrow> string \<Rightarrow> chip_state \<Rightarrow> chip_state \<times> (string \<times> string)" where
  "chip_handleSave is_email recipient c =
     (c\<lparr>ch_isEditing := False\<rparr>,
      (recipient, case truthy_str (parseEmail is_email (ch_editValue c)) of None \<Rightarrow> ch_editValue c | Some p \<Rightarrow> p))"

definition chip_handleKeyDown ::
  "(string \<Rightarrow> bool) \<Rightarrow> string \<Rightarrow> string \<Rightarrow> chip_state \<Rightarrow> chip_state \<times> (string \<times> string) option" where
  "chip_handleKeyDown is_email recipient key c =
     (if key = ''Enter'' then (case chip_handleSave is_email recipient c of (c', u) \<Rightarrow> (c', Some u))
      else if key = ''Escape'' then (c\<lparr>ch_isEditing := False, ch_editValue := recipient\<rparr>, None)
      else (c, None))"

definition RecipientChip :: "string \<Rightarrow> bool \<Rightarrow> chip_state \<Rightarrow> view" where
  "RecipientChip recipient isValid c =
     (let variant = (''variant'', if isValid then ''default'' else ''destructive'')
      in if ch_isEditing c
         then Elem ''Badge'' [variant]
                [Elem ''Input'' [(''value'', ch_editValue c), (''onChange'', ''setEditValue''), (''onBlur'', ''handleSave''),
                    (''onKeyDown'', ''handleKeyDown''), (''aria-label'', ''Edit email address'')] [],
                 Elem ''button'' [(''type'', ''button''), (''onClick'', ''handleSave''), (''aria-label'', ''Save changes'')]
                   [Elem ''Check'' [] []]]
         else Elem ''Badge'' [variant]
                [Txt recipient,
                 Elem ''button'' [(''onClick'', ''handleEdit''), (''aria-label'', ''Edit '' @ recipient)] [Elem ''Pencil'' [] []],
                 Elem ''button'' [(''onClick'', ''onRemove:'' @ recipient), (''aria-label'', ''Remove '' @ recipient)] [Txt ''x'']])"

definition chips_handleUpdate :: "string \<Rightarrow> string \<Rightarrow> string list \<Rightarrow> string list" where
  "chips_handleUpdate oldRecipient newRecipient rs = map (\<lambda>r. if r = oldRecipient then newRecipient else r) rs"

definition chips_handleRemove :: "string \<Rightarrow> string list \<Rightarrow> string list" where
  "chips_handleRemove recipient rs = filter (\<lambda>r. r \<noteq> recipient) rs"

definition RecipientChips :: "(string \<Rightarrow> bool) \<Rightarrow> string list \<Rightarrow> view" where
  "RecipientChips is_email rs =
     (if length rs > 0
      then Elem ''div'' []
             (map (\<lambda>r. RecipientChip r True (chip_init r)) (validRecipients is_email rs) @
              map (\<lambda>r. RecipientChip r False (chip_init r)) (invalidRecipients is_email rs))
      else Elem ''div'' [] [])"

section \<open>CSV upload\<close>

text \<open>A file is its text, or the message of the error with which reading it rejects (\<open>None\<close>: what is
  thrown is not an \<open>Error\<close>). The result is the e-mails and an error.\<close>

definition parseEmailCsv ::
  "(string \<Rightarrow> string list list \<times> string list) \<Rightarrow> string option + string \<Rightarrow> string list \<times> string option" where
  "parseEmailCsv papa file =
     (case file of
        Inl (Some m) \<Rightarrow> ([], Some (''Error parsing CSV: '' @ m))
      | Inl None \<Rightarrow> ([], Some ''Unknown error parsing CSV'')
      | Inr txt \<Rightarrow>
          (case papa txt of (rows, errors) \<Rightarrow>
             if length errors > 0 then ([], Some (''CSV parse error: '' @ hd errors))
             else let emails = filter (\<lambda>e. js_trim e \<noteq> []) (concat rows)
                  in if length emails = 0 then ([], Some ''No emails found in this file'')
                     else (emails, None)))"

record csv_state =
  cs_recipients :: "string list"
  cs_isLoading :: bool
  cs_isDragging :: bool
  cs_error :: "string option"

text \<open>\<open>handleCsvFile\<close> up to its first \<open>await\<close>, and from there to the end; the error is cleared by a
  timer later.\<close>

definition csv_start :: "csv_state \<Rightarrow> csv_state" where
  "csv_start s = s\<lparr>cs_isLoading := True, cs_error := None\<rparr>"

definition csv_finish :: "string list \<times> string option \<Rightarrow> csv_state \<Rightarrow> csv_state" where
  "csv_finish result s =
     (case result of (emails, err) \<Rightarrow>
        (case truthy_str err of
           Some e \<Rightarrow> s\<lparr>cs_error := Some (js_or_str e ''Failed to parse CSV.''), cs_isLoading := False\<rparr>
         | None \<Rightarrow> s\<lparr>cs_recipients := cs_recipients s @ emails, cs_isLoading := False\<rparr>))"

definition csv_drag :: "bool \<Rightarrow> csv_state \<Rightarrow> csv_state" where
  "csv_drag b s = s\<lparr>cs_isDragging := b\<rparr>"

definition csv_timeout :: "csv_state \<Rightarrow> csv_state" where
  "csv_timeout s = s\<lparr>cs_error := None\<rparr>"

definition handleCsvFile ::
  "(string \<Rightarrow> string list list \<times> string list) \<Rightarrow> string option + string \<Rightarrow> csv_state \<Rightarrow> csv_state" where
  "handleCsvFile papa file s = csv_finish (parseEmailCsv papa file) (csv_start s)"

definition CsvUploader :: "csv_state \<Rightarrow> view" where
  "CsvUploader s =
     Elem ''div'' []
       ([Elem ''div'' [(''class'', if cs_isDragging s then ''border-primary'' else ''border-muted''),
            (''onDragOver'', ''csv_drag:true''), (''onDragLeave'', ''csv_drag:false''), (''onDrop'', ''handleCsvFile''),
            (''onClick'', ''handleClick'')]
           [Elem ''input'' [(''type'', ''file''), (''onChange'', ''handleFileChange''), (''accept'', ''.csv'')] [],
            Elem ''div'' []
              [Elem ''Upload'' [] [],
               Elem ''div'' [] [Elem ''span'' [] [Txt ''Click to upload''], Txt '' or drag and drop''],
               Elem ''div'' [] [Txt ''CSV file with email addresses'']]]] @
        show_if (cs_isLoading s) (Elem ''div'' [] [Elem ''Loader2'' [] [], Txt ''Processing CSV file...'']) @
        opt_list (map_option (\<lambda>e. Elem ''div'' [] [Elem ''AlertCircle'' [] [], Txt e]) (truthy_str (cs_error s))))"

section \<open>The form\<close>

definition RecipientTypeSelector :: "string \<Rightarrow> view" where
  "RecipientTypeSelector inputMode =
     Elem ''div'' []
       [Elem ''label'' [] [Txt ''Recipient Input Mode''],
        Elem ''select'' [(''value'', inputMode), (''onChange'', ''onInputModeChange'')]
          [Elem ''option'' [(''value'', ''manual'')] [Txt ''Manual Entry''],
           Elem ''option'' [(''value'', ''csv'')] [Txt ''Upload CSV''],
           Elem ''option'' [(''value'', ''google''), (''disabled'', ''true'')] [Txt ''Import from Google Sheets (Coming Soon)''],
           Elem ''option'' [(''value'', ''contacts''), (''disabled'', ''true'')] [Txt ''Use Saved Contact List (Coming Soon)'']]]"

definition RecipientInputSection ::
  "(string \<Rightarrow> bool) \<Rightarrow> string \<Rightarrow> bool \<Rightarrow> csv_state \<Rightarrow> input_state \<Rightarrow> view" where
  "RecipientInputSection is_email inputMode invalid csv inp =
     Elem ''div'' []
       ([RecipientTypeSelector inputMode] @ show_if (inputMode = ''csv'') (CsvUploader csv) @
        [RecipientChips is_email (in_recipients inp), Elem ''FormLabel'' [] [Txt ''Recipients''],
         RecipientInputField invalid inp])"

definition EmailSubjectField :: "string \<Rightarrow> bool \<Rightarrow> view" where
  "EmailSubjectField subject invalid =
     Elem ''div'' []
       [Elem ''Input'' [(''value'', subject), (''onKeyDown'', ''handleKeyDown''), (''aria-invalid'', js_bool invalid)] [],
        Elem ''div'' [] [Elem ''span'' [] [Txt (js_of_nat (length subject) @ ''/'' @ js_of_nat MAX_SUBJECT_CHAR_COUNT @ '' characters'')]]]"

definition EmailBodyField :: "string \<Rightarrow> bool \<Rightarrow> view" where
  "EmailBodyField message invalid =
     Elem ''div'' []
       [Elem ''Textarea'' [(''value'', message), (''aria-invalid'', js_bool invalid)] [],
        Elem ''div'' [] [Elem ''span'' [] [Txt (js_of_nat (length message) @ ''/'' @ js_of_nat MAX_MESSAGE_CHAR_COUNT @ '' characters'')]]]"

definition FormControls :: "string \<Rightarrow> bool \<Rightarrow> view" where
  "FormControls txt isResetDialogOpen =
     Elem ''div'' []
       [Elem ''AlertDialog'' [(''open'', js_bool isResetDialogOpen), (''onOpenChange'', ''setIsResetDialogOpen'')]
          [Elem ''AlertDialogTrigger'' [] [Elem ''Button'' [] [Txt ''Reset'']],
           Elem ''AlertDialogContent'' []
             [Elem ''AlertDialogHeader'' []
                [Elem ''AlertDialogTitle'' [] [Txt (''Are you sure you want to reset '' @ txt @ '' settings?'')],
                 Elem ''AlertDialogDescription'' [] [Txt ''This action cannot be undone.'']],
              Elem ''AlertDialogFooter'' []
                [Elem ''AlertDialogCancel'' [] [Txt ''Cancel''],
                 Elem ''AlertDialogAction'' [(''onClick'', ''handleReset'')] [Txt ''Reset'']]]],
        Elem ''Button'' [(''type'', ''submit'')] [Txt (''Save '' @ txt @ '' Settings'')]]"

definition formatPreviewRecipients :: "(string \<Rightarrow> bool) \<Rightarrow> string list \<Rightarrow> string" where
  "formatPreviewRecipients is_email rs =
     (let valid = validRecipients is_email rs; visible = take 3 valid; hiddenCount = length valid - length visible
      in if hiddenCount > 0 then js_join '', '' visible @ '' +'' @ js_of_nat hiddenCount @ '' more''
         else js_join '', '' visible)"

definition EmailPreview :: "(string \<Rightarrow> bool) \<Rightarrow> email_form \<Rightarrow> view" where
  "EmailPreview is_email v =
     Elem ''Dialog'' []
       [Elem ''DialogTrigger'' [] [Elem ''Button'' [] [Elem ''Eye'' [] [], Txt ''Preview Email'']],
        Elem ''DialogContent'' [(''aria-description'', ''Preview what your email will look like'')]
          [Elem ''DialogHeader'' []
             [Elem ''DialogTitle'' [] [Txt ''Email Preview''],
              Elem ''DialogDescription'' [] [Txt ''This is a preview of the email that will be sent to your recipients.'']],
           Elem ''div'' []
             [Elem ''p'' [] [Elem ''strong'' [] [Txt ''To:''], Txt (formatPreviewRecipients is_email (ef_recipients v))],
              Elem ''p'' [] [Elem ''strong'' [] [Txt ''Subject:''], Txt (ef_subject v)],
              Elem ''div'' [] [Txt (ef_message v)]]]]"

definition email_default :: email_form where
  "email_default = \<lparr>ef_recipients = [], ef_subject = [], ef_message = []\<rparr>"

text \<open>The configuration object of a node and the values that the form reads from one; \<open>None\<close> is a
  configuration that is not of this form.\<close>

definition email_config :: "email_form \<Rightarrow> config" where
  "email_config v =
     [(''recipients'', JArr (map JStr (ef_recipients v))), (''subject'', JStr (ef_subject v)),
      (''message'', JStr (ef_message v))]"

fun js_strings :: "jsval list \<Rightarrow> string list option" where
  "js_strings [] = Some []"
| "js_strings (JStr s # vs) = (case js_strings vs of None \<Rightarrow> None | Some ss \<Rightarrow> Some (s # ss))"
| "js_strings (v # vs) = None"

definition email_defaults :: "config \<Rightarrow> email_form option" where
  "email_defaults config =
     (if length config = 0 then Some email_default
      else (case (map_of config ''recipients'', map_of config ''subject'', map_of config ''message'') of
              (Some (JArr rs), Some (JStr s), Some (JStr m)) \<Rightarrow>
                map_option (\<lambda>ss. \<lparr>ef_recipients = ss, ef_subject = s, ef_message = m\<rparr>) (js_strings rs)
            | _ \<Rightarrow> None))"

definition email_onSubmit ::
  "(string \<Rightarrow> bool) \<Rightarrow> email_form \<Rightarrow> canvas_state \<Rightarrow> canvas_state \<times> toast list" where
  "email_onSubmit is_email v s =
     (case emailFormSchema is_email v of
        Inr d \<Rightarrow>
          (case getSelectedNode (cv_store s) of
             None \<Rightarrow> (s, [])
           | Some n \<Rightarrow> (write_config (email_config d) s, [ToastSuccess ''Email settings saved successfully'']))
      | Inl errors \<Rightarrow>
          (s, concat (map (\<lambda>field. opt_list (map_option ToastError (map_of errors field)))
                [''recipients'', ''subject'', ''message''])))"

definition email_handleReset :: "email_form \<Rightarrow> email_form \<times> toast list" where
  "email_handleReset v = (email_default, [ToastInfo ''Email settings reset''])"

definition EmailForm ::
  "(string \<Rightarrow> bool) \<Rightarrow> string \<Rightarrow> (string \<times> string) list \<Rightarrow> csv_state \<Rightarrow> input_state \<Rightarrow> email_form \<Rightarrow> view" where
  "EmailForm is_email inputMode errors csv inp v =
     (let bad = (\<lambda>f. map_of errors f \<noteq> None);
          msg = (\<lambda>f. Elem ''FormMessage'' [] (opt_list (map_option Txt (map_of errors f))))
      in Elem ''form'' [(''onSubmit'', ''onSubmit'')]
           [Elem ''FormItem'' [] [RecipientInputSection is_email inputMode (bad ''recipients'') csv inp, msg ''recipients''],
            Elem ''FormItem'' [] [Elem ''FormLabel'' [] [Txt ''Subject''], EmailSubjectField (ef_subject v) (bad ''subject''), msg ''subject''],
            Elem ''FormItem'' [] [Elem ''FormLabel'' [] [Txt ''Message''], EmailBodyField (ef_message v) (bad ''message''), msg ''message''],
            FormControls ''email'' False])"

definition EmailSettings ::
  "(string \<Rightarrow> bool) \<Rightarrow> string \<Rightarrow> (string \<times> string) list \<Rightarrow> csv_state \<Rightarrow> input_state \<Rightarrow> email_form \<Rightarrow> view" where
  "EmailSettings is_email inputMode errors csv inp v =
     Elem ''div'' [] [EmailForm is_email inputMode errors csv inp v, EmailPreview is_email v]"

section \<open>Normal forms\<close>

text \<open>What is relied on of the address test: an address is not empty, has no white space, and the test
  does not depend on case.\<close>

definition email_doc :: "(string \<Rightarrow> bool) \<Rightarrow> bool" where
  "email_doc is_email \<longleftrightarrow>
     (\<forall>e. is_email e \<longrightarrow> e \<noteq> [] \<and> (\<forall>c\<in>set e. \<not> js_is_ws c) \<and> is_email (js_lower e))"

lemma parseEmail_fixpoint:
  assumes doc: "email_doc is_email" and p: "parseEmail is_email e = Some p"
  shows "parseEmail is_email p = Some p" and "p \<noteq> []" and "normalizeEmail p = p"
proof -
  have e: "is_email e" "p = normalizeEmail e" using p by (auto simp: parseEmail_def split: if_splits)
  with doc have d: "e \<noteq> []" "\<forall>c\<in>set e. \<not> js_is_ws c" "is_email (js_lower e)" by (auto simp: email_doc_def)
  then have t: "js_trim e = e" by (intro js_trim_no_ws) blast
  then have p': "p = js_lower e" by (simp add: e(2) normalizeEmail_def)
  show n: "normalizeEmail p = p" using t by (simp add: p' normalizeEmail_def js_trim_lower)
  show "parseEmail is_email p = Some p" using d(3) n by (simp add: parseEmail_def p')
  show "p \<noteq> []" using d(1) by (simp add: p')
qed

lemma map_filter_fixpoint: "(\<And>x. x \<in> set xs \<Longrightarrow> f x = Some x) \<Longrightarrow> List.map_filter f xs = xs"
  by (induction xs) (simp_all add: List.map_filter_def)

lemma valid_emails_fixpoint:
  assumes "email_doc is_email" and "p \<in> set (valid_emails is_email rs)"
  shows "parseEmail is_email p = Some p"
proof -
  obtain e where "parseEmail is_email e = Some p"
    using assms(2) by (auto simp: valid_emails_def List.map_filter_def)
  then show ?thesis by (rule parseEmail_fixpoint(1) [OF assms(1)])
qed

lemma valid_emails_idem: "email_doc is_email \<Longrightarrow> valid_emails is_email (valid_emails is_email rs) = valid_emails is_email rs"
  unfolding valid_emails_def [of is_email "valid_emails is_email rs"]
  by (rule map_filter_fixpoint) (rule valid_emails_fixpoint)

text \<open>The e-mail form is accepted exactly when at least one recipient is a valid address, the
  subject has 1 to 100 characters and the message 1 to 2500, both bounds included; the accepted values
  are the form's with the valid recipients in normal form.\<close>

lemma emailFormSchema_accepts:
  "emailFormSchema is_email v = Inr d \<longleftrightarrow>
     d = v\<lparr>ef_recipients := valid_emails is_email (ef_recipients v)\<rparr> \<and>
     (\<exists>e\<in>set (ef_recipients v). is_email e) \<and>
     1 \<le> length (ef_subject v) \<and> length (ef_subject v) \<le> 100 \<and>
     1 \<le> length (ef_message v) \<and> length (ef_message v) \<le> 2500"
proof -
  have "valid_emails is_email rs = [] \<longleftrightarrow> \<not> (\<exists>e\<in>set rs. is_email e)" for rs
    by (induction rs) (auto simp: valid_emails_def List.map_filter_def parseEmail_def)
  then show ?thesis
    by (auto simp: emailFormSchema_def Let_def recipients_issues_def subject_issues_def message_issues_def
        MAX_SUBJECT_CHAR_COUNT_def MAX_MESSAGE_CHAR_COUNT_def show_if_def Suc_le_eq not_less)
qed

definition demo_is_email :: "string \<Rightarrow> bool" where
  "demo_is_email e \<longleftrightarrow> CHR ''@'' \<in> set e \<and> (\<forall>c\<in>set e. \<not> js_is_ws c)"

lemma demo_email_doc: "email_doc demo_is_email"
proof -
  have "js_lower_char (CHR ''@'') = CHR ''@''" by code_simp
  then have "CHR ''@'' \<in> set e \<Longrightarrow> CHR ''@'' \<in> set (js_lower e)" for e
    by (metis image_eqI js_lower_def list.set_map)
  then show ?thesis
    by (auto simp: email_doc_def demo_is_email_def) (auto simp: js_lower_def)
qed

lemma emailFormSchema_accepts_example:
  "\<exists>d. emailFormSchema demo_is_email
     \<lparr>ef_recipients = [''x'', ''A@b.co''], ef_subject = replicate 100 (CHR ''s''), ef_message = ''m''\<rparr> = Inr d"
  unfolding emailFormSchema_accepts by (auto simp: demo_is_email_def js_is_ws_def)

section \<open>Submitting\<close>

lemma js_strings_map [simp]: "js_strings (map JStr ss) = Some ss"
  by (induction ss) auto

lemma email_defaults_config [simp]: "email_defaults (email_config d) = Some d"
  by (simp add: email_defaults_def email_config_def)

text \<open>The e-mail form keeps the contract of a settings form, and is stable when the check of an address is
  as documented.\<close>

definition email_accept :: "(string \<Rightarrow> bool) \<Rightarrow> email_form \<Rightarrow> email_form option" where
  "email_accept is_email v = (case emailFormSchema is_email v of Inl _ \<Rightarrow> None | Inr d \<Rightarrow> Some d)"

interpretation email_settings: settings_form
  "\<lambda>v. map_option email_config (email_accept is_email v)" "\<lambda>v s. fst (email_onSubmit is_email v s)" for is_email
  by unfold_locales (simp add: email_onSubmit_def email_accept_def write_config_def split: sum.splits option.splits)

lemma emailFormSchema_idem:
  assumes "email_doc is_email" and "emailFormSchema is_email v = Inr d"
  shows "emailFormSchema is_email d = Inr d"
proof -
  have d: "d = v\<lparr>ef_recipients := valid_emails is_email (ef_recipients v)\<rparr>"
    using assms(2) by (simp add: emailFormSchema_def Let_def split: if_splits)
  show ?thesis
    using assms(2) by (simp add: d emailFormSchema_def Let_def valid_emails_idem [OF assms(1)] split: if_splits)
qed

lemma email_stable:
  "email_doc is_email \<Longrightarrow>
   stable_form (\<lambda>v. map_option email_config (email_accept is_email v)) (\<lambda>v s. fst (email_onSubmit is_email v s))
     (email_accept is_email) email_config email_defaults"
  by unfold_locales (auto simp: email_accept_def emailFormSchema_idem split: sum.splits)

text \<open>Claim C31: submitting an accepted e-mail form stores its values in the configuration of the
  selected node and of no other node; opening the form again shows exactly what was stored, every
  recipient is a valid address in normal form, and submitting that unchanged stores the same again.\<close>

theorem email_submit_stable:
  assumes doc: "email_doc is_email" and v: "emailFormSchema is_email v = Inr d"
    and sel: "getSelectedNode (cv_store s) = Some n" and d0: "cv_heap s (n_data n) = Some d0"
  shows "email_onSubmit is_email v s =
           (s\<lparr>cv_heap := (cv_heap s)(n_data n \<mapsto> d0\<lparr>d_config := email_config d\<rparr>)\<rparr>,
            [ToastSuccess ''Email settings saved successfully'']) \<and>
         email_defaults (email_config d) = Some d \<and> emailFormSchema is_email d = Inr d \<and>
         list_all (\<lambda>r. parseEmail is_email r = Some r) (ef_recipients d)"
proof -
  have d: "d = v\<lparr>ef_recipients := valid_emails is_email (ef_recipients v)\<rparr>"
    using v by (simp add: emailFormSchema_def Let_def split: if_splits)
  have "list_all (\<lambda>r. parseEmail is_email r = Some r) (ef_recipients d)"
    using valid_emails_fixpoint [OF doc] by (simp add: d list_all_iff)
  then show ?thesis
    using sel d0 emailFormSchema_idem [OF doc v] by (simp add: email_onSubmit_def v write_config_def)
qed

definition demo_selected :: canvas_state where
  "demo_selected = \<lparr>cv_store = setSelectedNode (Some demo_node) demo_store,
     cv_heap = [0 \<mapsto> \<lparr>d_category = ''action'', d_nodeType = ''send_email'', d_config = [], d_label = ''l'',
       d_description = ''d'', d_icon = ''i'', d_status = None\<rparr>], cv_next = 1\<rparr>"

lemma demo_selected_node:
  "getSelectedNode (cv_store demo_selected) = Some demo_node"
  "\<exists>d. cv_heap demo_selected (n_data demo_node) = Some d \<and> d_config d = []"
  using selected.get_put [of demo_store "Some demo_node"] demo_store_inv
  by (simp_all add: demo_selected_def demo_node_def)

theorem email_submit_stable_witness:
  "\<exists>v d s'. emailFormSchema demo_is_email v = Inr d \<and>
     email_onSubmit demo_is_email v demo_selected = (s', [ToastSuccess ''Email settings saved successfully'']) \<and>
     emailFormSchema demo_is_email d = Inr d"
proof -
  let ?v = "\<lparr>ef_recipients = [''A@b.co''], ef_subject = ''s'', ef_message = ''m''\<rparr>"
  obtain d where v: "emailFormSchema demo_is_email ?v = Inr d"
    by (auto simp: emailFormSchema_def Let_def valid_emails_def List.map_filter_def parseEmail_def demo_is_email_def
        js_is_ws_def recipients_issues_def subject_issues_def message_issues_def
        MAX_SUBJECT_CHAR_COUNT_def MAX_MESSAGE_CHAR_COUNT_def)
  obtain d0 where "cv_heap demo_selected (n_data demo_node) = Some d0" using demo_selected_node(2) by blast
  from email_submit_stable [OF demo_email_doc v demo_selected_node(1) this] v show ?thesis by blast
qed

section \<open>Input\<close>

lemma set_js_uniq [simp]: "set (js_uniq xs) = set xs"
  by (simp add: js_uniq_def)

lemma distinct_js_uniq [simp]: "distinct (js_uniq xs)"
  by (simp add: js_uniq_def)

lemma js_uniq_keeps: "distinct xs \<Longrightarrow> \<exists>zs. js_uniq (xs @ ys) = xs @ zs"
proof (induction ys rule: rev_induct)
  case Nil
  then show ?case by (simp add: js_uniq_def distinct_remdups_id)
next
  case (snoc y ys)
  then show ?case by (auto simp: js_uniq_def)
qed

lemma split_runs_blank: "[] \<in> set (split_runs P s) \<longleftrightarrow> s = [] \<or> P (hd s) \<or> P (last s)"
proof (induction P s rule: split_runs.induct)
  case (1 P s)
  define w r t where "w = takeWhile (\<lambda>c. \<not> P c) s" and "r = dropWhile (\<lambda>c. \<not> P c) s" and "t = dropWhile P r"
  have eq: "split_runs P s = (if r = [] then [w] else w # split_runs P t)"
    unfolding w_def r_def t_def by (subst split_runs.simps) (simp only: Let_def)
  show ?case
  proof (cases "r = []")
    case True
    then have np: "\<forall>c\<in>set s. \<not> P c" by (simp add: r_def dropWhile_eq_Nil_conv)
    then have "w = s" by (simp add: w_def takeWhile_eq_all_conv)
    with True eq have "split_runs P s = [s]" by simp
    with np show ?thesis by (cases "s = []") simp_all
  next
    case False
    then have s: "s \<noteq> []" by (auto simp: r_def)
    have ls: "last s = last r"
      using False unfolding r_def by (metis last_appendR takeWhile_dropWhile_id)
    have w: "w = [] \<longleftrightarrow> P (hd s)" using s by (cases s) (simp_all add: w_def)
    have ih: "[] \<in> set (split_runs P t) \<longleftrightarrow> t = [] \<or> P (hd t) \<or> P (last t)"
      unfolding t_def r_def by (rule 1 [OF refl refl]) (use False in \<open>simp add: r_def\<close>)
    have h: "t \<noteq> [] \<Longrightarrow> \<not> P (hd t)" using hd_dropWhile [of P r] by (simp add: t_def)
    have t0: "t = [] \<Longrightarrow> P (last r)" using False unfolding t_def by (metis dropWhile_eq_Nil_conv last_in_set)
    have t1: "t \<noteq> [] \<Longrightarrow> last t = last r" unfolding t_def by (metis last_appendR takeWhile_dropWhile_id)
    have "[] \<in> set (split_runs P s) \<longleftrightarrow> w = [] \<or> [] \<in> set (split_runs P t)" using False eq by auto
    then show ?thesis unfolding w ih ls using h t0 t1 s by (cases "t = []") simp_all
  qed
qed

text \<open>Pasting text with white space adds its words to the recipients and leaves the ones that
  were there in place, each once, and clears the input; when the text begins or ends with white space
  or a comma, an empty recipient is in the list.\<close>

lemma handlePaste_spec:
  assumes "distinct (in_recipients s)" and "\<exists>c\<in>set txt. js_is_ws c"
  shows "let s' = handlePaste txt s
         in distinct (in_recipients s') \<and> (\<exists>new. in_recipients s' = in_recipients s @ new) \<and>
            set (in_recipients s') = set (in_recipients s) \<union> js_trim ` set (split_runs paste_sep txt) \<and>
            in_value s' = [] \<and>
            (paste_sep (hd txt) \<or> paste_sep (last txt) \<longrightarrow> [] \<in> set (in_recipients s'))"
proof -
  have "txt \<noteq> []" using assms(2) by auto
  have "[] \<in> js_trim ` set (split_runs paste_sep txt)" if "paste_sep (hd txt) \<or> paste_sep (last txt)"
  proof -
    have "[] \<in> set (split_runs paste_sep txt)" using that by (simp add: split_runs_blank)
    then have "js_trim [] \<in> js_trim ` set (split_runs paste_sep txt)" by (rule imageI)
    then show ?thesis by simp
  qed
  then show ?thesis
    using assms js_uniq_keeps [OF assms(1)] by (simp add: handlePaste_def Let_def)
qed

lemma handlePaste_spec_example:
  "[] \<in> set (in_recipients (handlePaste ''a@b.co c@d.co '' \<lparr>in_recipients = [''a@b.co''], in_value = []\<rparr>))"
proof -
  have "\<exists>c\<in>set ''a@b.co c@d.co ''. js_is_ws c" by (simp add: js_is_ws_def)
  moreover have "paste_sep (last ''a@b.co c@d.co '')" by (simp add: paste_sep_def js_is_ws_def)
  ultimately show ?thesis
    using handlePaste_spec [of "\<lparr>in_recipients = [''a@b.co''], in_value = []\<rparr>" "''a@b.co c@d.co ''"]
    unfolding Let_def by fastforce
qed

text \<open>The ways to change the recipients that look for duplicates.\<close>

datatype recipient_event =
    RI_change string
  | RI_key string
  | RI_blur
  | RI_paste string
  | RI_add string
  | RI_update string string
  | RI_remove string

fun recipient_step :: "(string \<Rightarrow> bool) \<Rightarrow> recipient_event \<Rightarrow> input_state \<Rightarrow> input_state" where
  "recipient_step ie (RI_change v) s = s\<lparr>in_value := v\<rparr>"
| "recipient_step ie (RI_key k) s = input_handleKeyDown k s"
| "recipient_step ie RI_blur s = input_handleBlur s"
| "recipient_step ie (RI_paste t) s = handlePaste t s"
| "recipient_step ie (RI_add e) s = s\<lparr>in_recipients := fst (addEmail ie e (in_recipients s))\<rparr>"
| "recipient_step ie (RI_update a b) s = s\<lparr>in_recipients := fst (updateEmail ie a b (in_recipients s))\<rparr>"
| "recipient_step ie (RI_remove e) s = s\<lparr>in_recipients := removeEmail e (in_recipients s)\<rparr>"

definition recipients_distinct :: "input_state \<Rightarrow> bool" where
  "recipients_distinct s \<longleftrightarrow> distinct (in_recipients s)"

lemma distinct_updateEmail: "distinct rs \<Longrightarrow> distinct (fst (updateEmail ie a b rs))"
proof -
  assume d: "distinct rs"
  have "distinct (map (\<lambda>r. if r = a then p else r) rs)" if "\<forall>r\<in>set rs. r = p \<longrightarrow> r = a" for p
    using d that by (auto simp: distinct_map inj_on_def)
  with d show ?thesis by (auto simp: updateEmail_def Let_def)
qed

lemma input_handleAdd_distinct: "recipients_distinct s \<Longrightarrow> recipients_distinct (input_handleAdd e s)"
  by (simp add: recipients_distinct_def input_handleAdd_def)

lemma recipient_step_inv: "recipients_distinct s \<Longrightarrow> recipients_distinct (recipient_step ie e s)"
proof (cases e)
  case (RI_update a b)
  assume "recipients_distinct s"
  then show ?thesis using RI_update by (simp add: recipients_distinct_def distinct_updateEmail)
qed (auto simp: input_handleKeyDown_def input_handleBlur_def input_handleAdd_distinct,
    auto simp: recipients_distinct_def handlePaste_def addEmail_def removeEmail_def Let_def)

interpretation recipients: machine "\<lparr>in_recipients = [], in_value = []\<rparr>" "recipient_step ie" recipients_distinct
  for ie
  by unfold_locales (simp add: recipients_distinct_def, rule recipient_step_inv)

text \<open>Claim C39: no sequence of typing, pasting, adding, updating through the hook and removing puts
  a recipient twice into the list; editing a chip and uploading a file do not look for duplicates
  and can do so.\<close>

theorem recipients_stay_distinct:
  "distinct (in_recipients (fold (recipient_step ie) evs \<lparr>in_recipients = [], in_value = []\<rparr>)) \<and>
   (\<exists>a b rs. distinct rs \<and> a \<in> set rs \<and> \<not> distinct (chips_handleUpdate a b rs)) \<and>
   (\<exists>papa file s. distinct (cs_recipients s) \<and> \<not> distinct (cs_recipients (handleCsvFile papa file s)))"
proof (intro conjI)
  show "distinct (in_recipients (fold (recipient_step ie) evs \<lparr>in_recipients = [], in_value = []\<rparr>))"
    using recipients.inv_run [of ie evs] by (simp add: recipients_distinct_def)
  show "\<exists>a b rs. distinct rs \<and> a \<in> set rs \<and> \<not> distinct (chips_handleUpdate a b rs)"
    by (rule exI [of _ "''a''"], rule exI [of _ "''b''"], rule exI [of _ "[''a'', ''b'']"])
      (simp add: chips_handleUpdate_def)
  show "\<exists>papa file s. distinct (cs_recipients s) \<and> \<not> distinct (cs_recipients (handleCsvFile papa file s))"
    by (rule exI [of _ "\<lambda>t. ([[''a'', ''a'']], [])"], rule exI [of _ "Inr []"],
        rule exI [of _ "\<lparr>cs_recipients = [], cs_isLoading = False, cs_isDragging = False, cs_error = None\<rparr>"])
      (simp add: handleCsvFile_def parseEmailCsv_def csv_finish_def csv_start_def js_trim_def js_is_ws_def)
qed

end
