(* ===== verification/Schedule_Settings.thy ===== *)
theory Schedule_Settings
  imports Email_Settings Js_Date
begin

text \<open>
  The settings of the schedule trigger, \<open>components/InspectorPanel/settings/schedule\<close>.

  The functions of the date library are the fields of \<open>datefns\<close>, an argument of what calls them;
  \<open>iso_text\<close> and \<open>iso_parse\<close> are \<open>toISOString\<close> and \<open>new Date(string)\<close>. What is relied on is
  \<open>datefns_doc\<close> and \<open>iso_doc\<close>. \<open>now\<close> is the current time and \<open>tz\<close> the time zone of theory \<open>Js_Date\<close>.
\<close>

section \<open>The date library\<close>

record datefns =
  df_format :: "string \<Rightarrow> int \<Rightarrow> string"
  df_parse :: "string \<Rightarrow> string \<Rightarrow> int \<Rightarrow> date"
  df_addMinutes :: "int \<Rightarrow> nat \<Rightarrow> int"
  df_setMinutes :: "int \<Rightarrow> nat \<Rightarrow> int"
  df_setHours :: "int \<Rightarrow> nat \<Rightarrow> int"
  df_isSameDay :: "int \<Rightarrow> int \<Rightarrow> bool"
  df_addDays :: "int \<Rightarrow> nat \<Rightarrow> int"
  df_addWeeks :: "int \<Rightarrow> nat \<Rightarrow> int"
  df_addMonths :: "int \<Rightarrow> nat \<Rightarrow> int"

section \<open>Values and utilities\<close>

datatype schedule_type = ONCE | DAILY | WEEKLY | MONTHLY

fun schedule_text :: "schedule_type \<Rightarrow> string" where
  "schedule_text ONCE = ''once''"
| "schedule_text DAILY = ''daily''"
| "schedule_text WEEKLY = ''weekly''"
| "schedule_text MONTHLY = ''monthly''"

record schedule_form =
  scheduleType :: schedule_type
  scheduledDate :: int
  scheduledTime :: string

definition MINUTE_OPTIONS :: "string list" where
  "MINUTE_OPTIONS = [''00'', ''10'', ''20'', ''30'', ''40'', ''50'']"

definition getNextHalfHour :: "tz \<Rightarrow> int \<Rightarrow> string" where
  "getNextHalfHour tz d =
     (let hours = getHours tz d; minutes = getMinutes tz d;
          roundedMinutes = (minutes + 29) div 30 * 30
      in if roundedMinutes = 60 then pad2 (js_of_nat ((hours + 1) mod 24)) @ '':00''
         else pad2 (js_of_nat hours) @ '':'' @ pad2 (js_of_nat roundedMinutes))"

text \<open>\<open>timeStr.split(":").map(Number)\<close>; a missing second part is \<open>undefined\<close>, which makes the date
  invalid.\<close>

definition combineDateAndTime :: "tz \<Rightarrow> int \<Rightarrow> string \<Rightarrow> date" where
  "combineDateAndTime tz d timeStr =
     (let parts = map js_number (js_split (CHR '':'') timeStr);
          hours = (case parts of h # _ \<Rightarrow> h | [] \<Rightarrow> None);
          minutes = (case parts of _ # m # _ \<Rightarrow> m | _ \<Rightarrow> None)
      in setHours2 tz (setHours4 tz d 0 0 0 0) hours minutes)"

definition getRoundedDownDate :: "tz \<Rightarrow> int \<Rightarrow> int" where
  "getRoundedDownDate tz d = local_midnight tz d"

definition base_text :: "datefns \<Rightarrow> int \<Rightarrow> string \<Rightarrow> string" where
  "base_text df d tm = df_format df ''yyyy-MM-dd'' d @ ''T'' @ tm"

text \<open>An invalid base date makes the additions of the library return invalid dates.\<close>

definition getNextRuns ::
  "datefns \<Rightarrow> (string \<Rightarrow> date) \<Rightarrow> schedule_type \<Rightarrow> int option \<Rightarrow> string \<Rightarrow> date list" where
  "getNextRuns df iso_parse ty scheduled tm =
     (case scheduled of
        None \<Rightarrow> []
      | Some d \<Rightarrow>
          if tm = [] then []
          else let baseDate = iso_parse (base_text df d tm)
               in (case ty of
                     ONCE \<Rightarrow> [baseDate]
                   | DAILY \<Rightarrow> map (\<lambda>i. map_option (\<lambda>b. df_addDays df b i) baseDate) [0..<3]
                   | WEEKLY \<Rightarrow> map (\<lambda>i. map_option (\<lambda>b. df_addWeeks df b i) baseDate) [0..<3]
                   | MONTHLY \<Rightarrow> map (\<lambda>i. map_option (\<lambda>b. df_addMonths df b i) baseDate) [0..<3]))"

text \<open>\<open>format\<close> of an invalid date throws a \<open>RangeError\<close>.\<close>

definition getScheduleDescription ::
  "datefns \<Rightarrow> (string \<Rightarrow> date) \<Rightarrow> schedule_type \<Rightarrow> int option \<Rightarrow> string \<Rightarrow> string js" where
  "getScheduleDescription df iso_parse ty scheduled tm =
     (case scheduled of
        None \<Rightarrow> Inr ''Complete the form to see schedule preview''
      | Some d \<Rightarrow>
          if tm = [] then Inr ''Complete the form to see schedule preview''
          else (case iso_parse (base_text df d tm) of
                  None \<Rightarrow> Inl (ErrorMsg ''Invalid time value'')
                | Some b \<Rightarrow>
                    (let fd = df_format df ''P'' b; ft = df_format df ''p'' b
                     in Inr (case ty of
                          ONCE \<Rightarrow> ''Run once on '' @ fd @ '' at '' @ ft
                        | DAILY \<Rightarrow> ''Run daily at '' @ ft @ '', starting '' @ fd
                        | WEEKLY \<Rightarrow> ''Run weekly on '' @ df_format df ''EEEE'' b @ ''s at '' @ ft @ '', starting '' @ fd
                        | MONTHLY \<Rightarrow> ''Run monthly on the '' @ df_format df ''do'' b @ '' at '' @ ft @ '', starting '' @ fd))))"

record time_parts =
  tp_hour :: string
  tp_minute :: string
  tp_period :: string

definition dateTo12HourParts :: "tz \<Rightarrow> int \<Rightarrow> time_parts" where
  "dateTo12HourParts tz d =
     (let h = getHours tz d; m = getMinutes tz d;
          hour12 = (if h mod 12 = 0 then 12 else h mod 12)
      in \<lparr>tp_hour = pad2 (js_of_nat hour12), tp_minute = pad2 (js_of_nat m),
          tp_period = (if h \<ge> 12 then ''PM'' else ''AM'')\<rparr>)"

definition parse_option :: "string \<Rightarrow> nat" where
  "parse_option s = (case js_digits s of None \<Rightarrow> 0 | Some n \<Rightarrow> n)"

text \<open>The branch that both an empty and an unreadable value take: the next option of the minutes.\<close>

definition now_parts :: "tz \<Rightarrow> datefns \<Rightarrow> int \<Rightarrow> nat \<Rightarrow> time_parts" where
  "now_parts tz df now offset =
     (let n = df_addMinutes df now offset;
          m = getMinutes tz n;
          minuteOption = (case List.find (\<lambda>opt. parse_option opt \<ge> m) MINUTE_OPTIONS of
                            None \<Rightarrow> ''00'' | Some opt \<Rightarrow> opt);
          rounded = df_setMinutes df n (parse_option minuteOption);
          rounded1 = (if parse_option minuteOption < m then df_setHours df rounded (getHours tz rounded + 1) else rounded);
          parts = dateTo12HourParts tz rounded1
      in parts\<lparr>tp_minute := minuteOption\<rparr>)"

definition getTimePartsFromValue :: "tz \<Rightarrow> datefns \<Rightarrow> int \<Rightarrow> string \<Rightarrow> nat \<Rightarrow> time_parts" where
  "getTimePartsFromValue tz df now v offset =
     (if v = [] then now_parts tz df now offset
      else (case df_parse df v ''HH:mm'' now of
              None \<Rightarrow> now_parts tz df now offset
            | Some p \<Rightarrow> dateTo12HourParts tz p))"

section \<open>Validation\<close>

text \<open>The refinement of the schema; a comparison with an invalid date is false.\<close>

definition scheduleFormSchema :: "tz \<Rightarrow> int \<Rightarrow> schedule_form \<Rightarrow> (string \<times> string) list" where
  "scheduleFormSchema tz now v =
     (let combinedDate = combineDateAndTime tz (scheduledDate v) (scheduledTime v)
      in show_if (getRoundedDownDate tz (scheduledDate v) < getRoundedDownDate tz now)
           (''scheduledDate'', ''Date must be in the future'') @
         show_if (date_le combinedDate (Some now)) (''scheduledTime'', ''Time must be in the future''))"

section \<open>Time picker\<close>

definition HOUR_OPTIONS :: "string list" where
  "HOUR_OPTIONS = map (\<lambda>i. pad2 (js_of_nat (i + 1))) [0..<12]"

definition PERIOD_OPTIONS :: "string list" where
  "PERIOD_OPTIONS = [''AM'', ''PM'']"

definition MINUTE_OFFSET :: nat where
  "MINUTE_OFFSET = 10"

datatype date_field = DF_undefined | DF_date int | DF_string string | DF_number int

definition getDateFromField :: "(string \<Rightarrow> date) \<Rightarrow> date_field \<Rightarrow> date" where
  "getDateFromField iso_parse f =
     (case f of
        DF_undefined \<Rightarrow> None
      | DF_date t \<Rightarrow> Some t
      | DF_string s \<Rightarrow> if s = [] then None else iso_parse s
      | DF_number n \<Rightarrow> if n = 0 then None else Some n)"

definition isDateToday :: "datefns \<Rightarrow> int \<Rightarrow> date \<Rightarrow> bool" where
  "isDateToday df now d = (case d of None \<Rightarrow> False | Some t \<Rightarrow> df_isSameDay df t now)"

definition hour24 :: "string \<Rightarrow> string \<Rightarrow> nat" where
  "hour24 h p = (let n = parse_option h in if p = ''PM'' \<and> n < 12 then n + 12 else if p = ''AM'' \<and> n = 12 then 0 else n)"

definition isTimeBeforeMinOffsetToday :: "tz \<Rightarrow> datefns \<Rightarrow> int \<Rightarrow> string \<Rightarrow> string \<Rightarrow> string \<Rightarrow> bool" where
  "isTimeBeforeMinOffsetToday tz df now h m p =
     (let minAllowed = df_addMinutes df now MINUTE_OFFSET;
          hourNum = (let n0 = parse_option h; n1 = (if p = ''AM'' \<and> n0 = 12 then 0 else n0)
                     in if p = ''PM'' \<and> n1 < 12 then n1 + 12 else n1);
          candidate = df_setMinutes df (df_setHours df now hourNum) (parse_option m);
          l = LocalTime tz candidate
      in UTC tz (l div 60000 * 60000) < minAllowed)"

datatype time_part = PartHour | PartMinute | PartPeriod

definition handleTimePartChange :: "time_parts \<Rightarrow> time_part \<Rightarrow> string \<Rightarrow> string" where
  "handleTimePartChange tp field v =
     (let h = (if field = PartHour then v else tp_hour tp);
          m = (if field = PartMinute then v else tp_minute tp);
          p = (if field = PartPeriod then v else tp_period tp)
      in pad2 (js_of_nat (hour24 h p)) @ '':'' @ m)"

definition formatDisplayTime :: "datefns \<Rightarrow> int \<Rightarrow> string \<Rightarrow> string" where
  "formatDisplayTime df now v =
     (if v = [] then ''Select time''
      else (case df_parse df v ''HH:mm'' now of None \<Rightarrow> ''Select time'' | Some t \<Rightarrow> df_format df ''hh:mm a'' t))"

definition picker_column ::
  "string \<Rightarrow> string \<Rightarrow> string list \<Rightarrow> string \<Rightarrow> (string \<Rightarrow> bool) \<Rightarrow> view" where
  "picker_column label v options field disabled =
     Elem ''div'' [(''key'', field)]
       [Elem ''Label'' [] [Txt label],
        Elem ''Select'' [(''value'', v), (''onValueChange'', ''handleTimePartChange:'' @ field)]
          [Elem ''SelectTrigger'' [] [Elem ''SelectValue'' [(''placeholder'', label)] []],
           Elem ''SelectContent'' []
             (map (\<lambda>opt. Elem ''SelectItem'' [(''key'', opt), (''value'', opt), (''disabled'', js_bool (disabled opt))] [Txt opt])
                options)]]"

definition CustomTimePicker :: "tz \<Rightarrow> datefns \<Rightarrow> (string \<Rightarrow> date) \<Rightarrow> int \<Rightarrow> date_field \<Rightarrow> string \<Rightarrow> bool \<Rightarrow> view" where
  "CustomTimePicker tz df iso_parse now dateField v isOpen =
     (let todaySelected = isDateToday df now (getDateFromField iso_parse dateField);
          tp = getTimePartsFromValue tz df now v MINUTE_OFFSET;
          early = isTimeBeforeMinOffsetToday tz df now
      in Elem ''Popover'' [(''open'', js_bool isOpen), (''onOpenChange'', ''setIsOpen'')]
           [Elem ''PopoverTrigger'' []
              [Elem ''Button'' [(''type'', ''button''),
                  (''aria-label'', ''Selected time: '' @ (if v \<noteq> [] then formatDisplayTime df now v else ''Select time'') @ ''. Click to change.'')]
                 [Elem ''Clock'' [] [], Txt (formatDisplayTime df now v)]],
            Elem ''PopoverContent'' []
              [Elem ''div'' []
                 [picker_column ''Hour'' (tp_hour tp) HOUR_OPTIONS ''hour''
                    (\<lambda>opt. todaySelected \<and> early opt (tp_minute tp) (tp_period tp)),
                  picker_column ''Minute'' (tp_minute tp) MINUTE_OPTIONS ''minute''
                    (\<lambda>opt. todaySelected \<and> early (tp_hour tp) opt (tp_period tp)),
                  picker_column ''Period'' (tp_period tp) PERIOD_OPTIONS ''period''
                    (\<lambda>opt. todaySelected \<and> early (tp_hour tp) (tp_minute tp) opt)],
               Elem ''div'' [] [Elem ''Button'' [(''type'', ''button''), (''onClick'', ''handleDone'')] [Txt ''Done'']]]])"

section \<open>The form\<close>

definition date_disabled :: "tz \<Rightarrow> int \<Rightarrow> int \<Rightarrow> bool" where
  "date_disabled tz now d \<longleftrightarrow> d < getRoundedDownDate tz now"

definition ScheduleDatePickerField ::
  "datefns \<Rightarrow> int option \<Rightarrow> string option \<Rightarrow> bool \<Rightarrow> view" where
  "ScheduleDatePickerField df v description isOpen =
     Elem ''FormItem'' []
       ([Elem ''FormLabel'' [] [Txt ''Date''],
         Elem ''Popover'' [(''open'', js_bool isOpen), (''onOpenChange'', ''setOpen'')]
           [Elem ''PopoverTrigger'' []
              [Elem ''FormControl'' []
                 [Elem ''Button'' [(''class'', if v = None then ''text-muted-foreground'' else [])]
                    [Txt (case v of None \<Rightarrow> ''Pick a date'' | Some d \<Rightarrow> df_format df ''PPPP'' d), Elem ''CalendarIcon'' [] []]]],
            Elem ''PopoverContent'' []
              [Elem ''Calendar'' [(''mode'', ''single''), (''onSelect'', ''onChange''), (''disabled'', ''date_disabled'')] []]]] @
        opt_list (map_option (\<lambda>d. Elem ''FormDescription'' [] [Txt d]) (truthy_str description)) @
        [Elem ''FormMessage'' [] []])"

definition ScheduleForm ::
  "tz \<Rightarrow> datefns \<Rightarrow> (string \<Rightarrow> date) \<Rightarrow> string option \<Rightarrow> int \<Rightarrow> schedule_form \<Rightarrow> view" where
  "ScheduleForm tz df iso_parse abbreviation now v =
     Elem ''Card'' []
       [Elem ''CardContent'' []
          [Elem ''FormItem'' []
             [Elem ''FormLabel'' [] [Txt ''Schedule Type''],
              Elem ''Select'' [(''onValueChange'', ''onChange''), (''defaultValue'', schedule_text (scheduleType v))]
                [Elem ''FormControl'' [] [Elem ''SelectTrigger'' [] [Elem ''SelectValue'' [(''placeholder'', ''Schedule Frequency'')] []]],
                 Elem ''SelectContent'' []
                   [Elem ''SelectItem'' [(''value'', schedule_text ONCE)] [Txt ''Run Once''],
                    Elem ''SelectItem'' [(''value'', schedule_text DAILY)] [Txt ''Daily''],
                    Elem ''SelectItem'' [(''value'', schedule_text WEEKLY)] [Txt ''Weekly''],
                    Elem ''SelectItem'' [(''value'', schedule_text MONTHLY)] [Txt ''Monthly'']]],
              Elem ''FormMessage'' [] []],
           ScheduleDatePickerField df (Some (scheduledDate v)) None False,
           Elem ''FormItem'' []
             [Elem ''FormLabel'' [] [Txt ''Time''],
              Elem ''FormControl'' []
                [Elem ''div'' []
                   [Elem ''div'' [] [CustomTimePicker tz df iso_parse now (DF_date (scheduledDate v)) (scheduledTime v) False],
                    Elem ''span'' []
                      [Elem ''Tooltip'' []
                         [Elem ''TooltipTrigger'' [] [Elem ''span'' [] (opt_list (map_option Txt abbreviation))],
                          Elem ''TooltipContent'' [] [Txt ''Local timezone'']]]]],
              Elem ''FormMessage'' [] []]]]"

definition schedule_default :: "tz \<Rightarrow> int \<Rightarrow> schedule_form" where
  "schedule_default tz now = \<lparr>scheduleType = ONCE, scheduledDate = now, scheduledTime = getNextHalfHour tz now\<rparr>"

definition schedule_config :: "(int \<Rightarrow> string) \<Rightarrow> schedule_type \<Rightarrow> int \<Rightarrow> config" where
  "schedule_config iso_text ty t = [(''scheduleType'', JStr (schedule_text ty)), (''scheduledDate'', JStr (iso_text t))]"

definition schedule_of_text :: "string \<Rightarrow> schedule_type option" where
  "schedule_of_text s = List.find (\<lambda>t. schedule_text t = s) [ONCE, DAILY, WEEKLY, MONTHLY]"

text \<open>The initial values: the defaults for an empty configuration, otherwise what was saved. No
  selected node makes \<open>Object.keys(undefined)\<close> throw; an unreadable date makes \<open>format\<close> throw.\<close>

definition schedule_values ::
  "tz \<Rightarrow> datefns \<Rightarrow> (string \<Rightarrow> date) \<Rightarrow> int \<Rightarrow> config option \<Rightarrow> schedule_form js" where
  "schedule_values tz df iso_parse now config =
     (case config of
        None \<Rightarrow> Inl TypeError
      | Some c \<Rightarrow>
          if length c = 0 then Inr (schedule_default tz now)
          else (case (map_of c ''scheduleType'', map_of c ''scheduledDate'') of
                  (Some (JStr ty), Some (JStr d)) \<Rightarrow>
                    (case (schedule_of_text ty, iso_parse d) of
                       (Some ty, Some t) \<Rightarrow>
                         Inr \<lparr>scheduleType = ty, scheduledDate = t, scheduledTime = df_format df ''HH:mm'' t\<rparr>
                     | _ \<Rightarrow> Inl (ErrorMsg ''Invalid time value''))
                | _ \<Rightarrow> Inl (ErrorMsg ''Invalid time value'')))"

definition schedule_handleReset :: "tz \<Rightarrow> int \<Rightarrow> schedule_form \<times> toast list" where
  "schedule_handleReset tz now = (schedule_default tz now, [ToastInfo ''Form reset to default values''])"

text \<open>The third component is the exception of \<open>toISOString\<close> on an invalid date.\<close>

definition schedule_onSubmit ::
  "tz \<Rightarrow> (int \<Rightarrow> string) \<Rightarrow> int \<Rightarrow> schedule_form \<Rightarrow> canvas_state \<Rightarrow> canvas_state \<times> toast list \<times> js_error option" where
  "schedule_onSubmit tz iso_text now v s =
     (case scheduleFormSchema tz now v of
        [] \<Rightarrow>
          (case getSelectedNode (cv_store s) of
             None \<Rightarrow> (s, [ToastSuccess ''Schedule settings saved successfully''], None)
           | Some n \<Rightarrow>
               (case combineDateAndTime tz (scheduledDate v) (scheduledTime v) of
                  None \<Rightarrow> (s, [], Some (ErrorMsg ''Invalid time value''))
                | Some t \<Rightarrow>
                    (write_config (schedule_config iso_text (scheduleType v) t) s,
                     [ToastSuccess ''Schedule settings saved successfully''], None)))
      | errors \<Rightarrow> (s, map (\<lambda>e. ToastError (snd e)) errors, None))"

definition SchedulePreviewModal ::
  "datefns \<Rightarrow> (string \<Rightarrow> date) \<Rightarrow> schedule_form \<Rightarrow> view js" where
  "SchedulePreviewModal df iso_parse v =
     (let runs = getNextRuns df iso_parse (scheduleType v) (Some (scheduledDate v)) (scheduledTime v)
      in js_bind (getScheduleDescription df iso_parse (scheduleType v) (Some (scheduledDate v)) (scheduledTime v)) (\<lambda>descr.
         js_bind (js_map_err (\<lambda>d. case d of None \<Rightarrow> Inl (ErrorMsg ''Invalid time value'')
                     | Some t \<Rightarrow> Inr (Elem ''div'' [] [Txt (df_format df ''P'' t @ '' at '' @ df_format df ''p'' t)])) runs) (\<lambda>rows.
           Inr (Elem ''Dialog'' []
             [Elem ''DialogTrigger'' [] [Elem ''Button'' [] [Elem ''Eye'' [] [], Txt ''Preview'']],
              Elem ''DialogContent'' []
                [Elem ''DialogHeader'' [] [Elem ''DialogTitle'' [] [Txt ''Review Schedule Configuration'']],
                 Elem ''div'' []
                   [Elem ''div'' [] [Elem ''div'' [] [Elem ''Repeat'' [] [], Txt ''Frequency''], Elem ''p'' [] [Txt descr]],
                    Elem ''Separator'' [] [],
                    Elem ''div'' []
                      [Elem ''div'' [] [Elem ''Calendar'' [] [], Txt ''Next Runs''],
                       Elem ''div'' [] (if length runs > 0 then rows
                          else [Elem ''div'' [] [Elem ''AlertCircle'' [] [], Txt ''Complete the form to see upcoming runs'']])]]]]))))"

definition ScheduleSettings ::
  "tz \<Rightarrow> datefns \<Rightarrow> (string \<Rightarrow> date) \<Rightarrow> string option \<Rightarrow> int \<Rightarrow> schedule_form \<Rightarrow> view js" where
  "ScheduleSettings tz df iso_parse abbreviation now v =
     js_bind (SchedulePreviewModal df iso_parse v) (\<lambda>modal.
       Inr (Elem ''form'' [(''onSubmit'', ''onSubmit'')]
         [Elem ''div'' [] [ScheduleForm tz df iso_parse abbreviation now v],
          Elem ''div'' []
            [modal,
             Elem ''Button'' [(''type'', ''button''), (''onClick'', ''handleReset'')] [Txt ''Reset''],
             Elem ''Button'' [(''type'', ''submit'')] [Txt ''Save'']]]))"

section \<open>Dates and times\<close>

lemma combine_clock:
  assumes "local_exists tz (Day (LocalTime tz d) * msPerDay)" and "h < 24" "m < 60"
  shows "combineDateAndTime tz d (clock h m) =
    Some (UTC tz (Day (LocalTime tz d) * msPerDay + MakeTime (int h) (int m) 0 0))"
proof -
  let ?l = "Day (LocalTime tz d) * msPerDay"
  have "LocalTime tz (setHours4 tz d 0 0 0 0) = ?l"
    using assms(1) by (simp add: setHours4_def local_exists_def MakeTime_def)
  moreover have "Day ?l = Day (LocalTime tz d)" "?l div 1000 mod 60 = 0" "?l mod 1000 = 0"
    using local_parts [of 0 0 "Day (LocalTime tz d)"] by (simp_all add: MakeTime_def)
  ultimately show ?thesis
    by (simp add: combineDateAndTime_def clock_split setHours2_def Let_def)
qed

lemma getNextHalfHour_clock:
  "getNextHalfHour tz d =
     (let h = getHours tz d; m = getMinutes tz d
      in if m = 0 then clock h 0 else if m \<le> 30 then clock h 30 else clock ((h + 1) mod 24) 0)"
proof -
  have "pad2 (js_of_nat 0) = ''00''" by code_simp
  moreover have "(getMinutes tz d + 29) div 30 = (if getMinutes tz d = 0 then 0 else if getMinutes tz d \<le> 30 then 1 else 2)"
    using getMinutes_lt [of tz d] by auto
  ultimately show ?thesis by (auto simp: getNextHalfHour_def clock_def Let_def)
qed

text \<open>In a zone without clock changes, the schedule that the form proposes when it is opened
  passes its own validation exactly when the clock does not show a full or half hour and it is not
  after half past eleven at night.\<close>

lemma default_schedule_accepted:
  "scheduleFormSchema (fixed_tz off) now (schedule_default (fixed_tz off) now) = [] \<longleftrightarrow>
     getMinutes (fixed_tz off) now \<noteq> 0 \<and> getMinutes (fixed_tz off) now \<noteq> 30 \<and>
     \<not> (getHours (fixed_tz off) now = 23 \<and> getMinutes (fixed_tz off) now > 30)"
proof -
  let ?tz = "fixed_tz off"
  let ?h = "getHours ?tz now" and ?m = "getMinutes ?tz now" and ?d = "Day (now + off)"
  obtain r where r: "0 \<le> r" "r < 60000" "now + off = ?d * msPerDay + MakeTime (int ?h) (int ?m) 0 0 + r"
    using local_decompose [of ?tz now] by auto
  have hm: "?h < 24" "?m < 60" by (rule getHours_lt, rule getMinutes_lt)
  have comb: "combineDateAndTime ?tz now (clock a b) = Some (?d * msPerDay + MakeTime (int a) (int b) 0 0 - off)"
    if "a < 24" "b < 60" for a b
    using combine_clock [of ?tz now a b] that by simp
  have le: "date_le (combineDateAndTime ?tz now (clock a b)) (Some now) \<longleftrightarrow>
      int a * 3600000 + int b * 60000 \<le> int ?h * 3600000 + int ?m * 60000 + r" if "a < 24" "b < 60" for a b
    using r(3) comb [OF that] by (simp add: date_le_def MakeTime_def) linarith
  have "scheduleFormSchema ?tz now (schedule_default ?tz now) = [] \<longleftrightarrow>
      \<not> date_le (combineDateAndTime ?tz now (getNextHalfHour ?tz now)) (Some now)"
    by (simp add: scheduleFormSchema_def schedule_default_def Let_def show_if_def)
  also have "\<dots> \<longleftrightarrow> ?m \<noteq> 0 \<and> ?m \<noteq> 30 \<and> \<not> (?h = 23 \<and> ?m > 30)"
  proof (cases "?m \<le> 30")
    case True
    then show ?thesis using hm r(1,2)
      by (auto simp: getNextHalfHour_clock Let_def le)
  next
    case False
    then have "(?h + 1) mod 24 < 24" by simp
    with False hm r(1,2) show ?thesis
      by (cases "?h = 23") (auto simp: getNextHalfHour_clock Let_def le)
  qed
  finally show ?thesis .
qed

section \<open>Round trips\<close>

lemma show_if_Nil: "show_if b x = [] \<longleftrightarrow> \<not> b"
  by (simp add: show_if_def)

lemma date_le_Some: "date_le (Some a) (Some b) \<longleftrightarrow> a \<le> b"
  by (simp add: date_le_def)

lemma parse_option_pad2 [simp]: "parse_option (pad2 (js_of_nat n)) = n"
  by (simp add: parse_option_def)

lemma hour24_parts:
  "hour24 (tp_hour (dateTo12HourParts tz t)) (tp_period (dateTo12HourParts tz t)) = getHours tz t"
proof -
  let ?h = "getHours tz t"
  have "?h < 24" by (rule getHours_lt)
  moreover have "?h mod 12 = (if ?h < 12 then ?h else ?h - 12)" if "?h < 24"
    using that by (simp add: mod_if)
  ultimately show ?thesis
    by (auto simp: dateTo12HourParts_def hour24_def Let_def split: if_splits)
qed

lemma tp_hour_offered: "tp_hour (dateTo12HourParts tz p) \<in> set HOUR_OPTIONS"
proof -
  define k where "k = getHours tz p mod 12"
  define j where "j = (if k = 0 then 11 else k - 1)"
  have "k < 12" by (simp add: k_def)
  then have j: "j \<in> {0..<12}" "(if k = 0 then 12 else k) = j + 1" by (auto simp: j_def)
  have "tp_hour (dateTo12HourParts tz p) = pad2 (js_of_nat (j + 1))"
    unfolding j(2) [symmetric] by (simp add: dateTo12HourParts_def Let_def flip: k_def)
  moreover have "pad2 (js_of_nat (j + 1)) \<in> (\<lambda>i. pad2 (js_of_nat (i + 1))) ` {0..<12}"
    using j(1) by (rule imageI)
  ultimately show ?thesis by (simp only: HOUR_OPTIONS_def set_map set_upt)
qed

lemma tp_period_offered: "tp_period (dateTo12HourParts tz p) \<in> set PERIOD_OPTIONS"
  by (simp add: dateTo12HourParts_def Let_def PERIOD_OPTIONS_def)

lemma tp_minute_parts: "tp_minute (dateTo12HourParts tz p) = pad2 (js_of_nat (getMinutes tz p))"
  by (simp add: dateTo12HourParts_def Let_def)

text \<open>The twelve-hour parts that the time picker shows for a time convert back to exactly
  that time, so choosing the shown hour, minute or period again leaves the time unchanged; the time
  is required to exist on the day of the display.\<close>

lemma time_parts_roundtrip:
  assumes "df_parse df (clock h m) ''HH:mm'' now = Some p" and "getHours tz p = h" and "getMinutes tz p = m"
  shows "let tp = getTimePartsFromValue tz df now (clock h m) off
         in handleTimePartChange tp PartHour (tp_hour tp) = clock h m \<and>
            handleTimePartChange tp PartMinute (tp_minute tp) = clock h m \<and>
            handleTimePartChange tp PartPeriod (tp_period tp) = clock h m \<and>
            tp_hour tp \<in> set HOUR_OPTIONS \<and> tp_period tp \<in> set PERIOD_OPTIONS"
proof -
  have "clock h m \<noteq> []" by (simp add: clock_def)
  then have tp: "getTimePartsFromValue tz df now (clock h m) off = dateTo12HourParts tz p"
    using assms(1) by (simp add: getTimePartsFromValue_def)
  have "handleTimePartChange (dateTo12HourParts tz p) f (case f of PartHour \<Rightarrow> tp_hour (dateTo12HourParts tz p)
      | PartMinute \<Rightarrow> tp_minute (dateTo12HourParts tz p) | PartPeriod \<Rightarrow> tp_period (dateTo12HourParts tz p))
      = clock h m" for f
    using assms(2,3)
    by (cases f) (simp_all add: handleTimePartChange_def hour24_parts tp_minute_parts clock_def Let_def)
  from this [of PartHour] this [of PartMinute] this [of PartPeriod] show ?thesis
    by (simp only: tp Let_def time_part.case tp_hour_offered tp_period_offered simp_thms)
qed

text \<open>What is relied on of the date library and of ISO texts for saved schedules.\<close>

definition schedule_doc :: "tz \<Rightarrow> datefns \<Rightarrow> (int \<Rightarrow> string) \<Rightarrow> (string \<Rightarrow> date) \<Rightarrow> bool" where
  "schedule_doc tz df iso_text iso_parse \<longleftrightarrow>
     (\<forall>t. iso_parse (iso_text t) = Some t) \<and>
     (\<forall>t. df_format df ''HH:mm'' t = clock (getHours tz t) (getMinutes tz t)) \<and>
     (\<forall>d h m. h < 24 \<longrightarrow> m < 60 \<longrightarrow>
        iso_parse (base_text df d (clock h m)) =
          Some (UTC tz (Day (LocalTime tz d) * msPerDay + MakeTime (int h) (int m) 0 0)))"

text \<open>The schedule form keeps the contract of a settings form. What it stores depends on the current time,
  which validation compares with.\<close>

definition schedule_stored :: "tz \<Rightarrow> (int \<Rightarrow> string) \<Rightarrow> int \<Rightarrow> schedule_form \<Rightarrow> config option" where
  "schedule_stored tz iso_text now v =
     (if scheduleFormSchema tz now v \<noteq> [] then None
      else map_option (schedule_config iso_text (scheduleType v)) (combineDateAndTime tz (scheduledDate v) (scheduledTime v)))"

interpretation schedule_settings: settings_form
  "schedule_stored tz iso_text now" "\<lambda>v s. fst (schedule_onSubmit tz iso_text now v s)" for tz iso_text now
  by unfold_locales (simp add: schedule_onSubmit_def schedule_stored_def write_config_def split: list.splits option.splits)

lemma schedule_of_text_text [simp]: "schedule_of_text (schedule_text ty) = Some ty"
  by (cases ty) (simp_all add: schedule_of_text_def)

text \<open>Claim C30: a saved schedule comes back as it was saved: opening the form again shows the same
  type, the saved date and the same time, combining them gives the saved moment, which lies in the
  future, and the first run that the preview announces is that moment.\<close>

theorem schedule_save_roundtrip:
  assumes doc: "schedule_doc tz df iso_text iso_parse" and hm: "h < 24" "m < 60"
    and v: "scheduledTime v = clock h m" "scheduleFormSchema tz now v = []"
    and ex: "local_exists tz (Day (LocalTime tz (scheduledDate v)) * msPerDay)"
      "local_exists tz (Day (LocalTime tz (scheduledDate v)) * msPerDay + MakeTime (int h) (int m) 0 0)"
  shows "\<exists>t. combineDateAndTime tz (scheduledDate v) (scheduledTime v) = Some t \<and> now < t \<and>
    schedule_values tz df iso_parse now (Some (schedule_config iso_text (scheduleType v) t)) =
      Inr \<lparr>scheduleType = scheduleType v, scheduledDate = t, scheduledTime = clock h m\<rparr> \<and>
    combineDateAndTime tz t (clock h m) = Some t \<and>
    (scheduleType v = ONCE \<longrightarrow>
       getNextRuns df iso_parse (scheduleType v) (Some (scheduledDate v)) (scheduledTime v) = [Some t])"
proof -
  let ?d = "Day (LocalTime tz (scheduledDate v))"
  let ?l = "?d * msPerDay + MakeTime (int h) (int m) 0 0"
  let ?t = "UTC tz ?l"
  have c: "combineDateAndTime tz (scheduledDate v) (clock h m) = Some ?t"
    using ex(1) hm by (rule combine_clock)
  then have future: "now < ?t"
    using v(2) unfolding scheduleFormSchema_def v(1) c Let_def append_is_Nil_conv show_if_Nil date_le_Some
    by (simp only: not_le)
  have lt: "LocalTime tz ?t = ?l" using ex(2) by (simp add: local_exists_def)
  have parts: "Day ?l = ?d" "getHours tz ?t = h" "getMinutes tz ?t = m"
    using hm unfolding getHours_def getMinutes_def lt by (simp_all only: local_parts nat_int of_nat_0_le_iff of_nat_less_iff of_nat_numeral flip: of_nat_less_iff [where 'a = int])
  then have again: "combineDateAndTime tz ?t (clock h m) = Some ?t"
    using combine_clock [of tz ?t h m] ex(1) hm by (simp add: lt)
  have vals: "schedule_values tz df iso_parse now (Some (schedule_config iso_text (scheduleType v) ?t)) =
      Inr \<lparr>scheduleType = scheduleType v, scheduledDate = ?t, scheduledTime = clock h m\<rparr>"
    using doc by (simp add: schedule_values_def schedule_config_def schedule_doc_def parts)
  have "clock h m \<noteq> []" by (simp add: clock_def)
  then have "getNextRuns df iso_parse ONCE (Some (scheduledDate v)) (clock h m) = [Some ?t]"
    using doc hm by (simp add: getNextRuns_def schedule_doc_def)
  then show ?thesis
    unfolding v(1) by (intro exI [of _ ?t] conjI impI c future vals again) simp
qed

text \<open>A concrete date library for a zone of fixed offset.\<close>

definition demo_df :: "int \<Rightarrow> datefns" where
  "demo_df off =
     \<lparr>df_format = (\<lambda>p t. if p = ''HH:mm'' then clock (getHours (fixed_tz off) t) (getMinutes (fixed_tz off) t)
                          else show_int (Day (t + off))),
      df_parse = (\<lambda>v p now. combineDateAndTime (fixed_tz off) now v),
      df_addMinutes = (\<lambda>t n. t + 60000 * int n), df_setMinutes = (\<lambda>t n. t), df_setHours = (\<lambda>t n. t),
      df_isSameDay = (\<lambda>a b. Day (a + off) = Day (b + off)), df_addDays = (\<lambda>t n. t + int n * msPerDay),
      df_addWeeks = (\<lambda>t n. t + int n * 7 * msPerDay), df_addMonths = (\<lambda>t n. t + int n * 30 * msPerDay)\<rparr>"

definition demo_iso :: "int \<Rightarrow> string" where
  "demo_iso t = ''Z'' @ show_int t"

definition demo_iso_parse :: "int \<Rightarrow> string \<Rightarrow> date" where
  "demo_iso_parse off s =
     (if take 1 s = ''Z'' then read_int (drop 1 s)
      else (case js_split (CHR ''T'') s of
              [d, tm] \<Rightarrow> (case read_int d of None \<Rightarrow> None
                          | Some n \<Rightarrow> combineDateAndTime (fixed_tz off) (n * msPerDay - off) tm)
            | _ \<Rightarrow> None))"

lemma digit_not_letter:
  assumes "d < 10" shows "digit_char d \<noteq> CHR ''T''" "digit_char d \<noteq> CHR ''Z''"
  using assms by (auto simp: digit_char_def dest!: arg_cong [of _ _ "of_char :: char \<Rightarrow> nat"])

lemma show_int_no_letter: "CHR ''T'' \<notin> set (show_int t)" "CHR ''Z'' \<notin> set (show_int t)"
  using js_of_nat_digits [of _ "nat \<bar>t\<bar>"] digit_not_letter by (auto simp: show_int_def) metis+

lemma clock_no_letter: "CHR ''T'' \<notin> set (clock h m)"
  using pad2_chars [of "CHR ''T''"] digit_not_letter(1) by (auto simp: clock_def) metis+

lemma demo_iso_base:
  "demo_iso_parse off (base_text (demo_df off) d (clock h m)) =
     combineDateAndTime (fixed_tz off) (Day (d + off) * msPerDay - off) (clock h m)"
proof -
  let ?s = "show_int (Day (d + off))"
  have "take 1 (?s @ r) \<noteq> ''Z''" for r
  proof (cases ?s)
    case Nil
    then show ?thesis by (simp add: show_int_def)
  next
    case (Cons c cs)
    then show ?thesis using show_int_no_letter(2) [of "Day (d + off)"] by auto
  qed
  moreover have "js_split (CHR ''T'') (?s @ ''T'' @ clock h m) = [?s, clock h m]"
    using show_int_no_letter(1) clock_no_letter by (simp add: js_split_append js_split_plain)
  ultimately show ?thesis by (simp add: demo_iso_parse_def base_text_def demo_df_def)
qed

lemma schedule_doc_demo: "schedule_doc (fixed_tz off) (demo_df off) demo_iso (demo_iso_parse off)"
proof -
  have "Day (Day x * msPerDay) = Day x" for x by (simp add: Day_def msPerDay_def)
  then have "demo_iso_parse off (base_text (demo_df off) d (clock h m)) =
      Some (UTC (fixed_tz off) (Day (LocalTime (fixed_tz off) d) * msPerDay + MakeTime (int h) (int m) 0 0))"
    if "h < 24" "m < 60" for d h m
    using combine_clock [of "fixed_tz off" "Day (d + off) * msPerDay - off" h m] that
    by (simp add: demo_iso_base)
  moreover have "demo_iso_parse off (demo_iso t) = Some t" for t
    by (simp add: demo_iso_parse_def demo_iso_def)
  moreover have "df_format (demo_df off) ''HH:mm'' t = clock (getHours (fixed_tz off) t) (getMinutes (fixed_tz off) t)" for t
    by (simp add: demo_df_def)
  ultimately show ?thesis unfolding schedule_doc_def by blast
qed

lemma time_parts_roundtrip_example:
  "let tp = getTimePartsFromValue (fixed_tz 0) (demo_df 0) 0 (clock 14 5) 10
   in handleTimePartChange tp PartHour (tp_hour tp) = clock 14 5 \<and>
      handleTimePartChange tp PartMinute (tp_minute tp) = clock 14 5 \<and>
      handleTimePartChange tp PartPeriod (tp_period tp) = clock 14 5 \<and>
      tp_hour tp \<in> set HOUR_OPTIONS \<and> tp_period tp \<in> set PERIOD_OPTIONS"
proof (rule time_parts_roundtrip)
  show "df_parse (demo_df 0) (clock 14 5) ''HH:mm'' 0 = Some 50700000"
    using combine_clock [of "fixed_tz 0" 0 14 5] by (simp add: demo_df_def MakeTime_def Day_def)
qed (simp_all add: getHours_def getMinutes_def)

theorem schedule_save_roundtrip_witness:
  "\<exists>t. combineDateAndTime (fixed_tz 3600000) 0 (clock 14 5) = Some t \<and> 1000 < t \<and>
    schedule_values (fixed_tz 3600000) (demo_df 3600000) (demo_iso_parse 3600000) 1000
        (Some (schedule_config demo_iso ONCE t)) =
      Inr \<lparr>scheduleType = ONCE, scheduledDate = t, scheduledTime = clock 14 5\<rparr> \<and>
    combineDateAndTime (fixed_tz 3600000) t (clock 14 5) = Some t \<and>
    getNextRuns (demo_df 3600000) (demo_iso_parse 3600000) ONCE (Some 0) (clock 14 5) = [Some t]"
proof -
  let ?v = "\<lparr>scheduleType = ONCE, scheduledDate = 0, scheduledTime = clock 14 5\<rparr>"
  have "combineDateAndTime (fixed_tz 3600000) 0 (clock 14 5) = Some 47100000"
    using combine_clock [of "fixed_tz 3600000" 0 14 5] by (simp add: MakeTime_def Day_def msPerDay_def)
  moreover have "getRoundedDownDate (fixed_tz 3600000) 0 = getRoundedDownDate (fixed_tz 3600000) 1000"
    by (simp add: getRoundedDownDate_def local_midnight_def Day_def msPerDay_def)
  ultimately have "scheduleFormSchema (fixed_tz 3600000) 1000 ?v = []"
    by (simp add: scheduleFormSchema_def show_if_Nil date_le_Some)
  then show ?thesis
    using schedule_save_roundtrip [OF schedule_doc_demo, of 14 5 ?v 3600000 1000] by simp
qed

end
