(* ===== verification/Google_Calendar.thy ===== *)
theory Google_Calendar
  imports Email_Settings Js_Date
begin

text \<open>
  The settings of a node that creates a calendar event
  (\<open>components/InspectorPanel/settings/google_calendar/\<close>): the form and its validation, the schedule of
  the event, the preview, and the list of calendars that is fetched when it is opened. Whole numbers
  stand for the numbers of days and minutes. The date library (\<open>cal_format\<close>, \<open>cal_addDays\<close>,
  \<open>cal_addMinutes\<close>) and the name of the time zone are arguments.
\<close>

section \<open>Form values and validation\<close>

datatype start_type = Immediate | NextDay | CustomDelay

fun start_text :: "start_type \<Rightarrow> string" where
  "start_text Immediate = ''immediate''"
| "start_text NextDay = ''next-day''"
| "start_text CustomDelay = ''custom''"

definition start_of_text :: "string \<Rightarrow> start_type option" where
  "start_of_text s = List.find (\<lambda>t. start_text t = s) [Immediate, NextDay, CustomDelay]"

record start_timing =
  st_type :: start_type
  st_days :: "int option"
  st_time :: "string option"

record duration =
  du_isAllDay :: bool
  du_minutes :: "int option"

record event_schedule =
  es_start :: start_timing
  es_duration :: duration

record calendar_form =
  cf_calendarId :: "string option"
  cf_summary :: "string option"
  cf_description :: "string option"
  cf_location :: "string option"
  cf_schedule :: event_schedule
  cf_reminders :: "bool option"

definition MAX_SUMMARY_CHAR_COUNT :: nat where
  "MAX_SUMMARY_CHAR_COUNT = 100"

definition MAX_DESCRIPTION_CHAR_COUNT :: nat where
  "MAX_DESCRIPTION_CHAR_COUNT = 1000"

definition MAX_LOCATION_CHAR_COUNT :: nat where
  "MAX_LOCATION_CHAR_COUNT = 200"

definition start_transform :: "start_timing \<Rightarrow> start_timing" where
  "start_transform d =
     (if st_type d = Immediate then \<lparr>st_type = st_type d, st_days = None, st_time = None\<rparr>
      else if st_type d = NextDay then \<lparr>st_type = st_type d, st_days = None, st_time = st_time d\<rparr>
      else d)"

definition duration_transform :: "duration \<Rightarrow> duration" where
  "duration_transform d =
     (if du_isAllDay d then \<lparr>du_isAllDay = True, du_minutes = None\<rparr>
      else \<lparr>du_isAllDay = False, du_minutes = du_minutes d\<rparr>)"

definition eventScheduleSchema :: "event_schedule \<Rightarrow> event_schedule" where
  "eventScheduleSchema v =
     \<lparr>es_start = start_transform (es_start v), es_duration = duration_transform (es_duration v)\<rparr>"

definition max_issue :: "string \<Rightarrow> string \<Rightarrow> nat \<Rightarrow> string option \<Rightarrow> (string \<times> string) list" where
  "max_issue field name bound v =
     (case v of
        None \<Rightarrow> []
      | Some s \<Rightarrow> show_if (length s > bound) (field, name @ '' must be under '' @ js_of_nat bound @ '' characters''))"

definition calendarFormSchema :: "calendar_form \<Rightarrow> (string \<times> string) list + calendar_form" where
  "calendarFormSchema v =
     (let issues = max_issue ''summary'' ''Summary'' MAX_SUMMARY_CHAR_COUNT (cf_summary v) @
                   max_issue ''description'' ''Description'' MAX_DESCRIPTION_CHAR_COUNT (cf_description v) @
                   max_issue ''location'' ''Location'' MAX_LOCATION_CHAR_COUNT (cf_location v)
      in if issues \<noteq> [] then Inl issues else Inr (v\<lparr>cf_schedule := eventScheduleSchema (cf_schedule v)\<rparr>))"

definition calendar_default :: calendar_form where
  "calendar_default =
     \<lparr>cf_calendarId = None, cf_summary = Some [], cf_description = Some [], cf_location = Some [],
      cf_schedule = \<lparr>es_start = \<lparr>st_type = Immediate, st_days = None, st_time = None\<rparr>,
                     es_duration = \<lparr>du_isAllDay = False, du_minutes = Some 60\<rparr>\<rparr>,
      cf_reminders = Some True\<rparr>"

section \<open>Configuration of the node\<close>

text \<open>The configuration object that is stored, and the form values that are read from one; a key that
  is absent and a key that is \<open>undefined\<close> are read alike. \<open>None\<close> is a configuration that is not of
  this form.\<close>

definition opt_js :: "('a \<Rightarrow> jsval) \<Rightarrow> 'a option \<Rightarrow> jsval" where
  "opt_js f x = (case x of None \<Rightarrow> JUndefined | Some v \<Rightarrow> f v)"

definition js_int :: "int \<Rightarrow> jsval" where
  "js_int n = JNum (of_int n)"

definition schedule_fields :: "event_schedule \<Rightarrow> (string \<times> jsval) list" where
  "schedule_fields es =
     [(''start'', JObj [(''type'', JStr (start_text (st_type (es_start es)))),
                        (''days'', opt_js js_int (st_days (es_start es))),
                        (''time'', opt_js JStr (st_time (es_start es)))]),
      (''duration'', JObj [(''isAllDay'', JBool (du_isAllDay (es_duration es))),
                           (''minutes'', opt_js js_int (du_minutes (es_duration es)))])]"

definition calendar_fields :: "calendar_form \<Rightarrow> (string \<times> jsval) list \<Rightarrow> config" where
  "calendar_fields v extra =
     [(''calendarId'', opt_js JStr (cf_calendarId v)), (''summary'', opt_js JStr (cf_summary v)),
      (''description'', opt_js JStr (cf_description v)), (''location'', opt_js JStr (cf_location v)),
      (''eventSchedule'', JObj (schedule_fields (cf_schedule v) @ extra)),
      (''reminders'', opt_js JBool (cf_reminders v))]"

definition calendar_config :: "string \<Rightarrow> calendar_form \<Rightarrow> config" where
  "calendar_config timeZone v = calendar_fields v [(''timeZone'', JStr timeZone)]"

definition opt_field :: "(jsval \<Rightarrow> 'a option) \<Rightarrow> (string \<times> jsval) list \<Rightarrow> string \<Rightarrow> 'a option option" where
  "opt_field f fs k =
     (case map_of fs k of None \<Rightarrow> Some None | Some JUndefined \<Rightarrow> Some None | Some v \<Rightarrow> map_option Some (f v))"

definition to_str :: "jsval \<Rightarrow> string option" where
  "to_str v = (case v of JStr s \<Rightarrow> Some s | _ \<Rightarrow> None)"

definition to_bool :: "jsval \<Rightarrow> bool option" where
  "to_bool v = (case v of JBool b \<Rightarrow> Some b | _ \<Rightarrow> None)"

definition to_int :: "jsval \<Rightarrow> int option" where
  "to_int v = (case v of JNum x \<Rightarrow> if of_int \<lfloor>x\<rfloor> = x then Some \<lfloor>x\<rfloor> else None | _ \<Rightarrow> None)"

definition read_start :: "jsval option \<Rightarrow> start_timing option" where
  "read_start v =
     (case v of Some (JObj fs) \<Rightarrow>
        (case (opt_field to_str fs ''type'', opt_field to_int fs ''days'', opt_field to_str fs ''time'') of
           (Some (Some t), Some d, Some tm) \<Rightarrow>
             map_option (\<lambda>ty. \<lparr>st_type = ty, st_days = d, st_time = tm\<rparr>) (start_of_text t)
         | _ \<Rightarrow> None)
      | _ \<Rightarrow> None)"

definition read_duration :: "jsval option \<Rightarrow> duration option" where
  "read_duration v =
     (case v of Some (JObj fs) \<Rightarrow>
        (case (opt_field to_bool fs ''isAllDay'', opt_field to_int fs ''minutes'') of
           (Some (Some b), Some m) \<Rightarrow> Some \<lparr>du_isAllDay = b, du_minutes = m\<rparr>
         | _ \<Rightarrow> None)
      | _ \<Rightarrow> None)"

definition read_schedule :: "jsval option \<Rightarrow> event_schedule option" where
  "read_schedule v =
     (case v of Some (JObj fs) \<Rightarrow>
        (case (read_start (map_of fs ''start''), read_duration (map_of fs ''duration'')) of
           (Some s, Some d) \<Rightarrow> Some \<lparr>es_start = s, es_duration = d\<rparr>
         | _ \<Rightarrow> None)
      | _ \<Rightarrow> None)"

definition calendar_defaults :: "config \<Rightarrow> calendar_form option" where
  "calendar_defaults c =
     (if length c = 0 then Some calendar_default
      else (case (opt_field to_str c ''calendarId'', opt_field to_str c ''summary'', opt_field to_str c ''description'',
                  opt_field to_str c ''location'', read_schedule (map_of c ''eventSchedule''), opt_field to_bool c ''reminders'') of
              (Some i, Some s, Some d, Some l, Some es, Some r) \<Rightarrow>
                Some \<lparr>cf_calendarId = i, cf_summary = s, cf_description = d, cf_location = l,
                      cf_schedule = es, cf_reminders = r\<rparr>
            | _ \<Rightarrow> None))"

definition calendar_onSubmit :: "string \<Rightarrow> calendar_form \<Rightarrow> canvas_state \<Rightarrow> canvas_state \<times> toast list" where
  "calendar_onSubmit timeZone v s =
     (case calendarFormSchema v of
        Inr d \<Rightarrow>
          (case getSelectedNode (cv_store s) of
             None \<Rightarrow> (s, [])
           | Some n \<Rightarrow> (write_config (calendar_config timeZone d) s,
                        [ToastSuccess ''Calendar event settings saved successfully'']))
      | Inl errors \<Rightarrow>
          (s, concat (map (\<lambda>field. opt_list (map_option ToastError (map_of errors field)))
                [''calendarId'', ''summary'', ''description'', ''location'', ''eventSchedule'', ''reminders''])))"

definition calendar_handleReset :: "canvas_state \<Rightarrow> calendar_form \<times> canvas_state \<times> toast list" where
  "calendar_handleReset s =
     (calendar_default,
      (case getSelectedNode (cv_store s) of None \<Rightarrow> s | Some n \<Rightarrow> write_config (calendar_fields calendar_default []) s),
      [ToastInfo ''Calendar settings reset''])"

section \<open>Schedule of the event\<close>

definition PRESET_LENGTH_DURATIONS :: "(int \<times> string) list" where
  "PRESET_LENGTH_DURATIONS =
     [(15, ''15 minutes''), (30, ''30 minutes''), (60, ''1 hour''), (120, ''2 hours''), (240, ''4 hours''),
      (480, ''8 hours''), (720, ''12 hours'')]"

definition handleStartChange :: "(start_timing \<Rightarrow> start_timing) \<Rightarrow> event_schedule \<Rightarrow> event_schedule" where
  "handleStartChange updates v = v\<lparr>es_start := updates (es_start v)\<rparr>"

definition handleDurationChange :: "(duration \<Rightarrow> duration) \<Rightarrow> event_schedule \<Rightarrow> event_schedule" where
  "handleDurationChange updates v = v\<lparr>es_duration := updates (es_duration v)\<rparr>"

text \<open>\<open>parseInt\<close> of decimal text: leading white space, a sign, and the digits before the first other
  character; \<open>None\<close> is \<open>NaN\<close>.\<close>

definition js_parseInt :: "string \<Rightarrow> int option" where
  "js_parseInt s =
     (let t = dropWhile js_is_ws s;
          neg = (take 1 t = ''-'');
          r = (if take 1 t = ''-'' \<or> take 1 t = ''+'' then drop 1 t else t)
      in case js_digits (takeWhile (\<lambda>c. char_digit c \<noteq> None) r) of
           None \<Rightarrow> None
         | Some n \<Rightarrow> Some (if neg then - int n else int n))"

definition days_input :: "string \<Rightarrow> int" where
  "days_input txt = (case js_parseInt txt of None \<Rightarrow> 1 | Some n \<Rightarrow> if n = 0 then 1 else n)"

definition minutes_input :: "string \<Rightarrow> event_schedule \<Rightarrow> event_schedule" where
  "minutes_input minutesStr v =
     (case js_number minutesStr of
        None \<Rightarrow> v
      | Some minutes \<Rightarrow>
          (case List.find (\<lambda>p. fst p = minutes) PRESET_LENGTH_DURATIONS of
             None \<Rightarrow> v
           | Some preset \<Rightarrow> handleDurationChange (\<lambda>d. d\<lparr>du_isAllDay := False, du_minutes := Some (fst preset)\<rparr>) v))"

datatype schedule_input =
  SetType start_type | SetDays string | SetTime string | SetAllDay bool | SetMinutes string

fun schedule_change :: "schedule_input \<Rightarrow> event_schedule \<Rightarrow> event_schedule" where
  "schedule_change (SetType ty) v = handleStartChange (\<lambda>s. s\<lparr>st_type := ty\<rparr>) v"
| "schedule_change (SetDays txt) v = handleStartChange (\<lambda>s. s\<lparr>st_days := Some (days_input txt)\<rparr>) v"
| "schedule_change (SetTime txt) v = handleStartChange (\<lambda>s. s\<lparr>st_time := Some txt\<rparr>) v"
| "schedule_change (SetAllDay b) v = handleDurationChange (\<lambda>d. d\<lparr>du_isAllDay := b\<rparr>) v"
| "schedule_change (SetMinutes txt) v = minutes_input txt v"

definition EventSchedule :: "event_schedule \<Rightarrow> view" where
  "EventSchedule v =
     (let st = es_start v; du = es_duration v
      in Elem ''div'' [] [Elem ''Card'' [] [Elem ''CardContent'' []
        ([Elem ''div'' []
           ([Elem ''div'' []
               [Elem ''Label'' [] [Txt ''When to schedule''],
                Elem ''Select'' [(''value'', start_text (st_type st)), (''onValueChange'', ''SetType'')]
                  [Elem ''SelectTrigger'' [] [Elem ''SelectValue'' [] []],
                   Elem ''SelectContent'' []
                     [Elem ''SelectItem'' [(''value'', ''immediate'')] [Txt ''Right away''],
                      Elem ''SelectItem'' [(''value'', ''next-day'')] [Txt ''Tomorrow''],
                      Elem ''SelectItem'' [(''value'', ''custom'')] [Txt ''Custom delay'']]]]] @
            show_if (st_type st = CustomDelay)
              (Elem ''div'' []
                 [Elem ''Label'' [] [Txt ''Days''],
                  Elem ''Input'' [(''type'', ''number''), (''min'', ''1''), (''max'', ''30''), (''aria-label'', ''Days to delay''),
                    (''value'', show_int (case st_days st of None \<Rightarrow> 1 | Some n \<Rightarrow> if n = 0 then 1 else n)),
                    (''onChange'', ''SetDays'')] []]))] @
         show_if (st_type st \<noteq> Immediate)
           (Elem ''div'' []
              [Elem ''Label'' [] [Txt ''At what time?''],
               Elem ''Input'' [(''type'', ''time''),
                 (''value'', case truthy_str (st_time st) of None \<Rightarrow> ''14:00'' | Some t \<Rightarrow> t), (''onChange'', ''SetTime'')] []]) @
         [Elem ''div'' []
           ([Elem ''div'' []
               [Elem ''Switch'' [(''checked'', js_bool (du_isAllDay du)), (''onCheckedChange'', ''SetAllDay'')] [],
                Elem ''span'' [] [Txt (if du_isAllDay du then ''All day event'' else ''Timed event'')]]] @
            show_if (\<not> du_isAllDay du)
              (Elem ''div'' []
                 [Elem ''Label'' [] [Txt ''Event duration''],
                  Elem ''Select'' (opt_list (map_option (\<lambda>m. (''value'', show_int m)) (du_minutes du)) @ [(''onValueChange'', ''SetMinutes'')])
                    [Elem ''SelectTrigger'' [] [Elem ''SelectValue'' [] []],
                     Elem ''SelectContent'' []
                       (map (\<lambda>p. Elem ''SelectItem'' [(''key'', show_int (fst p)), (''value'', show_int (fst p))] [Txt (snd p)])
                          PRESET_LENGTH_DURATIONS)]]))])]])"

section \<open>Preview\<close>

record calfns =
  cal_format :: "string \<Rightarrow> int \<Rightarrow> string"
  cal_addDays :: "int \<Rightarrow> int \<Rightarrow> int"
  cal_addMinutes :: "int \<Rightarrow> int \<Rightarrow> int"

definition start_date :: "tz \<Rightarrow> calfns \<Rightarrow> int \<Rightarrow> start_timing \<Rightarrow> date" where
  "start_date tz cal now st =
     (let d = (case st_days st of None \<Rightarrow> now | Some n \<Rightarrow> if n = 0 then now else cal_addDays cal now n)
      in case truthy_str (st_time st) of
           None \<Rightarrow> Some d
         | Some t \<Rightarrow>
             (case map js_number (js_split (CHR '':'') t) of
                Some h # Some m # _ \<Rightarrow> Some (setHours4 tz d h m 0 0)
              | _ \<Rightarrow> None))"

definition calculateEventTimes :: "tz \<Rightarrow> calfns \<Rightarrow> int \<Rightarrow> event_schedule \<Rightarrow> date \<times> date option" where
  "calculateEventTimes tz cal now es =
     (let startDate = start_date tz cal now (es_start es)
      in (startDate,
          if du_isAllDay (es_duration es) then None
          else (case du_minutes (es_duration es) of
                  None \<Rightarrow> None
                | Some m \<Rightarrow> if m = 0 then None
                            else Some (map_option (\<lambda>t. cal_addMinutes cal t m) startDate))))"

definition formatDateTime :: "calfns \<Rightarrow> event_schedule \<Rightarrow> date \<Rightarrow> string js" where
  "formatDateTime cal es d =
     (case d of
        None \<Rightarrow> Inl (ErrorMsg ''Invalid time value'')
      | Some t \<Rightarrow> Inr (cal_format cal (if du_isAllDay (es_duration es) then ''PPP'' else ''PPP p'') t))"

definition CalendarPreview :: "tz \<Rightarrow> calfns \<Rightarrow> int \<Rightarrow> calendar_form \<Rightarrow> view js" where
  "CalendarPreview tz cal now v =
     (let es = cf_schedule v
      in case calculateEventTimes tz cal now es of (startDate, endDate) \<Rightarrow>
         js_bind (formatDateTime cal es startDate) (\<lambda>start.
         js_bind (case endDate of None \<Rightarrow> Inr [] | Some d \<Rightarrow> js_bind (formatDateTime cal es d) (\<lambda>t. Inr [Elem ''div'' [] [Txt (''until '' @ t)]])) (\<lambda>until.
           Inr (Elem ''Dialog'' []
             [Elem ''DialogTrigger'' [] [Elem ''Button'' [] [Elem ''Eye'' [] [], Txt ''Preview Event'']],
              Elem ''DialogContent'' []
                [Elem ''div'' []
                   [Elem ''DialogHeader'' []
                      [Elem ''DialogTitle'' [] [Txt ''Calendar Event Preview''],
                       Elem ''DialogDescription'' []
                         [Txt ''This is a preview of the calendar event that will be created the next time the flow is run.'']],
                    Elem ''div'' []
                      (opt_list (map_option (\<lambda>s. Elem ''div'' [] [Txt s]) (truthy_str (cf_summary v))) @
                       [Elem ''div'' [] [Elem ''CalendarIcon'' [] [], Elem ''div'' [] (Elem ''div'' [] [Txt start] # until)]] @
                       opt_list (map_option (\<lambda>s. Elem ''div'' [] [Elem ''MapPinIcon'' [] [], Elem ''span'' [] [Txt s]]) (truthy_str (cf_location v))) @
                       show_if (cf_reminders v = Some True)
                         (Elem ''div'' [] [Elem ''BellIcon'' [] [], Elem ''span'' [] [Txt ''Default reminders enabled'']]) @
                       opt_list (map_option (\<lambda>s. Elem ''div'' [] [Txt s]) (truthy_str (cf_description v))))]]]))))"

section \<open>List of calendars\<close>

text \<open>The state of the selector; \<open>sel_sent\<close> counts the requests that it has sent. \<open>items\<close> of an answer
  may be absent. An effect runs after a render in which \<open>isOpen\<close> or \<open>isLoading\<close> has changed.\<close>

record selector_state =
  sel_calendars :: "calendar_dto list option option"
  sel_isLoading :: bool
  sel_isOpen :: bool
  sel_sent :: nat

definition selector_init :: selector_state where
  "selector_init = \<lparr>sel_calendars = None, sel_isLoading = False, sel_isOpen = False, sel_sent = 0\<rparr>"

definition selector_effect :: "selector_state \<Rightarrow> selector_state \<Rightarrow> selector_state" where
  "selector_effect old s =
     (if (sel_isOpen old, sel_isLoading old) = (sel_isOpen s, sel_isLoading s) then s
      else if sel_isOpen s \<and> sel_calendars s = None \<and> \<not> sel_isLoading s
      then s\<lparr>sel_isLoading := True, sel_sent := sel_sent s + 1\<rparr>
      else s)"

datatype selector_event = SelOpen bool | SelAnswer "js_error + calendar_dto list option"

fun selector_step :: "selector_event \<Rightarrow> selector_state \<Rightarrow> selector_state" where
  "selector_step (SelOpen b) s = selector_effect s (s\<lparr>sel_isOpen := b\<rparr>)"
| "selector_step (SelAnswer r) s =
     (if \<not> sel_isLoading s then s
      else let s1 = (case r of Inl e \<Rightarrow> s | Inr items \<Rightarrow> s\<lparr>sel_calendars := Some items\<rparr>)
           in selector_effect s1 (s1\<lparr>sel_isLoading := False\<rparr>))"

definition selector_items :: "selector_state \<Rightarrow> calendar_dto list" where
  "selector_items s = (case sel_calendars s of Some (Some cs) \<Rightarrow> cs | _ \<Rightarrow> [])"

definition displayValue :: "selector_state \<Rightarrow> string option \<Rightarrow> string" where
  "displayValue s v =
     (let selectedCalendar = (case v of None \<Rightarrow> None | Some i \<Rightarrow> List.find (\<lambda>c. cal_id c = i) (selector_items s));
          summary = truthy_str (map_option cal_summary selectedCalendar)
      in case summary of Some t \<Rightarrow> t | None \<Rightarrow> (case truthy_str v of Some i \<Rightarrow> i | None \<Rightarrow> ''Select a calendar''))"

definition CalendarSelector :: "selector_state \<Rightarrow> string option \<Rightarrow> view" where
  "CalendarSelector s v =
     Elem ''Select'' (opt_list (map_option (Pair ''value'') v) @
         [(''onValueChange'', ''onChange''), (''onOpenChange'', ''setIsOpen''), (''disabled'', js_bool (sel_isLoading s))])
       [Elem ''SelectTrigger'' []
          [Elem ''div'' []
             [Elem (if sel_isLoading s then ''Loader2'' else ''CalendarIcon'') [] [],
              Elem ''SelectValue'' [(''placeholder'', ''Select a calendar'')]
                [Txt (if sel_isLoading s then ''Loading calendars...'' else displayValue s v)]]],
        Elem ''SelectContent'' []
          (if sel_isLoading s then [Elem ''div'' [] [Elem ''Loader2'' [] [], Elem ''span'' [] [Txt ''Loading calendars...'']]]
           else if selector_items s \<noteq> [] then
             map (\<lambda>c. Elem ''SelectItem'' [(''key'', cal_id c), (''value'', cal_id c)]
               [Elem ''div'' []
                  [Elem ''div'' [] (Txt (cal_summary c) # show_if (cal_primary c = Some True) (Elem ''span'' [] [Txt ''(Primary)''])),
                   Elem ''span'' [] [Txt (''ID: '' @ cal_id c)]]]) (selector_items s)
           else [Elem ''div'' [] [Txt ''No calendars found'']])]"

section \<open>The form\<close>

definition info_tip :: "string \<Rightarrow> view" where
  "info_tip t = Elem ''Tooltip'' [] [Elem ''TooltipTrigger'' [] [Elem ''InfoIcon'' [] []], Elem ''TooltipContent'' [] [Txt t]]"

definition form_message :: "(string \<times> string) list \<Rightarrow> string \<Rightarrow> view" where
  "form_message errors f = Elem ''FormMessage'' [] (opt_list (map_option Txt (map_of errors f)))"

definition text_field :: "string \<Rightarrow> string \<Rightarrow> string \<Rightarrow> string \<Rightarrow> string option \<Rightarrow> (string \<times> string) list \<Rightarrow> view" where
  "text_field tag field label placeholder v errors =
     Elem ''FormItem'' []
       [Elem ''FormLabel'' [] [Txt label],
        Elem tag ([(''name'', field), (''onChange'', ''field.onChange'')] @ opt_list (map_option (Pair ''value'') v) @ [(''placeholder'', placeholder)]) [],
        form_message errors field]"

definition schedule_card :: "string \<Rightarrow> (string \<times> string) list \<Rightarrow> calendar_form \<Rightarrow> view" where
  "schedule_card formattedTimeZone errors v =
     Elem ''Card'' [] [Elem ''CardContent'' [] [Elem ''div'' []
       [Elem ''div'' []
          [Elem ''div'' []
             [Elem ''h3'' [] [Txt ''Event Schedule''], Elem ''span'' [] [Txt ''(Required)''],
              info_tip (''We use your local timezone ('' @ formattedTimeZone @ '') for scheduling'')],
           Elem ''p'' [] [Txt ''Set when your event will take place'']],
        Elem ''FormItem'' [] [EventSchedule (cf_schedule v), form_message errors ''eventSchedule'']]]]"

definition details_card :: "selector_state \<Rightarrow> (string \<times> string) list \<Rightarrow> calendar_form \<Rightarrow> view" where
  "details_card sel errors v =
     Elem ''Card'' [] [Elem ''CardContent'' [] [Elem ''div'' []
       [Elem ''div'' []
          [Elem ''div'' [] [Elem ''h3'' [] [Txt ''Additional Details''], Elem ''span'' [] [Txt ''(Optional)'']],
           Elem ''p'' [] [Txt ''Add more information about your event'']],
        Elem ''div'' []
          [Elem ''FormItem'' []
             [Elem ''div'' [] [Elem ''FormLabel'' [] [Txt ''Calendar''], info_tip ''By default, we will use your primary calendar''],
              CalendarSelector sel (cf_calendarId v)],
           text_field ''Input'' ''summary'' ''Title'' ''Event title'' (cf_summary v) errors,
           text_field ''Textarea'' ''description'' ''Description'' ''Event description'' (cf_description v) errors,
           text_field ''Input'' ''location'' ''Location'' ''Event location'' (cf_location v) errors,
           Elem ''FormItem'' []
             [Elem ''div'' [] [Elem ''FormLabel'' [] [Txt ''Reminders''], Elem ''div'' [] [Txt ''Enable default reminders for this event'']],
              Elem ''Switch'' (opt_list (map_option (\<lambda>b. (''checked'', js_bool b)) (cf_reminders v)) @ [(''onCheckedChange'', ''field.onChange'')]) []]]]]]"

definition CalendarForm :: "string \<Rightarrow> selector_state \<Rightarrow> (string \<times> string) list \<Rightarrow> calendar_form \<Rightarrow> view" where
  "CalendarForm formattedTimeZone sel errors v =
     Elem ''form'' [(''onSubmit'', ''onSubmit'')]
       [schedule_card formattedTimeZone errors v, details_card sel errors v, FormControls ''calendar event'' False]"

definition GoogleCalendarEventSettings ::
  "tz \<Rightarrow> calfns \<Rightarrow> int \<Rightarrow> string \<Rightarrow> selector_state \<Rightarrow> (string \<times> string) list \<Rightarrow> calendar_form \<Rightarrow> view js" where
  "GoogleCalendarEventSettings tz cal now formattedTimeZone sel errors v =
     js_bind (CalendarPreview tz cal now v) (\<lambda>preview.
       Inr (Elem ''div'' [] [CalendarForm formattedTimeZone sel errors v, preview]))"

section \<open>Saving\<close>

lemma start_of_text_text [simp]: "start_of_text (start_text t) = Some t"
  by (cases t) (simp_all add: start_of_text_def)

lemma to_simps [simp]: "to_str (JStr s) = Some s" "to_bool (JBool b) = Some b" "to_int (js_int n) = Some n"
  by (simp_all add: to_str_def to_bool_def to_int_def js_int_def)

lemma opt_field_simps [simp]:
  "map_of fs k = Some (opt_js JStr s) \<Longrightarrow> opt_field to_str fs k = Some s"
  "map_of fs k = Some (opt_js JBool b) \<Longrightarrow> opt_field to_bool fs k = Some b"
  "map_of fs k = Some (opt_js js_int n) \<Longrightarrow> opt_field to_int fs k = Some n"
  "map_of fs k = Some (JStr t) \<Longrightarrow> opt_field to_str fs k = Some (Some t)"
  "map_of fs k = Some (JBool c) \<Longrightarrow> opt_field to_bool fs k = Some (Some c)"
  by (cases s; cases b; cases n; simp add: opt_field_def opt_js_def to_str_def to_bool_def to_int_def js_int_def)+

lemma calendar_defaults_config [simp]: "calendar_defaults (calendar_config tzn v) = Some v"
proof -
  have "read_schedule (Some (JObj (schedule_fields es @ extra))) = Some es" for es extra
    by (simp add: read_schedule_def schedule_fields_def read_start_def read_duration_def)
  then show ?thesis by (simp add: calendar_defaults_def calendar_config_def calendar_fields_def)
qed

lemma eventScheduleSchema_idem [simp]: "eventScheduleSchema (eventScheduleSchema es) = eventScheduleSchema es"
  by (simp add: eventScheduleSchema_def start_transform_def duration_transform_def)

lemma max_issue_Nil: "max_issue f n b v = [] \<longleftrightarrow> (case v of None \<Rightarrow> True | Some s \<Rightarrow> length s \<le> b)"
  by (auto simp: max_issue_def show_if_def split: option.splits)

lemma calendarFormSchema_accepts:
  "calendarFormSchema v = Inr d \<longleftrightarrow>
     d = v\<lparr>cf_schedule := eventScheduleSchema (cf_schedule v)\<rparr> \<and>
     (\<forall>s. cf_summary v = Some s \<longrightarrow> length s \<le> 100) \<and> (\<forall>s. cf_description v = Some s \<longrightarrow> length s \<le> 1000) \<and>
     (\<forall>s. cf_location v = Some s \<longrightarrow> length s \<le> 200)"
  by (auto simp: calendarFormSchema_def Let_def max_issue_Nil MAX_SUMMARY_CHAR_COUNT_def
      MAX_DESCRIPTION_CHAR_COUNT_def MAX_LOCATION_CHAR_COUNT_def split: option.splits)

definition calendar_accept :: "calendar_form \<Rightarrow> calendar_form option" where
  "calendar_accept v = (case calendarFormSchema v of Inl _ \<Rightarrow> None | Inr d \<Rightarrow> Some d)"

lemma calendarFormSchema_idem: "calendarFormSchema v = Inr d \<Longrightarrow> calendarFormSchema d = Inr d"
  by (auto simp: calendarFormSchema_accepts)

interpretation calendar_settings: stable_form
  "\<lambda>v. map_option (calendar_config tzn) (calendar_accept v)" "\<lambda>v s. fst (calendar_onSubmit tzn v s)"
  calendar_accept "calendar_config tzn" calendar_defaults for tzn
  by unfold_locales
    (auto simp: calendar_onSubmit_def calendar_accept_def write_config_def calendarFormSchema_idem split: sum.splits option.splits)

text \<open>Claim C32: submitting an accepted calendar form stores its values in the configuration of the selected node and of no other node; the form that is opened
  again shows exactly the stored values, and submitting them unchanged stores the same again. Stored are
  only the parts of the schedule that its type uses: no delay for an event that starts at once or on
  the next day, no time for one that starts at once, no length for one that lasts all day.\<close>

theorem calendar_submit_stable:
  assumes v: "calendarFormSchema v = Inr d"
    and sel: "getSelectedNode (cv_store s) = Some n" and d0: "cv_heap s (n_data n) = Some d0"
  shows "calendar_onSubmit tzn v s =
           (s\<lparr>cv_heap := (cv_heap s)(n_data n \<mapsto> d0\<lparr>d_config := calendar_config tzn d\<rparr>)\<rparr>,
            [ToastSuccess ''Calendar event settings saved successfully'']) \<and>
         calendar_defaults (calendar_config tzn d) = Some d \<and> calendarFormSchema d = Inr d \<and>
         (st_days (es_start (cf_schedule d)) \<noteq> None \<longrightarrow> st_type (es_start (cf_schedule d)) = CustomDelay) \<and>
         (st_time (es_start (cf_schedule d)) \<noteq> None \<longrightarrow> st_type (es_start (cf_schedule d)) \<noteq> Immediate) \<and>
         (du_minutes (es_duration (cf_schedule d)) \<noteq> None \<longrightarrow> \<not> du_isAllDay (es_duration (cf_schedule d)))"
proof -
  have d: "d = v\<lparr>cf_schedule := eventScheduleSchema (cf_schedule v)\<rparr>" and "calendarFormSchema d = Inr d"
    using v calendarFormSchema_idem [OF v] by (simp_all add: calendarFormSchema_accepts)
  moreover have "st_days (start_transform st) \<noteq> None \<longrightarrow> st_type (start_transform st) = CustomDelay"
    "st_time (start_transform st) \<noteq> None \<longrightarrow> st_type (start_transform st) \<noteq> Immediate"
    "du_minutes (duration_transform du) \<noteq> None \<longrightarrow> \<not> du_isAllDay (duration_transform du)" for st du
    by (cases "st_type st"; simp add: start_transform_def duration_transform_def)+
  ultimately show ?thesis
    using sel d0 by (simp add: calendar_onSubmit_def v write_config_def eventScheduleSchema_def)
qed

theorem calendar_submit_stable_witness:
  "\<exists>d s'. calendarFormSchema calendar_default = Inr d \<and>
     calendar_onSubmit ''Europe/Berlin'' calendar_default demo_selected =
       (s', [ToastSuccess ''Calendar event settings saved successfully'']) \<and>
     calendarFormSchema d = Inr d"
proof -
  obtain d where v: "calendarFormSchema calendar_default = Inr d"
    by (auto simp: calendarFormSchema_accepts calendar_default_def)
  obtain d0 where h: "cv_heap demo_selected (n_data demo_node) = Some d0" using demo_selected_node(2) by blast
  show ?thesis
    using calendar_submit_stable [OF v demo_selected_node(1) h, of "''Europe/Berlin''"] v by blast
qed

section \<open>Preview and inputs\<close>

lemma start_date_clock:
  assumes "h < 24" "m < 60"
  shows "start_date tz cal now \<lparr>st_type = ty, st_days = d, st_time = Some (clock h m)\<rparr> =
    Some (setHours4 tz (case d of None \<Rightarrow> now | Some n \<Rightarrow> if n = 0 then now else cal_addDays cal now n) (int h) (int m) 0 0)"
proof -
  have "clock h m \<noteq> []" by (simp add: clock_def)
  then show ?thesis using assms by (simp add: start_date_def clock_split Let_def)
qed

text \<open>The times of the preview depend on the delay, the time and the length but not on the type of
  the schedule: an event for the next day is announced for the current day at its time, and an event
  that starts at once keeps a delay and a time that were entered for another type.\<close>

lemma preview_ignores_start_type:
  assumes "h < 24" and "m < 60" and "\<not> du_isAllDay du" and "du_minutes du = Some l" and "l \<noteq> 0"
  shows "calculateEventTimes tz cal now (schedule_change (SetType ty) es) = calculateEventTimes tz cal now es \<and>
    calculateEventTimes tz cal now
      \<lparr>es_start = \<lparr>st_type = NextDay, st_days = None, st_time = Some (clock h m)\<rparr>, es_duration = du\<rparr> =
    (Some (setHours4 tz now (int h) (int m) 0 0),
     Some (Some (cal_addMinutes cal (setHours4 tz now (int h) (int m) 0 0) l)))"
proof -
  have "start_date tz cal now (es_start es\<lparr>st_type := ty\<rparr>) = start_date tz cal now (es_start es)"
    by (simp add: start_date_def)
  then show ?thesis
    using assms by (simp add: calculateEventTimes_def start_date_clock Let_def handleStartChange_def)
qed

definition demo_cal :: calfns where
  "demo_cal = \<lparr>cal_format = (\<lambda>p t. show_int t), cal_addDays = (\<lambda>t n. t + n * msPerDay),
     cal_addMinutes = (\<lambda>t n. t + n * 60000)\<rparr>"

lemma preview_ignores_start_type_example:
  "\<exists>a b. calculateEventTimes (fixed_tz 0) demo_cal 0
      \<lparr>es_start = \<lparr>st_type = NextDay, st_days = None, st_time = Some (clock 9 30)\<rparr>,
       es_duration = \<lparr>du_isAllDay = False, du_minutes = Some 60\<rparr>\<rparr> = (Some a, Some (Some b)) \<and> a < msPerDay"
  using preview_ignores_start_type [of 9 30 "\<lparr>du_isAllDay = False, du_minutes = Some 60\<rparr>" 60 "fixed_tz 0" demo_cal 0]
  by (simp add: setHours4_def MakeTime_def Day_def msPerDay_def)

definition duration_ok :: "event_schedule \<Rightarrow> bool" where
  "duration_ok es \<longleftrightarrow>
     du_minutes (es_duration es) \<in> Some ` fst ` set PRESET_LENGTH_DURATIONS \<and> st_days (es_start es) \<noteq> Some 0"

lemma minutes_input_ok:
  assumes "duration_ok es" shows "duration_ok (minutes_input txt es)"
proof -
  have "p \<in> set PRESET_LENGTH_DURATIONS" if "List.find P PRESET_LENGTH_DURATIONS = Some p" for P p
    using that unfolding find_Some_iff by (metis nth_mem)
  then show ?thesis
    using assms unfolding minutes_input_def
    by (simp add: duration_ok_def handleDurationChange_def image_image split: option.splits)
qed

interpretation event_form: machine "cf_schedule calendar_default" schedule_change duration_ok
proof
  show "duration_ok (cf_schedule calendar_default)"
    by (simp add: duration_ok_def calendar_default_def PRESET_LENGTH_DURATIONS_def)
next
  fix es e
  assume "duration_ok es"
  then show "duration_ok (schedule_change e es)"
    by (cases e) (auto simp: duration_ok_def handleStartChange_def handleDurationChange_def days_input_def
        minutes_input_ok [unfolded duration_ok_def] split: option.splits)
qed

text \<open>A form that starts from its default always has one of the offered lengths and never a delay of
  zero days, in whatever order its inputs are used.\<close>

lemma event_form_duration: "duration_ok (fold schedule_change es (cf_schedule calendar_default))"
  by (rule event_form.inv_run)

section \<open>Requests for calendars\<close>

definition selector_inv :: "selector_state \<Rightarrow> bool" where
  "selector_inv s \<longleftrightarrow>
     (sel_isLoading s \<longrightarrow> sel_calendars s = None) \<and>
     (sel_isOpen s \<and> sel_calendars s = None \<longrightarrow> sel_isLoading s)"

interpretation calendars: machine selector_init selector_step selector_inv
proof
  show "selector_inv selector_init" by (simp add: selector_inv_def selector_init_def)
next
  fix s e
  assume "selector_inv s"
  then show "selector_inv (selector_step e s)"
    by (cases e) (auto simp: selector_inv_def selector_effect_def Let_def split: sum.splits)
qed

lemma selector_done: "sel_calendars s = Some c \<Longrightarrow> \<not> sel_isLoading s \<Longrightarrow>
  sel_sent (fold selector_step es s) = sel_sent s"
proof (induction es arbitrary: s)
  case (Cons e es)
  have "sel_calendars (selector_step e s) = Some c \<and> \<not> sel_isLoading (selector_step e s) \<and>
      sel_sent (selector_step e s) = sel_sent s"
    using Cons.prems by (cases e) (auto simp: selector_effect_def)
  then show ?case using Cons.IH by simp
qed simp

lemma selector_retry:
  "fold selector_step (replicate n (SelAnswer (Inl e))) \<lparr>sel_calendars = None, sel_isLoading = True, sel_isOpen = True, sel_sent = k\<rparr> =
     \<lparr>sel_calendars = None, sel_isLoading = True, sel_isOpen = True, sel_sent = n + k\<rparr>"
  by (induction n arbitrary: k) (simp_all add: selector_effect_def)

lemma selector_retries:
  "fold selector_step (replicate n (SelAnswer (Inl e))) (selector_step (SelOpen True) selector_init) =
     \<lparr>sel_calendars = None, sel_isLoading = True, sel_isOpen = True, sel_sent = n + 1\<rparr>"
  using selector_retry [of n e 1] by (simp add: selector_effect_def selector_init_def)

text \<open>In every reachable state of the calendar list an open list without calendars is loading
  and a loading list has no calendars; after an answer no further request is ever sent; and while
  the list stays open every failed request is followed by another one at once, without bound.\<close>

lemma calendar_list_requests:
  "selector_inv (fold selector_step evs selector_init) \<and>
   (\<forall>c s. sel_calendars s = Some c \<and> \<not> sel_isLoading s \<longrightarrow> sel_sent (fold selector_step evs s) = sel_sent s) \<and>
   sel_sent (fold selector_step (SelOpen True # replicate n (SelAnswer (Inl e))) selector_init) = n + 1"
  using calendars.inv_run [of evs] selector_done selector_retries [of n e] by auto

lemma calendar_list_requests_example:
  "selector_inv (fold selector_step [SelOpen True, SelAnswer (Inr (Some [])), SelOpen False, SelOpen True] selector_init) \<and>
   sel_sent (fold selector_step [SelOpen True, SelOpen False]
     \<lparr>sel_calendars = Some None, sel_isLoading = False, sel_isOpen = False, sel_sent = 1\<rparr>) = 1"
  using calendar_list_requests [of "[SelOpen True, SelAnswer (Inr (Some [])), SelOpen False, SelOpen True]" 0 TypeError,
      THEN conjunct1]
    calendar_list_requests [of "[SelOpen True, SelOpen False]" 0 TypeError, THEN conjunct2, THEN conjunct1, rule_format,
      of "\<lparr>sel_calendars = Some None, sel_isLoading = False, sel_isOpen = False, sel_sent = 1\<rparr>" None]
  by (intro conjI) simp_all

end
