(* ===== verification/Calendar_Trigger.thy ===== *)
theory Calendar_Trigger
  imports Google_Calendar
begin

text \<open>
  The settings of a node that is triggered by a calendar event
  (\<open>components/InspectorPanel/settings/calendar_trigger/\<close>): conversion of times, validation, the form
  with its effects, saving. Form values are the properties of an object, so they keep what a stored
  configuration puts there. Numbers are reals; \<open>num\<close> is the decimal text of a number and \<open>num_parse\<close>
  the number of a text.
\<close>

section \<open>Times\<close>

datatype time_unit = Minute | Hour | DayUnit | Week

fun time_unit_rank :: "time_unit \<Rightarrow> nat" where
  "time_unit_rank Minute = 0"
| "time_unit_rank Hour = 1"
| "time_unit_rank DayUnit = 2"
| "time_unit_rank Week = 3"

instantiation time_unit :: linorder
begin

definition less_eq_time_unit :: "time_unit \<Rightarrow> time_unit \<Rightarrow> bool" where
  "less_eq_time_unit a b \<longleftrightarrow> time_unit_rank a \<le> time_unit_rank b"

definition less_time_unit :: "time_unit \<Rightarrow> time_unit \<Rightarrow> bool" where
  "less_time_unit a b \<longleftrightarrow> time_unit_rank a < time_unit_rank b"

instance
proof
  fix a b :: time_unit
  show "a \<le> b \<Longrightarrow> b \<le> a \<Longrightarrow> a = b"
    by (cases a; cases b) (simp_all add: less_eq_time_unit_def)
qed (auto simp: less_eq_time_unit_def less_time_unit_def)

end

fun timeUnitToMinutes :: "time_unit \<Rightarrow> real" where
  "timeUnitToMinutes Minute = 1"
| "timeUnitToMinutes Hour = 60"
| "timeUnitToMinutes DayUnit = 60 * 24"
| "timeUnitToMinutes Week = 60 * 24 * 7"

definition convertToMinutes :: "real \<Rightarrow> time_unit \<Rightarrow> real" where
  "convertToMinutes amount unit = amount * timeUnitToMinutes unit"

text \<open>The remainder \<open>x % y\<close> has the sign of \<open>x\<close>.\<close>

definition js_rem :: "real \<Rightarrow> real \<Rightarrow> real" where
  "js_rem x y = x - y * (if 0 \<le> x / y then of_int \<lfloor>x / y\<rfloor> else of_int \<lceil>x / y\<rceil>)"

definition convertFromMinutes :: "real \<Rightarrow> real \<times> time_unit" where
  "convertFromMinutes minutes =
     (if minutes = 0 then (0, Minute)
      else case List.find (\<lambda>u. js_rem minutes (timeUnitToMinutes u) = 0) [Week, DayUnit, Hour, Minute] of
             Some u \<Rightarrow> (minutes / timeUnitToMinutes u, u)
           | None \<Rightarrow> (minutes, Minute))"

section \<open>Validation\<close>

definition field :: "config \<Rightarrow> string \<Rightarrow> jsval" where
  "field c k = (case map_of c k of None \<Rightarrow> JUndefined | Some v \<Rightarrow> v)"

text \<open>The name of a value's type in the messages of the schema library.\<close>

fun zod_type :: "jsval \<Rightarrow> string" where
  "zod_type JUndefined = ''undefined''"
| "zod_type JNull = ''null''"
| "zod_type (JBool b) = ''boolean''"
| "zod_type (JNum x) = ''number''"
| "zod_type (JStr s) = ''string''"
| "zod_type (JArr xs) = ''array''"
| "zod_type (JObj fs) = ''object''"

definition calendarID_issues :: "jsval \<Rightarrow> (string \<times> string) list" where
  "calendarID_issues v =
     (case v of JStr s \<Rightarrow> [] | JNull \<Rightarrow> [] | JUndefined \<Rightarrow> []
      | _ \<Rightarrow> [(''calendarID'', ''Expected string, received '' @ zod_type v)])"

definition keywords_issues :: "jsval \<Rightarrow> (string \<times> string) list" where
  "keywords_issues v =
     (case v of JStr s \<Rightarrow> [] | JUndefined \<Rightarrow> [(''keywords'', ''Required'')]
      | _ \<Rightarrow> [(''keywords'', ''Expected string, received '' @ zod_type v)])"

definition time_issues :: "jsval \<Rightarrow> (string \<times> string) list" where
  "time_issues v =
     (case v of
        JNum x \<Rightarrow> show_if (x > 60 * 24 * 7 * 4) (''timeCondition'', ''Must be less than 4 weeks'')
      | JUndefined \<Rightarrow> [(''timeCondition'', ''Please select when the event should trigger'')]
      | _ \<Rightarrow> [(''timeCondition'', ''Expected number, received '' @ zod_type v)])"

datatype trigger_data =
  CancelledTrigger "string option" string
| TimeBasedTrigger string "string option" string real
| UnselectedTrigger "string option" string

definition str_of :: "jsval \<Rightarrow> string" where
  "str_of v = (case v of JStr s \<Rightarrow> s | _ \<Rightarrow> [])"

definition num_of :: "jsval \<Rightarrow> real" where
  "num_of v = (case v of JNum x \<Rightarrow> x | _ \<Rightarrow> 0)"

definition checked :: "(string \<times> string) list \<Rightarrow> 'a \<Rightarrow> (string \<times> string) list + 'a" where
  "checked issues v = (if issues = [] then Inr v else Inl issues)"

definition cancelledTrigger :: "config \<Rightarrow> (string \<times> string) list + trigger_data" where
  "cancelledTrigger c =
     checked (calendarID_issues (field c ''calendarID'') @ keywords_issues (field c ''keywords''))
       (CancelledTrigger (to_str (field c ''calendarID'')) (str_of (field c ''keywords'')))"

definition timeBasedTrigger :: "string \<Rightarrow> config \<Rightarrow> (string \<times> string) list + trigger_data" where
  "timeBasedTrigger status c =
     checked (calendarID_issues (field c ''calendarID'') @ keywords_issues (field c ''keywords'') @
              time_issues (field c ''timeCondition''))
       (TimeBasedTrigger status (to_str (field c ''calendarID'')) (str_of (field c ''keywords''))
          (num_of (field c ''timeCondition'')))"

definition unselectedTrigger :: "config \<Rightarrow> (string \<times> string) list + trigger_data" where
  "unselectedTrigger c =
     checked (calendarID_issues (field c ''calendarID'') @ keywords_issues (field c ''keywords''))
       (UnselectedTrigger (to_str (field c ''calendarID'')) (str_of (field c ''keywords'')))"

definition bad_discriminator :: "string \<Rightarrow> (string \<times> string) list" where
  "bad_discriminator others =
     [(''eventStatus'', ''Invalid discriminator value. Expected '' @
        js_join '' | '' (map (\<lambda>t. [CHR 0x27] @ t @ [CHR 0x27]) [''cancelled'', ''starting'', ''ending'']) @ others)]"

definition calendarTriggerFormSchema :: "config \<Rightarrow> (string \<times> string) list + trigger_data" where
  "calendarTriggerFormSchema c =
     (case field c ''eventStatus'' of
        JStr s \<Rightarrow> if s = ''cancelled'' then cancelledTrigger c
                  else if s = ''starting'' \<or> s = ''ending'' then timeBasedTrigger s c
                  else Inl (bad_discriminator '' | null'')
      | JNull \<Rightarrow> unselectedTrigger c
      | _ \<Rightarrow> Inl (bad_discriminator '' | null''))"

definition calendarTriggerSchema :: "config \<Rightarrow> (string \<times> string) list + trigger_data" where
  "calendarTriggerSchema c =
     (case field c ''eventStatus'' of
        JStr s \<Rightarrow> if s = ''cancelled'' then cancelledTrigger c
                  else if s = ''starting'' \<or> s = ''ending'' then timeBasedTrigger s c
                  else Inl (bad_discriminator [])
      | _ \<Rightarrow> Inl (bad_discriminator []))"

definition calendarTriggerDefaultValues :: config where
  "calendarTriggerDefaultValues = [(''eventStatus'', JNull), (''calendarID'', JNull), (''keywords'', JStr [])]"

definition trigger_defaults :: "config option \<Rightarrow> config" where
  "trigger_defaults config =
     (case config of None \<Rightarrow> calendarTriggerDefaultValues
      | Some c \<Rightarrow> if length c = 0 then calendarTriggerDefaultValues else c)"

section \<open>Saving\<close>

definition calendar_or_primary :: "string option \<Rightarrow> string" where
  "calendar_or_primary i = (case truthy_str i of None \<Rightarrow> ''primary'' | Some s \<Rightarrow> s)"

definition keyword_list :: "string \<Rightarrow> string list" where
  "keyword_list s = map js_trim (js_split (CHR '','') s)"

definition trigger_config :: "trigger_data \<Rightarrow> config option" where
  "trigger_config d =
     (case d of
        CancelledTrigger i k \<Rightarrow>
          Some [(''eventStatus'', JStr ''cancelled''), (''calendarID'', JStr (calendar_or_primary i)),
                (''keywords'', JArr (map JStr (keyword_list k)))]
      | TimeBasedTrigger st i k t \<Rightarrow>
          Some [(''eventStatus'', JStr st), (''calendarID'', JStr (calendar_or_primary i)),
                (''keywords'', JArr (map JStr (keyword_list k))), (''timeCondition'', JNum t)]
      | UnselectedTrigger i k \<Rightarrow> None)"

definition trigger_onSubmit :: "config \<Rightarrow> canvas_state \<Rightarrow> canvas_state \<times> toast list" where
  "trigger_onSubmit values s =
     (case calendarTriggerFormSchema values of
        Inr d \<Rightarrow>
          (case getSelectedNode (cv_store s) of
             None \<Rightarrow> (s, [])
           | Some n \<Rightarrow>
               (case trigger_config d of
                  None \<Rightarrow> (s, [ToastError ''Please select an event action''])
                | Some c \<Rightarrow> (write_config c s, [ToastSuccess ''Calendar event settings saved successfully''])))
      | Inl errors \<Rightarrow> (s, map (\<lambda>e. ToastError (snd e)) errors))"

section \<open>The form\<close>

text \<open>The state of the form: its values, and the amount and unit of a custom time. Two effects run after
  a render in which what they depend on has changed; they see the state of that render. The time, the
  amount and the unit can only be changed while their inputs are shown, and a selection reports only
  a value other than the current one.\<close>

record trigger_form =
  tf_values :: config
  tf_amount :: real
  tf_unit :: time_unit
  tf_customizing :: bool


definition tf_field :: "trigger_form \<Rightarrow> string \<Rightarrow> jsval" where
  "tf_field s k = field (tf_values s) k"

definition setValue :: "string \<Rightarrow> jsval \<Rightarrow> trigger_form \<Rightarrow> trigger_form" where
  "setValue k v s = s\<lparr>tf_values := js_set k v (tf_values s)\<rparr>"

definition isTimeBasedTrigger :: "trigger_form \<Rightarrow> bool" where
  "isTimeBasedTrigger s \<longleftrightarrow> tf_field s ''eventStatus'' = JStr ''starting'' \<or> tf_field s ''eventStatus'' = JStr ''ending''"

definition isCustomTime :: "trigger_form \<Rightarrow> bool" where
  "isCustomTime s \<longleftrightarrow> tf_field s ''timeCondition'' = JStr ''custom'' \<or> tf_customizing s"

definition clear_custom :: "trigger_form \<Rightarrow> trigger_form" where
  "clear_custom s = s\<lparr>tf_amount := 0, tf_unit := Minute, tf_customizing := False\<rparr>"

definition custom_effect :: "trigger_form \<Rightarrow> trigger_form \<Rightarrow> trigger_form \<Rightarrow> trigger_form" where
  "custom_effect old s t =
     (if (isCustomTime old, tf_amount old, tf_unit old) \<noteq> (isCustomTime s, tf_amount s, tf_unit s) \<and>
         isCustomTime s \<and> tf_amount s > 0
      then setValue ''timeCondition'' (JNum (convertToMinutes (tf_amount s) (tf_unit s))) t
      else t)"

definition clear_effect :: "trigger_form \<Rightarrow> trigger_form \<Rightarrow> trigger_form \<Rightarrow> trigger_form" where
  "clear_effect old s t = (if isCustomTime old \<noteq> isCustomTime s \<and> \<not> isCustomTime s then clear_custom t else t)"

definition trigger_effects :: "trigger_form \<Rightarrow> trigger_form \<Rightarrow> trigger_form" where
  "trigger_effects old s = clear_effect old s (custom_effect old s s)"

definition trigger_commit :: "trigger_form \<Rightarrow> trigger_form \<Rightarrow> trigger_form" where
  "trigger_commit old s = trigger_effects s (trigger_effects old s)"

definition time_select_value :: "(real \<Rightarrow> string) \<Rightarrow> trigger_form \<Rightarrow> string" where
  "time_select_value num s =
     (if tf_customizing s then ''custom''
      else (case tf_field s ''timeCondition'' of JNum x \<Rightarrow> num x | JStr t \<Rightarrow> t | _ \<Rightarrow> []))"






section \<open>The rendered form\<close>

definition status_field :: "trigger_form \<Rightarrow> view" where
  "status_field s =
     Elem ''FormItem'' []
       [Elem ''div'' []
          [Elem ''FormLabel'' [] [Txt ''Event Action''], info_tip ''Select the action that will trigger the workflow'',
           Elem ''span'' [] [Txt ''(Required)'']],
        Elem ''FormControl'' []
          [Elem ''Select'' [(''onValueChange'', ''field.onChange''), (''value'', str_of (tf_field s ''eventStatus''))]
             [Elem ''SelectTrigger'' [] [Elem ''SelectValue'' [(''placeholder'', ''Select Event Status'')] []],
              Elem ''SelectContent'' []
                [Elem ''SelectItem'' [(''value'', ''cancelled'')] [Txt ''Cancelled''],
                 Elem ''SelectItem'' [(''value'', ''starting'')] [Txt ''Starting''],
                 Elem ''SelectItem'' [(''value'', ''ending'')] [Txt ''Ending'']]]]]"

definition time_presets :: "(string \<times> string) list" where
  "time_presets =
     [(''0'', ''Immediately''), (''15'', ''15 minutes''), (''30'', ''30 minutes''), (''60'', ''1 hour''),
      (''720'', ''12 hours''), (''1440'', ''1 day''), (''2880'', ''1 week'')]"

definition extra_time :: "(real \<Rightarrow> string) \<Rightarrow> jsval \<Rightarrow> (string \<times> string) list" where
  "extra_time num v =
     (case v of
        JNum x \<Rightarrow> show_if (x > 0 \<and> num x \<notin> set [''0'', ''15'', ''30'', ''60'', ''720'', ''1440'', ''2880''])
                    (num x, num x @ '' minutes'')
      | _ \<Rightarrow> [])"

definition time_field :: "(real \<Rightarrow> string) \<Rightarrow> trigger_form \<Rightarrow> view" where
  "time_field num s =
     Elem ''FormItem'' []
       [Elem ''div'' []
          [Elem ''FormLabel'' [] [Txt (if tf_field s ''eventStatus'' = JStr ''starting'' then ''Starts in'' else ''Ended after'')],
           Elem ''span'' [] [Txt ''(Required)'']],
        Elem ''FormControl'' []
          [Elem ''Select'' [(''onValueChange'', ''time_change''), (''value'', time_select_value num s)]
             [Elem ''SelectTrigger'' [] [Elem ''SelectValue'' [(''placeholder'', ''Select Time Condition'')] []],
              Elem ''SelectContent'' []
                (map (\<lambda>p. Elem ''SelectItem'' [(''value'', fst p)] [Txt (snd p)])
                   (time_presets @ extra_time num (tf_field s ''timeCondition'') @ [(''custom'', ''Custom time'')]))]]]"

definition unit_text :: "time_unit \<Rightarrow> string" where
  "unit_text u = (case u of Minute \<Rightarrow> ''minute'' | Hour \<Rightarrow> ''hour'' | DayUnit \<Rightarrow> ''day'' | Week \<Rightarrow> ''week'')"

definition custom_fields :: "(real \<Rightarrow> string) \<Rightarrow> trigger_form \<Rightarrow> view" where
  "custom_fields num s =
     Elem ''div'' []
       [Elem ''FormItem'' [] [Elem ''FormControl'' []
          [Elem ''Input'' [(''type'', ''number''), (''min'', ''1''), (''placeholder'', ''Amount''),
             (''value'', if tf_amount s = 0 then [] else num (tf_amount s)), (''onChange'', ''setCustomAmount'')] []]],
        Elem ''FormItem'' [] [Elem ''FormControl'' []
          [Elem ''Select'' [(''onValueChange'', ''setCustomUnit''), (''value'', unit_text (tf_unit s))]
             [Elem ''SelectTrigger'' [] [Elem ''SelectValue'' [(''placeholder'', ''Unit'')] []],
              Elem ''SelectContent'' []
                [Elem ''SelectItem'' [(''value'', ''minute'')] [Txt ''Minutes''],
                 Elem ''SelectItem'' [(''value'', ''hour'')] [Txt ''Hours''],
                 Elem ''SelectItem'' [(''value'', ''day'')] [Txt ''Days''],
                 Elem ''SelectItem'' [(''value'', ''week'')] [Txt ''Weeks'']]]]]]"

definition trigger_calendar_field :: "selector_state \<Rightarrow> trigger_form \<Rightarrow> view" where
  "trigger_calendar_field sel s =
     Elem ''FormItem'' []
       [Elem ''div'' [] [Elem ''FormLabel'' [] [Txt ''Calendar''], info_tip ''By default, we will use your primary calendar''],
        CalendarSelector sel (truthy_str (to_str (tf_field s ''calendarID'')))]"

definition keywords_field :: "(real \<Rightarrow> string) \<Rightarrow> (string \<times> string) list \<Rightarrow> trigger_form \<Rightarrow> view" where
  "keywords_field num errors s =
     Elem ''FormItem'' []
       [Elem ''div'' []
          [Elem ''FormLabel'' [] [Txt ''Keywords''],
           info_tip ''We will search the event for all the keywords you specify, If the event contains all the keywords, the workflow will be triggered''],
        Elem ''FormControl'' []
          [Elem ''Input'' [(''placeholder'', ''Enter keywords''),
             (''value'', let v = tf_field s ''keywords'' in if js_truthy v then js_show num v else []), (''onChange'', ''field.onChange'')] []],
        form_message errors ''keywords'']"

definition CalendarTriggerForm :: "(real \<Rightarrow> string) \<Rightarrow> selector_state \<Rightarrow> (string \<times> string) list \<Rightarrow> trigger_form \<Rightarrow> view" where
  "CalendarTriggerForm num sel errors s =
     Elem ''form'' [(''onSubmit'', ''onSubmit'')]
       ([status_field s] @
        (if isTimeBasedTrigger s then time_field num s # show_if (isCustomTime s) (custom_fields num s) else []) @
        [trigger_calendar_field sel s, keywords_field num errors s, FormControls ''calendar trigger'' False])"

definition CalendarTriggerSettings :: "(real \<Rightarrow> string) \<Rightarrow> selector_state \<Rightarrow> (string \<times> string) list \<Rightarrow> trigger_form \<Rightarrow> view" where
  "CalendarTriggerSettings num sel errors s = Elem ''FormProvider'' [] [CalendarTriggerForm num sel errors s]"

section \<open>Times: laws\<close>

lemma timeUnitToMinutes_pos [simp]: "timeUnitToMinutes u > 0"
  by (cases u) simp_all

lemma js_rem_zero:
  assumes "y > 0" shows "js_rem x y = 0 \<longleftrightarrow> x / y \<in> \<int>"
proof -
  let ?n = "if 0 \<le> x / y then \<lfloor>x / y\<rfloor> else \<lceil>x / y\<rceil>"
  have "js_rem x y = 0 \<longleftrightarrow> x / y = of_int ?n"
    using assms by (simp add: js_rem_def field_simps)
  also have "\<dots> \<longleftrightarrow> x / y \<in> \<int>"
  proof
    assume "x / y \<in> \<int>"
    then obtain k where "x / y = of_int k" by (rule Ints_cases)
    then show "x / y = of_int ?n" by simp
  qed (metis Ints_of_int)
  finally show ?thesis .
qed

text \<open>A whole number of minutes that is shown as an amount of a unit converts back to the same
  number; the amount is whole, and no larger unit divides the number without remainder.\<close>

lemma convertFromMinutes_largest:
  assumes "m \<in> \<int>"
  shows "case convertFromMinutes m of (a, u) \<Rightarrow>
    convertToMinutes a u = m \<and> a \<in> \<int> \<and> (m \<noteq> 0 \<longrightarrow> (\<forall>u'>u. m / timeUnitToMinutes u' \<notin> \<int>))"
proof (cases "m = 0")
  case False
  let ?P = "\<lambda>u. js_rem m (timeUnitToMinutes u) = 0" and ?us = "[Week, DayUnit, Hour, Minute]"
  have P: "?P u \<longleftrightarrow> m / timeUnitToMinutes u \<in> \<int>" for u by (rule js_rem_zero) simp
  have "?P Minute" using P [of Minute] assms by simp
  then obtain u where u: "List.find ?P ?us = Some u"
    using find_None_set [of ?P ?us] by (cases "List.find ?P ?us") auto
  then have "?P u" using find_Some_iff2 by fast
  moreover have "\<not> ?P u'" if "u < u'" for u'
    using that u by (cases u; cases u') (auto simp: less_time_unit_def split: if_splits)
  moreover have "convertFromMinutes m = (m / timeUnitToMinutes u, u)"
    using False u by (simp only: convertFromMinutes_def if_False option.case)
  moreover have "convertToMinutes (m / timeUnitToMinutes u) u = m"
    using timeUnitToMinutes_pos [of u] by (simp add: convertToMinutes_def less_imp_neq [symmetric])
  ultimately show ?thesis by (simp only: P prod.case) blast
qed (simp add: convertFromMinutes_def convertToMinutes_def)

lemma convertFromMinutes_largest_example:
  "case convertFromMinutes 2880 of (a, u) \<Rightarrow>
    convertToMinutes a u = 2880 \<and> a \<in> \<int> \<and> ((2880 :: real) \<noteq> 0 \<longrightarrow> (\<forall>u'>u. 2880 / timeUnitToMinutes u' \<notin> \<int>))"
  by (rule convertFromMinutes_largest) simp

section \<open>Effects\<close>

lemma field_js_set [simp]: "field (js_set k v c) k' = (if k' = k then v else field c k')"
  by (simp add: field_def)

lemma tf_field_setValue [simp]: "tf_field (setValue k v s) k' = (if k' = k then v else tf_field s k')"
  by (simp add: tf_field_def setValue_def)

lemma setValue_simps [simp]:
  "tf_amount (setValue k v s) = tf_amount s" "tf_unit (setValue k v s) = tf_unit s"
  "tf_customizing (setValue k v s) = tf_customizing s"
  by (simp_all add: setValue_def)

lemma tf_field_updates [simp]:
  "tf_field (s\<lparr>tf_amount := a\<rparr>) k = tf_field s k" "tf_field (s\<lparr>tf_unit := u\<rparr>) k = tf_field s k"
  "tf_field (s\<lparr>tf_customizing := b\<rparr>) k = tf_field s k" "tf_field (clear_custom s) k = tf_field s k"
  by (simp_all add: tf_field_def clear_custom_def)

lemma clear_custom_simps [simp]:
  "tf_amount (clear_custom s) = 0" "tf_unit (clear_custom s) = Minute" "tf_customizing (clear_custom s) = False"
  by (simp_all add: clear_custom_def)

lemmas trigger_effect_defs = trigger_effects_def custom_effect_def clear_effect_def

text \<open>The effects of the form come to rest: after the two rounds that a change of the form
  causes at most, another round changes nothing, whatever the state before and after the change.\<close>

lemma trigger_effects_settle:
  "trigger_effects (trigger_effects old s) (trigger_commit old s) = trigger_commit old s"
  by (cases "isCustomTime old"; cases "isCustomTime s"; cases "tf_amount s > 0"; cases "tf_customizing s")
    (auto simp: trigger_commit_def trigger_effect_defs isCustomTime_def)

section \<open>The custom time\<close>












section \<open>Saving\<close>

lemma keywords_array: "keywords_issues (JArr xs) = [(''keywords'', ''Expected string, received array'')]"
  by (simp add: keywords_issues_def)

text \<open>The trigger form keeps the contract of a settings form; as the next property shows it is not stable.\<close>

definition trigger_stored :: "config \<Rightarrow> config option" where
  "trigger_stored v = (case calendarTriggerFormSchema v of Inl _ \<Rightarrow> None | Inr d \<Rightarrow> trigger_config d)"

interpretation trigger_settings: settings_form trigger_stored "\<lambda>v s. fst (trigger_onSubmit v s)"
  by unfold_locales (simp add: trigger_onSubmit_def trigger_stored_def write_config_def split: sum.splits option.splits)

text \<open>Submitting an accepted form with a selected action stores its values in the selected
  node. The stored keywords are a list while the form expects a text: opened again and submitted
  unchanged, the form is always rejected, and nothing is stored.\<close>

lemma trigger_resubmit_rejected:
  assumes v: "calendarTriggerFormSchema v = Inr d" and c: "trigger_config d = Some c"
    and sel: "getSelectedNode (cv_store s) = Some n" and d0: "cv_heap s (n_data n) = Some d0"
  shows "trigger_onSubmit v s =
           (s\<lparr>cv_heap := (cv_heap s)(n_data n \<mapsto> d0\<lparr>d_config := c\<rparr>)\<rparr>,
            [ToastSuccess ''Calendar event settings saved successfully'']) \<and>
         trigger_onSubmit (trigger_defaults (Some c)) s' = (s', [ToastError ''Expected string, received array''])"
proof -
  have "calendarTriggerFormSchema (trigger_defaults (Some c)) = Inl [(''keywords'', ''Expected string, received array'')]"
  proof (cases d)
    case (CancelledTrigger i k)
    with c show ?thesis
      by (auto simp: trigger_config_def trigger_defaults_def calendarTriggerFormSchema_def cancelledTrigger_def checked_def
          field_def calendarID_issues_def keywords_array)
  next
    case (TimeBasedTrigger st i k t)
    with v have "st = ''starting'' \<or> st = ''ending''" "time_issues (JNum t) = []"
      by (auto simp: calendarTriggerFormSchema_def cancelledTrigger_def timeBasedTrigger_def unselectedTrigger_def
          checked_def num_of_def time_issues_def split: jsval.splits if_splits)
    with c TimeBasedTrigger show ?thesis
      by (auto simp: trigger_config_def trigger_defaults_def calendarTriggerFormSchema_def timeBasedTrigger_def checked_def
          field_def calendarID_issues_def keywords_array)
  qed (use c in \<open>simp add: trigger_config_def\<close>)
  then show ?thesis using v c sel d0 by (simp add: trigger_onSubmit_def write_config_def)
qed

lemma trigger_resubmit_rejected_example:
  "\<exists>c s'. trigger_onSubmit [(''eventStatus'', JStr ''cancelled''), (''calendarID'', JNull), (''keywords'', JStr ''a, b'')]
       demo_selected = (s', [ToastSuccess ''Calendar event settings saved successfully'']) \<and>
     trigger_onSubmit (trigger_defaults (Some c)) s' = (s', [ToastError ''Expected string, received array''])"
proof -
  let ?v = "[(''eventStatus'', JStr ''cancelled''), (''calendarID'', JNull), (''keywords'', JStr ''a, b'')]"
  have v: "calendarTriggerFormSchema ?v = Inr (CancelledTrigger None ''a, b'')"
    by (simp add: calendarTriggerFormSchema_def cancelledTrigger_def checked_def field_def calendarID_issues_def
        keywords_issues_def to_str_def str_of_def)
  obtain c where c: "trigger_config (CancelledTrigger None ''a, b'') = Some c" by (simp add: trigger_config_def)
  obtain d0 where h: "cv_heap demo_selected (n_data demo_node) = Some d0" using demo_selected_node(2) by blast
  show ?thesis using trigger_resubmit_rejected [OF v c demo_selected_node(1) h] by blast
qed

end
