(* ===== verification/Inspector.thy ===== *)
theory Inspector
  imports Canvas
begin

text \<open>
  The inspector panel (\<open>components/InspectorPanel/\<close>): its width and the handle that drags and
  collapses it, together with the keys of the layout, the tab of settings that belongs to the
  selected node, and what the panel renders. Positions and widths are whole pixels, times
  milliseconds.
\<close>

section \<open>State\<close>

definition minWidth :: int where
  "minWidth = 300"

definition maxWidth :: int where
  "maxWidth = 800"

text \<open>The listeners on the document are set by an effect that runs when \<open>isResizing\<close> changes; they keep
  the values of \<open>showPanel\<close> and \<open>width\<close> of that render, and a variable \<open>newWidth\<close> of their own.\<close>

record resize_listeners =
  rl_showPanel :: bool
  rl_width :: int
  rl_newWidth :: "int option"

record inspector =
  ip_layout :: layout_state
  ip_showPanel :: bool
  ip_width :: int
  ip_isResizing :: bool
  ip_z :: bool
  ip_startX :: int
  ip_startWidth :: int
  ip_time :: int
  ip_listeners :: "resize_listeners option"

definition ip_toggle :: "inspector \<Rightarrow> bool" where
  "ip_toggle s = toggleInspectorPanel (ip_layout s)"

definition set_toggle :: "bool \<Rightarrow> inspector \<Rightarrow> inspector" where
  "set_toggle b s = s\<lparr>ip_layout := (ip_layout s)\<lparr>toggleInspectorPanel := b\<rparr>\<rparr>"

section \<open>Effects\<close>

text \<open>The effects of a render, in their order in the component; each sees the state of the render
  (\<open>r\<close>) and adds its changes (to \<open>s\<close>). The effect that refits the canvas changes no state.\<close>

definition toggle_effect :: "inspector \<Rightarrow> inspector \<Rightarrow> inspector" where
  "toggle_effect r s =
     (if \<not> ip_toggle r then s\<lparr>ip_showPanel := False, ip_width := 0, ip_z := False\<rparr>
      else s\<lparr>ip_showPanel := True, ip_width := minWidth\<rparr>)"

definition width_effect :: "inspector \<Rightarrow> inspector \<Rightarrow> inspector" where
  "width_effect r s = (if ip_width r \<noteq> 0 then (set_toggle True s)\<lparr>ip_showPanel := True\<rparr> else s)"

definition resize_effect :: "inspector \<Rightarrow> inspector \<Rightarrow> inspector" where
  "resize_effect r s =
     s\<lparr>ip_listeners := (if ip_isResizing r
        then Some \<lparr>rl_showPanel = ip_showPanel r, rl_width = ip_width r, rl_newWidth = None\<rparr> else None)\<rparr>"

definition inspector_effects :: "inspector \<Rightarrow> inspector \<Rightarrow> inspector" where
  "inspector_effects old r =
     (let s1 = (if ip_toggle old \<noteq> ip_toggle r then toggle_effect r r else r);
          s2 = (if ip_width old \<noteq> ip_width r then width_effect r s1 else s1)
      in if ip_isResizing old \<noteq> ip_isResizing r then resize_effect r s2 else s2)"

definition inspector_commit :: "inspector \<Rightarrow> inspector \<Rightarrow> inspector" where
  "inspector_commit old r = inspector_effects r (inspector_effects old r)"

definition inspector_mount :: "layout_state \<Rightarrow> inspector" where
  "inspector_mount ly =
     (let r = \<lparr>ip_layout = ly, ip_showPanel = True, ip_width = minWidth, ip_isResizing = False, ip_z = False,
               ip_startX = 0, ip_startWidth = 0, ip_time = 0, ip_listeners = None\<rparr>;
          s = resize_effect r (width_effect r (toggle_effect r r))
      in inspector_effects r s)"

section \<open>Events\<close>

definition handleButtonMouseDown :: "int \<Rightarrow> int \<Rightarrow> inspector \<Rightarrow> inspector" where
  "handleButtonMouseDown x now s =
     s\<lparr>ip_isResizing := True, ip_startX := x, ip_startWidth := ip_width s, ip_time := now\<rparr>"

definition handleMouseMove :: "int \<Rightarrow> resize_listeners \<Rightarrow> inspector \<Rightarrow> inspector" where
  "handleMouseMove x l s =
     (let deltaX = x - ip_startX s;
          newWidth = ip_startWidth s - deltaX;
          s1 = s\<lparr>ip_listeners := Some (l\<lparr>rl_newWidth := Some newWidth\<rparr>)\<rparr>
      in if \<not> rl_showPanel l then
           (let s2 = (if newWidth \<ge> minWidth then s1\<lparr>ip_z := True\<rparr> else s1)
            in if newWidth \<ge> maxWidth then s2\<lparr>ip_width := maxWidth\<rparr> else s2\<lparr>ip_width := newWidth\<rparr>)
         else if newWidth \<le> minWidth then s1\<lparr>ip_width := minWidth\<rparr>
         else if newWidth \<ge> maxWidth then s1\<lparr>ip_width := maxWidth\<rparr>
         else s1\<lparr>ip_width := newWidth\<rparr>)"

definition handleMouseUp :: "int \<Rightarrow> resize_listeners \<Rightarrow> inspector \<Rightarrow> inspector" where
  "handleMouseUp now l s =
     (let duration = now - ip_time s;
          s1 = (if duration > 300 then
                  (case rl_newWidth l of
                     None \<Rightarrow> s
                   | Some w \<Rightarrow> if w < minWidth \<and> w > 0 then s\<lparr>ip_width := minWidth\<rparr> else s)
                else
                  (let s2 = (if rl_showPanel l then s\<lparr>ip_z := False\<rparr> else s);
                       s3 = s2\<lparr>ip_showPanel := \<not> ip_showPanel s2\<rparr>
                   in if rl_width l \<noteq> 0 then s3\<lparr>ip_width := 0\<rparr> else s3\<lparr>ip_width := minWidth\<rparr>))
      in s1\<lparr>ip_isResizing := False\<rparr>)"

datatype inspector_event = MouseDown int int | MouseMove int | MouseUp int | KeyDown key_event

fun inspector_handle :: "inspector_event \<Rightarrow> inspector \<Rightarrow> inspector" where
  "inspector_handle (MouseDown x now) s = handleButtonMouseDown x now s"
| "inspector_handle (MouseMove x) s = (case ip_listeners s of None \<Rightarrow> s | Some l \<Rightarrow> handleMouseMove x l s)"
| "inspector_handle (MouseUp now) s = (case ip_listeners s of None \<Rightarrow> s | Some l \<Rightarrow> handleMouseUp now l s)"
| "inspector_handle (KeyDown k) s = s\<lparr>ip_layout := handleKeyPress k (ip_layout s)\<rparr>"

definition inspector_step :: "inspector_event \<Rightarrow> inspector \<Rightarrow> inspector" where
  "inspector_step e s = inspector_commit s (inspector_handle e s)"

section \<open>Rendering\<close>

definition SettingsTab :: "node_data option \<Rightarrow> view list" where
  "SettingsTab d =
     (case d of
        None \<Rightarrow> []
      | Some d \<Rightarrow>
          if d_nodeType d = ''send_email'' then [Elem ''EmailSettings'' [] []]
          else if d_nodeType d = ''schedule'' then [Elem ''ScheduleSettings'' [] []]
          else if d_nodeType d = ''google_calendar_create_event'' then [Elem ''GoogleCalendarEventSettings'' [] []]
          else if d_nodeType d = ''calendar_event'' then [Elem ''CalendarTriggerSettings'' [] []]
          else [])"

definition AdvancedSettings :: "string \<Rightarrow> view list" where
  "AdvancedSettings nodeId =
     [Elem ''div'' []
        [Elem ''label'' [] [Txt ''Node ID''],
         Elem ''input'' [(''type'', ''text''), (''value'', nodeId), (''readOnly'', ''true'')] []],
      Elem ''div'' []
        [Elem ''label'' [] [Txt ''Error Handling''],
         Elem ''select'' []
           [Elem ''option'' [] [Txt ''Stop workflow''], Elem ''option'' [] [Txt ''Continue workflow''],
            Elem ''option'' [] [Txt ''Retry (max 3 times)'']]],
      Elem ''div'' []
        [Elem ''label'' [] [Txt ''Timeout''],
         Elem ''div'' []
           [Elem ''input'' [(''type'', ''number''), (''defaultValue'', ''30'')] [], Elem ''span'' [] [Txt ''seconds'']]],
      Elem ''Button'' [] [Txt ''Apply Changes'']]"

definition LogsPanel :: view where
  "LogsPanel =
     Elem ''div'' [] [Elem ''div'' []
       [Elem ''p'' [] [Txt ''[10:15:32] Node initialized''], Elem ''p'' [] [Txt ''[10:15:33] Waiting for trigger...''],
        Elem ''p'' [] [Txt ''[10:16:01] Trigger activated''], Elem ''p'' [] [Txt ''[10:16:02] Processing data...''],
        Elem ''p'' [] [Txt ''[10:16:03] Task completed successfully'']]]"

definition px :: "int \<Rightarrow> string" where
  "px n = (if n < 0 then ''-'' else []) @ js_of_nat (nat \<bar>n\<bar>) @ ''px''"

definition panel_minWidth :: "inspector \<Rightarrow> string" where
  "panel_minWidth s = (if ip_z s then if ip_toggle s then px minWidth else ''0px'' else ''0px'')"

definition handle_right :: "inspector \<Rightarrow> string" where
  "handle_right s =
     (if ip_showPanel s then if ip_z s then px (min (max (ip_width s) minWidth) maxWidth) else px (ip_width s) else ''0'')"

definition inspector_content :: "canvas_state \<Rightarrow> view" where
  "inspector_content cv =
     (case getSelectedNode (cv_store cv) of
        Some n \<Rightarrow>
          (let d = cv_heap cv (n_data n)
           in Elem ''div'' []
             [Elem ''h3'' [] [Txt ((case d of None \<Rightarrow> [] | Some d \<Rightarrow> d_label d) @ '' Configuration'')],
              Elem ''Tabs'' [(''defaultValue'', ''settings'')]
                [Elem ''div'' []
                   [Elem ''TabsList'' []
                      [Elem ''TabsTrigger'' [(''value'', ''settings'')] [Txt ''Settings''],
                       Elem ''TabsTrigger'' [(''value'', ''advanced'')] [Txt ''Advanced''],
                       Elem ''TabsTrigger'' [(''value'', ''logs'')] [Txt ''Logs'']]],
                 Elem ''TabsContent'' [(''value'', ''settings'')] (SettingsTab d),
                 Elem ''TabsContent'' [(''value'', ''advanced'')] (AdvancedSettings (n_id n)),
                 Elem ''TabsContent'' [(''value'', ''logs'')] [LogsPanel]]])
      | None \<Rightarrow>
          Elem ''div'' []
            [Elem ''Settings'' [] [], Elem ''h3'' [] [Txt ''No Block Selected''],
             Elem ''p'' [] [Txt ''Select a block on the canvas to configure it'']])"

definition InspectorPanel :: "inspector \<Rightarrow> canvas_state \<Rightarrow> view" where
  "InspectorPanel s cv =
     Elem ''div'' [(''--my-width'', px (ip_width s)), (''minWidth'', panel_minWidth s),
                   (''class'', if \<not> ip_isResizing s then ''transition-all duration-500'' else [])]
       [Elem ''div'' [(''right'', handle_right s),
                      (''class'', (if \<not> ip_isResizing s then ''transition-all duration-500 '' else []) @
                                  (if ip_showPanel s then ''translate-x-1/2'' else ''w-13''))]
          [Elem ''Button'' [(''onMouseDown'', ''handleButtonMouseDown''), (''aria-label'', ''Collapse inspector''),
               (''class'', if ip_showPanel s then ''h-10 w-10 rounded-full'' else ''h-13 w-13 rounded-l-full'')]
             [Elem ''ChevronsRight'' [(''class'', if ip_showPanel s then ''rotate-0'' else ''rotate-180'')] []]],
        Elem ''div'' []
          [Elem ''div'' [(''class'', if ip_showPanel s then ''pointer-events-auto'' else ''pointer-events-none'')]
             [Elem ''div'' [] [Elem ''h2'' [] [Txt ''Inspector''], Elem ''p'' [] [Txt ''Configure the selected block'']],
              Elem ''Separator'' [] [],
              Elem ''ScrollArea'' [] [inspector_content cv]]]]"

section \<open>Effects come to rest\<close>

lemma set_toggle_simps [simp]:
  "ip_toggle (set_toggle b s) = b" "ip_showPanel (set_toggle b s) = ip_showPanel s" "ip_width (set_toggle b s) = ip_width s"
  "ip_isResizing (set_toggle b s) = ip_isResizing s" "ip_listeners (set_toggle b s) = ip_listeners s" "ip_z (set_toggle b s) = ip_z s"
  by (simp_all add: set_toggle_def ip_toggle_def)

lemma ip_toggle_updates [simp]:
  "ip_toggle (s\<lparr>ip_showPanel := a\<rparr>) = ip_toggle s" "ip_toggle (s\<lparr>ip_width := w\<rparr>) = ip_toggle s"
  "ip_toggle (s\<lparr>ip_isResizing := a\<rparr>) = ip_toggle s" "ip_toggle (s\<lparr>ip_z := a\<rparr>) = ip_toggle s"
  "ip_toggle (s\<lparr>ip_startX := x\<rparr>) = ip_toggle s" "ip_toggle (s\<lparr>ip_startWidth := x\<rparr>) = ip_toggle s"
  "ip_toggle (s\<lparr>ip_time := x\<rparr>) = ip_toggle s" "ip_toggle (s\<lparr>ip_listeners := l\<rparr>) = ip_toggle s"
  by (simp_all add: ip_toggle_def)

lemma set_toggle_id: "ip_toggle s = b \<Longrightarrow> ip_showPanel s = c \<Longrightarrow> (set_toggle b s)\<lparr>ip_showPanel := c\<rparr> = s"
  by (cases s) (auto simp: set_toggle_def ip_toggle_def)

lemmas inspector_effect_defs = inspector_effects_def toggle_effect_def width_effect_def resize_effect_def Let_def

lemma effects_isResizing [simp]: "ip_isResizing (inspector_effects old r) = ip_isResizing r"
  by (simp add: inspector_effect_defs)

lemma effects_id:
  assumes "ip_toggle s = ip_toggle old" and "ip_isResizing s = ip_isResizing old"
    and "ip_width s = ip_width old \<or> ip_toggle s \<and> ip_showPanel s \<or> ip_width s = 0"
  shows "inspector_effects old s = s"
  using assms by (auto simp: inspector_effects_def width_effect_def set_toggle_id)

text \<open>Whatever an event changes, the effects that it causes end: after two rounds a further
  one changes nothing, although the effects on the width and on the toggle set each other's state.\<close>

lemma inspector_effects_settle:
  "inspector_effects (inspector_effects old r) (inspector_commit old r) = inspector_commit old r"
proof -
  let ?s = "inspector_effects old r"
  have "ip_toggle (inspector_effects r ?s) = ip_toggle ?s"
    by (simp add: inspector_effect_defs split: if_splits)
  moreover have "ip_width (inspector_effects r ?s) = ip_width ?s \<or>
      ip_toggle (inspector_effects r ?s) \<and> ip_showPanel (inspector_effects r ?s) \<or> ip_width (inspector_effects r ?s) = 0"
    by (simp add: inspector_effect_defs split: if_splits)
  ultimately show ?thesis
    unfolding inspector_commit_def by (intro effects_id) (simp_all add: effects_isResizing)
qed

section \<open>Width\<close>

definition width_settled :: "int \<Rightarrow> bool" where
  "width_settled w \<longleftrightarrow> w \<le> maxWidth \<and> (w \<le> 0 \<or> minWidth \<le> w)"

definition width_ok :: "inspector \<Rightarrow> bool" where
  "width_ok s \<longleftrightarrow>
     (case ip_listeners s of
        None \<Rightarrow> width_settled (ip_width s)
      | Some l \<Rightarrow>
          if rl_showPanel l then width_settled (ip_width s)
          else (case rl_newWidth l of
                  None \<Rightarrow> width_settled (ip_width s)
                | Some n \<Rightarrow> ip_width s = min n maxWidth \<or> width_settled (ip_width s)))"

definition listeners_ok :: "inspector \<Rightarrow> bool" where
  "listeners_ok s \<longleftrightarrow> ip_isResizing s = (ip_listeners s \<noteq> None)"

definition inspector_inv :: "inspector \<Rightarrow> bool" where
  "inspector_inv s \<longleftrightarrow> width_ok s \<and> listeners_ok s"

lemma width_ok_cong: "ip_width t = ip_width s \<Longrightarrow> ip_listeners t = ip_listeners s \<Longrightarrow> width_ok t = width_ok s"
  by (simp only: width_ok_def)

lemma width_settled_simps [simp]: "width_settled 0" "width_settled minWidth" "width_settled maxWidth"
  by (simp_all add: width_settled_def minWidth_def maxWidth_def)

text \<open>An effect leaves the width alone or sets it to zero or to the least width.\<close>

lemma effects_width: "ip_width (inspector_effects old r) \<in> {ip_width r, 0, minWidth}"
  by (auto simp: inspector_effect_defs)

lemma effects_listeners:
  "ip_listeners (inspector_effects old r) =
     (if ip_isResizing old \<noteq> ip_isResizing r
      then (if ip_isResizing r then Some \<lparr>rl_showPanel = ip_showPanel r, rl_width = ip_width r, rl_newWidth = None\<rparr> else None)
      else ip_listeners r)"
  "ip_isResizing (inspector_effects old r) = ip_isResizing r"
  by (auto simp: inspector_effect_defs)

lemma width_ok_effects:
  assumes "width_ok r" and "ip_isResizing old = ip_isResizing r \<or> width_settled (ip_width r)"
  shows "width_ok (inspector_effects old r)"
proof -
  let ?s = "inspector_effects old r"
  have "ip_width ?s = ip_width r \<or> width_settled (ip_width ?s)" using effects_width [of old r] by auto
  moreover have "width_ok ?s" if "width_settled (ip_width ?s)"
    using that by (auto simp: width_ok_def split: option.splits)
  moreover have "width_ok ?s" if "ip_width ?s = ip_width r" "ip_listeners ?s = ip_listeners r"
    using that assms(1) width_ok_cong by blast
  ultimately show ?thesis
    using assms(2) effects_listeners [of old r] by metis
qed

lemma inspector_inv_commit:
  assumes "width_ok r" and "ip_isResizing old = ip_isResizing r \<or> width_settled (ip_width r)"
    and "ip_isResizing old = (ip_listeners r \<noteq> None)"
  shows "inspector_inv (inspector_commit old r)"
proof -
  have 1: "width_ok (inspector_effects old r)" using assms(1,2) by (rule width_ok_effects)
  have "width_ok (inspector_commit old r)"
    unfolding inspector_commit_def by (rule width_ok_effects [OF 1]) (simp add: effects_listeners)
  moreover have "listeners_ok (inspector_commit old r)"
    using assms(3) by (auto simp: listeners_ok_def inspector_commit_def effects_listeners)
  ultimately show ?thesis by (simp add: inspector_inv_def)
qed

lemma move_width:
  "width_ok (handleMouseMove x l s)" "ip_isResizing (handleMouseMove x l s) = ip_isResizing s"
  "ip_listeners (handleMouseMove x l s) \<noteq> None"
  by (auto simp: handleMouseMove_def Let_def width_ok_def width_settled_def minWidth_def maxWidth_def)

lemma up_width:
  assumes "width_ok s" and "ip_listeners s = Some l"
  shows "width_settled (ip_width (handleMouseUp now l s))" "\<not> ip_isResizing (handleMouseUp now l s)"
    "ip_listeners (handleMouseUp now l s) = Some l"
  using assms
  by (auto simp: handleMouseUp_def Let_def width_ok_def width_settled_def minWidth_def maxWidth_def split: option.splits if_splits)

lemma inspector_step_inv:
  assumes "inspector_inv s" shows "inspector_inv (inspector_step e s)"
proof -
  have ok: "width_ok s" "listeners_ok s" using assms by (simp_all add: inspector_inv_def)
  have same: "inspector_inv (inspector_commit s t)"
    if "ip_width t = ip_width s" "ip_listeners t = ip_listeners s" "ip_isResizing t = ip_isResizing s" for t
    using ok that width_ok_cong [OF that(1,2)] by (intro inspector_inv_commit) (auto simp: listeners_ok_def)
  show ?thesis
  proof (cases e)
    case (MouseDown x now)
    have "width_settled (ip_width s)" if "\<not> ip_isResizing s"
      using ok that by (simp add: width_ok_def listeners_ok_def)
    then show ?thesis using ok MouseDown unfolding inspector_step_def
      using width_ok_cong [of "handleButtonMouseDown x now s" s]
      by (intro inspector_inv_commit) (auto simp: handleButtonMouseDown_def listeners_ok_def)
  next
    case (MouseMove x)
    show ?thesis
    proof (cases "ip_listeners s")
      case (Some l)
      then show ?thesis using ok MouseMove move_width [of x l s] unfolding inspector_step_def
        by (intro inspector_inv_commit) (auto simp: listeners_ok_def)
    qed (use MouseMove same in \<open>simp add: inspector_step_def\<close>)
  next
    case (MouseUp now)
    show ?thesis
    proof (cases "ip_listeners s")
      case (Some l)
      then show ?thesis using ok MouseUp up_width [OF ok(1) Some, of now] unfolding inspector_step_def
        by (intro inspector_inv_commit) (auto simp: listeners_ok_def width_ok_def split: option.splits)
    qed (use MouseUp same in \<open>simp add: inspector_step_def\<close>)
  next
    case (KeyDown k)
    then show ?thesis using same by (simp add: inspector_step_def)
  qed
qed

text \<open>The panel is open after it is mounted, whatever the layout asks for.\<close>

lemma inspector_mount_open:
  "inspector_mount ly =
     \<lparr>ip_layout = ly\<lparr>toggleInspectorPanel := True\<rparr>, ip_showPanel = True, ip_width = 300, ip_isResizing = False, ip_z = False,
      ip_startX = 0, ip_startWidth = 0, ip_time = 0, ip_listeners = None\<rparr>"
  by (cases "toggleInspectorPanel ly")
    (simp_all add: inspector_mount_def inspector_effect_defs set_toggle_def ip_toggle_def minWidth_def)

interpretation inspector_panel: machine "inspector_mount ly" inspector_step inspector_inv for ly
proof
  show "inspector_inv (inspector_mount ly)"
    by (simp add: inspector_mount_open inspector_inv_def width_ok_def listeners_ok_def width_settled_def minWidth_def maxWidth_def)
qed (rule inspector_step_inv)

lemmas inspector_run_defs = inspector_step_def inspector_commit_def inspector_effect_defs set_toggle_def ip_toggle_def
  handleButtonMouseDown_def handleMouseMove_def handleMouseUp_def minWidth_def maxWidth_def

text \<open>Claim C34: after any sequence of clicks, drags and keys the panel is at most 800 pixels wide, and
  between drags it is either closed or at least 300 pixels wide, with one exception: pulling the
  handle of a collapsed panel outwards leaves a negative width, since the width is not bounded from below.\<close>

theorem inspector_width_bounds:
  "(let s = fold inspector_step evs (inspector_mount ly)
    in ip_width s \<le> 800 \<and> (\<not> ip_isResizing s \<longrightarrow> ip_width s \<le> 0 \<or> 300 \<le> ip_width s)) \<and>
   (\<exists>evs'. let s = fold inspector_step evs' (inspector_mount ly) in \<not> ip_isResizing s \<and> ip_width s < 0)"
proof
  let ?s = "fold inspector_step evs (inspector_mount ly)"
  have "inspector_inv ?s" by (rule inspector_panel.inv_run)
  then show "let s = ?s in ip_width s \<le> 800 \<and> (\<not> ip_isResizing s \<longrightarrow> ip_width s \<le> 0 \<or> 300 \<le> ip_width s)"
    by (auto simp: inspector_inv_def width_ok_def listeners_ok_def width_settled_def minWidth_def maxWidth_def Let_def
        split: option.splits if_splits)
next
  have "ip_width (fold inspector_step [MouseDown 500 0, MouseUp 100, MouseDown 500 1000, MouseMove 520, MouseUp 2000]
      (inspector_mount ly)) = -20 \<and>
    \<not> ip_isResizing (fold inspector_step [MouseDown 500 0, MouseUp 100, MouseDown 500 1000, MouseMove 520, MouseUp 2000]
      (inspector_mount ly))"
    by (simp add: inspector_mount_open inspector_run_defs)
  then show "\<exists>evs'. let s = fold inspector_step evs' (inspector_mount ly) in \<not> ip_isResizing s \<and> ip_width s < 0"
    by (intro exI [of _ "[MouseDown 500 0, MouseUp 100, MouseDown 500 1000, MouseMove 520, MouseUp 2000]"]) (simp add: Let_def)
qed

theorem inspector_width_bounds_witness:
  "let s = fold inspector_step [MouseDown 500 0, MouseMove 400, MouseUp 900] (inspector_mount (layout_init True))
   in ip_width s \<le> 800 \<and> (\<not> ip_isResizing s \<longrightarrow> ip_width s \<le> 0 \<or> 300 \<le> ip_width s)"
  by (rule inspector_width_bounds [THEN conjunct1])

definition key_i :: key_event where
  "key_i = \<lparr>k_key = ''i'', k_meta = False, k_ctrl = False, k_textInput = False\<rparr>"

text \<open>The panel and the layout can disagree. After the handle has collapsed the panel the layout
  still counts it as open, so the first press of \<open>i\<close> changes nothing that is seen and only the second
  opens it. And a click on the handle of a panel that \<open>i\<close> has closed, with the mouse moved by one
  pixel, opens the panel at full width but marks it as collapsed, so that its content cannot be used.\<close>

lemma inspector_out_of_step:
  assumes "t' - t \<le> 300"
  shows "(let s = fold inspector_step [MouseDown x t, MouseUp t'] (inspector_mount ly);
             s1 = inspector_step (KeyDown key_i) s; s2 = inspector_step (KeyDown key_i) s1
         in ip_width s = 0 \<and> \<not> ip_showPanel s \<and> ip_toggle s \<and>
            ip_width s1 = 0 \<and> \<not> ip_showPanel s1 \<and> \<not> ip_toggle s1 \<and>
            ip_width s2 = 300 \<and> ip_showPanel s2 \<and> ip_toggle s2) \<and>
    (let s = fold inspector_step [KeyDown key_i, MouseDown x t, MouseMove (x - 1), MouseUp t'] (inspector_mount ly)
     in ip_width s = 300 \<and> \<not> ip_showPanel s \<and> \<not> ip_isResizing s)"
  using assms by (simp add: inspector_mount_open inspector_run_defs handleKeyPress_def key_i_def)

lemma inspector_out_of_step_example:
  "let s = fold inspector_step [KeyDown key_i, MouseDown 700 0, MouseMove (700 - 1), MouseUp 120] (inspector_mount (layout_init False))
   in ip_width s = 300 \<and> \<not> ip_showPanel s \<and> \<not> ip_isResizing s"
  by (rule inspector_out_of_step [THEN conjunct2]) simp

end
