(* ===== verification/Workspace.thy ===== *)
theory Workspace
  imports Canvas
begin

text \<open>
  The frame around the pages: the theme store with its cookie and the script that applies the theme
  before the page starts (\<open>stores/useThemeStore.ts\<close>, \<open>public/theme-init.js\<close>), the sidebar provider with
  its keyboard shortcut (\<open>components/ui/sidebar.tsx\<close>, \<open>hooks/use-mobile.ts\<close>), navigation bar, sidebar and
  layouts (\<open>routes/_workspace_layout/\<close>, \<open>routes/_index.tsx\<close>, \<open>root.tsx\<close>).
\<close>

section \<open>Cookies\<close>

text \<open>The cookies of the page in the order in which the browser lists them. Reading \<open>document.cookie\<close>
  gives them as one text; assigning a text to it sets one cookie, by the rules for the
  part before the first semicolon (RFC 6265). The attributes that are used do not delete it.\<close>

type_synonym cookies = "(string \<times> string) list"

definition document_cookie :: "cookies \<Rightarrow> string" where
  "document_cookie jar = js_join ''; '' (map (\<lambda>(n, v). n @ ''='' @ v) jar)"

definition assign_cookie :: "string \<Rightarrow> cookies \<Rightarrow> cookies" where
  "assign_cookie txt jar =
     (let pair = takeWhile (\<lambda>c. c \<noteq> CHR '';'') txt
      in js_set (js_trim (takeWhile (\<lambda>c. c \<noteq> CHR ''='') pair)) (js_trim (drop 1 (dropWhile (\<lambda>c. c \<noteq> CHR ''='') pair))) jar)"

section \<open>Theme\<close>

definition getInitialTheme :: "string option \<Rightarrow> string" where
  "getInitialTheme document =
     (case document of
        None \<Rightarrow> ''light''
      | Some txt \<Rightarrow>
          (case List.find (\<lambda>cookie. js_startsWith (js_trim cookie) ''theme='') (js_split (CHR '';'') txt) of
             None \<Rightarrow> ''light''
           | Some themeCookie \<Rightarrow> js_split (CHR ''='') themeCookie ! 1))"

record theme_state =
  th_theme :: string
  th_cookies :: cookies

definition theme_cookie_text :: "string \<Rightarrow> string" where
  "theme_cookie_text t = ''theme='' @ t @ ''; path=/; max-age=31536000''"

definition useThemeStore :: "cookies \<Rightarrow> theme_state" where
  "useThemeStore jar = \<lparr>th_theme = getInitialTheme (Some (document_cookie jar)), th_cookies = jar\<rparr>"

definition toggleTheme :: "theme_state \<Rightarrow> theme_state" where
  "toggleTheme s =
     (let newTheme = (if th_theme s = ''light'' then ''dark'' else ''light'')
      in s\<lparr>th_cookies := assign_cookie (theme_cookie_text newTheme) (th_cookies s), th_theme := newTheme\<rparr>)"

definition setTheme :: "string \<Rightarrow> theme_state \<Rightarrow> theme_state" where
  "setTheme t s = s\<lparr>th_cookies := assign_cookie (theme_cookie_text t) (th_cookies s), th_theme := t\<rparr>"

text \<open>\<open>split("; ")\<close>.\<close>

fun split2 :: "char \<Rightarrow> char \<Rightarrow> string \<Rightarrow> string list" where
  "split2 a b [] = [[]]"
| "split2 a b [x] = [[x]]"
| "split2 a b (x # y # xs) =
     (if x = a \<and> y = b then [] # split2 a b xs
      else (case split2 a b (y # xs) of [] \<Rightarrow> [[x]] | w # ws \<Rightarrow> (x # w) # ws))"

text \<open>The script that runs before the page: the theme it reads and the two classes of the document.\<close>

definition init_theme :: "string \<Rightarrow> string" where
  "init_theme txt =
     (case List.find (\<lambda>row. js_startsWith row ''theme='') (split2 (CHR '';'') (CHR '' '') txt) of
        None \<Rightarrow> ''light''
      | Some row \<Rightarrow> js_or_str (js_split (CHR ''='') row ! 1) ''light'')"

definition theme_init_classes :: "string \<Rightarrow> string set \<Rightarrow> string set" where
  "theme_init_classes txt cls =
     (let theme = init_theme txt in (insert theme cls) - {if theme = ''dark'' then ''light'' else ''dark''})"

datatype theme_event = ToggleTheme | SetTheme bool

fun theme_step :: "theme_event \<Rightarrow> theme_state \<Rightarrow> theme_state" where
  "theme_step ToggleTheme s = toggleTheme s"
| "theme_step (SetTheme dark) s = setTheme (if dark then ''dark'' else ''light'') s"

section \<open>Sidebar\<close>

definition MOBILE_BREAKPOINT :: nat where
  "MOBILE_BREAKPOINT = 768"

text \<open>\<open>None\<close> before the first effect.\<close>

definition useIsMobile :: "nat option \<Rightarrow> bool" where
  "useIsMobile innerWidth = (case innerWidth of None \<Rightarrow> False | Some w \<Rightarrow> w < MOBILE_BREAKPOINT)"

record sidebar_props =
  sb_openProp :: "bool option"
  sb_onOpenChange :: bool

record sidebar_state =
  sb_open :: bool
  sb_openMobile :: bool
  sb_isMobile :: bool
  sb_cookies :: cookies
  sb_calls :: "bool list"

definition sidebar_init :: "bool \<Rightarrow> bool \<Rightarrow> cookies \<Rightarrow> sidebar_state" where
  "sidebar_init defaultOpen mobile jar =
     \<lparr>sb_open = defaultOpen, sb_openMobile = False, sb_isMobile = mobile, sb_cookies = jar, sb_calls = []\<rparr>"

definition sidebar_isOpen :: "sidebar_props \<Rightarrow> sidebar_state \<Rightarrow> bool" where
  "sidebar_isOpen p s = (case sb_openProp p of None \<Rightarrow> sb_open s | Some b \<Rightarrow> b)"

definition setOpen :: "sidebar_props \<Rightarrow> (bool \<Rightarrow> bool) \<Rightarrow> sidebar_state \<Rightarrow> sidebar_state" where
  "setOpen p f s =
     (let openState = f (sidebar_isOpen p s);
          s1 = (if sb_onOpenChange p then s\<lparr>sb_calls := sb_calls s @ [openState]\<rparr> else s\<lparr>sb_open := openState\<rparr>)
      in s1\<lparr>sb_cookies := assign_cookie (''sidebar_state='' @ js_bool openState @ ''; path=/; max-age=604800'') (sb_cookies s1)\<rparr>)"

definition toggleSidebar :: "sidebar_props \<Rightarrow> sidebar_state \<Rightarrow> sidebar_state" where
  "toggleSidebar p s =
     (if sb_isMobile s then s\<lparr>sb_openMobile := \<not> sb_openMobile s\<rparr> else setOpen p (\<lambda>b. \<not> b) s)"

definition sidebar_handleKeyDown :: "sidebar_props \<Rightarrow> key_event \<Rightarrow> sidebar_state \<Rightarrow> sidebar_state" where
  "sidebar_handleKeyDown p e s =
     (if k_key e = ''b'' \<and> (k_meta e \<or> k_ctrl e) then toggleSidebar p s else s)"

definition sidebar_text :: "sidebar_props \<Rightarrow> sidebar_state \<Rightarrow> string" where
  "sidebar_text p s = (if sidebar_isOpen p s then ''expanded'' else ''collapsed'')"

text \<open>The workspace uses the provider without properties, and the canvas layout reads and sets the same
  state (\<open>ly_open\<close>). A key reaches the listener of the provider and that of the layout; the layout's
  handler calls \<open>setOpen\<close> only for the key \<open>f\<close>.\<close>

definition workspace_props :: sidebar_props where
  "workspace_props = \<lparr>sb_openProp = None, sb_onOpenChange = False\<rparr>"

definition workspace_key :: "key_event \<Rightarrow> layout_state \<times> sidebar_state \<Rightarrow> layout_state \<times> sidebar_state" where
  "workspace_key e st =
     (case st of (ly, sb) \<Rightarrow>
        (let sb1 = sidebar_handleKeyDown workspace_props e sb;
             ly1 = handleKeyPress e (ly\<lparr>ly_open := sb_open sb\<rparr>);
             sb2 = (if k_key e = ''f'' \<and> \<not> k_textInput e then setOpen workspace_props (\<lambda>_. ly_open ly1) sb1 else sb1)
         in (ly1\<lparr>ly_open := sb_open sb2\<rparr>, sb2)))"

section \<open>Rendering\<close>

definition Sidebar_ui ::
  "string \<Rightarrow> string \<Rightarrow> string \<Rightarrow> sidebar_props \<Rightarrow> sidebar_state \<Rightarrow> view list \<Rightarrow> view" where
  "Sidebar_ui side variant collapsible p s children =
     (if collapsible = ''none'' then Elem ''div'' [(''data-slot'', ''sidebar'')] children
      else if sb_isMobile s then
        Elem ''Sheet'' [(''open'', js_bool (sb_openMobile s)), (''onOpenChange'', ''setOpenMobile'')]
          [Elem ''SheetContent'' [(''data-sidebar'', ''sidebar''), (''data-slot'', ''sidebar''), (''data-mobile'', ''true''),
               (''--sidebar-width'', ''18rem''), (''side'', side)]
             [Elem ''SheetHeader'' []
                [Elem ''SheetTitle'' [] [Txt ''Sidebar''], Elem ''SheetDescription'' [] [Txt ''Displays the mobile sidebar.'']],
              Elem ''div'' [] children]]
      else
        Elem ''div'' [(''data-state'', sidebar_text p s),
                      (''data-collapsible'', if sidebar_text p s = ''collapsed'' then collapsible else []),
                      (''data-variant'', variant), (''data-side'', side), (''data-slot'', ''sidebar'')]
          [Elem ''div'' [(''data-slot'', ''sidebar-gap''),
               (''class'', if variant = ''floating'' \<or> variant = ''inset''
                  then ''group-data-[collapsible=icon]:w-[calc(var(--sidebar-width-icon)+(--spacing(4)))]''
                  else ''group-data-[collapsible=icon]:w-(--sidebar-width-icon)'')] [],
           Elem ''div'' [(''data-slot'', ''sidebar-container''),
               (''class'', (if side = ''left''
                    then ''left-0 group-data-[collapsible=offcanvas]:left-[calc(var(--sidebar-width)*-1)] ''
                    else ''right-0 group-data-[collapsible=offcanvas]:right-[calc(var(--sidebar-width)*-1)] '') @
                  (if variant = ''floating'' \<or> variant = ''inset''
                    then ''p-2 group-data-[collapsible=icon]:w-[calc(var(--sidebar-width-icon)+(--spacing(4))+2px)]''
                    else ''group-data-[collapsible=icon]:w-(--sidebar-width-icon) group-data-[side=left]:border-r group-data-[side=right]:border-l''))]
             [Elem ''div'' [(''data-sidebar'', ''sidebar''), (''data-slot'', ''sidebar-inner'')] children]])"

definition SidebarTrigger :: view where
  "SidebarTrigger =
     Elem ''Button'' [(''data-sidebar'', ''trigger''), (''data-slot'', ''sidebar-trigger''), (''onClick'', ''toggleSidebar'')]
       [Elem ''PanelLeftIcon'' [] [], Elem ''span'' [] [Txt ''Toggle Sidebar'']]"

definition SidebarRail :: view where
  "SidebarRail =
     Elem ''button'' [(''data-sidebar'', ''rail''), (''data-slot'', ''sidebar-rail''), (''aria-label'', ''Toggle Sidebar''),
       (''tabIndex'', ''-1''), (''onClick'', ''toggleSidebar''), (''title'', ''Toggle Sidebar'')] []"

text \<open>The navigation items: label, icon and path.\<close>

definition WORKSPACE_ITEMS :: "(string \<times> string \<times> string) list" where
  "WORKSPACE_ITEMS =
     [(''Dashboard'', ''LayoutDashboard'', ''/dashboard''), (''Workflow Builder'', ''Zap'', ''/workflow-builder''),
      (''Workflow Library'', ''BookOpen'', ''/workflow-library'')]"

definition INTEGRATION_ITEMS :: "(string \<times> string \<times> string) list" where
  "INTEGRATION_ITEMS =
     [(''Email'', ''Mail'', ''/email-integration''), (''Calendar'', ''Calendar'', ''/calendar''),
      (''Slack'', ''MessageSquare'', ''/slack''), (''Spreadsheets'', ''Database'', ''/spreadsheets''),
      (''Forms'', ''FileText'', ''/forms''), (''Custom Code'', ''Code'', ''/custom-code'')]"

definition FOOTER_ITEMS :: "(string \<times> string) list" where
  "FOOTER_ITEMS = [(''Settings'', ''Settings''), (''Upgrade Plan'', ''Sparkles'')]"

definition menu_item :: "(string \<Rightarrow> bool) \<Rightarrow> string \<times> string \<times> string \<Rightarrow> view" where
  "menu_item isActive item =
     (case item of (label, icon, path) \<Rightarrow>
        Elem ''SidebarMenuItem'' [(''key'', label)]
          [Elem ''NavLink'' [(''to'', path)]
             [Elem ''SidebarMenuButton'' [(''tooltip'', label), (''isActive'', js_bool (isActive path))]
                [Elem ''div'' [] [Elem icon [] [], Elem ''span'' [] [Txt label]]]]])"

definition app_sidebar :: "(string \<Rightarrow> bool) \<Rightarrow> sidebar_state \<Rightarrow> view" where
  "app_sidebar isActive s =
     Sidebar_ui ''left'' ''sidebar'' ''icon'' workspace_props s
       [Elem ''SidebarHeader'' [] [Elem ''SidebarGroupLabel'' [(''aria-label'', ''Workspace Section'')] [Txt ''Workspace'']],
        Elem ''SidebarContent'' []
          [Elem ''SidebarGroup'' [] [Elem ''SidebarGroupContent'' [] [Elem ''SidebarMenu'' [] (map (menu_item isActive) WORKSPACE_ITEMS)]],
           Elem ''SidebarSeparator'' [] [],
           Elem ''SidebarGroup'' []
             [Elem ''SidebarGroupLabel'' [] [Txt ''Integrations''],
              Elem ''SidebarGroupContent'' [] [Elem ''SidebarMenu'' [] (map (menu_item isActive) INTEGRATION_ITEMS)]]],
        Elem ''SidebarFooter'' []
          [Elem ''SidebarMenu'' []
             (map (\<lambda>item. Elem ''SidebarMenuItem'' [(''key'', fst item)]
                [Elem ''SidebarMenuButton'' [(''tooltip'', fst item)] [Elem (snd item) [] [], Elem ''span'' [] [Txt (fst item)]]]) FOOTER_ITEMS)]]"

definition Navbar :: "bool \<Rightarrow> string \<Rightarrow> view" where
  "Navbar mounted theme =
     Elem ''header'' []
       [SidebarTrigger,
        Elem ''Link'' [(''to'', ''/dashboard''), (''aria-label'', ''Return to Dashboard'')]
          [Elem ''div'' [] [Elem ''Zap'' [(''aria-hidden'', ''true'')] [], Elem ''Zap'' [(''aria-hidden'', ''true''), (''fill'', ''currentColor'')] []],
           Elem ''span'' [] [Txt ''TinyAutomator'']],
        Elem ''div'' []
          [Elem ''Tooltip'' []
             [Elem ''TooltipTrigger'' []
                [Elem ''Button'' [(''onClick'', ''toggleTheme'')]
                   [if \<not> mounted then Elem ''div'' [] [] else if theme = ''dark'' then Elem ''Sun'' [] [] else Elem ''Moon'' [] []]],
              Elem ''TooltipContent'' [(''side'', ''bottom'')] [Txt ''Toggle Theme'']],
           Elem ''Tooltip'' []
             [Elem ''TooltipTrigger'' []
                [Elem ''Button'' [(''onClick'', ''window.open https://docs.tinyautomator.com _blank'')]
                   [Elem ''HelpCircle'' [] [], Elem ''span'' [] [Txt ''Support'']]],
              Elem ''TooltipContent'' [(''side'', ''bottom'')] [Txt ''Support'']],
           Elem ''UserButton'' [] [Elem ''UserCog'' [] []]]]"

definition workspace_layout :: "(string \<Rightarrow> bool) \<Rightarrow> bool \<Rightarrow> string \<Rightarrow> sidebar_state \<Rightarrow> view \<Rightarrow> view" where
  "workspace_layout isActive mounted theme s outlet =
     Elem ''TooltipProvider'' []
       [Elem ''Toaster'' [] [],
        Elem ''SidebarProvider'' []
          [Elem ''div'' []
             [Navbar mounted theme, Elem ''div'' [] [app_sidebar isActive s, Elem ''main'' [] [outlet]]]]]"

definition GlobalSpinner :: view where
  "GlobalSpinner =
     Elem ''div'' [] [Elem ''div'' [] [Elem ''Settings'' [] []], Elem ''div'' [] [Elem ''Settings'' [] []], Elem ''div'' [] [Elem ''Settings'' [] []]]"

definition root_layout :: "string \<Rightarrow> bool \<Rightarrow> view list \<Rightarrow> view" where
  "root_layout theme debouncedIsNavigating children =
     Elem ''html'' [(''lang'', ''en''), (''class'', theme @ '' select-none'')]
       [Elem ''head'' []
          [Elem ''script'' [(''src'', ''/theme-init.js'')] [], Elem ''meta'' [(''charSet'', ''UTF-8'')] [],
           Elem ''meta'' [(''name'', ''viewport''), (''content'', ''width=device-width, initial-scale=1.0'')] [],
           Elem ''title'' [] [Txt ''Tiny Automator''],
           Elem ''link'' [(''rel'', ''icon''), (''type'', ''image/x-icon''), (''href'', ''/favicon.ico'')] [],
           Elem ''link'' [(''rel'', ''apple-touch-icon''), (''sizes'', ''180x180''), (''href'', ''/apple-touch-icon.png'')] [],
           Elem ''link'' [(''rel'', ''icon''), (''type'', ''image/png''), (''sizes'', ''32x32''), (''href'', ''/favicon-32x32.png'')] [],
           Elem ''link'' [(''rel'', ''icon''), (''type'', ''image/png''), (''sizes'', ''16x16''), (''href'', ''/favicon-16x16.png'')] [],
           Elem ''link'' [(''rel'', ''manifest''), (''href'', ''/site.webmanifest'')] [],
           Elem ''Meta'' [] [], Elem ''Links'' [] []],
        Elem ''body'' []
          (show_if debouncedIsNavigating GlobalSpinner @ children @ [Elem ''ScrollRestoration'' [] [], Elem ''Scripts'' [] []])]"

text \<open>The loaders of the two frames: \<open>Some\<close> is a redirection.\<close>

definition workspace_loader :: "string option \<Rightarrow> string option" where
  "workspace_loader userId = (if truthy_str userId = None then Some ''/'' else None)"

definition index_loader :: "string option \<Rightarrow> string option" where
  "index_loader userId = (if truthy_str userId \<noteq> None then Some ''/dashboard'' else None)"

section \<open>Cookie texts\<close>

text \<open>Cookies as a browser accepts them: a name without separators, a value without semicolons, and no
  white space at the ends of the pair.\<close>

definition cookie_ok :: "string \<times> string \<Rightarrow> bool" where
  "cookie_ok nv \<longleftrightarrow>
     fst nv \<noteq> [] \<and> CHR '';'' \<notin> set (fst nv) \<and> CHR ''='' \<notin> set (fst nv) \<and> CHR '';'' \<notin> set (snd nv) \<and>
     js_trim (fst nv @ ''='' @ snd nv) = fst nv @ ''='' @ snd nv"

definition cookies_ok :: "cookies \<Rightarrow> bool" where
  "cookies_ok jar \<longleftrightarrow> list_all cookie_ok jar"

definition cookie_pair :: "string \<times> string \<Rightarrow> string" where
  "cookie_pair nv = fst nv @ ''='' @ snd nv"

lemma document_cookie_pairs: "document_cookie jar = js_join ''; '' (map cookie_pair jar)"
proof -
  have "(\<lambda>(n, v). n @ ''='' @ v) = cookie_pair" by (auto simp: cookie_pair_def fun_eq_iff)
  then show ?thesis by (simp add: document_cookie_def)
qed

lemma split2_no_sep: "a \<notin> set w \<Longrightarrow> split2 a b w = [w]"
  by (induction w rule: induct_list012) auto

lemma split2_append: "a \<notin> set w \<Longrightarrow> split2 a b (w @ a # b # s) = w # split2 a b s"
proof (induction w)
  case (Cons x w)
  then show ?case by (cases w) auto
qed simp

lemma split2_join:
  "ws \<noteq> [] \<Longrightarrow> (\<And>w. w \<in> set ws \<Longrightarrow> a \<notin> set w) \<Longrightarrow> split2 a b (js_join [a, b] ws) = ws"
  by (induction ws rule: induct_list012) (simp_all add: split2_no_sep split2_append)

lemma js_split_join2:
  "(\<And>w. w \<in> set ws \<Longrightarrow> a \<notin> set w) \<Longrightarrow> a \<noteq> b \<Longrightarrow>
     js_split a (js_join [a, b] (w # ws)) = w # map (Cons b) ws" if "a \<notin> set w"
  using that
proof (induction ws arbitrary: w)
  case (Cons v ws)
  have "js_split a (b # js_join [a, b] (v # ws)) = (b # v) # map (Cons b) ws"
    using Cons by (simp add: split: list.splits)
  then show ?case using Cons.prems by (simp add: js_split_append)
qed (simp add: js_split_plain)

lemma find_map: "List.find P (map f xs) = map_option f (List.find (\<lambda>x. P (f x)) xs)"
  by (induction xs) auto

lemma find_key: "List.find (\<lambda>nv. fst nv = k) jar = map_option (Pair k) (map_of jar k)"
  by (induction jar) auto

lemma find_cong_set: "(\<And>x. x \<in> set xs \<Longrightarrow> P x = Q x) \<Longrightarrow> List.find P xs = List.find Q xs"
  by (induction xs) auto

lemma starts_theme:
  assumes "cookie_ok nv" shows "js_startsWith (cookie_pair nv) ''theme='' \<longleftrightarrow> fst nv = ''theme''"
proof
  assume "js_startsWith (cookie_pair nv) ''theme=''"
  then have "take 6 (cookie_pair nv) = ''theme=''" by (simp add: js_startsWith_def eval_nat_numeral)
  then have "cookie_pair nv = ''theme='' @ drop 6 (cookie_pair nv)" by (metis append_take_drop_id)
  then obtain r where r: "fst nv @ CHR ''='' # snd nv = ''theme'' @ CHR ''='' # r"
    by (simp add: cookie_pair_def)
  have "takeWhile (\<lambda>c. c \<noteq> CHR ''='') (w @ CHR ''='' # s) = w" if "CHR ''='' \<notin> set w" for w s
    using that by (induction w) auto
  from this [of "fst nv" "snd nv"] this [of "''theme''" r] r assms show "fst nv = ''theme''"
    by (simp add: cookie_ok_def)
qed (simp add: cookie_pair_def js_startsWith_def)

lemma trim_pair: "cookie_ok nv \<Longrightarrow> js_trim (cookie_pair nv) = cookie_pair nv"
  "cookie_ok nv \<Longrightarrow> js_trim (CHR '' '' # cookie_pair nv) = cookie_pair nv"
proof -
  have "js_trim (CHR '' '' # s) = js_trim s" for s by (simp add: js_trim_def js_is_ws_def)
  then show "cookie_ok nv \<Longrightarrow> js_trim (CHR '' '' # cookie_pair nv) = cookie_pair nv"
    "cookie_ok nv \<Longrightarrow> js_trim (cookie_pair nv) = cookie_pair nv"
    by (simp_all add: cookie_ok_def cookie_pair_def)
qed

lemma pair_no_semicolon: "cookie_ok nv \<Longrightarrow> CHR '';'' \<notin> set (cookie_pair nv)"
  by (simp add: cookie_ok_def cookie_pair_def)

lemma split_theme_pair:
  "js_split (CHR ''='') (cookie_pair (''theme'', v)) ! Suc 0 = hd (js_split (CHR ''='') v)"
  "js_split (CHR ''='') (CHR '' '' # cookie_pair (''theme'', v)) ! Suc 0 = hd (js_split (CHR ''='') v)"
  using js_split_append [of "CHR ''=''" "''theme''" v] js_split_append [of "CHR ''=''" "'' theme''" v]
  by (simp_all add: cookie_pair_def hd_conv_nth)

text \<open>Both readers find the cookie that is named \<open>theme\<close>.\<close>

lemma getInitialTheme_lookup:
  assumes "cookies_ok jar"
  shows "getInitialTheme (Some (document_cookie jar)) =
    (case map_of jar ''theme'' of None \<Rightarrow> ''light'' | Some v \<Rightarrow> hd (js_split (CHR ''='') v))"
proof (cases jar)
  case Nil
  then show ?thesis by (simp add: getInitialTheme_def document_cookie_def js_startsWith_def js_trim_def)
next
  case (Cons nv jar')
  let ?P = "\<lambda>cookie. js_startsWith (js_trim cookie) ''theme=''"
  have ok: "\<And>x. x \<in> set jar' \<Longrightarrow> cookie_ok x" "cookie_ok nv"
    using assms Cons by (auto simp: cookies_ok_def list_all_iff)
  have "js_split (CHR '';'') (document_cookie jar) = cookie_pair nv # map (Cons (CHR '' '')) (map cookie_pair jar')"
    unfolding document_cookie_pairs Cons list.map using ok pair_no_semicolon by (intro js_split_join2) auto
  moreover have "?P (cookie_pair nv) \<longleftrightarrow> fst nv = ''theme''" using ok by (simp add: trim_pair starts_theme)
  moreover have "List.find ?P (map (Cons (CHR '' '')) (map cookie_pair jar')) =
      map_option (\<lambda>x. CHR '' '' # cookie_pair x) (List.find (\<lambda>x. fst x = ''theme'') jar')"
  proof -
    have "List.find (\<lambda>x. ?P (CHR '' '' # cookie_pair x)) jar' = List.find (\<lambda>x. fst x = ''theme'') jar'"
      using ok by (intro find_cong_set) (simp add: trim_pair starts_theme)
    then show ?thesis by (simp add: find_map option.map_comp o_def)
  qed
  ultimately show ?thesis
    unfolding getInitialTheme_def option.case find_key
    by (cases nv) (auto simp: Cons split_theme_pair simp del: js_split.simps map_map split: option.split)
qed

lemma init_theme_lookup:
  assumes "cookies_ok jar"
  shows "init_theme (document_cookie jar) =
    (case map_of jar ''theme'' of None \<Rightarrow> ''light'' | Some v \<Rightarrow> js_or_str (hd (js_split (CHR ''='') v)) ''light'')"
proof (cases "jar = []")
  case True
  then show ?thesis by (simp add: init_theme_def document_cookie_def js_startsWith_def)
next
  case False
  have "split2 (CHR '';'') (CHR '' '') (document_cookie jar) = map cookie_pair jar"
    unfolding document_cookie_pairs using False assms pair_no_semicolon
    by (intro split2_join) (auto simp: cookies_ok_def list_all_iff)
  moreover have "List.find (\<lambda>x. js_startsWith (cookie_pair x) ''theme='') jar = List.find (\<lambda>x. fst x = ''theme'') jar"
    using assms by (intro find_cong_set) (simp add: cookies_ok_def list_all_iff starts_theme)
  ultimately show ?thesis
    by (simp add: init_theme_def find_map find_key split_theme_pair split: option.split)
qed

section \<open>The theme survives a reload\<close>

lemma assign_cookie_pair:
  assumes "CHR '';'' \<notin> set n" "CHR ''='' \<notin> set n" "CHR '';'' \<notin> set v" "js_trim n = n" "js_trim v = v"
  shows "assign_cookie (n @ ''='' @ v @ '';'' @ r) jar = js_set n v jar"
proof -
  have 1: "takeWhile (\<lambda>c. c \<noteq> CHR '';'') (w @ CHR '';'' # s) = w" if "CHR '';'' \<notin> set w" for w s
    using that by (induction w) auto
  have 2: "takeWhile (\<lambda>c. c \<noteq> CHR ''='') (n @ CHR ''='' # s) = n" "dropWhile (\<lambda>c. c \<noteq> CHR ''='') (n @ CHR ''='' # s) = CHR ''='' # s" for s
    using assms(2) by (induction n) auto
  have "takeWhile (\<lambda>c. c \<noteq> CHR '';'') (n @ ''='' @ v @ '';'' @ r) = n @ CHR ''='' # v"
    using assms(1,3) 1 [of "n @ CHR ''='' # v" r] by simp
  then show ?thesis using assms(4,5) by (simp add: assign_cookie_def Let_def 2)
qed

lemma list_all_js_set: "list_all P jar \<Longrightarrow> P (n, v) \<Longrightarrow> list_all P (js_set n v jar)"
  by (induction jar) auto

lemma theme_cookie_set:
  assumes "t = ''light'' \<or> t = ''dark''"
  shows "assign_cookie (theme_cookie_text t) jar = js_set ''theme'' t jar" and "hd (js_split (CHR ''='') t) = t" and "t \<noteq> []"
    and "cookies_ok jar \<Longrightarrow> cookies_ok (js_set ''theme'' t jar)"
proof -
  have trim: "js_trim ''theme'' = ''theme''" "js_trim t = t" "js_trim (''theme='' @ t) = ''theme='' @ t"
    using assms by (elim disjE; simp; code_simp)+
  show "assign_cookie (theme_cookie_text t) jar = js_set ''theme'' t jar"
    using assign_cookie_pair [of "''theme''" t "'' path=/; max-age=31536000''" jar] trim assms
    by (auto simp: theme_cookie_text_def)
  show "hd (js_split (CHR ''='') t) = t" "t \<noteq> []" using assms by auto
  have "cookie_ok (''theme'', t)" using assms trim(3) by (auto simp: cookie_ok_def)
  then show "cookies_ok jar \<Longrightarrow> cookies_ok (js_set ''theme'' t jar)" by (simp add: cookies_ok_def list_all_js_set)
qed

definition theme_inv :: "theme_state \<Rightarrow> bool" where
  "theme_inv s \<longleftrightarrow> cookies_ok (th_cookies s) \<and> getInitialTheme (Some (document_cookie (th_cookies s))) = th_theme s"

lemma theme_inv_set:
  assumes "cookies_ok jar" and "t = ''light'' \<or> t = ''dark''"
  shows "theme_inv \<lparr>th_theme = t, th_cookies = assign_cookie (theme_cookie_text t) jar\<rparr>"
  using theme_cookie_set [OF assms(2)] assms(1) by (simp add: theme_inv_def getInitialTheme_lookup)

lemma theme_step_inv: "theme_inv s \<Longrightarrow> theme_inv (theme_step e s)"
proof -
  have upd: "s\<lparr>th_cookies := j, th_theme := t\<rparr> = \<lparr>th_theme = t, th_cookies = j\<rparr>" for j t by (cases s) simp
  show "theme_inv s \<Longrightarrow> theme_inv (theme_step e s)"
    by (cases e) (auto simp: toggleTheme_def setTheme_def Let_def upd intro!: theme_inv_set simp: theme_inv_def [of s])
qed

lemma theme_machine: "cookies_ok jar \<Longrightarrow> machine (useThemeStore jar) theme_step theme_inv"
  by unfold_locales (simp add: theme_inv_def useThemeStore_def, rule theme_step_inv)

lemma theme_classes:
  assumes "t \<in> {''light'', ''dark''}"
  shows "(let theme = js_or_str t ''light'' in insert theme cls - {if theme = ''dark'' then ''light'' else ''dark''}) \<inter> {''light'', ''dark''} = {t}"
  using assms by (elim insertE) (simp_all add: Let_def js_or_str_def; blast)+

text \<open>Claim C36: after any sequence of theme changes the cookies are such that a reload restores the theme of
  the store, and the script that runs before the page reads the same theme (light in place of an empty one), so the
  page does not flicker; it sets the class of that theme and removes the other one.\<close>

theorem theme_survives_reload:
  assumes "cookies_ok jar"
  shows "let s = fold theme_step evs (useThemeStore jar); doc = document_cookie (th_cookies s)
         in th_theme (useThemeStore (th_cookies s)) = th_theme s \<and>
            init_theme doc = js_or_str (th_theme s) ''light'' \<and>
            (evs \<noteq> [] \<longrightarrow> theme_init_classes doc cls \<inter> {''light'', ''dark''} = {th_theme s})"
proof -
  let ?s = "fold theme_step evs (useThemeStore jar)"
  have inv: "theme_inv ?s" by (rule machine.inv_run [OF theme_machine [OF assms]])
  then have th: "getInitialTheme (Some (document_cookie (th_cookies ?s))) = th_theme ?s" and ok: "cookies_ok (th_cookies ?s)"
    by (simp_all add: theme_inv_def)
  have init: "init_theme (document_cookie (th_cookies ?s)) = js_or_str (th_theme ?s) ''light''"
    unfolding th [symmetric] init_theme_lookup [OF ok] getInitialTheme_lookup [OF ok]
    by (simp add: js_or_str_def split: option.split)
  have "th_theme (fold theme_step es s) \<in> {''light'', ''dark''}" if ne: "es \<noteq> []" for es s
  proof -
    have "th_theme (theme_step e s) \<in> {''light'', ''dark''}" for e s
      by (cases e) (auto simp: toggleTheme_def setTheme_def Let_def)
    moreover obtain es' e where "es = es' @ [e]" using ne by (cases es rule: rev_cases) auto
    ultimately show ?thesis by simp
  qed
  then have "theme_init_classes (document_cookie (th_cookies ?s)) cls \<inter> {''light'', ''dark''} = {th_theme ?s}" if "evs \<noteq> []"
    unfolding theme_init_classes_def init using that by (intro theme_classes) blast
  moreover have "th_theme (useThemeStore c) = getInitialTheme (Some (document_cookie c))" for c
    by (simp add: useThemeStore_def)
  then have "th_theme (useThemeStore (th_cookies ?s)) = th_theme ?s" by (simp only: th)
  ultimately show ?thesis using init by (simp only: Let_def) blast
qed

theorem theme_survives_reload_witness:
  "th_theme (useThemeStore (th_cookies (fold theme_step [ToggleTheme] (useThemeStore [(''a'', ''1'')])))) =
     th_theme (fold theme_step [ToggleTheme] (useThemeStore [(''a'', ''1'')]))"
proof -
  have "cookies_ok [(''a'', ''1'')]" by code_simp
  then show ?thesis using theme_survives_reload [of "[(''a'', ''1'')]" "[ToggleTheme]" "{}"] by (simp add: Let_def)
qed

section \<open>Keys of the sidebar\<close>

definition key_b :: "bool \<Rightarrow> bool \<Rightarrow> bool \<Rightarrow> key_event" where
  "key_b meta ctrl inText = \<lparr>k_key = ''b'', k_meta = meta, k_ctrl = ctrl, k_textInput = inText\<rparr>"

lemma sidebar_cookie:
  "sb_cookies (setOpen workspace_props f sb) = js_set ''sidebar_state'' (js_bool (f (sb_open sb))) (sb_cookies sb)"
  "sb_open (setOpen workspace_props f sb) = f (sb_open sb)"
proof -
  have "assign_cookie (''sidebar_state='' @ js_bool b @ ''; path=/; max-age=604800'') jar = js_set ''sidebar_state'' (js_bool b) jar" for b jar
  proof -
    have trim: "js_trim ''sidebar_state'' = ''sidebar_state''" "js_trim (js_bool b) = js_bool b"
      by (rule js_trim_no_ws; auto simp: js_is_ws_def js_bool_def split: if_splits)+
    have eq: "''sidebar_state='' @ js_bool b @ ''; path=/; max-age=604800'' =
        ''sidebar_state'' @ ''='' @ js_bool b @ '';'' @ '' path=/; max-age=604800''" by simp
    show ?thesis
      unfolding eq by (rule assign_cookie_pair [OF _ _ _ trim]) (simp_all add: js_bool_def)
  qed
  then show "sb_cookies (setOpen workspace_props f sb) = js_set ''sidebar_state'' (js_bool (f (sb_open sb))) (sb_cookies sb)"
    "sb_open (setOpen workspace_props f sb) = f (sb_open sb)"
    by (simp_all add: setOpen_def sidebar_isOpen_def workspace_props_def Let_def)
qed

text \<open>On a desktop the key \<open>b\<close> with control or command toggles the sidebar and notes its
  state in the cookie, also from a text field, and leaves the panels; without them it toggles the
  block panel and leaves the sidebar, but not from a text field. The layout and the provider agree
  on the state of the sidebar after every key.\<close>

lemma sidebar_and_panel_keys:
  assumes "\<not> sb_isMobile sb"
  shows "(let (ly', sb') = workspace_key (key_b meta ctrl inText) (ly, sb)
          in if meta \<or> ctrl
             then sb_open sb' = (\<not> sb_open sb) \<and> toggleBlockPanel ly' = toggleBlockPanel ly \<and>
                  map_of (sb_cookies sb') ''sidebar_state'' = Some (js_bool (sb_open sb'))
             else sb' = sb \<and> toggleBlockPanel ly' = (if inText then toggleBlockPanel ly else \<not> toggleBlockPanel ly)) \<and>
         (let (ly', sb') = workspace_key e (ly, sb)
          in ly_open ly' = sb_open sb' \<and>
             (sb_open sb' \<noteq> sb_open sb \<longrightarrow> map_of (sb_cookies sb') ''sidebar_state'' = Some (js_bool (sb_open sb'))))"
  using assms
  by (auto simp: workspace_key_def sidebar_handleKeyDown_def toggleSidebar_def key_b_def handleKeyPress_def sidebar_cookie Let_def)

lemma sidebar_and_panel_keys_example:
  "case workspace_key (key_b False True True) (layout_init True, sidebar_init True False []) of (ly', sb') \<Rightarrow>
     \<not> sb_open sb' \<and> toggleBlockPanel ly'"
  using sidebar_and_panel_keys [of "sidebar_init True False []" False True True "layout_init True" "key_b False True True"]
  by (simp add: sidebar_init_def layout_init_def split: prod.splits)

end
