(* ===== verification/Ui_Kit.thy ===== *)
theory Ui_Kit
  imports Workspace
begin

text \<open>
  The parts of the sidebar (\<open>components/ui/sidebar.tsx\<close>) and of a form field (\<open>components/ui/form.tsx\<close>) that
  the pages are put together from, and the landing page (\<open>App.tsx\<close>). A part takes the attributes and the children that its user
  passes; the user's attributes replace its own of the same name.
\<close>

type_synonym attrs = "(string \<times> string) list"

definition with_props :: "attrs \<Rightarrow> attrs \<Rightarrow> attrs" where
  "with_props own props = fold (\<lambda>(k, v). js_set k v) props own"

lemma with_props_user: "distinct (map fst props) \<Longrightarrow> map_of props k = Some v \<Longrightarrow> map_of (with_props own props) k = Some v"
proof (induction props arbitrary: own)
  case (Cons p ps)
  obtain a b where p: "p = (a, b)" by fastforce
  have keep: "map_of (fold (\<lambda>(k, v). js_set k v) qs m) c = map_of m c" if "c \<notin> fst ` set qs" for qs c and m :: attrs
    using that by (induction qs arbitrary: m) (auto simp: case_prod_beta)
  show ?case
  proof (cases "a = k")
    case True
    then show ?thesis using Cons.prems keep [of a ps "js_set a b own"] by (simp add: p with_props_def)
  next
    case False
    then show ?thesis using Cons.IH [of "js_set a b own"] Cons.prems by (simp add: p with_props_def)
  qed
qed simp

lemma with_props_own:
  "k \<notin> fst ` set props \<Longrightarrow> map_of (with_props own props) k = map_of own k"
  unfolding with_props_def by (induction props arbitrary: own) (auto simp: case_prod_beta)

text \<open>\<open>Comp = asChild ? Slot : tag\<close>.\<close>

definition comp :: "bool \<Rightarrow> string \<Rightarrow> string" where
  "comp asChild tag = (if asChild then ''Slot'' else tag)"

section \<open>Sidebar\<close>

definition useSidebar :: "sidebar_state option \<Rightarrow> sidebar_state js" where
  "useSidebar ctx =
     (case ctx of None \<Rightarrow> Inl (ErrorMsg ''useSidebar must be used within a SidebarProvider.'') | Some s \<Rightarrow> Inr s)"

definition SidebarProvider :: "attrs \<Rightarrow> attrs \<Rightarrow> view list \<Rightarrow> view" where
  "SidebarProvider style props children =
     Elem ''SidebarContext.Provider'' []
       [Elem ''TooltipProvider'' [(''delayDuration'', ''0'')]
          [Elem ''div'' (with_props
               ((''data-slot'', ''sidebar-wrapper'') #
                with_props [(''--sidebar-width'', ''16rem''), (''--sidebar-width-icon'', ''3rem'')] style) props) children]]"

definition part :: "string \<Rightarrow> string \<Rightarrow> attrs \<Rightarrow> view list \<Rightarrow> view" where
  "part tag name props children =
     Elem tag (with_props [(''data-slot'', ''sidebar-'' @ name), (''data-sidebar'', name)] props) children"

definition SidebarInset :: "attrs \<Rightarrow> view list \<Rightarrow> view" where
  "SidebarInset props children = Elem ''main'' (with_props [(''data-slot'', ''sidebar-inset'')] props) children"

definition SidebarInput :: "attrs \<Rightarrow> view" where
  "SidebarInput props = part ''Input'' ''input'' props []"

definition SidebarHeader :: "attrs \<Rightarrow> view list \<Rightarrow> view" where
  "SidebarHeader = part ''div'' ''header''"

definition SidebarFooter :: "attrs \<Rightarrow> view list \<Rightarrow> view" where
  "SidebarFooter = part ''div'' ''footer''"

definition SidebarSeparator :: "attrs \<Rightarrow> view" where
  "SidebarSeparator props = part ''Separator'' ''separator'' props []"

definition SidebarContent :: "attrs \<Rightarrow> view list \<Rightarrow> view" where
  "SidebarContent = part ''div'' ''content''"

definition SidebarGroup :: "attrs \<Rightarrow> view list \<Rightarrow> view" where
  "SidebarGroup = part ''div'' ''group''"

definition SidebarGroupLabel :: "bool \<Rightarrow> attrs \<Rightarrow> view list \<Rightarrow> view" where
  "SidebarGroupLabel asChild = part (comp asChild ''div'') ''group-label''"

definition SidebarGroupAction :: "bool \<Rightarrow> attrs \<Rightarrow> view list \<Rightarrow> view" where
  "SidebarGroupAction asChild = part (comp asChild ''button'') ''group-action''"

definition SidebarGroupContent :: "attrs \<Rightarrow> view list \<Rightarrow> view" where
  "SidebarGroupContent = part ''div'' ''group-content''"

definition SidebarMenu :: "attrs \<Rightarrow> view list \<Rightarrow> view" where
  "SidebarMenu = part ''ul'' ''menu''"

definition SidebarMenuItem :: "attrs \<Rightarrow> view list \<Rightarrow> view" where
  "SidebarMenuItem = part ''li'' ''menu-item''"

definition sidebarMenuButtonVariants :: "string \<Rightarrow> string \<Rightarrow> string" where
  "sidebarMenuButtonVariants variant sz =
     (if variant = ''outline''
      then ''bg-background shadow-[0_0_0_1px_hsl(var(--sidebar-border))] hover:bg-sidebar-accent hover:text-sidebar-accent-foreground hover:shadow-[0_0_0_1px_hsl(var(--sidebar-accent))]''
      else if variant = ''default'' then ''hover:bg-sidebar-accent hover:text-sidebar-accent-foreground'' else []) @ '' '' @
     (if sz = ''default'' then ''h-8 text-sm''
      else if sz = ''sm'' then ''h-7 text-xs''
      else if sz = ''lg'' then ''h-12 text-sm group-data-[collapsible=icon]:p-0!'' else [])"

datatype tooltip_arg = TipText string | TipProps attrs "view list"

definition SidebarMenuButton ::
  "sidebar_props \<Rightarrow> sidebar_state \<Rightarrow> bool \<Rightarrow> bool \<Rightarrow> string \<Rightarrow> string \<Rightarrow> tooltip_arg option \<Rightarrow> attrs \<Rightarrow> view list \<Rightarrow> view" where
  "SidebarMenuButton p s asChild isActive variant sz tooltip props children =
     (let button = Elem (comp asChild ''button'')
            (with_props [(''data-slot'', ''sidebar-menu-button''), (''data-sidebar'', ''menu-button''), (''data-size'', sz),
               (''data-active'', js_bool isActive), (''class'', sidebarMenuButtonVariants variant sz)] props) children;
          tip = (\<lambda>tip_props tip_children.
            Elem ''Tooltip'' []
              [Elem ''TooltipTrigger'' [] [button],
               Elem ''TooltipContent'' (with_props [(''side'', ''right''), (''align'', ''center''),
                   (''hidden'', js_bool (sidebar_text p s \<noteq> ''collapsed'' \<or> sb_isMobile s))] tip_props) tip_children])
      in case tooltip of
           None \<Rightarrow> button
         | Some (TipText t) \<Rightarrow> if t = [] then button else tip [] [Txt t]
         | Some (TipProps ps cs) \<Rightarrow> tip ps cs)"

definition SidebarMenuAction :: "bool \<Rightarrow> bool \<Rightarrow> attrs \<Rightarrow> view list \<Rightarrow> view" where
  "SidebarMenuAction asChild showOnHover props children =
     Elem (comp asChild ''button'')
       (with_props [(''data-slot'', ''sidebar-menu-action''), (''data-sidebar'', ''menu-action''),
          (''class'', if showOnHover then ''peer-data-[active=true]/menu-button:text-sidebar-accent-foreground group-focus-within/menu-item:opacity-100 group-hover/menu-item:opacity-100 data-[state=open]:opacity-100 md:opacity-0'' else [])] props) children"

definition SidebarMenuBadge :: "attrs \<Rightarrow> view list \<Rightarrow> view" where
  "SidebarMenuBadge = part ''div'' ''menu-badge''"

text \<open>The width of a skeleton, for a random number from 0 up to but not including 1.\<close>

definition skeleton_width :: "real \<Rightarrow> int" where
  "skeleton_width random = \<lfloor>random * 40\<rfloor> + 50"

definition SidebarMenuSkeleton :: "real \<Rightarrow> bool \<Rightarrow> attrs \<Rightarrow> view" where
  "SidebarMenuSkeleton random showIcon props =
     part ''div'' ''menu-skeleton'' props
       (show_if showIcon (Elem ''Skeleton'' [(''data-sidebar'', ''menu-skeleton-icon'')] []) @
        [Elem ''Skeleton'' [(''data-sidebar'', ''menu-skeleton-text''), (''--skeleton-width'', js_of_nat (nat (skeleton_width random)) @ ''%'')] []])"

definition SidebarMenuSub :: "attrs \<Rightarrow> view list \<Rightarrow> view" where
  "SidebarMenuSub = part ''ul'' ''menu-sub''"

definition SidebarMenuSubItem :: "attrs \<Rightarrow> view list \<Rightarrow> view" where
  "SidebarMenuSubItem = part ''li'' ''menu-sub-item''"

definition SidebarMenuSubButton :: "bool \<Rightarrow> string \<Rightarrow> bool \<Rightarrow> attrs \<Rightarrow> view list \<Rightarrow> view" where
  "SidebarMenuSubButton asChild sz isActive props children =
     Elem (comp asChild ''a'')
       (with_props [(''data-slot'', ''sidebar-menu-sub-button''), (''data-sidebar'', ''menu-sub-button''), (''data-size'', sz),
          (''data-active'', js_bool isActive),
          (''class'', if sz = ''sm'' then ''text-xs'' else if sz = ''md'' then ''text-sm'' else [])] props) children"

text \<open>The comment in the source gives 50 to 90 percent.\<close>

lemma skeleton_width_bounds: "0 \<le> r \<Longrightarrow> r < 1 \<Longrightarrow> 50 \<le> skeleton_width r \<and> skeleton_width r < 90"
  by (auto simp: skeleton_width_def floor_less_iff)

text \<open>The tooltip of a menu button is visible exactly on a desktop with the sidebar collapsed, unless its user says otherwise.\<close>

lemma menu_tooltip_hidden:
  assumes "t \<noteq> []"
  shows "\<exists>b as. SidebarMenuButton p s asChild isActive variant sz (Some (TipText t)) props children =
      Elem ''Tooltip'' [] [Elem ''TooltipTrigger'' [] [b], Elem ''TooltipContent'' as [Txt t]] \<and>
    map_of as ''hidden'' = Some (js_bool (sidebar_isOpen p s \<or> sb_isMobile s))"
  using assms by (auto simp: SidebarMenuButton_def Let_def with_props_def sidebar_text_def)

section \<open>Form fields\<close>

text \<open>The ids of a field come from the identifier of its \<open>FormItem\<close>, which is undefined outside of one. The
  check for a missing \<open>FormField\<close> never fails: the default of that context is an empty object.\<close>

record form_field =
  ff_id :: "string option"
  ff_name :: "string option"
  ff_error :: "string option option"

definition field_id :: "form_field \<Rightarrow> string" where
  "field_id f = (case ff_id f of None \<Rightarrow> ''undefined'' | Some i \<Rightarrow> i)"

definition formItemId :: "form_field \<Rightarrow> string" where
  "formItemId f = field_id f @ ''-form-item''"

definition formDescriptionId :: "form_field \<Rightarrow> string" where
  "formDescriptionId f = field_id f @ ''-form-item-description''"

definition formMessageId :: "form_field \<Rightarrow> string" where
  "formMessageId f = field_id f @ ''-form-item-message''"

definition FormItem :: "attrs \<Rightarrow> view list \<Rightarrow> view" where
  "FormItem props children = Elem ''div'' (with_props [(''data-slot'', ''form-item'')] props) children"

definition FormLabel :: "form_field \<Rightarrow> attrs \<Rightarrow> view list \<Rightarrow> view" where
  "FormLabel f props children =
     Elem ''Label'' (with_props [(''data-slot'', ''form-label''), (''data-error'', js_bool (ff_error f \<noteq> None)),
       (''htmlFor'', formItemId f)] props) children"

definition FormControl :: "form_field \<Rightarrow> attrs \<Rightarrow> view list \<Rightarrow> view" where
  "FormControl f props children =
     Elem ''Slot'' (with_props [(''data-slot'', ''form-control''), (''id'', formItemId f),
       (''aria-describedby'', if ff_error f = None then formDescriptionId f else formDescriptionId f @ '' '' @ formMessageId f),
       (''aria-invalid'', js_bool (ff_error f \<noteq> None))] props) children"

definition FormDescription :: "form_field \<Rightarrow> attrs \<Rightarrow> view list \<Rightarrow> view" where
  "FormDescription f props children =
     Elem ''p'' (with_props [(''data-slot'', ''form-description''), (''id'', formDescriptionId f)] props) children"

definition FormMessage :: "form_field \<Rightarrow> attrs \<Rightarrow> view list \<Rightarrow> view list" where
  "FormMessage f props children =
     (let body = (case ff_error f of
            Some m \<Rightarrow> (case truthy_str m of None \<Rightarrow> [] | Some t \<Rightarrow> [Txt t])
          | None \<Rightarrow> children)
      in show_if (body \<noteq> [])
           (Elem ''p'' (with_props [(''data-slot'', ''form-message''), (''id'', formMessageId f)] props) body))"

text \<open>The label names its control, and the control refers to the message exactly when the field has an error; the
  message that it refers to is there exactly when the error has a text.\<close>

lemma form_field_wired:
  "\<exists>as bs. FormLabel f [] cs = Elem ''Label'' as cs \<and> FormControl f [] ds = Elem ''Slot'' bs ds \<and>
     map_of as ''htmlFor'' = map_of bs ''id'' \<and> map_of as ''data-error'' = map_of bs ''aria-invalid'' \<and>
     map_of bs ''aria-describedby'' = Some (formDescriptionId f @ (if ff_error f = None then [] else '' '' @ formMessageId f)) \<and>
     (FormMessage f [] [] \<noteq> [] \<longleftrightarrow> (\<exists>m. ff_error f = Some (Some m) \<and> m \<noteq> []))"
  by (auto simp: FormLabel_def FormControl_def with_props_def FormMessage_def Let_def show_if_def truthy_str_def
      split: option.splits)

section \<open>Landing page\<close>

text \<open>The sections of the page: heading and blurb. The page alternates their sides, and the animation library is
  told to move each one in from its side; the calls are returned as values.\<close>

record landing_block =
  lb_heading :: string
  lb_blurb :: string

record animation =
  an_target :: string
  an_from :: attrs
  an_to :: attrs

definition section_animation :: "nat \<Rightarrow> animation" where
  "section_animation index =
     (let isEven = index mod 2 = 1; xOffset = (if isEven then ''100'' else ''-100'')
      in \<lparr>an_target = ''section '' @ js_of_nat index, an_from = [(''x'', xOffset), (''opacity'', ''0'')],
          an_to = [(''x'', ''0''), (''opacity'', ''1''), (''duration'', ''1''), (''ease'', ''power2.out''),
            (''trigger'', ''section '' @ js_of_nat index), (''start'', ''top 80%''), (''end'', ''bottom 20%''),
            (''toggleActions'', ''play none none reverse'')]\<rparr>)"

text \<open>The calls of the effect, for the gears, the button and the sections whose element exists.\<close>

definition landing_effect :: "string \<Rightarrow> bool list \<Rightarrow> animation list" where
  "landing_effect accentColor sections =
     [\<lparr>an_target = ''firstGear'', an_from = [],
       an_to = [(''rotation'', ''360''), (''duration'', ''8''), (''ease'', ''none''), (''repeat'', ''-1''),
         (''transformOrigin'', ''center center'')]\<rparr>,
      \<lparr>an_target = ''secondGear'', an_from = [],
       an_to = [(''rotation'', ''-360''), (''duration'', ''10''), (''ease'', ''none''), (''repeat'', ''-1''),
         (''transformOrigin'', ''center center'')]\<rparr>,
      \<lparr>an_target = ''button'', an_from = [],
       an_to = [(''scale'', ''1.05''), (''boxShadow'', ''0 0 20px '' @ accentColor @ ''99''), (''duration'', ''1.5''),
         (''ease'', ''power1.inOut''), (''yoyo'', ''true''), (''repeat'', ''-1'')]\<rparr>] @
     map section_animation (filter (\<lambda>i. sections ! i) [0..<length sections])"

definition landing_section :: "nat \<Rightarrow> landing_block \<Rightarrow> view" where
  "landing_section index b =
     Elem ''div'' [(''key'', js_of_nat index), (''class'', if index mod 2 = 1 then ''md:flex-row-reverse'' else ''md:flex-row'')]
       [Elem ''div'' [] [Elem ''div'' [] [Elem ''div'' [] [Txt (js_of_nat (index + 1))]]],
        Elem ''div'' [(''class'', if index mod 2 = 1 then ''text-right'' else ''text-left'')]
          [Elem ''h2'' [] [Txt (lb_heading b)], Elem ''p'' [] [Txt (lb_blurb b)]]]"

definition App :: "landing_block list \<Rightarrow> string \<Rightarrow> string \<Rightarrow> view" where
  "App blocks buttonText subtitle =
     Elem ''div'' []
       [Elem ''div'' [] [],
        Elem ''div'' []
          [Elem ''main'' []
             [Elem ''section'' []
                [Elem ''h1'' []
                   [Elem ''span'' [] [Txt ''Tiny''], Txt ''Aut'', Elem ''span'' [] [Elem ''GearIcon'' [(''ref'', ''firstGearRef'')] []],
                    Txt ''mat'', Elem ''span'' [] [Elem ''GearIcon'' [(''ref'', ''secondGearRef'')] []], Txt ''r''],
                 Elem ''p'' [] [Txt subtitle],
                 Elem ''SignInButton'' [(''mode'', ''modal'')] [Elem ''Button'' [(''ref'', ''buttonRef'')] [Txt buttonText]]],
              Elem ''div'' [] (map (\<lambda>i. landing_section i (blocks ! i)) [0..<length blocks])]]]"

lemma App_numbers:
  "view_texts (App blocks b s) = [''Tiny'', ''Aut'', ''mat'', ''r'', s, b] @
     concat (map (\<lambda>i. [js_of_nat (i + 1), lb_heading (blocks ! i), lb_blurb (blocks ! i)]) [0..<length blocks])"
  by (simp add: App_def landing_section_def o_def)

text \<open>A section comes in from the side on which its text does not stand.\<close>

lemma section_side:
  "map_of (an_from (section_animation i)) ''x'' = Some ''100'' \<longleftrightarrow>
   (\<exists>vs. landing_section i b = Elem ''div'' [(''key'', js_of_nat i), (''class'', ''md:flex-row-reverse'')] vs)"
  by (auto simp: section_animation_def Let_def landing_section_def)

end
