(* ===== verification/Ui_Primitives.thy ===== *)
theory Ui_Primitives
  imports Ui_Kit Js_Date
begin

text \<open>
  The primitives under \<open>components/ui/\<close>: the parts of cards, dialogs, menus, selects, tabs, tooltips and so on that wrap an element of HTML
  or of the component libraries, and the spinners. A part takes the attributes and the children that its user passes, under the
  names of the source; an argument of type \<open>option\<close> is a property that the user may leave out. A part that puts its own children into its
  element ignores children of its user and takes none here. The class names that a user passes are left out, as are those that are
  constant; those that depend on a property are kept as they are given to the library that resolves conflicts between them.
\<close>

definition slotted :: "string \<Rightarrow> string \<Rightarrow> attrs \<Rightarrow> attrs \<Rightarrow> view list \<Rightarrow> view" where
  "slotted tag slot own props children = Elem tag (with_props ((''data-slot'', slot) # own) props) children"

definition opt_attr :: "string \<Rightarrow> string option \<Rightarrow> attrs" where
  "opt_attr k v = (case v of None \<Rightarrow> [] | Some x \<Rightarrow> [(k, x)])"

text \<open>The class of a variant: no or an empty name stands for the default, an unknown name has no class.\<close>

definition variant_class :: "(string \<times> string) list \<Rightarrow> string \<Rightarrow> string option \<Rightarrow> string" where
  "variant_class classes def variant =
     (case map_of classes (case truthy_str variant of None \<Rightarrow> def | Some v \<Rightarrow> v) of None \<Rightarrow> [] | Some c \<Rightarrow> c)"

section \<open>\<open>button.tsx\<close>\<close>

definition buttonVariants :: "string option \<Rightarrow> string option \<Rightarrow> string" where
  "buttonVariants variant sz =
     variant_class
       [(''default'', ''bg-primary text-primary-foreground shadow-xs hover:bg-primary/90''),
        (''destructive'', ''bg-destructive text-white shadow-xs hover:bg-destructive/90 focus-visible:ring-destructive/20 dark:focus-visible:ring-destructive/40 dark:bg-destructive/60''),
        (''outline'', ''border bg-background shadow-xs hover:bg-accent hover:text-accent-foreground dark:bg-input/30 dark:border-input dark:hover:bg-input/50''),
        (''secondary'', ''bg-secondary text-secondary-foreground shadow-xs hover:bg-secondary/80''),
        (''ghost'', ''hover:bg-accent hover:text-accent-foreground dark:hover:bg-accent/50''),
        (''link'', ''text-primary underline-offset-4 hover:underline'')]
       ''default'' variant @ '' '' @
     variant_class
       [(''default'', ''h-9 px-4 py-2 has-[>svg]:px-3''),
        (''sm'', ''h-8 rounded-md gap-1.5 px-3 has-[>svg]:px-2.5''),
        (''lg'', ''h-10 rounded-md px-6 has-[>svg]:px-4''),
        (''icon'', ''size-9'')]
       ''default'' sz"

definition Button :: "string option \<Rightarrow> string option \<Rightarrow> bool \<Rightarrow> attrs \<Rightarrow> view list \<Rightarrow> view" where
  "Button variant sz asChild = slotted (comp asChild ''button'') ''button'' [(''class'', buttonVariants variant sz)]"

section \<open>\<open>alert.tsx\<close>\<close>

definition alertVariants :: "string option \<Rightarrow> string" where
  "alertVariants variant =
     variant_class
       [(''default'', ''bg-card text-card-foreground''),
        (''destructive'', ''text-destructive bg-card [&>svg]:text-current *:data-[slot=alert-description]:text-destructive/90'')]
       ''default'' variant"

definition Alert :: "string option \<Rightarrow> attrs \<Rightarrow> view list \<Rightarrow> view" where
  "Alert variant = slotted ''div'' ''alert'' [(''role'', ''alert''), (''class'', alertVariants variant)]"

definition AlertTitle :: "attrs \<Rightarrow> view list \<Rightarrow> view" where
  "AlertTitle = slotted ''div'' ''alert-title'' []"

definition AlertDescription :: "attrs \<Rightarrow> view list \<Rightarrow> view" where
  "AlertDescription = slotted ''div'' ''alert-description'' []"

section \<open>\<open>badge.tsx\<close>\<close>

definition badgeVariants :: "string option \<Rightarrow> string" where
  "badgeVariants variant =
     variant_class
       [(''default'', ''border-transparent bg-primary text-primary-foreground [a&]:hover:bg-primary/90''),
        (''secondary'', ''border-transparent bg-secondary text-secondary-foreground [a&]:hover:bg-secondary/90''),
        (''destructive'', ''border-transparent bg-destructive text-white [a&]:hover:bg-destructive/90 focus-visible:ring-destructive/20 dark:focus-visible:ring-destructive/40 dark:bg-destructive/60''),
        (''outline'', ''text-foreground [a&]:hover:bg-accent [a&]:hover:text-accent-foreground'')]
       ''default'' variant"

definition Badge :: "string option \<Rightarrow> bool \<Rightarrow> attrs \<Rightarrow> view list \<Rightarrow> view" where
  "Badge variant asChild = slotted (comp asChild ''span'') ''badge'' [(''class'', badgeVariants variant)]"

section \<open>\<open>card.tsx\<close>\<close>

definition Card :: "attrs \<Rightarrow> view list \<Rightarrow> view" where
  "Card = slotted ''div'' ''card'' []"

definition CardHeader :: "attrs \<Rightarrow> view list \<Rightarrow> view" where
  "CardHeader = slotted ''div'' ''card-header'' []"

definition CardTitle :: "attrs \<Rightarrow> view list \<Rightarrow> view" where
  "CardTitle = slotted ''div'' ''card-title'' []"

definition CardDescription :: "attrs \<Rightarrow> view list \<Rightarrow> view" where
  "CardDescription = slotted ''div'' ''card-description'' []"

definition CardAction :: "attrs \<Rightarrow> view list \<Rightarrow> view" where
  "CardAction = slotted ''div'' ''card-action'' []"

definition CardContent :: "attrs \<Rightarrow> view list \<Rightarrow> view" where
  "CardContent = slotted ''div'' ''card-content'' []"

definition CardFooter :: "attrs \<Rightarrow> view list \<Rightarrow> view" where
  "CardFooter = slotted ''div'' ''card-footer'' []"

section \<open>\<open>pagination.tsx\<close>\<close>

definition Pagination :: "attrs \<Rightarrow> view list \<Rightarrow> view" where
  "Pagination = slotted ''nav'' ''pagination'' [(''role'', ''navigation''), (''aria-label'', ''pagination'')]"

definition PaginationContent :: "attrs \<Rightarrow> view list \<Rightarrow> view" where
  "PaginationContent = slotted ''ul'' ''pagination-content'' []"

definition PaginationItem :: "attrs \<Rightarrow> view list \<Rightarrow> view" where
  "PaginationItem = slotted ''li'' ''pagination-item'' []"

definition PaginationLink :: "bool option \<Rightarrow> string option \<Rightarrow> attrs \<Rightarrow> view list \<Rightarrow> view" where
  "PaginationLink isActive sz =
     slotted ''a'' ''pagination-link''
       ((if isActive = Some True then [(''aria-current'', ''page'')] else []) @
        opt_attr ''data-active'' (map_option js_bool isActive) @
        [(''class'', buttonVariants (Some (if isActive = Some True then ''outline'' else ''ghost''))
           (Some (case sz of None \<Rightarrow> ''icon'' | Some s \<Rightarrow> s)))])"

definition PaginationPrevious :: "bool option \<Rightarrow> string option \<Rightarrow> attrs \<Rightarrow> view" where
  "PaginationPrevious isActive sz props =
     PaginationLink isActive (Some (case sz of None \<Rightarrow> ''default'' | Some s \<Rightarrow> s))
       (with_props [(''aria-label'', ''Go to previous page'')] props)
       [Elem ''ChevronLeftIcon'' [] [], Elem ''span'' [] [Txt ''Previous'']]"

definition PaginationNext :: "bool option \<Rightarrow> string option \<Rightarrow> attrs \<Rightarrow> view" where
  "PaginationNext isActive sz props =
     PaginationLink isActive (Some (case sz of None \<Rightarrow> ''default'' | Some s \<Rightarrow> s))
       (with_props [(''aria-label'', ''Go to next page'')] props)
       [Elem ''span'' [] [Txt ''Next''], Elem ''ChevronRightIcon'' [] []]"

definition PaginationEllipsis :: "attrs \<Rightarrow> view" where
  "PaginationEllipsis props =
     slotted ''span'' ''pagination-ellipsis'' [(''aria-hidden'', ''true'')] props
       [Elem ''MoreHorizontalIcon'' [] [], Elem ''span'' [] [Txt ''More pages'']]"

section \<open>\<open>progress.tsx\<close>\<close>

definition Progress :: "int option \<Rightarrow> attrs \<Rightarrow> view" where
  "Progress value props =
     slotted ''ProgressPrimitive.Root'' ''progress'' [] props
       [slotted ''ProgressPrimitive.Indicator'' ''progress-indicator''
          [(''style.transform'', ''translateX(-'' @ show_int (100 - (case value of None \<Rightarrow> 0 | Some v \<Rightarrow> v)) @ ''%)'')] [] []]"

section \<open>\<open>calendar.tsx\<close>\<close>

definition calendar_classNames :: "string option \<Rightarrow> attrs" where
  "calendar_classNames mode =
     [(''months'', ''flex flex-col sm:flex-row gap-2''),
      (''month'', ''flex flex-col gap-4''),
      (''caption'', ''flex justify-center pt-1 relative items-center w-full''),
      (''caption_label'', ''text-sm font-medium''),
      (''nav'', ''flex items-center gap-1''),
      (''nav_button'', buttonVariants (Some ''outline'') None @ '' '' @ ''size-7 bg-transparent p-0 opacity-50 hover:opacity-100''),
      (''nav_button_previous'', ''absolute left-1''),
      (''nav_button_next'', ''absolute right-1''),
      (''table'', ''w-full border-collapse space-x-1''),
      (''head_row'', ''flex''),
      (''head_cell'', ''text-muted-foreground rounded-md w-8 font-normal text-[0.8rem]''),
      (''row'', ''flex w-full mt-2''),
      (''cell'', ''relative p-0 text-center text-sm focus-within:relative focus-within:z-20 [&:has([aria-selected])]:bg-accent [&:has([aria-selected].day-range-end)]:rounded-r-md'' @ '' '' @
          (if mode = Some ''range'' then ''[&:has(>.day-range-end)]:rounded-r-md [&:has(>.day-range-start)]:rounded-l-md first:[&:has([aria-selected])]:rounded-l-md last:[&:has([aria-selected])]:rounded-r-md''
           else ''[&:has([aria-selected])]:rounded-md'')),
      (''day'', buttonVariants (Some ''ghost'') None @ '' '' @ ''size-8 p-0 font-normal aria-selected:opacity-100''),
      (''day_range_start'', ''day-range-start aria-selected:bg-primary aria-selected:text-primary-foreground''),
      (''day_range_end'', ''day-range-end aria-selected:bg-primary aria-selected:text-primary-foreground''),
      (''day_selected'', ''bg-primary text-primary-foreground hover:bg-primary hover:text-primary-foreground focus:bg-primary focus:text-primary-foreground''),
      (''day_today'', ''bg-accent text-accent-foreground''),
      (''day_outside'', ''day-outside text-muted-foreground aria-selected:text-muted-foreground''),
      (''day_disabled'', ''text-muted-foreground opacity-50''),
      (''day_range_middle'', ''aria-selected:bg-accent aria-selected:text-accent-foreground''),
      (''day_hidden'', ''invisible'')]"

definition Calendar :: "bool option \<Rightarrow> string option \<Rightarrow> attrs \<Rightarrow> attrs \<Rightarrow> view" where
  "Calendar showOutsideDays mode classNames props =
     Elem ''DayPicker'' (with_props
       ((''showOutsideDays'', js_bool (case showOutsideDays of None \<Rightarrow> True | Some b \<Rightarrow> b)) #
        map (\<lambda>(k, c). (''classNames.'' @ k, c)) (with_props (calendar_classNames mode) classNames) @
        [(''components.IconLeft'', ''ChevronLeft''), (''components.IconRight'', ''ChevronRight'')] @
        opt_attr ''mode'' mode) props) []"

section \<open>\<open>dialog.tsx\<close>\<close>

definition Dialog :: "attrs \<Rightarrow> view list \<Rightarrow> view" where
  "Dialog = slotted ''DialogPrimitive.Root'' ''dialog'' []"

definition DialogTrigger :: "attrs \<Rightarrow> view list \<Rightarrow> view" where
  "DialogTrigger = slotted ''DialogPrimitive.Trigger'' ''dialog-trigger'' []"

definition DialogPortal :: "attrs \<Rightarrow> view list \<Rightarrow> view" where
  "DialogPortal = slotted ''DialogPrimitive.Portal'' ''dialog-portal'' []"

definition DialogClose :: "attrs \<Rightarrow> view list \<Rightarrow> view" where
  "DialogClose = slotted ''DialogPrimitive.Close'' ''dialog-close'' []"

definition DialogOverlay :: "attrs \<Rightarrow> view list \<Rightarrow> view" where
  "DialogOverlay = slotted ''DialogPrimitive.Overlay'' ''dialog-overlay'' []"

definition DialogContent :: "attrs \<Rightarrow> view list \<Rightarrow> view" where
  "DialogContent props children =
     DialogPortal [(''data-slot'', ''dialog-portal'')]
       [DialogOverlay [] [],
        slotted ''DialogPrimitive.Content'' ''dialog-content'' [] props
          (children @ [Elem ''DialogPrimitive.Close'' [] [Elem ''XIcon'' [] [], Elem ''span'' [] [Txt ''Close'']]])]"

definition DialogHeader :: "attrs \<Rightarrow> view list \<Rightarrow> view" where
  "DialogHeader = slotted ''div'' ''dialog-header'' []"

definition DialogFooter :: "attrs \<Rightarrow> view list \<Rightarrow> view" where
  "DialogFooter = slotted ''div'' ''dialog-footer'' []"

definition DialogTitle :: "attrs \<Rightarrow> view list \<Rightarrow> view" where
  "DialogTitle = slotted ''DialogPrimitive.Title'' ''dialog-title'' []"

definition DialogDescription :: "attrs \<Rightarrow> view list \<Rightarrow> view" where
  "DialogDescription = slotted ''DialogPrimitive.Description'' ''dialog-description'' []"

section \<open>\<open>sheet.tsx\<close>\<close>

definition Sheet :: "attrs \<Rightarrow> view list \<Rightarrow> view" where
  "Sheet = slotted ''SheetPrimitive.Root'' ''sheet'' []"

definition SheetTrigger :: "attrs \<Rightarrow> view list \<Rightarrow> view" where
  "SheetTrigger = slotted ''SheetPrimitive.Trigger'' ''sheet-trigger'' []"

definition SheetClose :: "attrs \<Rightarrow> view list \<Rightarrow> view" where
  "SheetClose = slotted ''SheetPrimitive.Close'' ''sheet-close'' []"

definition SheetPortal :: "attrs \<Rightarrow> view list \<Rightarrow> view" where
  "SheetPortal = slotted ''SheetPrimitive.Portal'' ''sheet-portal'' []"

definition SheetOverlay :: "attrs \<Rightarrow> view list \<Rightarrow> view" where
  "SheetOverlay = slotted ''SheetPrimitive.Overlay'' ''sheet-overlay'' []"

definition sheet_side :: "string \<Rightarrow> string" where
  "sheet_side side =
     (if side = ''right'' then ''data-[state=closed]:slide-out-to-right data-[state=open]:slide-in-from-right inset-y-0 right-0 h-full w-3/4 border-l sm:max-w-sm''
      else if side = ''left'' then ''data-[state=closed]:slide-out-to-left data-[state=open]:slide-in-from-left inset-y-0 left-0 h-full w-3/4 border-r sm:max-w-sm''
      else if side = ''top'' then ''data-[state=closed]:slide-out-to-top data-[state=open]:slide-in-from-top inset-x-0 top-0 h-auto border-b''
      else if side = ''bottom'' then ''data-[state=closed]:slide-out-to-bottom data-[state=open]:slide-in-from-bottom inset-x-0 bottom-0 h-auto border-t'' else [])"

definition SheetContent :: "string option \<Rightarrow> attrs \<Rightarrow> view list \<Rightarrow> view" where
  "SheetContent side props children =
     SheetPortal []
       [SheetOverlay [] [],
        slotted ''SheetPrimitive.Content'' ''sheet-content'' [(''class'', sheet_side (case side of None \<Rightarrow> ''right'' | Some s \<Rightarrow> s))] props
          (children @ [Elem ''SheetPrimitive.Close'' [] [Elem ''XIcon'' [] [], Elem ''span'' [] [Txt ''Close'']]])]"

definition SheetHeader :: "attrs \<Rightarrow> view list \<Rightarrow> view" where
  "SheetHeader = slotted ''div'' ''sheet-header'' []"

definition SheetFooter :: "attrs \<Rightarrow> view list \<Rightarrow> view" where
  "SheetFooter = slotted ''div'' ''sheet-footer'' []"

definition SheetTitle :: "attrs \<Rightarrow> view list \<Rightarrow> view" where
  "SheetTitle = slotted ''SheetPrimitive.Title'' ''sheet-title'' []"

definition SheetDescription :: "attrs \<Rightarrow> view list \<Rightarrow> view" where
  "SheetDescription = slotted ''SheetPrimitive.Description'' ''sheet-description'' []"

section \<open>\<open>select.tsx\<close>\<close>

definition Select :: "attrs \<Rightarrow> view list \<Rightarrow> view" where
  "Select = slotted ''SelectPrimitive.Root'' ''select'' []"

definition SelectGroup :: "attrs \<Rightarrow> view list \<Rightarrow> view" where
  "SelectGroup = slotted ''SelectPrimitive.Group'' ''select-group'' []"

definition SelectValue :: "attrs \<Rightarrow> view list \<Rightarrow> view" where
  "SelectValue = slotted ''SelectPrimitive.Value'' ''select-value'' []"

definition SelectTrigger :: "string option \<Rightarrow> attrs \<Rightarrow> view list \<Rightarrow> view" where
  "SelectTrigger sz props children =
     slotted ''SelectPrimitive.Trigger'' ''select-trigger'' [(''data-size'', case sz of None \<Rightarrow> ''default'' | Some s \<Rightarrow> s)] props
       (children @ [Elem ''SelectPrimitive.Icon'' [(''asChild'', ''true'')] [Elem ''ChevronDownIcon'' [] []]])"

definition SelectScrollUpButton :: "attrs \<Rightarrow> view" where
  "SelectScrollUpButton props = slotted ''SelectPrimitive.ScrollUpButton'' ''select-scroll-up-button'' [] props [Elem ''ChevronUpIcon'' [] []]"

definition SelectScrollDownButton :: "attrs \<Rightarrow> view" where
  "SelectScrollDownButton props = slotted ''SelectPrimitive.ScrollDownButton'' ''select-scroll-down-button'' [] props [Elem ''ChevronDownIcon'' [] []]"

definition SelectContent :: "string option \<Rightarrow> attrs \<Rightarrow> view list \<Rightarrow> view" where
  "SelectContent position props children =
     (let pos = (case position of None \<Rightarrow> ''popper'' | Some p \<Rightarrow> p)
      in Elem ''SelectPrimitive.Portal'' []
           [slotted ''SelectPrimitive.Content'' ''select-content''
              [(''class'', if pos = ''popper'' then ''data-[side=bottom]:translate-y-1 data-[side=left]:-translate-x-1 data-[side=right]:translate-x-1 data-[side=top]:-translate-y-1'' else []),
               (''position'', pos)] props
              [SelectScrollUpButton [],
               Elem ''SelectPrimitive.Viewport''
                 [(''class'', if pos = ''popper'' then ''h-[var(--radix-select-trigger-height)] w-full min-w-[var(--radix-select-trigger-width)] scroll-my-1'' else [])] children,
               SelectScrollDownButton []]])"

definition SelectLabel :: "attrs \<Rightarrow> view list \<Rightarrow> view" where
  "SelectLabel = slotted ''SelectPrimitive.Label'' ''select-label'' []"

definition SelectItem :: "attrs \<Rightarrow> view list \<Rightarrow> view" where
  "SelectItem props children =
     slotted ''SelectPrimitive.Item'' ''select-item'' [] props
       [Elem ''span'' [] [Elem ''SelectPrimitive.ItemIndicator'' [] [Elem ''CheckIcon'' [] []]],
        Elem ''SelectPrimitive.ItemText'' [] children]"

definition SelectSeparator :: "attrs \<Rightarrow> view list \<Rightarrow> view" where
  "SelectSeparator = slotted ''SelectPrimitive.Separator'' ''select-separator'' []"

section \<open>\<open>tooltip.tsx\<close>\<close>

definition TooltipProvider :: "nat option \<Rightarrow> attrs \<Rightarrow> view list \<Rightarrow> view" where
  "TooltipProvider delayDuration =
     slotted ''TooltipPrimitive.Provider'' ''tooltip-provider''
       [(''delayDuration'', js_of_nat (case delayDuration of None \<Rightarrow> 0 | Some d \<Rightarrow> d))]"

definition Tooltip :: "attrs \<Rightarrow> view list \<Rightarrow> view" where
  "Tooltip props children = TooltipProvider None [] [slotted ''TooltipPrimitive.Root'' ''tooltip'' [] props children]"

definition TooltipTrigger :: "attrs \<Rightarrow> view list \<Rightarrow> view" where
  "TooltipTrigger = slotted ''TooltipPrimitive.Trigger'' ''tooltip-trigger'' []"

definition TooltipContent :: "nat option \<Rightarrow> attrs \<Rightarrow> view list \<Rightarrow> view" where
  "TooltipContent sideOffset props children =
     Elem ''TooltipPrimitive.Portal'' []
       [slotted ''TooltipPrimitive.Content'' ''tooltip-content''
          [(''sideOffset'', js_of_nat (case sideOffset of None \<Rightarrow> 0 | Some d \<Rightarrow> d))] props
          (children @ [Elem ''TooltipPrimitive.Arrow'' [] []])]"

section \<open>\<open>tabs.tsx\<close>\<close>

definition Tabs :: "attrs \<Rightarrow> view list \<Rightarrow> view" where
  "Tabs = slotted ''TabsPrimitive.Root'' ''tabs'' []"

definition TabsList :: "attrs \<Rightarrow> view list \<Rightarrow> view" where
  "TabsList = slotted ''TabsPrimitive.List'' ''tabs-list'' []"

definition TabsTrigger :: "attrs \<Rightarrow> view list \<Rightarrow> view" where
  "TabsTrigger = slotted ''TabsPrimitive.Trigger'' ''tabs-trigger'' []"

definition TabsContent :: "attrs \<Rightarrow> view list \<Rightarrow> view" where
  "TabsContent = slotted ''TabsPrimitive.Content'' ''tabs-content'' []"

section \<open>\<open>switch.tsx\<close>\<close>

definition Switch :: "attrs \<Rightarrow> view" where
  "Switch props =
     slotted ''SwitchPrimitive.Root'' ''switch'' [] props [slotted ''SwitchPrimitive.Thumb'' ''switch-thumb'' [] [] []]"

section \<open>\<open>alert-dialog.tsx\<close>\<close>

definition AlertDialog :: "attrs \<Rightarrow> view list \<Rightarrow> view" where
  "AlertDialog = slotted ''AlertDialogPrimitive.Root'' ''alert-dialog'' []"

definition AlertDialogTrigger :: "attrs \<Rightarrow> view list \<Rightarrow> view" where
  "AlertDialogTrigger = slotted ''AlertDialogPrimitive.Trigger'' ''alert-dialog-trigger'' []"

definition AlertDialogPortal :: "attrs \<Rightarrow> view list \<Rightarrow> view" where
  "AlertDialogPortal = slotted ''AlertDialogPrimitive.Portal'' ''alert-dialog-portal'' []"

definition AlertDialogOverlay :: "attrs \<Rightarrow> view list \<Rightarrow> view" where
  "AlertDialogOverlay = slotted ''AlertDialogPrimitive.Overlay'' ''alert-dialog-overlay'' []"

definition AlertDialogContent :: "attrs \<Rightarrow> view list \<Rightarrow> view" where
  "AlertDialogContent props children =
     AlertDialogPortal []
       [AlertDialogOverlay [] [], slotted ''AlertDialogPrimitive.Content'' ''alert-dialog-content'' [] props children]"

definition AlertDialogHeader :: "attrs \<Rightarrow> view list \<Rightarrow> view" where
  "AlertDialogHeader = slotted ''div'' ''alert-dialog-header'' []"

definition AlertDialogFooter :: "attrs \<Rightarrow> view list \<Rightarrow> view" where
  "AlertDialogFooter = slotted ''div'' ''alert-dialog-footer'' []"

definition AlertDialogTitle :: "attrs \<Rightarrow> view list \<Rightarrow> view" where
  "AlertDialogTitle = slotted ''AlertDialogPrimitive.Title'' ''alert-dialog-title'' []"

definition AlertDialogDescription :: "attrs \<Rightarrow> view list \<Rightarrow> view" where
  "AlertDialogDescription = slotted ''AlertDialogPrimitive.Description'' ''alert-dialog-description'' []"

definition AlertDialogAction :: "attrs \<Rightarrow> view list \<Rightarrow> view" where
  "AlertDialogAction props children = Elem ''AlertDialogPrimitive.Action'' (with_props [(''class'', buttonVariants None None)] props) children"

definition AlertDialogCancel :: "attrs \<Rightarrow> view list \<Rightarrow> view" where
  "AlertDialogCancel props children = Elem ''AlertDialogPrimitive.Cancel'' (with_props [(''class'', buttonVariants (Some ''outline'') None)] props) children"

section \<open>\<open>avatar.tsx\<close>\<close>

definition Avatar :: "attrs \<Rightarrow> view list \<Rightarrow> view" where
  "Avatar = slotted ''AvatarPrimitive.Root'' ''avatar'' []"

definition AvatarImage :: "attrs \<Rightarrow> view list \<Rightarrow> view" where
  "AvatarImage = slotted ''AvatarPrimitive.Image'' ''avatar-image'' []"

definition AvatarFallback :: "attrs \<Rightarrow> view list \<Rightarrow> view" where
  "AvatarFallback = slotted ''AvatarPrimitive.Fallback'' ''avatar-fallback'' []"

section \<open>\<open>checkbox.tsx\<close>\<close>

definition Checkbox :: "attrs \<Rightarrow> view" where
  "Checkbox props =
     slotted ''CheckboxPrimitive.Root'' ''checkbox'' [] props
       [slotted ''CheckboxPrimitive.Indicator'' ''checkbox-indicator'' [] [] [Elem ''CheckIcon'' [] []]]"

section \<open>\<open>collapsible.tsx\<close>\<close>

definition Collapsible :: "attrs \<Rightarrow> view list \<Rightarrow> view" where
  "Collapsible = slotted ''CollapsiblePrimitive.Root'' ''collapsible'' []"

definition CollapsibleTrigger :: "attrs \<Rightarrow> view list \<Rightarrow> view" where
  "CollapsibleTrigger = slotted ''CollapsiblePrimitive.CollapsibleTrigger'' ''collapsible-trigger'' []"

definition CollapsibleContent :: "attrs \<Rightarrow> view list \<Rightarrow> view" where
  "CollapsibleContent = slotted ''CollapsiblePrimitive.CollapsibleContent'' ''collapsible-content'' []"

section \<open>\<open>context-menu.tsx\<close>\<close>

definition ContextMenu :: "attrs \<Rightarrow> view list \<Rightarrow> view" where
  "ContextMenu = slotted ''ContextMenuPrimitive.Root'' ''context-menu'' []"

definition ContextMenuTrigger :: "attrs \<Rightarrow> view list \<Rightarrow> view" where
  "ContextMenuTrigger = slotted ''ContextMenuPrimitive.Trigger'' ''context-menu-trigger'' []"

definition ContextMenuGroup :: "attrs \<Rightarrow> view list \<Rightarrow> view" where
  "ContextMenuGroup = slotted ''ContextMenuPrimitive.Group'' ''context-menu-group'' []"

definition ContextMenuPortal :: "attrs \<Rightarrow> view list \<Rightarrow> view" where
  "ContextMenuPortal = slotted ''ContextMenuPrimitive.Portal'' ''context-menu-portal'' []"

definition ContextMenuSub :: "attrs \<Rightarrow> view list \<Rightarrow> view" where
  "ContextMenuSub = slotted ''ContextMenuPrimitive.Sub'' ''context-menu-sub'' []"

definition ContextMenuRadioGroup :: "attrs \<Rightarrow> view list \<Rightarrow> view" where
  "ContextMenuRadioGroup = slotted ''ContextMenuPrimitive.RadioGroup'' ''context-menu-radio-group'' []"

definition ContextMenuSubTrigger :: "bool option \<Rightarrow> attrs \<Rightarrow> view list \<Rightarrow> view" where
  "ContextMenuSubTrigger inset props children =
     slotted ''ContextMenuPrimitive.SubTrigger'' ''context-menu-sub-trigger'' (opt_attr ''data-inset'' (map_option js_bool inset)) props
       (children @ [Elem ''ChevronRightIcon'' [] []])"

definition ContextMenuSubContent :: "attrs \<Rightarrow> view list \<Rightarrow> view" where
  "ContextMenuSubContent = slotted ''ContextMenuPrimitive.SubContent'' ''context-menu-sub-content'' []"

definition ContextMenuContent :: "attrs \<Rightarrow> view list \<Rightarrow> view" where
  "ContextMenuContent props children =
     Elem ''ContextMenuPrimitive.Portal'' [] [slotted ''ContextMenuPrimitive.Content'' ''context-menu-content'' [] props children]"

definition ContextMenuItem :: "bool option \<Rightarrow> string option \<Rightarrow> attrs \<Rightarrow> view list \<Rightarrow> view" where
  "ContextMenuItem inset variant =
     slotted ''ContextMenuPrimitive.Item'' ''context-menu-item''
       (opt_attr ''data-inset'' (map_option js_bool inset) @ [(''data-variant'', case variant of None \<Rightarrow> ''default'' | Some v \<Rightarrow> v)])"

definition ContextMenuCheckboxItem :: "bool option \<Rightarrow> attrs \<Rightarrow> view list \<Rightarrow> view" where
  "ContextMenuCheckboxItem checked props children =
     slotted ''ContextMenuPrimitive.CheckboxItem'' ''context-menu-checkbox-item'' (opt_attr ''checked'' (map_option js_bool checked)) props
       (Elem ''span'' [] [Elem ''ContextMenuPrimitive.ItemIndicator'' [] [Elem ''CheckIcon'' [] []]] # children)"

definition ContextMenuRadioItem :: "attrs \<Rightarrow> view list \<Rightarrow> view" where
  "ContextMenuRadioItem props children =
     slotted ''ContextMenuPrimitive.RadioItem'' ''context-menu-radio-item'' [] props
       (Elem ''span'' [] [Elem ''ContextMenuPrimitive.ItemIndicator'' [] [Elem ''CircleIcon'' [] []]] # children)"

definition ContextMenuLabel :: "bool option \<Rightarrow> attrs \<Rightarrow> view list \<Rightarrow> view" where
  "ContextMenuLabel inset = slotted ''ContextMenuPrimitive.Label'' ''context-menu-label'' (opt_attr ''data-inset'' (map_option js_bool inset))"

definition ContextMenuSeparator :: "attrs \<Rightarrow> view list \<Rightarrow> view" where
  "ContextMenuSeparator = slotted ''ContextMenuPrimitive.Separator'' ''context-menu-separator'' []"

definition ContextMenuShortcut :: "attrs \<Rightarrow> view list \<Rightarrow> view" where
  "ContextMenuShortcut = slotted ''span'' ''context-menu-shortcut'' []"

section \<open>\<open>dropdown-menu.tsx\<close>\<close>

definition DropdownMenu :: "attrs \<Rightarrow> view list \<Rightarrow> view" where
  "DropdownMenu = slotted ''DropdownMenuPrimitive.Root'' ''dropdown-menu'' []"

definition DropdownMenuPortal :: "attrs \<Rightarrow> view list \<Rightarrow> view" where
  "DropdownMenuPortal = slotted ''DropdownMenuPrimitive.Portal'' ''dropdown-menu-portal'' []"

definition DropdownMenuTrigger :: "attrs \<Rightarrow> view list \<Rightarrow> view" where
  "DropdownMenuTrigger = slotted ''DropdownMenuPrimitive.Trigger'' ''dropdown-menu-trigger'' []"

definition DropdownMenuContent :: "nat option \<Rightarrow> attrs \<Rightarrow> view list \<Rightarrow> view" where
  "DropdownMenuContent sideOffset props children =
     Elem ''DropdownMenuPrimitive.Portal'' []
       [slotted ''DropdownMenuPrimitive.Content'' ''dropdown-menu-content''
          [(''sideOffset'', js_of_nat (case sideOffset of None \<Rightarrow> 4 | Some d \<Rightarrow> d))] props children]"

definition DropdownMenuGroup :: "attrs \<Rightarrow> view list \<Rightarrow> view" where
  "DropdownMenuGroup = slotted ''DropdownMenuPrimitive.Group'' ''dropdown-menu-group'' []"

definition DropdownMenuItem :: "bool option \<Rightarrow> string option \<Rightarrow> attrs \<Rightarrow> view list \<Rightarrow> view" where
  "DropdownMenuItem inset variant =
     slotted ''DropdownMenuPrimitive.Item'' ''dropdown-menu-item''
       (opt_attr ''data-inset'' (map_option js_bool inset) @ [(''data-variant'', case variant of None \<Rightarrow> ''default'' | Some v \<Rightarrow> v)])"

definition DropdownMenuCheckboxItem :: "bool option \<Rightarrow> attrs \<Rightarrow> view list \<Rightarrow> view" where
  "DropdownMenuCheckboxItem checked props children =
     slotted ''DropdownMenuPrimitive.CheckboxItem'' ''dropdown-menu-checkbox-item'' (opt_attr ''checked'' (map_option js_bool checked)) props
       (Elem ''span'' [] [Elem ''DropdownMenuPrimitive.ItemIndicator'' [] [Elem ''CheckIcon'' [] []]] # children)"

definition DropdownMenuRadioGroup :: "attrs \<Rightarrow> view list \<Rightarrow> view" where
  "DropdownMenuRadioGroup = slotted ''DropdownMenuPrimitive.RadioGroup'' ''dropdown-menu-radio-group'' []"

definition DropdownMenuRadioItem :: "attrs \<Rightarrow> view list \<Rightarrow> view" where
  "DropdownMenuRadioItem props children =
     slotted ''DropdownMenuPrimitive.RadioItem'' ''dropdown-menu-radio-item'' [] props
       (Elem ''span'' [] [Elem ''DropdownMenuPrimitive.ItemIndicator'' [] [Elem ''CircleIcon'' [] []]] # children)"

definition DropdownMenuLabel :: "bool option \<Rightarrow> attrs \<Rightarrow> view list \<Rightarrow> view" where
  "DropdownMenuLabel inset = slotted ''DropdownMenuPrimitive.Label'' ''dropdown-menu-label'' (opt_attr ''data-inset'' (map_option js_bool inset))"

definition DropdownMenuSeparator :: "attrs \<Rightarrow> view list \<Rightarrow> view" where
  "DropdownMenuSeparator = slotted ''DropdownMenuPrimitive.Separator'' ''dropdown-menu-separator'' []"

definition DropdownMenuShortcut :: "attrs \<Rightarrow> view list \<Rightarrow> view" where
  "DropdownMenuShortcut = slotted ''span'' ''dropdown-menu-shortcut'' []"

definition DropdownMenuSub :: "attrs \<Rightarrow> view list \<Rightarrow> view" where
  "DropdownMenuSub = slotted ''DropdownMenuPrimitive.Sub'' ''dropdown-menu-sub'' []"

definition DropdownMenuSubTrigger :: "bool option \<Rightarrow> attrs \<Rightarrow> view list \<Rightarrow> view" where
  "DropdownMenuSubTrigger inset props children =
     slotted ''DropdownMenuPrimitive.SubTrigger'' ''dropdown-menu-sub-trigger'' (opt_attr ''data-inset'' (map_option js_bool inset)) props
       (children @ [Elem ''ChevronRightIcon'' [] []])"

definition DropdownMenuSubContent :: "attrs \<Rightarrow> view list \<Rightarrow> view" where
  "DropdownMenuSubContent = slotted ''DropdownMenuPrimitive.SubContent'' ''dropdown-menu-sub-content'' []"

section \<open>\<open>input.tsx\<close>\<close>

definition Input :: "string option \<Rightarrow> attrs \<Rightarrow> view" where
  "Input type props = slotted ''input'' ''input'' (opt_attr ''type'' type) props []"

section \<open>\<open>label.tsx\<close>\<close>

definition Label :: "attrs \<Rightarrow> view list \<Rightarrow> view" where
  "Label = slotted ''LabelPrimitive.Root'' ''label'' []"

section \<open>\<open>popover.tsx\<close>\<close>

definition Popover :: "attrs \<Rightarrow> view list \<Rightarrow> view" where
  "Popover = slotted ''PopoverPrimitive.Root'' ''popover'' []"

definition PopoverTrigger :: "attrs \<Rightarrow> view list \<Rightarrow> view" where
  "PopoverTrigger = slotted ''PopoverPrimitive.Trigger'' ''popover-trigger'' []"

definition PopoverContent :: "string option \<Rightarrow> nat option \<Rightarrow> attrs \<Rightarrow> view list \<Rightarrow> view" where
  "PopoverContent align sideOffset props children =
     Elem ''PopoverPrimitive.Portal'' []
       [slotted ''PopoverPrimitive.Content'' ''popover-content''
          [(''align'', case align of None \<Rightarrow> ''center'' | Some a \<Rightarrow> a),
           (''sideOffset'', js_of_nat (case sideOffset of None \<Rightarrow> 4 | Some d \<Rightarrow> d))] props children]"

definition PopoverAnchor :: "attrs \<Rightarrow> view list \<Rightarrow> view" where
  "PopoverAnchor = slotted ''PopoverPrimitive.Anchor'' ''popover-anchor'' []"

section \<open>\<open>resizable.tsx\<close>\<close>

definition ResizablePanelGroup :: "attrs \<Rightarrow> view list \<Rightarrow> view" where
  "ResizablePanelGroup = slotted ''ResizablePrimitive.PanelGroup'' ''resizable-panel-group'' []"

definition ResizablePanel :: "attrs \<Rightarrow> view list \<Rightarrow> view" where
  "ResizablePanel = slotted ''ResizablePrimitive.Panel'' ''resizable-panel'' []"

definition ResizableHandle :: "bool \<Rightarrow> attrs \<Rightarrow> view" where
  "ResizableHandle withHandle props =
     slotted ''ResizablePrimitive.PanelResizeHandle'' ''resizable-handle'' [] props
       (show_if withHandle (Elem ''div'' [] [Elem ''GripVerticalIcon'' [] []]))"

section \<open>\<open>scroll-area.tsx\<close>\<close>

definition ScrollBar :: "string option \<Rightarrow> attrs \<Rightarrow> view" where
  "ScrollBar orientation props =
     (let orient = (case orientation of None \<Rightarrow> ''vertical'' | Some x \<Rightarrow> x)
      in slotted ''ScrollAreaPrimitive.ScrollAreaScrollbar'' ''scroll-area-scrollbar''
           [(''orientation'', orient),
            (''class'', if orient = ''vertical'' then ''h-full w-2.5 border-l border-l-transparent''
               else if orient = ''horizontal'' then ''h-2.5 flex-col border-t border-t-transparent'' else [])] props
           [slotted ''ScrollAreaPrimitive.ScrollAreaThumb'' ''scroll-area-thumb'' [] [] []])"

definition ScrollArea :: "attrs \<Rightarrow> view list \<Rightarrow> view" where
  "ScrollArea props children =
     slotted ''ScrollAreaPrimitive.Root'' ''scroll-area'' [] props
       [slotted ''ScrollAreaPrimitive.Viewport'' ''scroll-area-viewport'' [] [] children,
        ScrollBar None [],
        Elem ''ScrollAreaPrimitive.Corner'' [] []]"

section \<open>\<open>separator.tsx\<close>\<close>

definition Separator :: "string option \<Rightarrow> bool option \<Rightarrow> attrs \<Rightarrow> view" where
  "Separator orientation decorative props =
     slotted ''SeparatorPrimitive.Root'' ''separator-root''
       [(''decorative'', js_bool (case decorative of None \<Rightarrow> True | Some b \<Rightarrow> b)),
        (''orientation'', case orientation of None \<Rightarrow> ''horizontal'' | Some x \<Rightarrow> x)] props []"

section \<open>\<open>skeleton.tsx\<close>\<close>

definition Skeleton :: "attrs \<Rightarrow> view list \<Rightarrow> view" where
  "Skeleton = slotted ''div'' ''skeleton'' []"

section \<open>\<open>textarea.tsx\<close>\<close>

definition Textarea :: "attrs \<Rightarrow> view list \<Rightarrow> view" where
  "Textarea = slotted ''textarea'' ''textarea'' []"

section \<open>\<open>sonner.tsx\<close>\<close>

definition Toaster :: view where
  "Toaster =
     Elem ''Sonner'' [(''position'', ''top-center''), (''expand'', ''true''), (''toastOptions.unstyled'', ''true''), (''closeButton'', ''true'')] []"

section \<open>\<open>spinner.tsx\<close>\<close>

definition sizesClasses :: "(string \<times> string) list" where
  "sizesClasses =
     [(''xs'', ''w-4 h-4''), (''sm'', ''w-5 h-5''), (''md'', ''w-6 h-6''), (''lg'', ''w-8 h-8''), (''xl'', ''w-10 h-10'')]"

definition fillClasses :: "(string \<times> string) list" where
  "fillClasses =
     [(''slate'', ''fill-foreground''), (''blue'', ''fill-blue-500''), (''red'', ''fill-red-500''), (''green'', ''fill-emerald-500''),
      (''white'', ''fill-background'')]"

definition strokeClasses :: "(string \<times> string) list" where
  "strokeClasses =
     [(''slate'', ''stroke-foreground''), (''blue'', ''stroke-blue-500''), (''red'', ''stroke-red-500''), (''green'', ''stroke-emerald-500''),
      (''white'', ''stroke-background'')]"

text \<open>The classes of a size and of a colour; an unknown name has none.\<close>

definition spinner_class :: "(string \<times> string) list \<Rightarrow> string option \<Rightarrow> string option \<Rightarrow> string" where
  "spinner_class colors sz color =
     js_join '' '' (opt_list (map_of sizesClasses (case sz of None \<Rightarrow> ''md'' | Some s \<Rightarrow> s)) @
       opt_list (map_of colors (case color of None \<Rightarrow> ''slate'' | Some c \<Rightarrow> c)))"

definition Spinner :: "string option \<Rightarrow> string option \<Rightarrow> view" where
  "Spinner sz color =
     Elem ''div'' [(''aria-label'', ''Loading...''), (''role'', ''status'')]
       [Elem ''Loader'' [(''class'', spinner_class strokeClasses sz color)] []]"

definition RoundSpinner :: "string option \<Rightarrow> string option \<Rightarrow> view" where
  "RoundSpinner sz color =
     Elem ''div'' [(''aria-label'', ''Loading...''), (''role'', ''status'')]
       [Elem ''svg'' [(''class'', spinner_class fillClasses sz color), (''viewBox'', ''3 3 18 18'')]
          [Elem ''path'' [(''d'', ''M12 5C8.13401 5 5 8.13401 5 12C5 15.866 8.13401 19 12 19C15.866 19 19 15.866 19 12C19 8.13401 15.866 5 12 5ZM3 12C3 7.02944 7.02944 3 12 3C16.9706 3 21 7.02944 21 12C21 16.9706 16.9706 21 12 21C7.02944 21 3 16.9706 3 12Z'')] [],
           Elem ''path'' [(''d'', ''M16.9497 7.05015C14.2161 4.31648 9.78392 4.31648 7.05025 7.05015C6.65973 7.44067 6.02656 7.44067 5.63604 7.05015C5.24551 6.65962 5.24551 6.02646 5.63604 5.63593C9.15076 2.12121 14.8492 2.12121 18.364 5.63593C18.7545 6.02646 18.7545 6.65962 18.364 7.05015C17.9734 7.44067 17.3403 7.44067 16.9497 7.05015Z'')] []]]"

text \<open>An element of the animation library that repeats its transition for ever.\<close>

definition moving :: "string \<Rightarrow> attrs \<Rightarrow> view" where
  "moving tag as = Elem tag (as @ [(''transition.repeat'', ''Infinity'')]) []"

definition Dots_v1 :: view where
  "Dots_v1 =
     Elem ''div'' []
       [Elem ''div'' []
          [moving ''motion.span'' [(''initial.scale'', ''0''), (''animate.scale'', ''1''), (''transition.duration'', ''0.7'')],
           moving ''motion.span'' [(''initial.x'', ''0''), (''animate.x'', ''24''), (''transition.duration'', ''0.7'')],
           moving ''motion.span'' [(''initial.x'', ''0''), (''animate.x'', ''24''), (''transition.duration'', ''0.7'')],
           moving ''motion.span'' [(''initial.scale'', ''1''), (''animate.scale'', ''0''), (''transition.duration'', ''0.7'')]]]"

definition Dots_v2 :: view where
  "Dots_v2 =
     (let dot = (\<lambda>delay. moving ''motion.div''
            ([(''animate.scale'', ''1,1.3,1''), (''animate.opacity'', ''0.6,1,0.6''), (''transition.duration'', ''1.1''),
              (''transition.ease'', ''easeInOut'')] @ opt_attr ''transition.delay'' delay))
      in Elem ''div'' [] [Elem ''div'' [] [dot None, dot (Some ''0.3''), dot (Some ''0.6'')]])"

definition Dots_v3 :: view where
  "Dots_v3 =
     Elem ''div'' []
       [Elem ''div'' [(''class'', ''[animation-delay:-0.3s]'')] [],
        Elem ''div'' [(''class'', ''[animation-delay:-0.13s]'')] [],
        Elem ''div'' [] []]"

text \<open>\<open>num\<close> is the decimal text of a number.\<close>

definition Dots_v4 :: "(real \<Rightarrow> string) \<Rightarrow> view" where
  "Dots_v4 num =
     Elem ''div'' []
       (map (\<lambda>index. moving ''motion.span''
            [(''key'', js_of_nat index), (''initial.opacity'', ''0''), (''animate.opacity'', ''1''),
             (''transition.delay'', num (real index * 0.2)), (''transition.duration'', ''1.2'')]) [0..<3])"

definition dot_x :: "nat \<Rightarrow> real" where
  "dot_x i = 24 * cos (real i / 8 * (2 * pi))"

definition dot_y :: "nat \<Rightarrow> real" where
  "dot_y i = 24 * sin (real i / 8 * (2 * pi))"

definition Dots_v5 :: "(real \<Rightarrow> string) \<Rightarrow> view" where
  "Dots_v5 num =
     Elem ''div'' []
       (map (\<lambda>i. moving ''motion.div''
            [(''key'', js_of_nat i), (''style.left'', ''calc(50% + '' @ num (dot_x i) @ ''px)''),
             (''style.top'', ''calc(50% + '' @ num (dot_y i) @ ''px)''), (''animate.scale'', ''0,1,0''), (''animate.opacity'', ''0,1,0''),
             (''transition.duration'', ''4.5''), (''transition.delay'', num (real i / 8 * 1.7)), (''transition.ease'', ''easeInOut'')]) [0..<8])"

definition Dots :: "(real \<Rightarrow> string) \<Rightarrow> string option \<Rightarrow> view" where
  "Dots num variant =
     (let v = (case variant of None \<Rightarrow> ''v1'' | Some v \<Rightarrow> v)
      in if v = ''v1'' then Dots_v1
         else if v = ''v2'' then Dots_v2
         else if v = ''v3'' then Dots_v3
         else if v = ''v4'' then Dots_v4 num
         else if v = ''v5'' then Dots_v5 num
         else Dots_v1)"

section \<open>What the primitives keep\<close>

lemma slotted_user:
  "distinct (map fst props) \<Longrightarrow> map_of props k = Some v \<Longrightarrow>
   \<exists>as. slotted tag slot own props children = Elem tag as children \<and> map_of as k = Some v"
  by (simp add: slotted_def with_props_user)

lemma slotted_own:
  "k \<notin> fst ` set props \<Longrightarrow>
   \<exists>as. slotted tag slot own props children = Elem tag as children \<and> map_of as k = (if k = ''data-slot'' then Some slot else map_of own k)"
  by (simp add: slotted_def with_props_own)

lemma slotted_texts [simp]: "view_texts (slotted tag slot own props children) = concat (map view_texts children)"
  by (simp add: slotted_def)

lemma slotted_count [simp]:
  "view_count t (slotted tag slot own props children) = (if tag = t then 1 else 0) + sum_list (map (view_count t) children)"
  by (simp add: slotted_def)

text \<open>The parts that add nothing but their name.\<close>

definition wrappers :: "(attrs \<Rightarrow> view list \<Rightarrow> view) list" where
  "wrappers =
     [Card, CardHeader, CardTitle, CardDescription, CardAction, CardContent, CardFooter, AlertTitle, AlertDescription,
      PaginationContent, PaginationItem, Dialog, DialogTrigger, DialogPortal, DialogClose, DialogOverlay, DialogHeader,
      DialogFooter, DialogTitle, DialogDescription, Sheet, SheetTrigger, SheetClose, SheetPortal, SheetOverlay, SheetHeader,
      SheetFooter, SheetTitle, SheetDescription, Select, SelectGroup, SelectValue, SelectLabel, SelectSeparator,
      TooltipTrigger, Tabs, TabsList, TabsTrigger, TabsContent, AlertDialog, AlertDialogTrigger, AlertDialogPortal,
      AlertDialogOverlay, AlertDialogHeader, AlertDialogFooter, AlertDialogTitle, AlertDialogDescription, Avatar,
      AvatarImage, AvatarFallback, Collapsible, CollapsibleTrigger, CollapsibleContent, ContextMenu, ContextMenuTrigger,
      ContextMenuGroup, ContextMenuPortal, ContextMenuSub, ContextMenuRadioGroup, ContextMenuSubContent,
      ContextMenuSeparator, ContextMenuShortcut, DropdownMenu, DropdownMenuPortal, DropdownMenuTrigger, DropdownMenuGroup,
      DropdownMenuRadioGroup, DropdownMenuSeparator, DropdownMenuShortcut, DropdownMenuSub, DropdownMenuSubContent, Label,
      Popover, PopoverTrigger, PopoverAnchor, ResizablePanelGroup, ResizablePanel, Skeleton, Textarea]"

definition slot_of :: "(attrs \<Rightarrow> view list \<Rightarrow> view) \<Rightarrow> string option" where
  "slot_of c = (case c [] [] of Txt _ \<Rightarrow> None | Elem _ as _ \<Rightarrow> map_of as ''data-slot'')"

lemmas wrapper_defs =
  Card_def CardHeader_def CardTitle_def CardDescription_def CardAction_def CardContent_def CardFooter_def AlertTitle_def
  AlertDescription_def PaginationContent_def PaginationItem_def Dialog_def DialogTrigger_def DialogPortal_def
  DialogClose_def DialogOverlay_def DialogHeader_def DialogFooter_def DialogTitle_def DialogDescription_def Sheet_def
  SheetTrigger_def SheetClose_def SheetPortal_def SheetOverlay_def SheetHeader_def SheetFooter_def SheetTitle_def
  SheetDescription_def Select_def SelectGroup_def SelectValue_def SelectLabel_def SelectSeparator_def TooltipTrigger_def
  Tabs_def TabsList_def TabsTrigger_def TabsContent_def AlertDialog_def AlertDialogTrigger_def AlertDialogPortal_def
  AlertDialogOverlay_def AlertDialogHeader_def AlertDialogFooter_def AlertDialogTitle_def AlertDialogDescription_def
  Avatar_def AvatarImage_def AvatarFallback_def Collapsible_def CollapsibleTrigger_def CollapsibleContent_def
  ContextMenu_def ContextMenuTrigger_def ContextMenuGroup_def ContextMenuPortal_def ContextMenuSub_def
  ContextMenuRadioGroup_def ContextMenuSubContent_def ContextMenuSeparator_def ContextMenuShortcut_def DropdownMenu_def
  DropdownMenuPortal_def DropdownMenuTrigger_def DropdownMenuGroup_def DropdownMenuRadioGroup_def
  DropdownMenuSeparator_def DropdownMenuShortcut_def DropdownMenuSub_def DropdownMenuSubContent_def Label_def Popover_def
  PopoverTrigger_def PopoverAnchor_def ResizablePanelGroup_def ResizablePanel_def Skeleton_def Textarea_def

lemma wrappers_slotted: "c \<in> set wrappers \<Longrightarrow> \<exists>tag slot. c = slotted tag slot []"
  unfolding wrappers_def by (simp only: list.set insert_iff empty_iff, elim disjE FalseE) (simp only: wrapper_defs, blast)+

lemma wrappers_named: "distinct (map slot_of wrappers)"
  unfolding wrappers_def slot_of_def wrapper_defs slotted_def by (simp add: with_props_def)

text \<open>Each of the plain parts renders one element with exactly the children of its user and, beside a name of its own that
  no other part has, exactly the attributes of its user; an attribute of the user wins over that name.\<close>

lemma wrappers_transparent:
  assumes "c \<in> set wrappers" and "distinct (map fst props)"
  shows "distinct (map slot_of wrappers) \<and>
    (\<exists>tag as. c props children = Elem tag as children \<and> map_of as = map_of [(''data-slot'', the (slot_of c))] ++ map_of props)"
proof (intro conjI)
  obtain tag slot where c: "c = slotted tag slot []" using wrappers_slotted [OF assms(1)] by blast
  have s: "slot_of c = Some slot" by (simp add: c slot_of_def slotted_def with_props_def)
  have "map_of (with_props [(''data-slot'', slot)] props) k = (map_of [(''data-slot'', slot)] ++ map_of props) k" for k
  proof (cases "map_of props k")
    case None
    then have "k \<notin> fst ` set props" by (simp add: map_of_eq_None_iff)
    then show ?thesis using None by (simp add: with_props_own map_add_def)
  next
    case (Some v)
    then show ?thesis using with_props_user [OF assms(2) Some] by (simp add: map_add_def)
  qed
  then show "\<exists>tag as. c props children = Elem tag as children \<and> map_of as = map_of [(''data-slot'', the (slot_of c))] ++ map_of props"
    unfolding s by (auto simp: c slotted_def fun_eq_iff)
qed (rule wrappers_named)

lemma wrappers_transparent_example:
  "\<exists>tag as. CardTitle [(''id'', ''a'')] [Txt ''t''] = Elem tag as [Txt ''t''] \<and>
     map_of as = map_of [(''data-slot'', the (slot_of CardTitle))] ++ map_of [(''id'', ''a'')]"
proof -
  have "CardTitle \<in> set wrappers" unfolding wrappers_def by simp
  then show ?thesis using wrappers_transparent [of CardTitle "[(''id'', ''a'')]" "[Txt ''t'']"] by simp
qed

text \<open>A dialog and a sheet can be closed whatever they show: after the children of the user comes a button that says so.\<close>

lemma dialog_closable:
  "view_texts (DialogContent props children) = concat (map view_texts children) @ [''Close'']"
  "view_texts (SheetContent side props children) = concat (map view_texts children) @ [''Close'']"
  "view_count ''DialogPrimitive.Close'' (DialogContent props children) = 1 + sum_list (map (view_count ''DialogPrimitive.Close'') children)"
  "view_count ''SheetPrimitive.Close'' (SheetContent side props children) = 1 + sum_list (map (view_count ''SheetPrimitive.Close'') children)"
  by (simp_all add: DialogContent_def DialogPortal_def DialogOverlay_def SheetContent_def SheetPortal_def SheetOverlay_def)

text \<open>A link of the pagination is marked as the current page exactly when it is active.\<close>

lemma pagination_current:
  assumes "''aria-current'' \<notin> fst ` set props"
  shows "\<exists>as. PaginationLink isActive sz props children = Elem ''a'' as children \<and>
    map_of as ''aria-current'' = (if isActive = Some True then Some ''page'' else None)"
  using assms by (cases isActive) (auto simp: PaginationLink_def slotted_def with_props_own opt_attr_def)

text \<open>The indicator of a progress bar is moved out by what is missing to 100; the element around it is not told the value.\<close>

lemma progress_indicator:
  "view_handlers ''style.transform'' (Progress value []) =
     [''translateX(-'' @ show_int (100 - (case value of None \<Rightarrow> 0 | Some v \<Rightarrow> v)) @ ''%)'']"
  "view_handlers ''value'' (Progress value []) = []"
  by (simp_all add: Progress_def slotted_def with_props_def)

text \<open>The eight dots lie on a circle, evenly spaced.\<close>

lemma dots_on_circle: "(dot_x i)\<^sup>2 + (dot_y i)\<^sup>2 = 24\<^sup>2"
proof -
  have "(dot_x i)\<^sup>2 + (dot_y i)\<^sup>2 = 24\<^sup>2 * ((cos (real i / 8 * (2 * pi)))\<^sup>2 + (sin (real i / 8 * (2 * pi)))\<^sup>2)"
    unfolding dot_x_def dot_y_def power_mult_distrib by (simp only: distrib_left)
  then show ?thesis by simp
qed

text \<open>A button of an unknown variant keeps its size, and one without either has the default of both.\<close>

lemma button_defaults: "buttonVariants None None = buttonVariants (Some ''default'') (Some ''default'')"
  by (simp add: buttonVariants_def variant_class_def truthy_str_def)

end
