(* ===== verification/Dashboard.thy ===== *)
theory Dashboard
  imports Library_Views
begin

text \<open>
  The dashboard (\<open>routes/_workspace_layout.dashboard/\<close>) and the page that connects an e-mail account
  (\<open>routes/_workspace_layout.email-integration/\<close>), with the small components they share
  (\<open>components/shared/\<close>).
\<close>

section \<open>Dashboard\<close>

text \<open>The loader makes two requests one after the other; the second is not made when the first fails.\<close>

definition dashboard_loader :: "string \<Rightarrow> net \<Rightarrow> string option \<Rightarrow> request_error + (jsval \<times> jsval)" where
  "dashboard_loader base_url net token =
     (case getUserWorkflows base_url net token of
        Inl e \<Rightarrow> Inl e
      | Inr userWorkflows \<Rightarrow>
          (case getUserWorkflowRuns base_url net token of
             Inl e \<Rightarrow> Inl e
           | Inr userWorkflowRuns \<Rightarrow> Inr (userWorkflows, userWorkflowRuns)))"

text \<open>The handler of the run button: the page that is opened, or the error that is not caught.\<close>

definition run_now :: "(real \<Rightarrow> string) \<Rightarrow> string \<Rightarrow> net \<Rightarrow> string \<Rightarrow> request_error + string" where
  "run_now num base_url net wid =
     (case runWorkflow num base_url net wid None of
        Inl e \<Rightarrow> Inl e
      | Inr runId \<Rightarrow> Inr (''/workflow/'' @ wid @ ''/run/'' @ js_show num runId))"

definition dashboard_card :: "string \<Rightarrow> string \<Rightarrow> string \<Rightarrow> string \<Rightarrow> string \<Rightarrow> nat \<Rightarrow> view" where
  "dashboard_card wid name description lastRun status runs =
     Elem ''Card'' []
       [Elem ''CardHeader'' []
          [Elem ''div'' []
             [Elem ''CardTitle'' [] [Txt name],
              Elem ''Badge'' [(''variant'', if status = ''active'' then ''default'' else ''outline'')]
                [Txt (if status = ''active'' then ''Active'' else ''Paused'')]],
           Elem ''CardDescription'' [] [Txt description]],
        Elem ''CardContent'' []
          [Elem ''div'' [] [Elem ''div'' [] [Txt (''Last run: '' @ lastRun)], Elem ''div'' [] [Txt (js_of_nat runs @ '' runs'')]]],
        Elem ''CardFooter'' []
          [Elem ''div'' []
             [Elem ''Button'' [(''onClick'', ''run_now '' @ wid)] [Elem ''Play'' [] [], Txt ''Run Now''],
              Elem ''NavLink'' [(''to'', ''/workflow-builder/'' @ wid)] [Elem ''Settings'' [] [], Txt ''Configure'']]]]"

definition run_page :: "workflow_run \<Rightarrow> string" where
  "run_page r = ''/workflow/'' @ wr_workflow_id r @ ''/run/'' @ wr_workflow_run_id r"

definition RecentRun :: "workflow_run \<Rightarrow> view" where
  "RecentRun r =
     Elem ''div'' [(''key'', wr_workflow_run_id r), (''onClick'', ''navigate '' @ run_page r)]
       [Elem ''div'' []
          [Elem ''div'' [(''class'', if wr_status r = ''running'' then ''bg-yellow-500''
                            else if wr_status r = ''success'' then ''bg-green-500'' else ''bg-red-500'')] [],
           Elem ''div'' []
             [Elem ''p'' [] [Txt (wr_workflow_name r)], Elem ''p'' [] [Txt (wr_status r)],
              Elem ''p'' [] (opt_list (map_option Txt (wr_finished_at r)))]],
        Elem ''div'' [] [Txt (wr_created_at r)]]"

definition Recent :: "workflow_run list \<Rightarrow> view" where
  "Recent runs =
     Elem ''Card'' []
       [Elem ''CardHeader'' []
          [Elem ''CardTitle'' [] [Txt ''Recent Workflow Runs''],
           Elem ''CardDescription'' [] [Txt ''History of your workflow executions in the past 7 days'']],
        Elem ''CardContent'' [] [Elem ''div'' [] (map RecentRun runs)]]"

definition DashboardTabs :: "workflow list option \<Rightarrow> workflow_run list \<Rightarrow> view" where
  "DashboardTabs userWorkflows runs =
     Elem ''Tabs'' [(''defaultValue'', ''active'')]
       [Elem ''TabsList'' []
          [Elem ''TabsTrigger'' [(''value'', ''active'')] [Txt ''Active Workflows''],
           Elem ''TabsTrigger'' [(''value'', ''recent'')] [Txt ''Recent Runs'']],
        Elem ''TabsContent'' [(''value'', ''active'')]
          [Elem ''div'' [] (map (\<lambda>w. dashboard_card (w_id w) (w_name w) (w_description w) (w_created_at w) (w_status w) 0)
             (case userWorkflows of None \<Rightarrow> [] | Some ws \<Rightarrow> ws))],
        Elem ''TabsContent'' [(''value'', ''recent'')] [Recent runs]]"

definition stat_card :: "string \<Rightarrow> string \<Rightarrow> string \<Rightarrow> string \<Rightarrow> view" where
  "stat_card title icon number note =
     Elem ''Card'' []
       [Elem ''CardHeader'' [] [Elem ''CardTitle'' [] [Txt title], Elem icon [] []],
        Elem ''CardContent'' [] [Elem ''div'' [] [Txt number], Elem ''p'' [] [Txt note]]]"

definition Stats :: view where
  "Stats =
     Elem ''div'' []
       [stat_card ''Active Workflows'' ''Zap'' ''12'' ''+2 from last week'',
        stat_card ''Tasks Completed'' ''CheckCircle'' ''1,284'' ''+24% from last month'',
        stat_card ''Time Saved'' ''Clock'' ''18.5 hrs'' ''This month'',
        stat_card ''Success Rate'' ''LineChart'' ''98.2%'' ''+0.5% from last week'']"

definition Dashboard_page :: "workflow list option \<Rightarrow> workflow_run list \<Rightarrow> view" where
  "Dashboard_page userWorkflows runs =
     Elem ''div'' []
       [Elem ''div'' []
          [Elem ''div'' []
             [Elem ''h3'' [] [Txt ''Dashboard''],
              Elem ''p'' [] [Txt (''Welcome back! Here'' @ [CHR 0x27] @ ''s an overview of your automation workflows.'')]],
           CreateWorkflowButton],
        Stats, DashboardTabs userWorkflows runs]"

section \<open>E-mail integration\<close>

text \<open>The text of an error: \<open>te\<close> is the text that the engine gives its own type errors. A message that is
  not a string is converted as by a template literal; an absent one is empty.\<close>

definition error_text :: "(real \<Rightarrow> string) \<Rightarrow> string \<Rightarrow> request_error \<Rightarrow> string" where
  "error_text num te e =
     (case e of
        ApiErr a \<Rightarrow> (case ae_message a of JUndefined \<Rightarrow> [] | m \<Rightarrow> js_show num m)
      | Other (ErrorMsg m) \<Rightarrow> m
      | Other TypeError \<Rightarrow> te)"

definition fetchGmailAuthUrl :: "(real \<Rightarrow> string) \<Rightarrow> string \<Rightarrow> net \<Rightarrow> request_error + string" where
  "fetchGmailAuthUrl num base_url net =
     (case getAuthUrl base_url net of
        Inl e \<Rightarrow> Inl e
      | Inr res \<Rightarrow>
          (case js_get res ''url'' of
             Inl e \<Rightarrow> Inl (Other e)
           | Inr v \<Rightarrow> if js_truthy v then Inr (js_show num v) else Inl (Other (ErrorMsg ''No auth URL''))))"

record integration_state =
  ei_isLoading :: bool
  ei_authUrl :: string
  ei_errorMessage :: string
  ei_opened :: "string list"

definition integration_init :: integration_state where
  "integration_init = \<lparr>ei_isLoading = False, ei_authUrl = [], ei_errorMessage = [], ei_opened = []\<rparr>"

definition connect_start :: "integration_state \<Rightarrow> integration_state" where
  "connect_start s = s\<lparr>ei_isLoading := True, ei_errorMessage := []\<rparr>"

definition connect_finish ::
  "(real \<Rightarrow> string) \<Rightarrow> string \<Rightarrow> request_error + string \<Rightarrow> integration_state \<Rightarrow> integration_state" where
  "connect_finish num te r s =
     (case r of
        Inr url \<Rightarrow> s\<lparr>ei_authUrl := url, ei_opened := ei_opened s @ [url], ei_isLoading := False\<rparr>
      | Inl e \<Rightarrow> s\<lparr>ei_errorMessage := error_text num te e, ei_isLoading := False\<rparr>)"

definition connectGmail :: "(real \<Rightarrow> string) \<Rightarrow> string \<Rightarrow> string \<Rightarrow> net \<Rightarrow> integration_state \<Rightarrow> integration_state" where
  "connectGmail num te base_url net s = connect_finish num te (fetchGmailAuthUrl num base_url net) (connect_start s)"

definition useEmailIntegrationContext :: "integration_state option \<Rightarrow> integration_state js" where
  "useEmailIntegrationContext ctx =
     (case ctx of
        None \<Rightarrow> Inl (ErrorMsg ''useEmailIntegrationContext must be used within EmailIntegrationProvider'')
      | Some s \<Rightarrow> Inr s)"

definition EmailProviderCard :: "view \<Rightarrow> string \<Rightarrow> string \<Rightarrow> bool \<Rightarrow> bool \<Rightarrow> view" where
  "EmailProviderCard icon name description isLoading isConnected =
     Elem ''Card'' [] [Elem ''CardContent'' []
       [Elem ''div'' []
          [Elem ''div'' []
             [Elem ''div'' [] [icon],
              Elem ''div'' [] [Elem ''h3'' [] [Txt name], Elem ''p'' [] [Txt description]]]],
        Elem ''Button'' [(''onClick'', ''onConnect''), (''disabled'', js_bool (isLoading \<or> isConnected)),
            (''class'', if isConnected then ''bg-white-600 text-black hover:bg-green-700'' else [])]
          (if isConnected then [Txt ''Connected'']
           else if isLoading then [Elem ''RefreshCw'' [] [], Txt ''Connecting...'']
           else [Elem ''ExternalLink'' [] [], Txt ''Connect''])]]"

definition EmailProviders :: "integration_state option \<Rightarrow> view js" where
  "EmailProviders ctx =
     js_bind (useEmailIntegrationContext ctx) (\<lambda>s.
       Inr (Elem ''div'' []
         [Elem ''div'' [] [Elem ''h2'' [] [Txt ''Email Providers'']],
          Elem ''div'' []
            [EmailProviderCard (Elem ''GmailIcon'' [] []) ''Gmail'' ''Connect your Gmail account to automate email workflows''
               (ei_isLoading s) False]]))"

definition HowItWorks :: view where
  "HowItWorks =
     Elem ''Card'' []
       [Elem ''CardHeader'' []
          [Elem ''CardTitle'' [] [Txt ''How It Works''],
           Elem ''CardDescription'' [] [Txt ''Follow these steps to connect your email account'']],
        Elem ''CardContent'' []
          [Elem ''div'' []
             (map (\<lambda>(step, title, description).
                Elem ''div'' [(''key'', step)]
                  [Elem ''div'' [] [Elem ''span'' [] [Txt step]],
                   Elem ''div'' [] [Elem ''h4'' [] [Txt title], Elem ''p'' [] [Txt description]]])
              [(''1'', ''Click the Connect Button'', ''You will be prompted to sign in to your email account''),
               (''2'', ''We'' @ [CHR 0x27] @ ''ll handle the rest'', ''Enjoy'')])]]"

definition PrivacyNote :: "string option \<Rightarrow> view list \<Rightarrow> view" where
  "PrivacyNote title children =
     Elem ''div'' []
       [Elem ''Shield'' [] [],
        Elem ''div'' [] [Elem ''p'' [] [Txt (case title of None \<Rightarrow> ''Your data stays private'' | Some t \<Rightarrow> t)], Elem ''div'' [] children]]"

definition Footer :: view where
  "Footer =
     Elem ''div'' [] [Elem ''div'' [] [PrivacyNote None
       [Txt ''TinyAutomator never stores your email content on our servers. All processing happens securely within your workflow.'']]]"

definition PageHeader :: "string \<Rightarrow> string option \<Rightarrow> view list \<Rightarrow> view" where
  "PageHeader title description children =
     Elem ''div'' []
       ([Elem ''div'' [] (Elem ''h3'' [] [Txt title] # opt_list (map_option (\<lambda>d. Elem ''p'' [] [Txt d]) (truthy_str description)))] @
        show_if (children \<noteq> []) (Elem ''div'' [] children))"

definition EmailIntegration :: "integration_state \<Rightarrow> view js" where
  "EmailIntegration s =
     js_bind (EmailProviders (Some s)) (\<lambda>providers.
       Inr (Elem ''div'' []
         [Elem ''div'' [] [PageHeader ''Email Integration'' None []],
          Elem ''div'' [] [providers, HowItWorks],
          Footer]))"

section \<open>Shared components\<close>

definition ErrorAlert :: "string option \<Rightarrow> string \<Rightarrow> bool \<Rightarrow> view" where
  "ErrorAlert title message centered =
     Elem ''Alert'' [(''variant'', ''destructive''), (''class'', if centered then ''flex flex-col items-center text-center space-y-1.5'' else [])]
       [Elem ''div'' []
          [Elem ''AlertCircle'' [] [],
           Elem ''AlertTitle'' [] [Txt (case title of None \<Rightarrow> ''Something went wrong'' | Some t \<Rightarrow> t)]],
        Elem ''AlertDescription'' [] [Txt message]]"

definition SuccessModal :: "bool \<Rightarrow> string option \<Rightarrow> string option \<Rightarrow> string option \<Rightarrow> bool \<Rightarrow> view" where
  "SuccessModal isOpen title description workflowId hasView =
     Elem ''Dialog'' [(''open'', js_bool isOpen), (''onOpenChange'', ''onOpenChange'')]
       [Elem ''DialogContent'' []
          [Elem ''DialogHeader'' []
             [Elem ''div'' [] [Elem ''CheckCircle'' [] []],
              Elem ''DialogTitle'' [] [Txt (case title of None \<Rightarrow> ''Workflow Saved'' | Some t \<Rightarrow> t)],
              Elem ''DialogDescription'' []
                (Txt (case description of None \<Rightarrow> ''Your workflow has been saved successfully.'' | Some d \<Rightarrow> d) #
                 opt_list (map_option (\<lambda>i. Elem ''div'' [] [Elem ''span'' [] [Txt ''Workflow ID: ''], Elem ''code'' [] [Txt i]])
                   (truthy_str workflowId)))],
           Elem ''DialogFooter'' []
             (Elem ''Button'' [(''onClick'', ''onOpenChange false'')] [Txt ''Close''] #
              show_if hasView (Elem ''Button'' [(''onClick'', ''onViewWorkflow'')] [Txt ''View Workflow'']))]]"

section \<open>What the server decides\<close>

lemma run_now_page:
  "run_now num base_url net wid = Inr page \<longleftrightarrow>
     (\<exists>r d v. net (call_request num base_url (RunWorkflow wid) None) = Some r \<and> rs_ok r \<and>
        rs_json r = Some d \<and> js_get d ''run_id'' = Inr v \<and> page = ''/workflow/'' @ wid @ ''/run/'' @ js_show num v)"
proof -
  have "run_now num base_url net wid = Inr page \<longleftrightarrow>
    (\<exists>v. perform num base_url (RunWorkflow wid) net None = Inr v \<and> page = ''/workflow/'' @ wid @ ''/run/'' @ js_show num v)"
    by (auto simp: run_now_def split: sum.splits)
  then show ?thesis
    using wf.call_value [of None num base_url "RunWorkflow wid" net] by (auto simp: token_ok_def)
qed

definition auth_url_request :: "string \<Rightarrow> http_request" where
  "auth_url_request base_url =
     \<lparr>rq_url = base_url @ ''/api/integrations/google/auth-url'', rq_method = Some ''GET'', rq_body = None,
      rq_credentials = ''include'', rq_headers = auth_headers None\<rparr>"

definition auth_url_answer :: "string \<Rightarrow> net \<Rightarrow> jsval option" where
  "auth_url_answer base_url net =
     (case net (auth_url_request base_url) of
        None \<Rightarrow> None
      | Some r \<Rightarrow> if rs_ok r then
          (case rs_json r of None \<Rightarrow> None
           | Some d \<Rightarrow> (case js_get d ''url'' of Inr v \<Rightarrow> if js_truthy v then Some v else None | Inl _ \<Rightarrow> None))
          else None)"

lemma getAuthUrl_settles: "getAuthUrl base_url net = request_settle (net (auth_url_request base_url))"
  by (simp add: getAuthUrl_def verb_defs request_sends token_ok_def auth_url_request_def)

lemma fetchGmailAuthUrl_value:
  "fetchGmailAuthUrl num base_url net = Inr u \<longleftrightarrow> map_option (js_show num) (auth_url_answer base_url net) = Some u"
proof (cases "request_settle (net (auth_url_request base_url))")
  case (Inl e)
  then have "auth_url_answer base_url net = None"
    by (auto simp: request_settle_def auth_url_answer_def split: option.splits if_splits)
  then show ?thesis using Inl by (simp add: fetchGmailAuthUrl_def getAuthUrl_settles)
next
  case (Inr d)
  then obtain r where "net (auth_url_request base_url) = Some r" "rs_ok r" "rs_json r = Some d"
    unfolding request_settle_Inr by blast
  then show ?thesis using Inr
    by (cases "js_get d ''url''") (simp_all add: fetchGmailAuthUrl_def getAuthUrl_settles auth_url_answer_def)
qed

section \<open>Properties\<close>

text \<open>The run button of the dashboard opens a page exactly when the server answers the request
  to start the workflow well, and it is the page of the run that the answer names. The run button of the
  library opens the page of the run whose id is the workflow's: the page of the started run only when the
  server chose that id.\<close>

lemma run_navigation:
  "(run_now num base_url net (w_id w) = Inr page \<longleftrightarrow>
      (\<exists>r d v. net (call_request num base_url (RunWorkflow (w_id w)) None) = Some r \<and> rs_ok r \<and>
         rs_json r = Some d \<and> js_get d ''run_id'' = Inr v \<and>
         page = ''/workflow/'' @ w_id w @ ''/run/'' @ js_show num v)) \<and>
   act_calls (handleRun w) = [RunWorkflow (w_id w)] \<and>
   (act_navigate (handleRun w) = Some page \<longleftrightarrow> page = ''/workflow/'' @ w_id w @ ''/run/'' @ w_id w)"
  by (auto simp: run_now_page handleRun_def)

text \<open>Connecting an account opens the pop-up exactly when the server answers with an address,
  and leaves the page ready for another attempt; otherwise nothing is opened and the reason is stored. The
  page shows neither: after the attempt it is rendered as it was before.\<close>

lemma gmail_connect_outcome:
  "(case auth_url_answer base_url net of
      Some v \<Rightarrow> connectGmail num te base_url net s =
        s\<lparr>ei_isLoading := False, ei_errorMessage := [], ei_authUrl := js_show num v,
          ei_opened := ei_opened s @ [js_show num v]\<rparr>
    | None \<Rightarrow> (\<exists>e. fetchGmailAuthUrl num base_url net = Inl e \<and>
        connectGmail num te base_url net s = s\<lparr>ei_isLoading := False, ei_errorMessage := error_text num te e\<rparr>)) \<and>
   EmailIntegration (connectGmail num te base_url net s) = EmailIntegration (s\<lparr>ei_isLoading := False\<rparr>)"
proof (cases "auth_url_answer base_url net")
  case None
  then obtain e where "fetchGmailAuthUrl num base_url net = Inl e"
    using fetchGmailAuthUrl_value [of num base_url net] by (cases "fetchGmailAuthUrl num base_url net") auto
  with None show ?thesis
    by (simp add: connectGmail_def connect_finish_def connect_start_def EmailIntegration_def EmailProviders_def
        useEmailIntegrationContext_def)
next
  case (Some v)
  then have "fetchGmailAuthUrl num base_url net = Inr (js_show num v)" by (simp add: fetchGmailAuthUrl_value)
  with Some show ?thesis
    by (simp add: connectGmail_def connect_finish_def connect_start_def EmailIntegration_def EmailProviders_def
        useEmailIntegrationContext_def)
qed

end
