(* ===== verification/Json_Parse.thy ===== *)
theory Json_Parse
  imports Js_Json
begin

text \<open>
  Reading JSON text (\<open>JSON.parse\<close>, RFC 8259): white space, literals, numbers, strings with their escapes,
  arrays and objects. The value of a number is an argument (\<open>np\<close>), its grammar is written out. An escape of
  a code unit above 255 is outside the model of strings and is rejected. The parser takes fuel; \<open>json_parse\<close>
  gives it twice the length of the text, and the round trip at the end shows that this is enough for every
  text that \<open>json_stringify\<close> writes.
\<close>

section \<open>Numbers\<close>

definition is_digit :: "char \<Rightarrow> bool" where
  "is_digit c \<longleftrightarrow> 48 \<le> (of_char c :: nat) \<and> (of_char c :: nat) \<le> 57"

definition num_char :: "char \<Rightarrow> bool" where
  "num_char c \<longleftrightarrow> is_digit c \<or> c \<in> {CHR ''-'', CHR ''+'', CHR ''.'', CHR ''e'', CHR ''E''}"

definition opt_char :: "char set \<Rightarrow> string \<Rightarrow> string" where
  "opt_char cs s = (case s of [] \<Rightarrow> [] | c # r \<Rightarrow> if c \<in> cs then r else s)"

definition some_digits :: "string \<Rightarrow> string option" where
  "some_digits s = (if takeWhile is_digit s = [] then None else Some (dropWhile is_digit s))"

definition json_int :: "string \<Rightarrow> string option" where
  "json_int s = (if take 1 s = ''0'' then Some (drop 1 s) else some_digits s)"

definition json_frac :: "string \<Rightarrow> string option" where
  "json_frac s = (if take 1 s = ''.'' then some_digits (drop 1 s) else Some s)"

definition json_exp :: "string \<Rightarrow> string option" where
  "json_exp s = (if take 1 s = ''e'' \<or> take 1 s = ''E'' then some_digits (opt_char {CHR ''+'', CHR ''-''} (drop 1 s)) else Some s)"

definition json_number :: "string \<Rightarrow> bool" where
  "json_number s \<longleftrightarrow>
     Option.bind (Option.bind (json_int (opt_char {CHR ''-''} s)) json_frac) json_exp = Some []"

section \<open>Strings\<close>

definition hex_val :: "char \<Rightarrow> nat option" where
  "hex_val c = (let n = (of_char c :: nat) in
     if 48 \<le> n \<and> n \<le> 57 then Some (n - 48)
     else if 97 \<le> n \<and> n \<le> 102 then Some (n - 87)
     else if 65 \<le> n \<and> n \<le> 70 then Some (n - 55)
     else None)"

definition hex4 :: "char \<Rightarrow> char \<Rightarrow> char \<Rightarrow> char \<Rightarrow> char option" where
  "hex4 a b c d =
     (case (hex_val a, hex_val b, hex_val c, hex_val d) of
        (Some w, Some x, Some y, Some z) \<Rightarrow>
          (let n = ((w * 16 + x) * 16 + y) * 16 + z in if n < 256 then Some (char_of n) else None)
      | _ \<Rightarrow> None)"

definition simple_escape :: "char \<Rightarrow> char option" where
  "simple_escape e =
     map_of [(CHR 0x22, CHR 0x22), (CHR 0x5C, CHR 0x5C), (CHR ''/'', CHR ''/''), (CHR ''b'', CHR 0x08),
             (CHR ''f'', CHR 0x0C), (CHR ''n'', CHR 0x0A), (CHR ''r'', CHR 0x0D), (CHR ''t'', CHR 0x09)] e"

definition cons_char :: "char \<Rightarrow> (string \<times> string) option \<Rightarrow> (string \<times> string) option" where
  "cons_char c = map_option (map_prod (Cons c) id)"

fun parse_chars :: "string \<Rightarrow> (string \<times> string) option" where
  "parse_chars [] = None"
| "parse_chars (c # cs) =
     (if c = CHR 0x22 then Some ([], cs)
      else if c = CHR 0x5C then
        (case cs of
           [] \<Rightarrow> None
         | e # cs1 \<Rightarrow>
             if e = CHR ''u'' then
               (case cs1 of
                  h1 # h2 # h3 # h4 # cs2 \<Rightarrow>
                    (case hex4 h1 h2 h3 h4 of None \<Rightarrow> None | Some d \<Rightarrow> cons_char d (parse_chars cs2))
                | _ \<Rightarrow> None)
             else (case simple_escape e of None \<Rightarrow> None | Some d \<Rightarrow> cons_char d (parse_chars cs1)))
      else if (of_char c :: nat) < 32 then None
      else cons_char c (parse_chars cs))"

section \<open>Values\<close>

definition json_ws :: "char \<Rightarrow> bool" where
  "json_ws c \<longleftrightarrow> (of_char c :: nat) \<in> {9, 10, 13, 32}"

definition skip_ws :: "string \<Rightarrow> string" where
  "skip_ws = dropWhile json_ws"

definition json_literals :: "(string \<times> jsval) list" where
  "json_literals = [(''null'', JNull), (''true'', JBool True), (''false'', JBool False)]"

definition parse_atom :: "(string \<Rightarrow> real) \<Rightarrow> string \<Rightarrow> (jsval \<times> string) option" where
  "parse_atom np s =
     (case List.find (\<lambda>l. take (length (fst l)) s = fst l) json_literals of
        Some (l, v) \<Rightarrow> Some (v, drop (length l) s)
      | None \<Rightarrow>
          (let t = takeWhile num_char s
           in if json_number t then Some (JNum (np t), dropWhile num_char s) else None))"

text \<open>A key that occurs twice has the last of its values.\<close>

definition json_object :: "(string \<times> jsval) list \<Rightarrow> jsval" where
  "json_object ms = JObj (fold (\<lambda>(k, v). js_set k v) ms [])"

fun parse_value :: "(string \<Rightarrow> real) \<Rightarrow> nat \<Rightarrow> string \<Rightarrow> (jsval \<times> string) option"
  and parse_elements :: "(string \<Rightarrow> real) \<Rightarrow> nat \<Rightarrow> string \<Rightarrow> (jsval list \<times> string) option"
  and parse_members :: "(string \<Rightarrow> real) \<Rightarrow> nat \<Rightarrow> string \<Rightarrow> ((string \<times> jsval) list \<times> string) option" where
  "parse_value np 0 s = None"
| "parse_value np (Suc n) s =
     (case skip_ws s of
        [] \<Rightarrow> None
      | c # cs \<Rightarrow>
          if c = CHR 0x22 then map_option (map_prod JStr id) (parse_chars cs)
          else if c = CHR ''['' then
            (if take 1 (skip_ws cs) = '']'' then Some (JArr [], drop 1 (skip_ws cs))
             else map_option (map_prod JArr id) (parse_elements np n cs))
          else if c = CHR ''{'' then
            (if take 1 (skip_ws cs) = ''}'' then Some (json_object [], drop 1 (skip_ws cs))
             else map_option (map_prod json_object id) (parse_members np n cs))
          else parse_atom np (c # cs))"
| "parse_elements np 0 s = None"
| "parse_elements np (Suc n) s =
     (case parse_value np n s of
        None \<Rightarrow> None
      | Some (v, r) \<Rightarrow>
          (case skip_ws r of
             [] \<Rightarrow> None
           | c # r1 \<Rightarrow>
               if c = CHR '']'' then Some ([v], r1)
               else if c = CHR '','' then map_option (map_prod (Cons v) id) (parse_elements np n r1)
               else None))"
| "parse_members np 0 s = None"
| "parse_members np (Suc n) s =
     (case skip_ws s of
        [] \<Rightarrow> None
      | q # s1 \<Rightarrow>
          if q \<noteq> CHR 0x22 then None
          else (case parse_chars s1 of
             None \<Rightarrow> None
           | Some (k, s2) \<Rightarrow>
               if take 1 (skip_ws s2) \<noteq> '':'' then None
               else (case parse_value np n (drop 1 (skip_ws s2)) of
                  None \<Rightarrow> None
                | Some (v, r) \<Rightarrow>
                    (case skip_ws r of
                       [] \<Rightarrow> None
                     | c # r1 \<Rightarrow>
                         if c = CHR ''}'' then Some ([(k, v)], r1)
                         else if c = CHR '','' then map_option (map_prod (Cons (k, v)) id) (parse_members np n r1)
                         else None))))"

definition json_parse :: "(string \<Rightarrow> real) \<Rightarrow> string \<Rightarrow> jsval option" where
  "json_parse np s =
     (case parse_value np (2 * length s + 1) s of
        None \<Rightarrow> None
      | Some (v, r) \<Rightarrow> if skip_ws r = [] then Some v else None)"

section \<open>What is read back\<close>

text \<open>The value that text of a value stands for: \<open>undefined\<close> is \<open>null\<close> in an array and absent from an
  object.\<close>

fun json_norm :: "jsval \<Rightarrow> jsval"
  and norm_items :: "jsval list \<Rightarrow> jsval list"
  and norm_fields :: "(string \<times> jsval) list \<Rightarrow> (string \<times> jsval) list" where
  "json_norm (JArr xs) = JArr (norm_items xs)"
| "json_norm (JObj fs) = JObj (norm_fields fs)"
| "json_norm v = v"
| "norm_items [] = []"
| "norm_items (x # xs) = (if x = JUndefined then JNull else json_norm x) # norm_items xs"
| "norm_fields [] = []"
| "norm_fields ((k, v) # fs) = (if v = JUndefined then norm_fields fs else (k, json_norm v) # norm_fields fs)"

text \<open>The values of the program: objects have every key once, and numbers belong to the set \<open>F\<close> of numbers
  that the machine can represent.\<close>

fun json_ok :: "real set \<Rightarrow> jsval \<Rightarrow> bool"
  and items_ok :: "real set \<Rightarrow> jsval list \<Rightarrow> bool"
  and fields_ok :: "real set \<Rightarrow> (string \<times> jsval) list \<Rightarrow> bool" where
  "json_ok F (JNum x) = (x \<in> F)"
| "json_ok F (JArr xs) = items_ok F xs"
| "json_ok F (JObj fs) = (distinct (map fst fs) \<and> fields_ok F fs)"
| "json_ok F v = True"
| "items_ok F [] = True"
| "items_ok F (x # xs) = (json_ok F x \<and> items_ok F xs)"
| "fields_ok F [] = True"
| "fields_ok F ((k, v) # fs) = (json_ok F v \<and> fields_ok F fs)"

text \<open>The documented behaviour of number texts: the text of a representable number follows the grammar and
  is read back to that number.\<close>

definition json_num_doc :: "real set \<Rightarrow> (real \<Rightarrow> string) \<Rightarrow> (string \<Rightarrow> real) \<Rightarrow> bool" where
  "json_num_doc F num np \<longleftrightarrow> (\<forall>x\<in>F. json_number (num x) \<and> np (num x) = x)"

section \<open>Characters of numbers\<close>

lemma num_char_digits: "is_digit c \<Longrightarrow> num_char c"
  by (simp add: num_char_def)

lemma some_digits_num:
  "some_digits s = Some r \<Longrightarrow> list_all num_char r \<Longrightarrow> s \<noteq> [] \<and> is_digit (hd s) \<and> list_all num_char s"
proof -
  assume a: "some_digits s = Some r" "list_all num_char r"
  then have r: "r = dropWhile is_digit s" and ne: "takeWhile is_digit s \<noteq> []" by (auto simp: some_digits_def split: if_splits)
  have "list_all num_char (takeWhile is_digit s)"
    by (auto simp: list_all_iff dest: set_takeWhileD num_char_digits)
  then have "list_all num_char s" using a(2) r by (metis list_all_append takeWhile_dropWhile_id)
  moreover have "s \<noteq> [] \<and> is_digit (hd s)" using ne by (cases s) (auto split: if_splits)
  ultimately show ?thesis by simp
qed

lemma take1_eq: "take (Suc 0) s = [c] \<longleftrightarrow> s \<noteq> [] \<and> hd s = c"
  by (cases s) auto

lemma json_exp_num: "json_exp s = Some [] \<Longrightarrow> list_all num_char s"
  using some_digits_num [of "opt_char {CHR ''+'', CHR ''-''} (drop 1 s)" "[]"]
  by (cases s) (auto simp: json_exp_def opt_char_def num_char_def split: if_splits list.splits)

lemma json_frac_num: "json_frac s = Some r \<Longrightarrow> list_all num_char r \<Longrightarrow> list_all num_char s"
  using some_digits_num [of "drop 1 s" r]
  by (cases s) (auto simp: json_frac_def num_char_def split: if_splits)

lemma json_int_num: "json_int s = Some r \<Longrightarrow> list_all num_char r \<Longrightarrow> s \<noteq> [] \<and> is_digit (hd s) \<and> list_all num_char s"
  using some_digits_num [of s r]
  by (cases s) (auto simp: json_int_def num_char_def is_digit_def split: if_splits)

lemma json_number_chars:
  assumes "json_number s"
  shows "s \<noteq> [] \<and> (is_digit (hd s) \<or> hd s = CHR ''-'') \<and> list_all num_char s"
proof -
  from assms obtain a b where "json_int (opt_char {CHR ''-''} s) = Some a" "json_frac a = Some b" "json_exp b = Some []"
    by (auto simp: json_number_def bind_eq_Some_conv)
  from json_int_num [OF this(1) json_frac_num [OF this(2) json_exp_num [OF this(3)]]] show ?thesis
    by (cases s) (auto simp: opt_char_def num_char_def split: if_splits)
qed

section \<open>Strings are read back\<close>

lemma hex_val_digit: "d < 16 \<Longrightarrow> hex_val (hex_digit d) = Some d"
  by (simp add: hex_val_def hex_digit_def Let_def of_char_of)

lemma hex4_code: "(of_char c :: nat) < 32 \<Longrightarrow>
  hex4 (CHR ''0'') (CHR ''0'') (hex_digit (of_char c div 16)) (hex_digit (of_char c mod 16)) = Some c"
proof -
  assume n: "(of_char c :: nat) < 32"
  have z: "hex_val (CHR ''0'') = Some 0" by (simp add: hex_val_def)
  have "(of_char c :: nat) div 16 < 16" using n by simp
  then show ?thesis using n by (simp add: hex4_def z hex_val_digit)
qed

lemma escaped_chars:
  "char_of (34 :: nat) = CHR 0x22" "char_of (92 :: nat) = CHR 0x5C" "char_of (8 :: nat) = CHR 0x08"
  "char_of (12 :: nat) = CHR 0x0C" "char_of (10 :: nat) = CHR 0x0A" "char_of (13 :: nat) = CHR 0x0D"
  "char_of (9 :: nat) = CHR 0x09"
  by code_simp+

lemma parse_quoted_char: "parse_chars (json_quote_char c @ s) = cons_char c (parse_chars s)"
proof -
  have eq: "(of_char c :: nat) = n \<longleftrightarrow> c = char_of n" if "n < 256" for n
    using that by (metis char_of_char of_char_of mod_less)
  let ?n = "of_char c :: nat"
  consider "?n \<in> {34, 92, 8, 12, 10, 13, 9}" | "?n \<notin> {34, 92, 8, 12, 10, 13, 9}" "?n < 32"
    | "?n \<notin> {34, 92, 8, 12, 10, 13, 9}" "\<not> ?n < 32" by blast
  then show ?thesis
  proof cases
    case 1
    then show ?thesis by (auto simp: json_quote_char_def eq simple_escape_def escaped_chars)
  next
    case 2
    then show ?thesis using hex4_code [OF 2(2)] by (simp add: json_quote_char_def Let_def)
  next
    case 3
    then have "c \<noteq> CHR 0x22" "c \<noteq> CHR 0x5C" by auto
    with 3 show ?thesis by (simp add: json_quote_char_def Let_def)
  qed
qed

lemma parse_quoted: "parse_chars (concat (map json_quote_char s) @ CHR 0x22 # r) = Some (s, r)"
  by (induction s) (simp_all add: parse_quoted_char cons_char_def)

section \<open>Values are read back\<close>

text \<open>What may follow a value in JSON text: nothing that could belong to a number.\<close>

definition follows :: "string \<Rightarrow> bool" where
  "follows r \<longleftrightarrow> (case r of [] \<Rightarrow> True | c # _ \<Rightarrow> \<not> num_char c)"

lemma follows_simps [simp]: "follows []" "follows (CHR '','' # r)" "follows (CHR '']'' # r)" "follows (CHR ''}'' # r)"
  by (simp_all add: follows_def num_char_def is_digit_def)

lemma skip_ws_simps [simp]:
  "skip_ws (CHR 0x22 # s) = CHR 0x22 # s" "skip_ws (CHR ''['' # s) = CHR ''['' # s" "skip_ws (CHR ''{'' # s) = CHR ''{'' # s"
  "skip_ws (CHR '']'' # s) = CHR '']'' # s" "skip_ws (CHR ''}'' # s) = CHR ''}'' # s" "skip_ws (CHR '','' # s) = CHR '','' # s"
  "skip_ws (CHR '':'' # s) = CHR '':'' # s" "skip_ws (CHR ''n'' # s) = CHR ''n'' # s" "skip_ws (CHR ''t'' # s) = CHR ''t'' # s"
  "skip_ws (CHR ''f'' # s) = CHR ''f'' # s"
  by (simp_all add: skip_ws_def json_ws_def)

lemma takeWhile_follows: "list_all num_char t \<Longrightarrow> follows r \<Longrightarrow> takeWhile num_char (t @ r) = t \<and> dropWhile num_char (t @ r) = r"
  by (induction t) (auto simp: follows_def split: list.splits)

lemma parse_number:
  assumes "json_number t" and "follows r"
  shows "parse_value np (Suc n) (t @ r) = Some (JNum (np t), r)"
proof -
  obtain c t' where t: "t = c # t'" "is_digit c \<or> c = CHR ''-''" "list_all num_char t"
    using json_number_chars [OF assms(1)] by (cases t) auto
  have c: "skip_ws (c # s) = c # s" "c \<notin> {CHR 0x22, CHR ''['', CHR ''{'', CHR ''n'', CHR ''t'', CHR ''f''}" for s
    using t(2) by (auto simp: skip_ws_def json_ws_def is_digit_def)
  have "parse_atom np (t @ r) = Some (JNum (np t), r)"
    using c(2) takeWhile_follows [OF t(3) assms(2)] assms(1)
    by (auto simp: parse_atom_def json_literals_def t(1))
  then show ?thesis using c by (simp add: t(1))
qed

text \<open>The text of a value begins with a character that is neither white space nor the end of an array or
  object.\<close>

definition starts_value :: "string \<Rightarrow> bool" where
  "starts_value t \<longleftrightarrow> t \<noteq> [] \<and> \<not> json_ws (hd t) \<and> hd t \<notin> {CHR '']'', CHR ''}''}"

lemma starts_value_append: "starts_value t \<Longrightarrow> skip_ws (t @ r) = t @ r \<and> take 1 (t @ r) \<noteq> '']'' \<and> take 1 (t @ r) \<noteq> ''}'' \<and> t \<noteq> []"
  by (cases t) (auto simp: starts_value_def skip_ws_def)

lemma stringify_starts:
  assumes "json_num_doc F num np" and "json_ok F v" and "json_stringify num v = Some t"
  shows "starts_value t"
proof (cases v)
  case (JNum x)
  then have "json_number t" using assms by (auto simp: json_num_doc_def)
  from json_number_chars [OF this] show ?thesis
    by (cases t) (auto simp: starts_value_def json_ws_def is_digit_def)
qed (use assms(3) in \<open>auto simp: starts_value_def json_quote_def json_ws_def split: if_splits\<close>)

lemma stringify_None: "json_stringify num v = None \<longleftrightarrow> v = JUndefined"
  by (cases v) auto

lemma norm_fields_keys: "fst ` set (norm_fields fs) \<subseteq> fst ` set fs"
proof (induction fs)
  case (Cons f fs)
  then show ?case by (cases f) auto
qed simp

lemma distinct_norm_fields: "distinct (map fst fs) \<Longrightarrow> distinct (map fst (norm_fields fs))"
proof (induction fs)
  case (Cons f fs)
  then show ?case using norm_fields_keys [of fs] by (cases f) auto
qed simp

lemma fold_js_set_distinct:
  "distinct (map fst (ms @ fs)) \<Longrightarrow> fold (\<lambda>(k, v). js_set k v) fs ms = ms @ fs"
proof (induction fs arbitrary: ms)
  case (Cons f fs)
  obtain k v where f: "f = (k, v)" by fastforce
  have "js_set k v ms = ms @ [(k, v)]" if "k \<notin> fst ` set ms"
    using that by (induction ms) auto
  with Cons show ?case by (auto simp: f)
qed simp

lemma json_object_distinct: "distinct (map fst fs) \<Longrightarrow> json_object fs = JObj fs"
  using fold_js_set_distinct [of "[]" fs] by (simp add: json_object_def)

lemma json_items_Nil [simp]: "json_items num xs = [] \<longleftrightarrow> xs = []"
  by (cases xs) auto

lemma json_fields_Nil: "json_fields num fs = [] \<Longrightarrow> norm_fields fs = []"
proof (induction fs)
  case (Cons f fs)
  then show ?case by (cases f) (auto simp: stringify_None split: option.splits)
qed simp

lemma js_join_Cons: "js_join sep (w # ws) = (if ws = [] then w else w @ sep @ js_join sep ws)"
  by (cases ws) auto

lemma parse_literal [simp]:
  "parse_value np (Suc n) (CHR ''n'' # CHR ''u'' # CHR ''l'' # CHR ''l'' # r) = Some (JNull, r)"
  "parse_value np (Suc n) (CHR ''t'' # CHR ''r'' # CHR ''u'' # CHR ''e'' # r) = Some (JBool True, r)"
  "parse_value np (Suc n) (CHR ''f'' # CHR ''a'' # CHR ''l'' # CHR ''s'' # CHR ''e'' # r) = Some (JBool False, r)"
  by (simp_all add: parse_atom_def json_literals_def)

lemma parse_string: "parse_value np (Suc n) (json_quote s @ r) = Some (JStr s, r)"
  by (simp add: json_quote_def parse_quoted)

text \<open>One element or member with what follows it.\<close>

lemma parse_elements_step:
  "parse_value np n (t @ CHR '']'' # r) = Some (v, CHR '']'' # r) \<Longrightarrow>
   parse_elements np (Suc n) (t @ CHR '']'' # r) = Some ([v], r)"
  "parse_value np n (t @ CHR '','' # r) = Some (v, CHR '','' # r) \<Longrightarrow> parse_elements np n r = Some (vs, q) \<Longrightarrow>
   parse_elements np (Suc n) (t @ CHR '','' # r) = Some (v # vs, q)"
  by simp_all

lemma parse_members_step:
  "parse_value np n (t @ CHR ''}'' # r) = Some (v, CHR ''}'' # r) \<Longrightarrow>
   parse_members np (Suc n) (json_quote k @ CHR '':'' # t @ CHR ''}'' # r) = Some ([(k, v)], r)"
  "parse_value np n (t @ CHR '','' # r) = Some (v, CHR '','' # r) \<Longrightarrow> parse_members np n r = Some (vs, q) \<Longrightarrow>
   parse_members np (Suc n) (json_quote k @ CHR '':'' # t @ CHR '','' # r) = Some ((k, v) # vs, q)"
  by (simp_all add: json_quote_def parse_quoted)

lemma parse_array:
  assumes "starts_value t" and "parse_elements np n (t @ CHR '']'' # r) = Some (vs, r)"
  shows "parse_value np (Suc n) (CHR ''['' # t @ CHR '']'' # r) = Some (JArr vs, r)"
  using starts_value_append [OF assms(1), of "CHR '']'' # r"] assms(2) by simp

lemma parse_object:
  assumes "parse_members np n (json_quote k @ s) = Some (ms, r)"
  shows "parse_value np (Suc n) (CHR ''{'' # json_quote k @ s) = Some (json_object ms, r)"
  using assms by (simp add: json_quote_def)

text \<open>A list of items, or of members, one after the other: \<open>ws\<close> are the texts of the later ones.\<close>

lemma parse_elements_Cons:
  assumes v: "\<And>c q. c = CHR '','' \<or> c = CHR '']'' \<Longrightarrow> parse_value np m (t @ c # q) = Some (v, c # q)"
    and nil: "ws = [] \<Longrightarrow> vs = []"
    and rest: "ws \<noteq> [] \<Longrightarrow> parse_elements np m (js_join '','' ws @ CHR '']'' # r) = Some (vs, r)"
  shows "parse_elements np (Suc m) (js_join '','' (t # ws) @ CHR '']'' # r) = Some (v # vs, r)"
proof (cases "ws = []")
  case True
  then show ?thesis using parse_elements_step(1) [OF v] nil by simp
next
  case False
  from parse_elements_step(2) [OF v rest [OF False]] False show ?thesis by (simp add: js_join_Cons)
qed

lemma parse_members_Cons:
  assumes v: "\<And>c q. c = CHR '','' \<or> c = CHR ''}'' \<Longrightarrow> parse_value np m (t @ c # q) = Some (v, c # q)"
    and nil: "ws = [] \<Longrightarrow> vs = []"
    and rest: "ws \<noteq> [] \<Longrightarrow> parse_members np m (js_join '','' ws @ CHR ''}'' # r) = Some (vs, r)"
  shows "parse_members np (Suc m) (js_join '','' ((json_quote k @ '':'' @ t) # ws) @ CHR ''}'' # r) = Some ((k, v) # vs, r)"
proof (cases "ws = []")
  case True
  then show ?thesis using parse_members_step(1) [OF v] nil by simp
next
  case False
  from parse_members_step(2) [OF v rest [OF False]] False show ?thesis by (simp add: js_join_Cons)
qed

lemma items_start:
  assumes "json_num_doc F num np" and "items_ok F xs" and "xs \<noteq> []"
  shows "starts_value (js_join '','' (json_items num xs))"
proof -
  obtain x ys where xs: "xs = x # ys" using assms(3) by (cases xs) auto
  have "starts_value (case json_stringify num x of None \<Rightarrow> ''null'' | Some t \<Rightarrow> t)"
    using stringify_starts [OF assms(1), of x] assms(2) xs by (auto simp: starts_value_def json_ws_def split: option.splits)
  then show ?thesis by (auto simp: xs js_join_Cons starts_value_def)
qed

lemma fields_start: "json_fields num fs \<noteq> [] \<Longrightarrow> \<exists>k s. js_join '','' (json_fields num fs) = json_quote k @ s"
proof (induction fs)
  case (Cons f fs)
  obtain k v where "f = (k, v)" by fastforce
  then show ?case using Cons by (cases "json_stringify num v") (auto simp: js_join_Cons)
qed simp

lemma parse_array_text:
  assumes "json_num_doc F num np" and "items_ok F xs" and n: "2 * length (js_join '','' (json_items num xs)) + 5 \<le> n"
    and rest: "\<And>m. xs \<noteq> [] \<Longrightarrow> 2 * length (js_join '','' (json_items num xs)) + 2 \<le> m \<Longrightarrow>
      parse_elements np m (js_join '','' (json_items num xs) @ CHR '']'' # r) = Some (norm_items xs, r)"
  shows "parse_value np n (CHR ''['' # js_join '','' (json_items num xs) @ CHR '']'' # r) = Some (JArr (norm_items xs), r)"
proof (cases "xs = []")
  case True
  then show ?thesis using n by (cases n) auto
next
  case False
  obtain m where m: "n = Suc m" using n by (cases n) auto
  show ?thesis
    unfolding m by (rule parse_array [OF items_start [OF assms(1,2) False] rest [OF False]]) (use n m in simp)
qed

lemma parse_object_text:
  assumes "distinct (map fst fs)" and n: "2 * length (js_join '','' (json_fields num fs)) + 5 \<le> n"
    and rest: "\<And>m. json_fields num fs \<noteq> [] \<Longrightarrow> 2 * length (js_join '','' (json_fields num fs)) + 2 \<le> m \<Longrightarrow>
      parse_members np m (js_join '','' (json_fields num fs) @ CHR ''}'' # r) = Some (norm_fields fs, r)"
  shows "parse_value np n (CHR ''{'' # js_join '','' (json_fields num fs) @ CHR ''}'' # r) = Some (JObj (norm_fields fs), r)"
proof (cases "json_fields num fs = []")
  case True
  then show ?thesis using n by (cases n) (auto simp: json_fields_Nil json_object_def)
next
  case False
  obtain m where m: "n = Suc m" using n by (cases n) auto
  obtain k s where ks: "js_join '','' (json_fields num fs) = json_quote k @ s" using fields_start [OF False] by blast
  have "parse_members np m (json_quote k @ s @ CHR ''}'' # r) = Some (norm_fields fs, r)"
    using rest [OF False, of m] n m ks by simp
  from parse_object [OF this] show ?thesis
    using distinct_norm_fields [OF assms(1)] by (simp add: m ks json_object_distinct)
qed

lemma parse_stringify:
  assumes "json_num_doc F num np"
  shows "\<And>t r n. json_ok F v \<Longrightarrow> json_stringify num v = Some t \<Longrightarrow> follows r \<Longrightarrow> 2 * length t + 1 \<le> n \<Longrightarrow>
      parse_value np n (t @ r) = Some (json_norm v, r)"
    and "\<And>r n. items_ok F xs \<Longrightarrow> xs \<noteq> [] \<Longrightarrow> 2 * length (js_join '','' (json_items num xs)) + 2 \<le> n \<Longrightarrow>
      parse_elements np n (js_join '','' (json_items num xs) @ CHR '']'' # r) = Some (norm_items xs, r)"
    and "\<And>r n. fields_ok F fs \<Longrightarrow> json_fields num fs \<noteq> [] \<Longrightarrow> 2 * length (js_join '','' (json_fields num fs)) + 2 \<le> n \<Longrightarrow>
      parse_members np n (js_join '','' (json_fields num fs) @ CHR ''}'' # r) = Some (norm_fields fs, r)"
  using assms
proof (induction num v and num xs and num fs rule: json_stringify_json_items_json_fields.induct)
  case (2 num)
  then show ?case by (cases n) (auto simp del: parse_value.simps)
next
  case (3 num b)
  then show ?case by (cases n) (auto simp del: parse_value.simps)
next
  case (4 num x)
  then show ?case by (cases n) (auto simp: json_num_doc_def parse_number simp del: parse_value.simps)
next
  case (5 num s)
  then show ?case by (cases n) (auto simp: parse_string simp del: parse_value.simps)
next
  case (6 num xs)
  then show ?case using parse_array_text [OF 6(6), of xs n r] by (auto simp del: parse_value.simps)
next
  case (7 num fs)
  then show ?case using parse_object_text [of fs num n np r] by (auto simp del: parse_value.simps)
next
  case (9 num x xs)
  obtain m where m: "n = Suc m" using 9 by (cases n) auto
  let ?t = "case json_stringify num x of None \<Rightarrow> ''null'' | Some t \<Rightarrow> t"
  have "parse_value np m (?t @ c # q) = Some (if x = JUndefined then JNull else json_norm x, c # q)"
    if "c = CHR '','' \<or> c = CHR '']''" for c q
    using 9 m that by (cases "json_stringify num x"; cases m)
      (auto simp: stringify_None js_join_Cons simp del: parse_value.simps split: if_splits)
  from parse_elements_Cons [OF this, where ws = "json_items num xs" and vs = "norm_items xs"] show ?case
    using 9 m by (auto simp: js_join_Cons simp del: js_join.simps)
next
  case (11 num k v fs)
  show ?case
  proof (cases "json_stringify num v")
    case None
    then show ?thesis using 11 by (simp add: stringify_None)
  next
    case (Some t)
    obtain m where m: "n = Suc m" using 11 by (cases n) auto
    have "parse_value np m (t @ c # q) = Some (json_norm v, c # q)" if "c = CHR '','' \<or> c = CHR ''}''" for c q
      using 11 Some m that by (auto simp: js_join_Cons split: if_splits)
    from parse_members_Cons [OF this, where ws = "json_fields num fs" and vs = "norm_fields fs"] show ?thesis
      using 11 Some m by (auto simp: js_join_Cons json_fields_Nil simp del: js_join.simps)
  qed
qed simp_all

text \<open>Text that \<open>JSON.stringify\<close> writes is always read back, to the value without its undefined parts.\<close>

lemma json_roundtrip:
  assumes "json_num_doc F num np" and "json_ok F v" and "json_stringify num v = Some t"
  shows "json_parse np t = Some (json_norm v)"
proof -
  have "parse_value np (2 * length t + 1) (t @ []) = Some (json_norm v, [])"
    using assms by (intro parse_stringify) auto
  then show ?thesis by (simp add: json_parse_def skip_ws_def)
qed

end
