(* ===== verification/Wire_Format.thy ===== *)
theory Wire_Format
  imports Workflow_Api Json_Parse
begin

text \<open>
  What the server reads from the body of a request: the JSON text that the workflow client writes, parsed,
  is the object that was passed to the client, with the undefined entries of the node configurations
  left out.
\<close>

definition wire_node :: "workflow_node \<Rightarrow> workflow_node" where
  "wire_node n = n\<lparr>wn_config := norm_fields (wn_config n)\<rparr>"

fun wire_call :: "api_call \<Rightarrow> api_call" where
  "wire_call (CreateWorkflow d) = CreateWorkflow (d\<lparr>cw_nodes := map wire_node (cw_nodes d)\<rparr>)"
| "wire_call (UpdateWorkflow i d) = UpdateWorkflow i (d\<lparr>uw_nodes := map wire_node (uw_nodes d)\<rparr>)"
| "wire_call c = c"

definition node_ok :: "real set \<Rightarrow> workflow_node \<Rightarrow> bool" where
  "node_ok F n \<longleftrightarrow> json_ok F (JObj (wn_config n)) \<and> fst (wn_position n) \<in> F \<and> snd (wn_position n) \<in> F"

fun call_nodes :: "api_call \<Rightarrow> workflow_node list" where
  "call_nodes (CreateWorkflow d) = cw_nodes d"
| "call_nodes (UpdateWorkflow i d) = uw_nodes d"
| "call_nodes c = []"

lemma norm_items_nodes: "norm_items (map node_json ns) = map node_json (map wire_node ns)"
  by (induction ns) (simp_all add: node_json_def wire_node_def)

lemma norm_items_edges: "norm_items (map edge_json es) = map edge_json es"
  by (induction es) (simp_all add: edge_json_def)

lemma items_ok_nodes: "list_all (node_ok F) ns \<Longrightarrow> items_ok F (map node_json ns)"
  by (induction ns) (auto simp: node_json_def node_ok_def)

lemma items_ok_edges: "items_ok F (map edge_json es)"
  by (induction es) (simp_all add: edge_json_def)

lemma norm_call_body: "call_body c = Some b \<Longrightarrow> call_body (wire_call c) = Some (json_norm b)"
  by (cases c) (auto simp: create_json_def update_json_def norm_items_nodes norm_items_edges simp del: map_map)

lemma call_body_ok: "call_body c = Some b \<Longrightarrow> list_all (node_ok F) (call_nodes c) \<Longrightarrow> json_ok F b"
  by (cases c) (auto simp: create_json_def update_json_def items_ok_nodes items_ok_edges)

lemma call_body_text: "call_body c = Some b \<Longrightarrow> \<exists>t. json_stringify num b = Some t"
  by (cases c) (auto simp: create_json_def update_json_def)

text \<open>The text of a body parses to the object that was passed, without the undefined entries of the configurations.\<close>

lemma call_body_parses:
  assumes "json_num_doc F num np" and "list_all (node_ok F) (call_nodes c)" and "call_body c = Some b"
  obtains t where "json_stringify num b = Some t" "json_parse np t = call_body (wire_call c)"
proof -
  obtain t where t: "json_stringify num b = Some t" using call_body_text assms(3) by blast
  then show ?thesis
    using that [OF t] json_roundtrip [OF assms(1) call_body_ok [OF assms(3,2)] t] norm_call_body [OF assms(3)] by simp
qed

definition demo_num :: "real \<Rightarrow> string" where
  "demo_num x = (if x = 0 then ''0'' else ''-1.5e+3'')"

definition demo_np :: "string \<Rightarrow> real" where
  "demo_np t = (if t = ''0'' then 0 else - 1500)"

lemma demo_json_num_doc: "json_num_doc {0, - 1500} demo_num demo_np"
proof -
  have "json_number ''0''" "json_number ''-1.5e+3''" by code_simp+
  then show ?thesis by (simp add: json_num_doc_def demo_num_def demo_np_def)
qed

definition demo_update :: update_workflow_dto where
  "demo_update = \<lparr>uw_name = [CHR 0x22, CHR 0x0A], uw_description = [],
     uw_nodes = [\<lparr>wn_id = ''n'', wn_category = ''action'', wn_node_type = ''send_email'',
       wn_config = [(''cc'', JUndefined), (''to'', JArr [JUndefined])], wn_position = (0, - 1500)\<rparr>], uw_edges = []\<rparr>"

end
