(* ===== verification/Local_Storage.thy ===== *)
theory Local_Storage
  imports Json_Parse
begin

text \<open>
  The hook that keeps a value in the storage of the browser (\<open>hooks/useLocalStorage.ts\<close>). The storage is a map
  of texts; \<open>fits\<close> says whether a write is accepted, since the browser may refuse it. \<open>window\<close> is absent while
  the page is rendered on the server. The effect runs at mount and after a render in which key or value
  has changed.
\<close>

type_synonym storage = "string \<rightharpoonup> string"

record storage_hook =
  ls_key :: string
  ls_value :: jsval
  ls_storage :: storage

definition read_storage :: "(string \<Rightarrow> real) \<Rightarrow> bool \<Rightarrow> storage \<Rightarrow> string \<Rightarrow> jsval \<Rightarrow> jsval" where
  "read_storage np window st key initialValue =
     (if \<not> window then initialValue
      else (case truthy_str (st key) of
              None \<Rightarrow> initialValue
            | Some item \<Rightarrow> (case json_parse np item of None \<Rightarrow> initialValue | Some v \<Rightarrow> v)))"

text \<open>\<open>JSON.stringify\<close> of \<open>undefined\<close> is \<open>undefined\<close>, which \<open>setItem\<close> converts to text.\<close>

definition stored_text :: "(real \<Rightarrow> string) \<Rightarrow> jsval \<Rightarrow> string" where
  "stored_text num v = (case json_stringify num v of None \<Rightarrow> ''undefined'' | Some t \<Rightarrow> t)"

definition write_storage ::
  "(real \<Rightarrow> string) \<Rightarrow> (storage \<Rightarrow> string \<Rightarrow> string \<Rightarrow> bool) \<Rightarrow> bool \<Rightarrow> storage_hook \<Rightarrow> storage_hook" where
  "write_storage num fits window s =
     (let t = stored_text num (ls_value s)
      in if window \<and> fits (ls_storage s) (ls_key s) t
         then s\<lparr>ls_storage := (ls_storage s)(ls_key s \<mapsto> t)\<rparr> else s)"

definition useLocalStorage ::
  "(real \<Rightarrow> string) \<Rightarrow> (string \<Rightarrow> real) \<Rightarrow> (storage \<Rightarrow> string \<Rightarrow> string \<Rightarrow> bool) \<Rightarrow> bool \<Rightarrow> storage \<Rightarrow> string \<Rightarrow> jsval \<Rightarrow> storage_hook" where
  "useLocalStorage num np fits window st key initialValue =
     write_storage num fits window
       \<lparr>ls_key = key, ls_value = read_storage np window st key initialValue, ls_storage = st\<rparr>"

definition setStoredValue ::
  "(real \<Rightarrow> string) \<Rightarrow> (storage \<Rightarrow> string \<Rightarrow> string \<Rightarrow> bool) \<Rightarrow> bool \<Rightarrow> jsval \<Rightarrow> storage_hook \<Rightarrow> storage_hook" where
  "setStoredValue num fits window v s = (if v = ls_value s then s else write_storage num fits window (s\<lparr>ls_value := v\<rparr>))"

text \<open>A render with another key keeps the value and writes it there.\<close>

definition change_key ::
  "(real \<Rightarrow> string) \<Rightarrow> (storage \<Rightarrow> string \<Rightarrow> string \<Rightarrow> bool) \<Rightarrow> bool \<Rightarrow> string \<Rightarrow> storage_hook \<Rightarrow> storage_hook" where
  "change_key num fits window k s = (if k = ls_key s then s else write_storage num fits window (s\<lparr>ls_key := k\<rparr>))"

datatype storage_event = SetValue jsval | SetKey string

fun storage_step :: "(real \<Rightarrow> string) \<Rightarrow> storage_event \<Rightarrow> storage_hook \<Rightarrow> storage_hook" where
  "storage_step num (SetValue v) s = setStoredValue num (\<lambda>st k t. True) True v s"
| "storage_step num (SetKey k) s = change_key num (\<lambda>st k t. True) True k s"

section \<open>Reloading\<close>

text \<open>The text in the storage stands for the value of the hook.\<close>

definition storage_synced :: "(real \<Rightarrow> string) \<Rightarrow> real set \<Rightarrow> storage_hook \<Rightarrow> bool" where
  "storage_synced num F s \<longleftrightarrow> ls_storage s (ls_key s) = Some (stored_text num (ls_value s)) \<and> json_ok F (ls_value s)"

lemma write_synced:
  "json_ok F (ls_value s) \<Longrightarrow> storage_synced num F (write_storage num (\<lambda>st k t. True) True s)"
  by (simp add: storage_synced_def write_storage_def Let_def)

definition event_ok :: "real set \<Rightarrow> storage_event \<Rightarrow> bool" where
  "event_ok F e \<longleftrightarrow> (case e of SetValue v \<Rightarrow> json_ok F v | SetKey k \<Rightarrow> True)"

lemma storage_step_synced: "event_ok F e \<Longrightarrow> storage_synced num F s \<Longrightarrow> storage_synced num F (storage_step num e s)"
  by (cases e) (auto simp: event_ok_def setStoredValue_def change_key_def storage_synced_def [of _ _ s] intro!: write_synced)

lemma storage_run_synced:
  "list_all (event_ok F) es \<Longrightarrow> storage_synced num F s \<Longrightarrow> storage_synced num F (fold (storage_step num) es s)"
  by (induction es arbitrary: s) (auto intro: storage_step_synced)

lemma stored_text_ne: "json_num_doc F num np \<Longrightarrow> json_ok F v \<Longrightarrow> stored_text num v \<noteq> []"
  by (auto simp: stored_text_def starts_value_def dest: stringify_starts split: option.splits)

lemma undefined_text: "json_parse np ''undefined'' = None"
  by (simp add: json_parse_def numeral_eq_Suc parse_atom_def json_literals_def skip_ws_def json_ws_def num_char_def
      is_digit_def json_number_def json_int_def some_digits_def opt_char_def)

lemma synced_read:
  assumes "json_num_doc F num np" and "storage_synced num F s"
  shows "read_storage np True (ls_storage s) (ls_key s) ini =
    (if ls_value s = JUndefined then ini else json_norm (ls_value s))"
proof -
  have ok: "json_ok F (ls_value s)" and st: "ls_storage s (ls_key s) = Some (stored_text num (ls_value s))"
    using assms(2) by (simp_all add: storage_synced_def)
  have tr: "truthy_str (Some (stored_text num (ls_value s))) = Some (stored_text num (ls_value s))"
    using stored_text_ne [OF assms(1) ok] by (simp add: truthy_str_Some)
  show ?thesis
  proof (cases "json_stringify num (ls_value s)")
    case None
    then show ?thesis using tr by (simp add: read_storage_def st stringify_None undefined_text stored_text_def)
  next
    case (Some t)
    then have "ls_value s \<noteq> JUndefined" by auto
    then show ?thesis using tr Some json_roundtrip [OF assms(1) ok Some] by (simp add: read_storage_def st stored_text_def)
  qed
qed

text \<open>While the browser accepts every write, a component that is mounted again reads what the last one held,
  without its undefined parts; a value that is undefined altogether is replaced by the initial value.\<close>

lemma storage_survives_reload:
  assumes "json_num_doc F num np" and "json_ok F (read_storage np True st key ini)" and "list_all (event_ok F) es"
    and s: "s = fold (storage_step num) es (useLocalStorage num np (\<lambda>st k t. True) True st key ini)"
  shows "read_storage np True (ls_storage s) (ls_key s) ini' =
    (if ls_value s = JUndefined then ini' else json_norm (ls_value s))"
proof (rule synced_read [OF assms(1)])
  have "storage_synced num F (useLocalStorage num np (\<lambda>st k t. True) True st key ini)"
    unfolding useLocalStorage_def by (rule write_synced) (simp add: assms(2))
  then show "storage_synced num F s" unfolding s by (rule storage_run_synced [OF assms(3)])
qed

end
