(* ===== verification/Server_Tables.thy ===== *)
theory Server_Tables
  imports Js_Date "HOL-Library.Finite_Map" "HOL-Library.List_Lexorder" "HOL-Library.Char_ord"
begin

text \<open>
  What the services for workflows and their triggers share: values of Go's type \<open>any\<close> as the JSON package reads and writes them,
  the tables of the database with their constraints (\<open>backend/db/schema/\<close>), and one function for every statement of
  \<open>backend/db/query/workflow.sql\<close>, \<open>workflow_schedule.sql\<close> and \<open>workflow_calendar.sql\<close>. A statement either fails on a constraint or
  gives the new tables.

  Creation and update times of rows are left out: they are only written. \<open>db_open\<close> is not a table: it counts the transactions that
  were begun and neither committed nor rolled back. \<open>db_nodeRuns\<close> is the column \<open>workflow_node_id\<close> of the table \<open>workflow_node_run\<close>, which refers to
  nodes, and \<open>db_runs\<close> are the columns \<open>id\<close> and \<open>workflow_id\<close> of \<open>workflow_run\<close>.
\<close>

section \<open>Values\<close>

datatype go_any =
    GNil
  | GBool bool
  | GNum real
  | GInt32 int
  | GStr string
  | GArr "go_any list"
  | GMap "(string, go_any) fmap"

type_synonym go_config = "(string, go_any) fmap"

text \<open>A value that is written as JSON text and read again: every number is then a \<open>float64\<close>.\<close>

primrec json_any :: "go_any \<Rightarrow> go_any" where
  "json_any GNil = GNil"
| "json_any (GBool b) = GBool b"
| "json_any (GNum x) = GNum x"
| "json_any (GInt32 i) = GNum (of_int i)"
| "json_any (GStr s) = GStr s"
| "json_any (GArr xs) = GArr (map json_any xs)"
| "json_any (GMap m) = GMap (fmmap json_any m)"

definition json_config :: "go_config \<Rightarrow> go_config" where
  "json_config c = fmmap json_any c"

lemma json_any_idem [simp]: "json_any (json_any v) = json_any v"
proof (induction v)
  case (GMap m)
  then show ?case by (auto simp: fmap.map_comp intro!: fmap.map_cong)
qed auto

lemma json_config_idem [simp]: "json_config (json_config c) = json_config c"
  by (simp add: json_config_def fmap.map_comp o_def)

lemma fmlookup_json_config [simp]: "fmlookup (json_config c) k = map_option json_any (fmlookup c k)"
  by (simp add: json_config_def)

section \<open>Tables\<close>

record workflow_row =
  tw_id :: int
  tw_user :: string
  tw_name :: string
  tw_description :: string
  tw_status :: string

record node_row =
  tn_id :: int
  tn_workflow :: int
  tn_category :: string
  tn_type :: string
  tn_config :: go_config

record ui_row =
  tu_id :: int
  tu_position :: "real \<times> real"

record edge_row =
  te_workflow :: int
  te_source :: int
  te_target :: int

record schedule_row =
  ts_id :: int
  ts_workflow :: int
  ts_type :: string
  ts_next :: "int option"
  ts_last :: "int option"
  ts_state :: string

record calendar_rule =
  cc_calendarID :: "string option"
  cc_keywords :: "string list"
  cc_timeCondition :: "int option"
  cc_eventStatus :: string

record calendar_row =
  tc_id :: int
  tc_workflow :: int
  tc_config :: calendar_rule
  tc_token :: string
  tc_state :: string
  tc_synced :: int

record server_db =
  db_workflows :: "workflow_row list"
  db_nodes :: "node_row list"
  db_ui :: "ui_row list"
  db_edges :: "edge_row list"
  db_schedules :: "schedule_row list"
  db_calendars :: "calendar_row list"
  db_runs :: "(int \<times> int) list"
  db_nodeRuns :: "int list"
  db_nextWorkflow :: int
  db_nextNode :: int
  db_nextSchedule :: int
  db_nextCalendar :: int
  db_open :: nat

datatype db_error = NoRows | CheckViolated string | ForeignKeyViolated string | NotUnique string | SequenceExhausted

text \<open>The largest value of a column of type \<open>SERIAL\<close>.\<close>

definition serial_max :: int where
  "serial_max = 2147483647"

definition execution_states :: "string list" where
  "execution_states = [''queued'', ''paused'', ''running'', ''completed'', ''failed'']"

definition workflow_ids :: "server_db \<Rightarrow> int set" where
  "workflow_ids d = tw_id ` set (db_workflows d)"

definition node_ids :: "server_db \<Rightarrow> int set" where
  "node_ids d = tn_id ` set (db_nodes d)"

section \<open>Statements on workflows\<close>

definition q_GetWorkflow :: "int \<Rightarrow> server_db \<Rightarrow> db_error + workflow_row" where
  "q_GetWorkflow i d =
     (case List.find (\<lambda>w. tw_id w = i) (db_workflows d) of None \<Rightarrow> Inl NoRows | Some w \<Rightarrow> Inr w)"

definition q_CreateWorkflow ::
  "string \<Rightarrow> string \<Rightarrow> string \<Rightarrow> string \<Rightarrow> server_db \<Rightarrow> db_error + (int \<times> server_db)" where
  "q_CreateWorkflow userID name description status d =
     (let i = db_nextWorkflow d
      in if i > serial_max then Inl SequenceExhausted
         else if status \<notin> {''draft'', ''active'', ''archived''} then Inl (CheckViolated ''workflow.status'')
         else Inr (i, d\<lparr>db_workflows := db_workflows d @
             [\<lparr>tw_id = i, tw_user = userID, tw_name = name, tw_description = description, tw_status = status\<rparr>],
           db_nextWorkflow := i + 1\<rparr>))"

definition q_CreateWorkflowNode ::
  "int \<Rightarrow> string \<Rightarrow> string \<Rightarrow> go_config \<Rightarrow> server_db \<Rightarrow> db_error + (int \<times> server_db)" where
  "q_CreateWorkflowNode workflow category nodeType config d =
     (let i = db_nextNode d
      in if i > serial_max then Inl SequenceExhausted
         else if category \<notin> {''trigger'', ''action''} then Inl (CheckViolated ''workflow_node.category'')
         else if workflow \<notin> workflow_ids d then Inl (ForeignKeyViolated ''workflow_node.workflow_id'')
         else Inr (i, d\<lparr>db_nodes := db_nodes d @
             [\<lparr>tn_id = i, tn_workflow = workflow, tn_category = category, tn_type = nodeType, tn_config = json_config config\<rparr>],
           db_nextNode := i + 1\<rparr>))"

definition q_CreateWorkflowNodeUi :: "int \<Rightarrow> real \<times> real \<Rightarrow> server_db \<Rightarrow> db_error + server_db" where
  "q_CreateWorkflowNodeUi i p d =
     (if i \<in> tu_id ` set (db_ui d) then Inl (NotUnique ''workflow_node_ui.id'')
      else if i \<notin> node_ids d then Inl (ForeignKeyViolated ''workflow_node_ui.id'')
      else Inr (d\<lparr>db_ui := db_ui d @ [\<lparr>tu_id = i, tu_position = p\<rparr>]\<rparr>))"

definition q_CreateWorkflowEdge :: "int \<Rightarrow> int \<Rightarrow> int \<Rightarrow> server_db \<Rightarrow> db_error + server_db" where
  "q_CreateWorkflowEdge workflow source target d =
     (let e = \<lparr>te_workflow = workflow, te_source = source, te_target = target\<rparr>
      in if e \<in> set (db_edges d) then Inl (NotUnique ''workflow_edge'')
         else if workflow \<notin> workflow_ids d then Inl (ForeignKeyViolated ''workflow_edge.workflow_id'')
         else if source \<notin> node_ids d then Inl (ForeignKeyViolated ''workflow_edge.source_node_id'')
         else if target \<notin> node_ids d then Inl (ForeignKeyViolated ''workflow_edge.target_node_id'')
         else Inr (d\<lparr>db_edges := db_edges d @ [e]\<rparr>))"

definition q_UpdateWorkflow :: "int \<Rightarrow> string \<Rightarrow> string \<Rightarrow> server_db \<Rightarrow> server_db" where
  "q_UpdateWorkflow i name description d =
     d\<lparr>db_workflows := map (\<lambda>w. if tw_id w = i then w\<lparr>tw_name := name, tw_description := description\<rparr> else w) (db_workflows d)\<rparr>"

definition q_UpdateWorkflowNode :: "int \<Rightarrow> go_config \<Rightarrow> server_db \<Rightarrow> server_db" where
  "q_UpdateWorkflowNode i config d =
     d\<lparr>db_nodes := map (\<lambda>n. if tn_id n = i then n\<lparr>tn_config := json_config config\<rparr> else n) (db_nodes d)\<rparr>"

definition q_UpdateWorkflowNodeUI :: "int \<Rightarrow> real \<times> real \<Rightarrow> server_db \<Rightarrow> server_db" where
  "q_UpdateWorkflowNodeUI i p d =
     d\<lparr>db_ui := map (\<lambda>u. if tu_id u = i then u\<lparr>tu_position := p\<rparr> else u) (db_ui d)\<rparr>"

text \<open>Deleting a node deletes its position and its edges; a node that a run has a row for cannot be deleted.\<close>

definition q_DeleteWorkflowNode :: "int \<Rightarrow> server_db \<Rightarrow> db_error + server_db" where
  "q_DeleteWorkflowNode i d =
     (if i \<in> node_ids d \<and> i \<in> set (db_nodeRuns d) then Inl (ForeignKeyViolated ''workflow_node_run.workflow_node_id'')
      else Inr (d\<lparr>db_nodes := filter (\<lambda>n. tn_id n \<noteq> i) (db_nodes d),
                  db_ui := filter (\<lambda>u. tu_id u \<noteq> i) (db_ui d),
                  db_edges := filter (\<lambda>e. te_source e \<noteq> i \<and> te_target e \<noteq> i) (db_edges d)\<rparr>))"

definition q_DeleteWorkflowEdge :: "int \<Rightarrow> int \<Rightarrow> int \<Rightarrow> server_db \<Rightarrow> server_db" where
  "q_DeleteWorkflowEdge workflow source target d =
     d\<lparr>db_edges := filter (\<lambda>e. \<not> (te_workflow e = workflow \<and> te_source e = source \<and> te_target e = target)) (db_edges d)\<rparr>"

definition q_ArchiveWorkflow :: "int \<Rightarrow> string \<Rightarrow> server_db \<Rightarrow> server_db" where
  "q_ArchiveWorkflow i status d =
     d\<lparr>db_workflows := map (\<lambda>w. if tw_id w = i then w\<lparr>tw_status := status\<rparr> else w) (db_workflows d)\<rparr>"

section \<open>Statements on schedules and calendars\<close>

definition schedule_types :: "string list" where
  "schedule_types = [''once'', ''daily'', ''weekly'', ''monthly'']"

definition q_CreateWorkflowSchedule ::
  "int \<Rightarrow> string \<Rightarrow> int option \<Rightarrow> int option \<Rightarrow> string \<Rightarrow> server_db \<Rightarrow> db_error + server_db" where
  "q_CreateWorkflowSchedule workflow ty next_run last_run state d =
     (let i = db_nextSchedule d
      in if i > serial_max then Inl SequenceExhausted
         else if ty \<notin> set schedule_types then Inl (CheckViolated ''workflow_schedule.schedule_type'')
         else if state \<notin> set execution_states then Inl (CheckViolated ''workflow_schedule.execution_state'')
         else if workflow \<notin> workflow_ids d then Inl (ForeignKeyViolated ''workflow_schedule.workflow_id'')
         else Inr (d\<lparr>db_schedules := db_schedules d @
             [\<lparr>ts_id = i, ts_workflow = workflow, ts_type = ty, ts_next = next_run, ts_last = last_run, ts_state = state\<rparr>],
           db_nextSchedule := i + 1\<rparr>))"

text \<open>The statement names the workflow and not the row: every schedule of the workflow is set.\<close>

definition q_UpdateWorkflowSchedule ::
  "int \<Rightarrow> string \<Rightarrow> int option \<Rightarrow> int option \<Rightarrow> string \<Rightarrow> server_db \<Rightarrow> db_error + server_db" where
  "q_UpdateWorkflowSchedule workflow ty next_run last_run state d =
     (if workflow \<in> ts_workflow ` set (db_schedules d) \<and> ty \<notin> set schedule_types
      then Inl (CheckViolated ''workflow_schedule.schedule_type'')
      else if workflow \<in> ts_workflow ` set (db_schedules d) \<and> state \<notin> set execution_states
      then Inl (CheckViolated ''workflow_schedule.execution_state'')
      else Inr (d\<lparr>db_schedules := map (\<lambda>s. if ts_workflow s = workflow
          then s\<lparr>ts_type := ty, ts_next := next_run, ts_last := last_run, ts_state := state\<rparr> else s) (db_schedules d)\<rparr>))"

definition q_DeleteWorkflowSchedule :: "int \<Rightarrow> server_db \<Rightarrow> server_db" where
  "q_DeleteWorkflowSchedule i d = d\<lparr>db_schedules := filter (\<lambda>s. ts_id s \<noteq> i) (db_schedules d)\<rparr>"

definition q_DeleteWorkflowScheduleByWorkflowID :: "int \<Rightarrow> server_db \<Rightarrow> server_db" where
  "q_DeleteWorkflowScheduleByWorkflowID i d = d\<lparr>db_schedules := filter (\<lambda>s. ts_workflow s \<noteq> i) (db_schedules d)\<rparr>"

text \<open>The due rows, at most \<open>limit\<close> of them, are marked as running; the answer has the rows after the
  update with the user of their workflow. Rows that another transaction has locked are skipped: \<open>locked\<close> says which.\<close>

definition schedule_due :: "int \<Rightarrow> schedule_row \<Rightarrow> bool" where
  "schedule_due now s \<longleftrightarrow> ts_state s = ''queued'' \<and> (case ts_next s of None \<Rightarrow> False | Some t \<Rightarrow> t \<le> now)"

definition q_GetDueSchedulesLocked ::
  "int \<Rightarrow> nat \<Rightarrow> int set \<Rightarrow> server_db \<Rightarrow> (schedule_row \<times> string) list \<times> server_db" where
  "q_GetDueSchedulesLocked now limit locked d =
     (let due = take limit (filter (\<lambda>s. schedule_due now s \<and> ts_workflow s \<in> workflow_ids d \<and> ts_id s \<notin> locked) (db_schedules d));
          user = (\<lambda>s. case List.find (\<lambda>w. tw_id w = ts_workflow s) (db_workflows d) of None \<Rightarrow> [] | Some w \<Rightarrow> tw_user w)
      in (map (\<lambda>s. (s\<lparr>ts_state := ''running''\<rparr>, user s)) due,
          d\<lparr>db_schedules := map (\<lambda>s. if ts_id s \<in> ts_id ` set due then s\<lparr>ts_state := ''running''\<rparr> else s) (db_schedules d)\<rparr>))"

definition q_CreateWorkflowCalendar ::
  "int \<Rightarrow> calendar_rule \<Rightarrow> string \<Rightarrow> string \<Rightarrow> int \<Rightarrow> server_db \<Rightarrow> db_error + server_db" where
  "q_CreateWorkflowCalendar workflow config token state synced d =
     (let i = db_nextCalendar d
      in if i > serial_max then Inl SequenceExhausted
         else if state \<notin> set execution_states then Inl (CheckViolated ''workflow_calendar.execution_state'')
         else if workflow \<notin> workflow_ids d then Inl (ForeignKeyViolated ''workflow_calendar.workflow_id'')
         else Inr (d\<lparr>db_calendars := db_calendars d @
             [\<lparr>tc_id = i, tc_workflow = workflow, tc_config = config, tc_token = token, tc_state = state, tc_synced = synced\<rparr>],
           db_nextCalendar := i + 1\<rparr>))"

definition q_UpdateWorkflowCalendar ::
  "int \<Rightarrow> calendar_rule \<Rightarrow> string \<Rightarrow> string \<Rightarrow> int \<Rightarrow> server_db \<Rightarrow> db_error + server_db" where
  "q_UpdateWorkflowCalendar workflow config token state synced d =
     (if workflow \<in> tc_workflow ` set (db_calendars d) \<and> state \<notin> set execution_states
      then Inl (CheckViolated ''workflow_calendar.execution_state'')
      else Inr (d\<lparr>db_calendars := map (\<lambda>c. if tc_workflow c = workflow
          then c\<lparr>tc_config := config, tc_token := token, tc_state := state, tc_synced := synced\<rparr> else c) (db_calendars d)\<rparr>))"

definition q_GetActiveWorkflowCalendarsLocked ::
  "nat \<Rightarrow> int set \<Rightarrow> server_db \<Rightarrow> (calendar_row \<times> string) list \<times> server_db" where
  "q_GetActiveWorkflowCalendarsLocked limit locked d =
     (let active = take limit (filter (\<lambda>c. tc_state c = ''queued'' \<and> tc_workflow c \<in> workflow_ids d \<and> tc_id c \<notin> locked) (db_calendars d));
          user = (\<lambda>c. case List.find (\<lambda>w. tw_id w = tc_workflow c) (db_workflows d) of None \<Rightarrow> [] | Some w \<Rightarrow> tw_user w)
      in (map (\<lambda>c. (c\<lparr>tc_state := ''running''\<rparr>, user c)) active,
          d\<lparr>db_calendars := map (\<lambda>c. if tc_id c \<in> tc_id ` set active then c\<lparr>tc_state := ''running''\<rparr> else c) (db_calendars d)\<rparr>))"

end
