(* ===== verification/Server_Triggers.thy ===== *)
theory Server_Triggers
  imports Server_Tables
begin

text \<open>
  Triggers of workflows on the server: the times of a schedule (\<open>backend/services/scheduler.go\<close>), the rows that keep them
  (\<open>backend/repositories/workflow_schedule.go\<close>, \<open>backend/repositories/calendar.go\<close>), and the handlers that validate, create and update the
  triggers of a workflow (\<open>backend/internal/handlers/triggers/\<close>).

  Instants are milliseconds since the epoch. The package \<open>carbon\<close> is an argument, a record of the functions that are used; \<open>carbon_doc\<close>
  is what it documents. \<open>ev_token\<close> is the answer of Google to a request for the synchronisation token of a calendar.
\<close>

section \<open>Times in RFC 3339\<close>

text \<open>\<open>time.Parse(time.RFC3339, s)\<close>. The hour may have one digit, and the fraction may follow a comma. The result is in milliseconds.\<close>

definition days_in_month :: "int \<Rightarrow> int \<Rightarrow> int" where
  "days_in_month y m =
     (if m = 2 then if y mod 4 = 0 \<and> (y mod 100 \<noteq> 0 \<or> y mod 400 = 0) then 29 else 28
      else if m \<in> {4, 6, 9, 11} then 30 else 31)"

definition days_from_civil :: "int \<Rightarrow> int \<Rightarrow> int \<Rightarrow> int" where
  "days_from_civil y m d =
     (let y' = (if m \<le> 2 then y - 1 else y); era = y' div 400; yoe = y' mod 400;
          doy = (153 * (if m > 2 then m - 3 else m + 9) + 2) div 5 + d - 1;
          doe = yoe * 365 + yoe div 4 - yoe div 100 + doy
      in era * 146097 + doe - 719468)"

definition fixed_num :: "nat \<Rightarrow> string \<Rightarrow> (int \<times> string) option" where
  "fixed_num k s = (if length s < k then None else map_option (\<lambda>n. (int n, drop k s)) (js_digits (take k s)))"

definition go_digit :: "char \<Rightarrow> bool" where
  "go_digit c \<longleftrightarrow> char_digit c \<noteq> None"

definition hour_num :: "string \<Rightarrow> (int \<times> string) option" where
  "hour_num s = (if length s \<ge> 2 \<and> go_digit (s ! 1) then fixed_num 2 s else fixed_num 1 s)"

definition literal :: "char \<Rightarrow> string \<Rightarrow> string option" where
  "literal c s = (case s of [] \<Rightarrow> None | a # r \<Rightarrow> if a = c then Some r else None)"

definition fraction :: "string \<Rightarrow> int \<times> string" where
  "fraction s =
     (case s of
        c # r \<Rightarrow> let ds = takeWhile go_digit r
                 in if c \<in> {CHR ''.'', CHR '',''} \<and> ds \<noteq> []
                    then (case js_digits (take 3 (ds @ ''00'')) of None \<Rightarrow> 0 | Some n \<Rightarrow> int n, dropWhile go_digit r)
                    else (0, s)
      | [] \<Rightarrow> (0, s))"

definition zone_offset :: "string \<Rightarrow> int option" where
  "zone_offset s =
     (if s = ''Z'' then Some 0
      else case s of
        c # r \<Rightarrow> if c \<in> {CHR ''+'', CHR ''-''}
          then Option.bind (fixed_num 2 r) (\<lambda>(h, r1). Option.bind (literal (CHR '':'') r1) (\<lambda>r2. Option.bind (fixed_num 2 r2) (\<lambda>(m, r3).
            if r3 = [] \<and> h \<le> 24 \<and> m \<le> 60 then Some ((if c = CHR ''+'' then 1 else - 1) * (h * 60 + m)) else None)))
          else None
      | [] \<Rightarrow> None)"

definition time_Parse :: "string \<Rightarrow> int option" where
  "time_Parse s =
     Option.bind (fixed_num 4 s) (\<lambda>(y, s1). Option.bind (literal (CHR ''-'') s1) (\<lambda>s2.
     Option.bind (fixed_num 2 s2) (\<lambda>(mo, s3). Option.bind (literal (CHR ''-'') s3) (\<lambda>s4.
     Option.bind (fixed_num 2 s4) (\<lambda>(d, s5). Option.bind (literal (CHR ''T'') s5) (\<lambda>s6.
     Option.bind (hour_num s6) (\<lambda>(h, s7). Option.bind (literal (CHR '':'') s7) (\<lambda>s8.
     Option.bind (fixed_num 2 s8) (\<lambda>(mi, s9). Option.bind (literal (CHR '':'') s9) (\<lambda>s10.
     Option.bind (fixed_num 2 s10) (\<lambda>(se, s11).
       let (ms, s12) = fraction s11
       in Option.bind (zone_offset s12) (\<lambda>off.
         if 1 \<le> mo \<and> mo \<le> 12 \<and> 1 \<le> d \<and> d \<le> days_in_month y mo \<and> h < 24 \<and> mi < 60 \<and> se < 60
         then Some (days_from_civil y mo d * msPerDay + MakeTime h mi se ms - off * 60000) else None))))))))))))"

section \<open>Schedules\<close>

datatype schedule_kind = ScheduleTypeOnce | ScheduleTypeDaily | ScheduleTypeWeekly | ScheduleTypeMonthly

definition ScheduleTypes :: "string \<rightharpoonup> schedule_kind" where
  "ScheduleTypes = map_of [(''once'', ScheduleTypeOnce), (''daily'', ScheduleTypeDaily), (''weekly'', ScheduleTypeWeekly),
     (''monthly'', ScheduleTypeMonthly)]"

fun kind_text :: "schedule_kind \<Rightarrow> string" where
  "kind_text ScheduleTypeOnce = ''once''"
| "kind_text ScheduleTypeDaily = ''daily''"
| "kind_text ScheduleTypeWeekly = ''weekly''"
| "kind_text ScheduleTypeMonthly = ''monthly''"

text \<open>What is used of \<open>carbon\<close>: \<open>Parse\<close> of the text of an instant in whole seconds, and on valid dates in UTC \<open>IsFuture\<close>, which reads the clock,
  and the additions. An invalid date is not in the future, and stays invalid.\<close>

record carbon =
  cb_Parse :: "int \<Rightarrow> int option"
  cb_IsFuture :: "int \<Rightarrow> int \<Rightarrow> bool"
  cb_AddDay :: "int \<Rightarrow> int"
  cb_AddWeek :: "int \<Rightarrow> int"
  cb_AddMonth :: "int \<Rightarrow> int"

definition is_future :: "carbon \<Rightarrow> int \<Rightarrow> int option \<Rightarrow> bool" where
  "is_future cb now dt = (case dt of None \<Rightarrow> False | Some t \<Rightarrow> cb_IsFuture cb now t)"

text \<open>\<open>t.Format(time.RFC3339)\<close> writes whole seconds.\<close>

definition rfc3339_seconds :: "int \<Rightarrow> int" where
  "rfc3339_seconds t = t div 1000"

definition ValidateSchedule :: "carbon \<Rightarrow> int \<Rightarrow> schedule_kind \<Rightarrow> int \<Rightarrow> bool \<Rightarrow> string option" where
  "ValidateSchedule cb now st nextRunAt isRunning =
     (let dt = cb_Parse cb (rfc3339_seconds nextRunAt)
      in if dt = None then Some ''invalid date''
         else if \<not> is_future cb now dt \<and> \<not> isRunning then Some ''next_run_at must be in the future''
         else None)"

text \<open>The zero value of \<open>time.Time\<close>, the first instant of year 1.\<close>

definition zero_time :: int where
  "zero_time = - 62135596800000"

text \<open>The loop reads the clock in every round: \<open>clk i\<close> is the \<open>i\<close>th reading. The outer \<open>None\<close> is a loop that does not end.\<close>

partial_function (option) next_future ::
  "carbon \<Rightarrow> schedule_kind \<Rightarrow> (nat \<Rightarrow> int) \<Rightarrow> nat \<Rightarrow> int option \<Rightarrow> (string + int option) option" where
  "next_future cb st clk i dt =
     (if is_future cb (clk i) dt then Some (Inr dt)
      else case st of
             ScheduleTypeDaily \<Rightarrow> next_future cb st clk (Suc i) (map_option (cb_AddDay cb) dt)
           | ScheduleTypeWeekly \<Rightarrow> next_future cb st clk (Suc i) (map_option (cb_AddWeek cb) dt)
           | ScheduleTypeMonthly \<Rightarrow> next_future cb st clk (Suc i) (map_option (cb_AddMonth cb) dt)
           | ScheduleTypeOnce \<Rightarrow> Some (Inl ''invalid schedule type''))"

definition CalculateNextRun ::
  "carbon \<Rightarrow> (nat \<Rightarrow> int) \<Rightarrow> schedule_kind \<Rightarrow> int \<Rightarrow> int \<Rightarrow> (string + int option) option" where
  "CalculateNextRun cb clk st oldNextRun now =
     (if st = ScheduleTypeOnce then Some (Inr None)
      else let basis = (if oldNextRun = zero_time then now else oldNextRun)
           in next_future cb st clk 0 (cb_Parse cb (rfc3339_seconds basis)))"

datatype srv_error = Msg string | DbErr db_error | Panic

definition db_result :: "server_db \<Rightarrow> db_error + server_db \<Rightarrow> srv_error option \<times> server_db" where
  "db_result d r = (case r of Inl e \<Rightarrow> (Some (DbErr e), d) | Inr d' \<Rightarrow> (None, d'))"

definition scheduleRepo_Create :: "int \<Rightarrow> string \<Rightarrow> int \<Rightarrow> string \<Rightarrow> server_db \<Rightarrow> srv_error option \<times> server_db" where
  "scheduleRepo_Create workflowID ty next_run state d =
     db_result d (q_CreateWorkflowSchedule workflowID ty (Some next_run) None state d)"

definition scheduleRepo_UpdateWorkflowSchedule ::
  "int \<Rightarrow> string \<Rightarrow> int option \<Rightarrow> int option \<Rightarrow> server_db \<Rightarrow> srv_error option \<times> server_db" where
  "scheduleRepo_UpdateWorkflowSchedule workflowID ty nextRunAt lastRunAt d =
     (let executionState = (if nextRunAt = None then ''completed'' else ''queued'')
      in db_result d (q_UpdateWorkflowSchedule workflowID ty nextRunAt lastRunAt executionState d))"

definition ScheduleWorkflow :: "int \<Rightarrow> schedule_kind \<Rightarrow> int \<Rightarrow> server_db \<Rightarrow> srv_error option \<times> server_db" where
  "ScheduleWorkflow workflowID st date d = scheduleRepo_Create workflowID (kind_text st) date ''queued'' d"

definition UpdateWorkflowSchedule :: "int \<Rightarrow> schedule_kind \<Rightarrow> int \<Rightarrow> server_db \<Rightarrow> srv_error option \<times> server_db" where
  "UpdateWorkflowSchedule workflowID st date d =
     scheduleRepo_UpdateWorkflowSchedule workflowID (kind_text st) (Some date) None d"

section \<open>Trigger handlers\<close>

record server_env =
  ev_carbon :: carbon
  ev_now :: int
  ev_token :: "string \<Rightarrow> string \<Rightarrow> string option"
  ev_uuid :: "string \<Rightarrow> bool"
  ev_nodeOrder :: "int list \<Rightarrow> int list"
  ev_edgeOrder :: "(string \<times> string) list \<Rightarrow> (string \<times> string) list"
  ev_topsort :: "nat \<Rightarrow> (nat \<times> nat) set \<Rightarrow> nat list option"
  ev_visit :: "(nat \<times> nat) set \<Rightarrow> nat \<Rightarrow> nat list"

text \<open>Type assertions on the values of a configuration.\<close>

definition config_string :: "go_config \<Rightarrow> string \<Rightarrow> string option" where
  "config_string c k = (case fmlookup c k of Some (GStr s) \<Rightarrow> Some s | _ \<Rightarrow> None)"

definition config_int32 :: "go_config \<Rightarrow> string \<Rightarrow> int option" where
  "config_int32 c k = (case fmlookup c k of Some (GInt32 i) \<Rightarrow> Some i | _ \<Rightarrow> None)"

definition buildScheduleConfig :: "go_config \<Rightarrow> string + (schedule_kind \<times> int)" where
  "buildScheduleConfig c =
     (case config_string c ''scheduleType'' of
        None \<Rightarrow> Inl ''schedule type is required''
      | Some ty \<Rightarrow> (case ScheduleTypes ty of
          None \<Rightarrow> Inl ''invalid schedule type''
        | Some st \<Rightarrow> (case config_string c ''scheduledDate'' of
            None \<Rightarrow> Inl ''scheduled date is required''
          | Some raw \<Rightarrow> (case time_Parse raw of
              None \<Rightarrow> Inl ''invalid scheduled date''
            | Some t \<Rightarrow> Inr (st, t)))))"

definition schedule_Validate :: "server_env \<Rightarrow> go_config \<Rightarrow> srv_error option" where
  "schedule_Validate ev c =
     (case buildScheduleConfig c of
        Inl e \<Rightarrow> Some (Msg e)
      | Inr (st, t) \<Rightarrow> map_option Msg (ValidateSchedule (ev_carbon ev) (ev_now ev) st t False))"

definition schedule_Execute :: "go_config \<Rightarrow> server_db \<Rightarrow> srv_error option \<times> server_db" where
  "schedule_Execute c d =
     (case buildScheduleConfig c of
        Inl e \<Rightarrow> (Some (Msg e), d)
      | Inr (st, t) \<Rightarrow> (case config_int32 c ''workflow_id'' of
          None \<Rightarrow> (Some (Msg ''workflow id is required''), d)
        | Some w \<Rightarrow> ScheduleWorkflow w st t d))"

definition schedule_Update :: "go_config \<Rightarrow> server_db \<Rightarrow> srv_error option \<times> server_db" where
  "schedule_Update c d =
     (case buildScheduleConfig c of
        Inl e \<Rightarrow> (Some (Msg e), d)
      | Inr (st, t) \<Rightarrow> (case config_int32 c ''workflow_id'' of
          None \<Rightarrow> (Some (Msg ''workflow id is required''), d)
        | Some w \<Rightarrow> UpdateWorkflowSchedule w st t d))"

text \<open>\<open>json.Unmarshal\<close> into \<open>WorkflowCalendarConfig\<close>: the keys come in their order in the text, which \<open>json.Marshal\<close> sorts; a key that is no
  field by its exact name is one by its name in other case; \<open>null\<close> leaves a field or empties a pointer or a slice; a value of another type is an error.\<close>

definition calendar_field :: "string \<Rightarrow> string" where
  "calendar_field k =
     (let l = js_lower k
      in if l = ''calendarid'' then ''calendarID'' else if l = ''timecondition'' then ''timeCondition''
         else if l = ''eventstatus'' then ''eventStatus'' else l)"

text \<open>An element \<open>null\<close> of a slice of strings leaves the empty string.\<close>

fun keyword_of :: "go_any \<Rightarrow> string option" where
  "keyword_of (GStr s) = Some s"
| "keyword_of GNil = Some []"
| "keyword_of _ = None"

fun keywords_of :: "go_any list \<Rightarrow> string list option" where
  "keywords_of [] = Some []"
| "keywords_of (v # vs) =
     (case (keyword_of v, keywords_of vs) of (Some s, Some ss) \<Rightarrow> Some (s # ss) | _ \<Rightarrow> None)"

definition set_calendar_field :: "string \<Rightarrow> go_any \<Rightarrow> calendar_rule \<Rightarrow> calendar_rule option" where
  "set_calendar_field k v c =
     (let f = calendar_field k
      in if f = ''calendarID'' then (case v of GNil \<Rightarrow> Some (c\<lparr>cc_calendarID := None\<rparr>) | GStr s \<Rightarrow> Some (c\<lparr>cc_calendarID := Some s\<rparr>) | _ \<Rightarrow> None)
         else if f = ''keywords'' then (case v of GNil \<Rightarrow> Some (c\<lparr>cc_keywords := []\<rparr>)
           | GArr vs \<Rightarrow> map_option (\<lambda>ks. c\<lparr>cc_keywords := ks\<rparr>) (keywords_of vs) | _ \<Rightarrow> None)
         else if f = ''timeCondition'' then (case v of GNil \<Rightarrow> Some (c\<lparr>cc_timeCondition := None\<rparr>)
           | GNum x \<Rightarrow> if x = of_int \<lfloor>x\<rfloor> then Some (c\<lparr>cc_timeCondition := Some \<lfloor>x\<rfloor>\<rparr>) else None
           | GInt32 i \<Rightarrow> Some (c\<lparr>cc_timeCondition := Some i\<rparr>) | _ \<Rightarrow> None)
         else if f = ''eventStatus'' then (case v of GNil \<Rightarrow> Some c | GStr s \<Rightarrow> Some (c\<lparr>cc_eventStatus := s\<rparr>) | _ \<Rightarrow> None)
         else Some c)"

fun set_calendar_fields :: "(string \<times> go_any) list \<Rightarrow> calendar_rule \<Rightarrow> calendar_rule option" where
  "set_calendar_fields [] c = Some c"
| "set_calendar_fields ((k, v) # kvs) c = Option.bind (set_calendar_field k v c) (set_calendar_fields kvs)"

definition buildCalendarConfig :: "go_config \<Rightarrow> calendar_rule option" where
  "buildCalendarConfig c =
     set_calendar_fields (sorted_list_of_fmap c)
       \<lparr>cc_calendarID = None, cc_keywords = [], cc_timeCondition = None, cc_eventStatus = []\<rparr>"

definition EventStatuses :: "string list" where
  "EventStatuses = [''cancelled'', ''starting'', ''ending'']"

definition ValidateCalendarConfig :: "calendar_rule \<Rightarrow> string option" where
  "ValidateCalendarConfig c =
     (let esc = cc_eventStatus c; timeSpecificStatus = (esc = ''starting'' \<or> esc = ''ending'')
      in if esc \<notin> set EventStatuses then Some ''invalid event status condition''
         else if length (cc_keywords c) > 20 then Some ''keywords must be less than 20''
         else case cc_timeCondition c of
                None \<Rightarrow> if timeSpecificStatus then Some ''time condition is required for time specific events'' else None
              | Some minutes \<Rightarrow>
                  if \<not> timeSpecificStatus then Some ''time condition should be empty for non-time specific events''
                  else if minutes < 1 then Some ''time_condition must be at least 1 minute''
                  else if minutes > 40320 then Some ''time_condition must be less than 4 weeks''
                  else None)"

definition calendar_Validate :: "go_config \<Rightarrow> srv_error option" where
  "calendar_Validate c =
     (case buildCalendarConfig c of
        None \<Rightarrow> Some (Msg ''failed to unmarshal calendar config'')
      | Some cc \<Rightarrow> map_option Msg (ValidateCalendarConfig cc))"

definition calendar_Execute :: "server_env \<Rightarrow> go_config \<Rightarrow> server_db \<Rightarrow> srv_error option \<times> server_db" where
  "calendar_Execute ev c d =
     (case buildCalendarConfig c of
        None \<Rightarrow> (Some (Msg ''failed to unmarshal calendar config''), d)
      | Some cc \<Rightarrow> (case config_int32 c ''workflow_id'' of
          None \<Rightarrow> (Some (Msg ''workflow id is required''), d)
        | Some w \<Rightarrow> (case config_string c ''user_id'' of
            None \<Rightarrow> (Some (Msg ''user id is required''), d)
          | Some u \<Rightarrow>
              (let calID = (case cc_calendarID cc of None \<Rightarrow> ''primary'' | Some s \<Rightarrow> if s = [] then ''primary'' else s)
               in case ev_token ev calID u of
                    None \<Rightarrow> (Some (Msg ''failed to get sync token''), d)
                  | Some token \<Rightarrow> db_result d
                      (q_CreateWorkflowCalendar w (cc\<lparr>cc_calendarID := Some calID\<rparr>) token ''queued'' (ev_now ev) d)))))"

text \<open>The update dereferences the identifier of the calendar without a default.\<close>

definition calendar_Update :: "server_env \<Rightarrow> go_config \<Rightarrow> server_db \<Rightarrow> srv_error option \<times> server_db" where
  "calendar_Update ev c d =
     (case buildCalendarConfig c of
        None \<Rightarrow> (Some (Msg ''failed to unmarshal calendar config''), d)
      | Some cc \<Rightarrow> (case config_int32 c ''workflow_id'' of
          None \<Rightarrow> (Some (Msg ''workflow id is required''), d)
        | Some w \<Rightarrow> (case config_string c ''user_id'' of
            None \<Rightarrow> (Some (Msg ''user id is required''), d)
          | Some u \<Rightarrow> (case cc_calendarID cc of
              None \<Rightarrow> (Some Panic, d)
            | Some calID \<Rightarrow> (case ev_token ev calID u of
                None \<Rightarrow> (Some (Msg ''failed to get sync token''), d)
              | Some token \<Rightarrow> (case ValidateCalendarConfig cc of
                  Some e \<Rightarrow> (Some (Msg e), d)
                | None \<Rightarrow> db_result d (q_UpdateWorkflowCalendar w cc token ''queued'' (ev_now ev) d)))))))"

text \<open>The registry, with the handlers that the workflow service registers.\<close>

definition registry_Validate :: "server_env \<Rightarrow> string \<Rightarrow> go_config \<Rightarrow> srv_error option" where
  "registry_Validate ev nodeType c =
     (if nodeType = ''schedule'' then schedule_Validate ev c
      else if nodeType = ''calendar_event'' then calendar_Validate c
      else Some (Msg ''unknown trigger type''))"

definition registry_Execute :: "server_env \<Rightarrow> string \<Rightarrow> go_config \<Rightarrow> server_db \<Rightarrow> srv_error option \<times> server_db" where
  "registry_Execute ev nodeType c d =
     (case registry_Validate ev nodeType c of
        Some e \<Rightarrow> (Some e, d)
      | None \<Rightarrow> if nodeType = ''schedule'' then schedule_Execute c d else calendar_Execute ev c d)"

definition registry_Update :: "server_env \<Rightarrow> string \<Rightarrow> go_config \<Rightarrow> server_db \<Rightarrow> srv_error option \<times> server_db" where
  "registry_Update ev nodeType c d =
     (if nodeType = ''schedule'' then schedule_Update c d
      else if nodeType = ''calendar_event'' then calendar_Update ev c d
      else (Some (Msg ''unknown trigger type''), d))"

end
