(* ===== verification/Workflow_Store.thy ===== *)
theory Workflow_Store
  imports Server_Triggers Graph_Check
begin

text \<open>
  Workflows on the server: creating, updating, rendering and archiving them, and the check of access (\<open>backend/services/workflow.go\<close>,
  \<open>backend/repositories/workflow.go\<close>).

  An operation gives an error or nothing, and the tables it leaves. A transaction works on a copy of the tables. On an error it is rolled back if the
  deferred function sees the error in its variable \<open>err\<close>; where the code declares another variable of that name in a loop, and on a panic, the transaction stays open.
  The numbers that a failed transaction took from a sequence are used up.

  The order in which Go visits a map is an argument (\<open>ev_nodeOrder\<close>, \<open>ev_edgeOrder\<close>), and so is the package \<open>uuid\<close>
  (\<open>ev_uuid\<close>: whether \<open>uuid.Parse\<close> accepts a text).
\<close>

section \<open>Data\<close>

record node_dto =
  dn_id :: string
  dn_category :: string
  dn_type :: string
  dn_config :: "go_config option"
  dn_position :: "(real \<times> real) option"

record edge_dto =
  de_id :: string
  de_source :: string
  de_target :: string

record graph_dto =
  gd_id :: int
  gd_name :: string
  gd_description :: string
  gd_nodes :: "node_dto list"
  gd_edges :: "edge_dto list"

record workflow_delta =
  dl_name :: string
  dl_description :: string
  dl_updateMetadata :: bool
  dl_create :: "node_dto list"
  dl_update :: "node_dto list"
  dl_updateUI :: "node_dto list"
  dl_delete :: "int list"
  dl_addEdges :: "(string \<times> string) list"
  dl_deleteEdges :: "(string \<times> string) list"

text \<open>\<open>strconv.Atoi\<close> and the conversion \<open>int32(x)\<close>.\<close>

definition Atoi :: "string \<Rightarrow> int option" where
  "Atoi s =
     (let n = (case s of c # r \<Rightarrow> if c = CHR ''+'' then map_option int (js_digits r) else read_int s | [] \<Rightarrow> None)
      in case n of None \<Rightarrow> None | Some i \<Rightarrow> if - (2 ^ 63) \<le> i \<and> i < 2 ^ 63 then Some i else None)"

definition int32 :: "int \<Rightarrow> int" where
  "int32 i = (i + 2 ^ 31) mod 2 ^ 32 - 2 ^ 31"

section \<open>Reading workflows\<close>

text \<open>The rows of the query: a workflow with its nodes, their positions, and the edges that leave them.\<close>

definition outgoing :: "int \<Rightarrow> int \<Rightarrow> server_db \<Rightarrow> edge_row list" where
  "outgoing w n d = filter (\<lambda>e. te_workflow e = w \<and> te_source e = n) (db_edges d)"

definition q_RenderWorkflowGraph :: "int \<Rightarrow> server_db \<Rightarrow> (workflow_row \<times> node_row \<times> ui_row \<times> edge_row option) list" where
  "q_RenderWorkflowGraph i d =
     concat (map (\<lambda>w. concat (map (\<lambda>n. concat (map (\<lambda>u.
         case outgoing i (tn_id n) d of [] \<Rightarrow> [(w, n, u, None)] | es \<Rightarrow> map (\<lambda>e. (w, n, u, Some e)) es)
       (filter (\<lambda>u. tu_id u = tn_id n) (db_ui d))))
       (filter (\<lambda>n. tn_workflow n = i) (db_nodes d))))
       (filter (\<lambda>w. tw_id w = i) (db_workflows d)))"

definition rendered_node :: "node_row \<Rightarrow> ui_row \<Rightarrow> node_dto" where
  "rendered_node n u =
     \<lparr>dn_id = show_int (tn_id n), dn_category = tn_category n, dn_type = tn_type n, dn_config = Some (tn_config n),
      dn_position = Some (tu_position u)\<rparr>"

definition rendered_edge :: "edge_row \<Rightarrow> edge_dto" where
  "rendered_edge e =
     \<lparr>de_id = show_int (te_source e) @ ''-'' @ show_int (te_target e), de_source = show_int (te_source e),
      de_target = show_int (te_target e)\<rparr>"

text \<open>The loop over the rows, with the map of the nodes seen so far.\<close>

record render_state =
  rs_name :: string
  rs_description :: string
  rs_nodes :: "(int \<times> node_dto) list"
  rs_edges :: "edge_dto list"

definition render_row :: "workflow_row \<times> node_row \<times> ui_row \<times> edge_row option \<Rightarrow> render_state \<Rightarrow> render_state" where
  "render_row row s =
     (case row of (w, n, u, e) \<Rightarrow>
        \<lparr>rs_name = (if rs_name s = [] then tw_name w else rs_name s),
         rs_description = (if rs_description s = [] then tw_description w else rs_description s),
         rs_nodes = (if map_of (rs_nodes s) (tn_id n) = None then js_set (tn_id n) (rendered_node n u) (rs_nodes s) else rs_nodes s),
         rs_edges = (case e of None \<Rightarrow> rs_edges s | Some e \<Rightarrow> rs_edges s @ [rendered_edge e])\<rparr>)"

definition workflowRepo_RenderWorkflowGraph :: "server_env \<Rightarrow> int \<Rightarrow> server_db \<Rightarrow> srv_error + graph_dto" where
  "workflowRepo_RenderWorkflowGraph ev i d =
     (let rows = q_RenderWorkflowGraph i d
      in if rows = [] then Inl (Msg ''no rows found for rendered workflow graph'')
         else let s = fold render_row rows \<lparr>rs_name = [], rs_description = [], rs_nodes = [], rs_edges = []\<rparr>
              in Inr \<lparr>gd_id = i, gd_name = rs_name s, gd_description = rs_description s,
                   gd_nodes = map (\<lambda>k. the (map_of (rs_nodes s) k)) (ev_nodeOrder ev (map fst (rs_nodes s))), gd_edges = rs_edges s\<rparr>)"

text \<open>The graph without positions, for archiving: nodes with their category, and edges.\<close>

definition workflowRepo_GetWorkflowGraph :: "int \<Rightarrow> server_db \<Rightarrow> srv_error + (node_row list \<times> edge_row list)" where
  "workflowRepo_GetWorkflowGraph i d =
     (let nodes = (if i \<in> workflow_ids d then filter (\<lambda>n. tn_workflow n = i) (db_nodes d) else [])
      in if nodes = [] then Inl (Msg ''no rows found for workflow graph'')
         else Inr (nodes, concat (map (\<lambda>n. outgoing i (tn_id n) d) nodes)))"

definition root_nodes :: "('a \<Rightarrow> int) \<Rightarrow> 'a list \<Rightarrow> int list \<Rightarrow> 'a list" where
  "root_nodes ident nodes targets = filter (\<lambda>n. ident n \<notin> set targets) nodes"

section \<open>Transactions\<close>

type_synonym 'a tx = "(srv_error \<times> bool \<times> server_db) + 'a"

definition left_open :: "srv_error \<Rightarrow> server_db \<Rightarrow> 'a tx" where
  "left_open e d = Inl (e, True, d)"

definition rolled_back :: "srv_error \<Rightarrow> server_db \<Rightarrow> 'a tx" where
  "rolled_back e d = Inl (e, False, d)"

definition tx_bind :: "'a tx \<Rightarrow> ('a \<Rightarrow> 'b tx) \<Rightarrow> 'b tx" where
  "tx_bind m f = (case m of Inl e \<Rightarrow> Inl e | Inr x \<Rightarrow> f x)"

definition abort_tx :: "server_db \<Rightarrow> bool \<Rightarrow> server_db \<Rightarrow> server_db" where
  "abort_tx d leftOpen t =
     d\<lparr>db_nextWorkflow := db_nextWorkflow t, db_nextNode := db_nextNode t, db_open := db_open d + (if leftOpen then 1 else 0)\<rparr>"

primrec tx_each :: "('b \<Rightarrow> 'a \<Rightarrow> 'a tx) \<Rightarrow> 'b list \<Rightarrow> 'a \<Rightarrow> 'a tx" where
  "tx_each f [] x = Inr x"
| "tx_each f (b # bs) x = tx_bind (f b x) (tx_each f bs)"

section \<open>Creating\<close>

definition prepForValidate :: "node_dto list \<Rightarrow> edge_dto list \<Rightarrow> validate_node list \<times> validate_edge list" where
  "prepForValidate nodes edges =
     (map (\<lambda>n. \<lparr>vn_id = dn_id n, vn_type = dn_type n, vn_category = dn_category n\<rparr>) nodes,
      map (\<lambda>e. \<lparr>ve_source = de_source e, ve_target = de_target e\<rparr>) edges)"

definition check_graph :: "server_env \<Rightarrow> node_dto list \<Rightarrow> edge_dto list \<Rightarrow> graph_error option" where
  "check_graph ev nodes edges =
     (case prepForValidate nodes edges of (n, e) \<Rightarrow> ValidateWorkflowGraph (ev_topsort ev) (ev_visit ev) n e)"

text \<open>Values that were read from JSON text can be written again, so the test of \<open>json.Marshal\<close> does not fail.\<close>

definition validateNode :: "server_env \<Rightarrow> node_dto \<Rightarrow> srv_error option" where
  "validateNode ev node =
     (if dn_category node = [] then Some (Msg ''validation error: node category is empty'')
      else if dn_type node = [] then Some (Msg ''validation error: node type is empty'')
      else case dn_config node of
             None \<Rightarrow> Some (Msg ''validation error: node config is nil'')
           | Some c \<Rightarrow> if dn_category node = ''trigger'' then registry_Validate ev (dn_type node) c else None)"

primrec validate_nodes :: "server_env \<Rightarrow> node_dto list \<Rightarrow> srv_error option" where
  "validate_nodes ev [] = None"
| "validate_nodes ev (n # ns) = (case validateNode ev n of Some e \<Rightarrow> Some e | None \<Rightarrow> validate_nodes ev ns)"

definition tx_insert_node :: "int \<Rightarrow> node_dto \<Rightarrow> server_db \<Rightarrow> (int \<times> server_db) tx" where
  "tx_insert_node w node d =
     (case dn_config node of
        None \<Rightarrow> left_open (Msg ''node config is missing'') d
      | Some config \<Rightarrow> (case q_CreateWorkflowNode w (dn_category node) (dn_type node) config d of
          Inl e \<Rightarrow> left_open (DbErr e) d
        | Inr (i, d1) \<Rightarrow> (case dn_position node of
            None \<Rightarrow> left_open Panic d1
          | Some p \<Rightarrow> (case q_CreateWorkflowNodeUi i p d1 of
              Inl e \<Rightarrow> left_open (DbErr e) d1
            | Inr d2 \<Rightarrow> Inr (i, d2)))))"

text \<open>An identifier that is not in the map reads as 0.\<close>

definition go_lookup :: "(string \<times> int) list \<Rightarrow> string \<Rightarrow> int" where
  "go_lookup m k = (case map_of m k of None \<Rightarrow> 0 | Some i \<Rightarrow> i)"

text \<open>The state of the loop: the tables, the numbers of the identifiers, and the nodes of the new graph with their numbers.\<close>

type_synonym create_state = "server_db \<times> (string \<times> int) list \<times> (int \<times> node_dto) list"

definition tx_create_node :: "int \<Rightarrow> node_dto \<Rightarrow> create_state \<Rightarrow> create_state tx" where
  "tx_create_node w node s =
     (case s of (d, ids, created) \<Rightarrow>
        if dn_category node = [] then left_open (Msg ''node category is missing'') d
        else if dn_type node = [] then left_open (Msg ''node type is missing'') d
        else tx_bind (tx_insert_node w node d) (\<lambda>(i, d'). Inr (d', js_set (dn_id node) i ids, created @ [(i, node)])))"

definition tx_create_edge :: "int \<Rightarrow> (string \<times> int) list \<Rightarrow> edge_dto \<Rightarrow> server_db \<Rightarrow> server_db tx" where
  "tx_create_edge w ids edge d =
     (if de_source edge = [] \<or> de_target edge = [] then left_open (Msg ''edge source or target node ID is missing'') d
      else case q_CreateWorkflowEdge w (go_lookup ids (de_source edge)) (go_lookup ids (de_target edge)) d of
             Inl e \<Rightarrow> left_open (DbErr e) d
           | Inr d' \<Rightarrow> Inr d')"

text \<open>The result is the graph that was stored: its number, its nodes with their numbers, and the targets of its edges.\<close>

definition workflowRepo_CreateWorkflow ::
  "string \<Rightarrow> string \<Rightarrow> string \<Rightarrow> string \<Rightarrow> node_dto list \<Rightarrow> edge_dto list \<Rightarrow> server_db \<Rightarrow>
   (srv_error + (int \<times> (int \<times> node_dto) list \<times> int list)) \<times> server_db" where
  "workflowRepo_CreateWorkflow userID name description status nodes edges d =
     (if userID = [] \<or> name = [] \<or> description = [] \<or> status = [] then (Inl (Msg ''workflow metadata is missing''), d)
      else if nodes = [] then (Inl (Msg ''no workflow nodes to create''), d)
      else let r = (case q_CreateWorkflow userID name description status d of
                 Inl e \<Rightarrow> rolled_back (DbErr e) d
               | Inr (w, d1) \<Rightarrow> tx_bind (tx_each (tx_create_node w) nodes (d1, [], [])) (\<lambda>(d2, ids, created).
                   tx_bind (tx_each (tx_create_edge w ids) edges d2) (\<lambda>d3.
                     Inr ((w, created, map (\<lambda>e. go_lookup ids (de_target e)) edges), d3))))
           in case r of Inl (e, leftOpen, t) \<Rightarrow> (Inl e, abort_tx d leftOpen t) | Inr (x, d') \<Rightarrow> (Inr x, d'))"

text \<open>The triggers among the root nodes are set up one by one, after the workflow was stored.\<close>

primrec execute_triggers :: "server_env \<Rightarrow> string \<Rightarrow> int \<Rightarrow> node_dto list \<Rightarrow> server_db \<Rightarrow> srv_error option \<times> server_db" where
  "execute_triggers ev userID w [] d = (None, d)"
| "execute_triggers ev userID w (n # ns) d =
     (if dn_category n = ''trigger''
      then let c = fmupd ''user_id'' (GStr userID) (fmupd ''workflow_id'' (GInt32 w) (case dn_config n of None \<Rightarrow> fmempty | Some c \<Rightarrow> c))
           in case registry_Execute ev (dn_type n) c d of
                (Some e, d') \<Rightarrow> (Some e, d')
              | (None, d') \<Rightarrow> execute_triggers ev userID w ns d'
      else execute_triggers ev userID w ns d)"

definition WorkflowService_CreateWorkflow ::
  "server_env \<Rightarrow> string \<Rightarrow> string \<Rightarrow> string \<Rightarrow> string \<Rightarrow> node_dto list \<Rightarrow> edge_dto list \<Rightarrow> server_db \<Rightarrow>
   (srv_error + int) \<times> server_db" where
  "WorkflowService_CreateWorkflow ev userID name description status nodes edges d =
     (case check_graph ev nodes edges of
        Some e \<Rightarrow> (Inl (Msg (graph_error_text e)), d)
      | None \<Rightarrow> (case validate_nodes ev nodes of
          Some e \<Rightarrow> (Inl e, d)
        | None \<Rightarrow> (case workflowRepo_CreateWorkflow userID name description status nodes edges d of
            (Inl e, d1) \<Rightarrow> (Inl e, d1)
          | (Inr (w, created, targets), d1) \<Rightarrow>
              (case execute_triggers ev userID w (map snd (root_nodes fst created targets)) d1 of
                    (Some e, d2) \<Rightarrow> (Inl e, d2)
                  | (None, d2) \<Rightarrow> (Inr w, d2)))))"

section \<open>Updating\<close>

text \<open>The loop over the submitted nodes collects what has to be done, and updates triggers on its way. \<open>un_ids\<close> are the
  submitted identifiers of nodes that exist.\<close>

record update_scan =
  un_delta :: workflow_delta
  un_ids :: "string list"
  un_db :: server_db

definition scan_node ::
  "server_env \<Rightarrow> string \<Rightarrow> int \<Rightarrow> (string \<rightharpoonup> node_dto) \<Rightarrow> node_dto \<Rightarrow> update_scan \<Rightarrow> srv_error option \<times> update_scan" where
  "scan_node ev userID w existing node s =
     (if ev_uuid ev (dn_id node) then (None, s\<lparr>un_delta := (un_delta s)\<lparr>dl_create := dl_create (un_delta s) @ [node]\<rparr>\<rparr>)
      else let s1 = s\<lparr>un_ids := un_ids s @ [dn_id node]\<rparr>
           in (case existing (dn_id node) of
                None \<Rightarrow> (Some (Msg ''node ID is not present in the existing workflow''), s1)
              | Some old \<Rightarrow>
                  (if dn_category old \<noteq> dn_category node \<or> dn_type old \<noteq> dn_type node
                   then (Some (Msg ''node category or type cannot be changed''), s1)
                   else let c = fmupd ''workflow_id'' (GInt32 w) (fmupd ''user_id'' (GStr userID) (case dn_config node of None \<Rightarrow> fmempty | Some c \<Rightarrow> c));
                            changed = (dn_config old \<noteq> dn_config node);
                            r = (if changed \<and> dn_category node = ''trigger'' then registry_Update ev (dn_type node) c (un_db s1) else (None, un_db s1));
                            s2 = s1\<lparr>un_db := snd r\<rparr>
                        in (case fst r of
                              Some e \<Rightarrow> (Some e, s2)
                            | None \<Rightarrow>
                                (let node' = (if changed then node\<lparr>dn_config := Some c\<rparr> else node);
                                     s3 = (if changed then s2\<lparr>un_delta := (un_delta s2)\<lparr>dl_update := dl_update (un_delta s2) @ [node']\<rparr>\<rparr> else s2)
                                 in (case (dn_position old, dn_position node) of
                                       (Some p, Some q) \<Rightarrow>
                                         (None, if p \<noteq> q then s3\<lparr>un_delta := (un_delta s3)\<lparr>dl_updateUI := dl_updateUI (un_delta s3) @ [node']\<rparr>\<rparr> else s3)
                                     | _ \<Rightarrow> (Some Panic, s3)))))))"

primrec scan_nodes ::
  "server_env \<Rightarrow> string \<Rightarrow> int \<Rightarrow> (string \<rightharpoonup> node_dto) \<Rightarrow> node_dto list \<Rightarrow> update_scan \<Rightarrow> srv_error option \<times> update_scan" where
  "scan_nodes ev userID w existing [] s = (None, s)"
| "scan_nodes ev userID w existing (n # ns) s =
     (case scan_node ev userID w existing n s of
        (Some e, s') \<Rightarrow> (Some e, s')
      | (None, s') \<Rightarrow> scan_nodes ev userID w existing ns s')"

primrec ids_to_delete :: "string list \<Rightarrow> node_dto list \<Rightarrow> int list option" where
  "ids_to_delete present [] = Some []"
| "ids_to_delete present (old # olds) =
     (if dn_id old \<in> set present then ids_to_delete present olds
      else case Atoi (dn_id old) of
             None \<Rightarrow> None
           | Some i \<Rightarrow> map_option (Cons (int32 i)) (ids_to_delete present olds))"

definition edge_key :: "edge_dto \<Rightarrow> string \<times> string" where
  "edge_key e = (de_source e, de_target e)"

definition edges_to_add :: "edge_dto list \<Rightarrow> edge_dto list \<Rightarrow> (string \<times> string) list" where
  "edges_to_add existing edges = filter (\<lambda>k. k \<notin> edge_key ` set existing) (map edge_key edges)"

definition edges_to_delete :: "server_env \<Rightarrow> edge_dto list \<Rightarrow> edge_dto list \<Rightarrow> (string \<times> string) list" where
  "edges_to_delete ev existing edges =
     filter (\<lambda>k. k \<notin> edge_key ` set edges) (ev_edgeOrder ev (remdups (map edge_key existing)))"

definition delta_empty :: "workflow_delta \<Rightarrow> bool" where
  "delta_empty dl \<longleftrightarrow>
     \<not> dl_updateMetadata dl \<and> dl_create dl = [] \<and> dl_update dl = [] \<and> dl_updateUI dl = [] \<and> dl_delete dl = [] \<and>
     dl_addEdges dl = [] \<and> dl_deleteEdges dl = []"

text \<open>The transaction.\<close>

definition tx_delete_node :: "int \<Rightarrow> server_db \<Rightarrow> server_db tx" where
  "tx_delete_node i d = (case q_DeleteWorkflowNode i d of Inl e \<Rightarrow> rolled_back (DbErr e) d | Inr d' \<Rightarrow> Inr d')"

primrec existing_ids :: "node_dto list \<Rightarrow> (string \<times> int) list \<Rightarrow> (string \<times> int) list option" where
  "existing_ids [] m = Some m"
| "existing_ids (n # ns) m =
     (case Atoi (dn_id n) of None \<Rightarrow> None | Some i \<Rightarrow> existing_ids ns (js_set (dn_id n) (int32 i) m))"

definition tx_add_node :: "int \<Rightarrow> node_dto \<Rightarrow> server_db \<times> (string \<times> int) list \<Rightarrow> (server_db \<times> (string \<times> int) list) tx" where
  "tx_add_node w node s =
     (case s of (d, ids) \<Rightarrow> tx_bind (tx_insert_node w node d) (\<lambda>(i, d'). Inr (d', js_set (dn_id node) i ids)))"

definition tx_move_node :: "node_dto \<Rightarrow> server_db \<Rightarrow> server_db tx" where
  "tx_move_node node d =
     (case Atoi (dn_id node) of
        None \<Rightarrow> left_open (Msg ''invalid node id'') d
      | Some i \<Rightarrow> (case dn_position node of
          None \<Rightarrow> left_open Panic d
        | Some p \<Rightarrow> Inr (q_UpdateWorkflowNodeUI (int32 i) p d)))"

definition tx_change_node :: "node_dto \<Rightarrow> server_db \<Rightarrow> server_db tx" where
  "tx_change_node node d =
     (case (Atoi (dn_id node), dn_config node) of
        (Some i, Some c) \<Rightarrow> tx_move_node node (q_UpdateWorkflowNode (int32 i) c d)
      | _ \<Rightarrow> left_open (Msg ''invalid node id'') d)"

definition tx_delete_edge :: "int \<Rightarrow> string \<times> string \<Rightarrow> server_db \<Rightarrow> server_db tx" where
  "tx_delete_edge w k d =
     (case (Atoi (fst k), Atoi (snd k)) of
        (Some src, Some dst) \<Rightarrow> Inr (q_DeleteWorkflowEdge w (int32 src) (int32 dst) d)
      | _ \<Rightarrow> left_open (Msg ''invalid edge id'') d)"

definition tx_add_edge :: "int \<Rightarrow> (string \<times> int) list \<Rightarrow> string \<times> string \<Rightarrow> server_db \<Rightarrow> server_db tx" where
  "tx_add_edge w ids k d =
     (case q_CreateWorkflowEdge w (go_lookup ids (fst k)) (go_lookup ids (snd k)) d of
        Inl e \<Rightarrow> rolled_back (DbErr e) d
      | Inr d' \<Rightarrow> Inr d')"

definition tx_update :: "int \<Rightarrow> workflow_delta \<Rightarrow> node_dto list \<Rightarrow> server_db \<Rightarrow> server_db tx" where
  "tx_update w dl existing d =
     tx_bind (tx_each tx_delete_node (dl_delete dl)
         (if dl_updateMetadata dl then q_UpdateWorkflow w (dl_name dl) (dl_description dl) d else d)) (\<lambda>d1.
     case existing_ids existing [] of
       None \<Rightarrow> left_open (Msg ''invalid node id'') d1
     | Some ids0 \<Rightarrow>
         tx_bind (tx_each (tx_add_node w) (dl_create dl) (d1, ids0)) (\<lambda>(d2, ids).
         tx_bind (tx_each tx_change_node (dl_update dl) d2) (\<lambda>d3.
         tx_bind (tx_each tx_move_node (dl_updateUI dl) d3) (\<lambda>d4.
         tx_bind (tx_each (tx_delete_edge w) (dl_deleteEdges dl) d4) (\<lambda>d5.
         tx_each (tx_add_edge w ids) (dl_addEdges dl) d5)))))"

definition workflowRepo_UpdateWorkflow ::
  "int \<Rightarrow> workflow_delta \<Rightarrow> node_dto list \<Rightarrow> server_db \<Rightarrow> srv_error option \<times> server_db" where
  "workflowRepo_UpdateWorkflow w dl existing d =
     (case tx_update w dl existing d of
        Inl (e, leftOpen, t) \<Rightarrow> (Some e, abort_tx d leftOpen t)
      | Inr d' \<Rightarrow> (None, d'))"

definition existing_map :: "node_dto list \<Rightarrow> string \<rightharpoonup> node_dto" where
  "existing_map ns = map_of (rev (map (\<lambda>n. (dn_id n, n)) ns))"

definition WorkflowService_UpdateWorkflow ::
  "server_env \<Rightarrow> string \<Rightarrow> int \<Rightarrow> string \<Rightarrow> string \<Rightarrow> node_dto list \<Rightarrow> edge_dto list \<Rightarrow> server_db \<Rightarrow>
   srv_error option \<times> server_db" where
  "WorkflowService_UpdateWorkflow ev userID w name description nodes edges d =
     (case check_graph ev nodes edges of
        Some e \<Rightarrow> (Some (Msg (graph_error_text e)), d)
      | None \<Rightarrow> (case validate_nodes ev nodes of
          Some e \<Rightarrow> (Some e, d)
        | None \<Rightarrow> (case workflowRepo_RenderWorkflowGraph ev w d of
            Inl e \<Rightarrow> (Some e, d)
          | Inr g \<Rightarrow>
              (let dl0 = \<lparr>dl_name = name, dl_description = description,
                          dl_updateMetadata = (gd_name g \<noteq> name \<or> gd_description g \<noteq> description),
                          dl_create = [], dl_update = [], dl_updateUI = [], dl_delete = [], dl_addEdges = [], dl_deleteEdges = []\<rparr>
               in case scan_nodes ev userID w (existing_map (gd_nodes g)) nodes \<lparr>un_delta = dl0, un_ids = [], un_db = d\<rparr> of
                    (Some e, s) \<Rightarrow> (Some e, un_db s)
                  | (None, s) \<Rightarrow> (case ids_to_delete (un_ids s) (gd_nodes g) of
                      None \<Rightarrow> (Some (Msg ''invalid node ID format''), un_db s)
                    | Some del \<Rightarrow>
                        let dl = (un_delta s)\<lparr>dl_delete := del, dl_addEdges := edges_to_add (gd_edges g) edges,
                                   dl_deleteEdges := edges_to_delete ev (gd_edges g) edges\<rparr>
                        in if delta_empty dl then (None, un_db s)
                           else workflowRepo_UpdateWorkflow w dl (gd_nodes g) (un_db s))))))"

section \<open>Archiving and access\<close>

definition VerifyWorkflowAccess :: "int \<Rightarrow> string \<Rightarrow> server_db \<Rightarrow> srv_error option" where
  "VerifyWorkflowAccess w userID d =
     (case q_GetWorkflow w d of
        Inl e \<Rightarrow> Some (DbErr e)
      | Inr r \<Rightarrow> if tw_user r \<noteq> userID then Some (Msg ''user does not have access to workflow'') else None)"

text \<open>A root node whose category is \<open>schedule\<close> makes the schedules of the workflow be deleted.\<close>

definition WorkflowService_ArchiveWorkflow :: "int \<Rightarrow> server_db \<Rightarrow> srv_error option \<times> server_db" where
  "WorkflowService_ArchiveWorkflow w d =
     (case q_GetWorkflow w d of
        Inl e \<Rightarrow> (Some (DbErr e), d)
      | Inr r \<Rightarrow>
          (if tw_status r = ''archived'' then (None, d)
           else let d1 = q_ArchiveWorkflow w ''archived'' d
                in (case workflowRepo_GetWorkflowGraph w d1 of
                      Inl e \<Rightarrow> (Some e, d1)
                    | Inr (nodes, edges) \<Rightarrow>
                        (None, fold (\<lambda>n d. if tn_category n = ''schedule'' then q_DeleteWorkflowScheduleByWorkflowID w d else d)
                           (root_nodes tn_id nodes (map te_target edges)) d1))))"

end
