(* ===== verification/Store_Maps.thy ===== *)
theory Store_Maps
  imports Workflow_Store "HOL-Library.Multiset"
begin

text \<open>
  What the store of workflows keeps and what its operations mean. Tables are read as maps: \<open>node_at\<close> and \<open>pos_at\<close> give the node and the position for a
  number, and every statement of a transaction is a change of these maps.
\<close>

section \<open>Tables as maps\<close>

definition node_at :: "server_db \<Rightarrow> int \<rightharpoonup> node_row" where
  "node_at d = map_of (map (\<lambda>n. (tn_id n, n)) (db_nodes d))"

definition pos_at :: "server_db \<Rightarrow> int \<rightharpoonup> real \<times> real" where
  "pos_at d = map_of (map (\<lambda>u. (tu_id u, tu_position u)) (db_ui d))"

text \<open>Keys are unique, every node has a position, numbers are positive and below the next one of their sequence, and references have a target.\<close>

definition rows_ok :: "server_db \<Rightarrow> bool" where
  "rows_ok d \<longleftrightarrow>
     distinct (map tw_id (db_workflows d)) \<and> distinct (map tn_id (db_nodes d)) \<and> distinct (map tu_id (db_ui d)) \<and>
     tu_id ` set (db_ui d) = node_ids d \<and> 0 < db_nextNode d \<and> db_nextNode d \<le> serial_max + 1 \<and>
     (\<forall>i\<in>node_ids d. 0 < i \<and> i < db_nextNode d) \<and> (\<forall>i\<in>workflow_ids d. i < db_nextWorkflow d) \<and>
     (\<forall>n\<in>set (db_nodes d). tn_workflow n \<in> workflow_ids d \<and> json_config (tn_config n) = tn_config n) \<and>
     (\<forall>e\<in>set (db_edges d). te_source e \<in> node_ids d \<and> te_target e \<in> node_ids d)"

definition edges_within :: "server_db \<Rightarrow> bool" where
  "edges_within d \<longleftrightarrow>
     (\<forall>e\<in>set (db_edges d). \<forall>i\<in>{te_source e, te_target e}. \<exists>n. node_at d i = Some n \<and> tn_workflow n = te_workflow e)"

lemma dom_node_at: "dom (node_at d) = node_ids d"
  by (simp add: node_at_def node_ids_def dom_map_of_conv_image_fst image_image)

lemma dom_pos_at: "dom (pos_at d) = tu_id ` set (db_ui d)"
  by (simp add: pos_at_def dom_map_of_conv_image_fst image_image)

lemma node_at_Some:
  "distinct (map tn_id (db_nodes d)) \<Longrightarrow> node_at d i = Some n \<longleftrightarrow> n \<in> set (db_nodes d) \<and> tn_id n = i"
  unfolding node_at_def by (subst map_of_eq_Some_iff) (auto simp: o_def)

lemma pos_at_Some:
  "distinct (map tu_id (db_ui d)) \<Longrightarrow> pos_at d i = Some p \<longleftrightarrow> (\<exists>u\<in>set (db_ui d). tu_id u = i \<and> tu_position u = p)"
  unfolding pos_at_def by (subst map_of_eq_Some_iff) (auto simp: o_def)

lemma node_at_id: "node_at d i = Some n \<Longrightarrow> tn_id n = i"
  unfolding node_at_def by (auto dest: map_of_SomeD)

subsection \<open>Reading a workflow\<close>

lemma filter_key_single:
  "distinct (map f xs) \<Longrightarrow> x \<in> set xs \<Longrightarrow> filter (\<lambda>y. f y = f x) xs = [x]"
proof (induction xs)
  case (Cons y ys)
  then show ?case by (cases "y = x") (force simp: filter_empty_conv image_iff)+
qed simp

lemma js_set_fresh: "k \<notin> fst ` set m \<Longrightarrow> js_set k v m = m @ [(k, v)]"
  by (induction m) auto

definition node_block :: "workflow_row \<Rightarrow> node_row \<Rightarrow> ui_row \<Rightarrow> edge_row list \<Rightarrow> (workflow_row \<times> node_row \<times> ui_row \<times> edge_row option) list" where
  "node_block w n u es = (case es of [] \<Rightarrow> [(w, n, u, None)] | es \<Rightarrow> map (\<lambda>e. (w, n, u, Some e)) es)"

lemma fold_edge_rows:
  assumes "map_of (rs_nodes s) (tn_id n) \<noteq> None" and "rs_name s = tw_name w" and "rs_description s = tw_description w"
  shows "fold render_row (map (\<lambda>e. (w, n, u, Some e)) es) s = s\<lparr>rs_edges := rs_edges s @ map rendered_edge es\<rparr>"
  using assms
proof (induction es arbitrary: s)
  case (Cons e es)
  have "render_row (w, n, u, Some e) s = s\<lparr>rs_edges := rs_edges s @ [rendered_edge e]\<rparr>"
    using Cons.prems by (auto simp: render_row_def)
  then show ?case using Cons.IH [of "s\<lparr>rs_edges := rs_edges s @ [rendered_edge e]\<rparr>"] Cons.prems by simp
qed simp

lemma fold_node_block:
  assumes "tn_id n \<notin> fst ` set (rs_nodes s)" and "rs_name s \<in> {[], tw_name w}" and "rs_description s \<in> {[], tw_description w}"
  shows "fold render_row (node_block w n u es) s =
    \<lparr>rs_name = tw_name w, rs_description = tw_description w, rs_nodes = rs_nodes s @ [(tn_id n, rendered_node n u)],
     rs_edges = rs_edges s @ map rendered_edge es\<rparr>"
proof -
  have none: "map_of (rs_nodes s) (tn_id n) = None" using assms(1) by (simp add: map_of_eq_None_iff)
  then have first: "render_row (w, n, u, e) s = \<lparr>rs_name = tw_name w, rs_description = tw_description w,
      rs_nodes = rs_nodes s @ [(tn_id n, rendered_node n u)],
      rs_edges = (case e of None \<Rightarrow> rs_edges s | Some e \<Rightarrow> rs_edges s @ [rendered_edge e])\<rparr>" for e
    using assms by (auto simp: render_row_def js_set_fresh)
  show ?thesis
  proof (cases es)
    case (Cons e es')
    then show ?thesis using none by (simp add: node_block_def first fold_edge_rows map_of_append)
  qed (simp add: node_block_def first)
qed

definition ui_of :: "server_db \<Rightarrow> int \<Rightarrow> ui_row" where
  "ui_of d i = \<lparr>tu_id = i, tu_position = the (pos_at d i)\<rparr>"

lemma ui_filter:
  assumes "rows_ok d" and "i \<in> node_ids d"
  shows "filter (\<lambda>u. tu_id u = i) (db_ui d) = [ui_of d i]"
proof -
  have ui: "distinct (map tu_id (db_ui d))" "i \<in> tu_id ` set (db_ui d)" using assms by (simp_all add: rows_ok_def)
  then obtain u where u: "u \<in> set (db_ui d)" "tu_id u = i" by blast
  then have "pos_at d i = Some (tu_position u)" using pos_at_Some [OF ui(1)] by blast
  then have "ui_of d i = u" using u(2) by (simp add: ui_of_def)
  then show ?thesis using filter_key_single [OF ui(1) u(1)] u(2) by simp
qed

definition nodes_of :: "int \<Rightarrow> server_db \<Rightarrow> node_row list" where
  "nodes_of w d = filter (\<lambda>n. tn_workflow n = w) (db_nodes d)"

lemma fold_blocks:
  assumes "distinct (map tn_id ns)" and "fst ` set (rs_nodes s) \<inter> tn_id ` set ns = {}"
    and "rs_name s \<in> {[], tw_name w}" and "rs_description s \<in> {[], tw_description w}"
  shows "fold render_row (concat (map (\<lambda>n. node_block w n (u n) (es n)) ns)) s =
    (if ns = [] then s
     else \<lparr>rs_name = tw_name w, rs_description = tw_description w, rs_nodes = rs_nodes s @ map (\<lambda>n. (tn_id n, rendered_node n (u n))) ns,
           rs_edges = rs_edges s @ concat (map (\<lambda>n. map rendered_edge (es n)) ns)\<rparr>)"
  using assms
proof (induction ns arbitrary: s)
  case (Cons n ns)
  then show ?case by (auto simp: fold_node_block)
qed simp

lemma render_rows:
  assumes ok: "rows_ok d" and w: "w \<in> set (db_workflows d)"
  shows "q_RenderWorkflowGraph (tw_id w) d =
    concat (map (\<lambda>n. node_block w n (ui_of d (tn_id n)) (outgoing (tw_id w) (tn_id n) d)) (nodes_of (tw_id w) d))"
proof -
  have "filter (\<lambda>v. tw_id v = tw_id w) (db_workflows d) = [w]"
    using ok w by (intro filter_key_single) (simp_all add: rows_ok_def)
  moreover have "filter (\<lambda>u. tu_id u = tn_id n) (db_ui d) = [ui_of d (tn_id n)]" if "n \<in> set (nodes_of (tw_id w) d)" for n
    using that by (intro ui_filter [OF ok]) (auto simp: nodes_of_def node_ids_def)
  ultimately show ?thesis
    by (auto simp: q_RenderWorkflowGraph_def node_block_def nodes_of_def intro!: arg_cong [of _ _ concat])
qed

text \<open>What is rendered of a workflow that has nodes.\<close>

lemma render_result:
  assumes ok: "rows_ok d" and w: "w \<in> set (db_workflows d)" and ne: "nodes_of (tw_id w) d \<noteq> []"
    and ord: "mset (ev_nodeOrder ev (map tn_id (nodes_of (tw_id w) d))) = mset (map tn_id (nodes_of (tw_id w) d))"
  shows "workflowRepo_RenderWorkflowGraph ev (tw_id w) d = Inr
    \<lparr>gd_id = tw_id w, gd_name = tw_name w, gd_description = tw_description w,
     gd_nodes = map (\<lambda>i. rendered_node (the (node_at d i)) (ui_of d i)) (ev_nodeOrder ev (map tn_id (nodes_of (tw_id w) d))),
     gd_edges = concat (map (\<lambda>n. map rendered_edge (outgoing (tw_id w) (tn_id n) d)) (nodes_of (tw_id w) d))\<rparr>"
proof -
  let ?ns = "nodes_of (tw_id w) d"
  let ?m = "map (\<lambda>n. (tn_id n, rendered_node n (ui_of d (tn_id n)))) ?ns"
  have dis: "distinct (map tn_id ?ns)" "distinct (map tn_id (db_nodes d))" using ok by (simp_all add: nodes_of_def rows_ok_def distinct_map_filter_key)
  have f: "fold render_row (q_RenderWorkflowGraph (tw_id w) d) \<lparr>rs_name = [], rs_description = [], rs_nodes = [], rs_edges = []\<rparr> =
     \<lparr>rs_name = tw_name w, rs_description = tw_description w, rs_nodes = ?m,
      rs_edges = concat (map (\<lambda>n. map rendered_edge (outgoing (tw_id w) (tn_id n) d)) ?ns)\<rparr>"
    unfolding render_rows [OF ok w] using fold_blocks [OF dis(1), of "\<lparr>rs_name = [], rs_description = [], rs_nodes = [], rs_edges = []\<rparr>" w] ne by simp
  have rows: "q_RenderWorkflowGraph (tw_id w) d \<noteq> []"
    unfolding render_rows [OF ok w] using ne by (cases ?ns) (auto simp: node_block_def split: list.splits)
  have look: "the (map_of ?m i) = rendered_node (the (node_at d i)) (ui_of d i)" if i: "i \<in> set (map tn_id ?ns)" for i
  proof -
    obtain n where n: "n \<in> set ?ns" "tn_id n = i" using i by auto
    then have "map_of ?m i = Some (rendered_node n (ui_of d i))" using dis(1) by (subst map_of_eq_Some_iff) (auto simp: o_def)
    moreover have "node_at d i = Some n" using n dis(2) by (auto simp: node_at_Some nodes_of_def)
    ultimately show ?thesis by simp
  qed
  have "set (ev_nodeOrder ev (map tn_id ?ns)) = set (map tn_id ?ns)" using ord by (metis set_mset_mset)
  then have "map (\<lambda>k. the (map_of ?m k)) (ev_nodeOrder ev (map tn_id ?ns)) =
      map (\<lambda>i. rendered_node (the (node_at d i)) (ui_of d i)) (ev_nodeOrder ev (map tn_id ?ns))"
    by (intro map_cong refl look) simp
  then show ?thesis using rows by (simp add: workflowRepo_RenderWorkflowGraph_def f o_def)
qed

section \<open>Transactions on the maps\<close>

lemma map_of_filter_key: "map_of (filter (\<lambda>p. P (fst p)) xs) = (map_of xs) |` {k. P k}"
  by (induction xs) (auto simp: restrict_map_def fun_eq_iff)

lemma node_at_filter: "node_at (d\<lparr>db_nodes := filter (\<lambda>n. P (tn_id n)) (db_nodes d)\<rparr>) = node_at d |` {i. P i}"
  unfolding node_at_def using map_of_filter_key [of P "map (\<lambda>n. (tn_id n, n)) (db_nodes d)"] by (simp add: filter_map o_def)

lemma pos_at_filter: "pos_at (d\<lparr>db_ui := filter (\<lambda>u. P (tu_id u)) (db_ui d)\<rparr>) = pos_at d |` {i. P i}"
  unfolding pos_at_def using map_of_filter_key [of P "map (\<lambda>u. (tu_id u, tu_position u)) (db_ui d)"] by (simp add: filter_map o_def)

lemma node_at_cong: "db_nodes d = db_nodes d' \<Longrightarrow> node_at d = node_at d'"
  by (simp add: node_at_def)

lemma pos_at_cong: "db_ui d = db_ui d' \<Longrightarrow> pos_at d = pos_at d'"
  by (simp add: pos_at_def)

text \<open>What a transaction leaves alone.\<close>

definition same_rest :: "server_db \<Rightarrow> server_db \<Rightarrow> bool" where
  "same_rest d d' \<longleftrightarrow>
     db_schedules d' = db_schedules d \<and> db_calendars d' = db_calendars d \<and> db_runs d' = db_runs d \<and> db_nodeRuns d' = db_nodeRuns d \<and>
     db_nextWorkflow d' = db_nextWorkflow d \<and> map tw_id (db_workflows d') = map tw_id (db_workflows d) \<and> db_open d' = db_open d"

lemma same_rest_refl [simp]: "same_rest d d"
  by (simp add: same_rest_def)

lemma same_rest_trans: "same_rest d d' \<Longrightarrow> same_rest d' d'' \<Longrightarrow> same_rest d d''"
  by (simp add: same_rest_def)

lemma tx_bind_Inr [simp]: "tx_bind m f = Inr y \<longleftrightarrow> (\<exists>x. m = Inr x \<and> f x = Inr y)"
  by (cases m) (auto simp: tx_bind_def)

lemma restrict_UNIV [simp]: "m |` UNIV = m"
  by (simp add: restrict_map_def)

lemma delete_node:
  assumes ok: "rows_ok d" and s: "tx_delete_node i d = Inr d'"
  shows "rows_ok d'" "node_at d' = node_at d |` (- {i})" "pos_at d' = pos_at d |` (- {i})"
    "set (db_edges d') = {e \<in> set (db_edges d). te_source e \<noteq> i \<and> te_target e \<noteq> i}" "db_workflows d' = db_workflows d"
    "db_nextNode d' = db_nextNode d" "same_rest d d'"
proof -
  have d': "d' = d\<lparr>db_nodes := filter (\<lambda>n. tn_id n \<noteq> i) (db_nodes d), db_ui := filter (\<lambda>u. tu_id u \<noteq> i) (db_ui d),
      db_edges := filter (\<lambda>e. te_source e \<noteq> i \<and> te_target e \<noteq> i) (db_edges d)\<rparr>"
    using s by (auto simp: tx_delete_node_def q_DeleteWorkflowNode_def rolled_back_def split: if_splits)
  show "node_at d' = node_at d |` (- {i})"
    using node_at_filter [of "\<lambda>j. j \<noteq> i" d] node_at_cong [of d' "d\<lparr>db_nodes := filter (\<lambda>n. tn_id n \<noteq> i) (db_nodes d)\<rparr>"]
    by (simp add: d' Compl_eq)
  show "pos_at d' = pos_at d |` (- {i})"
    using pos_at_filter [of "\<lambda>j. j \<noteq> i" d] pos_at_cong [of d' "d\<lparr>db_ui := filter (\<lambda>u. tu_id u \<noteq> i) (db_ui d)\<rparr>"]
    by (simp add: d' Compl_eq)
  show "set (db_edges d') = {e \<in> set (db_edges d). te_source e \<noteq> i \<and> te_target e \<noteq> i}" "db_workflows d' = db_workflows d"
    "db_nextNode d' = db_nextNode d" "same_rest d d'" by (auto simp: d' same_rest_def)
  have ids: "node_ids d' = node_ids d - {i}" "tu_id ` set (db_ui d') = tu_id ` set (db_ui d) - {i}" "workflow_ids d' = workflow_ids d"
    by (auto simp: d' node_ids_def workflow_ids_def)
  show "rows_ok d'" using ok unfolding rows_ok_def ids by (auto simp: d' distinct_map_filter_key)
qed

lemma delete_nodes:
  assumes "rows_ok d" and "tx_each tx_delete_node is d = Inr d'"
  shows "rows_ok d' \<and> node_at d' = node_at d |` (- set is) \<and> pos_at d' = pos_at d |` (- set is) \<and>
    set (db_edges d') = {e \<in> set (db_edges d). te_source e \<notin> set is \<and> te_target e \<notin> set is} \<and> db_workflows d' = db_workflows d \<and>
    db_nextNode d' = db_nextNode d \<and> same_rest d d'"
  using assms
proof (induction "is" arbitrary: d)
  case (Cons i "is")
  obtain d1 where d1: "tx_delete_node i d = Inr d1" "tx_each tx_delete_node is d1 = Inr d'"
    using Cons.prems(2) by auto
  note s = delete_node [OF Cons.prems(1) d1(1)] and IH = Cons.IH [OF delete_node(1) [OF Cons.prems(1) d1(1)] d1(2)]
  have "- {i} \<inter> - set is = - set (i # is)" by auto
  then show ?case using IH s by (auto simp: restrict_restrict dest: same_rest_trans)
qed simp

lemma insert_node_tables:
  assumes "tx_insert_node w n d = Inr (i, d')"
  obtains c p where "dn_config n = Some c" "dn_position n = Some p" "w \<in> workflow_ids d" "db_nextNode d \<le> serial_max" "i = db_nextNode d"
    "d' = d\<lparr>db_nodes := db_nodes d @ [\<lparr>tn_id = i, tn_workflow = w, tn_category = dn_category n, tn_type = dn_type n, tn_config = json_config c\<rparr>],
      db_nextNode := i + 1, db_ui := db_ui d @ [\<lparr>tu_id = i, tu_position = p\<rparr>]\<rparr>"
proof -
  obtain c where c: "dn_config n = Some c" using assms by (cases "dn_config n") (simp_all add: tx_insert_node_def left_open_def)
  obtain j d1 where q: "q_CreateWorkflowNode w (dn_category n) (dn_type n) c d = Inr (j, d1)"
    using assms c by (cases "q_CreateWorkflowNode w (dn_category n) (dn_type n) c d") (auto simp: tx_insert_node_def left_open_def)
  obtain p where p: "dn_position n = Some p" using assms c q by (cases "dn_position n") (simp_all add: tx_insert_node_def left_open_def)
  obtain d2 where u: "q_CreateWorkflowNodeUi j p d1 = Inr d2"
    using assms c q p by (cases "q_CreateWorkflowNodeUi j p d1") (simp_all add: tx_insert_node_def left_open_def)
  have "i = j" "d' = d2" using assms c q p u by (simp_all add: tx_insert_node_def)
  then show ?thesis using that [OF c p] q u
    by (auto simp: q_CreateWorkflowNode_def q_CreateWorkflowNodeUi_def Let_def split: if_splits)
qed

lemma single_map_add: "m k = None \<Longrightarrow> [k \<mapsto> v] ++ m = m(k \<mapsto> v)"
  by (auto simp: map_add_def fun_eq_iff split: option.splits)

definition new_row :: "int \<Rightarrow> int \<Rightarrow> node_dto \<Rightarrow> node_row" where
  "new_row w i n = \<lparr>tn_id = i, tn_workflow = w, tn_category = dn_category n, tn_type = dn_type n, tn_config = json_config (the (dn_config n))\<rparr>"

lemma insert_node:
  assumes ok: "rows_ok d" and s: "tx_insert_node w n d = Inr (i, d')"
  shows "rows_ok d'" "i = db_nextNode d" "db_nextNode d' = i + 1" "node_at d' = (node_at d)(i \<mapsto> new_row w i n)"
    "pos_at d' = (pos_at d)(i \<mapsto> the (dn_position n))" "dn_config n \<noteq> None" "dn_position n \<noteq> None"
    "db_edges d' = db_edges d" "db_workflows d' = db_workflows d" "same_rest d d'"
proof -
  obtain c p where cp: "dn_config n = Some c" "dn_position n = Some p" "w \<in> workflow_ids d" "db_nextNode d \<le> serial_max" "i = db_nextNode d"
    and d': "d' = d\<lparr>db_nodes := db_nodes d @ [\<lparr>tn_id = i, tn_workflow = w, tn_category = dn_category n, tn_type = dn_type n, tn_config = json_config c\<rparr>],
      db_nextNode := i + 1, db_ui := db_ui d @ [\<lparr>tu_id = i, tu_position = p\<rparr>]\<rparr>"
    by (rule insert_node_tables [OF s])
  have fresh: "i \<notin> node_ids d" using ok cp(5) unfolding rows_ok_def by blast
  then have fresh': "node_at d i = None" using dom_node_at [of d] by blast
  have "i \<notin> tu_id ` set (db_ui d)" using ok fresh by (simp add: rows_ok_def)
  then have fresh'': "pos_at d i = None" using dom_pos_at [of d] by blast
  show "i = db_nextNode d" "db_nextNode d' = i + 1" "db_edges d' = db_edges d" "db_workflows d' = db_workflows d" "same_rest d d'"
    "dn_config n \<noteq> None" "dn_position n \<noteq> None" using cp by (simp_all add: d' same_rest_def)
  show "node_at d' = (node_at d)(i \<mapsto> new_row w i n)" using fresh' cp(1) by (simp add: node_at_def d' single_map_add new_row_def)
  show "pos_at d' = (pos_at d)(i \<mapsto> the (dn_position n))" using fresh'' cp(2) by (simp add: pos_at_def d' single_map_add)
  have ids: "node_ids d' = insert i (node_ids d)" "tu_id ` set (db_ui d') = insert i (tu_id ` set (db_ui d))" "workflow_ids d' = workflow_ids d"
    by (auto simp: d' node_ids_def workflow_ids_def)
  have "distinct (map tn_id (db_nodes d'))" "distinct (map tu_id (db_ui d'))"
    using ok fresh by (simp_all add: d' rows_ok_def node_ids_def)
  moreover have "\<forall>j\<in>node_ids d'. 0 < j \<and> j < db_nextNode d'" "db_nextNode d' \<le> serial_max + 1" "0 < db_nextNode d'"
    using ok cp(4,5) unfolding ids by (auto simp: d' rows_ok_def)
  moreover have "\<forall>m\<in>set (db_nodes d'). tn_workflow m \<in> workflow_ids d' \<and> json_config (tn_config m) = tn_config m"
    using ok cp(3) unfolding ids by (simp add: d' rows_ok_def)
  ultimately show "rows_ok d'" using ok unfolding rows_ok_def ids by (simp add: d')
qed

text \<open>New nodes get consecutive numbers.\<close>

primrec numbered :: "int \<Rightarrow> node_dto list \<Rightarrow> (int \<times> node_dto) list" where
  "numbered k [] = []"
| "numbered k (n # ns) = (k, n) # numbered (k + 1) ns"

lemma numbered_ids: "(i, n) \<in> set (numbered k ns) \<Longrightarrow> k \<le> i \<and> i < k + int (length ns) \<and> n \<in> set ns"
  by (induction ns arbitrary: k) force+

lemma numbered_snd: "map snd (numbered k ns) = ns"
  by (induction ns arbitrary: k) auto

lemma numbered_distinct: "distinct (map fst (numbered k ns))"
  by (induction ns arbitrary: k) (auto dest: numbered_ids)

lemma add_nodes:
  assumes "rows_ok d" and "tx_each (tx_add_node w) ns (d, ids) = Inr (d', ids')"
  shows "rows_ok d' \<and> db_nextNode d' = db_nextNode d + int (length ns) \<and>
    node_at d' = node_at d ++ map_of (map (\<lambda>(i, n). (i, new_row w i n)) (numbered (db_nextNode d) ns)) \<and>
    pos_at d' = pos_at d ++ map_of (map (\<lambda>(i, n). (i, the (dn_position n))) (numbered (db_nextNode d) ns)) \<and>
    map_of ids' = map_of ids ++ map_of (rev (map (\<lambda>(i, n). (dn_id n, i)) (numbered (db_nextNode d) ns))) \<and>
    (\<forall>n\<in>set ns. dn_config n \<noteq> None \<and> dn_position n \<noteq> None) \<and>
    db_edges d' = db_edges d \<and> db_workflows d' = db_workflows d \<and> same_rest d d'"
  using assms
proof (induction ns arbitrary: d ids)
  case (Cons n ns)
  obtain s1 where s1: "tx_add_node w n (d, ids) = Inr s1" "tx_each (tx_add_node w) ns s1 = Inr (d', ids')" using Cons.prems(2) by auto
  then obtain i d1 where d1: "tx_insert_node w n d = Inr (i, d1)" "tx_each (tx_add_node w) ns (d1, js_set (dn_id n) i ids) = Inr (d', ids')"
    by (auto simp: tx_add_node_def split_def)
  note s = insert_node [OF Cons.prems(1) d1(1)]
  note IH = Cons.IH [OF s(1) d1(2)]
  let ?k = "db_nextNode d"
  have i: "i = ?k" "db_nextNode d1 = ?k + 1" using s(2,3) by simp_all
  have out: "?k \<notin> fst ` set (numbered (?k + 1) ns)" using numbered_ids by force
  have swap: "m(?k \<mapsto> v) ++ map_of (map (\<lambda>(i, n). (i, f i n)) (numbered (?k + 1) ns)) =
      m ++ map_of (map (\<lambda>(i, n). (i, f i n)) (numbered ?k (n # ns)))" if "v = f ?k n" for m v and f :: "int \<Rightarrow> node_dto \<Rightarrow> 'x"
  proof -
    have "map_of (map (\<lambda>(i, n). (i, f i n)) (numbered (?k + 1) ns)) ?k = None"
      using out by (auto simp: map_of_eq_None_iff image_image split_def)
    then show ?thesis using that by (auto simp: map_add_def fun_eq_iff split: option.splits)
  qed
  have "map_of ids' = map_of ids ++ map_of (rev (map (\<lambda>(i, n). (dn_id n, i)) (numbered ?k (n # ns))))"
    using IH i by (simp add: map_add_assoc [symmetric]) (auto simp: map_add_def fun_eq_iff split: option.splits)
  moreover have "node_at d' = node_at d ++ map_of (map (\<lambda>(i, n). (i, new_row w i n)) (numbered ?k (n # ns)))"
  proof -
    have "node_at d' = node_at d1 ++ map_of (map (\<lambda>(i, n). (i, new_row w i n)) (numbered (?k + 1) ns))" using IH unfolding i(2) by blast
    then show ?thesis unfolding s(4) i(1) using swap [of "new_row w ?k n" "new_row w" "node_at d"] by metis
  qed
  moreover have "pos_at d' = pos_at d ++ map_of (map (\<lambda>(i, n). (i, the (dn_position n))) (numbered ?k (n # ns)))"
  proof -
    have "pos_at d' = pos_at d1 ++ map_of (map (\<lambda>(i, n). (i, the (dn_position n))) (numbered (?k + 1) ns))" using IH unfolding i(2) by blast
    then show ?thesis unfolding s(5) i(1) using swap [of "the (dn_position n)" "\<lambda>i n. the (dn_position n)" "pos_at d"] by metis
  qed
  moreover have IHr: "rows_ok d' \<and> db_nextNode d' = db_nextNode d1 + int (length ns) \<and> (\<forall>n\<in>set ns. dn_config n \<noteq> None \<and> dn_position n \<noteq> None) \<and>
      db_edges d' = db_edges d1 \<and> db_workflows d' = db_workflows d1 \<and> same_rest d1 d'" using IH by blast
  have "rows_ok d' \<and> db_nextNode d' = ?k + int (length (n # ns)) \<and> (\<forall>m\<in>set (n # ns). dn_config m \<noteq> None \<and> dn_position m \<noteq> None) \<and>
      db_edges d' = db_edges d \<and> db_workflows d' = db_workflows d \<and> same_rest d d'"
    using IHr s(6-9) i(2) same_rest_trans [OF s(10)] by simp
  ultimately show ?case by blast
qed simp

definition node_num :: "node_dto \<Rightarrow> int" where
  "node_num n = int32 (the (Atoi (dn_id n)))"

lemma node_at_map:
  assumes "db_nodes d' = map (\<lambda>n. if tn_id n = i then f n else n) (db_nodes d)" and "\<And>n. tn_id (f n) = tn_id n"
  shows "node_at d' = (node_at d)(i := map_option f (node_at d i))"
proof -
  have "map_of (map (\<lambda>n. (tn_id n, n)) (map (\<lambda>n. if tn_id n = i then f n else n) ns)) =
      (map_of (map (\<lambda>n. (tn_id n, n)) ns))(i := map_option f (map_of (map (\<lambda>n. (tn_id n, n)) ns) i))" for ns
    by (induction ns) (use assms(2) in \<open>auto simp: fun_eq_iff\<close>)
  then show ?thesis unfolding node_at_def assms(1) .
qed

lemma pos_at_map:
  assumes "db_ui d' = map (\<lambda>u. if tu_id u = i then u\<lparr>tu_position := p\<rparr> else u) (db_ui d)"
  shows "pos_at d' = (pos_at d)(i := map_option (\<lambda>q. p) (pos_at d i))"
proof -
  have "map_of (map (\<lambda>u. (tu_id u, tu_position u)) (map (\<lambda>u. if tu_id u = i then u\<lparr>tu_position := p\<rparr> else u) us)) =
      (map_of (map (\<lambda>u. (tu_id u, tu_position u)) us))(i := map_option (\<lambda>q. p) (map_of (map (\<lambda>u. (tu_id u, tu_position u)) us) i))" for us
    by (induction us) (auto simp: fun_eq_iff)
  then show ?thesis unfolding pos_at_def assms .
qed

lemma move_node:
  assumes ok: "rows_ok d" and s: "tx_move_node n d = Inr d'"
  shows "rows_ok d'" "node_at d' = node_at d" "pos_at d' = (pos_at d)(node_num n := map_option (\<lambda>q. the (dn_position n)) (pos_at d (node_num n)))"
    "db_edges d' = db_edges d" "db_workflows d' = db_workflows d" "db_nextNode d' = db_nextNode d" "same_rest d d'"
proof -
  obtain p where p: "dn_position n = Some p" and d': "d' = q_UpdateWorkflowNodeUI (node_num n) p d"
    using s by (auto simp: tx_move_node_def node_num_def left_open_def split: option.splits)
  show "node_at d' = node_at d" "db_edges d' = db_edges d" "db_workflows d' = db_workflows d" "db_nextNode d' = db_nextNode d" "same_rest d d'"
    by (simp_all add: d' q_UpdateWorkflowNodeUI_def node_at_def same_rest_def)
  show "pos_at d' = (pos_at d)(node_num n := map_option (\<lambda>q. the (dn_position n)) (pos_at d (node_num n)))"
    by (rule pos_at_map) (simp add: d' q_UpdateWorkflowNodeUI_def p)
  have "map tu_id (db_ui d') = map tu_id (db_ui d)" by (simp add: d' q_UpdateWorkflowNodeUI_def)
  moreover from this have "tu_id ` set (db_ui d') = tu_id ` set (db_ui d)" by (metis set_map)
  moreover have "node_ids d' = node_ids d" "workflow_ids d' = workflow_ids d" "db_nodes d' = db_nodes d" "db_nextWorkflow d' = db_nextWorkflow d"
    by (simp_all add: d' q_UpdateWorkflowNodeUI_def node_ids_def workflow_ids_def)
  ultimately show "rows_ok d'"
    using ok \<open>db_edges d' = db_edges d\<close> \<open>db_workflows d' = db_workflows d\<close> \<open>db_nextNode d' = db_nextNode d\<close> by (simp add: rows_ok_def)
qed

lemma move_nodes:
  assumes "rows_ok d" and "tx_each tx_move_node ns d = Inr d'" and "distinct (map node_num ns)"
  shows "rows_ok d' \<and> node_at d' = node_at d \<and>
    pos_at d' = (\<lambda>i. case map_of (map (\<lambda>n. (node_num n, the (dn_position n))) ns) i of None \<Rightarrow> pos_at d i | Some p \<Rightarrow> map_option (\<lambda>q. p) (pos_at d i)) \<and>
    db_edges d' = db_edges d \<and> db_workflows d' = db_workflows d \<and> db_nextNode d' = db_nextNode d \<and> same_rest d d'"
  using assms
proof (induction ns arbitrary: d)
  case (Cons n ns)
  obtain d1 where d1: "tx_move_node n d = Inr d1" "tx_each tx_move_node ns d1 = Inr d'" using Cons.prems(2) by auto
  note s = move_node [OF Cons.prems(1) d1(1)]
  have IH: "rows_ok d' \<and> node_at d' = node_at d1 \<and>
    pos_at d' = (\<lambda>i. case map_of (map (\<lambda>n. (node_num n, the (dn_position n))) ns) i of None \<Rightarrow> pos_at d1 i | Some p \<Rightarrow> map_option (\<lambda>q. p) (pos_at d1 i)) \<and>
    db_edges d' = db_edges d1 \<and> db_workflows d' = db_workflows d1 \<and> db_nextNode d' = db_nextNode d1 \<and> same_rest d1 d'"
    using Cons.IH [OF s(1) d1(2)] Cons.prems(3) by simp
  have "map_of (map (\<lambda>n. (node_num n, the (dn_position n))) ns) (node_num n) = None"
    using Cons.prems(3) by (simp add: map_of_eq_None_iff image_image)
  then have "pos_at d' = (\<lambda>i. case map_of (map (\<lambda>n. (node_num n, the (dn_position n))) (n # ns)) i of None \<Rightarrow> pos_at d i
      | Some p \<Rightarrow> map_option (\<lambda>q. p) (pos_at d i))"
    using conjunct1 [OF conjunct2 [OF conjunct2 [OF IH]]] unfolding s(3) by (auto simp: fun_eq_iff split: option.splits)
  then show ?case using IH s same_rest_trans by auto
qed simp

lemma change_node:
  assumes ok: "rows_ok d" and s: "tx_change_node n d = Inr d'"
  shows "rows_ok d'" "node_at d' = (node_at d)(node_num n := map_option (tn_config_update (\<lambda>c. json_config (the (dn_config n)))) (node_at d (node_num n)))"
    "pos_at d' = (pos_at d)(node_num n := map_option (\<lambda>q. the (dn_position n)) (pos_at d (node_num n)))"
    "db_edges d' = db_edges d" "db_workflows d' = db_workflows d" "db_nextNode d' = db_nextNode d" "same_rest d d'"
proof -
  obtain c where c: "dn_config n = Some c" and m: "tx_move_node n (q_UpdateWorkflowNode (node_num n) c d) = Inr d'"
    using s by (auto simp: tx_change_node_def node_num_def left_open_def split: option.splits)
  let ?d = "q_UpdateWorkflowNode (node_num n) c d"
  have n: "node_at ?d = (node_at d)(node_num n := map_option (tn_config_update (\<lambda>_. json_config c)) (node_at d (node_num n)))"
    by (rule node_at_map) (simp_all add: q_UpdateWorkflowNode_def)
  have "map tn_id (db_nodes ?d) = map tn_id (db_nodes d)" by (simp add: q_UpdateWorkflowNode_def)
  moreover from this have "node_ids ?d = node_ids d" unfolding node_ids_def by (metis set_map)
  moreover have "db_ui ?d = db_ui d" "workflow_ids ?d = workflow_ids d" "db_edges ?d = db_edges d" "db_workflows ?d = db_workflows d"
    "db_nextNode ?d = db_nextNode d" "db_nextWorkflow ?d = db_nextWorkflow d" "same_rest d ?d" "pos_at ?d = pos_at d"
    by (simp_all add: q_UpdateWorkflowNode_def workflow_ids_def same_rest_def pos_at_def)
  moreover have "\<forall>n\<in>set (db_nodes ?d). tn_workflow n \<in> workflow_ids d \<and> json_config (tn_config n) = tn_config n"
    using ok by (auto simp: q_UpdateWorkflowNode_def rows_ok_def)
  ultimately have ok': "rows_ok ?d" and eqs: "db_edges ?d = db_edges d" "db_workflows ?d = db_workflows d"
    "db_nextNode ?d = db_nextNode d" "same_rest d ?d" "pos_at ?d = pos_at d" using ok by (simp_all add: rows_ok_def)
  note mv = move_node [OF ok' m]
  show "rows_ok d'" "node_at d' = (node_at d)(node_num n := map_option (tn_config_update (\<lambda>c. json_config (the (dn_config n)))) (node_at d (node_num n)))"
    "pos_at d' = (pos_at d)(node_num n := map_option (\<lambda>q. the (dn_position n)) (pos_at d (node_num n)))"
    "db_edges d' = db_edges d" "db_workflows d' = db_workflows d" "db_nextNode d' = db_nextNode d" "same_rest d d'"
    using mv eqs n c same_rest_trans by auto
qed

lemma change_nodes:
  assumes "rows_ok d" and "tx_each tx_change_node ns d = Inr d'" and "distinct (map node_num ns)"
  shows "rows_ok d' \<and>
    node_at d' = (\<lambda>i. case map_of (map (\<lambda>n. (node_num n, the (dn_config n))) ns) i of None \<Rightarrow> node_at d i
      | Some c \<Rightarrow> map_option (tn_config_update (\<lambda>_. json_config c)) (node_at d i)) \<and>
    pos_at d' = (\<lambda>i. case map_of (map (\<lambda>n. (node_num n, the (dn_position n))) ns) i of None \<Rightarrow> pos_at d i | Some p \<Rightarrow> map_option (\<lambda>q. p) (pos_at d i)) \<and>
    db_edges d' = db_edges d \<and> db_workflows d' = db_workflows d \<and> db_nextNode d' = db_nextNode d \<and> same_rest d d'"
  using assms
proof (induction ns arbitrary: d)
  case (Cons n ns)
  obtain d1 where d1: "tx_change_node n d = Inr d1" "tx_each tx_change_node ns d1 = Inr d'" using Cons.prems(2) by auto
  note s = change_node [OF Cons.prems(1) d1(1)]
  note IH = Cons.IH [OF s(1) d1(2)]
  have dis: "distinct (map node_num ns)" using Cons.prems(3) by simp
  have out: "map_of (map (\<lambda>n. (node_num n, f n)) ns) (node_num n) = None" for f :: "node_dto \<Rightarrow> 'x"
    using Cons.prems(3) by (simp add: map_of_eq_None_iff image_image)
  have "node_at d' = (\<lambda>i. case map_of (map (\<lambda>n. (node_num n, the (dn_config n))) (n # ns)) i of None \<Rightarrow> node_at d i
      | Some c \<Rightarrow> map_option (tn_config_update (\<lambda>_. json_config c)) (node_at d i))"
    using conjunct1 [OF conjunct2 [OF IH [OF dis]]] out [of "\<lambda>n. the (dn_config n)"] unfolding s(2)
    by (auto simp: fun_eq_iff split: option.splits)
  moreover have "pos_at d' = (\<lambda>i. case map_of (map (\<lambda>n. (node_num n, the (dn_position n))) (n # ns)) i of None \<Rightarrow> pos_at d i
      | Some p \<Rightarrow> map_option (\<lambda>q. p) (pos_at d i))"
    using conjunct1 [OF conjunct2 [OF conjunct2 [OF IH [OF dis]]]] out [of "\<lambda>n. the (dn_position n)"] unfolding s(3)
    by (auto simp: fun_eq_iff split: option.splits)
  ultimately show ?case using IH [OF dis] s(4-7) same_rest_trans by auto
qed simp

lemma rows_ok_edges:
  assumes "rows_ok d" and "\<forall>e\<in>set es. te_source e \<in> node_ids d \<and> te_target e \<in> node_ids d"
  shows "rows_ok (d\<lparr>db_edges := es\<rparr>)"
  using assms by (simp add: rows_ok_def node_ids_def workflow_ids_def)

lemma delete_edges:
  assumes "rows_ok d" and "tx_each (tx_delete_edge w) ks d = Inr d'"
  shows "rows_ok d' \<and> node_at d' = node_at d \<and> pos_at d' = pos_at d \<and> db_nodes d' = db_nodes d \<and>
    set (db_edges d') = {e \<in> set (db_edges d). \<not> (te_workflow e = w \<and>
       (te_source e, te_target e) \<in> (\<lambda>k. (int32 (the (Atoi (fst k))), int32 (the (Atoi (snd k))))) ` set ks)} \<and>
    db_workflows d' = db_workflows d \<and> db_nextNode d' = db_nextNode d \<and> same_rest d d'"
  using assms
proof (induction ks arbitrary: d)
  case (Cons k ks)
  obtain d1 where d1: "tx_delete_edge w k d = Inr d1" "tx_each (tx_delete_edge w) ks d1 = Inr d'" using Cons.prems(2) by auto
  have e: "d1 = d\<lparr>db_edges := filter (\<lambda>e. \<not> (te_workflow e = w \<and> te_source e = int32 (the (Atoi (fst k))) \<and> te_target e = int32 (the (Atoi (snd k))))) (db_edges d)\<rparr>"
    using d1(1) by (auto simp: tx_delete_edge_def q_DeleteWorkflowEdge_def left_open_def split: option.splits)
  have ok1: "rows_ok d1" unfolding e using Cons.prems(1) by (intro rows_ok_edges) (auto simp: rows_ok_def)
  show ?case using Cons.IH [OF ok1 d1(2)] by (auto simp: e node_at_def pos_at_def same_rest_def)
qed simp

lemma add_edge_rows:
  assumes "rows_ok d" and "tx_each (tx_add_edge w ids) ks d = Inr d'"
  shows "rows_ok d' \<and> node_at d' = node_at d \<and> pos_at d' = pos_at d \<and> db_nodes d' = db_nodes d \<and>
    set (db_edges d') = set (db_edges d) \<union> (\<lambda>k. \<lparr>te_workflow = w, te_source = go_lookup ids (fst k), te_target = go_lookup ids (snd k)\<rparr>) ` set ks \<and>
    db_workflows d' = db_workflows d \<and> db_nextNode d' = db_nextNode d \<and> same_rest d d'"
  using assms
proof (induction ks arbitrary: d)
  case (Cons k ks)
  obtain d1 where d1: "tx_add_edge w ids k d = Inr d1" "tx_each (tx_add_edge w ids) ks d1 = Inr d'" using Cons.prems(2) by auto
  have e: "d1 = d\<lparr>db_edges := db_edges d @ [\<lparr>te_workflow = w, te_source = go_lookup ids (fst k), te_target = go_lookup ids (snd k)\<rparr>]\<rparr>"
    and n: "go_lookup ids (fst k) \<in> node_ids d" "go_lookup ids (snd k) \<in> node_ids d"
    using d1(1) by (auto simp: tx_add_edge_def q_CreateWorkflowEdge_def rolled_back_def Let_def split: if_splits)
  have ok1: "rows_ok d1" unfolding e using Cons.prems(1) n by (intro rows_ok_edges) (auto simp: rows_ok_def)
  show ?case using Cons.IH [OF ok1 d1(2)] by (auto simp: e node_at_def pos_at_def same_rest_def)
qed simp

section \<open>The scan of the submitted nodes\<close>

definition same_graph :: "server_db \<Rightarrow> server_db \<Rightarrow> bool" where
  "same_graph d d' \<longleftrightarrow> (\<exists>ss cs i j. d' = d\<lparr>db_schedules := ss, db_calendars := cs, db_nextSchedule := i, db_nextCalendar := j\<rparr>)"

lemma same_graph_refl [simp]: "same_graph d d"
  unfolding same_graph_def
  by (intro exI [of _ "db_schedules d"] exI [of _ "db_calendars d"] exI [of _ "db_nextSchedule d"] exI [of _ "db_nextCalendar d"]) simp

lemma same_graph_trans:
  assumes "same_graph d d'" and "same_graph d' d''"
  shows "same_graph d d''"
proof -
  obtain s1 c1 i1 j1 s2 c2 i2 j2 where "d' = d\<lparr>db_schedules := s1, db_calendars := c1, db_nextSchedule := i1, db_nextCalendar := j1\<rparr>"
    "d'' = d'\<lparr>db_schedules := s2, db_calendars := c2, db_nextSchedule := i2, db_nextCalendar := j2\<rparr>"
    using assms unfolding same_graph_def by blast
  then have "d'' = d\<lparr>db_schedules := s2, db_calendars := c2, db_nextSchedule := i2, db_nextCalendar := j2\<rparr>" by simp
  then show ?thesis unfolding same_graph_def by blast
qed

lemma same_graph_eqs:
  assumes "same_graph d d'"
  shows "rows_ok d' = rows_ok d" "node_at d' = node_at d" "pos_at d' = pos_at d" "db_edges d' = db_edges d" "db_nodes d' = db_nodes d"
    "db_workflows d' = db_workflows d" "db_nextNode d' = db_nextNode d" "db_nodeRuns d' = db_nodeRuns d" "edges_within d' = edges_within d"
    "db_open d' = db_open d" "db_ui d' = db_ui d" "db_runs d' = db_runs d" "db_nextWorkflow d' = db_nextWorkflow d"
proof -
  obtain ss cs i j where "d' = d\<lparr>db_schedules := ss, db_calendars := cs, db_nextSchedule := i, db_nextCalendar := j\<rparr>" using assms unfolding same_graph_def by blast
  then show "rows_ok d' = rows_ok d" "node_at d' = node_at d" "pos_at d' = pos_at d" "db_edges d' = db_edges d" "db_nodes d' = db_nodes d"
    "db_workflows d' = db_workflows d" "db_nextNode d' = db_nextNode d" "db_nodeRuns d' = db_nodeRuns d" "edges_within d' = edges_within d"
    "db_open d' = db_open d" "db_ui d' = db_ui d" "db_runs d' = db_runs d" "db_nextWorkflow d' = db_nextWorkflow d"
    by (simp_all add: rows_ok_def node_at_def pos_at_def node_ids_def workflow_ids_def edges_within_def)
qed

lemma trigger_tables:
  "same_graph d (d\<lparr>db_schedules := ss\<rparr>)" "same_graph d (d\<lparr>db_calendars := cs\<rparr>)"
  "same_graph d (d\<lparr>db_schedules := ss, db_nextSchedule := i\<rparr>)" "same_graph d (d\<lparr>db_calendars := cs, db_nextCalendar := j\<rparr>)"
proof -
  have *: "same_graph d (d\<lparr>db_schedules := a, db_calendars := b, db_nextSchedule := i, db_nextCalendar := j\<rparr>)" for a b i j
    unfolding same_graph_def by blast
  show "same_graph d (d\<lparr>db_schedules := ss\<rparr>)" using * [where a = ss and b = "db_calendars d" and i = "db_nextSchedule d" and j = "db_nextCalendar d"] by simp
  show "same_graph d (d\<lparr>db_calendars := cs\<rparr>)" using * [where a = "db_schedules d" and b = cs and i = "db_nextSchedule d" and j = "db_nextCalendar d"] by simp
  show "same_graph d (d\<lparr>db_schedules := ss, db_nextSchedule := i\<rparr>)" using * [where a = ss and b = "db_calendars d" and i = i and j = "db_nextCalendar d"] by simp
  show "same_graph d (d\<lparr>db_calendars := cs, db_nextCalendar := j\<rparr>)" using * [where a = "db_schedules d" and b = cs and i = "db_nextSchedule d" and j = j] by simp
qed

lemma registry_Update_graph: "same_graph d (snd (registry_Update ev ty c d))"
  by (auto simp: registry_Update_def schedule_Update_def calendar_Update_def UpdateWorkflowSchedule_def scheduleRepo_UpdateWorkflowSchedule_def
      q_UpdateWorkflowSchedule_def q_UpdateWorkflowCalendar_def db_result_def Let_def trigger_tables split: sum.splits option.splits)

lemma registry_Execute_graph: "same_graph d (snd (registry_Execute ev ty c d))"
  by (auto simp: registry_Execute_def schedule_Execute_def calendar_Execute_def ScheduleWorkflow_def scheduleRepo_Create_def
      q_CreateWorkflowSchedule_def q_CreateWorkflowCalendar_def db_result_def Let_def trigger_tables split: sum.splits option.splits)

definition with_owner :: "string \<Rightarrow> int \<Rightarrow> go_config \<Rightarrow> go_config" where
  "with_owner userID w c = fmupd ''workflow_id'' (GInt32 w) (fmupd ''user_id'' (GStr userID) c)"

definition config_changed :: "(string \<rightharpoonup> node_dto) \<Rightarrow> node_dto \<Rightarrow> bool" where
  "config_changed ex n \<longleftrightarrow> dn_config (the (ex (dn_id n))) \<noteq> dn_config n"

definition moved :: "(string \<rightharpoonup> node_dto) \<Rightarrow> node_dto \<Rightarrow> bool" where
  "moved ex n \<longleftrightarrow> dn_position (the (ex (dn_id n))) \<noteq> dn_position n"

definition scanned :: "string \<Rightarrow> int \<Rightarrow> (string \<rightharpoonup> node_dto) \<Rightarrow> node_dto \<Rightarrow> node_dto" where
  "scanned userID w ex n =
     (if config_changed ex n then n\<lparr>dn_config := Some (with_owner userID w (case dn_config n of None \<Rightarrow> fmempty | Some c \<Rightarrow> c))\<rparr> else n)"

lemma scanned_simps [simp]:
  "dn_id (scanned userID w ex n) = dn_id n" "dn_position (scanned userID w ex n) = dn_position n"
  "node_num (scanned userID w ex n) = node_num n"
  by (simp_all add: scanned_def node_num_def)

text \<open>The plan that the scan makes for one node.\<close>

definition planned :: "server_env \<Rightarrow> string \<Rightarrow> int \<Rightarrow> (string \<rightharpoonup> node_dto) \<Rightarrow> node_dto list \<Rightarrow> workflow_delta \<Rightarrow> workflow_delta" where
  "planned ev userID w ex ns dl =
     dl\<lparr>dl_create := dl_create dl @ filter (\<lambda>n. ev_uuid ev (dn_id n)) ns,
       dl_update := dl_update dl @ map (scanned userID w ex) (filter (\<lambda>n. \<not> ev_uuid ev (dn_id n) \<and> config_changed ex n) ns),
       dl_updateUI := dl_updateUI dl @ map (scanned userID w ex) (filter (\<lambda>n. \<not> ev_uuid ev (dn_id n) \<and> moved ex n) ns)\<rparr>"

definition kept_node :: "(string \<rightharpoonup> node_dto) \<Rightarrow> node_dto \<Rightarrow> bool" where
  "kept_node ex n \<longleftrightarrow> (\<exists>old. ex (dn_id n) = Some old \<and> dn_category old = dn_category n \<and> dn_type old = dn_type n \<and>
     dn_position old \<noteq> None \<and> dn_position n \<noteq> None)"

lemma scan_node_ok:
  assumes "scan_node ev userID w ex n s = (None, s')"
  shows "un_delta s' = planned ev userID w ex [n] (un_delta s) \<and> un_ids s' = un_ids s @ (if ev_uuid ev (dn_id n) then [] else [dn_id n]) \<and>
    same_graph (un_db s) (un_db s') \<and> (\<not> ev_uuid ev (dn_id n) \<longrightarrow> kept_node ex n)"
proof (cases "ev_uuid ev (dn_id n)")
  case False
  obtain old where old: "ex (dn_id n) = Some old" "dn_category old = dn_category n" "dn_type old = dn_type n"
    using assms False by (auto simp: scan_node_def Let_def split: option.splits if_splits)
  let ?r = "if config_changed ex n \<and> dn_category n = ''trigger''
    then registry_Update ev (dn_type n) (with_owner userID w (case dn_config n of None \<Rightarrow> fmempty | Some c \<Rightarrow> c)) (un_db s) else (None, un_db s)"
  have g: "same_graph (un_db s) (snd ?r)" using registry_Update_graph by auto
  have r: "fst ?r = None" using assms False old
    by (auto simp: scan_node_def Let_def config_changed_def with_owner_def split: option.splits if_splits)
  obtain p q where pq: "dn_position old = Some p" "dn_position n = Some q" using assms False old r
    by (auto simp: scan_node_def Let_def config_changed_def with_owner_def split: option.splits if_splits)
  show ?thesis using assms False old r pq g
    by (auto simp: scan_node_def Let_def config_changed_def with_owner_def planned_def scanned_def moved_def kept_node_def split: if_splits)
qed (use assms in \<open>auto simp: scan_node_def planned_def\<close>)

lemma planned_append: "planned ev userID w ex (ms @ ns) dl = planned ev userID w ex ns (planned ev userID w ex ms dl)"
  by (simp add: planned_def)

lemma scan_nodes_ok:
  assumes "scan_nodes ev userID w ex ns s = (None, s')"
  shows "un_delta s' = planned ev userID w ex ns (un_delta s) \<and> un_ids s' = un_ids s @ filter (\<lambda>i. \<not> ev_uuid ev i) (map dn_id ns) \<and>
    same_graph (un_db s) (un_db s') \<and> (\<forall>n\<in>set ns. \<not> ev_uuid ev (dn_id n) \<longrightarrow> kept_node ex n)"
  using assms
proof (induction ns arbitrary: s)
  case (Cons n ns)
  obtain s1 where s1: "scan_node ev userID w ex n s = (None, s1)" "scan_nodes ev userID w ex ns s1 = (None, s')"
    using Cons.prems by (auto split: prod.splits option.splits)
  show ?case using scan_node_ok [OF s1(1)] Cons.IH [OF s1(2)] planned_append [of ev userID w ex "[n]" ns] same_graph_trans by auto
qed (simp add: planned_def)

end
