(* ===== verification/Store_Laws.thy ===== *)
theory Store_Laws
  imports Store_Maps
begin

text \<open>
  What an update of a workflow means: the workflow that is rendered afterwards is the one that was submitted. The identifiers of new nodes are replaced by the numbers
  of their rows, and a configuration that was changed gets the user and the workflow. From this follow the invariant of the store and what its operations do on
  their error paths.
\<close>

section \<open>Numbers as identifiers\<close>

definition uuid_doc :: "server_env \<Rightarrow> bool" where
  "uuid_doc ev \<longleftrightarrow> (\<forall>s. ev_uuid ev s \<longrightarrow> length s \<in> {32, 36, 38, 45})"

definition order_doc :: "server_env \<Rightarrow> bool" where
  "order_doc ev \<longleftrightarrow> (\<forall>xs. mset (ev_nodeOrder ev xs) = mset xs) \<and> (\<forall>xs. mset (ev_edgeOrder ev xs) = mset xs)"

lemma show_int_eq [simp]: "show_int a = show_int b \<longleftrightarrow> a = b"
  by (metis option.inject read_show_int)

lemma length_js_of_nat: "n < 10 ^ k \<Longrightarrow> 0 < k \<Longrightarrow> length (js_of_nat n) \<le> k"
proof (induction k arbitrary: n)
  case (Suc k)
  show ?case
  proof (cases "n < 10")
    case False
    then have "0 < k" using Suc.prems by (cases k) auto
    then have "length (js_of_nat (n div 10)) \<le> k" using Suc.IH [of "n div 10"] Suc.prems by auto
    then show ?thesis using False by (subst js_of_nat.simps) simp
  qed (subst js_of_nat.simps, simp)
qed simp

definition row_number :: "int \<Rightarrow> bool" where
  "row_number i \<longleftrightarrow> 0 < i \<and> i \<le> serial_max"

lemma length_row_number: "row_number i \<Longrightarrow> length (show_int i) \<le> 10"
proof -
  assume "row_number i"
  then have "nat i < 10 ^ 10" "show_int i = js_of_nat (nat i)" by (simp_all add: row_number_def serial_max_def nat_less_iff show_int_def)
  then show ?thesis using length_js_of_nat [of "nat i" 10] by simp
qed

lemma row_number_no_uuid: "uuid_doc ev \<Longrightarrow> row_number i \<Longrightarrow> \<not> ev_uuid ev (show_int i)"
  using length_row_number [of i] by (auto simp: uuid_doc_def)

lemma digit_not_plus: "d < 10 \<Longrightarrow> digit_char d \<noteq> CHR ''+''"
  by (auto simp: digit_char_def dest!: arg_cong [of _ _ "of_char :: char \<Rightarrow> nat"])

lemma Atoi_show [simp]:
  assumes "row_number i"
  shows "Atoi (show_int i) = Some i" "int32 i = i"
proof -
  have "show_int i \<noteq> []" by (simp add: show_int_def)
  then obtain c r where c: "show_int i = c # r" by (cases "show_int i") auto
  then have "c \<in> set (js_of_nat (nat \<bar>i\<bar>))" using assms by (auto simp: show_int_def row_number_def)
  then have "c \<noteq> CHR ''+''" using js_of_nat_digits digit_not_plus by metis
  moreover have "read_int (c # r) = Some i" using read_show_int [of i] c by simp
  ultimately show "Atoi (show_int i) = Some i" using assms by (simp add: Atoi_def c row_number_def serial_max_def)
  show "int32 i = i" using assms by (simp add: int32_def row_number_def serial_max_def)
qed

lemma node_ids_numbers: "rows_ok d \<Longrightarrow> i \<in> node_ids d \<Longrightarrow> row_number i"
  unfolding rows_ok_def row_number_def by fastforce

section \<open>The workflow before the update\<close>

definition ids_of :: "int \<Rightarrow> server_db \<Rightarrow> int set" where
  "ids_of w d = tn_id ` set (nodes_of w d)"

lemma ids_of_node_at: "rows_ok d \<Longrightarrow> i \<in> ids_of w d \<longleftrightarrow> (\<exists>n. node_at d i = Some n \<and> tn_workflow n = w)"
  by (auto simp: ids_of_def nodes_of_def rows_ok_def node_at_Some)

lemma ids_of_subset: "ids_of w d \<subseteq> node_ids d"
  by (auto simp: ids_of_def nodes_of_def node_ids_def)

definition node_of :: "server_db \<Rightarrow> int \<Rightarrow> node_dto" where
  "node_of d i = rendered_node (the (node_at d i)) (ui_of d i)"

lemma node_of_id: "node_at d i = Some n \<Longrightarrow> dn_id (node_of d i) = show_int i"
  by (simp add: node_of_def rendered_node_def node_at_id)

lemma rendered:
  assumes ok: "rows_ok d" and ord: "order_doc ev" and g: "workflowRepo_RenderWorkflowGraph ev w d = Inr g"
  obtains r ks where "r \<in> set (db_workflows d)" "tw_id r = w" "gd_name g = tw_name r" "gd_description g = tw_description r"
    "distinct ks" "set ks = ids_of w d" "gd_nodes g = map (node_of d) ks" "ids_of w d \<noteq> {}"
    "edge_key ` set (gd_edges g) = {(show_int (te_source e), show_int (te_target e)) | e. e \<in> set (db_edges d) \<and> te_workflow e = w \<and> te_source e \<in> ids_of w d}"
proof -
  have rows: "q_RenderWorkflowGraph w d \<noteq> []" using g by (auto simp: workflowRepo_RenderWorkflowGraph_def Let_def split: if_splits)
  then obtain r where r: "r \<in> set (db_workflows d)" "tw_id r = w" by (auto simp: q_RenderWorkflowGraph_def filter_empty_conv)
  have ne: "nodes_of (tw_id r) d \<noteq> []" using rows unfolding r(2) [symmetric] render_rows [OF ok r(1)] by auto
  let ?is = "ev_nodeOrder ev (map tn_id (nodes_of w d))"
  have perm: "mset ?is = mset (map tn_id (nodes_of w d))" using ord by (simp add: order_doc_def)
  have res: "g = \<lparr>gd_id = w, gd_name = tw_name r, gd_description = tw_description r, gd_nodes = map (node_of d) ?is,
     gd_edges = concat (map (\<lambda>n. map rendered_edge (outgoing w (tn_id n) d)) (nodes_of w d))\<rparr>"
    using render_result [OF ok r(1) ne, of ev] perm g unfolding r(2) node_of_def [symmetric] by simp
  have dis: "distinct (map tn_id (nodes_of w d))" using ok by (simp add: nodes_of_def rows_ok_def distinct_map_filter_key)
  have "distinct ?is" using perm dis by (metis distinct_count_atmost_1 mset_eq_imp_distinct_iff)
  moreover have "set ?is = ids_of w d" unfolding ids_of_def using perm by (metis set_map set_mset_mset)
  moreover have "ids_of w d \<noteq> {}" using ne r(2) by (auto simp: ids_of_def)
  moreover have "edge_key ` set (gd_edges g) =
      {(show_int (te_source e), show_int (te_target e)) | e. e \<in> set (db_edges d) \<and> te_workflow e = w \<and> te_source e \<in> ids_of w d}"
    by (force simp: res edge_key_def rendered_edge_def outgoing_def ids_of_def image_iff)
  ultimately show ?thesis using that [OF r, of ?is] by (simp add: res)
qed

lemma map_of_rev_distinct: "distinct (map fst xs) \<Longrightarrow> map_of (rev xs) = map_of xs"
proof (induction xs)
  case (Cons x xs)
  then have "map_of xs (fst x) = None" by (simp add: map_of_eq_None_iff)
  then show ?case using Cons by (simp add: single_map_add)
qed simp

lemma existing_lookup:
  assumes ok: "rows_ok d" and "distinct ks" and "set ks = ids_of w d"
  shows "existing_map (map (node_of d) ks) x = (if \<exists>i\<in>ids_of w d. x = show_int i then Some (node_of d (THE i. x = show_int i)) else None)"
proof -
  have id: "dn_id (node_of d i) = show_int i" if "i \<in> set ks" for i
    using that ids_of_node_at [OF ok] assms(3) node_of_id by blast
  have keys: "map (\<lambda>n. (dn_id n, n)) (map (node_of d) ks) = map (\<lambda>i. (show_int i, node_of d i)) ks"
    using id by simp
  have dis: "distinct (map fst (map (\<lambda>i. (show_int i, node_of d i)) ks))"
    using assms(2) by (simp add: o_def distinct_map inj_on_def)
  have m: "existing_map (map (node_of d) ks) = map_of (map (\<lambda>i. (show_int i, node_of d i)) ks)"
    unfolding existing_map_def keys using map_of_rev_distinct [OF dis] .
  show ?thesis
  proof (cases "\<exists>i\<in>ids_of w d. x = show_int i")
    case True
    then obtain i where i: "i \<in> set ks" "x = show_int i" using assms(3) by blast
    then have "map_of (map (\<lambda>i. (show_int i, node_of d i)) ks) x = Some (node_of d i)"
      by (subst map_of_eq_Some_iff [OF dis]) auto
    then show ?thesis using True i by (simp add: m)
  next
    case False
    then show ?thesis unfolding m using assms(3) by (auto simp: map_of_eq_None_iff)
  qed
qed

lemma existing_Some:
  assumes "rows_ok d" and "distinct ks" and "set ks = ids_of w d"
  shows "existing_map (map (node_of d) ks) x = Some old \<longleftrightarrow> (\<exists>i\<in>ids_of w d. x = show_int i \<and> old = node_of d i)"
  unfolding existing_lookup [OF assms] by auto

lemma deletions:
  assumes "ids_to_delete present (map (node_of d) ks) = Some del" and "\<forall>i\<in>set ks. row_number i \<and> dn_id (node_of d i) = show_int i"
  shows "set del = {i \<in> set ks. show_int i \<notin> set present}"
  using assms by (induction ks arbitrary: del) (auto split: if_splits)

lemma known_ids:
  assumes "\<forall>i\<in>set ks. row_number i \<and> dn_id (node_of d i) = show_int i"
  shows "\<exists>m'. existing_ids (map (node_of d) ks) m = Some m' \<and>
    map_of m' = (\<lambda>x. if x \<in> show_int ` set ks then map_option int32 (Atoi x) else map_of m x)"
  using assms
proof (induction ks arbitrary: m)
  case (Cons i ks)
  obtain m' where "existing_ids (map (node_of d) ks) (js_set (show_int i) i m) = Some m'"
    "map_of m' = (\<lambda>x. if x \<in> show_int ` set ks then map_option int32 (Atoi x) else map_of (js_set (show_int i) i m) x)"
    using Cons.IH Cons.prems by force
  then show ?case using Cons.prems by (intro exI [of _ m']) (auto simp: fun_eq_iff)
qed (auto simp: fun_eq_iff)

section \<open>The transaction as a whole\<close>

lemma metadata_ok:
  "rows_ok (q_UpdateWorkflow w a b d) = rows_ok d" "node_at (q_UpdateWorkflow w a b d) = node_at d" "pos_at (q_UpdateWorkflow w a b d) = pos_at d"
  "db_edges (q_UpdateWorkflow w a b d) = db_edges d" "db_nextNode (q_UpdateWorkflow w a b d) = db_nextNode d" "same_rest d (q_UpdateWorkflow w a b d)"
proof -
  have "tw_id \<circ> (\<lambda>r. if tw_id r = w then r\<lparr>tw_name := a, tw_description := b\<rparr> else r) = tw_id" by (auto simp: fun_eq_iff)
  then have ids: "map tw_id (db_workflows (q_UpdateWorkflow w a b d)) = map tw_id (db_workflows d)" by (simp add: q_UpdateWorkflow_def)
  then have "workflow_ids (q_UpdateWorkflow w a b d) = workflow_ids d" unfolding workflow_ids_def by (metis set_map)
  then show "rows_ok (q_UpdateWorkflow w a b d) = rows_ok d" unfolding rows_ok_def ids by (simp add: q_UpdateWorkflow_def node_ids_def)
  show "same_rest d (q_UpdateWorkflow w a b d)" unfolding same_rest_def ids by (simp add: q_UpdateWorkflow_def)
qed (simp_all add: q_UpdateWorkflow_def node_at_def pos_at_def)

lemma tx_update_effect:
  assumes ok: "rows_ok d" and tx: "tx_update w dl ex d = Inr d'" and known: "existing_ids ex [] = Some ids0"
    and dis: "distinct (map node_num (dl_update dl))" "distinct (map node_num (dl_updateUI dl))"
  defines "base \<equiv> node_at d |` (- set (dl_delete dl)) ++ map_of (map (\<lambda>(i, n). (i, new_row w i n)) (numbered (db_nextNode d) (dl_create dl)))"
    and "pbase \<equiv> pos_at d |` (- set (dl_delete dl)) ++ map_of (map (\<lambda>(i, n). (i, the (dn_position n))) (numbered (db_nextNode d) (dl_create dl)))"
    and "ids \<equiv> map_of ids0 ++ map_of (rev (map (\<lambda>(i, n). (dn_id n, i)) (numbered (db_nextNode d) (dl_create dl))))"
  shows "rows_ok d'" "same_rest d d'"
    "db_workflows d' = db_workflows (if dl_updateMetadata dl then q_UpdateWorkflow w (dl_name dl) (dl_description dl) d else d)"
    "node_at d' i = (case map_of (map (\<lambda>n. (node_num n, the (dn_config n))) (dl_update dl)) i of None \<Rightarrow> base i
       | Some c \<Rightarrow> map_option (tn_config_update (\<lambda>_. json_config c)) (base i))"
    "pos_at d' i = (case map_of (map (\<lambda>n. (node_num n, the (dn_position n))) (dl_updateUI dl)) i of
         None \<Rightarrow> (case map_of (map (\<lambda>n. (node_num n, the (dn_position n))) (dl_update dl)) i of None \<Rightarrow> pbase i | Some p \<Rightarrow> map_option (\<lambda>q. p) (pbase i))
       | Some p \<Rightarrow> map_option (\<lambda>q. p) (pbase i))"
    "set (db_edges d') = {e \<in> set (db_edges d). te_source e \<notin> set (dl_delete dl) \<and> te_target e \<notin> set (dl_delete dl) \<and> \<not> (te_workflow e = w \<and>
         (te_source e, te_target e) \<in> (\<lambda>k. (int32 (the (Atoi (fst k))), int32 (the (Atoi (snd k))))) ` set (dl_deleteEdges dl))} \<union>
       (\<lambda>k. \<lparr>te_workflow = w, te_source = (case ids (fst k) of None \<Rightarrow> 0 | Some i \<Rightarrow> i), te_target = (case ids (snd k) of None \<Rightarrow> 0 | Some i \<Rightarrow> i)\<rparr>) ` set (dl_addEdges dl)"
    "\<forall>n\<in>set (dl_create dl). dn_config n \<noteq> None \<and> dn_position n \<noteq> None"
proof -
  let ?d0 = "if dl_updateMetadata dl then q_UpdateWorkflow w (dl_name dl) (dl_description dl) d else d"
  have m: "rows_ok ?d0" "node_at ?d0 = node_at d" "pos_at ?d0 = pos_at d" "db_edges ?d0 = db_edges d" "db_nextNode ?d0 = db_nextNode d" "same_rest d ?d0"
    using ok by (simp_all add: metadata_ok)
  obtain d1 d2 ids' d3 d4 d5 where steps: "tx_each tx_delete_node (dl_delete dl) ?d0 = Inr d1" "tx_each (tx_add_node w) (dl_create dl) (d1, ids0) = Inr (d2, ids')"
    "tx_each tx_change_node (dl_update dl) d2 = Inr d3" "tx_each tx_move_node (dl_updateUI dl) d3 = Inr d4"
    "tx_each (tx_delete_edge w) (dl_deleteEdges dl) d4 = Inr d5" "tx_each (tx_add_edge w ids') (dl_addEdges dl) d5 = Inr d'"
    using tx known by (auto simp: tx_update_def simp del: tx_each.simps)
  note s1 = delete_nodes [OF m(1) steps(1)]
  note s2 = add_nodes [OF conjunct1 [OF s1] steps(2)]
  note s3 = change_nodes [OF conjunct1 [OF s2] steps(3) dis(1)]
  note s4 = move_nodes [OF conjunct1 [OF s3] steps(4) dis(2)]
  note s5 = delete_edges [OF conjunct1 [OF s4] steps(5)]
  note s6 = add_edge_rows [OF conjunct1 [OF s5] steps(6)]
  have nx: "db_nextNode d1 = db_nextNode d" using s1 m(5) by simp
  have nb: "node_at d2 = base" using s1 s2 m(2) unfolding base_def nx by simp
  have pb: "pos_at d2 = pbase" using s1 s2 m(3) unfolding pbase_def nx by simp
  have ib: "map_of ids' = ids" using s2 unfolding ids_def nx by blast
  show "rows_ok d'" using s6 by blast
  show "same_rest d d'" using m(6) s1 s2 s3 s4 s5 s6 same_rest_trans by meson
  show "db_workflows d' = db_workflows ?d0" using s1 s2 s3 s4 s5 s6 by simp
  have "node_at d' = node_at d3" using s4 s5 s6 by simp
  then show "node_at d' i = (case map_of (map (\<lambda>n. (node_num n, the (dn_config n))) (dl_update dl)) i of None \<Rightarrow> base i
       | Some c \<Rightarrow> map_option (tn_config_update (\<lambda>_. json_config c)) (base i))" using s3 unfolding nb by metis
  have p4: "pos_at d' = pos_at d4" using s5 s6 by simp
  show "pos_at d' i = (case map_of (map (\<lambda>n. (node_num n, the (dn_position n))) (dl_updateUI dl)) i of
         None \<Rightarrow> (case map_of (map (\<lambda>n. (node_num n, the (dn_position n))) (dl_update dl)) i of None \<Rightarrow> pbase i | Some p \<Rightarrow> map_option (\<lambda>q. p) (pbase i))
       | Some p \<Rightarrow> map_option (\<lambda>q. p) (pbase i))"
    unfolding p4 conjunct1 [OF conjunct2 [OF conjunct2 [OF s4]]] conjunct1 [OF conjunct2 [OF conjunct2 [OF s3]]] pb
    by (auto split: option.splits simp: option.map_comp o_def)
  have e4: "set (db_edges d4) = {e \<in> set (db_edges d). te_source e \<notin> set (dl_delete dl) \<and> te_target e \<notin> set (dl_delete dl)}"
    using s1 s2 s3 s4 m(4) by simp
  have look: "go_lookup ids' x = (case ids x of None \<Rightarrow> 0 | Some i \<Rightarrow> i)" for x by (simp add: go_lookup_def ib)
  show "set (db_edges d') = {e \<in> set (db_edges d). te_source e \<notin> set (dl_delete dl) \<and> te_target e \<notin> set (dl_delete dl) \<and> \<not> (te_workflow e = w \<and>
         (te_source e, te_target e) \<in> (\<lambda>k. (int32 (the (Atoi (fst k))), int32 (the (Atoi (snd k))))) ` set (dl_deleteEdges dl))} \<union>
       (\<lambda>k. \<lparr>te_workflow = w, te_source = (case ids (fst k) of None \<Rightarrow> 0 | Some i \<Rightarrow> i), te_target = (case ids (snd k) of None \<Rightarrow> 0 | Some i \<Rightarrow> i)\<rparr>) ` set (dl_addEdges dl)"
    using s5 s6 e4 unfolding look by auto
  show "\<forall>n\<in>set (dl_create dl). dn_config n \<noteq> None \<and> dn_position n \<noteq> None" using s2 by blast
qed

lemma tx_update_nothing:
  "delta_empty dl \<Longrightarrow> existing_ids ex [] \<noteq> None \<Longrightarrow> tx_update w dl ex d = Inr d"
  by (auto simp: tx_update_def delta_empty_def)

section \<open>The update as a whole\<close>

definition plan_of ::
  "server_env \<Rightarrow> string \<Rightarrow> int \<Rightarrow> string \<Rightarrow> string \<Rightarrow> graph_dto \<Rightarrow> node_dto list \<Rightarrow> edge_dto list \<Rightarrow> int list \<Rightarrow> workflow_delta" where
  "plan_of ev userID w name description g nodes edges del =
     (planned ev userID w (existing_map (gd_nodes g)) nodes
        \<lparr>dl_name = name, dl_description = description, dl_updateMetadata = (gd_name g \<noteq> name \<or> gd_description g \<noteq> description),
         dl_create = [], dl_update = [], dl_updateUI = [], dl_delete = [], dl_addEdges = [], dl_deleteEdges = []\<rparr>)
     \<lparr>dl_delete := del, dl_addEdges := edges_to_add (gd_edges g) edges, dl_deleteEdges := edges_to_delete ev (gd_edges g) edges\<rparr>"

text \<open>A successful update has passed every test, and has run the transaction for its plan; a plan without changes is a transaction that changes nothing.\<close>

lemma update_success:
  assumes ok: "rows_ok d" and ord: "order_doc ev" and upd: "WorkflowService_UpdateWorkflow ev userID w name description nodes edges d = (None, d')"
  obtains g d0 del where "check_graph ev nodes edges = None" "validate_nodes ev nodes = None" "workflowRepo_RenderWorkflowGraph ev w d = Inr g"
    "same_graph d d0" "\<forall>n\<in>set nodes. \<not> ev_uuid ev (dn_id n) \<longrightarrow> kept_node (existing_map (gd_nodes g)) n"
    "ids_to_delete (filter (\<lambda>i. \<not> ev_uuid ev i) (map dn_id nodes)) (gd_nodes g) = Some del"
    "tx_update w (plan_of ev userID w name description g nodes edges del) (gd_nodes g) d0 = Inr d'"
proof -
  have c: "check_graph ev nodes edges = None" "validate_nodes ev nodes = None"
    using upd by (auto simp: WorkflowService_UpdateWorkflow_def split: option.splits)
  obtain g where g: "workflowRepo_RenderWorkflowGraph ev w d = Inr g"
    using upd c by (auto simp: WorkflowService_UpdateWorkflow_def split: sum.splits)
  let ?dl0 = "\<lparr>dl_name = name, dl_description = description, dl_updateMetadata = (gd_name g \<noteq> name \<or> gd_description g \<noteq> description),
     dl_create = [], dl_update = [], dl_updateUI = [], dl_delete = [], dl_addEdges = [], dl_deleteEdges = []\<rparr>"
  let ?scan = "scan_nodes ev userID w (existing_map (gd_nodes g)) nodes \<lparr>un_delta = ?dl0, un_ids = [], un_db = d\<rparr>"
  obtain s where s: "?scan = (None, s)"
    using upd c g by (cases ?scan; cases "fst ?scan") (auto simp: WorkflowService_UpdateWorkflow_def Let_def)
  note sc = scan_nodes_ok [OF s]
  obtain del where del: "ids_to_delete (un_ids s) (gd_nodes g) = Some del"
    using upd c g s by (auto simp: WorkflowService_UpdateWorkflow_def Let_def split: option.splits)
  let ?dl = "plan_of ev userID w name description g nodes edges del"
  have dl: "(un_delta s)\<lparr>dl_delete := del, dl_addEdges := edges_to_add (gd_edges g) edges, dl_deleteEdges := edges_to_delete ev (gd_edges g) edges\<rparr> = ?dl"
    using sc by (simp add: plan_of_def)
  have res: "(if delta_empty ?dl then (None, un_db s) else workflowRepo_UpdateWorkflow w ?dl (gd_nodes g) (un_db s)) = (None, d')"
    using upd c g s del dl by (simp add: WorkflowService_UpdateWorkflow_def Let_def)
  obtain r ks where r: "distinct ks" "set ks = ids_of w d" "gd_nodes g = map (node_of d) ks" using rendered [OF ok ord g] by metis
  have "\<forall>i\<in>set ks. row_number i \<and> dn_id (node_of d i) = show_int i"
    using r(2) node_ids_numbers [OF ok] ids_of_subset ids_of_node_at [OF ok] node_of_id by blast
  then have "existing_ids (gd_nodes g) [] \<noteq> None" using known_ids [of ks d "[]"] r(3) by auto
  then have "tx_update w ?dl (gd_nodes g) (un_db s) = Inr d'"
    using res tx_update_nothing by (auto simp: workflowRepo_UpdateWorkflow_def split: if_splits sum.splits)
  moreover have "ids_to_delete (filter (\<lambda>i. \<not> ev_uuid ev i) (map dn_id nodes)) (gd_nodes g) = Some del" using sc del by simp
  ultimately show ?thesis using sc by (intro that [OF c g, of "un_db s" del]) simp_all
qed

definition submitted :: "node_dto list \<Rightarrow> bool" where
  "submitted nodes \<longleftrightarrow> distinct (map dn_id nodes) \<and> (\<forall>n\<in>set nodes. \<forall>c\<in>set_option (dn_config n). json_config c = c)"

text \<open>The edges of an accepted graph join its nodes.\<close>

lemma checked_edges:
  assumes "check_graph ev nodes edges = None"
  shows "\<forall>e\<in>set edges. de_source e \<in> dn_id ` set nodes \<and> de_target e \<in> dn_id ` set nodes"
proof -
  let ?n = "fst (prepForValidate nodes edges)" and ?e = "snd (prepForValidate nodes edges)"
  have v: "ValidateWorkflowGraph (ev_topsort ev) (ev_visit ev) ?n ?e = None" using assms by (simp add: check_graph_def split_def)
  obtain m where m: "index_nodes 0 ?n Map.empty = Inr m" using v by (auto simp: ValidateWorkflowGraph_def split: sum.splits)
  obtain g where g: "Graph_Check.add_edges m ?e {} = Inr g" using v m by (auto simp: ValidateWorkflowGraph_def split: sum.splits)
  have "\<forall>e\<in>set ?e. ve_source e \<in> vn_id ` set ?n \<and> ve_target e \<in> vn_id ` set ?n" using built_graph(6) [OF m g] .
  then show ?thesis by (auto simp: prepForValidate_def)
qed

lemma map_of_keyed:
  "distinct (map h xs) \<Longrightarrow> x \<in> set xs \<Longrightarrow> map_of (map (\<lambda>n. (h n, v n)) xs) (h x) = Some (v x)"
  by (subst map_of_eq_Some_iff) (auto simp: o_def)

lemma map_of_keyed_None: "i \<notin> h ` set xs \<Longrightarrow> map_of (map (\<lambda>n. (h n, v n)) xs) i = None"
  by (simp add: map_of_eq_None_iff image_image)

lemma numbered_lookup:
  assumes "(i, n) \<in> set (numbered k ns)"
  shows "map_of (map (\<lambda>(i, n). (i, f i n)) (numbered k ns)) i = Some (f i n)"
  using assms numbered_distinct [of k ns] by (subst map_of_eq_Some_iff) (auto simp: o_def split_def image_iff intro!: bexI [of _ "(i, n)"])

lemma numbered_below: "i < k \<Longrightarrow> map_of (map (\<lambda>(i, n). (i, f i n)) (numbered k ns)) i = None"
  by (auto simp: map_of_eq_None_iff dest: numbered_ids)

lemma numbered_key:
  assumes "distinct (map dn_id ns)" and "n \<in> set ns"
  obtains i where "(i, n) \<in> set (numbered k ns)" "map_of (rev (map (\<lambda>(i, n). (dn_id n, i)) (numbered k ns))) (dn_id n) = Some i"
proof -
  obtain i where i: "(i, n) \<in> set (numbered k ns)" using assms(2) numbered_snd [of k ns] by (metis (no_types, lifting) imageE prod.collapse set_map)
  have "map fst (map (\<lambda>(i, n). (dn_id n, i)) (numbered k ns)) = map dn_id ns"
    by (subst (2) numbered_snd [of k ns, symmetric]) (simp add: split_def o_def)
  then have dis: "distinct (map fst (map (\<lambda>(i, n). (dn_id n, i)) (numbered k ns)))" using assms(1) by simp
  have "map_of (map (\<lambda>(i, n). (dn_id n, i)) (numbered k ns)) (dn_id n) = Some i"
    by (subst map_of_eq_Some_iff [OF dis]) (use i in force)
  then show ?thesis using that [OF i] map_of_rev_distinct [OF dis] by simp
qed

definition stored_config :: "server_env \<Rightarrow> string \<Rightarrow> int \<Rightarrow> graph_dto \<Rightarrow> node_dto \<Rightarrow> go_config" where
  "stored_config ev userID w g n =
     (if \<not> ev_uuid ev (dn_id n) \<and> config_changed (existing_map (gd_nodes g)) n then json_config (with_owner userID w (the (dn_config n)))
      else the (dn_config n))"

lemma valid_config: "validate_nodes ev ns = None \<Longrightarrow> n \<in> set ns \<Longrightarrow> dn_config n \<noteq> None"
  by (induction ns) (auto simp: validateNode_def split: option.splits if_splits)

lemma planned_lists:
  "dl_create (plan_of ev u w a b g nodes edges del) = filter (\<lambda>n. ev_uuid ev (dn_id n)) nodes"
  "dl_update (plan_of ev u w a b g nodes edges del) =
     map (scanned u w (existing_map (gd_nodes g))) (filter (\<lambda>n. \<not> ev_uuid ev (dn_id n) \<and> config_changed (existing_map (gd_nodes g)) n) nodes)"
  "dl_updateUI (plan_of ev u w a b g nodes edges del) =
     map (scanned u w (existing_map (gd_nodes g))) (filter (\<lambda>n. \<not> ev_uuid ev (dn_id n) \<and> moved (existing_map (gd_nodes g)) n) nodes)"
  "dl_delete (plan_of ev u w a b g nodes edges del) = del"
  "dl_addEdges (plan_of ev u w a b g nodes edges del) = edges_to_add (gd_edges g) edges"
  "dl_deleteEdges (plan_of ev u w a b g nodes edges del) = edges_to_delete ev (gd_edges g) edges"
  "dl_name (plan_of ev u w a b g nodes edges del) = a" "dl_description (plan_of ev u w a b g nodes edges del) = b"
  "dl_updateMetadata (plan_of ev u w a b g nodes edges del) \<longleftrightarrow> gd_name g \<noteq> a \<or> gd_description g \<noteq> b"
  by (simp_all add: plan_of_def planned_def)

lemma node_of_fields:
  assumes "rows_ok d" and "node_at d i = Some n"
  shows "dn_category (node_of d i) = tn_category n" "dn_type (node_of d i) = tn_type n" "dn_config (node_of d i) = Some (tn_config n)"
    "dn_position (node_of d i) = pos_at d i"
proof -
  have "i \<in> node_ids d" using assms(2) dom_node_at by blast
  then have "i \<in> dom (pos_at d)" using assms(1) dom_pos_at by (simp add: rows_ok_def)
  then show "dn_position (node_of d i) = pos_at d i" by (auto simp: node_of_def rendered_node_def ui_of_def)
qed (simp_all add: node_of_def rendered_node_def assms(2))

text \<open>The submitted nodes that exist already.\<close>

lemma kept_number:
  assumes ok: "rows_ok d" and ks: "distinct ks" "set ks = ids_of w d" and n: "kept_node (existing_map (map (node_of d) ks)) n"
  obtains i where "i \<in> ids_of w d" "dn_id n = show_int i" "node_num n = i" "existing_map (map (node_of d) ks) (dn_id n) = Some (node_of d i)"
    "dn_category (node_of d i) = dn_category n" "dn_type (node_of d i) = dn_type n" "dn_position n \<noteq> None"
proof -
  obtain old where old: "existing_map (map (node_of d) ks) (dn_id n) = Some old" "dn_category old = dn_category n" "dn_type old = dn_type n" "dn_position n \<noteq> None"
    using n unfolding kept_node_def by blast
  then obtain i where i: "i \<in> ids_of w d" "dn_id n = show_int i" "old = node_of d i" using existing_Some [OF ok ks] by blast
  have "row_number i" using i(1) node_ids_numbers [OF ok] ids_of_subset by blast
  then have "node_num n = i" by (simp add: node_num_def i(2))
  then show ?thesis using that [OF i(1,2)] old i(3) by simp
qed

lemma numbers_of:
  assumes "rows_ok d" and "i \<in> ids_of w d"
  shows "row_number i" "dn_id (node_of d i) = show_int i" "i < db_nextNode d"
proof -
  have i: "i \<in> node_ids d" using assms(2) ids_of_subset by blast
  show "row_number i" using node_ids_numbers [OF assms(1) i] .
  obtain n where "node_at d i = Some n" using assms ids_of_node_at by blast
  then show "dn_id (node_of d i) = show_int i" by (rule node_of_id)
  show "i < db_nextNode d" using i assms(1) unfolding rows_ok_def by blast
qed

lemma distinct_numbers:
  assumes "distinct (map dn_id ns)" and ide: "\<And>n. n \<in> set ns \<Longrightarrow> dn_id n = show_int (node_num n)"
  shows "distinct (map node_num ns)"
proof -
  have "inj_on node_num (set ns)"
  proof (rule inj_onI)
    fix m n assume mn: "m \<in> set ns" "n \<in> set ns" "node_num m = node_num n"
    then have "dn_id m = dn_id n" using ide by simp
    then show "m = n" using assms(1) mn(1,2) by (simp add: distinct_map inj_on_def)
  qed
  then show ?thesis using assms(1) by (simp add: distinct_map)
qed

lemma map_of_filter_keyed:
  "distinct (map h xs) \<Longrightarrow> x \<in> set xs \<Longrightarrow> map_of (map (\<lambda>n. (h n, v n)) (filter P xs)) (h x) = (if P x then Some (v x) else None)"
proof (induction xs)
  case (Cons y ys)
  show ?case
  proof (cases "y = x")
    case True
    have "h x \<notin> h ` set (filter P ys)" using Cons.prems(1) True by auto
    then show ?thesis using True map_of_keyed_None [of "h x" h "filter P ys" v] by simp
  next
    case False
    then have "x \<in> set ys" "h y \<noteq> h x" using Cons.prems by (auto simp: rev_image_eqI)
    then show ?thesis using Cons.IH Cons.prems(1) by simp
  qed
qed simp

lemma scanned_lookup:
  assumes dis: "distinct (map node_num (filter (\<lambda>n. \<not> U (dn_id n)) nodes))" and n: "n \<in> set nodes" "\<not> U (dn_id n)"
  shows "map_of (map (\<lambda>m. (node_num m, v m)) (map (scanned u w ex) (filter (\<lambda>n. \<not> U (dn_id n) \<and> P n) nodes))) (node_num n) =
    (if P n then Some (v (scanned u w ex n)) else None)"
proof -
  have "n \<in> set (filter (\<lambda>n. \<not> U (dn_id n)) nodes)" using n by simp
  from map_of_filter_keyed [OF dis this, of "\<lambda>n. v (scanned u w ex n)" P] show ?thesis
    unfolding filter_filter map_map o_def scanned_simps .
qed

lemma scanned_lookup_None:
  assumes "i \<notin> node_num ` {n \<in> set nodes. \<not> U (dn_id n)}"
  shows "map_of (map (\<lambda>m. (node_num m, v m)) (map (scanned u w ex) (filter (\<lambda>n. \<not> U (dn_id n) \<and> P n) nodes))) i = None"
  using assms by (intro map_of_keyed_None) auto

text \<open>The node of a kept identifier after the transaction.\<close>

lemma kept_stored:
  assumes ok: "rows_ok d" and i: "node_at d i = Some r" "tn_workflow r = w" and n: "dn_config n = Some c" "json_config c = c"
    and fields: "dn_category (node_of d i) = dn_category n" "dn_type (node_of d i) = dn_type n" and ex: "ex (dn_id n) = Some (node_of d i)"
  shows "map_option (tn_config_update (\<lambda>_. json_config (the (dn_config (scanned u w ex n))))) (node_at d i) =
      Some \<lparr>tn_id = i, tn_workflow = w, tn_category = dn_category n, tn_type = dn_type n,
        tn_config = (if config_changed ex n then json_config (with_owner u w c) else c)\<rparr>"
    and "\<not> config_changed ex n \<Longrightarrow> node_at d i = Some \<lparr>tn_id = i, tn_workflow = w, tn_category = dn_category n, tn_type = dn_type n, tn_config = c\<rparr>"
proof -
  note f = node_of_fields [OF ok i(1)]
  have r: "r = \<lparr>tn_id = i, tn_workflow = w, tn_category = dn_category n, tn_type = dn_type n, tn_config = tn_config r\<rparr>"
    using f(1,2) fields i node_at_id [OF i(1)] by simp
  show "map_option (tn_config_update (\<lambda>_. json_config (the (dn_config (scanned u w ex n))))) (node_at d i) =
      Some \<lparr>tn_id = i, tn_workflow = w, tn_category = dn_category n, tn_type = dn_type n,
        tn_config = (if config_changed ex n then json_config (with_owner u w c) else c)\<rparr>"
    unfolding i(1) by (subst r) (simp add: scanned_def n)
  show "node_at d i = Some \<lparr>tn_id = i, tn_workflow = w, tn_category = dn_category n, tn_type = dn_type n, tn_config = c\<rparr>" if "\<not> config_changed ex n"
  proof -
    have "tn_config r = c" using that f(3) n(1) by (simp add: config_changed_def ex)
    then show ?thesis using r i(1) by simp
  qed
qed

text \<open>A run of the update in terms of the maps: \<open>ids\<close> are the numbers that the transaction uses for the identifiers.\<close>

definition gone :: "server_env \<Rightarrow> int \<Rightarrow> node_dto list \<Rightarrow> server_db \<Rightarrow> int set" where
  "gone ev w nodes d = {i \<in> ids_of w d. \<not> (\<exists>n\<in>set nodes. \<not> ev_uuid ev (dn_id n) \<and> dn_id n = show_int i)}"

definition new_nodes :: "server_env \<Rightarrow> node_dto list \<Rightarrow> server_db \<Rightarrow> (int \<times> node_dto) list" where
  "new_nodes ev nodes d = numbered (db_nextNode d) (filter (\<lambda>n. ev_uuid ev (dn_id n)) nodes)"

definition keeps_ids :: "server_env \<Rightarrow> int \<Rightarrow> graph_dto \<Rightarrow> node_dto list \<Rightarrow> server_db \<Rightarrow> bool" where
  "keeps_ids ev w g nodes d \<longleftrightarrow>
     (\<forall>n\<in>set nodes. \<not> ev_uuid ev (dn_id n) \<longrightarrow> node_num n \<in> ids_of w d \<and> dn_id n = show_int (node_num n) \<and>
        existing_map (gd_nodes g) (dn_id n) = Some (node_of d (node_num n)) \<and> dn_category (node_of d (node_num n)) = dn_category n \<and>
        dn_type (node_of d (node_num n)) = dn_type n \<and> dn_position n \<noteq> None)"

definition keeps_nodes :: "server_env \<Rightarrow> int \<Rightarrow> graph_dto \<Rightarrow> node_dto list \<Rightarrow> server_db \<Rightarrow> bool" where
  "keeps_nodes ev w g nodes d \<longleftrightarrow> distinct (map node_num (filter (\<lambda>n. \<not> ev_uuid ev (dn_id n)) nodes)) \<and> keeps_ids ev w g nodes d"

text \<open>If two new nodes have the same identifier, its number is that of one of them.\<close>

definition numbers_ids :: "server_env \<Rightarrow> int \<Rightarrow> node_dto list \<Rightarrow> (string \<rightharpoonup> int) \<Rightarrow> server_db \<Rightarrow> bool" where
  "numbers_ids ev w nodes ids d \<longleftrightarrow>
     (\<forall>i\<in>ids_of w d. ids (show_int i) = Some i) \<and>
     (\<forall>n\<in>set nodes. ev_uuid ev (dn_id n) \<longrightarrow> (\<exists>i m. (i, m) \<in> set (new_nodes ev nodes d) \<and> dn_id m = dn_id n \<and> ids (dn_id n) = Some i))"

definition numbers_nodes :: "server_env \<Rightarrow> int \<Rightarrow> node_dto list \<Rightarrow> (string \<rightharpoonup> int) \<Rightarrow> server_db \<Rightarrow> bool" where
  "numbers_nodes ev w nodes ids d \<longleftrightarrow>
     (\<forall>i\<in>ids_of w d. ids (show_int i) = Some i) \<and>
     (\<forall>n\<in>set nodes. ev_uuid ev (dn_id n) \<longrightarrow> (\<exists>i. (i, n) \<in> set (new_nodes ev nodes d) \<and> ids (dn_id n) = Some i \<and> dn_position n \<noteq> None))"

lemma keeps_nodes_ids: "keeps_nodes ev w g nodes d \<Longrightarrow> keeps_ids ev w g nodes d"
  by (simp add: keeps_nodes_def)

lemma numbers_nodes_ids: "numbers_nodes ev w nodes ids d \<Longrightarrow> numbers_ids ev w nodes ids d"
  unfolding numbers_nodes_def numbers_ids_def by blast

lemma planned_distinct:
  assumes "keeps_nodes ev w g nodes d"
  shows "distinct (map node_num (map (scanned u w ex) (filter (\<lambda>n. \<not> ev_uuid ev (dn_id n) \<and> P n) nodes)))"
proof -
  have "distinct (map node_num (filter (\<lambda>n. \<not> ev_uuid ev (dn_id n)) nodes))" using assms unfolding keeps_nodes_def by blast
  from distinct_map_filter_key [OF this, of P] show ?thesis unfolding filter_filter map_map o_def scanned_simps .
qed

lemma update_run_any:
  assumes ok: "rows_ok d" and ord: "order_doc ev" and uuid: "uuid_doc ev"
    and upd: "WorkflowService_UpdateWorkflow ev u w name description nodes edges d = (None, d')"
  obtains g d0 del ids0 r where "check_graph ev nodes edges = None" "workflowRepo_RenderWorkflowGraph ev w d = Inr g"
    "same_graph d d0" "tx_update w (plan_of ev u w name description g nodes edges del) (gd_nodes g) d0 = Inr d'"
    "existing_ids (gd_nodes g) [] = Some ids0" "keeps_ids ev w g nodes d" "set del = gone ev w nodes d"
    "numbers_ids ev w nodes (map_of ids0 ++ map_of (rev (map (\<lambda>(i, n). (dn_id n, i)) (new_nodes ev nodes d)))) d"
    "\<forall>n\<in>set nodes. dn_config n \<noteq> None"
    "r \<in> set (db_workflows d)" "tw_id r = w" "gd_name g = tw_name r" "gd_description g = tw_description r"
    "edge_key ` set (gd_edges g) = {(show_int (te_source e), show_int (te_target e)) | e. e \<in> set (db_edges d) \<and> te_workflow e = w \<and> te_source e \<in> ids_of w d}"
proof -
  obtain g d0 del where s: "check_graph ev nodes edges = None" "validate_nodes ev nodes = None" "workflowRepo_RenderWorkflowGraph ev w d = Inr g"
    "same_graph d d0" "\<forall>n\<in>set nodes. \<not> ev_uuid ev (dn_id n) \<longrightarrow> kept_node (existing_map (gd_nodes g)) n"
    "ids_to_delete (filter (\<lambda>i. \<not> ev_uuid ev i) (map dn_id nodes)) (gd_nodes g) = Some del"
    "tx_update w (plan_of ev u w name description g nodes edges del) (gd_nodes g) d0 = Inr d'"
    by (rule update_success [OF ok ord upd])
  obtain r ks where r: "r \<in> set (db_workflows d)" "tw_id r = w" "gd_name g = tw_name r" "gd_description g = tw_description r"
    "distinct ks" "set ks = ids_of w d" "gd_nodes g = map (node_of d) ks"
    "edge_key ` set (gd_edges g) = {(show_int (te_source e), show_int (te_target e)) | e. e \<in> set (db_edges d) \<and> te_workflow e = w \<and> te_source e \<in> ids_of w d}"
    by (rule rendered [OF ok ord s(3)]) blast
  have nums: "\<forall>i\<in>set ks. row_number i \<and> dn_id (node_of d i) = show_int i" using numbers_of [OF ok] r(6) by blast
  from known_ids [OF nums, of "[]"] obtain ids0 where ids0: "existing_ids (gd_nodes g) [] = Some ids0"
    "\<And>x. map_of ids0 x = (if x \<in> show_int ` ids_of w d then map_option int32 (Atoi x) else None)" unfolding r(6,7) by auto
  have kept: "node_num n \<in> ids_of w d \<and> dn_id n = show_int (node_num n) \<and> existing_map (gd_nodes g) (dn_id n) = Some (node_of d (node_num n)) \<and>
      dn_category (node_of d (node_num n)) = dn_category n \<and> dn_type (node_of d (node_num n)) = dn_type n \<and> dn_position n \<noteq> None"
    if n: "n \<in> set nodes" "\<not> ev_uuid ev (dn_id n)" for n
    using kept_number [OF ok r(5,6), of n] s(5) n unfolding r(7) by metis
  then have keeps: "keeps_ids ev w g nodes d" unfolding keeps_ids_def by blast
  have "x \<in> set (filter (\<lambda>i. \<not> ev_uuid ev i) (map dn_id nodes)) \<longleftrightarrow> (\<exists>n\<in>set nodes. \<not> ev_uuid ev (dn_id n) \<and> dn_id n = x)" for x by auto
  then have del: "set del = gone ev w nodes d" unfolding deletions [OF s(6) [unfolded r(7)] nums] r(6) gone_def by simp
  let ?new = "map_of (rev (map (\<lambda>(i, n). (dn_id n, i)) (new_nodes ev nodes d)))"
  have old_ids: "(map_of ids0 ++ ?new) (show_int i) = Some i" if i: "i \<in> ids_of w d" for i
  proof -
    have "\<not> ev_uuid ev (show_int i)" using row_number_no_uuid [OF uuid] numbers_of(1) [OF ok i] by blast
    then have "?new (show_int i) = None"
      by (auto simp: map_of_eq_None_iff new_nodes_def image_iff dest!: numbered_ids)
    then show ?thesis using i numbers_of(1) [OF ok i] by (simp add: map_add_def ids0(2))
  qed
  have new_ids: "\<exists>i m. (i, m) \<in> set (new_nodes ev nodes d) \<and> dn_id m = dn_id n \<and> (map_of ids0 ++ ?new) (dn_id n) = Some i"
    if n: "n \<in> set nodes" "ev_uuid ev (dn_id n)" for n
  proof -
    have "n \<in> snd ` set (new_nodes ev nodes d)"
      unfolding new_nodes_def using n arg_cong [OF numbered_snd, of set "db_nextNode d" "filter (\<lambda>n. ev_uuid ev (dn_id n)) nodes"] by simp
    then have "dn_id n \<in> fst ` set (rev (map (\<lambda>(i, n). (dn_id n, i)) (new_nodes ev nodes d)))" by force
    then obtain i where i: "?new (dn_id n) = Some i" by (metis map_of_eq_None_iff not_None_eq)
    then have "(dn_id n, i) \<in> set (rev (map (\<lambda>(i, n). (dn_id n, i)) (new_nodes ev nodes d)))" by (rule map_of_SomeD)
    then obtain m where "(i, m) \<in> set (new_nodes ev nodes d)" "dn_id m = dn_id n" by auto
    then show ?thesis using i by (intro exI [of _ i] exI [of _ m]) (simp add: map_add_def)
  qed
  have "numbers_ids ev w nodes (map_of ids0 ++ ?new) d" using old_ids new_ids unfolding numbers_ids_def by blast
  then show ?thesis using that [OF s(1,3,4,7) ids0(1) keeps del _ _ r(1-4,8)] valid_config [OF s(2)] by blast
qed

text \<open>If the submitted nodes have different identifiers, every node has a number of its own.\<close>

lemma update_run:
  assumes ok: "rows_ok d" and ord: "order_doc ev" and uuid: "uuid_doc ev" and sub: "submitted nodes"
    and upd: "WorkflowService_UpdateWorkflow ev u w name description nodes edges d = (None, d')"
  obtains g d0 del ids0 r where "check_graph ev nodes edges = None" "workflowRepo_RenderWorkflowGraph ev w d = Inr g"
    "same_graph d d0" "tx_update w (plan_of ev u w name description g nodes edges del) (gd_nodes g) d0 = Inr d'"
    "existing_ids (gd_nodes g) [] = Some ids0" "keeps_nodes ev w g nodes d" "set del = gone ev w nodes d"
    "numbers_nodes ev w nodes (map_of ids0 ++ map_of (rev (map (\<lambda>(i, n). (dn_id n, i)) (new_nodes ev nodes d)))) d"
    "\<forall>n\<in>set nodes. dn_config n \<noteq> None"
    "r \<in> set (db_workflows d)" "tw_id r = w" "gd_name g = tw_name r" "gd_description g = tw_description r"
    "edge_key ` set (gd_edges g) = {(show_int (te_source e), show_int (te_target e)) | e. e \<in> set (db_edges d) \<and> te_workflow e = w \<and> te_source e \<in> ids_of w d}"
proof -
  obtain g d0 del ids0 r where R: "check_graph ev nodes edges = None" "workflowRepo_RenderWorkflowGraph ev w d = Inr g"
    "same_graph d d0" "tx_update w (plan_of ev u w name description g nodes edges del) (gd_nodes g) d0 = Inr d'"
    "existing_ids (gd_nodes g) [] = Some ids0" "keeps_ids ev w g nodes d" "set del = gone ev w nodes d"
    "numbers_ids ev w nodes (map_of ids0 ++ map_of (rev (map (\<lambda>(i, n). (dn_id n, i)) (new_nodes ev nodes d)))) d"
    "\<forall>n\<in>set nodes. dn_config n \<noteq> None"
    "r \<in> set (db_workflows d)" "tw_id r = w" "gd_name g = tw_name r" "gd_description g = tw_description r"
    "edge_key ` set (gd_edges g) = {(show_int (te_source e), show_int (te_target e)) | e. e \<in> set (db_edges d) \<and> te_workflow e = w \<and> te_source e \<in> ids_of w d}"
    by (rule update_run_any [OF ok ord uuid upd]) blast
  have "distinct (map dn_id (filter (\<lambda>n. \<not> ev_uuid ev (dn_id n)) nodes))" using sub unfolding submitted_def by (simp add: distinct_map_filter_key)
  then have "distinct (map node_num (filter (\<lambda>n. \<not> ev_uuid ev (dn_id n)) nodes))" using R(6) unfolding keeps_ids_def by (intro distinct_numbers) simp_all
  then have keeps: "keeps_nodes ev w g nodes d" using R(6) unfolding keeps_nodes_def by blast
  let ?new = "map_of (rev (map (\<lambda>(i, n). (dn_id n, i)) (new_nodes ev nodes d)))"
  have pos: "\<forall>n\<in>set (filter (\<lambda>n. ev_uuid ev (dn_id n)) nodes). dn_config n \<noteq> None \<and> dn_position n \<noteq> None"
    using tx_update_effect(7) [OF _ R(4,5)] same_graph_eqs(1) [OF R(3)] ok planned_distinct [OF keeps] unfolding planned_lists by blast
  have new_ids: "\<exists>i. (i, n) \<in> set (new_nodes ev nodes d) \<and> (map_of ids0 ++ ?new) (dn_id n) = Some i \<and> dn_position n \<noteq> None"
    if n: "n \<in> set nodes" "ev_uuid ev (dn_id n)" for n
  proof -
    have "distinct (map dn_id (filter (\<lambda>n. ev_uuid ev (dn_id n)) nodes))" using sub unfolding submitted_def by (simp add: distinct_map_filter_key)
    then obtain i where "(i, n) \<in> set (new_nodes ev nodes d)" "?new (dn_id n) = Some i"
      unfolding new_nodes_def by (rule numbered_key [of _ n]) (use n in simp)
    then show ?thesis using pos n by (intro exI [of _ i]) (simp add: map_add_def)
  qed
  have "numbers_nodes ev w nodes (map_of ids0 ++ ?new) d" using R(8) new_ids unfolding numbers_nodes_def numbers_ids_def by blast
  then show ?thesis using that [OF R(1-5) keeps R(7) _ R(9-14)] by blast
qed

text \<open>The transaction of the plan, with the facts that \<open>update_run\<close> gives.\<close>

lemma plan_effect:
  fixes g
  assumes ok: "rows_ok d" and d0: "same_graph d d0" and tx: "tx_update w (plan_of ev u w name description g nodes edges del) (gd_nodes g) d0 = Inr d'"
    and known: "existing_ids (gd_nodes g) [] = Some ids0" and keeps: "keeps_nodes ev w g nodes d" and del: "set del = gone ev w nodes d"
  defines "base \<equiv> node_at d |` (- gone ev w nodes d) ++ map_of (map (\<lambda>(i, n). (i, new_row w i n)) (new_nodes ev nodes d))"
    and "pbase \<equiv> pos_at d |` (- gone ev w nodes d) ++ map_of (map (\<lambda>(i, n). (i, the (dn_position n))) (new_nodes ev nodes d))"
    and "ids \<equiv> map_of ids0 ++ map_of (rev (map (\<lambda>(i, n). (dn_id n, i)) (new_nodes ev nodes d)))"
    and "ex \<equiv> existing_map (gd_nodes g)"
  shows "rows_ok d'" "same_rest d0 d'"
    "db_workflows d' = db_workflows (if gd_name g \<noteq> name \<or> gd_description g \<noteq> description then q_UpdateWorkflow w name description d else d)"
    "n \<in> set nodes \<Longrightarrow> \<not> ev_uuid ev (dn_id n) \<Longrightarrow> node_at d' (node_num n) =
       (if config_changed ex n then map_option (tn_config_update (\<lambda>_. json_config (the (dn_config (scanned u w ex n))))) (base (node_num n)) else base (node_num n))"
    "i \<notin> node_num ` {n \<in> set nodes. \<not> ev_uuid ev (dn_id n)} \<Longrightarrow> node_at d' i = base i"
    "n \<in> set nodes \<Longrightarrow> \<not> ev_uuid ev (dn_id n) \<Longrightarrow> pos_at d' (node_num n) =
       (if moved ex n \<or> config_changed ex n then map_option (\<lambda>q. the (dn_position n)) (pbase (node_num n)) else pbase (node_num n))"
    "i \<notin> node_num ` {n \<in> set nodes. \<not> ev_uuid ev (dn_id n)} \<Longrightarrow> pos_at d' i = pbase i"
    "set (db_edges d') = {e \<in> set (db_edges d). te_source e \<notin> gone ev w nodes d \<and> te_target e \<notin> gone ev w nodes d \<and> \<not> (te_workflow e = w \<and>
         (te_source e, te_target e) \<in> (\<lambda>k. (int32 (the (Atoi (fst k))), int32 (the (Atoi (snd k))))) ` set (edges_to_delete ev (gd_edges g) edges))} \<union>
       (\<lambda>k. \<lparr>te_workflow = w, te_source = (case ids (fst k) of None \<Rightarrow> 0 | Some i \<Rightarrow> i), te_target = (case ids (snd k) of None \<Rightarrow> 0 | Some i \<Rightarrow> i)\<rparr>) `
         set (edges_to_add (gd_edges g) edges)"
proof -
  note eqs = same_graph_eqs [OF d0]
  have ok0: "rows_ok d0" using ok eqs(1) by simp
  have dis: "distinct (map node_num (filter (\<lambda>n. \<not> ev_uuid ev (dn_id n)) nodes))" using keeps unfolding keeps_nodes_def by blast
  note e = tx_update_effect [OF ok0 tx known, unfolded planned_lists, OF planned_distinct [OF keeps] planned_distinct [OF keeps],
      unfolded eqs del, folded new_nodes_def, folded base_def pbase_def ids_def ex_def]
  show "rows_ok d'" "same_rest d0 d'" by (rule e)+
  show "db_workflows d' = db_workflows (if gd_name g \<noteq> name \<or> gd_description g \<noteq> description then q_UpdateWorkflow w name description d else d)"
    using e(3) eqs(6) by (simp add: q_UpdateWorkflow_def)
  show "node_at d' (node_num n) = (if config_changed ex n
      then map_option (tn_config_update (\<lambda>_. json_config (the (dn_config (scanned u w ex n))))) (base (node_num n)) else base (node_num n))"
    if "n \<in> set nodes" "\<not> ev_uuid ev (dn_id n)"
    unfolding e(4) scanned_lookup [OF dis that] by simp
  show "node_at d' i = base i" if "i \<notin> node_num ` {n \<in> set nodes. \<not> ev_uuid ev (dn_id n)}"
    unfolding e(4) scanned_lookup_None [OF that] by simp
  show "pos_at d' (node_num n) = (if moved ex n \<or> config_changed ex n then map_option (\<lambda>q. the (dn_position n)) (pbase (node_num n)) else pbase (node_num n))"
    if "n \<in> set nodes" "\<not> ev_uuid ev (dn_id n)"
    unfolding e(5) scanned_lookup [OF dis that] by simp
  show "pos_at d' i = pbase i" if "i \<notin> node_num ` {n \<in> set nodes. \<not> ev_uuid ev (dn_id n)}"
    unfolding e(5) scanned_lookup_None [OF that] by simp
  show "set (db_edges d') = {e \<in> set (db_edges d). te_source e \<notin> gone ev w nodes d \<and> te_target e \<notin> gone ev w nodes d \<and> \<not> (te_workflow e = w \<and>
         (te_source e, te_target e) \<in> (\<lambda>k. (int32 (the (Atoi (fst k))), int32 (the (Atoi (snd k))))) ` set (edges_to_delete ev (gd_edges g) edges))} \<union>
       (\<lambda>k. \<lparr>te_workflow = w, te_source = (case ids (fst k) of None \<Rightarrow> 0 | Some i \<Rightarrow> i), te_target = (case ids (snd k) of None \<Rightarrow> 0 | Some i \<Rightarrow> i)\<rparr>) `
         set (edges_to_add (gd_edges g) edges)"
    by (rule e(6))
qed

lemma numbered_unique: "distinct ns \<Longrightarrow> (i, n) \<in> set (numbered k ns) \<Longrightarrow> (j, n) \<in> set (numbered k ns) \<Longrightarrow> i = j"
  by (induction ns arbitrary: k) (auto dest: numbered_ids)

lemma new_nodes_ids: "(i, n) \<in> set (new_nodes ev nodes d) \<Longrightarrow> db_nextNode d \<le> i \<and> n \<in> set nodes \<and> ev_uuid ev (dn_id n)"
  unfolding new_nodes_def using numbered_ids by force

definition number_of :: "(string \<rightharpoonup> int) \<Rightarrow> string \<Rightarrow> int" where
  "number_of ids x = (case ids x of None \<Rightarrow> 0 | Some i \<Rightarrow> i)"

lemma num_kept:
  assumes "keeps_ids ev w g nodes d" and "numbers_ids ev w nodes ids d" and "n \<in> set nodes" and "\<not> ev_uuid ev (dn_id n)"
  shows "number_of ids (dn_id n) = node_num n" "node_num n \<in> ids_of w d" "dn_id n = show_int (node_num n)" "node_num n \<notin> gone ev w nodes d"
proof -
  have n: "node_num n \<in> ids_of w d" "dn_id n = show_int (node_num n)" using assms unfolding keeps_ids_def by blast+
  then show "node_num n \<in> ids_of w d" "dn_id n = show_int (node_num n)" by simp_all
  have "ids (show_int (node_num n)) = Some (node_num n)" using n(1) assms(2) unfolding numbers_ids_def by blast
  then show "number_of ids (dn_id n) = node_num n" by (simp add: number_of_def n(2) [symmetric])
  show "node_num n \<notin> gone ev w nodes d" using assms(3,4) n(2) unfolding gone_def by blast
qed

lemma num_new:
  assumes "numbers_nodes ev w nodes ids d" and "n \<in> set nodes" and "ev_uuid ev (dn_id n)"
  shows "(number_of ids (dn_id n), n) \<in> set (new_nodes ev nodes d)" "db_nextNode d \<le> number_of ids (dn_id n)" "dn_position n \<noteq> None"
proof -
  obtain i where i: "(i, n) \<in> set (new_nodes ev nodes d)" "ids (dn_id n) = Some i" "dn_position n \<noteq> None"
    using assms unfolding numbers_nodes_def by blast
  then show "(number_of ids (dn_id n), n) \<in> set (new_nodes ev nodes d)" "dn_position n \<noteq> None" by (simp_all add: number_of_def)
  then show "db_nextNode d \<le> number_of ids (dn_id n)" using new_nodes_ids by blast
qed

lemma num_new_any:
  assumes "numbers_ids ev w nodes ids d" and "n \<in> set nodes" and "ev_uuid ev (dn_id n)"
  obtains m where "(number_of ids (dn_id n), m) \<in> set (new_nodes ev nodes d)" "dn_id m = dn_id n" "db_nextNode d \<le> number_of ids (dn_id n)"
proof -
  obtain i m where i: "(i, m) \<in> set (new_nodes ev nodes d)" "dn_id m = dn_id n" "ids (dn_id n) = Some i"
    using assms unfolding numbers_ids_def by blast
  then have "(number_of ids (dn_id n), m) \<in> set (new_nodes ev nodes d)" by (simp add: number_of_def)
  then show ?thesis using that [OF _ i(2)] new_nodes_ids by blast
qed

lemma num_inj:
  assumes ok: "rows_ok d" and keeps: "keeps_ids ev w g nodes d" and nums: "numbers_ids ev w nodes ids d"
  shows "inj_on (number_of ids) (dn_id ` set nodes)"
proof (rule inj_onI)
  fix x y assume "x \<in> dn_id ` set nodes" "y \<in> dn_id ` set nodes" and eq: "number_of ids x = number_of ids y"
  then obtain m n where mn: "m \<in> set nodes" "x = dn_id m" "n \<in> set nodes" "y = dn_id n" by blast
  have small: "number_of ids (dn_id n) < db_nextNode d" if "n \<in> set nodes" "\<not> ev_uuid ev (dn_id n)" for n
    using num_kept [OF keeps nums that] numbers_of(3) [OF ok] by metis
  have big: "\<not> number_of ids (dn_id n) < db_nextNode d" if "n \<in> set nodes" "ev_uuid ev (dn_id n)" for n
    using num_new_any [OF nums that] by (metis not_less)
  show "x = y"
  proof (cases "ev_uuid ev x")
    case True
    then have y: "ev_uuid ev y" using small big mn eq by metis
    obtain m' where m': "(number_of ids x, m') \<in> set (new_nodes ev nodes d)" "dn_id m' = x" using num_new_any [OF nums] True mn by metis
    obtain n' where n': "(number_of ids x, n') \<in> set (new_nodes ev nodes d)" "dn_id n' = y" using num_new_any [OF nums] y mn eq by metis
    have "m' = n'" using numbered_distinct m'(1) n'(1) unfolding new_nodes_def by (metis eq_key_imp_eq_value)
    then show ?thesis using m'(2) n'(2) by simp
  next
    case False
    then have "\<not> ev_uuid ev y" using small big mn eq by metis
    then show ?thesis using num_kept [OF keeps nums] False mn eq by metis
  qed
qed

lemma base_kept:
  assumes ok: "rows_ok d" and i: "i \<in> node_ids d" "i \<notin> gone ev w nodes d"
  shows "(m |` (- gone ev w nodes d) ++ map_of (map (\<lambda>(i, n). (i, f i n)) (new_nodes ev nodes d))) i = m i"
proof -
  have "i < db_nextNode d" using ok i(1) unfolding rows_ok_def by blast
  then have "map_of (map (\<lambda>(i, n). (i, f i n)) (new_nodes ev nodes d)) i = None" unfolding new_nodes_def by (rule numbered_below)
  then show ?thesis using i(2) by (simp add: map_add_def)
qed

lemma base_new:
  "(i, n) \<in> set (new_nodes ev nodes d) \<Longrightarrow> (m ++ map_of (map (\<lambda>(i, n). (i, f i n)) (new_nodes ev nodes d))) i = Some (f i n)"
  unfolding new_nodes_def using numbered_lookup [of i n "db_nextNode d" _ f] by (simp add: map_add_def)

lemma base_cases:
  assumes "(m |` (- gone ev w nodes d) ++ map_of (map (\<lambda>(i, n). (i, f i n)) (new_nodes ev nodes d))) i = Some r"
  obtains (New) n where "(i, n) \<in> set (new_nodes ev nodes d)" "r = f i n" | (Old) "m i = Some r" "i \<notin> gone ev w nodes d"
  using assms by (auto simp: map_add_def restrict_map_def split: option.splits if_splits dest!: map_of_SomeD)

lemma stored_nodes:
  assumes ok: "rows_ok d" and sub: "submitted nodes" and d0: "same_graph d d0"
    and tx: "tx_update w (plan_of ev u w name description g nodes edges del) (gd_nodes g) d0 = Inr d'"
    and known: "existing_ids (gd_nodes g) [] = Some ids0" and keeps: "keeps_nodes ev w g nodes d" and del: "set del = gone ev w nodes d"
    and nums: "numbers_nodes ev w nodes ids d" and cfg: "\<forall>n\<in>set nodes. dn_config n \<noteq> None" and n: "n \<in> set nodes"
  shows "node_at d' (number_of ids (dn_id n)) = Some \<lparr>tn_id = number_of ids (dn_id n), tn_workflow = w, tn_category = dn_category n, tn_type = dn_type n,
      tn_config = stored_config ev u w g n\<rparr>" "pos_at d' (number_of ids (dn_id n)) = dn_position n"
proof -
  note e = plan_effect [OF ok d0 tx known keeps del]
  obtain c where c: "dn_config n = Some c" "json_config c = c" using cfg n sub unfolding submitted_def by fastforce
  show "node_at d' (number_of ids (dn_id n)) = Some \<lparr>tn_id = number_of ids (dn_id n), tn_workflow = w, tn_category = dn_category n, tn_type = dn_type n,
      tn_config = stored_config ev u w g n\<rparr>" (is ?node) and "pos_at d' (number_of ids (dn_id n)) = dn_position n" (is ?pos)
  proof (atomize (full), cases "ev_uuid ev (dn_id n)")
    case True
    note new = num_new [OF nums n True]
    have out: "number_of ids (dn_id n) \<notin> node_num ` {n \<in> set nodes. \<not> ev_uuid ev (dn_id n)}"
      using num_kept [OF keeps_nodes_ids [OF keeps] numbers_nodes_ids [OF nums]] numbers_of(3) [OF ok] new(2) by force
    have ?node unfolding e(5) [OF out] base_new [OF new(1), of _ "new_row w"] using True c by (simp add: new_row_def stored_config_def)
    moreover have ?pos unfolding e(7) [OF out] base_new [OF new(1), of _ "\<lambda>i n. the (dn_position n)"] using new(3) by auto
    ultimately show "?node \<and> ?pos" by blast
  next
    case False
    note k = num_kept [OF keeps_nodes_ids [OF keeps] numbers_nodes_ids [OF nums] n False]
    let ?i = "node_num n"
    have ids: "?i \<in> node_ids d" using k(2) ids_of_subset by blast
    obtain r where r: "node_at d ?i = Some r" "tn_workflow r = w" using k(2) ids_of_node_at [OF ok] by blast
    have f: "existing_map (gd_nodes g) (dn_id n) = Some (node_of d ?i)" "dn_category (node_of d ?i) = dn_category n"
      "dn_type (node_of d ?i) = dn_type n" "dn_position n \<noteq> None" using keeps n False unfolding keeps_nodes_def keeps_ids_def by blast+
    note st = kept_stored(1) [where ex = "existing_map (gd_nodes g)" and u = u, OF ok r c f(2,3,1)]
      kept_stored(2) [where ex = "existing_map (gd_nodes g)", OF ok r c f(2,3,1)]
    have ?node unfolding k(1) e(4) [OF n False] base_kept [OF ok ids k(4)] using st c False
      by (cases "config_changed (existing_map (gd_nodes g)) n") (simp_all add: stored_config_def)
    moreover have "?i \<in> dom (pos_at d)" using ids ok unfolding dom_pos_at rows_ok_def by blast
    then obtain p where p: "pos_at d ?i = Some p" by blast
    have "\<not> moved (existing_map (gd_nodes g)) n \<Longrightarrow> dn_position n = Some p"
      using node_of_fields(4) [OF ok r(1)] p by (simp add: moved_def f(1))
    then have ?pos unfolding k(1) e(6) [OF n False] base_kept [OF ok ids k(4)] using f(4) p by auto
    ultimately show "?node \<and> ?pos" by blast
  qed
qed

lemma stored_others:
  assumes ok: "rows_ok d" and d0: "same_graph d d0"
    and tx: "tx_update w (plan_of ev u w name description g nodes edges del) (gd_nodes g) d0 = Inr d'"
    and known: "existing_ids (gd_nodes g) [] = Some ids0" and keeps: "keeps_nodes ev w g nodes d" and del: "set del = gone ev w nodes d"
    and r: "tn_workflow r \<noteq> w"
  shows "node_at d' i = Some r \<longleftrightarrow> node_at d i = Some r"
proof (cases "i \<in> node_num ` {n \<in> set nodes. \<not> ev_uuid ev (dn_id n)}")
  case True
  note e = plan_effect [OF ok d0 tx known keeps del]
  obtain n where n: "i = node_num n" "n \<in> set nodes" "\<not> ev_uuid ev (dn_id n)" using True by blast
  then have "i \<in> ids_of w d" "dn_id n = show_int i" using keeps unfolding keeps_nodes_def keeps_ids_def by blast+
  then obtain r' where r': "node_at d i = Some r'" "tn_workflow r' = w" and "i \<notin> gone ev w nodes d" "i \<in> node_ids d"
    using ids_of_node_at [OF ok] n(2,3) ids_of_subset unfolding gone_def by blast
  note b = base_kept [OF ok this(4,3)]
  have "node_at d' i \<noteq> Some r" unfolding n(1) e(4) [OF n(2,3)] unfolding n(1) [symmetric] b using r r' by auto
  then show ?thesis using r r' by auto
next
  case False
  note e = plan_effect [OF ok d0 tx known keeps del]
  have eq: "node_at d' i = (node_at d |` (- gone ev w nodes d) ++ map_of (map (\<lambda>(i, n). (i, new_row w i n)) (new_nodes ev nodes d))) i"
    by (rule e(5) [OF False])
  show ?thesis
  proof
    assume "node_at d' i = Some r"
    from this [unfolded eq] show "node_at d i = Some r"
    proof (rule base_cases [of _ ev w nodes d "new_row w"])
      fix n assume "r = new_row w i n"
      then show ?thesis using r by (simp add: new_row_def)
    qed
  next
    assume a: "node_at d i = Some r"
    have out: "i \<notin> gone ev w nodes d" using a r ids_of_node_at [OF ok, of i w] by (simp add: gone_def)
    have "i \<in> node_ids d" using a dom_node_at [of d] by blast
    from base_kept [OF ok this out, of "node_at d" "new_row w"] show "node_at d' i = Some r" unfolding eq a .
  qed
qed

lemma stored_ids:
  assumes ok: "rows_ok d" and sub: "submitted nodes" and d0: "same_graph d d0"
    and tx: "tx_update w (plan_of ev u w name description g nodes edges del) (gd_nodes g) d0 = Inr d'"
    and known: "existing_ids (gd_nodes g) [] = Some ids0" and keeps: "keeps_nodes ev w g nodes d" and del: "set del = gone ev w nodes d"
    and nums: "numbers_nodes ev w nodes ids d" and cfg: "\<forall>n\<in>set nodes. dn_config n \<noteq> None"
  shows "ids_of w d' = number_of ids ` dn_id ` set nodes"
proof -
  note e = plan_effect [OF ok d0 tx known keeps del] and st = stored_nodes [OF ok sub d0 tx known keeps del nums cfg]
  have "i \<in> number_of ids ` dn_id ` set nodes" if i: "i \<in> ids_of w d'" for i
  proof (cases "i \<in> node_num ` {n \<in> set nodes. \<not> ev_uuid ev (dn_id n)}")
    case True
    then show ?thesis using num_kept(1) [OF keeps_nodes_ids [OF keeps] numbers_nodes_ids [OF nums]] by force
  next
    case False
    obtain r where r: "node_at d' i = Some r" "tn_workflow r = w" using i ids_of_node_at [OF e(1)] by blast
    from r(1) [unfolded e(5) [OF False]] show ?thesis
    proof (rule base_cases [of _ ev w nodes d "new_row w"])
      fix n assume n: "(i, n) \<in> set (new_nodes ev nodes d)"
      then have m: "n \<in> set nodes" "ev_uuid ev (dn_id n)" using new_nodes_ids by blast+
      have "distinct (filter (\<lambda>n. ev_uuid ev (dn_id n)) nodes)" using sub unfolding submitted_def by (simp add: distinct_map)
      then have "number_of ids (dn_id n) = i" using numbered_unique n num_new(1) [OF nums m] unfolding new_nodes_def by blast
      then show ?thesis using m(1) by blast
    next
      assume "node_at d i = Some r" "i \<notin> gone ev w nodes d"
      then obtain n where "n \<in> set nodes" "\<not> ev_uuid ev (dn_id n)" "dn_id n = show_int i"
        using ids_of_node_at [OF ok] r(2) unfolding gone_def by blast
      then show ?thesis using num_kept(1,3) [OF keeps_nodes_ids [OF keeps] numbers_nodes_ids [OF nums]] by (metis imageI show_int_eq)
    qed
  qed
  moreover have "number_of ids (dn_id n) \<in> ids_of w d'" if "n \<in> set nodes" for n
    using st(1) [OF that] ids_of_node_at [OF e(1)] by simp
  ultimately show ?thesis by blast
qed

lemma edge_row_ends:
  assumes ok: "rows_ok d" and within: "edges_within d" and e: "e \<in> set (db_edges d)"
  shows "te_source e \<in> ids_of (te_workflow e) d" "te_target e \<in> ids_of (te_workflow e) d"
  using within e ids_of_node_at [OF ok] unfolding edges_within_def by (metis insertCI)+

lemma ids_of_disjoint: "rows_ok d \<Longrightarrow> i \<in> ids_of w d \<Longrightarrow> i \<in> ids_of v d \<Longrightarrow> w = v"
  using ids_of_node_at by fastforce

lemma set_edges_to_delete: "order_doc ev \<Longrightarrow> set (edges_to_delete ev xs ys) = edge_key ` set xs - edge_key ` set ys"
proof -
  assume "order_doc ev"
  then have "mset (ev_edgeOrder ev (remdups (map edge_key xs))) = mset (remdups (map edge_key xs))" by (simp add: order_doc_def)
  then have "set (ev_edgeOrder ev (remdups (map edge_key xs))) = edge_key ` set xs" by (metis set_map set_mset_mset set_remdups)
  then show ?thesis by (auto simp: edges_to_delete_def)
qed

lemma set_edges_to_add: "set (edges_to_add xs ys) = edge_key ` set ys - edge_key ` set xs"
  by (auto simp: edges_to_add_def)

definition edge_nums :: "edge_row \<Rightarrow> int \<times> int" where
  "edge_nums e = (te_source e, te_target e)"

definition shown_pair :: "int \<times> int \<Rightarrow> string \<times> string" where
  "shown_pair p = (show_int (fst p), show_int (snd p))"

lemma shown_eq [simp]: "shown_pair p = shown_pair q \<longleftrightarrow> p = q"
  by (simp add: shown_pair_def prod_eq_iff)

text \<open>What the transaction leaves of the edges, with the edges of the workflow as pairs of numbers.\<close>

lemma edge_sets:
  fixes num :: "string \<times> string \<Rightarrow> int \<times> int"
  assumes dec: "\<And>p. p \<in> E \<Longrightarrow> h (shown_pair p) = p \<and> num (shown_pair p) = p"
    and K: "\<And>p. p \<in> E \<Longrightarrow> shown_pair p \<in> K \<Longrightarrow> fst p \<notin> D \<and> snd p \<notin> D"
  shows "{p \<in> E. fst p \<notin> D \<and> snd p \<notin> D \<and> p \<notin> h ` (shown_pair ` E - K)} \<union> num ` (K - shown_pair ` E) = num ` K"
proof -
  have "p \<in> h ` (shown_pair ` E - K) \<longleftrightarrow> shown_pair p \<notin> K" if "p \<in> E" for p
  proof
    assume "p \<in> h ` (shown_pair ` E - K)"
    then obtain q where "q \<in> E" "shown_pair q \<notin> K" "p = h (shown_pair q)" by blast
    then show "shown_pair p \<notin> K" using dec by simp
  next
    assume "shown_pair p \<notin> K"
    then show "p \<in> h ` (shown_pair ` E - K)" using that dec by (metis DiffI imageI)
  qed
  then have "{p \<in> E. fst p \<notin> D \<and> snd p \<notin> D \<and> p \<notin> h ` (shown_pair ` E - K)} = {p \<in> E. shown_pair p \<in> K}" using K by blast
  also have "\<dots> = num ` (K \<inter> shown_pair ` E)"
  proof
    show "{p \<in> E. shown_pair p \<in> K} \<subseteq> num ` (K \<inter> shown_pair ` E)" using dec by force
    show "num ` (K \<inter> shown_pair ` E) \<subseteq> {p \<in> E. shown_pair p \<in> K}" using dec by auto
  qed
  finally show ?thesis by blast
qed

lemma image_filter: "f ` {x \<in> A. P (f x)} = {y \<in> f ` A. P y}"
  by auto

lemma stored_edges:
  assumes ok: "rows_ok d" and within: "edges_within d" and ord: "order_doc ev" and uuid: "uuid_doc ev"
    and tx: "set (db_edges d') = {e \<in> set (db_edges d). te_source e \<notin> gone ev w nodes d \<and> te_target e \<notin> gone ev w nodes d \<and> \<not> (te_workflow e = w \<and>
         (te_source e, te_target e) \<in> (\<lambda>k. (int32 (the (Atoi (fst k))), int32 (the (Atoi (snd k))))) ` set (edges_to_delete ev (gd_edges g) edges))} \<union>
       (\<lambda>k. \<lparr>te_workflow = w, te_source = (case ids (fst k) of None \<Rightarrow> 0 | Some i \<Rightarrow> i), te_target = (case ids (snd k) of None \<Rightarrow> 0 | Some i \<Rightarrow> i)\<rparr>) `
         set (edges_to_add (gd_edges g) edges)"
    and nums: "numbers_ids ev w nodes ids d"
    and checked: "\<forall>e\<in>set edges. de_source e \<in> dn_id ` set nodes \<and> de_target e \<in> dn_id ` set nodes"
    and ex: "edge_key ` set (gd_edges g) = {(show_int (te_source e), show_int (te_target e)) | e. e \<in> set (db_edges d) \<and> te_workflow e = w \<and> te_source e \<in> ids_of w d}"
  shows "edge_nums ` {e \<in> set (db_edges d'). te_workflow e = w} = (\<lambda>e. (number_of ids (de_source e), number_of ids (de_target e))) ` set edges"
    and "{e \<in> set (db_edges d'). te_workflow e \<noteq> w} = {e \<in> set (db_edges d). te_workflow e \<noteq> w}"
proof -
  let ?E = "edge_nums ` {e \<in> set (db_edges d). te_workflow e = w}" and ?K = "edge_key ` set edges" and ?D = "gone ev w nodes d"
  let ?h = "\<lambda>k. (int32 (the (Atoi (fst k))), int32 (the (Atoi (snd k))))" and ?num = "\<lambda>k. (number_of ids (fst k), number_of ids (snd k))"
  let ?row = "\<lambda>k. \<lparr>te_workflow = w, te_source = number_of ids (fst k), te_target = number_of ids (snd k)\<rparr>"
  have E: "p \<in> ids_of w d \<times> ids_of w d" if "p \<in> ?E" for p
    using that edge_row_ends [OF ok within] by (auto simp: edge_nums_def)
  have exE: "edge_key ` set (gd_edges g) = shown_pair ` ?E"
    unfolding ex shown_pair_def edge_nums_def using edge_row_ends(1) [OF ok within] by (auto simp: image_iff)
  have edges': "set (db_edges d') = {e \<in> set (db_edges d). te_source e \<notin> ?D \<and> te_target e \<notin> ?D \<and> \<not> (te_workflow e = w \<and> edge_nums e \<in> ?h ` (shown_pair ` ?E - ?K))} \<union>
      ?row ` (?K - shown_pair ` ?E)"
    using tx unfolding set_edges_to_delete [OF ord] set_edges_to_add exE number_of_def [symmetric] edge_nums_def .
  have shown_num: "number_of ids (show_int i) = i \<and> int32 (the (Atoi (show_int i))) = i" if "i \<in> ids_of w d" for i
    using that numbers_of(1) [OF ok that] nums by (simp add: number_of_def numbers_ids_def)
  have dec: "?h (shown_pair p) = p \<and> ?num (shown_pair p) = p" if "p \<in> ?E" for p
    using E [OF that] shown_num by (auto simp: shown_pair_def prod_eq_iff)
  have present: "i \<notin> ?D" if "i \<in> ids_of w d" "show_int i \<in> dn_id ` set nodes" for i
  proof -
    have "\<not> ev_uuid ev (show_int i)" using row_number_no_uuid [OF uuid] numbers_of(1) [OF ok that(1)] by blast
    then show ?thesis using that(2) unfolding gone_def by fastforce
  qed
  have K: "fst p \<notin> ?D \<and> snd p \<notin> ?D" if p: "p \<in> ?E" "shown_pair p \<in> ?K" for p
  proof -
    obtain e where "e \<in> set edges" "de_source e = show_int (fst p)" "de_target e = show_int (snd p)"
      using p(2) by (auto simp: edge_key_def shown_pair_def)
    then have "show_int (fst p) \<in> dn_id ` set nodes" "show_int (snd p) \<in> dn_id ` set nodes" using checked by metis+
    then show ?thesis using present E [OF p(1)] by auto
  qed
  let ?Q = "\<lambda>p. fst p \<notin> ?D \<and> snd p \<notin> ?D \<and> p \<notin> ?h ` (shown_pair ` ?E - ?K)"
  have "e \<in> set (db_edges d') \<and> te_workflow e = w \<longleftrightarrow>
      e \<in> set (db_edges d) \<and> te_workflow e = w \<and> ?Q (edge_nums e) \<or> e \<in> ?row ` (?K - shown_pair ` ?E)" for e
    unfolding edges' by (auto simp: edge_nums_def)
  then have "{e \<in> set (db_edges d'). te_workflow e = w} = {e \<in> {e \<in> set (db_edges d). te_workflow e = w}. ?Q (edge_nums e)} \<union> ?row ` (?K - shown_pair ` ?E)"
    by blast
  then have "edge_nums ` {e \<in> set (db_edges d'). te_workflow e = w} =
      edge_nums ` {e \<in> {e \<in> set (db_edges d). te_workflow e = w}. ?Q (edge_nums e)} \<union> edge_nums ` ?row ` (?K - shown_pair ` ?E)" by (simp only: image_Un)
  also have "edge_nums ` {e \<in> {e \<in> set (db_edges d). te_workflow e = w}. ?Q (edge_nums e)} = {p \<in> ?E. ?Q p}" by (rule image_filter)
  also have "edge_nums ` ?row ` (?K - shown_pair ` ?E) = ?num ` (?K - shown_pair ` ?E)" by (simp add: image_image edge_nums_def)
  also have "{p \<in> ?E. ?Q p} \<union> ?num ` (?K - shown_pair ` ?E) = ?num ` ?K" by (rule edge_sets) (use dec K in blast)+
  finally show "edge_nums ` {e \<in> set (db_edges d'). te_workflow e = w} = (\<lambda>e. (number_of ids (de_source e), number_of ids (de_target e))) ` set edges"
    by (simp add: image_image edge_key_def)
  have "te_source e \<notin> ?D \<and> te_target e \<notin> ?D" if "e \<in> set (db_edges d)" "te_workflow e \<noteq> w" for e
    using edge_row_ends [OF ok within that(1)] ids_of_disjoint [OF ok] that(2) unfolding gone_def by blast
  then show "{e \<in> set (db_edges d'). te_workflow e \<noteq> w} = {e \<in> set (db_edges d). te_workflow e \<noteq> w}" unfolding edges' by auto
qed

text \<open>The rows of a workflow after an update of it; \<open>num\<close> gives the number of a submitted identifier.\<close>

definition stores ::
  "server_env \<Rightarrow> string \<Rightarrow> int \<Rightarrow> graph_dto \<Rightarrow> node_dto list \<Rightarrow> edge_dto list \<Rightarrow> (string \<Rightarrow> int) \<Rightarrow> server_db \<Rightarrow> server_db \<Rightarrow> bool" where
  "stores ev userID w g nodes edges num d d' \<longleftrightarrow>
     inj_on num (dn_id ` set nodes) \<and> (\<forall>n\<in>set nodes. \<not> ev_uuid ev (dn_id n) \<longrightarrow> show_int (num (dn_id n)) = dn_id n) \<and>
     (\<forall>n\<in>set nodes. node_at d' (num (dn_id n)) = Some \<lparr>tn_id = num (dn_id n), tn_workflow = w, tn_category = dn_category n, tn_type = dn_type n,
        tn_config = stored_config ev userID w g n\<rparr> \<and> pos_at d' (num (dn_id n)) = dn_position n \<and> dn_position n \<noteq> None) \<and>
     ids_of w d' = num ` dn_id ` set nodes \<and>
     edge_nums ` {e \<in> set (db_edges d'). te_workflow e = w} = (\<lambda>e. (num (de_source e), num (de_target e))) ` set edges \<and>
     (\<forall>i r. tn_workflow r \<noteq> w \<longrightarrow> (node_at d' i = Some r \<longleftrightarrow> node_at d i = Some r)) \<and>
     {e \<in> set (db_edges d'). te_workflow e \<noteq> w} = {e \<in> set (db_edges d). te_workflow e \<noteq> w}"

lemma update_stores:
  assumes ok: "rows_ok d" and within: "edges_within d" and ord: "order_doc ev" and uuid: "uuid_doc ev" and sub: "submitted nodes"
    and upd: "WorkflowService_UpdateWorkflow ev u w name description nodes edges d = (None, d')"
  obtains g num r where "workflowRepo_RenderWorkflowGraph ev w d = Inr g" "check_graph ev nodes edges = None" "rows_ok d'" "stores ev u w g nodes edges num d d'"
    "r \<in> set (db_workflows d')" "tw_id r = w" "tw_name r = name" "tw_description r = description" "map tw_id (db_workflows d') = map tw_id (db_workflows d)"
    "\<forall>r. tw_id r \<noteq> w \<longrightarrow> (r \<in> set (db_workflows d') \<longleftrightarrow> r \<in> set (db_workflows d))"
proof -
  obtain g d0 del ids0 r where R: "check_graph ev nodes edges = None" "workflowRepo_RenderWorkflowGraph ev w d = Inr g"
    "same_graph d d0" "tx_update w (plan_of ev u w name description g nodes edges del) (gd_nodes g) d0 = Inr d'"
    "existing_ids (gd_nodes g) [] = Some ids0" "keeps_nodes ev w g nodes d" "set del = gone ev w nodes d"
    "numbers_nodes ev w nodes (map_of ids0 ++ map_of (rev (map (\<lambda>(i, n). (dn_id n, i)) (new_nodes ev nodes d)))) d"
    "\<forall>n\<in>set nodes. dn_config n \<noteq> None"
    "r \<in> set (db_workflows d)" "tw_id r = w" "gd_name g = tw_name r" "gd_description g = tw_description r"
    "edge_key ` set (gd_edges g) = {(show_int (te_source e), show_int (te_target e)) | e. e \<in> set (db_edges d) \<and> te_workflow e = w \<and> te_source e \<in> ids_of w d}"
    by (rule update_run [OF ok ord uuid sub upd]) blast
  define ids where "ids = map_of ids0 ++ map_of (rev (map (\<lambda>(i, n). (dn_id n, i)) (new_nodes ev nodes d)))"
  note nums = R(8) [folded ids_def] and e = plan_effect [OF ok R(3-7)]
  have kept: "show_int (number_of ids (dn_id n)) = dn_id n" if "n \<in> set nodes" "\<not> ev_uuid ev (dn_id n)" for n
    using num_kept [OF keeps_nodes_ids [OF R(6)] numbers_nodes_ids [OF nums] that] by metis
  have pos: "dn_position n \<noteq> None" if "n \<in> set nodes" for n
    using num_new(3) [OF nums that] R(6) that unfolding keeps_nodes_def keeps_ids_def by blast
  have "stores ev u w g nodes edges (number_of ids) d d'"
    unfolding stores_def
    using num_inj [OF ok keeps_nodes_ids [OF R(6)] numbers_nodes_ids [OF nums]] kept pos stored_nodes [OF ok sub R(3-7) nums R(9)] stored_ids [OF ok sub R(3-7) nums R(9)]
      stored_edges [OF ok within ord uuid e(8) [folded ids_def] numbers_nodes_ids [OF nums] checked_edges [OF R(1)] R(14)] stored_others [OF ok R(3-7)]
    by (intro conjI allI ballI impI) simp_all
  moreover have "map tw_id (db_workflows d') = map tw_id (db_workflows d)"
    using e(2) same_graph_eqs(6) [OF R(3)] by (simp add: same_rest_def)
  moreover have "\<forall>r. tw_id r \<noteq> w \<longrightarrow> (r \<in> set (db_workflows d') \<longleftrightarrow> r \<in> set (db_workflows d))"
    using e(3) by (auto simp: q_UpdateWorkflow_def image_iff split: if_splits)
  moreover have "\<exists>r'. r' \<in> set (db_workflows d') \<and> tw_id r' = w \<and> tw_name r' = name \<and> tw_description r' = description"
  proof (cases "gd_name g \<noteq> name \<or> gd_description g \<noteq> description")
    case True
    then have "db_workflows d' = map (\<lambda>r. if tw_id r = w then r\<lparr>tw_name := name, tw_description := description\<rparr> else r) (db_workflows d)"
      using e(3) by (simp add: q_UpdateWorkflow_def)
    then show ?thesis using R(10,11) by (intro exI [of _ "r\<lparr>tw_name := name, tw_description := description\<rparr>"]) (auto simp: image_iff intro!: bexI [of _ r])
  next
    case False
    then show ?thesis using e(3) R(10-13) by (intro exI [of _ r]) simp
  qed
  ultimately show ?thesis using that [OF R(2,1) e(1)] by blast
qed

lemma stores_within:
  assumes ok: "rows_ok d" and within: "edges_within d" and ok': "rows_ok d'" and st: "stores ev u w g nodes edges num d d'"
    and ends: "\<forall>e\<in>set edges. de_source e \<in> dn_id ` set nodes \<and> de_target e \<in> dn_id ` set nodes"
  shows "edges_within d'"
proof -
  have "\<exists>n. node_at d' i = Some n \<and> tn_workflow n = te_workflow e" if e: "e \<in> set (db_edges d')" and i: "i \<in> {te_source e, te_target e}" for e i
  proof (cases "te_workflow e = w")
    case True
    then have "edge_nums e \<in> (\<lambda>e. (num (de_source e), num (de_target e))) ` set edges" using st e unfolding stores_def by blast
    then obtain e' where "e' \<in> set edges" "te_source e = num (de_source e')" "te_target e = num (de_target e')" unfolding edge_nums_def by blast
    then have "i \<in> num ` dn_id ` set nodes" using ends i by auto
    then have "i \<in> ids_of w d'" using st unfolding stores_def by simp
    then show ?thesis using ids_of_node_at [OF ok'] True by simp
  next
    case False
    then have "e \<in> set (db_edges d)" using st e unfolding stores_def by blast
    then obtain n where "node_at d i = Some n" "tn_workflow n = te_workflow e" using within i unfolding edges_within_def by blast
    moreover have "\<forall>i r. tn_workflow r \<noteq> w \<longrightarrow> (node_at d' i = Some r \<longleftrightarrow> node_at d i = Some r)" using st unfolding stores_def by blast
    ultimately show ?thesis using False by (intro exI [of _ n]) simp
  qed
  then show ?thesis unfolding edges_within_def by blast
qed

text \<open>The rows of a workflow are the submitted nodes and edges, with the numbers \<open>num\<close> and the configurations \<open>cfg\<close>. Rendering gives them back.\<close>

definition holds :: "int \<Rightarrow> node_dto list \<Rightarrow> edge_dto list \<Rightarrow> (string \<Rightarrow> int) \<Rightarrow> (node_dto \<Rightarrow> go_config) \<Rightarrow> server_db \<Rightarrow> bool" where
  "holds w nodes edges num cfg d \<longleftrightarrow>
     inj_on num (dn_id ` set nodes) \<and> ids_of w d = num ` dn_id ` set nodes \<and>
     (\<forall>n\<in>set nodes. node_at d (num (dn_id n)) = Some \<lparr>tn_id = num (dn_id n), tn_workflow = w, tn_category = dn_category n, tn_type = dn_type n, tn_config = cfg n\<rparr> \<and>
        pos_at d (num (dn_id n)) = dn_position n \<and> dn_position n \<noteq> None) \<and>
     edge_nums ` {e \<in> set (db_edges d). te_workflow e = w} = (\<lambda>e. (num (de_source e), num (de_target e))) ` set edges"

definition read_back :: "(string \<Rightarrow> string) \<Rightarrow> (node_dto \<Rightarrow> go_config) \<Rightarrow> node_dto \<Rightarrow> node_dto" where
  "read_back f cfg n = n\<lparr>dn_id := f (dn_id n), dn_config := Some (cfg n)\<rparr>"

lemma held_render:
  assumes ok: "rows_ok d" and within: "edges_within d" and ord: "order_doc ev" and h: "holds w nodes edges num cfg d"
    and dis: "distinct (map dn_id nodes)" and ne: "nodes \<noteq> []" and r: "r \<in> set (db_workflows d)" "tw_id r = w"
  obtains g where "workflowRepo_RenderWorkflowGraph ev w d = Inr g" "gd_name g = tw_name r" "gd_description g = tw_description r"
    "mset (gd_nodes g) = mset (map (read_back (\<lambda>x. show_int (num x)) cfg) nodes)"
    "edge_key ` set (gd_edges g) = (\<lambda>e. (show_int (num (de_source e)), show_int (num (de_target e)))) ` set edges"
proof -
  have inj: "inj_on num (dn_id ` set nodes)" and idn: "ids_of w d = num ` dn_id ` set nodes" using h unfolding holds_def by blast+
  have "nodes_of (tw_id r) d \<noteq> []" using idn ne r(2) by (auto simp: ids_of_def)
  then obtain g where g: "workflowRepo_RenderWorkflowGraph ev w d = Inr g"
    using render_result [OF ok r(1), of ev] ord r(2) by (auto simp: order_doc_def)
  obtain r' ks where G: "r' \<in> set (db_workflows d)" "tw_id r' = w" "gd_name g = tw_name r'" "gd_description g = tw_description r'"
    "distinct ks" "set ks = ids_of w d" "gd_nodes g = map (node_of d) ks"
    "edge_key ` set (gd_edges g) = {(show_int (te_source e), show_int (te_target e)) | e. e \<in> set (db_edges d) \<and> te_workflow e = w \<and> te_source e \<in> ids_of w d}"
    by (rule rendered [OF ok ord g]) blast
  have "r' = r" using G(1,2) ok r unfolding rows_ok_def by (metis distinct_map inj_onD)
  then have names: "gd_name g = tw_name r" "gd_description g = tw_description r" using G(3,4) by simp_all
  have "distinct (map (\<lambda>n. num (dn_id n)) nodes)"
    using dis comp_inj_on [OF _ inj] by (simp add: distinct_map o_def)
  moreover have "set (map (\<lambda>n. num (dn_id n)) nodes) = set ks" using G(6) idn by auto
  ultimately have "mset ks = mset (map (\<lambda>n. num (dn_id n)) nodes)" using G(5) set_eq_iff_mset_eq_distinct by blast
  then have "mset (gd_nodes g) = mset (map (node_of d) (map (\<lambda>n. num (dn_id n)) nodes))" unfolding G(7) by (metis mset_map)
  also have "map (node_of d) (map (\<lambda>n. num (dn_id n)) nodes) = map (read_back (\<lambda>x. show_int (num x)) cfg) nodes"
    unfolding map_map o_def
  proof (rule map_cong [OF refl])
    fix n assume "n \<in> set nodes"
    then have n: "node_at d (num (dn_id n)) = Some \<lparr>tn_id = num (dn_id n), tn_workflow = w, tn_category = dn_category n, tn_type = dn_type n, tn_config = cfg n\<rparr>"
      "pos_at d (num (dn_id n)) = dn_position n" "dn_position n \<noteq> None" using h unfolding holds_def by blast+
    then show "node_of d (num (dn_id n)) = read_back (\<lambda>x. show_int (num x)) cfg n"
      by (cases n) (auto simp: node_of_def rendered_node_def ui_of_def read_back_def)
  qed
  finally have nodes': "mset (gd_nodes g) = mset (map (read_back (\<lambda>x. show_int (num x)) cfg) nodes)" .
  have "edge_key ` set (gd_edges g) = shown_pair ` edge_nums ` {e \<in> set (db_edges d). te_workflow e = w}"
    unfolding G(8) shown_pair_def edge_nums_def using edge_row_ends(1) [OF ok within] by (auto simp: image_iff)
  then have "edge_key ` set (gd_edges g) = (\<lambda>e. (show_int (num (de_source e)), show_int (num (de_target e)))) ` set edges"
    using h unfolding holds_def by (simp add: image_image shown_pair_def)
  then show ?thesis using that g names nodes' by blast
qed

lemma stores_holds: "stores ev u w g nodes edges num d d' \<Longrightarrow> holds w nodes edges num (stored_config ev u w g) d'"
  unfolding stores_def holds_def by blast

end
