(* ===== verification/Store_Others.thy ===== *)
theory Store_Others
  imports Store_Laws
begin

text \<open>
  An update of a workflow by any submission that the server accepts, also by one in which two nodes have the same identifier: the rows stay consistent, the edges of the
  workflow are the submitted ones, and nothing that belongs to another workflow changes.
\<close>

section \<open>Steps of a transaction\<close>

text \<open>\<open>owned w d i\<close>: no other workflow than \<open>w\<close> has the node \<open>i\<close>. \<open>keeps_others w d t\<close>: the nodes of other workflows, and their positions, are the same in \<open>t\<close>.\<close>

definition owned :: "int \<Rightarrow> server_db \<Rightarrow> int \<Rightarrow> bool" where
  "owned w d i \<longleftrightarrow> (\<forall>r. node_at d i = Some r \<longrightarrow> tn_workflow r = w)"

definition keeps_others :: "int \<Rightarrow> server_db \<Rightarrow> server_db \<Rightarrow> bool" where
  "keeps_others w d t \<longleftrightarrow>
     (\<forall>i r. tn_workflow r \<noteq> w \<longrightarrow> (node_at t i = Some r \<longleftrightarrow> node_at d i = Some r)) \<and>
     (\<forall>i r. node_at d i = Some r \<and> tn_workflow r \<noteq> w \<longrightarrow> pos_at t i = pos_at d i)"

definition workflow_at :: "server_db \<Rightarrow> int \<rightharpoonup> int" where
  "workflow_at d i = map_option tn_workflow (node_at d i)"

lemma keeps_others_refl [simp]: "keeps_others w d d"
  by (simp add: keeps_others_def)

lemma keeps_others_trans:
  assumes "keeps_others w d t" and "keeps_others w t u"
  shows "keeps_others w d u"
proof -
  have n: "tn_workflow r \<noteq> w \<Longrightarrow> node_at t i = Some r \<longleftrightarrow> node_at d i = Some r" "tn_workflow r \<noteq> w \<Longrightarrow> node_at u i = Some r \<longleftrightarrow> node_at t i = Some r"
    and p: "node_at d i = Some r \<Longrightarrow> tn_workflow r \<noteq> w \<Longrightarrow> pos_at t i = pos_at d i" "node_at t i = Some r \<Longrightarrow> tn_workflow r \<noteq> w \<Longrightarrow> pos_at u i = pos_at t i" for i r
    using assms unfolding keeps_others_def by blast+
  have "pos_at u i = pos_at d i" if "node_at d i = Some r" "tn_workflow r \<noteq> w" for i r
    using p(1) [OF that] p(2) [of i r] n(1) [OF that(2)] that by simp
  then show ?thesis unfolding keeps_others_def using n by blast
qed

lemma keeps_others_same: "node_at t = node_at d \<Longrightarrow> pos_at t = pos_at d \<Longrightarrow> keeps_others w d t"
  by (simp add: keeps_others_def)

lemma owned_later: "keeps_others w d t \<Longrightarrow> owned w d i \<Longrightarrow> owned w t i"
  unfolding keeps_others_def owned_def by blast

lemma keeps_others_step:
  assumes "owned w d i" and "\<And>j. j \<noteq> i \<Longrightarrow> node_at t j = node_at d j \<and> pos_at t j = pos_at d j"
    and "\<And>r. node_at t i = Some r \<Longrightarrow> tn_workflow r = w"
  shows "keeps_others w d t"
proof -
  have "node_at t j = Some r \<longleftrightarrow> node_at d j = Some r" if "tn_workflow r \<noteq> w" for j r
    using assms that unfolding owned_def by (cases "j = i") auto
  moreover have "pos_at t j = pos_at d j" if "node_at d j = Some r" "tn_workflow r \<noteq> w" for j r
    using assms that unfolding owned_def by (cases "j = i") auto
  ultimately show ?thesis unfolding keeps_others_def by blast
qed


lemma delete_node_others:
  assumes ok: "rows_ok d" and s: "tx_delete_node i d = Inr d'" and own: "owned w d i"
  shows "keeps_others w d d'"
  by (rule keeps_others_step [OF own]) (simp_all add: delete_node(2,3) [OF ok s])

lemma delete_nodes_others:
  assumes "rows_ok d" and "tx_each tx_delete_node is d = Inr d'" and "\<forall>i\<in>set is. owned w d i"
  shows "keeps_others w d d'"
  using assms
proof (induction "is" arbitrary: d)
  case (Cons i "is")
  obtain d1 where d1: "tx_delete_node i d = Inr d1" "tx_each tx_delete_node is d1 = Inr d'" using Cons.prems(2) by auto
  have k: "keeps_others w d d1" by (rule delete_node_others [OF Cons.prems(1) d1(1)]) (use Cons.prems(3) in simp)
  have "keeps_others w d1 d'"
    by (rule Cons.IH [OF delete_node(1) [OF Cons.prems(1) d1(1)] d1(2)]) (use Cons.prems(3) owned_later [OF k] in simp)
  then show ?case using keeps_others_trans [OF k] by blast
qed simp

lemma fresh_owned:
  assumes "rows_ok d"
  shows "node_at d (db_nextNode d) = None"
proof -
  have "db_nextNode d \<notin> node_ids d" using assms unfolding rows_ok_def by blast
  then show ?thesis using dom_node_at [of d] by blast
qed

lemma add_nodes_others:
  assumes "rows_ok d" and "tx_each (tx_add_node w) ns (d, ids) = Inr (d', ids')"
  shows "keeps_others w d d'"
  using assms
proof (induction ns arbitrary: d ids)
  case (Cons n ns)
  obtain s1 where s1: "tx_add_node w n (d, ids) = Inr s1" "tx_each (tx_add_node w) ns s1 = Inr (d', ids')" using Cons.prems(2) by auto
  then obtain i d1 where d1: "tx_insert_node w n d = Inr (i, d1)" "tx_each (tx_add_node w) ns (d1, js_set (dn_id n) i ids) = Inr (d', ids')"
    by (auto simp: tx_add_node_def split_def)
  note s = insert_node [OF Cons.prems(1) d1(1)]
  have "owned w d i" using fresh_owned [OF Cons.prems(1)] by (simp add: owned_def s(2))
  then have "keeps_others w d d1" by (rule keeps_others_step) (simp_all add: s(4,5) new_row_def)
  then show ?case using Cons.IH [OF s(1) d1(2)] keeps_others_trans by blast
qed simp

lemma change_node_others:
  assumes ok: "rows_ok d" and s: "tx_change_node n d = Inr d'" and own: "owned w d (node_num n)"
  shows "keeps_others w d d' \<and> workflow_at d' = workflow_at d"
proof
  show "keeps_others w d d'"
    by (rule keeps_others_step [OF own]) (use own in \<open>auto simp: change_node(2,3) [OF ok s] owned_def\<close>)
  show "workflow_at d' = workflow_at d"
    by (simp add: fun_eq_iff workflow_at_def change_node(2) [OF ok s] option.map_comp o_def)
qed

lemma change_nodes_others:
  assumes "rows_ok d" and "tx_each tx_change_node ns d = Inr d'" and "\<forall>n\<in>set ns. owned w d (node_num n)"
  shows "rows_ok d' \<and> keeps_others w d d' \<and> workflow_at d' = workflow_at d \<and> db_edges d' = db_edges d \<and> db_workflows d' = db_workflows d \<and> same_rest d d'"
  using assms
proof (induction ns arbitrary: d)
  case (Cons n ns)
  obtain d1 where d1: "tx_change_node n d = Inr d1" "tx_each tx_change_node ns d1 = Inr d'" using Cons.prems(2) by auto
  note s = change_node [OF Cons.prems(1) d1(1)]
  have k: "keeps_others w d d1 \<and> workflow_at d1 = workflow_at d" by (rule change_node_others [OF Cons.prems(1) d1(1)]) (use Cons.prems(3) in simp)
  have "\<forall>n\<in>set ns. owned w d1 (node_num n)" using Cons.prems(3) owned_later [OF conjunct1 [OF k]] by simp
  note IH = Cons.IH [OF s(1) d1(2) this]
  show ?case using IH k s(4,5) keeps_others_trans [OF conjunct1 [OF k]] same_rest_trans [OF s(7)] by simp
qed simp

lemma move_nodes_others:
  assumes "rows_ok d" and "tx_each tx_move_node ns d = Inr d'" and "\<forall>n\<in>set ns. owned w d (node_num n)"
  shows "rows_ok d' \<and> keeps_others w d d' \<and> workflow_at d' = workflow_at d \<and> db_edges d' = db_edges d \<and> db_workflows d' = db_workflows d \<and> same_rest d d'"
  using assms
proof (induction ns arbitrary: d)
  case (Cons n ns)
  obtain d1 where d1: "tx_move_node n d = Inr d1" "tx_each tx_move_node ns d1 = Inr d'" using Cons.prems(2) by auto
  note s = move_node [OF Cons.prems(1) d1(1)]
  have own: "owned w d (node_num n)" using Cons.prems(3) by simp
  have k: "keeps_others w d d1" by (rule keeps_others_step [OF own]) (use own in \<open>auto simp: s(2,3) owned_def\<close>)
  have "\<forall>n\<in>set ns. owned w d1 (node_num n)" using Cons.prems(3) owned_later [OF k] by simp
  note IH = Cons.IH [OF s(1) d1(2) this]
  have "workflow_at d1 = workflow_at d" by (simp add: fun_eq_iff workflow_at_def s(2))
  then show ?case using IH s(4,5) keeps_others_trans [OF k] same_rest_trans [OF s(7)] by simp
qed simp

section \<open>The transaction\<close>

lemma tx_update_others:
  assumes ok: "rows_ok d" and tx: "tx_update w dl ex d = Inr d'" and known: "existing_ids ex [] = Some ids0"
    and own: "\<forall>i\<in>set (dl_delete dl). owned w d i" "\<forall>n\<in>set (dl_update dl) \<union> set (dl_updateUI dl). owned w d (node_num n)"
  defines "ids \<equiv> map_of ids0 ++ map_of (rev (map (\<lambda>(i, n). (dn_id n, i)) (numbered (db_nextNode d) (dl_create dl))))"
  shows "rows_ok d' \<and> same_rest d d' \<and> keeps_others w d d'"
    "db_workflows d' = db_workflows (if dl_updateMetadata dl then q_UpdateWorkflow w (dl_name dl) (dl_description dl) d else d)"
    "workflow_at d' i = (if i \<in> fst ` set (numbered (db_nextNode d) (dl_create dl)) then Some w else if i \<in> set (dl_delete dl) then None else workflow_at d i)"
    "set (db_edges d') = {e \<in> set (db_edges d). te_source e \<notin> set (dl_delete dl) \<and> te_target e \<notin> set (dl_delete dl) \<and> \<not> (te_workflow e = w \<and>
         (te_source e, te_target e) \<in> (\<lambda>k. (int32 (the (Atoi (fst k))), int32 (the (Atoi (snd k))))) ` set (dl_deleteEdges dl))} \<union>
       (\<lambda>k. \<lparr>te_workflow = w, te_source = (case ids (fst k) of None \<Rightarrow> 0 | Some i \<Rightarrow> i), te_target = (case ids (snd k) of None \<Rightarrow> 0 | Some i \<Rightarrow> i)\<rparr>) ` set (dl_addEdges dl)"
proof -
  let ?d0 = "if dl_updateMetadata dl then q_UpdateWorkflow w (dl_name dl) (dl_description dl) d else d"
  have m: "rows_ok ?d0" "node_at ?d0 = node_at d" "pos_at ?d0 = pos_at d" "db_edges ?d0 = db_edges d" "db_nextNode ?d0 = db_nextNode d" "same_rest d ?d0"
    using ok by (simp_all add: metadata_ok)
  obtain d1 d2 ids' d3 d4 d5 where steps: "tx_each tx_delete_node (dl_delete dl) ?d0 = Inr d1" "tx_each (tx_add_node w) (dl_create dl) (d1, ids0) = Inr (d2, ids')"
    "tx_each tx_change_node (dl_update dl) d2 = Inr d3" "tx_each tx_move_node (dl_updateUI dl) d3 = Inr d4"
    "tx_each (tx_delete_edge w) (dl_deleteEdges dl) d4 = Inr d5" "tx_each (tx_add_edge w ids') (dl_addEdges dl) d5 = Inr d'"
    using tx known by (auto simp: tx_update_def simp del: tx_each.simps)
  have k0: "keeps_others w d ?d0" by (rule keeps_others_same) (rule m)+
  have k1: "keeps_others w d d1"
    by (rule keeps_others_trans [OF k0 delete_nodes_others [OF m(1) steps(1)]]) (use own(1) owned_later [OF k0] in blast)
  note s1 = delete_nodes [OF m(1) steps(1)]
  have k2: "keeps_others w d d2" by (rule keeps_others_trans [OF k1 add_nodes_others [OF conjunct1 [OF s1] steps(2)]])
  note s2 = add_nodes [OF conjunct1 [OF s1] steps(2)]
  have own2: "\<forall>n\<in>set (dl_update dl). owned w d2 (node_num n)" using own(2) owned_later [OF k2] by blast
  note s3 = change_nodes_others [OF conjunct1 [OF s2] steps(3) own2]
  have k3: "keeps_others w d d3" using keeps_others_trans [OF k2] s3 by blast
  have own3: "\<forall>n\<in>set (dl_updateUI dl). owned w d3 (node_num n)" using own(2) owned_later [OF k3] by blast
  note s4 = move_nodes_others [OF conjunct1 [OF s3] steps(4) own3]
  have k4: "keeps_others w d d4" using keeps_others_trans [OF k3] s4 by blast
  note s5 = delete_edges [OF conjunct1 [OF s4] steps(5)]
  note s6 = add_edge_rows [OF conjunct1 [OF s5] steps(6)]
  have nx: "db_nextNode d1 = db_nextNode d" using s1 m(5) by simp
  have ib: "map_of ids' = ids" using s2 unfolding ids_def nx by blast
  have "same_rest d d'" using m(6) s1 s2 s3 s4 s5 s6 same_rest_trans by meson
  moreover have k6: "keeps_others w d d'" by (rule keeps_others_trans [OF k4 keeps_others_same]) (use s5 s6 in simp_all)
  ultimately show "rows_ok d' \<and> same_rest d d' \<and> keeps_others w d d'" using s6 by blast
  show "db_workflows d' = db_workflows ?d0" using s1 s2 s3 s4 s5 s6 by simp
  have n2: "node_at d2 = node_at d |` (- set (dl_delete dl)) ++ map_of (map (\<lambda>(i, n). (i, new_row w i n)) (numbered (db_nextNode d) (dl_create dl)))"
    using s1 s2 m(2) unfolding nx by simp
  have "workflow_at d' = workflow_at d4" using s5 s6 by (simp add: fun_eq_iff workflow_at_def)
  then have "workflow_at d' = workflow_at d2" using s3 s4 by simp
  moreover have "workflow_at d2 i = (if i \<in> fst ` set (numbered (db_nextNode d) (dl_create dl)) then Some w else if i \<in> set (dl_delete dl) then None else workflow_at d i)"
  proof (cases "i \<in> fst ` set (numbered (db_nextNode d) (dl_create dl))")
    case True
    then obtain n where "(i, n) \<in> set (numbered (db_nextNode d) (dl_create dl))" by force
    then show ?thesis using True numbered_lookup [of i n "db_nextNode d" "dl_create dl" "new_row w"]
      by (simp add: workflow_at_def n2 map_add_def new_row_def)
  next
    case False
    then have "map_of (map (\<lambda>(i, n). (i, new_row w i n)) (numbered (db_nextNode d) (dl_create dl))) i = None"
      by (force simp: map_of_eq_None_iff)
    then show ?thesis using False by (simp add: workflow_at_def n2 map_add_def restrict_map_def)
  qed
  ultimately show "workflow_at d' i =
      (if i \<in> fst ` set (numbered (db_nextNode d) (dl_create dl)) then Some w else if i \<in> set (dl_delete dl) then None else workflow_at d i)" by simp
  have e4: "set (db_edges d4) = {e \<in> set (db_edges d). te_source e \<notin> set (dl_delete dl) \<and> te_target e \<notin> set (dl_delete dl)}"
    using s1 s2 s3 s4 m(4) by simp
  have look: "go_lookup ids' x = (case ids x of None \<Rightarrow> 0 | Some i \<Rightarrow> i)" for x by (simp add: go_lookup_def ib)
  show "set (db_edges d') = {e \<in> set (db_edges d). te_source e \<notin> set (dl_delete dl) \<and> te_target e \<notin> set (dl_delete dl) \<and> \<not> (te_workflow e = w \<and>
         (te_source e, te_target e) \<in> (\<lambda>k. (int32 (the (Atoi (fst k))), int32 (the (Atoi (snd k))))) ` set (dl_deleteEdges dl))} \<union>
       (\<lambda>k. \<lparr>te_workflow = w, te_source = (case ids (fst k) of None \<Rightarrow> 0 | Some i \<Rightarrow> i), te_target = (case ids (snd k) of None \<Rightarrow> 0 | Some i \<Rightarrow> i)\<rparr>) ` set (dl_addEdges dl)"
    using s5 s6 e4 unfolding look by auto
qed

section \<open>The update\<close>

lemma ids_of_owned: "rows_ok d \<Longrightarrow> i \<in> ids_of w d \<Longrightarrow> owned w d i"
  using ids_of_node_at [of d i w] by (auto simp: owned_def)

lemma ids_of_workflow_at: "rows_ok d \<Longrightarrow> i \<in> ids_of w d \<longleftrightarrow> workflow_at d i = Some w"
  using ids_of_node_at [of d i w] by (auto simp: workflow_at_def)

lemma update_others:
  assumes ok: "rows_ok d" and within: "edges_within d" and ord: "order_doc ev" and uuid: "uuid_doc ev"
    and upd: "WorkflowService_UpdateWorkflow ev u w name description nodes edges d = (None, d')"
  obtains num where "check_graph ev nodes edges = None" "rows_ok d'" "edges_within d'" "keeps_others w d d'" "inj_on num (dn_id ` set nodes)"
    "edge_nums ` {e \<in> set (db_edges d'). te_workflow e = w} = (\<lambda>e. (num (de_source e), num (de_target e))) ` set edges"
    "{e \<in> set (db_edges d'). te_workflow e \<noteq> w} = {e \<in> set (db_edges d). te_workflow e \<noteq> w}"
    "\<forall>r. tw_id r \<noteq> w \<longrightarrow> (r \<in> set (db_workflows d') \<longleftrightarrow> r \<in> set (db_workflows d))"
proof -
  obtain g d0 del ids0 r where R: "check_graph ev nodes edges = None" "workflowRepo_RenderWorkflowGraph ev w d = Inr g"
    "same_graph d d0" "tx_update w (plan_of ev u w name description g nodes edges del) (gd_nodes g) d0 = Inr d'"
    "existing_ids (gd_nodes g) [] = Some ids0" "keeps_ids ev w g nodes d" "set del = gone ev w nodes d"
    "numbers_ids ev w nodes (map_of ids0 ++ map_of (rev (map (\<lambda>(i, n). (dn_id n, i)) (new_nodes ev nodes d)))) d"
    "\<forall>n\<in>set nodes. dn_config n \<noteq> None"
    "r \<in> set (db_workflows d)" "tw_id r = w" "gd_name g = tw_name r" "gd_description g = tw_description r"
    "edge_key ` set (gd_edges g) = {(show_int (te_source e), show_int (te_target e)) | e. e \<in> set (db_edges d) \<and> te_workflow e = w \<and> te_source e \<in> ids_of w d}"
    by (rule update_run_any [OF ok ord uuid upd]) blast
  note eqs = same_graph_eqs [OF R(3)] and ends = checked_edges [OF R(1)]
  define ids where "ids = map_of ids0 ++ map_of (rev (map (\<lambda>(i, n). (dn_id n, i)) (new_nodes ev nodes d)))"
  note nums = R(8) [folded ids_def]
  let ?num = "number_of ids"
  have own: "owned w d0 i" if "i \<in> ids_of w d" for i using ids_of_owned [OF ok that] by (simp add: owned_def eqs(2))
  have own1: "\<forall>i\<in>set del. owned w d0 i" unfolding R(7) gone_def using own by blast
  have own2: "\<forall>n\<in>set (dl_update (plan_of ev u w name description g nodes edges del)) \<union> set (dl_updateUI (plan_of ev u w name description g nodes edges del)). owned w d0 (node_num n)"
    unfolding planned_lists using R(6) own unfolding keeps_ids_def by auto
  have ok0: "rows_ok d0" using ok eqs(1) by simp
  note e = tx_update_others [OF ok0 R(4,5), unfolded planned_lists, OF own1 own2 [unfolded planned_lists], unfolded eqs R(7), folded new_nodes_def, folded ids_def]
  have k: "keeps_others w d d'" using e(1) eqs(2,3) by (simp add: keeps_others_def)
  note edges = stored_edges [OF ok within ord uuid e(4) nums ends R(14)]
  have here: "workflow_at d' (?num x) = Some w" if "x \<in> dn_id ` set nodes" for x
  proof -
    from that obtain n where n: "n \<in> set nodes" "x = dn_id n" by blast
    show ?thesis
    proof (cases "ev_uuid ev x")
      case True
      then obtain m where "(?num x, m) \<in> set (new_nodes ev nodes d)" using num_new_any [OF nums n(1)] n(2) by metis
      then have "?num x \<in> fst ` set (new_nodes ev nodes d)" by force
      then show ?thesis unfolding e(3) by simp
    next
      case False
      note kept = num_kept [OF R(6) nums n(1) False [unfolded n(2)]]
      then show ?thesis using ids_of_workflow_at [OF ok, of "node_num n" w] unfolding e(3) n(2) by (simp add: workflow_at_def eqs(2))
    qed
  qed
  have "\<exists>n. node_at d' i = Some n \<and> tn_workflow n = te_workflow e" if e: "e \<in> set (db_edges d')" and i: "i \<in> {te_source e, te_target e}" for e i
  proof (cases "te_workflow e = w")
    case True
    then have "edge_nums e \<in> (\<lambda>e. (?num (de_source e), ?num (de_target e))) ` set edges" using edges(1) e by blast
    then obtain e' where "e' \<in> set edges" "te_source e = ?num (de_source e')" "te_target e = ?num (de_target e')" unfolding edge_nums_def by blast
    then have "workflow_at d' i = Some w" using ends i here by auto
    then show ?thesis using True by (simp add: workflow_at_def)
  next
    case False
    then have "e \<in> set (db_edges d)" using edges(2) e by blast
    then obtain n where "node_at d i = Some n" "tn_workflow n = te_workflow e" using within i unfolding edges_within_def by blast
    then show ?thesis using k False unfolding keeps_others_def by (intro exI [of _ n]) simp
  qed
  then have within': "edges_within d'" unfolding edges_within_def by blast
  have rows: "\<forall>r. tw_id r \<noteq> w \<longrightarrow> (r \<in> set (db_workflows d') \<longleftrightarrow> r \<in> set (db_workflows d))"
    using e(2) eqs(6) by (auto simp: q_UpdateWorkflow_def image_iff split: if_splits)
  show ?thesis by (rule that [OF R(1) conjunct1 [OF e(1)] within' k num_inj [OF ok R(6) nums] edges rows])
qed

end
