(* ===== verification/Schedule_Poller.thy ===== *)
theory Schedule_Poller
  imports Server_Triggers
begin

text \<open>
  The scheduler process: it polls for due schedules, marks them as running, starts their workflows and computes their next run
  (\<open>backend/cmd/scheduler/scheduler.go\<close>, \<open>backend/services/scheduler.go\<close>). The machine below interleaves the polls of any number of
  processes, the goroutines that they start, the death of processes, and what the services for workflows do to schedules.
\<close>

section \<open>The next run\<close>

definition carbon_doc :: "carbon \<Rightarrow> bool" where
  "carbon_doc cb \<longleftrightarrow>
     (\<forall>s t. cb_Parse cb s = Some t \<longrightarrow> t = 1000 * s) \<and> (\<forall>now t. cb_IsFuture cb now t \<longleftrightarrow> now < t) \<and>
     (\<forall>t. cb_AddDay cb t = t + msPerDay) \<and> (\<forall>t. cb_AddWeek cb t = t + 7 * msPerDay) \<and>
     (\<forall>t. t + 28 * msPerDay \<le> cb_AddMonth cb t \<and> cb_AddMonth cb t \<le> t + 31 * msPerDay)"

definition carbon_step :: "carbon \<Rightarrow> schedule_kind \<Rightarrow> int \<Rightarrow> int" where
  "carbon_step cb st =
     (case st of ScheduleTypeOnce \<Rightarrow> id | ScheduleTypeDaily \<Rightarrow> cb_AddDay cb | ScheduleTypeWeekly \<Rightarrow> cb_AddWeek cb
      | ScheduleTypeMonthly \<Rightarrow> cb_AddMonth cb)"

text \<open>A clock that does not run backwards, and that passes less than half a day in a round of the loop.\<close>

definition steady :: "(nat \<Rightarrow> int) \<Rightarrow> bool" where
  "steady clk \<longleftrightarrow> (\<forall>i. clk i \<le> clk (Suc i) \<and> clk (Suc i) \<le> clk i + msPerDay div 2)"

lemma steady_le: "steady clk \<Longrightarrow> clk (i + k) \<le> clk i + int k * (msPerDay div 2)"
proof (induction k)
  case (Suc k)
  then have "clk (Suc (i + k)) \<le> clk (i + k) + msPerDay div 2" by (simp add: steady_def)
  with Suc show ?case by (simp add: algebra_simps)
qed simp

lemma steady_mono: "steady clk \<Longrightarrow> i \<le> j \<Longrightarrow> clk i \<le> clk j"
  by (rule lift_Suc_mono_le [of clk]) (auto simp: steady_def)

lemma carbon_step_ge:
  "carbon_doc cb \<Longrightarrow> st \<noteq> ScheduleTypeOnce \<Longrightarrow> t + msPerDay \<le> carbon_step cb st t"
  unfolding carbon_doc_def carbon_step_def msPerDay_def
  by (cases st) (auto dest: spec [of _ t])

lemma carbon_step_le:
  "carbon_doc cb \<Longrightarrow> carbon_step cb st t \<le> t + 31 * msPerDay"
  unfolding carbon_doc_def carbon_step_def msPerDay_def
  by (cases st) (auto dest: spec [of _ t])

lemma next_future_step:
  "st \<noteq> ScheduleTypeOnce \<Longrightarrow>
   next_future cb st clk i (Some t) =
     (if cb_IsFuture cb (clk i) t then Some (Inr (Some t)) else next_future cb st clk (Suc i) (Some (carbon_step cb st t)))"
  by (subst next_future.simps) (cases st; simp add: is_future_def carbon_step_def)

text \<open>The loop ends, with the first of the instants that is in the future when it is looked at.\<close>

lemma next_future_found:
  assumes doc: "carbon_doc cb" and st: "st \<noteq> ScheduleTypeOnce" and clk: "steady clk"
  shows "\<exists>k. next_future cb st clk i (Some t) = Some (Inr (Some ((carbon_step cb st ^^ k) t))) \<and>
    clk (i + k) < (carbon_step cb st ^^ k) t \<and> (\<forall>j<k. (carbon_step cb st ^^ j) t \<le> clk (i + j))"
proof (induction "nat (clk i - t + msPerDay)" arbitrary: i t rule: less_induct)
  case less
  have fut: "cb_IsFuture cb n u \<longleftrightarrow> n < u" for n u using doc by (simp add: carbon_doc_def)
  show ?case
  proof (cases "clk i < t")
    case True
    then show ?thesis by (intro exI [of _ 0]) (simp add: next_future_step [OF st] fut)
  next
    case False
    let ?u = "carbon_step cb st t"
    have "clk (Suc i) \<le> clk i + msPerDay div 2" using clk by (simp add: steady_def)
    moreover note carbon_step_ge [OF doc st, of t]
    ultimately have "nat (clk (Suc i) - ?u + msPerDay) < nat (clk i - t + msPerDay)" using False by (simp add: msPerDay_def)
    from less [OF this] obtain k where
      k: "next_future cb st clk (Suc i) (Some ?u) = Some (Inr (Some ((carbon_step cb st ^^ k) ?u)))"
         "clk (Suc i + k) < (carbon_step cb st ^^ k) ?u" "\<forall>j<k. (carbon_step cb st ^^ j) ?u \<le> clk (Suc i + j)" by blast
    have shift: "(carbon_step cb st ^^ Suc j) t = (carbon_step cb st ^^ j) ?u" for j by (simp add: funpow_swap1)
    have "\<forall>j<Suc k. (carbon_step cb st ^^ j) t \<le> clk (i + j)"
    proof (intro allI impI)
      fix j assume "j < Suc k"
      then show "(carbon_step cb st ^^ j) t \<le> clk (i + j)"
        using False k(3) by (cases j) (auto simp: shift simp del: funpow.simps(2))
    qed
    then show ?thesis using k(1,2) False by (intro exI [of _ "Suc k"]) (simp add: next_future_step [OF st] fut shift del: funpow.simps(2))
  qed
qed

definition schedule_basis :: "int \<Rightarrow> int \<Rightarrow> int" where
  "schedule_basis oldNextRun now = (if oldNextRun = zero_time then now else oldNextRun)"

text \<open>Claim C12: the next run of a repeated schedule is always found, however long the schedule has been overdue: the loop that advances the old time by
  days, weeks or months ends, gives the first of these instants that is in the future when it is looked at, and so lies at most one period after the
  present if the old time had passed.\<close>

theorem next_run_found:
  assumes doc: "carbon_doc cb" and clk: "steady clk" and st: "st \<noteq> ScheduleTypeOnce"
    and parse: "cb_Parse cb (rfc3339_seconds (schedule_basis old now)) = Some base"
  shows "\<exists>k t. CalculateNextRun cb clk st old now = Some (Inr (Some t)) \<and> t = (carbon_step cb st ^^ k) base \<and> clk k < t \<and>
    (\<forall>j<k. (carbon_step cb st ^^ j) base \<le> clk j) \<and> t \<le> max base (clk k + 31 * msPerDay)"
proof -
  obtain k where k: "next_future cb st clk 0 (Some base) = Some (Inr (Some ((carbon_step cb st ^^ k) base)))"
    "clk k < (carbon_step cb st ^^ k) base" "\<forall>j<k. (carbon_step cb st ^^ j) base \<le> clk j"
    using next_future_found [OF doc st clk, of 0 base] by auto
  have "(carbon_step cb st ^^ k) base \<le> max base (clk k + 31 * msPerDay)"
  proof (cases k)
    case (Suc j)
    have "(carbon_step cb st ^^ j) base \<le> clk j" "clk j \<le> clk k" using k(3) Suc steady_mono [OF clk, of j k] by auto
    then show ?thesis using carbon_step_le [OF doc, of st "(carbon_step cb st ^^ j) base"] Suc by simp
  qed simp
  then show ?thesis using k parse st by (auto simp: CalculateNextRun_def schedule_basis_def)
qed

definition plain_carbon :: carbon where
  "plain_carbon = \<lparr>cb_Parse = (\<lambda>s. Some (1000 * s)), cb_IsFuture = (<), cb_AddDay = (\<lambda>t. t + msPerDay),
     cb_AddWeek = (\<lambda>t. t + 7 * msPerDay), cb_AddMonth = (\<lambda>t. t + 30 * msPerDay)\<rparr>"

lemma plain_carbon_doc: "carbon_doc plain_carbon"
  by (simp add: carbon_doc_def plain_carbon_def msPerDay_def)

lemma steady_const: "steady (\<lambda>i. c)"
  by (simp add: steady_def msPerDay_def)

theorem next_run_found_witness:
  "\<exists>k t. CalculateNextRun plain_carbon (\<lambda>i. 2 * msPerDay) ScheduleTypeDaily 5500 0 = Some (Inr (Some t)) \<and>
    t = (carbon_step plain_carbon ScheduleTypeDaily ^^ k) 5000 \<and> 2 * msPerDay < t \<and> t \<le> max 5000 (2 * msPerDay + 31 * msPerDay)"
proof -
  have "cb_Parse plain_carbon (rfc3339_seconds (schedule_basis 5500 0)) = Some 5000"
    by (simp add: plain_carbon_def schedule_basis_def zero_time_def rfc3339_seconds_def)
  from next_run_found [OF plain_carbon_doc steady_const _ this, of ScheduleTypeDaily "2 * msPerDay"] show ?thesis by blast
qed

section \<open>Polling\<close>

definition due_limit :: nat where
  "due_limit = 1000"

text \<open>\<open>time.UnixMilli(r.NextRunAt.Int64)\<close>: a null is read as 0.\<close>

definition row_next :: "schedule_row \<Rightarrow> int" where
  "row_next r = (case ts_next r of None \<Rightarrow> 0 | Some t \<Rightarrow> t)"

text \<open>What \<open>RunScheduledWorkflow\<close> does before it starts a goroutine: an error, nothing, or the goroutine for a kind of schedule.\<close>

definition RunScheduledWorkflow ::
  "carbon \<Rightarrow> int \<Rightarrow> bool \<Rightarrow> schedule_row \<Rightarrow> string + schedule_kind option" where
  "RunScheduledWorkflow cb now cancelled ws =
     (if cancelled then Inr None
      else case ScheduleTypes (ts_type ws) of
             None \<Rightarrow> Inl ''invalid schedule type''
           | Some st \<Rightarrow> (case ValidateSchedule cb now st (row_next ws) (ts_state ws = ''running'') of
               Some e \<Rightarrow> Inl e
             | None \<Rightarrow> Inr (Some st)))"

text \<open>What the goroutine does after the workflow was started or its start has failed. \<open>None\<close> is a goroutine that stays in the loop.\<close>

definition settle_schedule ::
  "carbon \<Rightarrow> (nat \<Rightarrow> int) \<Rightarrow> int \<Rightarrow> schedule_row \<Rightarrow> schedule_kind \<Rightarrow> server_db \<Rightarrow> (srv_error option \<times> server_db) option" where
  "settle_schedule cb clk now ws st d =
     (case CalculateNextRun cb clk st (row_next ws) now of
        None \<Rightarrow> None
      | Some r \<Rightarrow>
          let nr = (case r of Inl e \<Rightarrow> None | Inr nextRun \<Rightarrow> nextRun)
          in Some (scheduleRepo_UpdateWorkflowSchedule (ts_workflow ws) (kind_text st) nr (Some now) d))"

text \<open>The goroutines in flight with the row they were started for. \<open>ps_starts\<close> is not in the program: it records for every goroutine the
  schedule and the time at which it was due.\<close>

record poll_state =
  ps_db :: server_db
  ps_now :: int
  ps_jobs :: "(schedule_row \<times> string \<times> schedule_kind) list"
  ps_starts :: "(int \<times> int) list"

text \<open>A poll claims rows and goes through them until its context is cancelled, after \<open>n\<close> rows. A goroutine settles, with its update of the row reaching the
  database or not, or dies with its process. Schedules are set by the trigger handlers, after they were validated.\<close>

datatype poll_event =
    Tick int
  | Poll "int set" nat
  | Settle nat "nat \<Rightarrow> int" bool
  | Die nat
  | Reschedule int schedule_kind int
  | NewSchedule int schedule_kind int
  | Unschedule int

definition drop_job :: "nat \<Rightarrow> 'a list \<Rightarrow> 'a list" where
  "drop_job i xs = take i xs @ drop (Suc i) xs"

definition started_by_poll ::
  "carbon \<Rightarrow> int \<Rightarrow> (schedule_row \<times> string) list \<Rightarrow> (schedule_row \<times> string \<times> schedule_kind) list" where
  "started_by_poll cb now rows =
     concat (map (\<lambda>(ws, user). case RunScheduledWorkflow cb now False ws of Inr (Some st) \<Rightarrow> [(ws, user, st)] | _ \<Rightarrow> []) rows)"

fun poll_step :: "carbon \<Rightarrow> poll_event \<Rightarrow> poll_state \<Rightarrow> poll_state" where
  "poll_step cb (Tick t) s = s\<lparr>ps_now := max (ps_now s) t\<rparr>"
| "poll_step cb (Poll locked n) s =
     (let (rows, d) = q_GetDueSchedulesLocked (ps_now s) due_limit locked (ps_db s);
          jobs = started_by_poll cb (ps_now s) (take n rows)
      in s\<lparr>ps_db := d, ps_jobs := ps_jobs s @ jobs, ps_starts := ps_starts s @ map (\<lambda>(ws, _). (ts_id ws, row_next ws)) jobs\<rparr>)"
| "poll_step cb (Settle i clk ok) s =
     (if i < length (ps_jobs s)
      then (let (ws, user, st) = ps_jobs s ! i
            in case settle_schedule cb (\<lambda>k. max (ps_now s) (clk k)) (ps_now s) ws st (ps_db s) of
                 None \<Rightarrow> s
               | Some (e, d) \<Rightarrow> s\<lparr>ps_jobs := drop_job i (ps_jobs s), ps_db := (if ok then d else ps_db s)\<rparr>)
      else s)"
| "poll_step cb (Die i) s = s\<lparr>ps_jobs := drop_job i (ps_jobs s)\<rparr>"
| "poll_step cb (Reschedule w st t) s =
     (if ValidateSchedule cb (ps_now s) st t False = None then s\<lparr>ps_db := snd (UpdateWorkflowSchedule w st t (ps_db s))\<rparr> else s)"
| "poll_step cb (NewSchedule w st t) s =
     (if ValidateSchedule cb (ps_now s) st t False = None then s\<lparr>ps_db := snd (ScheduleWorkflow w st t (ps_db s))\<rparr> else s)"
| "poll_step cb (Unschedule w) s = s\<lparr>ps_db := q_DeleteWorkflowScheduleByWorkflowID w (ps_db s)\<rparr>"

definition poll_init :: "server_db \<Rightarrow> int \<Rightarrow> poll_state" where
  "poll_init d now = \<lparr>ps_db = d\<lparr>db_schedules := []\<rparr>, ps_now = now, ps_jobs = [], ps_starts = []\<rparr>"

section \<open>No occurrence is run twice\<close>

definition starts_of :: "int \<Rightarrow> poll_state \<Rightarrow> int list" where
  "starts_of i s = map snd (filter (\<lambda>p. fst p = i) (ps_starts s))"

definition poll_inv :: "poll_state \<Rightarrow> bool" where
  "poll_inv s \<longleftrightarrow>
     distinct (map ts_id (db_schedules (ps_db s))) \<and>
     (\<forall>r\<in>set (db_schedules (ps_db s)). ts_id r < db_nextSchedule (ps_db s)) \<and>
     (\<forall>p\<in>set (ps_starts s). fst p < db_nextSchedule (ps_db s) \<and> snd p \<le> ps_now s) \<and>
     (\<forall>r\<in>set (db_schedules (ps_db s)). ts_state r = ''queued'' \<longrightarrow>
        (\<forall>p\<in>set (ps_starts s). fst p = ts_id r \<longrightarrow> (\<forall>t\<in>set_option (ts_next r). snd p < t))) \<and>
     sorted_wrt (\<lambda>p q. fst p = fst q \<longrightarrow> snd p < snd q) (ps_starts s)"

lemma carbon_docD:
  assumes "carbon_doc cb"
  shows "cb_IsFuture cb now t \<longleftrightarrow> now < t" "cb_Parse cb s = Some t \<Longrightarrow> t = 1000 * s"
  using assms by (auto simp: carbon_doc_def)

lemma next_future_is_future:
  "next_future cb st clk i dt = Some r \<Longrightarrow> \<forall>x. r = Inr x \<longrightarrow> (\<exists>k. is_future cb (clk k) x)"
proof (rule next_future.raw_induct [where P = "\<lambda>cb st clk i dt r. \<forall>x. r = Inr x \<longrightarrow> (\<exists>k. is_future cb (clk k) x)"])
  fix nf :: "carbon \<Rightarrow> schedule_kind \<Rightarrow> (nat \<Rightarrow> int) \<Rightarrow> nat \<Rightarrow> int option \<Rightarrow> (string + int option) option" and cb st clk i dt r
  assume IH: "\<And>cb st clk i dt r. nf cb st clk i dt = Some r \<Longrightarrow> \<forall>x. r = Inr x \<longrightarrow> (\<exists>k. is_future cb (clk k) x)"
    and step: "(if is_future cb (clk i) dt then Some (Inr dt)
      else case st of
             ScheduleTypeDaily \<Rightarrow> nf cb st clk (Suc i) (map_option (cb_AddDay cb) dt)
           | ScheduleTypeWeekly \<Rightarrow> nf cb st clk (Suc i) (map_option (cb_AddWeek cb) dt)
           | ScheduleTypeMonthly \<Rightarrow> nf cb st clk (Suc i) (map_option (cb_AddMonth cb) dt)
           | ScheduleTypeOnce \<Rightarrow> Some (Inl ''invalid schedule type'')) = Some r"
  show "\<forall>x. r = Inr x \<longrightarrow> (\<exists>k. is_future cb (clk k) x)"
  proof (cases "is_future cb (clk i) dt")
    case False
    then show ?thesis using step IH by (cases st) auto
  qed (use step in auto)
qed

lemma calculated_in_future:
  assumes "carbon_doc cb" and "CalculateNextRun cb clk st old now = Some (Inr (Some t))"
  shows "\<exists>k. clk k < t"
  using assms next_future_is_future [of cb st clk 0 _ "Inr (Some t)"]
  by (auto simp: CalculateNextRun_def is_future_def carbon_docD Let_def split: if_splits)

lemma validated_in_future:
  assumes "carbon_doc cb" and "ValidateSchedule cb now st t False = None"
  shows "now < t"
  using assms carbon_docD [OF assms(1)]
  by (auto simp: ValidateSchedule_def is_future_def rfc3339_seconds_def Let_def split: if_splits option.splits dest!: carbon_docD(2) [OF assms(1)])

text \<open>What a step does to rows: identifiers stay, and a queued row with a time is an old one or has a time in the future.\<close>

definition rows_evolve :: "int \<Rightarrow> server_db \<Rightarrow> server_db \<Rightarrow> bool" where
  "rows_evolve now d d' \<longleftrightarrow>
     distinct (map ts_id (db_schedules d')) \<and> db_nextSchedule d \<le> db_nextSchedule d' \<and>
     (\<forall>r\<in>set (db_schedules d'). ts_id r < db_nextSchedule d') \<and>
     (\<forall>r\<in>set (db_schedules d'). ts_state r = ''queued'' \<longrightarrow> r \<in> set (db_schedules d) \<or> (\<forall>t\<in>set_option (ts_next r). now < t))"

lemma evolve_inv:
  assumes inv: "poll_inv s" and ev: "rows_evolve (ps_now s) (ps_db s) d"
  shows "poll_inv (s\<lparr>ps_db := d\<rparr>)"
proof -
  have "\<forall>p\<in>set (ps_starts s). fst p = ts_id r \<longrightarrow> (\<forall>t\<in>set_option (ts_next r). snd p < t)"
    if r: "r \<in> set (db_schedules d)" "ts_state r = ''queued''" for r
  proof (cases "r \<in> set (db_schedules (ps_db s))")
    case True
    then show ?thesis using inv r(2) by (simp add: poll_inv_def)
  next
    case False
    then have "\<forall>t\<in>set_option (ts_next r). ps_now s < t" using ev r by (auto simp: rows_evolve_def)
    moreover have "\<forall>p\<in>set (ps_starts s). snd p \<le> ps_now s" using inv by (simp add: poll_inv_def)
    ultimately show ?thesis by force
  qed
  then show ?thesis using inv ev by (fastforce simp: poll_inv_def rows_evolve_def)
qed

lemma inv_dbD:
  "poll_inv s \<Longrightarrow> distinct (map ts_id (db_schedules (ps_db s))) \<and> (\<forall>r\<in>set (db_schedules (ps_db s)). ts_id r < db_nextSchedule (ps_db s))"
  by (simp add: poll_inv_def)

lemma ts_id_update [simp]:
  "ts_id \<circ> (\<lambda>r. if P r then r\<lparr>ts_type := a, ts_next := b, ts_last := c, ts_state := e\<rparr> else r) = ts_id"
  "ts_id \<circ> (\<lambda>r. if P r then r\<lparr>ts_state := e\<rparr> else r) = ts_id"
  by (auto simp: fun_eq_iff)

lemma update_evolves:
  assumes "distinct (map ts_id (db_schedules d)) \<and> (\<forall>r\<in>set (db_schedules d). ts_id r < db_nextSchedule d)"
    and "\<forall>t\<in>set_option nr. now < t"
  shows "rows_evolve now d (snd (scheduleRepo_UpdateWorkflowSchedule w ty nr lr d))"
  using assms
  by (auto simp: rows_evolve_def scheduleRepo_UpdateWorkflowSchedule_def q_UpdateWorkflowSchedule_def db_result_def Let_def)

lemma create_evolves:
  assumes "distinct (map ts_id (db_schedules d)) \<and> (\<forall>r\<in>set (db_schedules d). ts_id r < db_nextSchedule d)" and "now < t"
  shows "rows_evolve now d (snd (ScheduleWorkflow w st t d))"
  using assms
  by (auto simp: rows_evolve_def ScheduleWorkflow_def scheduleRepo_Create_def q_CreateWorkflowSchedule_def db_result_def Let_def)

lemma delete_evolves:
  assumes "distinct (map ts_id (db_schedules d)) \<and> (\<forall>r\<in>set (db_schedules d). ts_id r < db_nextSchedule d)"
  shows "rows_evolve now d (q_DeleteWorkflowScheduleByWorkflowID w d)"
  using assms by (auto simp: rows_evolve_def q_DeleteWorkflowScheduleByWorkflowID_def distinct_map_filter_key)

lemma settle_evolves:
  assumes doc: "carbon_doc cb" and db: "distinct (map ts_id (db_schedules d)) \<and> (\<forall>r\<in>set (db_schedules d). ts_id r < db_nextSchedule d)"
    and clk: "\<And>k. now \<le> clk k" and s: "settle_schedule cb clk now ws st d = Some (e, d')"
  shows "rows_evolve now d d'"
proof -
  obtain r where r: "CalculateNextRun cb clk st (row_next ws) now = Some r"
    and d': "d' = snd (scheduleRepo_UpdateWorkflowSchedule (ts_workflow ws) (kind_text st) (case r of Inl e \<Rightarrow> None | Inr x \<Rightarrow> x) (Some now) d)"
    using s by (auto simp: settle_schedule_def Let_def split: option.splits dest: arg_cong [of _ _ snd])
  have "now < t" if "r = Inr (Some t)" for t
    using calculated_in_future [OF doc] r that clk by (meson le_less_trans)
  then have "\<forall>t\<in>set_option (case r of Inl e \<Rightarrow> None | Inr x \<Rightarrow> x). now < t" by (auto split: sum.splits)
  then show ?thesis unfolding d' using db by (rule update_evolves [rotated])
qed

text \<open>A poll: the rows it starts are queued and due, and none of them stays queued.\<close>

lemma due_rows:
  assumes "(rows, d) = q_GetDueSchedulesLocked now k locked d0"
  shows "\<forall>(ws, u)\<in>set rows. \<exists>r\<in>set (db_schedules d0). schedule_due now r \<and> ts_id ws = ts_id r \<and> ts_next ws = ts_next r \<and> ts_workflow ws = ts_workflow r"
    and "\<exists>rs. map (\<lambda>(ws, u). ts_id ws) rows = map ts_id (take k (filter rs (db_schedules d0)))"
    and "\<forall>r\<in>set (db_schedules d). ts_state r = ''queued'' \<longrightarrow> r \<in> set (db_schedules d0) \<and> ts_id r \<notin> (\<lambda>(ws, u). ts_id ws) ` set rows"
    and "map ts_id (db_schedules d) = map ts_id (db_schedules d0)" and "db_nextSchedule d = db_nextSchedule d0"
proof -
  let ?P = "\<lambda>s. schedule_due now s \<and> ts_workflow s \<in> workflow_ids d0 \<and> ts_id s \<notin> locked"
  let ?due = "take k (filter ?P (db_schedules d0))"
  let ?user = "\<lambda>s. case List.find (\<lambda>w. tw_id w = ts_workflow s) (db_workflows d0) of None \<Rightarrow> [] | Some w \<Rightarrow> tw_user w"
  have rows: "rows = map (\<lambda>s. (s\<lparr>ts_state := ''running''\<rparr>, ?user s)) ?due"
    and d: "d = d0\<lparr>db_schedules := map (\<lambda>s. if ts_id s \<in> ts_id ` set ?due then s\<lparr>ts_state := ''running''\<rparr> else s) (db_schedules d0)\<rparr>"
    using assms by (simp_all add: q_GetDueSchedulesLocked_def Let_def)
  show "\<forall>(ws, u)\<in>set rows. \<exists>r\<in>set (db_schedules d0). schedule_due now r \<and> ts_id ws = ts_id r \<and> ts_next ws = ts_next r \<and> ts_workflow ws = ts_workflow r"
    unfolding rows by (auto dest!: in_set_takeD)
  show "\<exists>rs. map (\<lambda>(ws, u). ts_id ws) rows = map ts_id (take k (filter rs (db_schedules d0)))"
    unfolding rows by (intro exI [of _ ?P]) (simp add: o_def)
  have ids: "(\<lambda>(ws, u). ts_id ws) ` set rows = ts_id ` set ?due" unfolding rows by (force simp: image_iff)
  show "\<forall>r\<in>set (db_schedules d). ts_state r = ''queued'' \<longrightarrow> r \<in> set (db_schedules d0) \<and> ts_id r \<notin> (\<lambda>(ws, u). ts_id ws) ` set rows"
    unfolding ids unfolding d by auto
  show "map ts_id (db_schedules d) = map ts_id (db_schedules d0)" "db_nextSchedule d = db_nextSchedule d0" unfolding d by simp_all
qed

lemma subseq_subset: "subseq xs ys \<Longrightarrow> set xs \<subseteq> set ys"
  by (induction rule: list_emb.induct) auto

lemma subseq_distinct: "subseq xs ys \<Longrightarrow> distinct ys \<Longrightarrow> distinct xs"
  by (induction rule: list_emb.induct) (auto dest: subseq_subset)

lemma started_sublist:
  "\<exists>zs. started_by_poll cb now rows = map (\<lambda>((ws, u), st). (ws, u, st)) zs \<and> subseq (map fst zs) rows"
proof (induction rows)
  case (Cons r rows)
  obtain zs where zs: "started_by_poll cb now rows = map (\<lambda>((ws, u), st). (ws, u, st)) zs" "subseq (map fst zs) rows"
    using Cons by blast
  obtain ws u where r: "r = (ws, u)" by fastforce
  show ?case
  proof (cases "\<exists>st. RunScheduledWorkflow cb now False ws = Inr (Some st)")
    case True
    then obtain st where "RunScheduledWorkflow cb now False ws = Inr (Some st)" by blast
    then show ?thesis using zs r by (intro exI [of _ "(r, st) # zs"]) (simp add: started_by_poll_def)
  next
    case False
    then have "started_by_poll cb now (r # rows) = started_by_poll cb now rows"
      by (auto simp: started_by_poll_def r split: sum.splits option.splits)
    then show ?thesis using zs by (intro exI [of _ zs]) auto
  qed
qed (simp add: started_by_poll_def)

lemma poll_starts:
  fixes cb n
  assumes inv: "poll_inv s" and q: "(rows, d) = q_GetDueSchedulesLocked (ps_now s) k locked (ps_db s)"
  defines "new \<equiv> map (\<lambda>(ws, _). (ts_id ws, row_next ws)) (started_by_poll cb (ps_now s) (take n rows))"
  shows "distinct (map fst new)"
    and "\<forall>p\<in>set new. \<exists>r\<in>set (db_schedules (ps_db s)). ts_state r = ''queued'' \<and> ts_id r = fst p \<and> ts_next r = Some (snd p) \<and> snd p \<le> ps_now s"
    and "\<forall>p\<in>set new. \<forall>r\<in>set (db_schedules d). ts_state r = ''queued'' \<longrightarrow> ts_id r \<noteq> fst p"
proof -
  obtain zs where zs: "started_by_poll cb (ps_now s) (take n rows) = map (\<lambda>((ws, u), st). (ws, u, st)) zs"
    and sub: "subseq (map fst zs) (take n rows)" using started_sublist by blast
  have new: "new = map (\<lambda>(ws, u). (ts_id ws, row_next ws)) (map fst zs)" unfolding new_def zs by (simp add: o_def split_def)
  have "subseq (take n rows) rows" by (simp add: prefix_imp_subseq take_is_prefix)
  then have sub': "subseq (map fst zs) rows" using sub by (metis subseq_order.trans)
  then have in_rows: "set (map fst zs) \<subseteq> set rows" by (rule subseq_subset)
  obtain P where ids: "map (\<lambda>(ws, u). ts_id ws) rows = map ts_id (take k (filter P (db_schedules (ps_db s))))" using due_rows(2) [OF q] by blast
  have "distinct (map (\<lambda>(ws, u). ts_id ws) rows)"
    unfolding ids take_map [symmetric] using inv_dbD [OF inv] by (simp add: distinct_map_filter_key)
  then have "distinct (map (\<lambda>(ws, u). ts_id ws) (map fst zs))" using subseq_map [OF sub'] subseq_distinct by blast
  then show "distinct (map fst new)" unfolding new by (simp add: o_def split_def)
  show "\<forall>p\<in>set new. \<exists>r\<in>set (db_schedules (ps_db s)). ts_state r = ''queued'' \<and> ts_id r = fst p \<and> ts_next r = Some (snd p) \<and> snd p \<le> ps_now s"
  proof
    fix p assume "p \<in> set new"
    then obtain ws u where w: "(ws, u) \<in> set rows" "p = (ts_id ws, row_next ws)" unfolding new using in_rows by auto
    then obtain r where "r \<in> set (db_schedules (ps_db s))" "schedule_due (ps_now s) r" "ts_id ws = ts_id r" "ts_next ws = ts_next r"
      using due_rows(1) [OF q] by fast
    then show "\<exists>r\<in>set (db_schedules (ps_db s)). ts_state r = ''queued'' \<and> ts_id r = fst p \<and> ts_next r = Some (snd p) \<and> snd p \<le> ps_now s"
      using w(2) by (auto simp: schedule_due_def row_next_def split: option.splits)
  qed
  show "\<forall>p\<in>set new. \<forall>r\<in>set (db_schedules d). ts_state r = ''queued'' \<longrightarrow> ts_id r \<noteq> fst p"
    using due_rows(3) [OF q] in_rows unfolding new by fastforce
qed

lemma sorted_wrt_keys:
  "sorted_wrt R xs \<Longrightarrow> distinct (map fst ys) \<Longrightarrow> \<forall>x\<in>set xs. \<forall>y\<in>set ys. R x y \<Longrightarrow> \<forall>x y. fst x \<noteq> fst y \<longrightarrow> R x y \<Longrightarrow>
   sorted_wrt R (xs @ ys)"
proof -
  assume "sorted_wrt R xs" "distinct (map fst ys)" "\<forall>x\<in>set xs. \<forall>y\<in>set ys. R x y" and diff: "\<forall>x y. fst x \<noteq> fst y \<longrightarrow> R x y"
  moreover have "distinct (map fst zs) \<Longrightarrow> sorted_wrt R zs" for zs
  proof (induction zs)
    case (Cons z zs)
    then have "\<forall>x\<in>set zs. fst z \<noteq> fst x" by (auto dest: imageI [of _ _ fst])
    then have "\<forall>x\<in>set zs. R z x" using diff by blast
    then show ?case using Cons by simp
  qed simp
  ultimately show ?thesis by (simp add: sorted_wrt_append)
qed

lemma poll_keeps:
  assumes inv: "poll_inv s"
  shows "poll_inv (poll_step cb (Poll locked n) s)"
proof -
  obtain rows d where q: "(rows, d) = q_GetDueSchedulesLocked (ps_now s) due_limit locked (ps_db s)" by (metis surj_pair)
  define new where "new = map (\<lambda>(ws, _). (ts_id ws, row_next ws)) (started_by_poll cb (ps_now s) (take n rows))"
  have step: "poll_step cb (Poll locked n) s = s\<lparr>ps_db := d, ps_jobs := ps_jobs s @ started_by_poll cb (ps_now s) (take n rows), ps_starts := ps_starts s @ new\<rparr>"
    unfolding new_def poll_step.simps q [symmetric] by (simp add: Let_def)
  note starts = poll_starts [OF inv q, of cb n, folded new_def] and rows = due_rows [OF q]
  have fresh: "snd p < snd q" if pq: "p \<in> set (ps_starts s)" "q \<in> set new" "fst p = fst q" for p q
  proof -
    obtain r where r: "r \<in> set (db_schedules (ps_db s))" "ts_state r = ''queued''" "ts_id r = fst q" "ts_next r = Some (snd q)"
      using starts(2) pq(2) by blast
    have "\<forall>p\<in>set (ps_starts s). fst p = ts_id r \<longrightarrow> (\<forall>t\<in>set_option (ts_next r). snd p < t)"
      using inv r(1,2) by (simp add: poll_inv_def)
    then show ?thesis using pq r(3,4) by simp
  qed
  have "sorted_wrt (\<lambda>p q. fst p = fst q \<longrightarrow> snd p < snd q) (ps_starts s @ new)"
    by (rule sorted_wrt_keys) (use inv starts(1) fresh in \<open>auto simp: poll_inv_def\<close>)
  moreover have "\<forall>p\<in>set new. fst p < db_nextSchedule d \<and> snd p \<le> ps_now s"
    using starts(2) inv_dbD [OF inv] rows(5) by fastforce
  moreover have "\<forall>r\<in>set (db_schedules d). ts_id r < db_nextSchedule d"
    using inv_dbD [OF inv] arg_cong [OF rows(4), of set] rows(5) by force
  moreover have "\<forall>r\<in>set (db_schedules d). ts_state r = ''queued'' \<longrightarrow>
      (\<forall>p\<in>set (ps_starts s @ new). fst p = ts_id r \<longrightarrow> (\<forall>t\<in>set_option (ts_next r). snd p < t))"
  proof (intro ballI impI)
    fix r p t assume r: "r \<in> set (db_schedules d)" "ts_state r = ''queued''" and p: "p \<in> set (ps_starts s @ new)" "fst p = ts_id r"
      and t: "t \<in> set_option (ts_next r)"
    have "r \<in> set (db_schedules (ps_db s))" using rows(3) r by blast
    moreover have "p \<notin> set new" using starts(3) p(2) r by metis
    then have "p \<in> set (ps_starts s)" using p(1) by simp
    ultimately show "snd p < t" using inv p(2) r(2) t by (simp add: poll_inv_def)
  qed
  ultimately show ?thesis using inv rows(4,5) unfolding step poll_inv_def by auto
qed

lemma poll_inv_jobs [simp]: "poll_inv (s\<lparr>ps_jobs := js\<rparr>) = poll_inv s"
  by (simp add: poll_inv_def)

lemma poll_step_inv:
  assumes doc: "carbon_doc cb" and inv: "poll_inv s"
  shows "poll_inv (poll_step cb e s)"
proof (cases e)
  case (Tick t)
  then show ?thesis using inv by (fastforce simp: poll_inv_def)
next
  case (Poll locked n)
  then show ?thesis using poll_keeps [OF inv] by simp
next
  case (Settle i clk ok)
  obtain ws user st where j: "ps_jobs s ! i = (ws, user, st)" by (metis prod_cases3)
  show ?thesis
  proof (cases "settle_schedule cb (\<lambda>k. max (ps_now s) (clk k)) (ps_now s) ws st (ps_db s)")
    case (Some ed)
    obtain e' d where ed: "ed = (e', d)" by fastforce
    have "poll_inv (s\<lparr>ps_db := d\<rparr>)"
      by (rule evolve_inv [OF inv], rule settle_evolves [OF doc inv_dbD [OF inv]]) (use Some ed in auto)
    then have "poll_inv (s\<lparr>ps_jobs := drop_job i (ps_jobs s), ps_db := d\<rparr>)" by (simp add: poll_inv_def)
    then show ?thesis using inv Settle j Some ed by simp
  qed (use inv Settle j in simp)
next
  case (Reschedule w st t)
  have "ps_now s < t" if "ValidateSchedule cb (ps_now s) st t False = None" using validated_in_future [OF doc that] .
  then show ?thesis using inv Reschedule
    by (auto simp: UpdateWorkflowSchedule_def intro!: evolve_inv update_evolves inv_dbD)
next
  case (NewSchedule w st t)
  have "ps_now s < t" if "ValidateSchedule cb (ps_now s) st t False = None" using validated_in_future [OF doc that] .
  then show ?thesis using inv NewSchedule by (auto intro!: evolve_inv create_evolves inv_dbD)
next
  case (Unschedule w)
  then show ?thesis using inv by (auto intro!: evolve_inv delete_evolves inv_dbD)
qed (use inv in simp)

lemma poll_machine: "carbon_doc cb \<Longrightarrow> machine (poll_init d now) (poll_step cb) poll_inv"
  by unfold_locales (simp_all add: poll_step_inv, simp add: poll_init_def poll_inv_def)


definition demo_schedules :: server_db where
  "demo_schedules = \<lparr>db_workflows = [\<lparr>tw_id = 1, tw_user = ''u'', tw_name = ''w'', tw_description = ''d'', tw_status = ''active''\<rparr>],
     db_nodes = [], db_ui = [], db_edges = [], db_schedules = [], db_calendars = [], db_runs = [], db_nodeRuns = [],
     db_nextWorkflow = 2, db_nextNode = 1, db_nextSchedule = 1, db_nextCalendar = 1, db_open = 0\<rparr>"

definition demo_polls :: "poll_event list" where
  "demo_polls = [NewSchedule 1 ScheduleTypeDaily 5000, Tick 6000, Poll {} 9, Settle 0 (\<lambda>k. 0) True, Tick 90000000, Poll {} 9]"




section \<open>What becomes of a claimed schedule\<close>

lemma ScheduleTypes_kind [simp]: "ScheduleTypes (kind_text st) = Some st" "kind_text st \<in> set schedule_types"
  by (cases st; simp add: ScheduleTypes_def schedule_types_def)+

text \<open>The row as the goroutine leaves it.\<close>

definition settled_row :: "schedule_kind \<Rightarrow> int option \<Rightarrow> int \<Rightarrow> schedule_row \<Rightarrow> schedule_row" where
  "settled_row st nr now r =
     r\<lparr>ts_type := kind_text st, ts_next := nr, ts_last := Some now, ts_state := (if nr = None then ''completed'' else ''queued'')\<rparr>"

lemma settle_effect:
  assumes "CalculateNextRun cb clk st (row_next ws) now = Some (Inr nr)"
  shows "settle_schedule cb clk now ws st d =
    Some (None, d\<lparr>db_schedules := map (\<lambda>r. if ts_workflow r = ts_workflow ws then settled_row st nr now r else r) (db_schedules d)\<rparr>)"
  using assms
  by (simp add: settle_schedule_def scheduleRepo_UpdateWorkflowSchedule_def q_UpdateWorkflowSchedule_def db_result_def settled_row_def
      execution_states_def)

lemma calculated:
  assumes doc: "carbon_doc cb" and clk: "steady clk" and parse: "\<exists>b. cb_Parse cb (rfc3339_seconds (schedule_basis old now)) = Some b"
  shows "\<exists>nr. CalculateNextRun cb clk st old now = Some (Inr nr) \<and> (nr = None \<longleftrightarrow> st = ScheduleTypeOnce) \<and> (\<forall>t\<in>set_option nr. clk 0 < t)"
proof (cases "st = ScheduleTypeOnce")
  case False
  obtain b where "cb_Parse cb (rfc3339_seconds (schedule_basis old now)) = Some b" using parse by blast
  then obtain k where k: "CalculateNextRun cb clk st old now = Some (Inr (Some ((carbon_step cb st ^^ k) b)))" "clk k < (carbon_step cb st ^^ k) b"
    using next_future_found [OF doc False clk, of 0 b] False by (auto simp: CalculateNextRun_def schedule_basis_def)
  then show ?thesis using False steady_mono [OF clk, of 0 k] by force
qed (simp add: CalculateNextRun_def)

lemma steady_max: "steady clk \<Longrightarrow> steady (\<lambda>k. max c (clk k))"
  by (auto simp: steady_def max_def) (smt (verit) msPerDay_def)+

lemma settle_step:
  assumes "i < length (ps_jobs s)" and "ps_jobs s ! i = (ws, u, st)"
    and "CalculateNextRun cb (\<lambda>k. max (ps_now s) (clk k)) st (row_next ws) (ps_now s) = Some (Inr nr)"
  shows "db_schedules (ps_db (poll_step cb (Settle i clk True) s)) =
    map (\<lambda>r. if ts_workflow r = ts_workflow ws then settled_row st nr (ps_now s) r else r) (db_schedules (ps_db s))"
  using assms by (simp add: settle_effect)

text \<open>The rows that a poll can claim: due, of a workflow that exists, and not locked by another poll.\<close>

definition claimable :: "int set \<Rightarrow> poll_state \<Rightarrow> schedule_row list" where
  "claimable locked s =
     filter (\<lambda>r. schedule_due (ps_now s) r \<and> ts_workflow r \<in> workflow_ids (ps_db s) \<and> ts_id r \<notin> locked) (db_schedules (ps_db s))"

text \<open>A poll when no more than a batch can be claimed: it marks every row that it can claim, however many of them it comes to.\<close>

lemma poll_batch:
  assumes few: "length (claimable locked s) \<le> due_limit"
  shows "\<exists>user d. poll_step cb (Poll locked n) s =
      s\<lparr>ps_db := d, ps_jobs := ps_jobs s @ started_by_poll cb (ps_now s) (take n (map (\<lambda>r. (r\<lparr>ts_state := ''running''\<rparr>, user r)) (claimable locked s))),
        ps_starts := ps_starts s @ map (\<lambda>(ws, _). (ts_id ws, row_next ws))
          (started_by_poll cb (ps_now s) (take n (map (\<lambda>r. (r\<lparr>ts_state := ''running''\<rparr>, user r)) (claimable locked s))))\<rparr> \<and>
      db_schedules d = map (\<lambda>r. if ts_id r \<in> ts_id ` set (claimable locked s) then r\<lparr>ts_state := ''running''\<rparr> else r) (db_schedules (ps_db s)) \<and>
      db_nextSchedule d = db_nextSchedule (ps_db s)"
  using few
  by (intro exI [of _ "\<lambda>r. case List.find (\<lambda>w. tw_id w = ts_workflow r) (db_workflows (ps_db s)) of None \<Rightarrow> [] | Some w \<Rightarrow> tw_user w"]
        exI [of _ "snd (q_GetDueSchedulesLocked (ps_now s) due_limit locked (ps_db s))"])
     (simp add: q_GetDueSchedulesLocked_def claimable_def Let_def)

lemma started_mem:
  "(ws, u) \<in> set rows \<Longrightarrow> RunScheduledWorkflow cb now False ws = Inr (Some st) \<Longrightarrow> (ws, u, st) \<in> set (started_by_poll cb now rows)"
  by (force simp: started_by_poll_def)

lemma poll_claims:
  fixes cb s
  assumes few: "length (claimable locked s) \<le> due_limit" and r: "r \<in> set (claimable locked s)"
    and run: "RunScheduledWorkflow cb (ps_now s) False (r\<lparr>ts_state := ''running''\<rparr>) = Inr (Some st)"
  defines "s1 \<equiv> poll_step cb (Poll locked due_limit) s"
  shows "\<exists>u. (r\<lparr>ts_state := ''running''\<rparr>, u, st) \<in> set (ps_jobs s1)" "r\<lparr>ts_state := ''running''\<rparr> \<in> set (db_schedules (ps_db s1))"
    "(ts_id r, row_next r) \<in> set (ps_starts s1)" "ps_now s1 = ps_now s"
proof -
  obtain user d where
    s1: "s1 = s\<lparr>ps_db := d, ps_jobs := ps_jobs s @ started_by_poll cb (ps_now s) (map (\<lambda>r. (r\<lparr>ts_state := ''running''\<rparr>, user r)) (claimable locked s)),
        ps_starts := ps_starts s @ map (\<lambda>(ws, _). (ts_id ws, row_next ws))
          (started_by_poll cb (ps_now s) (map (\<lambda>r. (r\<lparr>ts_state := ''running''\<rparr>, user r)) (claimable locked s)))\<rparr>"
    and d: "db_schedules d = map (\<lambda>r. if ts_id r \<in> ts_id ` set (claimable locked s) then r\<lparr>ts_state := ''running''\<rparr> else r) (db_schedules (ps_db s))"
    using poll_batch [OF few, of cb due_limit] few unfolding s1_def by auto
  let ?rows = "map (\<lambda>r. (r\<lparr>ts_state := ''running''\<rparr>, user r)) (claimable locked s)"
  have "(r\<lparr>ts_state := ''running''\<rparr>, user r) \<in> set ?rows" using r by simp
  then have job: "(r\<lparr>ts_state := ''running''\<rparr>, user r, st) \<in> set (started_by_poll cb (ps_now s) ?rows)"
    by (rule started_mem [OF _ run])
  then show "\<exists>u. (r\<lparr>ts_state := ''running''\<rparr>, u, st) \<in> set (ps_jobs s1)" unfolding s1 by auto
  show "(ts_id r, row_next r) \<in> set (ps_starts s1)"
    unfolding s1 using imageI [OF job, of "\<lambda>(ws, _). (ts_id ws, row_next ws)"] by (simp add: row_next_def)
  have "r \<in> set (db_schedules (ps_db s))" using r by (simp add: claimable_def)
  then show "r\<lparr>ts_state := ''running''\<rparr> \<in> set (db_schedules (ps_db s1))"
    unfolding s1 using r by (auto simp: d intro!: image_eqI [of _ _ r])
  show "ps_now s1 = ps_now s" unfolding s1 by simp
qed

text \<open>Claim C15: a poll that finds at most \<open>due_limit\<close> due schedules that no other poll has locked starts every one of them whose kind is known and
  whose time carbon can parse, and when the goroutine of one is the next to be through and its update reaches the database, the schedule is queued
  again for a time in the future, or completed if it was to run once. A poll that finds more due schedules leaves the rest to later polls.\<close>

theorem due_schedule_runs:
  fixes cb s
  assumes doc: "carbon_doc cb" and clk: "steady clk" and r: "r \<in> set (claimable locked s)" and few: "length (claimable locked s) \<le> due_limit"
    and st: "ScheduleTypes (ts_type r) = Some st" and parse: "cb_Parse cb (rfc3339_seconds (schedule_basis (row_next r) (ps_now s))) = Some b"
    and valid: "cb_Parse cb (rfc3339_seconds (row_next r)) \<noteq> None"
  defines "s1 \<equiv> poll_step cb (Poll locked due_limit) s"
  shows "(ts_id r, row_next r) \<in> set (ps_starts s1) \<and>
    (\<exists>i<length (ps_jobs s1). \<exists>nr. (nr = None \<longleftrightarrow> st = ScheduleTypeOnce) \<and> (\<forall>t\<in>set_option nr. ps_now s < t) \<and>
       settled_row st nr (ps_now s) r \<in> set (db_schedules (ps_db (poll_step cb (Settle i clk True) s1))))"
proof -
  let ?ws = "r\<lparr>ts_state := ''running''\<rparr>"
  have ws: "row_next ?ws = row_next r" by (simp add: row_next_def)
  have "RunScheduledWorkflow cb (ps_now s) False ?ws = Inr (Some st)"
    using st valid by (auto simp: RunScheduledWorkflow_def ValidateSchedule_def ws Let_def)
  note claimed = poll_claims [OF few r this, folded s1_def]
  obtain u i where i: "i < length (ps_jobs s1)" "ps_jobs s1 ! i = (?ws, u, st)" using claimed(1) by (metis in_set_conv_nth)
  obtain nr where nr: "CalculateNextRun cb (\<lambda>k. max (ps_now s) (clk k)) st (row_next r) (ps_now s) = Some (Inr nr)"
      "(nr = None \<longleftrightarrow> st = ScheduleTypeOnce)" "\<forall>t\<in>set_option nr. max (ps_now s) (clk 0) < t"
    using calculated [OF doc steady_max [OF clk], of "row_next r" "ps_now s" "ps_now s" st] parse by blast
  have "settled_row st nr (ps_now s) ?ws \<in> set (db_schedules (ps_db (poll_step cb (Settle i clk True) s1)))"
    unfolding settle_step [OF i, of cb clk nr, unfolded ws claimed(4), OF nr(1)] using claimed(2)
    by (auto intro!: image_eqI [of _ _ ?ws])
  moreover have "settled_row st nr (ps_now s) ?ws = settled_row st nr (ps_now s) r" by (simp add: settled_row_def)
  ultimately show ?thesis using i(1) nr(2,3) claimed(3) by (metis max_less_iff_conj)
qed

definition claimed_state :: poll_state where
  "claimed_state = fold (poll_step plain_carbon) (take 2 demo_polls) (poll_init demo_schedules 0)"

definition demo_row :: schedule_row where
  "demo_row = \<lparr>ts_id = 1, ts_workflow = 1, ts_type = ''daily'', ts_next = Some 5000, ts_last = None, ts_state = ''queued''\<rparr>"

lemma claimed_state_rows: "db_schedules (ps_db claimed_state) = [demo_row]" "ps_now claimed_state = 6000" "1 \<in> workflow_ids (ps_db claimed_state)"
  by (simp_all add: claimed_state_def demo_polls_def demo_row_def poll_init_def demo_schedules_def ValidateSchedule_def is_future_def
      ScheduleWorkflow_def scheduleRepo_Create_def q_CreateWorkflowSchedule_def schedule_types_def execution_states_def serial_max_def
      workflow_ids_def db_result_def rfc3339_seconds_def plain_carbon_def)

lemma claimed_state_claimable: "claimable {7} claimed_state = [demo_row]"
  unfolding claimable_def claimed_state_rows(1,2) using claimed_state_rows(3) by (simp add: demo_row_def schedule_due_def)

theorem due_schedule_runs_witness:
  "\<exists>i t. i < length (ps_jobs (poll_step plain_carbon (Poll {7} due_limit) claimed_state)) \<and> 6000 < t \<and>
     settled_row ScheduleTypeDaily (Some t) 6000 demo_row \<in>
       set (db_schedules (ps_db (poll_step plain_carbon (Settle i (\<lambda>k. 0) True) (poll_step plain_carbon (Poll {7} due_limit) claimed_state))))"
  using due_schedule_runs [OF plain_carbon_doc steady_const [of 0], of demo_row "{7}" claimed_state ScheduleTypeDaily 5000]
    claimed_state_claimable claimed_state_rows(2)
  by (auto simp: demo_row_def due_limit_def ScheduleTypes_def plain_carbon_def rfc3339_seconds_def schedule_basis_def row_next_def
      zero_time_def simp del: poll_step.simps)

text \<open>The row is found by its workflow when its goroutine is through, so the goroutine of one schedule writes its kind and its next run into all
  schedules of the workflow: when a schedule that runs once is through, every schedule of the workflow is completed and none of them runs again.\<close>

lemma once_completes_all:
  assumes "i < length (ps_jobs s)" and "ps_jobs s ! i = (ws, u, ScheduleTypeOnce)"
    and "r \<in> set (db_schedules (ps_db (poll_step cb (Settle i clk True) s)))" and "ts_workflow r = ts_workflow ws"
  shows "ts_state r = ''completed'' \<and> ts_next r = None \<and> ts_type r = ''once'' \<and> \<not> schedule_due now r"
proof -
  have "CalculateNextRun cb (\<lambda>k. max (ps_now s) (clk k)) ScheduleTypeOnce (row_next ws) (ps_now s) = Some (Inr None)"
    by (simp add: CalculateNextRun_def)
  note e = settle_step [OF assms(1,2) this]
  show ?thesis using assms(3,4) unfolding e by (auto simp: settled_row_def schedule_due_def split: if_splits)
qed

text \<open>A change of a schedule while its goroutine is in flight is lost: when the goroutine is through, the schedules of the database are those that it
  would have left without the change.\<close>

lemma change_in_flight_lost:
  assumes doc: "carbon_doc cb" and clk: "steady clk" and job: "i < length (ps_jobs s)" "ps_jobs s ! i = (ws, u, st)"
    and parse: "cb_Parse cb (rfc3339_seconds (schedule_basis (row_next ws) (ps_now s))) = Some b"
  shows "db_schedules (ps_db (poll_step cb (Settle i clk True) (poll_step cb (Reschedule (ts_workflow ws) st' t) s))) =
    db_schedules (ps_db (poll_step cb (Settle i clk True) s))"
proof -
  obtain nr where nr: "CalculateNextRun cb (\<lambda>k. max (ps_now s) (clk k)) st (row_next ws) (ps_now s) = Some (Inr nr)"
    using calculated [OF doc steady_max [OF clk], of "row_next ws" "ps_now s" "ps_now s" st] parse by blast
  let ?s = "poll_step cb (Reschedule (ts_workflow ws) st' t) s"
  have jobs: "ps_jobs ?s = ps_jobs s" "ps_now ?s = ps_now s" by simp_all
  have rows: "map (\<lambda>r. if ts_workflow r = ts_workflow ws then settled_row st nr (ps_now s) r else r) (db_schedules (ps_db ?s)) =
     map (\<lambda>r. if ts_workflow r = ts_workflow ws then settled_row st nr (ps_now s) r else r) (db_schedules (ps_db s))"
    by (auto simp: UpdateWorkflowSchedule_def scheduleRepo_UpdateWorkflowSchedule_def q_UpdateWorkflowSchedule_def db_result_def settled_row_def
        execution_states_def Let_def)
  show ?thesis
    unfolding settle_step [OF job, OF nr]
    using settle_step [of i ?s ws u st cb clk nr] job nr rows by (simp only: jobs)
qed

text \<open>A workflow that no goroutine works for and none of whose schedules is queued; \<open>i\<close> is the identifier of one of them.\<close>

definition about_workflow :: "int \<Rightarrow> poll_event \<Rightarrow> bool" where
  "about_workflow w e = (case e of Reschedule w' _ _ \<Rightarrow> w' = w | NewSchedule w' _ _ \<Rightarrow> w' = w | _ \<Rightarrow> False)"

definition forgotten :: "int \<Rightarrow> int \<Rightarrow> poll_state \<Rightarrow> bool" where
  "forgotten w i s \<longleftrightarrow>
     (\<forall>r\<in>set (db_schedules (ps_db s)). ts_workflow r = w \<longrightarrow> ts_state r \<noteq> ''queued'') \<and> (\<forall>j\<in>set (ps_jobs s). ts_workflow (fst j) \<noteq> w) \<and>
     (\<forall>r\<in>set (db_schedules (ps_db s)). ts_id r = i \<longrightarrow> ts_workflow r = w \<and> ts_state r = ''running'') \<and> i < db_nextSchedule (ps_db s)"

text \<open>Steps that change only rows of other workflows.\<close>

lemma forgotten_rows:
  assumes "forgotten w i s" and "db_nextSchedule (ps_db s) \<le> db_nextSchedule d" and "set js \<subseteq> set (ps_jobs s)"
    and "\<forall>r\<in>set (db_schedules d). (ts_workflow r = w \<longrightarrow> r \<in> set (db_schedules (ps_db s))) \<and> (ts_id r = i \<longrightarrow> ts_workflow r = w)"
  shows "forgotten w i (s\<lparr>ps_jobs := js, ps_db := d\<rparr>)"
  using assms unfolding forgotten_def by auto

lemma forgotten_poll:
  assumes f: "forgotten w i s"
  shows "forgotten w i (poll_step cb (Poll locked n) s) \<and> starts_of i (poll_step cb (Poll locked n) s) = starts_of i s"
proof -
  obtain rows d where q: "(rows, d) = q_GetDueSchedulesLocked (ps_now s) due_limit locked (ps_db s)" by (metis surj_pair)
  let ?jobs = "started_by_poll cb (ps_now s) (take n rows)"
  have step: "poll_step cb (Poll locked n) s = s\<lparr>ps_db := d, ps_jobs := ps_jobs s @ ?jobs, ps_starts := ps_starts s @ map (\<lambda>(ws, _). (ts_id ws, row_next ws)) ?jobs\<rparr>"
    unfolding poll_step.simps q [symmetric] by (simp add: Let_def)
  have other: "ts_workflow ws \<noteq> w \<and> ts_id ws \<noteq> i" if "(ws, u, st) \<in> set ?jobs" for ws u st
  proof -
    have "(ws, u) \<in> set rows" using that
      by (auto simp: started_by_poll_def split: sum.splits option.splits dest: in_set_takeD)
    then obtain r where "r \<in> set (db_schedules (ps_db s))" "schedule_due (ps_now s) r" "ts_id ws = ts_id r" "ts_workflow ws = ts_workflow r"
      using due_rows(1) [OF q] by fast
    then show ?thesis using f by (auto simp: forgotten_def schedule_due_def)
  qed
  have rows: "\<forall>r\<in>set (db_schedules d). \<exists>r0\<in>set (db_schedules (ps_db s)). ts_workflow r = ts_workflow r0 \<and> ts_id r = ts_id r0 \<and>
      (ts_state r = ''queued'' \<longrightarrow> ts_state r0 = ''queued'') \<and> (ts_state r0 = ''running'' \<longrightarrow> ts_state r = ''running'')" and nx: "db_nextSchedule d = db_nextSchedule (ps_db s)"
    using q by (auto simp: q_GetDueSchedulesLocked_def Let_def)
  have "starts_of i (poll_step cb (Poll locked n) s) = starts_of i s @ map snd (filter (\<lambda>p. fst p = i) (map (\<lambda>(ws, _). (ts_id ws, row_next ws)) ?jobs))"
    unfolding step starts_of_def by simp
  also have "filter (\<lambda>p. fst p = i) (map (\<lambda>(ws, _). (ts_id ws, row_next ws)) ?jobs) = []"
    by (rule filter_False) (use other in fastforce)
  finally have "starts_of i (poll_step cb (Poll locked n) s) = starts_of i s" by simp
  moreover have "forgotten w i (poll_step cb (Poll locked n) s)"
    unfolding step forgotten_def using f rows nx other by (fastforce simp: forgotten_def)
  ultimately show ?thesis by simp
qed

lemma drop_job_subset: "set (drop_job i xs) \<subseteq> set xs"
  by (auto simp: drop_job_def dest: in_set_takeD in_set_dropD)

lemma forgotten_step:
  assumes f: "forgotten w i s" and e: "\<not> about_workflow w e"
  shows "forgotten w i (poll_step cb e s) \<and> starts_of i (poll_step cb e s) = starts_of i s"
proof (cases e)
  case (Settle k clk ok)
  obtain ws user st where j: "ps_jobs s ! k = (ws, user, st)" by (metis prod_cases3)
  show ?thesis
  proof (cases "k < length (ps_jobs s) \<and> settle_schedule cb (\<lambda>k. max (ps_now s) (clk k)) (ps_now s) ws st (ps_db s) \<noteq> None")
    case True
    then obtain e' d where d: "settle_schedule cb (\<lambda>k. max (ps_now s) (clk k)) (ps_now s) ws st (ps_db s) = Some (e', d)" by fastforce
    have "ts_workflow ws \<noteq> w" using f True j unfolding forgotten_def by (metis fst_conv nth_mem)
    then have "forgotten w i (s\<lparr>ps_jobs := drop_job k (ps_jobs s), ps_db := (if ok then d else ps_db s)\<rparr>)"
      using d f drop_job_subset [of k "ps_jobs s"]
      by (intro forgotten_rows) (auto simp: settle_schedule_def scheduleRepo_UpdateWorkflowSchedule_def q_UpdateWorkflowSchedule_def
          db_result_def Let_def forgotten_def split: option.splits if_splits)
    then show ?thesis using True d j Settle by (simp add: starts_of_def)
  qed (use f j Settle in \<open>auto split: option.splits\<close>)
next
  case (Poll locked n)
  then show ?thesis using forgotten_poll [OF f] by simp
next
  case (Die k)
  then show ?thesis using f drop_job_subset [of k "ps_jobs s"] by (auto simp: forgotten_def starts_of_def)
next
  case (Reschedule w' st t)
  then show ?thesis using f e
    by (auto simp: about_workflow_def forgotten_def starts_of_def UpdateWorkflowSchedule_def scheduleRepo_UpdateWorkflowSchedule_def
        q_UpdateWorkflowSchedule_def db_result_def Let_def split: if_splits)
next
  case (NewSchedule w' st t)
  then show ?thesis using f e
    by (auto simp: about_workflow_def forgotten_def starts_of_def ScheduleWorkflow_def scheduleRepo_Create_def
        q_CreateWorkflowSchedule_def db_result_def Let_def split: if_splits)
next
  case (Unschedule w')
  then show ?thesis using f by (auto simp: forgotten_def starts_of_def q_DeleteWorkflowScheduleByWorkflowID_def)
qed (use f in \<open>auto simp: forgotten_def starts_of_def\<close>)

lemma forgotten_run:
  assumes "forgotten w i s" and "\<forall>e\<in>set es. \<not> about_workflow w e"
  shows "forgotten w i (fold (poll_step cb) es s) \<and> starts_of i (fold (poll_step cb) es s) = starts_of i s"
  using assms
proof (induction es arbitrary: s)
  case (Cons e es)
  then show ?case using forgotten_step [of w i s e cb] by simp
qed simp

lemma drop_job_only:
  assumes "i < length xs" and "P (xs ! i)" and "length (filter P xs) \<le> 1"
  shows "\<forall>x\<in>set (drop_job i xs). \<not> P x"
proof -
  have "filter P xs = filter P (take i xs) @ xs ! i # filter P (drop (Suc i) xs)"
    using assms(2) by (subst id_take_nth_drop [OF assms(1)]) simp
  then have "length (filter P (take i xs)) = 0 \<and> length (filter P (drop (Suc i) xs)) = 0" using assms(3) by simp
  then show ?thesis by (auto simp: drop_job_def filter_empty_conv)
qed

text \<open>What a poll leaves of a workflow that has one queued schedule and no goroutine: the schedule is marked as running, and there is at most one
  goroutine of the workflow.\<close>

lemma claimed_alone:
  fixes cb s n
  assumes inv: "poll_inv s" and r: "r \<in> set (claimable locked s)" and few: "length (claimable locked s) \<le> due_limit"
    and alone: "\<forall>r'\<in>set (db_schedules (ps_db s)). ts_workflow r' = ts_workflow r \<and> ts_state r' = ''queued'' \<longrightarrow> r' = r"
    and idle: "\<forall>j\<in>set (ps_jobs s). ts_workflow (fst j) \<noteq> ts_workflow r"
  defines "s1 \<equiv> poll_step cb (Poll locked n) s"
  shows "(\<forall>r'\<in>set (db_schedules (ps_db s1)). ts_workflow r' = ts_workflow r \<longrightarrow> ts_state r' \<noteq> ''queued'') \<and>
    (\<forall>r'\<in>set (db_schedules (ps_db s1)). ts_id r' = ts_id r \<longrightarrow> ts_workflow r' = ts_workflow r \<and> ts_state r' = ''running'') \<and>
    ts_id r < db_nextSchedule (ps_db s1)"
    and "length (filter (\<lambda>j. ts_workflow (fst j) = ts_workflow r) (ps_jobs s1)) \<le> 1"
proof -
  obtain user d where
    s1: "s1 = s\<lparr>ps_db := d, ps_jobs := ps_jobs s @ started_by_poll cb (ps_now s) (take n (map (\<lambda>r. (r\<lparr>ts_state := ''running''\<rparr>, user r)) (claimable locked s))),
        ps_starts := ps_starts s @ map (\<lambda>(ws, _). (ts_id ws, row_next ws))
          (started_by_poll cb (ps_now s) (take n (map (\<lambda>r. (r\<lparr>ts_state := ''running''\<rparr>, user r)) (claimable locked s))))\<rparr>"
    and d: "db_schedules d = map (\<lambda>r. if ts_id r \<in> ts_id ` set (claimable locked s) then r\<lparr>ts_state := ''running''\<rparr> else r) (db_schedules (ps_db s))"
    and nx: "db_nextSchedule d = db_nextSchedule (ps_db s)"
    using poll_batch [OF few, of cb n, folded s1_def] by (elim exE conjE) (rule that, assumption+)
  have dist: "distinct (map ts_id (db_schedules (ps_db s)))" and below: "\<forall>r\<in>set (db_schedules (ps_db s)). ts_id r < db_nextSchedule (ps_db s)"
    using inv_dbD [OF inv] by simp_all
  have r0: "r \<in> set (db_schedules (ps_db s))" using r by (simp add: claimable_def)
  have same: "r' = r" if "r' \<in> set (db_schedules (ps_db s))" "ts_id r' = ts_id r" for r'
    using dist that r0 by (metis distinct_map inj_onD)
  have mark: "ts_id r \<in> ts_id ` set (claimable locked s)" using r by simp
  have row: "\<exists>r0\<in>set (db_schedules (ps_db s)). r' = (if ts_id r0 \<in> ts_id ` set (claimable locked s) then r0\<lparr>ts_state := ''running''\<rparr> else r0)"
    if "r' \<in> set (db_schedules d)" for r' using that unfolding d set_map by (rule imageE) (rule bexI)
  have "ts_state r' \<noteq> ''queued''" if r': "r' \<in> set (db_schedules d)" "ts_workflow r' = ts_workflow r" for r'
  proof (rule ccontr)
    assume q: "\<not> ts_state r' \<noteq> ''queued''"
    obtain r0 where r0: "r0 \<in> set (db_schedules (ps_db s))"
      "r' = (if ts_id r0 \<in> ts_id ` set (claimable locked s) then r0\<lparr>ts_state := ''running''\<rparr> else r0)" using row [OF r'(1)] by blast
    show False
    proof (cases "ts_id r0 \<in> ts_id ` set (claimable locked s)")
      case False
      then have "r' = r0" using r0(2) by simp
      then have "r0 = r" using alone r0(1) r'(2) q by blast
      then show False using False mark by simp
    qed (use q r0(2) in simp)
  qed
  moreover have "ts_workflow r' = ts_workflow r \<and> ts_state r' = ''running''" if r': "r' \<in> set (db_schedules d)" "ts_id r' = ts_id r" for r'
  proof -
    obtain r0 where r0: "r0 \<in> set (db_schedules (ps_db s))"
      "r' = (if ts_id r0 \<in> ts_id ` set (claimable locked s) then r0\<lparr>ts_state := ''running''\<rparr> else r0)" using row [OF r'(1)] by blast
    then have "ts_id r0 = ts_id r" using r'(2) by (simp split: if_splits)
    then have "r0 = r" using same [OF r0(1)] by simp
    then show ?thesis using r0(2) mark by simp
  qed
  ultimately show "(\<forall>r'\<in>set (db_schedules (ps_db s1)). ts_workflow r' = ts_workflow r \<longrightarrow> ts_state r' \<noteq> ''queued'') \<and>
    (\<forall>r'\<in>set (db_schedules (ps_db s1)). ts_id r' = ts_id r \<longrightarrow> ts_workflow r' = ts_workflow r \<and> ts_state r' = ''running'') \<and>
    ts_id r < db_nextSchedule (ps_db s1)"
    using r0 below nx by (simp add: s1)
  let ?rows = "take n (map (\<lambda>r. (r\<lparr>ts_state := ''running''\<rparr>, user r)) (claimable locked s))"
  let ?new = "started_by_poll cb (ps_now s) ?rows"
  let ?P = "\<lambda>j. ts_workflow (fst j) = ts_workflow r"
  obtain zs where zs: "?new = map (\<lambda>((ws, u), st). (ws, u, st)) zs" and sub: "subseq (map fst zs) ?rows" using started_sublist by blast
  have ids: "map (ts_id \<circ> fst) ?rows = take n (map ts_id (claimable locked s))" by (simp add: take_map o_def)
  have "distinct (map ts_id (claimable locked s))" using dist by (simp add: claimable_def distinct_map_filter_key)
  then have "distinct (map (ts_id \<circ> fst) ?rows)" unfolding ids by simp
  then have "distinct (map (ts_id \<circ> fst) (map fst zs))" using subseq_map [OF sub] subseq_distinct by blast
  then have keys: "distinct (map (ts_id \<circ> fst) ?new)" unfolding zs by (simp add: o_def split_def)
  have only: "ts_id (fst j) = ts_id r" if j: "j \<in> set ?new" "?P j" for j
  proof -
    have "fst ` set zs \<subseteq> set ?rows" using subseq_subset [OF sub] by simp
    then obtain r' where "r' \<in> set (claimable locked s)" "fst j = r'\<lparr>ts_state := ''running''\<rparr>"
      using j(1) unfolding zs by (fastforce dest!: in_set_takeD)
    then have "r' \<in> set (db_schedules (ps_db s))" "ts_state r' = ''queued''" "ts_workflow r' = ts_workflow r" and "ts_id (fst j) = ts_id r'"
      using j(2) by (simp_all add: claimable_def schedule_due_def)
    then have "r' = r" using alone by blast
    then show ?thesis using \<open>ts_id (fst j) = ts_id r'\<close> by simp
  qed
  have "length (filter ?P ?new) = card (set (map (ts_id \<circ> fst) (filter ?P ?new)))"
    using distinct_card [OF distinct_map_filter [OF keys, of ?P]] by simp
  also have "\<dots> \<le> card {ts_id r}" by (rule card_mono) (use only in auto)
  finally have "length (filter ?P ?new) \<le> 1" by simp
  moreover have "filter ?P (ps_jobs s) = []" using idle by (simp add: filter_empty_conv)
  ultimately show "length (filter ?P (ps_jobs s1)) \<le> 1" unfolding s1 by simp
qed

text \<open>Claim C40: a schedule that was claimed is lost if the poll that claimed it ends before it comes to it, or if the process of its goroutine dies: take a
  poll that claims the only queued schedule of a workflow for which no goroutine is in flight, and let either no goroutine of the workflow come out
  of the poll, or the one that does die. Whatever polls, goroutines and changes of other workflows follow, the schedule is not started again, and it
  stays marked as running. (A new schedule or a change of the workflow's schedules queues it again.)\<close>

theorem claimed_and_lost:
  assumes doc: "carbon_doc cb" and s: "s = fold (poll_step cb) es0 (poll_init d now)"
    and r: "r \<in> set (claimable locked s)" and few: "length (claimable locked s) \<le> due_limit"
    and alone: "\<forall>r'\<in>set (db_schedules (ps_db s)). ts_workflow r' = ts_workflow r \<and> ts_state r' = ''queued'' \<longrightarrow> r' = r"
    and idle: "\<forall>j\<in>set (ps_jobs s). ts_workflow (fst j) \<noteq> ts_workflow r"
    and poll: "s1 = poll_step cb (Poll locked n) s"
    and lost: "(\<forall>j\<in>set (ps_jobs s1). ts_workflow (fst j) \<noteq> ts_workflow r) \<and> s2 = s1 \<or>
      (\<exists>i<length (ps_jobs s1). ts_workflow (fst (ps_jobs s1 ! i)) = ts_workflow r \<and> s2 = poll_step cb (Die i) s1)"
    and es: "\<forall>e\<in>set es. \<not> about_workflow (ts_workflow r) e"
  shows "starts_of (ts_id r) (fold (poll_step cb) es s2) = starts_of (ts_id r) s1 \<and>
    (\<forall>r'\<in>set (db_schedules (ps_db (fold (poll_step cb) es s2))). ts_id r' = ts_id r \<longrightarrow> ts_state r' = ''running'')"
proof -
  have "poll_inv s" unfolding s using machine.inv_run [OF poll_machine [OF doc]] .
  note claimed = claimed_alone [OF this r few alone idle, of cb n, folded poll]
  have "forgotten (ts_workflow r) (ts_id r) s2 \<and> starts_of (ts_id r) s2 = starts_of (ts_id r) s1"
    using lost
  proof (elim disjE exE conjE)
    fix i assume i: "i < length (ps_jobs s1)" "ts_workflow (fst (ps_jobs s1 ! i)) = ts_workflow r" and s2: "s2 = poll_step cb (Die i) s1"
    have "\<forall>j\<in>set (drop_job i (ps_jobs s1)). ts_workflow (fst j) \<noteq> ts_workflow r"
      by (rule drop_job_only [where P = "\<lambda>j. ts_workflow (fst j) = ts_workflow r", OF i claimed(2)])
    then show ?thesis using claimed(1) unfolding s2 by (simp add: forgotten_def starts_of_def)
  qed (use claimed(1) in \<open>simp add: forgotten_def\<close>)
  then show ?thesis using forgotten_run [OF _ es, of "ts_id r" s2 cb] by (simp add: forgotten_def)
qed

text \<open>The poll of a process that ends before it comes to the row that it has claimed, and the death of a process with its goroutine.\<close>

definition cut_poll :: poll_state where
  "cut_poll = poll_step plain_carbon (Poll {7} 0) claimed_state"

definition dead_job :: poll_state where
  "dead_job = poll_step plain_carbon (Poll {7} due_limit) claimed_state"

lemma dead_job_rows: "ps_jobs dead_job = [(demo_row\<lparr>ts_state := ''running''\<rparr>, ''u'', ScheduleTypeDaily)]" "starts_of 1 dead_job = [5000]"
  by (simp_all add: dead_job_def demo_row_def claimed_state_def demo_polls_def poll_init_def demo_schedules_def ValidateSchedule_def is_future_def ScheduleWorkflow_def
      scheduleRepo_Create_def q_CreateWorkflowSchedule_def schedule_types_def execution_states_def serial_max_def workflow_ids_def db_result_def rfc3339_seconds_def
      plain_carbon_def q_GetDueSchedulesLocked_def due_limit_def schedule_due_def started_by_poll_def RunScheduledWorkflow_def ScheduleTypes_def row_next_def starts_of_def)

theorem claimed_and_lost_witness:
  "starts_of 1 (fold (poll_step plain_carbon) [Tick 900000000, Poll {} 9, Die 0, Poll {} 9] cut_poll) = [] \<and>
   starts_of 1 (fold (poll_step plain_carbon) [Tick 900000000, Poll {} 9, Die 0, Poll {} 9] (poll_step plain_carbon (Die 0) dead_job)) = [5000]"
proof -
  let ?es = "[Tick 900000000, Poll {} 9, Die 0, Poll {} 9]"
  have jobs: "ps_jobs claimed_state = []" and starts: "ps_starts claimed_state = []"
    by (simp_all add: claimed_state_def demo_polls_def poll_init_def)
  have cut: "ps_jobs cut_poll = []" "starts_of 1 cut_poll = []"
    by (simp_all add: cut_poll_def q_GetDueSchedulesLocked_def Let_def jobs starts started_by_poll_def starts_of_def)
  have later: "\<forall>e\<in>set ?es. \<not> about_workflow (ts_workflow demo_row) e"
    by (simp add: about_workflow_def)
  note lost = claimed_and_lost [OF plain_carbon_doc claimed_state_def, of demo_row "{7}"]
  have "starts_of (ts_id demo_row) (fold (poll_step plain_carbon) ?es cut_poll) = starts_of (ts_id demo_row) cut_poll"
    by (rule conjunct1 [OF lost [of cut_poll 0, OF _ _ _ _ cut_poll_def _ later]])
      (simp_all add: claimed_state_claimable claimed_state_rows jobs cut due_limit_def)
  moreover have "starts_of (ts_id demo_row) (fold (poll_step plain_carbon) ?es (poll_step plain_carbon (Die 0) dead_job)) = starts_of (ts_id demo_row) dead_job"
    by (rule conjunct1 [OF lost [of dead_job due_limit, OF _ _ _ _ dead_job_def _ later]])
      (simp_all add: claimed_state_claimable claimed_state_rows jobs dead_job_rows due_limit_def demo_row_def)
  moreover have "ts_id demo_row = 1" by (simp add: demo_row_def)
  ultimately show ?thesis by (simp only: cut(2) dead_job_rows(2) HOL.simp_thms)
qed

end
