(* ===== verification/Workflow_Routes.thy ===== *)
theory Workflow_Routes
  imports Workflow_Store Schedule_Poller
begin

text \<open>
  The handlers of the HTTP routes for workflows (\<open>backend/controllers/workflow.go\<close>), and the server as a whole: its tables change by
  requests, by the polls of the scheduler and by runs. The routes for runs (\<open>backend/controllers/workflow_run.go\<close>) are not among the requests here. The user is the one that the session middleware has put into the context; a request without one is answered with an
  error. An answer is a status code and a body.
\<close>

section \<open>Answers and requests\<close>

datatype route_body =
    Failure string
  | WorkflowBody workflow_row
  | WorkflowsBody "workflow_row list"
  | GraphBody graph_dto
  | Identifier int
  | Done string

type_synonym answer = "nat \<times> route_body"

text \<open>The bodies of requests after \<open>json.Unmarshal\<close>; a field that the text does not have is empty or nil, and the lists have no \<open>null\<close> in them.\<close>

record create_request =
  cr_name :: string
  cr_description :: string
  cr_status :: string
  cr_nodes :: "node_dto list option"
  cr_edges :: "edge_dto list option"

record update_request =
  ur_name :: string
  ur_description :: string
  ur_nodes :: "node_dto list option"
  ur_edges :: "edge_dto list option"

text \<open>\<open>ShouldBindJSON\<close>: the text is no JSON text of the type, or a field that is required is the zero value of its type.\<close>

definition bind_create :: "create_request option \<Rightarrow> (string \<times> string \<times> string \<times> node_dto list \<times> edge_dto list) option" where
  "bind_create body =
     (case body of
        None \<Rightarrow> None
      | Some q \<Rightarrow> (case (cr_nodes q, cr_edges q) of
          (Some nodes, Some edges) \<Rightarrow>
            if cr_name q = [] \<or> cr_description q = [] \<or> cr_status q = [] then None
            else Some (cr_name q, cr_description q, cr_status q, nodes, edges)
        | _ \<Rightarrow> None))"

definition bind_update :: "update_request option \<Rightarrow> (string \<times> string \<times> node_dto list \<times> edge_dto list) option" where
  "bind_update body =
     (case body of
        None \<Rightarrow> None
      | Some q \<Rightarrow> (case (ur_nodes q, ur_edges q) of
          (Some nodes, Some edges) \<Rightarrow>
            if ur_name q = [] \<or> ur_description q = [] then None else Some (ur_name q, ur_description q, nodes, edges)
        | _ \<Rightarrow> None))"

definition path_id :: "string \<Rightarrow> int option" where
  "path_id s = map_option int32 (Atoi s)"

section \<open>Handlers\<close>

text \<open>What the handlers share: the number in the path, the user, and the check of access; \<open>what\<close> is the rest of the message.\<close>

definition checked_access :: "string \<Rightarrow> string option \<Rightarrow> string \<Rightarrow> server_db \<Rightarrow> answer + (int \<times> string)" where
  "checked_access what user idStr d =
     (case path_id idStr of
        None \<Rightarrow> Inl (400, Failure ''invalid id'')
      | Some w \<Rightarrow> (case user of
          None \<Rightarrow> Inl (500, Failure ''user not found'')
        | Some u \<Rightarrow> (case VerifyWorkflowAccess w u d of
            None \<Rightarrow> Inr (w, u)
          | Some e \<Rightarrow> if e = Msg ''user does not have access to workflow'' then Inl (403, Failure (''unauthorized to '' @ what))
              else Inl (500, Failure ''failed to verify workflow access''))))"

definition ctl_GetWorkflow :: "string option \<Rightarrow> string \<Rightarrow> server_db \<Rightarrow> answer" where
  "ctl_GetWorkflow user idStr d =
     (case path_id idStr of
        None \<Rightarrow> (400, Failure ''invalid id'')
      | Some w \<Rightarrow> (case user of
          None \<Rightarrow> (500, Failure ''user not found'')
        | Some u \<Rightarrow> (case q_GetWorkflow w d of
            Inl e \<Rightarrow> (404, Failure ''workflow not found'')
          | Inr r \<Rightarrow> if u \<noteq> tw_user r then (403, Failure ''unauthorized to view workflow'') else (200, WorkflowBody r))))"

definition ctl_GetUserWorkflows :: "string option \<Rightarrow> server_db \<Rightarrow> answer" where
  "ctl_GetUserWorkflows user d =
     (case user of
        None \<Rightarrow> (500, Failure ''user not found'')
      | Some u \<Rightarrow> (200, WorkflowsBody (filter (\<lambda>r. tw_user r = u) (db_workflows d))))"

definition ctl_CreateWorkflow :: "server_env \<Rightarrow> string option \<Rightarrow> create_request option \<Rightarrow> server_db \<Rightarrow> answer \<times> server_db" where
  "ctl_CreateWorkflow ev user body d =
     (case bind_create body of
        None \<Rightarrow> ((422, Failure ''invalid request body''), d)
      | Some (name, description, status, nodes, edges) \<Rightarrow> (case user of
          None \<Rightarrow> ((500, Failure ''user not found''), d)
        | Some u \<Rightarrow> (case WorkflowService_CreateWorkflow ev u name description status nodes edges d of
            (Inl e, d') \<Rightarrow> ((500, Failure ''failed to create workflow''), d')
          | (Inr w, d') \<Rightarrow> ((201, Identifier w), d'))))"

definition ctl_UpdateWorkflow :: "server_env \<Rightarrow> string option \<Rightarrow> string \<Rightarrow> update_request option \<Rightarrow> server_db \<Rightarrow> answer \<times> server_db" where
  "ctl_UpdateWorkflow ev user idStr body d =
     (case checked_access ''update workflow'' user idStr d of
        Inl a \<Rightarrow> (a, d)
      | Inr (w, u) \<Rightarrow> (case bind_update body of
          None \<Rightarrow> ((422, Failure ''invalid request body''), d)
        | Some (name, description, nodes, edges) \<Rightarrow> (case WorkflowService_UpdateWorkflow ev u w name description nodes edges d of
            (Some e, d') \<Rightarrow> ((400, Failure ''failed to update workflow''), d')
          | (None, d') \<Rightarrow> ((200, Done ''workflow updated''), d'))))"

definition ctl_GetWorkflowRender :: "server_env \<Rightarrow> string option \<Rightarrow> string \<Rightarrow> server_db \<Rightarrow> answer" where
  "ctl_GetWorkflowRender ev user idStr d =
     (case checked_access ''view workflow'' user idStr d of
        Inl a \<Rightarrow> a
      | Inr (w, u) \<Rightarrow> (case workflowRepo_RenderWorkflowGraph ev w d of
          Inl e \<Rightarrow> (404, Failure ''workflow not found'')
        | Inr g \<Rightarrow> (200, GraphBody g)))"

definition ctl_ArchiveWorkflow :: "string option \<Rightarrow> string \<Rightarrow> server_db \<Rightarrow> answer \<times> server_db" where
  "ctl_ArchiveWorkflow user idStr d =
     (case checked_access ''archive workflow'' user idStr d of
        Inl a \<Rightarrow> (a, d)
      | Inr (w, u) \<Rightarrow> (case WorkflowService_ArchiveWorkflow w d of
          (Some e, d') \<Rightarrow> ((500, Failure ''failed to archive workflow''), d')
        | (None, d') \<Rightarrow> ((200, Done ''workflow archived''), d')))"

section \<open>The server\<close>

datatype route_request =
    CreateRequest "create_request option"
  | UpdateRequest string "update_request option"
  | ArchiveRequest string
  | RenderRequest string
  | WorkflowRequest string
  | WorkflowsRequest

fun handle_request :: "server_env \<Rightarrow> string option \<Rightarrow> route_request \<Rightarrow> server_db \<Rightarrow> answer \<times> server_db" where
  "handle_request ev user (CreateRequest body) d = ctl_CreateWorkflow ev user body d"
| "handle_request ev user (UpdateRequest i body) d = ctl_UpdateWorkflow ev user i body d"
| "handle_request ev user (ArchiveRequest i) d = ctl_ArchiveWorkflow user i d"
| "handle_request ev user (RenderRequest i) d = (ctl_GetWorkflowRender ev user i d, d)"
| "handle_request ev user (WorkflowRequest i) d = (ctl_GetWorkflow user i d, d)"
| "handle_request ev user WorkflowsRequest d = (ctl_GetUserWorkflows user d, d)"

text \<open>The rows that a new run of a workflow adds: one for the run and one for every node.\<close>

definition run_rows :: "int \<Rightarrow> int \<Rightarrow> server_db \<Rightarrow> server_db" where
  "run_rows run w d =
     d\<lparr>db_runs := db_runs d @ [(run, w)], db_nodeRuns := db_nodeRuns d @ map tn_id (filter (\<lambda>n. tn_workflow n = w) (db_nodes d))\<rparr>"

definition empty_db :: server_db where
  "empty_db = \<lparr>db_workflows = [], db_nodes = [], db_ui = [], db_edges = [], db_schedules = [], db_calendars = [], db_runs = [], db_nodeRuns = [],
     db_nextWorkflow = 1, db_nextNode = 1, db_nextSchedule = 1, db_nextCalendar = 1, db_open = 0\<rparr>"

end
