(* ===== verification/Store_Safety.thy ===== *)
theory Store_Safety
  imports Store_Others Workflow_Routes
begin

text \<open>
  The invariant of the store over all sequences of requests, what failing requests leave, who may read and change a workflow, and what becomes of the triggers of a workflow.
\<close>

section \<open>Failed transactions\<close>

text \<open>The sequences only grow, up to their end, and a transaction on a graph leaves triggers alone.\<close>

definition counts_from :: "server_db \<Rightarrow> server_db \<Rightarrow> bool" where
  "counts_from d t \<longleftrightarrow> db_nextNode d \<le> db_nextNode t \<and> db_nextNode t \<le> serial_max + 1 \<and> db_nextWorkflow d \<le> db_nextWorkflow t \<and>
     db_schedules t = db_schedules d \<and> db_calendars t = db_calendars d"

definition tx_counts :: "server_db \<Rightarrow> ('a \<Rightarrow> server_db) \<Rightarrow> 'a tx \<Rightarrow> bool" where
  "tx_counts d sel m \<longleftrightarrow> (case m of Inl (_, _, t) \<Rightarrow> counts_from d t | Inr x \<Rightarrow> counts_from d (sel x))"

lemma tx_counts_simps [simp]:
  "tx_counts d sel (Inr x) = counts_from d (sel x)" "tx_counts d sel (left_open e t) = counts_from d t" "tx_counts d sel (rolled_back e t) = counts_from d t"
  by (simp_all add: tx_counts_def left_open_def rolled_back_def)

lemma tx_counts_bind:
  assumes "tx_counts d sel m" and "\<And>x. m = Inr x \<Longrightarrow> counts_from d (sel x) \<Longrightarrow> tx_counts d sel' (f x)"
  shows "tx_counts d sel' (tx_bind m f)"
  using assms by (cases m) (auto simp: tx_counts_def tx_bind_def split: prod.splits)

lemma tx_counts_each:
  assumes "\<And>b x. counts_from d (sel x) \<Longrightarrow> tx_counts d sel (f b x)" and "counts_from d (sel x)"
  shows "tx_counts d sel (tx_each f bs x)"
  using assms(2)
proof (induction bs arbitrary: x)
  case (Cons b bs)
  then show ?case by (auto intro!: tx_counts_bind [where sel = sel] assms(1))
qed (simp add: tx_counts_def)

lemma counts_insert:
  assumes "counts_from d t"
  shows "tx_counts d snd (tx_insert_node w n t)"
proof -
  have i: "db_nextNode t \<le> serial_max \<Longrightarrow> counts_from d (t\<lparr>db_nodes := ns, db_nextNode := db_nextNode t + 1\<rparr>)"
    "db_nextNode t \<le> serial_max \<Longrightarrow> counts_from d (t\<lparr>db_nodes := ns, db_nextNode := db_nextNode t + 1, db_ui := us\<rparr>)" for ns us
    using assms by (simp_all add: counts_from_def)
  show ?thesis using assms i
    by (auto simp: tx_counts_def tx_insert_node_def left_open_def q_CreateWorkflowNode_def q_CreateWorkflowNodeUi_def Let_def split: option.splits)
qed

lemma counts_add_node: "counts_from d (fst s) \<Longrightarrow> tx_counts d fst (tx_add_node w n s)"
  by (cases s) (auto simp: tx_add_node_def intro!: tx_counts_bind [OF counts_insert])

lemma counts_create_node: "counts_from d (fst s) \<Longrightarrow> tx_counts d fst (tx_create_node w n s)"
  by (cases s) (auto simp: tx_create_node_def intro!: tx_counts_bind [OF counts_insert])

lemma counts_others:
  "counts_from d t \<Longrightarrow> tx_counts d id (tx_delete_node i t)" "counts_from d t \<Longrightarrow> tx_counts d id (tx_move_node n t)"
  "counts_from d t \<Longrightarrow> tx_counts d id (tx_change_node n t)" "counts_from d t \<Longrightarrow> tx_counts d id (tx_delete_edge w k t)"
  "counts_from d t \<Longrightarrow> tx_counts d id (tx_add_edge w ids k t)" "counts_from d t \<Longrightarrow> tx_counts d id (tx_create_edge w ids e t)"
  by (auto simp: tx_delete_node_def q_DeleteWorkflowNode_def tx_move_node_def q_UpdateWorkflowNodeUI_def tx_change_node_def
      q_UpdateWorkflowNode_def tx_delete_edge_def q_DeleteWorkflowEdge_def tx_add_edge_def q_CreateWorkflowEdge_def tx_create_edge_def
      counts_from_def Let_def split: option.splits)

lemma counts_update:
  assumes "counts_from d t"
  shows "tx_counts d id (tx_update w dl ex t)"
proof -
  have m: "counts_from d (q_UpdateWorkflow w a b t)" for a b
    using assms by (simp add: counts_from_def q_UpdateWorkflow_def)
  have each: "\<And>bs x. counts_from d x \<Longrightarrow> tx_counts d id (tx_each f bs x)" if "\<And>b x. counts_from d x \<Longrightarrow> tx_counts d id (f b x)" for f :: "'b \<Rightarrow> server_db \<Rightarrow> server_db tx"
    by (rule tx_counts_each) (use that in simp_all)
  show ?thesis
    unfolding tx_update_def
    by (auto simp: assms split: option.split
        intro!: tx_counts_bind [where sel = id] tx_counts_bind [where sel = fst] each tx_counts_each [where sel = fst] counts_others counts_add_node m)
qed

section \<open>Created workflows\<close>

lemma create_nodes_add:
  assumes "tx_each (tx_create_node w) ns (d, ids, cr) = Inr (d', ids', cr')"
  shows "tx_each (tx_add_node w) ns (d, ids) = Inr (d', ids') \<and> cr' = cr @ numbered (db_nextNode d) ns"
  using assms
proof (induction ns arbitrary: d ids cr)
  case (Cons n ns)
  obtain s1 where "tx_create_node w n (d, ids, cr) = Inr s1" "tx_each (tx_create_node w) ns s1 = Inr (d', ids', cr')"
    using Cons.prems by auto
  then obtain i d1 where d1: "tx_insert_node w n d = Inr (i, d1)" "tx_each (tx_create_node w) ns (d1, js_set (dn_id n) i ids, cr @ [(i, n)]) = Inr (d', ids', cr')"
    by (auto simp: tx_create_node_def left_open_def split: if_splits)
  have "i = db_nextNode d" "db_nextNode d1 = db_nextNode d + 1" by (rule insert_node_tables [OF d1(1)], simp)+
  then show ?case using Cons.IH [OF d1(2)] d1(1) by (simp add: tx_add_node_def tx_bind_def)
qed simp

lemma create_edges_add:
  "tx_each (tx_create_edge w ids) es d = Inr d' \<Longrightarrow> tx_each (tx_add_edge w ids) (map edge_key es) d = Inr d'"
  by (induction es arbitrary: d) (auto simp: tx_create_edge_def tx_add_edge_def edge_key_def left_open_def rolled_back_def split: if_splits sum.splits)

lemma new_workflow_ok:
  assumes ok: "rows_ok d" and q: "q_CreateWorkflow u a b st d = Inr (w, d1)"
  shows "rows_ok d1" "w = db_nextWorkflow d" "w \<notin> workflow_ids d" "node_at d1 = node_at d" "pos_at d1 = pos_at d" "db_edges d1 = db_edges d" "db_nodes d1 = db_nodes d"
    "db_nextNode d1 = db_nextNode d" "db_workflows d1 = db_workflows d @ [\<lparr>tw_id = w, tw_user = u, tw_name = a, tw_description = b, tw_status = st\<rparr>]"
    "db_schedules d1 = db_schedules d" "db_calendars d1 = db_calendars d" "db_nextWorkflow d1 = db_nextWorkflow d + 1"
proof -
  have d1: "d1 = d\<lparr>db_workflows := db_workflows d @ [\<lparr>tw_id = w, tw_user = u, tw_name = a, tw_description = b, tw_status = st\<rparr>], db_nextWorkflow := w + 1\<rparr>"
    and w: "w = db_nextWorkflow d" using q by (auto simp: q_CreateWorkflow_def Let_def split: if_splits)
  show fresh: "w \<notin> workflow_ids d" using ok w unfolding rows_ok_def by blast
  have ids: "workflow_ids d1 = insert w (workflow_ids d)" "node_ids d1 = node_ids d" by (auto simp: d1 workflow_ids_def node_ids_def)
  have "\<forall>i\<in>workflow_ids d1. i < db_nextWorkflow d1" using ok unfolding ids by (auto simp: rows_ok_def d1 w)
  moreover have "distinct (map tw_id (db_workflows d1))" using ok fresh by (simp add: d1 rows_ok_def workflow_ids_def)
  ultimately show "rows_ok d1" using ok unfolding rows_ok_def ids by (simp add: d1)
qed (use q in \<open>auto simp: q_CreateWorkflow_def Let_def node_at_def pos_at_def split: if_splits\<close>)

text \<open>The number that the loop has noted for an identifier: the last node with the identifier has it.\<close>

definition create_num :: "int \<Rightarrow> node_dto list \<Rightarrow> string \<Rightarrow> int" where
  "create_num k ns x = number_of (map_of (rev (map (\<lambda>(i, n). (dn_id n, i)) (numbered k ns)))) x"

lemma create_num_row:
  assumes "x \<in> dn_id ` set ns"
  obtains n where "(create_num k ns x, n) \<in> set (numbered k ns)" "dn_id n = x"
proof -
  let ?m = "rev (map (\<lambda>(i, n). (dn_id n, i)) (numbered k ns))"
  have "fst ` set ?m = dn_id ` set (map snd (numbered k ns))" by (force simp: image_iff)
  then have "x \<in> fst ` set ?m" using assms by (simp add: numbered_snd)
  then obtain i where i: "map_of ?m x = Some i" by (metis map_of_eq_None_iff not_None_eq)
  then have "(x, i) \<in> set ?m" by (rule map_of_SomeD)
  then obtain n where "(i, n) \<in> set (numbered k ns)" "dn_id n = x" by auto
  then show ?thesis using that i by (simp add: create_num_def number_of_def)
qed

lemma numbered_fun: "(i, m) \<in> set (numbered k ns) \<Longrightarrow> (i, n) \<in> set (numbered k ns) \<Longrightarrow> m = n"
  using numbered_distinct [of k ns] by (metis eq_key_imp_eq_value)

lemma create_num_inj: "inj_on (create_num k ns) (dn_id ` set ns)"
proof (rule inj_onI)
  fix x y assume xy: "x \<in> dn_id ` set ns" "y \<in> dn_id ` set ns" "create_num k ns x = create_num k ns y"
  obtain m n where "(create_num k ns x, m) \<in> set (numbered k ns)" "dn_id m = x" "(create_num k ns y, n) \<in> set (numbered k ns)" "dn_id n = y"
    using create_num_row xy(1,2) by metis
  then show "x = y" using xy(3) numbered_fun by metis
qed

definition create_edge :: "int \<Rightarrow> (string \<Rightarrow> int) \<Rightarrow> edge_dto \<Rightarrow> edge_row" where
  "create_edge w num e = \<lparr>te_workflow = w, te_source = num (de_source e), te_target = num (de_target e)\<rparr>"

lemma create_run:
  assumes ok: "rows_ok d" and c: "workflowRepo_CreateWorkflow u a b st nodes edges d = (Inr (w, cr, ts), d')"
  shows "rows_ok d'" "w \<notin> workflow_ids d" "nodes \<noteq> []" "\<forall>n\<in>set nodes. dn_config n \<noteq> None \<and> dn_position n \<noteq> None"
    "node_at d' = node_at d ++ map_of (map (\<lambda>(i, n). (i, new_row w i n)) (numbered (db_nextNode d) nodes))"
    "pos_at d' = pos_at d ++ map_of (map (\<lambda>(i, n). (i, the (dn_position n))) (numbered (db_nextNode d) nodes))"
    "set (db_edges d') = set (db_edges d) \<union> create_edge w (create_num (db_nextNode d) nodes) ` set edges"
    "db_workflows d' = db_workflows d @ [\<lparr>tw_id = w, tw_user = u, tw_name = a, tw_description = b, tw_status = st\<rparr>]"
proof -
  show "nodes \<noteq> []" using c by (auto simp: workflowRepo_CreateWorkflow_def split: if_splits)
  obtain d1 d2 ids where D: "q_CreateWorkflow u a b st d = Inr (w, d1)" "tx_each (tx_create_node w) nodes (d1, [], []) = Inr (d2, ids, cr)"
    "tx_each (tx_create_edge w ids) edges d2 = Inr d'"
    using c by (auto simp: workflowRepo_CreateWorkflow_def Let_def rolled_back_def tx_bind_def split: if_splits sum.splits prod.splits)
  note n = new_workflow_ok [OF ok D(1)]
  note a = add_nodes [OF n(1) conjunct1 [OF create_nodes_add [OF D(2)]]]
  note e = add_edge_rows [OF conjunct1 [OF a] create_edges_add [OF D(3)]]
  show "w \<notin> workflow_ids d" by (rule n(3))
  have "map_of ids = map_of (rev (map (\<lambda>(i, n). (dn_id n, i)) (numbered (db_nextNode d) nodes)))" using a n(8) by simp
  then have "go_lookup ids = create_num (db_nextNode d) nodes" by (simp add: fun_eq_iff go_lookup_def create_num_def number_of_def)
  then show "set (db_edges d') = set (db_edges d) \<union> create_edge w (create_num (db_nextNode d) nodes) ` set edges"
    using a e n(6) by (simp add: image_image create_edge_def edge_key_def)
  show "rows_ok d'" using e by blast
  show "\<forall>n\<in>set nodes. dn_config n \<noteq> None \<and> dn_position n \<noteq> None" using a by blast
  show "node_at d' = node_at d ++ map_of (map (\<lambda>(i, n). (i, new_row w i n)) (numbered (db_nextNode d) nodes))" using a e n(4,8) by simp
  show "pos_at d' = pos_at d ++ map_of (map (\<lambda>(i, n). (i, the (dn_position n))) (numbered (db_nextNode d) nodes))" using a e n(5,8) by simp
  show "db_workflows d' = db_workflows d @ [\<lparr>tw_id = w, tw_user = u, tw_name = a, tw_description = b, tw_status = st\<rparr>]" using a e n(9) by simp
qed

lemma node_at_workflow:
  assumes "rows_ok d" and "node_at d i = Some m"
  shows "tn_workflow m \<in> workflow_ids d"
proof -
  have "m \<in> set (db_nodes d)" using assms node_at_Some [of d i m] unfolding rows_ok_def by simp
  then show ?thesis using assms(1) unfolding rows_ok_def by blast
qed

lemma create_node_rows:
  assumes ok: "rows_ok d" and c: "workflowRepo_CreateWorkflow u a b st nodes edges d = (Inr (w, cr, ts), d')"
  shows "(i, n) \<in> set (numbered (db_nextNode d) nodes) \<Longrightarrow> node_at d' i = Some (new_row w i n) \<and> pos_at d' i = dn_position n"
    and "i \<in> node_ids d \<Longrightarrow> node_at d' i = node_at d i"
    and "ids_of w d' = fst ` set (numbered (db_nextNode d) nodes)"
proof -
  note r = create_run [OF ok c]
  show new: "node_at d' i = Some (new_row w i n) \<and> pos_at d' i = dn_position n" if i: "(i, n) \<in> set (numbered (db_nextNode d) nodes)" for i n
  proof -
    have "n \<in> set nodes" using numbered_ids [OF i] by blast
    then obtain p where "dn_position n = Some p" using r(4) by blast
    then show ?thesis using numbered_lookup [OF i, of "new_row w"] numbered_lookup [OF i, of "\<lambda>i n. the (dn_position n)"] by (simp add: r(5,6) map_add_def)
  qed
  show old: "node_at d' i = node_at d i" if "i \<in> node_ids d" for i
  proof -
    have "i < db_nextNode d" using ok that unfolding rows_ok_def by blast
    then show ?thesis using numbered_below [of i "db_nextNode d" "new_row w" nodes] by (simp add: r(5) map_add_def)
  qed
  have "i \<in> fst ` set (numbered (db_nextNode d) nodes)" if i: "node_at d' i = Some m" "tn_workflow m = w" for i m
  proof (cases "i \<in> node_ids d")
    case True
    then have "node_at d i = Some m" using old i(1) by simp
    then show ?thesis using node_at_workflow [OF ok] r(2) i(2) by blast
  next
    case False
    then have "node_at d i = None" using dom_node_at by blast
    then show ?thesis using i(1) unfolding r(5) by (force dest: map_of_SomeD)
  qed
  moreover have "\<exists>m. node_at d' i = Some m \<and> tn_workflow m = w" if "i \<in> fst ` set (numbered (db_nextNode d) nodes)" for i
    using that new by (force simp: new_row_def)
  ultimately show "ids_of w d' = fst ` set (numbered (db_nextNode d) nodes)" using ids_of_node_at [OF r(1)] by blast
qed

lemma edge_end_node:
  assumes "edges_within d" and "e \<in> set (db_edges d)" and "i \<in> {te_source e, te_target e}"
  obtains m where "node_at d i = Some m" "tn_workflow m = te_workflow e"
proof -
  have "\<forall>i\<in>{te_source e, te_target e}. \<exists>n. node_at d i = Some n \<and> tn_workflow n = te_workflow e"
    using assms(1,2) unfolding edges_within_def by (rule bspec)
  then show ?thesis using assms(3) that by blast
qed

lemma create_edge_sets:
  assumes ok: "rows_ok d" and within: "edges_within d" and c: "workflowRepo_CreateWorkflow u a b st nodes edges d = (Inr (w, cr, ts), d')"
  shows "{e \<in> set (db_edges d'). te_workflow e = w} = create_edge w (create_num (db_nextNode d) nodes) ` set edges"
    and "w' \<noteq> w \<Longrightarrow> {e \<in> set (db_edges d'). te_workflow e = w'} = {e \<in> set (db_edges d). te_workflow e = w'}"
proof -
  note r = create_run [OF ok c]
  have old: "te_workflow e \<noteq> w" if e: "e \<in> set (db_edges d)" for e
  proof -
    obtain m where m: "node_at d (te_source e) = Some m" "tn_workflow m = te_workflow e" using edge_end_node [OF within e] by blast
    show ?thesis using node_at_workflow [OF ok m(1)] r(2) m(2) by auto
  qed
  have new: "te_workflow (create_edge w num e) = w" for num e by (simp add: create_edge_def)
  show "{e \<in> set (db_edges d'). te_workflow e = w} = create_edge w (create_num (db_nextNode d) nodes) ` set edges" unfolding r(7) using old new by blast
  show "{e \<in> set (db_edges d'). te_workflow e = w'} = {e \<in> set (db_edges d). te_workflow e = w'}" if "w' \<noteq> w"
    unfolding r(7) using new that by auto
qed

lemma create_within:
  assumes ok: "rows_ok d" and within: "edges_within d" and c: "workflowRepo_CreateWorkflow u a b st nodes edges d = (Inr (w, cr, ts), d')"
    and ends: "\<forall>e\<in>set edges. de_source e \<in> dn_id ` set nodes \<and> de_target e \<in> dn_id ` set nodes"
  shows "edges_within d'"
proof -
  note r = create_run [OF ok c] and rows = create_node_rows [OF ok c]
  have new: "\<exists>m. node_at d' (create_num (db_nextNode d) nodes x) = Some m \<and> tn_workflow m = w" if "x \<in> dn_id ` set nodes" for x
    using create_num_row [OF that, of "db_nextNode d"] rows(1) by (metis (no_types, lifting) new_row_def node_row.select_convs(2))
  have "\<exists>m. node_at d' i = Some m \<and> tn_workflow m = te_workflow e" if e: "e \<in> set (db_edges d')" and i: "i \<in> {te_source e, te_target e}" for e i
  proof (cases "e \<in> set (db_edges d)")
    case True
    then obtain m where m: "node_at d i = Some m" "tn_workflow m = te_workflow e" using edge_end_node [OF within True i] by blast
    then have "i \<in> node_ids d" using dom_node_at by blast
    then show ?thesis using m rows(2) by simp
  next
    case False
    then obtain e' where e': "e' \<in> set edges" "e = create_edge w (create_num (db_nextNode d) nodes) e'" using e r(7) by blast
    then show ?thesis using i ends new by (auto simp: create_edge_def)
  qed
  then show ?thesis unfolding edges_within_def by blast
qed

lemma create_holds:
  assumes ok: "rows_ok d" and within: "edges_within d" and c: "workflowRepo_CreateWorkflow u a b st nodes edges d = (Inr (w, cr, ts), d')"
    and dis: "distinct (map dn_id nodes)"
  shows "holds w nodes edges (create_num (db_nextNode d) nodes) (\<lambda>n. json_config (the (dn_config n))) d'"
proof -
  let ?k = "db_nextNode d"
  let ?num = "create_num ?k nodes"
  note r = create_run [OF ok c] and rows = create_node_rows [OF ok c]
  have inj: "inj_on dn_id (set nodes)" using dis by (simp add: distinct_map)
  have num: "(?num (dn_id n), n) \<in> set (numbered ?k nodes)" if n: "n \<in> set nodes" for n
  proof -
    obtain m where m: "(?num (dn_id n), m) \<in> set (numbered ?k nodes)" "dn_id m = dn_id n" using create_num_row [OF imageI [OF n]] by blast
    then have "m = n" using numbered_ids [OF m(1)] n inj by (auto dest: inj_onD)
    then show ?thesis using m(1) by simp
  qed
  have "fst ` set (numbered ?k nodes) = ?num ` dn_id ` set nodes"
  proof -
    have "i = ?num (dn_id n)" if "(i, n) \<in> set (numbered ?k nodes)" for i n
      using numbered_unique [OF _ that num] numbered_ids [OF that] dis by (auto simp: distinct_map)
    then have "fst ` set (numbered ?k nodes) \<subseteq> ?num ` dn_id ` set nodes" using numbered_ids by fastforce
    moreover have "?num ` dn_id ` set nodes \<subseteq> fst ` set (numbered ?k nodes)" using num by force
    ultimately show ?thesis by blast
  qed
  moreover have "edge_nums ` {e \<in> set (db_edges d'). te_workflow e = w} = (\<lambda>e. (?num (de_source e), ?num (de_target e))) ` set edges"
    unfolding create_edge_sets(1) [OF ok within c] by (simp add: image_image edge_nums_def create_edge_def)
  ultimately show ?thesis unfolding holds_def using create_num_inj [of ?k nodes] rows(1) [OF num] rows(3) r(4) by (simp add: new_row_def)
qed

text \<open>Setting up and updating the triggers of a workflow leaves the graphs alone, and the triggers of other workflows.\<close>

definition same_triggers :: "int \<Rightarrow> server_db \<Rightarrow> server_db \<Rightarrow> bool" where
  "same_triggers w d d' \<longleftrightarrow> filter (\<lambda>s. ts_workflow s = w) (db_schedules d') = filter (\<lambda>s. ts_workflow s = w) (db_schedules d) \<and>
     filter (\<lambda>c. tc_workflow c = w) (db_calendars d') = filter (\<lambda>c. tc_workflow c = w) (db_calendars d)"

definition trigger_change :: "int \<Rightarrow> server_db \<Rightarrow> server_db \<Rightarrow> bool" where
  "trigger_change w d d' \<longleftrightarrow> same_graph d d' \<and> (\<forall>w'. w' \<noteq> w \<longrightarrow> same_triggers w' d d')"

lemma trigger_change_refl [simp]: "trigger_change w d d"
  by (simp add: trigger_change_def same_triggers_def)

lemma trigger_change_trans: "trigger_change w d d' \<Longrightarrow> trigger_change w d' d'' \<Longrightarrow> trigger_change w d d''"
  using same_graph_trans by (auto simp: trigger_change_def same_triggers_def)

lemma filter_map_other: "(\<And>x. Q (f x) = Q x) \<Longrightarrow> (\<And>x. Q x \<Longrightarrow> f x = x) \<Longrightarrow> filter Q (map f xs) = filter Q xs"
  by (induction xs) auto

lemma statement_triggers:
  assumes "w' \<noteq> w"
  shows "same_triggers w' d (snd (db_result d (q_UpdateWorkflowSchedule w ty a b st d)))" "same_triggers w' d (snd (db_result d (q_UpdateWorkflowCalendar w cc tok st t d)))"
    "same_triggers w' d (snd (db_result d (q_CreateWorkflowSchedule w ty a b st d)))" "same_triggers w' d (snd (db_result d (q_CreateWorkflowCalendar w cc tok st t d)))"
proof -
  have "filter (\<lambda>s. ts_workflow s = w') (map (\<lambda>s. if ts_workflow s = w then s\<lparr>ts_type := ty, ts_next := a, ts_last := b, ts_state := st\<rparr> else s) xs) =
      filter (\<lambda>s. ts_workflow s = w') xs" for xs :: "schedule_row list"
    by (rule filter_map_other) (use assms in simp_all)
  then show "same_triggers w' d (snd (db_result d (q_UpdateWorkflowSchedule w ty a b st d)))"
    by (simp add: q_UpdateWorkflowSchedule_def db_result_def same_triggers_def)
  have "filter (\<lambda>c. tc_workflow c = w') (map (\<lambda>c. if tc_workflow c = w then c\<lparr>tc_config := cc, tc_token := tok, tc_state := st, tc_synced := t\<rparr> else c) xs) =
      filter (\<lambda>c. tc_workflow c = w') xs" for xs :: "calendar_row list"
    by (rule filter_map_other) (use assms in simp_all)
  then show "same_triggers w' d (snd (db_result d (q_UpdateWorkflowCalendar w cc tok st t d)))"
    by (simp add: q_UpdateWorkflowCalendar_def db_result_def same_triggers_def)
qed (use assms in \<open>simp_all add: q_CreateWorkflowSchedule_def q_CreateWorkflowCalendar_def db_result_def same_triggers_def Let_def\<close>)

lemma same_triggers_refl [simp]: "same_triggers w d d"
  by (simp add: same_triggers_def)

lemma registry_Update_change:
  assumes "config_int32 c ''workflow_id'' = Some w"
  shows "trigger_change w d (snd (registry_Update ev ty c d))"
proof -
  have "same_triggers w' d (snd (registry_Update ev ty c d))" if "w' \<noteq> w" for w'
    using assms statement_triggers(1,2) [OF that]
    by (simp add: registry_Update_def schedule_Update_def calendar_Update_def UpdateWorkflowSchedule_def scheduleRepo_UpdateWorkflowSchedule_def Let_def
        split: sum.split option.split prod.split)
  then show ?thesis using registry_Update_graph unfolding trigger_change_def by blast
qed

lemma registry_Execute_change:
  assumes "config_int32 c ''workflow_id'' = Some w"
  shows "trigger_change w d (snd (registry_Execute ev ty c d))"
proof -
  have "same_triggers w' d (snd (registry_Execute ev ty c d))" if "w' \<noteq> w" for w'
    using assms statement_triggers(3,4) [OF that]
    by (simp add: registry_Execute_def schedule_Execute_def calendar_Execute_def ScheduleWorkflow_def scheduleRepo_Create_def Let_def
        split: sum.split option.split prod.split)
  then show ?thesis using registry_Execute_graph unfolding trigger_change_def by blast
qed

lemma execute_triggers_change: "trigger_change w d (snd (execute_triggers ev u w ns d))"
proof (induction ns arbitrary: d)
  case (Cons n ns)
  let ?c = "fmupd ''user_id'' (GStr u) (fmupd ''workflow_id'' (GInt32 w) (case dn_config n of None \<Rightarrow> fmempty | Some c \<Rightarrow> c))"
  obtain r d1 where r: "registry_Execute ev (dn_type n) ?c d = (r, d1)" by fastforce
  have "config_int32 ?c ''workflow_id'' = Some w" by (simp add: config_int32_def)
  from registry_Execute_change [OF this, of d ev "dn_type n"] have "trigger_change w d d1" using r by simp
  then show ?case using r Cons.IH [of d] trigger_change_trans [OF _ Cons.IH [of d1]] by (simp add: Let_def split: option.split)
qed simp

text \<open>The three ways in which a creation ends: nothing was stored, or the transaction failed, or the workflow is stored, which is so even when a trigger could not be set up.\<close>

lemma create_cases:
  assumes "WorkflowService_CreateWorkflow ev u a b st nodes edges d = (r, d')"
  obtains (Refused) e where "r = Inl e" "d' = d"
  | (Failed) e where "r = Inl e" "workflowRepo_CreateWorkflow u a b st nodes edges d = (Inl e, d')"
  | (Stored) w cr ts d1 where "check_graph ev nodes edges = None" "workflowRepo_CreateWorkflow u a b st nodes edges d = (Inr (w, cr, ts), d1)"
      "trigger_change w d1 d'" "r = Inr w \<or> (\<exists>e. r = Inl e)"
proof -
  note def = assms [unfolded WorkflowService_CreateWorkflow_def]
  show ?thesis
  proof (cases "check_graph ev nodes edges")
    case None
    show ?thesis
    proof (cases "validate_nodes ev nodes")
      case v: None
      obtain x d1 where x: "workflowRepo_CreateWorkflow u a b st nodes edges d = (x, d1)" by fastforce
      show ?thesis
      proof (cases x)
        case (Inl e)
        then show ?thesis using Failed def x None v by simp
      next
        case (Inr y)
        obtain w cr ts where y: "y = (w, cr, ts)" by (metis prod_cases3)
        obtain r2 d2 where t: "execute_triggers ev u w (map snd (root_nodes fst cr ts)) d1 = (r2, d2)" by fastforce
        then have "trigger_change w d1 d2" using execute_triggers_change by (metis snd_conv)
        then show ?thesis using Stored [OF None, of w cr ts d1] def x None v Inr y t by (auto split: option.splits)
      qed
    qed (use Refused def None in auto)
  qed (use Refused def in auto)
qed

lemma create_counts:
  assumes ok: "rows_ok d" and c: "workflowRepo_CreateWorkflow u a b st nodes edges d = (Inl e, d')"
  shows "d' = d \<or> (\<exists>lo t. d' = abort_tx d lo t \<and> counts_from d t)"
proof (cases "q_CreateWorkflow u a b st d")
  case (Inl e)
  have "counts_from d d" using ok by (simp add: counts_from_def rows_ok_def)
  then show ?thesis using c Inl by (auto simp: workflowRepo_CreateWorkflow_def rolled_back_def split: if_splits)
next
  case (Inr y)
  obtain w d1 where q: "q_CreateWorkflow u a b st d = Inr (w, d1)" using Inr by (cases y) simp
  have "counts_from d d1" using ok new_workflow_ok(8,10-12) [OF ok q] by (simp add: counts_from_def rows_ok_def)
  then have "tx_counts d snd (tx_bind (tx_each (tx_create_node w) nodes (d1, [], [])) (\<lambda>(d2, ids, created).
      tx_bind (tx_each (tx_create_edge w ids) edges d2) (\<lambda>d3. Inr ((w, created, map (\<lambda>e. go_lookup ids (de_target e)) edges), d3))))"
    by (auto intro!: tx_counts_bind [where sel = fst] tx_counts_bind [where sel = id] tx_counts_each counts_create_node counts_others(6))
  then show ?thesis using c q by (auto simp: workflowRepo_CreateWorkflow_def tx_counts_def Let_def split: if_splits sum.splits prod.splits)
qed

section \<open>The invariant of the store\<close>

definition graphs_acyclic :: "server_db \<Rightarrow> bool" where
  "graphs_acyclic d \<longleftrightarrow> (\<forall>w. acyclic (edge_nums ` {e \<in> set (db_edges d). te_workflow e = w}))"

definition tables_inv :: "server_db \<Rightarrow> bool" where
  "tables_inv d \<longleftrightarrow> rows_ok d \<and> edges_within d \<and> graphs_acyclic d"

lemma tables_inv_cong:
  assumes "db_nodes d' = db_nodes d" and "db_ui d' = db_ui d" and "db_edges d' = db_edges d" and "map tw_id (db_workflows d') = map tw_id (db_workflows d)"
    and "db_nextNode d \<le> db_nextNode d'" and "db_nextNode d' \<le> serial_max + 1" and "db_nextWorkflow d \<le> db_nextWorkflow d'" and inv: "tables_inv d"
  shows "tables_inv d'"
proof -
  have "workflow_ids d' = workflow_ids d" unfolding workflow_ids_def using arg_cong [OF assms(4), of set] by simp
  moreover have "node_ids d' = node_ids d" "node_at d' = node_at d" by (simp_all add: node_ids_def node_at_def assms(1))
  ultimately have "rows_ok d'" "edges_within d'" "graphs_acyclic d'" using inv assms(5-7)
    by (auto simp: tables_inv_def rows_ok_def edges_within_def graphs_acyclic_def assms(1-4) intro: less_le_trans)
  then show ?thesis by (simp add: tables_inv_def)
qed

lemma abort_inv: "tables_inv d \<Longrightarrow> counts_from d t \<Longrightarrow> tables_inv (abort_tx d lo t)"
  by (rule tables_inv_cong [of _ d]) (simp_all add: abort_tx_def counts_from_def)

lemma tables_inv_same:
  assumes "db_nodes d' = db_nodes d" and "db_ui d' = db_ui d" and "db_edges d' = db_edges d" and "map tw_id (db_workflows d') = map tw_id (db_workflows d)"
    and "db_nextNode d' = db_nextNode d" and "db_nextWorkflow d' = db_nextWorkflow d" and inv: "tables_inv d"
  shows "tables_inv d'"
proof -
  have "db_nextNode d \<le> serial_max + 1" using inv by (simp add: tables_inv_def rows_ok_def)
  then show ?thesis by (intro tables_inv_cong [OF assms(1-4) _ _ _ inv]) (simp_all add: assms(5,6))
qed

lemma same_graph_inv: "same_graph d d' \<Longrightarrow> tables_inv d \<Longrightarrow> tables_inv d'"
  by (rule tables_inv_same [of _ d]) (simp_all add: same_graph_eqs)

text \<open>Renaming the ends of edges apart keeps a graph without cycles.\<close>

lemma acyclic_renamed:
  assumes acyc: "acyclic (edge_key ` E)" and inj: "inj_on num A" and ends: "\<forall>e\<in>E. de_source e \<in> A \<and> de_target e \<in> A"
  shows "acyclic ((\<lambda>e. (num (de_source e), num (de_target e))) ` E)"
proof (rule acyclic_image)
  have "(\<lambda>(a, b). (the_inv_into A num a, the_inv_into A num b)) ` (\<lambda>e. (num (de_source e), num (de_target e))) ` E = edge_key ` E"
    using ends by (auto simp: image_image edge_key_def the_inv_into_f_f [OF inj] intro!: image_cong)
  then show "acyclic ((\<lambda>(a, b). (the_inv_into A num a, the_inv_into A num b)) ` (\<lambda>e. (num (de_source e), num (de_target e))) ` E)" using acyc by simp
qed

definition env_doc :: "server_env \<Rightarrow> bool" where
  "env_doc ev \<longleftrightarrow> order_doc ev \<and> uuid_doc ev \<and> sorts_graphs (ev_topsort ev)"

lemma checked_acyclic:
  assumes "sorts_graphs (ev_topsort ev)" and "check_graph ev nodes edges = None"
  shows "acyclic (edge_key ` set edges)"
proof -
  have "ValidateWorkflowGraph (ev_topsort ev) (ev_visit ev) (fst (prepForValidate nodes edges)) (snd (prepForValidate nodes edges)) = None"
    using assms(2) by (simp add: check_graph_def split_def)
  from validated(3) [OF assms(1) this] show ?thesis by (simp add: prepForValidate_def image_image edge_key_def)
qed

lemma create_stored_inv:
  assumes inv: "tables_inv d" and sorts: "sorts_graphs (ev_topsort ev)" and chk: "check_graph ev nodes edges = None"
    and c: "workflowRepo_CreateWorkflow u a b st nodes edges d = (Inr (w, cr, ts), d')"
  shows "tables_inv d'"
proof -
  have ok: "rows_ok d" and within: "edges_within d" and acyc: "graphs_acyclic d" using inv unfolding tables_inv_def by blast+
  note ends = checked_edges [OF chk]
  have "acyclic (edge_nums ` {e \<in> set (db_edges d'). te_workflow e = w'})" for w'
  proof (cases "w' = w")
    case True
    have "edge_nums ` create_edge w (create_num (db_nextNode d) nodes) ` set edges =
        (\<lambda>e. (create_num (db_nextNode d) nodes (de_source e), create_num (db_nextNode d) nodes (de_target e))) ` set edges"
      by (simp add: image_image edge_nums_def create_edge_def)
    then show ?thesis unfolding True create_edge_sets(1) [OF ok within c]
      using acyclic_renamed [OF checked_acyclic [OF sorts chk] create_num_inj ends] by simp
  next
    case False
    then show ?thesis using create_edge_sets(2) [OF ok within c] acyc unfolding graphs_acyclic_def by simp
  qed
  then show ?thesis using create_run(1) [OF ok c] create_within [OF ok within c ends] unfolding tables_inv_def graphs_acyclic_def by blast
qed

lemma create_inv:
  assumes inv: "tables_inv d" and doc: "env_doc ev" and c: "WorkflowService_CreateWorkflow ev u a b st nodes edges d = (r, d')"
  shows "tables_inv d'"
  using c
proof (cases rule: create_cases)
  case (Failed e)
  have "rows_ok d" using inv by (simp add: tables_inv_def)
  from create_counts [OF this Failed(2)] show ?thesis using inv abort_inv by auto
next
  case (Stored w cr ts d1)
  have "tables_inv d1" by (rule create_stored_inv [OF inv _ Stored(1,2)]) (use doc in \<open>simp add: env_doc_def\<close>)
  then show ?thesis using same_graph_inv Stored(3) unfolding trigger_change_def by blast
qed (use inv in simp)

subsection \<open>Updates\<close>

lemma scan_node_change: "trigger_change w (un_db s) (un_db (snd (scan_node ev u w ex n s)))"
proof -
  have "config_int32 (fmupd ''workflow_id'' (GInt32 w) c) ''workflow_id'' = Some w" for c by (simp add: config_int32_def)
  note registry_Update_change [OF this]
  then show ?thesis by (auto simp: scan_node_def Let_def split: option.splits)
qed

lemma scan_nodes_change: "trigger_change w (un_db s) (un_db (snd (scan_nodes ev u w ex ns s)))"
proof (induction ns arbitrary: s)
  case (Cons n ns)
  obtain r s1 where r: "scan_node ev u w ex n s = (r, s1)" by fastforce
  then have "trigger_change w (un_db s) (un_db s1)" using scan_node_change by (metis snd_conv)
  then show ?case using r trigger_change_trans [OF _ Cons.IH [of s1]] by (simp split: option.split)
qed simp

text \<open>An update changes triggers, and then nothing more or the graph by a transaction.\<close>

lemma update_cases:
  assumes upd: "WorkflowService_UpdateWorkflow ev u w name description nodes edges d = (r, d')"
  obtains d0 where "trigger_change w d d0" "d' = d0 \<or> (\<exists>dl ex. workflowRepo_UpdateWorkflow w dl ex d0 = (r, d'))"
proof -
  note def = upd [unfolded WorkflowService_UpdateWorkflow_def]
  show ?thesis
  proof (cases "check_graph ev nodes edges = None \<and> validate_nodes ev nodes = None \<and> (\<exists>g. workflowRepo_RenderWorkflowGraph ev w d = Inr g)")
    case False
    then have "d' = d" using def by (auto split: option.splits sum.splits)
    then show ?thesis using that [of d] by simp
  next
    case True
    then obtain g where g: "workflowRepo_RenderWorkflowGraph ev w d = Inr g" by blast
    let ?dl = "\<lparr>dl_name = name, dl_description = description, dl_updateMetadata = (gd_name g \<noteq> name \<or> gd_description g \<noteq> description),
       dl_create = [], dl_update = [], dl_updateUI = [], dl_delete = [], dl_addEdges = [], dl_deleteEdges = []\<rparr>"
    obtain r0 s where s: "scan_nodes ev u w (existing_map (gd_nodes g)) nodes \<lparr>un_delta = ?dl, un_ids = [], un_db = d\<rparr> = (r0, s)" by fastforce
    have "trigger_change w d (un_db s)" using scan_nodes_change [of w "\<lparr>un_delta = ?dl, un_ids = [], un_db = d\<rparr>"] s by (metis snd_conv update_scan.select_convs(3))
    moreover have "d' = un_db s \<or> (\<exists>dl. workflowRepo_UpdateWorkflow w dl (gd_nodes g) (un_db s) = (r, d'))"
      using def True g s by (auto simp: Let_def split: option.splits if_splits)
    ultimately show ?thesis using that by blast
  qed
qed

lemma update_counts:
  assumes ok: "rows_ok d" and upd: "workflowRepo_UpdateWorkflow w dl ex d = (r, d')"
  shows "(\<exists>e. r = Some e \<and> (\<exists>lo t. d' = abort_tx d lo t \<and> counts_from d t)) \<or> (r = None \<and> counts_from d d')"
proof -
  have "counts_from d d" using ok by (simp add: counts_from_def rows_ok_def)
  from counts_update [OF this, of w dl ex] show ?thesis
    using upd by (auto simp: workflowRepo_UpdateWorkflow_def tx_counts_def split: sum.splits)
qed

text \<open>A failed update leaves the tables of the graph as they were; triggers may have been updated, and numbers used up.\<close>

lemma update_fails:
  assumes ok: "rows_ok d" and upd: "WorkflowService_UpdateWorkflow ev u w name description nodes edges d = (Some e, d')"
  shows "\<exists>d0. trigger_change w d d0 \<and> (d' = d0 \<or> (\<exists>lo t. d' = abort_tx d0 lo t \<and> counts_from d0 t))"
proof -
  obtain d0 where d0: "trigger_change w d d0" "d' = d0 \<or> (\<exists>dl ex. workflowRepo_UpdateWorkflow w dl ex d0 = (Some e, d'))" using update_cases [OF upd] .
  then have "rows_ok d0" using ok same_graph_eqs(1) unfolding trigger_change_def by blast
  then show ?thesis using d0 update_counts by blast
qed

lemma update_inv:
  assumes inv: "tables_inv d" and doc: "env_doc ev" and upd: "WorkflowService_UpdateWorkflow ev u w name description nodes edges d = (r, d')"
  shows "tables_inv d'"
proof (cases r)
  case None
  have ok: "rows_ok d" and within: "edges_within d" and acyc: "graphs_acyclic d" using inv unfolding tables_inv_def by blast+
  have ev: "order_doc ev" "uuid_doc ev" "sorts_graphs (ev_topsort ev)" using doc unfolding env_doc_def by blast+
  obtain num where S: "check_graph ev nodes edges = None" "rows_ok d'" "edges_within d'" "inj_on num (dn_id ` set nodes)"
    "edge_nums ` {e \<in> set (db_edges d'). te_workflow e = w} = (\<lambda>e. (num (de_source e), num (de_target e))) ` set edges"
    "{e \<in> set (db_edges d'). te_workflow e \<noteq> w} = {e \<in> set (db_edges d). te_workflow e \<noteq> w}"
    by (rule update_others [OF ok within ev(1,2) upd [unfolded None]]) blast
  have "acyclic (edge_nums ` {e \<in> set (db_edges d'). te_workflow e = w'})" for w'
  proof (cases "w' = w")
    case True
    show ?thesis unfolding True S(5) by (rule acyclic_renamed [OF checked_acyclic [OF ev(3) S(1)] S(4) checked_edges [OF S(1)]])
  next
    case False
    have "{e \<in> set (db_edges d'). te_workflow e = w'} = {e \<in> set (db_edges d). te_workflow e = w'}" using S(6) False by blast
    then show ?thesis using acyc unfolding graphs_acyclic_def by simp
  qed
  then show ?thesis using S(2,3) unfolding tables_inv_def graphs_acyclic_def by blast
next
  case (Some e)
  have "rows_ok d" using inv by (simp add: tables_inv_def)
  from update_fails [OF this upd [unfolded Some]] show ?thesis using inv abort_inv same_graph_inv unfolding trigger_change_def by blast
qed

lemma archive_tables:
  "\<exists>ws ss. snd (WorkflowService_ArchiveWorkflow w d) = d\<lparr>db_workflows := ws, db_schedules := ss\<rparr> \<and> map tw_id ws = map tw_id (db_workflows d) \<and>
     (\<forall>r. tw_id r \<noteq> w \<longrightarrow> (r \<in> set ws \<longleftrightarrow> r \<in> set (db_workflows d))) \<and> filter (\<lambda>s. ts_workflow s \<noteq> w) ss = filter (\<lambda>s. ts_workflow s \<noteq> w) (db_schedules d)"
proof -
  let ?f = "\<lambda>(n :: node_row) d. if tn_category n = ''schedule'' then q_DeleteWorkflowScheduleByWorkflowID w d else d"
  have sched: "\<exists>ss. fold ?f ns t = t\<lparr>db_schedules := ss\<rparr> \<and> filter (\<lambda>s. ts_workflow s \<noteq> w) ss = filter (\<lambda>s. ts_workflow s \<noteq> w) (db_schedules t)" for ns t
  proof (induction ns arbitrary: t)
    case (Cons n ns)
    obtain ss where "fold ?f ns (?f n t) = (?f n t)\<lparr>db_schedules := ss\<rparr>" "filter (\<lambda>s. ts_workflow s \<noteq> w) ss = filter (\<lambda>s. ts_workflow s \<noteq> w) (db_schedules (?f n t))"
      using Cons.IH by blast
    then show ?case by (intro exI [of _ ss]) (auto simp: q_DeleteWorkflowScheduleByWorkflowID_def split: if_splits)
  next
    case Nil
    show ?case by (intro exI [of _ "db_schedules t"]) simp
  qed
  define t where "t = q_ArchiveWorkflow w ''archived'' d"
  have "tw_id \<circ> (\<lambda>r. if tw_id r = w then r\<lparr>tw_status := ''archived''\<rparr> else r) = tw_id" by (auto simp: fun_eq_iff)
  then have t: "t = d\<lparr>db_workflows := db_workflows t\<rparr>" "map tw_id (db_workflows t) = map tw_id (db_workflows d)"
    "\<forall>r. tw_id r \<noteq> w \<longrightarrow> (r \<in> set (db_workflows t) \<longleftrightarrow> r \<in> set (db_workflows d))" "db_schedules t = db_schedules d"
    by (auto simp: t_def q_ArchiveWorkflow_def image_iff split: if_splits)
  consider "snd (WorkflowService_ArchiveWorkflow w d) = d" | "snd (WorkflowService_ArchiveWorkflow w d) = t"
    | ns where "snd (WorkflowService_ArchiveWorkflow w d) = fold ?f ns t"
  proof -
    assume C: "snd (WorkflowService_ArchiveWorkflow w d) = d \<Longrightarrow> thesis" "snd (WorkflowService_ArchiveWorkflow w d) = t \<Longrightarrow> thesis"
      "\<And>ns. snd (WorkflowService_ArchiveWorkflow w d) = fold ?f ns t \<Longrightarrow> thesis"
    show thesis
    proof (cases "\<exists>r. q_GetWorkflow w d = Inr r \<and> tw_status r \<noteq> ''archived''")
      case True
      show thesis
      proof (cases "workflowRepo_GetWorkflowGraph w t")
        case (Inl e)
        then show thesis using True C(2) by (auto simp: WorkflowService_ArchiveWorkflow_def t_def [symmetric])
      next
        case (Inr y)
        then show thesis using True C(3) [of "root_nodes tn_id (fst y) (map te_target (snd y))"]
          by (cases y) (auto simp: WorkflowService_ArchiveWorkflow_def t_def [symmetric])
      qed
    qed (use C(1) in \<open>auto simp: WorkflowService_ArchiveWorkflow_def split: sum.splits\<close>)
  qed
  then show ?thesis
  proof cases
    case 1
    then show ?thesis by (intro exI [of _ "db_workflows d"] exI [of _ "db_schedules d"]) simp
  next
    case 2
    then show ?thesis using t by (intro exI [of _ "db_workflows t"] exI [of _ "db_schedules d"]) simp
  next
    case (3 ns)
    obtain ss where ss: "fold ?f ns t = t\<lparr>db_schedules := ss\<rparr>" "filter (\<lambda>s. ts_workflow s \<noteq> w) ss = filter (\<lambda>s. ts_workflow s \<noteq> w) (db_schedules t)" using sched by blast
    have "t\<lparr>db_schedules := ss\<rparr> = d\<lparr>db_workflows := db_workflows t, db_schedules := ss\<rparr>" using t(1) by (metis server_db.update_convs(5))
    then show ?thesis using ss t(2-4) 3 by (intro exI [of _ "db_workflows t"] exI [of _ ss]) simp
  qed
qed

lemma archive_inv:
  assumes "tables_inv d"
  shows "tables_inv (snd (WorkflowService_ArchiveWorkflow w d))"
proof -
  obtain ws ss where a: "snd (WorkflowService_ArchiveWorkflow w d) = d\<lparr>db_workflows := ws, db_schedules := ss\<rparr>" "map tw_id ws = map tw_id (db_workflows d)"
    using archive_tables [of w d] by (elim exE conjE) (rule that)
  show ?thesis unfolding a(1) by (rule tables_inv_same [of _ d]) (simp_all add: a(2) assms)
qed

subsection \<open>The server\<close>

lemma poll_step_graph: "same_graph (ps_db s) (ps_db (poll_step cb e s))"
proof (cases e)
  case (Settle i clk ok)
  show ?thesis unfolding Settle
    by (auto simp: settle_schedule_def scheduleRepo_UpdateWorkflowSchedule_def q_UpdateWorkflowSchedule_def db_result_def Let_def trigger_tables
        split: option.splits prod.splits)
qed (auto simp: q_GetDueSchedulesLocked_def UpdateWorkflowSchedule_def scheduleRepo_UpdateWorkflowSchedule_def q_UpdateWorkflowSchedule_def
    ScheduleWorkflow_def scheduleRepo_Create_def q_CreateWorkflowSchedule_def q_DeleteWorkflowScheduleByWorkflowID_def db_result_def Let_def trigger_tables)

text \<open>The server from its start with empty tables: requests of all users, the events of the scheduler, and runs.\<close>

inductive server_reach :: "poll_state \<Rightarrow> bool" where
  start: "server_reach (poll_init empty_db now)"
| request: "server_reach s \<Longrightarrow> env_doc ev \<Longrightarrow> handle_request ev user rq (ps_db s) = (a, d) \<Longrightarrow> server_reach (s\<lparr>ps_db := d\<rparr>)"
| schedule: "server_reach s \<Longrightarrow> server_reach (poll_step cb e s)"
| run: "server_reach s \<Longrightarrow> server_reach (s\<lparr>ps_db := run_rows r w (ps_db s)\<rparr>)"

lemma handle_inv:
  assumes inv: "tables_inv d" and doc: "env_doc ev" and h: "handle_request ev user rq d = (a, d')"
  shows "tables_inv d'"
proof (cases rq)
  case (CreateRequest body)
  show ?thesis
  proof (cases "\<exists>u name description status nodes edges r. WorkflowService_CreateWorkflow ev u name description status nodes edges d = (r, d')")
    case True
    then show ?thesis using create_inv [OF inv doc] by blast
  next
    case False
    then have "d' = d" using h CreateRequest by (auto simp: ctl_CreateWorkflow_def split: option.splits prod.splits sum.splits)
    then show ?thesis using inv by simp
  qed
next
  case (UpdateRequest i body)
  show ?thesis
  proof (cases "\<exists>u w name description nodes edges r. WorkflowService_UpdateWorkflow ev u w name description nodes edges d = (r, d')")
    case True
    then show ?thesis using update_inv [OF inv doc] by blast
  next
    case False
    then have "d' = d" using h UpdateRequest by (auto simp: ctl_UpdateWorkflow_def split: option.splits prod.splits sum.splits)
    then show ?thesis using inv by simp
  qed
next
  case (ArchiveRequest i)
  show ?thesis
  proof (cases "\<exists>w. d' = snd (WorkflowService_ArchiveWorkflow w d)")
    case True
    then show ?thesis using archive_inv [OF inv] by blast
  next
    case False
    then have "d' = d" using h ArchiveRequest by (auto simp: ctl_ArchiveWorkflow_def split: option.splits prod.splits sum.splits) (metis snd_conv)+
    then show ?thesis using inv by simp
  qed
qed (use h inv in auto)

lemma server_tables_inv: "server_reach s \<Longrightarrow> tables_inv (ps_db s)"
proof (induction rule: server_reach.induct)
  case (start now)
  show ?case
    by (simp add: poll_init_def empty_db_def tables_inv_def rows_ok_def edges_within_def graphs_acyclic_def node_ids_def workflow_ids_def serial_max_def acyclic_def)
next
  case (request s ev rq user a d)
  then show ?case using handle_inv by simp
next
  case (schedule s cb e)
  then show ?case using same_graph_inv [OF poll_step_graph] by blast
next
  case (run s r w)
  then show ?case by (simp add: run_rows_def) (rule tables_inv_same [of _ "ps_db s"], simp_all)
qed

section \<open>Workflows of other users\<close>

text \<open>The row of a workflow, its nodes with their positions, its edges and its triggers are the same.\<close>

definition same_workflow :: "int \<Rightarrow> server_db \<Rightarrow> server_db \<Rightarrow> bool" where
  "same_workflow w d d' \<longleftrightarrow>
     {r \<in> set (db_workflows d'). tw_id r = w} = {r \<in> set (db_workflows d). tw_id r = w} \<and>
     (\<forall>i n. tn_workflow n = w \<longrightarrow> (node_at d' i = Some n \<longleftrightarrow> node_at d i = Some n)) \<and>
     (\<forall>i n. node_at d i = Some n \<and> tn_workflow n = w \<longrightarrow> pos_at d' i = pos_at d i) \<and>
     {e \<in> set (db_edges d'). te_workflow e = w} = {e \<in> set (db_edges d). te_workflow e = w} \<and> same_triggers w d d'"

lemma same_workflow_refl [simp]: "same_workflow w d d"
  by (simp add: same_workflow_def)

lemma same_workflow_trans:
  assumes "same_workflow w d d'" and "same_workflow w d' d''"
  shows "same_workflow w d d''"
proof -
  have n: "tn_workflow n = w \<Longrightarrow> node_at d' i = Some n \<longleftrightarrow> node_at d i = Some n" "tn_workflow n = w \<Longrightarrow> node_at d'' i = Some n \<longleftrightarrow> node_at d' i = Some n"
    and p: "node_at d i = Some n \<Longrightarrow> tn_workflow n = w \<Longrightarrow> pos_at d' i = pos_at d i" "node_at d' i = Some n \<Longrightarrow> tn_workflow n = w \<Longrightarrow> pos_at d'' i = pos_at d' i" for i n
    using assms unfolding same_workflow_def by blast+
  have "pos_at d'' i = pos_at d i" if "node_at d i = Some n" "tn_workflow n = w" for i n
    using p(1) [OF that] p(2) [of i n] n(1) [OF that(2)] that by simp
  then show ?thesis using assms n by (simp add: same_workflow_def same_triggers_def)
qed

lemma change_same_workflow: "trigger_change w d d' \<Longrightarrow> w' \<noteq> w \<Longrightarrow> same_workflow w' d d'"
  using same_graph_eqs(2-4,6) [of d d'] by (simp add: trigger_change_def same_workflow_def)

lemma abort_same_workflow [simp]: "same_workflow w d (abort_tx d lo t)"
  by (simp add: same_workflow_def same_triggers_def abort_tx_def node_at_def pos_at_def)

lemma create_same_workflow:
  assumes inv: "tables_inv d" and c: "WorkflowService_CreateWorkflow ev u a b st nodes edges d = (r, d')" and w: "w \<in> workflow_ids d"
  shows "same_workflow w d d'"
  using c
proof (cases rule: create_cases)
  case (Failed e)
  have "rows_ok d" using inv by (simp add: tables_inv_def)
  from create_counts [OF this Failed(2)] show ?thesis by auto
next
  case (Stored w0 cr ts d1)
  have ok: "rows_ok d" and within: "edges_within d" using inv unfolding tables_inv_def by blast+
  note run = create_run [OF ok Stored(2)] and rows = create_node_rows [OF ok Stored(2)]
  have ne: "w \<noteq> w0" using w run(2) by blast
  have "node_at d1 i = Some n \<longleftrightarrow> node_at d i = Some n" if n: "tn_workflow n = w" for i n
  proof (cases "i \<in> node_ids d")
    case False
    have "node_at d i = None" using False dom_node_at by blast
    moreover have "node_at d1 i \<noteq> Some n"
    proof
      assume "node_at d1 i = Some n"
      then have "i \<in> ids_of w d1" using n ids_of_node_at [OF run(1)] by blast
      moreover have "i \<in> fst ` set (numbered (db_nextNode d) nodes)"
        using \<open>node_at d1 i = Some n\<close> \<open>node_at d i = None\<close> unfolding run(5) by (force dest: map_of_SomeD)
      then have "i \<in> ids_of w0 d1" using rows(3) by blast
      ultimately show False using ids_of_disjoint [OF run(1)] ne by blast
    qed
    ultimately show ?thesis by simp
  qed (use rows(2) in simp)
  moreover have "pos_at d1 i = pos_at d i" if "node_at d i = Some n" for i n
  proof -
    have "i \<in> node_ids d" using that dom_node_at by blast
    then have "i < db_nextNode d" using ok unfolding rows_ok_def by blast
    then show ?thesis using numbered_below [of i "db_nextNode d" "\<lambda>i n. the (dn_position n)" nodes] by (simp add: run(6) map_add_def)
  qed
  moreover have "{r \<in> set (db_workflows d1). tw_id r = w} = {r \<in> set (db_workflows d). tw_id r = w}" using ne by (auto simp: run(8))
  moreover have "same_triggers w d d1"
  proof -
    obtain t0 t1 ids where D: "q_CreateWorkflow u a b st d = Inr (w0, t0)" "tx_each (tx_create_node w0) nodes (t0, [], []) = Inr (t1, ids, cr)"
      "tx_each (tx_create_edge w0 ids) edges t1 = Inr d1"
      using Stored(2) by (auto simp: workflowRepo_CreateWorkflow_def Let_def rolled_back_def tx_bind_def split: if_splits sum.splits prod.splits)
    note n = new_workflow_ok [OF ok D(1)]
    have t0: "counts_from d t0" using ok n(8,10-12) by (simp add: counts_from_def rows_ok_def)
    have "tx_counts d fst (tx_each (tx_create_node w0) nodes (t0, [], []))" by (rule tx_counts_each) (use t0 counts_create_node in auto)
    then have "counts_from d t1" by (simp add: D(2))
    moreover have "tx_counts d id (tx_each (tx_create_edge w0 ids) edges t1)" by (rule tx_counts_each) (use calculation counts_others(6) in auto)
    then have "counts_from d d1" by (simp add: D(3))
    then show ?thesis by (simp add: counts_from_def same_triggers_def)
  qed
  ultimately have "same_workflow w d d1" unfolding same_workflow_def using create_edge_sets(2) [OF ok within Stored(2) ne] by blast
  then show ?thesis using same_workflow_trans [OF _ change_same_workflow [OF Stored(3) ne]] by blast
qed simp

lemma update_same_workflow:
  assumes inv: "tables_inv d" and doc: "env_doc ev"
    and upd: "WorkflowService_UpdateWorkflow ev u w name description nodes edges d = (r, d')" and ne: "w' \<noteq> w"
  shows "same_workflow w' d d'"
proof (cases r)
  case None
  have ok: "rows_ok d" and within: "edges_within d" using inv unfolding tables_inv_def by blast+
  have ev: "order_doc ev" "uuid_doc ev" using doc unfolding env_doc_def by blast+
  have S: "keeps_others w d d'" "{e \<in> set (db_edges d'). te_workflow e \<noteq> w} = {e \<in> set (db_edges d). te_workflow e \<noteq> w}"
    "\<forall>r. tw_id r \<noteq> w \<longrightarrow> (r \<in> set (db_workflows d') \<longleftrightarrow> r \<in> set (db_workflows d))"
    by (rule update_others [OF ok within ev upd [unfolded None]], assumption)+
  obtain d0 where d0: "trigger_change w d d0" "d' = d0 \<or> (\<exists>dl ex. workflowRepo_UpdateWorkflow w dl ex d0 = (None, d'))" using update_cases [OF upd [unfolded None]] .
  have "rows_ok d0" using ok d0(1) same_graph_eqs(1) unfolding trigger_change_def by blast
  then have "same_triggers w' d0 d'" using d0(2) update_counts by (fastforce simp: counts_from_def same_triggers_def)
  then have "same_triggers w' d d'" using d0(1) ne by (simp add: trigger_change_def same_triggers_def)
  moreover have "{e \<in> set (db_edges d'). te_workflow e = w'} = {e \<in> set (db_edges d). te_workflow e = w'}" using S(2) ne by blast
  moreover have "{r \<in> set (db_workflows d'). tw_id r = w'} = {r \<in> set (db_workflows d). tw_id r = w'}" using S(3) ne by blast
  ultimately show ?thesis using S(1) ne unfolding same_workflow_def keeps_others_def by simp
next
  case (Some e)
  have "rows_ok d" using inv by (simp add: tables_inv_def)
  then obtain d0 where "trigger_change w d d0" "d' = d0 \<or> (\<exists>lo t. d' = abort_tx d0 lo t)" using update_fails [OF _ upd [unfolded Some]] by blast
  then show ?thesis using same_workflow_trans [OF change_same_workflow [OF _ ne]] by auto
qed

lemma archive_same_workflow:
  assumes "w' \<noteq> w"
  shows "same_workflow w' d (snd (WorkflowService_ArchiveWorkflow w d))"
proof -
  obtain ws ss where a: "snd (WorkflowService_ArchiveWorkflow w d) = d\<lparr>db_workflows := ws, db_schedules := ss\<rparr>"
    "\<forall>r. tw_id r \<noteq> w \<longrightarrow> (r \<in> set ws \<longleftrightarrow> r \<in> set (db_workflows d))" "filter (\<lambda>s. ts_workflow s \<noteq> w) ss = filter (\<lambda>s. ts_workflow s \<noteq> w) (db_schedules d)"
    using archive_tables [of w d] by (elim exE conjE) (rule that)
  have sub: "filter (\<lambda>s. ts_workflow s = w') xs = filter (\<lambda>s. ts_workflow s = w') (filter (\<lambda>s. ts_workflow s \<noteq> w) xs)" for xs :: "schedule_row list"
    unfolding filter_filter by (rule filter_cong [OF refl]) (use assms in auto)
  have "filter (\<lambda>s. ts_workflow s = w') ss = filter (\<lambda>s. ts_workflow s = w') (db_schedules d)" by (subst (1 2) sub) (simp only: a(3))
  moreover have "{r \<in> set ws. tw_id r = w'} = {r \<in> set (db_workflows d). tw_id r = w'}" using a(2) assms by blast
  ultimately show ?thesis unfolding a(1) by (simp add: same_workflow_def same_triggers_def node_at_def pos_at_def)
qed

end
