(* ===== verification/Server_Laws.thy ===== *)
theory Server_Laws
  imports Store_Safety
begin

text \<open>
  What the server for workflows promises: the invariant of its tables over all sequences of requests, polls and runs; workflows that are created and updated are
  read back as they were submitted; a failed update changes no workflow; and by the requests for workflows nobody reads or changes the workflow of somebody else.
\<close>

section \<open>A small server\<close>

definition demo_server_env :: server_env where
  "demo_server_env = \<lparr>ev_carbon = plain_carbon, ev_now = 0, ev_token = (\<lambda>c u. None), ev_uuid = (\<lambda>s. length s = 36), ev_nodeOrder = (\<lambda>is. is), ev_edgeOrder = (\<lambda>es. es),
     ev_topsort = in_order, ev_visit = neighbours\<rparr>"

definition demo_dto :: "string \<Rightarrow> real \<Rightarrow> node_dto" where
  "demo_dto i x = \<lparr>dn_id = i, dn_category = ''action'', dn_type = ''send_email'', dn_config = Some fmempty, dn_position = Some (x, 0)\<rparr>"

definition demo_link :: "string \<Rightarrow> string \<Rightarrow> edge_dto" where
  "demo_link a b = \<lparr>de_id = [], de_source = a, de_target = b\<rparr>"

definition demo_uuid :: string where
  "demo_uuid = ''0f8b1c1e-7c1d-4b52-9b53-3f2f0c7f6a11''"

definition demo_tables :: server_db where
  "demo_tables = empty_db\<lparr>
     db_workflows := [\<lparr>tw_id = 1, tw_user = ''u'', tw_name = ''mail'', tw_description = ''two mails'', tw_status = ''draft''\<rparr>],
     db_nodes := [\<lparr>tn_id = 1, tn_workflow = 1, tn_category = ''action'', tn_type = ''send_email'', tn_config = fmempty\<rparr>,
       \<lparr>tn_id = 2, tn_workflow = 1, tn_category = ''action'', tn_type = ''send_email'', tn_config = fmempty\<rparr>],
     db_ui := [\<lparr>tu_id = 1, tu_position = (0, 0)\<rparr>, \<lparr>tu_id = 2, tu_position = (100, 0)\<rparr>],
     db_edges := [\<lparr>te_workflow = 1, te_source = 1, te_target = 2\<rparr>], db_nextWorkflow := 2, db_nextNode := 3\<rparr>"

lemma demo_server_env_doc: "env_doc demo_server_env"
  by (auto simp: env_doc_def order_doc_def uuid_doc_def demo_server_env_def in_order_sorts)

text \<open>A workflow of two nodes is created, and updated: the first node moves, the second is deleted, and a new one is added.\<close>

definition demo_nodes :: "node_dto list" where
  "demo_nodes = [demo_dto ''a'' 0, demo_dto ''b'' 100]"

definition demo_submission :: "node_dto list" where
  "demo_submission = [demo_dto ''1'' 50, demo_dto demo_uuid 200]"

lemma demo_checks:
  "check_graph demo_server_env demo_nodes [demo_link ''a'' ''b''] = None" "check_graph demo_server_env demo_submission [demo_link ''1'' demo_uuid] = None"
  "check_graph demo_server_env [demo_dto ''7'' 0] [] = None"
  by code_simp+

lemma demo_valid:
  "validate_nodes demo_server_env demo_nodes = None" "validate_nodes demo_server_env demo_submission = None" "validate_nodes demo_server_env [demo_dto ''7'' 0] = None"
  by (simp_all add: validateNode_def demo_dto_def demo_nodes_def demo_submission_def)

lemma demo_created:
  "WorkflowService_CreateWorkflow demo_server_env ''u'' ''mail'' ''two mails'' ''draft'' demo_nodes [demo_link ''a'' ''b''] empty_db = (Inr 1, demo_tables)"
  by (simp add: WorkflowService_CreateWorkflow_def demo_checks demo_valid)
    (simp add: demo_nodes_def workflowRepo_CreateWorkflow_def q_CreateWorkflow_def tx_create_node_def tx_insert_node_def q_CreateWorkflowNode_def
      q_CreateWorkflowNodeUi_def tx_create_edge_def q_CreateWorkflowEdge_def tx_bind_def go_lookup_def root_nodes_def json_config_def demo_dto_def demo_link_def
      demo_tables_def empty_db_def serial_max_def workflow_ids_def node_ids_def Let_def)

lemma demo_texts:
  "show_int 1 = ''1''" "show_int 2 = ''2''" "Atoi ''1'' = Some 1" "Atoi ''2'' = Some 2" "int32 1 = 1" "int32 2 = 2" "length demo_uuid = 36"
  "demo_uuid \<noteq> ''1''" "demo_uuid \<noteq> ''2''" "demo_uuid \<noteq> ''7''"
  by code_simp+

definition demo_graph :: graph_dto where
  "demo_graph = \<lparr>gd_id = 1, gd_name = ''mail'', gd_description = ''two mails'', gd_nodes = [demo_dto ''1'' 0, demo_dto ''2'' 100],
     gd_edges = [\<lparr>de_id = ''1-2'', de_source = ''1'', de_target = ''2''\<rparr>]\<rparr>"

lemma demo_render: "workflowRepo_RenderWorkflowGraph demo_server_env 1 demo_tables = Inr demo_graph"
  by (simp add: workflowRepo_RenderWorkflowGraph_def q_RenderWorkflowGraph_def outgoing_def demo_tables_def empty_db_def demo_graph_def demo_server_env_def demo_dto_def
      render_row_def rendered_node_def rendered_edge_def demo_texts Let_def)

lemma demo_updated:
  "fst (WorkflowService_UpdateWorkflow demo_server_env ''u'' 1 ''mail'' ''moved'' demo_submission [demo_link ''1'' demo_uuid] demo_tables) = None"
  by (simp add: WorkflowService_UpdateWorkflow_def demo_checks demo_render demo_valid)
    (simp add: demo_submission_def scan_node_def existing_map_def demo_server_env_def demo_graph_def demo_dto_def demo_link_def demo_texts edges_to_add_def
      edges_to_delete_def edge_key_def workflowRepo_UpdateWorkflow_def tx_update_def tx_delete_node_def q_DeleteWorkflowNode_def q_UpdateWorkflow_def delta_empty_def
      tx_add_node_def tx_insert_node_def q_CreateWorkflowNode_def q_CreateWorkflowNodeUi_def tx_move_node_def q_UpdateWorkflowNodeUI_def tx_delete_edge_def
      q_DeleteWorkflowEdge_def tx_add_edge_def q_CreateWorkflowEdge_def tx_bind_def go_lookup_def json_config_def demo_tables_def empty_db_def serial_max_def
      workflow_ids_def node_ids_def Let_def)

lemma demo_refused:
  "WorkflowService_UpdateWorkflow demo_server_env ''u'' 1 ''mail'' ''moved'' [demo_dto ''7'' 0] [] demo_tables =
     (Some (Msg ''node ID is not present in the existing workflow''), demo_tables)"
  by (simp add: WorkflowService_UpdateWorkflow_def demo_checks demo_render demo_valid del: validate_nodes.simps)
    (simp add: scan_node_def existing_map_def demo_server_env_def demo_graph_def demo_dto_def)

section \<open>The tables\<close>

text \<open>Claim C3: however requests of all users, failing ones included, polls of the scheduler and runs follow each other, the tables stay consistent: identifiers are unique
  and below their sequences, every node has a position and belongs to a workflow that exists, every edge joins two nodes of its own workflow, and no workflow has a cycle.\<close>

theorem tables_consistent:
  assumes "server_reach s"
  shows "tables_inv (ps_db s)"
  using assms by (rule server_tables_inv)

definition demo_server :: poll_state where
  "demo_server = poll_init demo_tables 0"

lemma demo_server_reach: "server_reach demo_server"
proof -
  let ?q = "\<lparr>cr_name = ''mail'', cr_description = ''two mails'', cr_status = ''draft'', cr_nodes = Some demo_nodes, cr_edges = Some [demo_link ''a'' ''b'']\<rparr>"
  have h: "handle_request demo_server_env (Some ''u'') (CreateRequest (Some ?q)) (ps_db (poll_init empty_db 0)) = ((201, Identifier 1), demo_tables)"
  proof -
    have "ps_db (poll_init empty_db 0) = empty_db" by (simp add: poll_init_def empty_db_def)
    then show ?thesis by (simp add: ctl_CreateWorkflow_def bind_create_def demo_created)
  qed
  have "server_reach ((poll_init empty_db 0)\<lparr>ps_db := demo_tables\<rparr>)"
    by (rule server_reach.request [OF server_reach.start demo_server_env_doc h])
  moreover have "(poll_init empty_db 0)\<lparr>ps_db := demo_tables\<rparr> = demo_server" by (simp add: demo_server_def poll_init_def demo_tables_def empty_db_def)
  ultimately show ?thesis by simp
qed

lemma demo_server_db: "ps_db demo_server = demo_tables"
  by (simp add: demo_server_def poll_init_def demo_tables_def empty_db_def)

lemma demo_inv: "tables_inv demo_tables"
  using server_tables_inv [OF demo_server_reach] by (simp add: demo_server_db)

theorem tables_consistent_witness:
  "server_reach demo_server \<and> tables_inv (ps_db demo_server) \<and> db_edges (ps_db demo_server) \<noteq> []"
proof -
  have "db_edges (ps_db demo_server) \<noteq> []" unfolding demo_server_db by (simp add: demo_tables_def)
  then show ?thesis using demo_server_reach tables_consistent [OF demo_server_reach] by blast
qed

section \<open>What is submitted is what is read\<close>

text \<open>Claim C13: after a workflow was created, rendering it gives the submitted name, description, nodes and edges, with the numbers of the rows in place of
  the submitted identifiers.\<close>

theorem create_then_render:
  assumes inv: "tables_inv d" and ord: "order_doc ev" and dis: "distinct (map dn_id nodes)"
    and c: "WorkflowService_CreateWorkflow ev userID name description status nodes edges d = (Inr w, d')"
  shows "\<exists>g f. workflowRepo_RenderWorkflowGraph ev w d' = Inr g \<and> gd_name g = name \<and> gd_description g = description \<and> inj_on f (dn_id ` set nodes) \<and>
    mset (gd_nodes g) = mset (map (read_back f (\<lambda>n. json_config (the (dn_config n)))) nodes) \<and>
    edge_key ` set (gd_edges g) = (\<lambda>e. (f (de_source e), f (de_target e))) ` set edges"
  using c
proof (cases rule: create_cases)
  case (Stored w' cr ts d1)
  have w: "w' = w" using Stored(4) by auto
  have ok: "rows_ok d" and within: "edges_within d" using inv unfolding tables_inv_def by blast+
  note r = create_run [OF ok Stored(2)] and h = create_holds [OF ok within Stored(2) dis]
  have sg: "same_graph d1 d'" using Stored(3) unfolding trigger_change_def by blast
  let ?num = "create_num (db_nextNode d) nodes"
  have h': "holds w nodes edges ?num (\<lambda>n. json_config (the (dn_config n))) d'"
    using h same_graph_eqs(2-5) [OF sg] unfolding w holds_def ids_of_def nodes_of_def by simp
  have ok': "rows_ok d'" "edges_within d'" using r(1) create_within [OF ok within Stored(2) checked_edges [OF Stored(1)]] same_graph_eqs(1,9) [OF sg] by simp_all
  let ?r = "\<lparr>tw_id = w, tw_user = userID, tw_name = name, tw_description = description, tw_status = status\<rparr>"
  have row: "?r \<in> set (db_workflows d')" "tw_id ?r = w" using r(8) same_graph_eqs(6) [OF sg] w by simp_all
  obtain g where "workflowRepo_RenderWorkflowGraph ev w d' = Inr g" "gd_name g = tw_name ?r" "gd_description g = tw_description ?r"
    "mset (gd_nodes g) = mset (map (read_back (\<lambda>x. show_int (?num x)) (\<lambda>n. json_config (the (dn_config n)))) nodes)"
    "edge_key ` set (gd_edges g) = (\<lambda>e. (show_int (?num (de_source e)), show_int (?num (de_target e)))) ` set edges"
    by (rule held_render [OF ok' ord h' dis r(3) row])
  moreover have "inj_on (\<lambda>x. show_int (?num x)) (dn_id ` set nodes)" using create_num_inj [of "db_nextNode d" nodes] unfolding inj_on_def by simp
  ultimately show ?thesis by (intro exI [of _ g] exI [of _ "\<lambda>x. show_int (?num x)"]) simp
qed simp_all

theorem create_then_render_witness:
  "\<exists>g f. workflowRepo_RenderWorkflowGraph demo_server_env 1 demo_tables = Inr g \<and> gd_name g = ''mail'' \<and> gd_description g = ''two mails'' \<and>
    inj_on f (dn_id ` set demo_nodes) \<and> mset (gd_nodes g) = mset (map (read_back f (\<lambda>n. json_config (the (dn_config n)))) demo_nodes) \<and>
    edge_key ` set (gd_edges g) = (\<lambda>e. (f (de_source e), f (de_target e))) ` set [demo_link ''a'' ''b'']"
proof (rule create_then_render [OF _ _ _ demo_created])
  show "tables_inv empty_db" using server_tables_inv [OF server_reach.start [of 0]] by (simp add: poll_init_def empty_db_def)
  show "order_doc demo_server_env" using demo_server_env_doc by (simp add: env_doc_def)
  show "distinct (map dn_id demo_nodes)" by (simp add: demo_nodes_def demo_dto_def)
qed

text \<open>Claim C2: after a successful update of a workflow by a submission with at least one node, rendering it gives the submitted name,
  description, nodes and edges: nodes that existed keep their identifier, new nodes get fresh ones, and nothing else is in the graph. A configuration that was changed also
  has the user and the workflow in it.\<close>

theorem update_then_render:
  assumes inv: "tables_inv d" and doc: "env_doc ev" and sub: "submitted nodes" and ne: "nodes \<noteq> []"
    and upd: "WorkflowService_UpdateWorkflow ev userID w name description nodes edges d = (None, d')"
  shows "\<exists>g g' f. workflowRepo_RenderWorkflowGraph ev w d = Inr g \<and> workflowRepo_RenderWorkflowGraph ev w d' = Inr g' \<and>
    gd_name g' = name \<and> gd_description g' = description \<and>
    inj_on f (dn_id ` set nodes) \<and> (\<forall>n\<in>set nodes. \<not> ev_uuid ev (dn_id n) \<longrightarrow> f (dn_id n) = dn_id n) \<and>
    mset (gd_nodes g') = mset (map (read_back f (stored_config ev userID w g)) nodes) \<and>
    edge_key ` set (gd_edges g') = (\<lambda>e. (f (de_source e), f (de_target e))) ` set edges"
proof -
  have ok: "rows_ok d" and within: "edges_within d" and ord: "order_doc ev" and uuid: "uuid_doc ev" using inv doc unfolding tables_inv_def env_doc_def by blast+
  obtain g num r where S: "workflowRepo_RenderWorkflowGraph ev w d = Inr g" "check_graph ev nodes edges = None" "rows_ok d'" "stores ev userID w g nodes edges num d d'"
    "r \<in> set (db_workflows d')" "tw_id r = w" "tw_name r = name" "tw_description r = description"
    by (rule update_stores [OF ok within ord uuid sub upd]) blast
  have dis: "distinct (map dn_id nodes)" using sub unfolding submitted_def by blast
  obtain g' where "workflowRepo_RenderWorkflowGraph ev w d' = Inr g'" "gd_name g' = tw_name r" "gd_description g' = tw_description r"
    "mset (gd_nodes g') = mset (map (read_back (\<lambda>x. show_int (num x)) (stored_config ev userID w g)) nodes)"
    "edge_key ` set (gd_edges g') = (\<lambda>e. (show_int (num (de_source e)), show_int (num (de_target e)))) ` set edges"
    by (rule held_render [OF S(3) stores_within [OF ok within S(3,4) checked_edges [OF S(2)]] ord stores_holds [OF S(4)] dis ne S(5,6)])
  moreover have "inj_on (\<lambda>x. show_int (num x)) (dn_id ` set nodes)" using S(4) unfolding stores_def inj_on_def by simp
  moreover have "\<forall>n\<in>set nodes. \<not> ev_uuid ev (dn_id n) \<longrightarrow> show_int (num (dn_id n)) = dn_id n" using S(4) unfolding stores_def by blast
  ultimately show ?thesis using S(1,7,8) by (intro exI [of _ g] exI [of _ g'] exI [of _ "\<lambda>x. show_int (num x)"]) simp
qed

lemma demo_submitted: "submitted demo_submission"
  by (simp add: submitted_def demo_submission_def demo_dto_def json_config_def demo_texts demo_texts(8) [symmetric])

theorem update_then_render_witness:
  "\<exists>d' g g' f. WorkflowService_UpdateWorkflow demo_server_env ''u'' 1 ''mail'' ''moved'' demo_submission [demo_link ''1'' demo_uuid] demo_tables = (None, d') \<and>
    workflowRepo_RenderWorkflowGraph demo_server_env 1 d' = Inr g' \<and> gd_description g' = ''moved'' \<and> f ''1'' = ''1'' \<and>
    mset (gd_nodes g') = mset (map (read_back f (stored_config demo_server_env ''u'' 1 g)) demo_submission) \<and> edge_key ` set (gd_edges g') = {(''1'', f demo_uuid)}"
proof -
  obtain d' where u: "WorkflowService_UpdateWorkflow demo_server_env ''u'' 1 ''mail'' ''moved'' demo_submission [demo_link ''1'' demo_uuid] demo_tables = (None, d')"
    using demo_updated by (metis fst_conv surj_pair)
  have ne: "demo_submission \<noteq> []" by (simp add: demo_submission_def)
  obtain g g' f where f: "workflowRepo_RenderWorkflowGraph demo_server_env 1 d' = Inr g'" "gd_description g' = ''moved''"
    "\<forall>n\<in>set demo_submission. \<not> ev_uuid demo_server_env (dn_id n) \<longrightarrow> f (dn_id n) = dn_id n"
    "mset (gd_nodes g') = mset (map (read_back f (stored_config demo_server_env ''u'' 1 g)) demo_submission)"
    "edge_key ` set (gd_edges g') = (\<lambda>e. (f (de_source e), f (de_target e))) ` set [demo_link ''1'' demo_uuid]"
    using update_then_render [OF demo_inv demo_server_env_doc demo_submitted ne u] by blast
  have "f ''1'' = ''1''" using f(3) by (simp add: demo_submission_def demo_dto_def demo_server_env_def)
  then show ?thesis using u f by (intro exI [of _ d'] exI [of _ g] exI [of _ g'] exI [of _ f]) (simp add: demo_link_def)
qed

text \<open>Claim C14: an update that fails changes no workflow: the tables of workflows, nodes, positions and edges are as before, so everybody reads what they would have read
  without it. At most one transaction stays open.\<close>

theorem failed_update_keeps_workflows:
  assumes inv: "tables_inv d" and upd: "WorkflowService_UpdateWorkflow ev userID w name description nodes edges d = (Some e, d')"
  shows "db_workflows d' = db_workflows d \<and> db_nodes d' = db_nodes d \<and> db_ui d' = db_ui d \<and> db_edges d' = db_edges d \<and>
    workflowRepo_RenderWorkflowGraph ev' v d' = workflowRepo_RenderWorkflowGraph ev' v d \<and> db_open d' \<le> db_open d + 1"
proof -
  have "rows_ok d" using inv by (simp add: tables_inv_def)
  from update_fails [OF this upd] obtain d0 where d0: "same_graph d d0" "d' = d0 \<or> (\<exists>lo t. d' = abort_tx d0 lo t)"
    unfolding trigger_change_def by blast
  have eqs: "db_workflows d' = db_workflows d" "db_nodes d' = db_nodes d" "db_ui d' = db_ui d" "db_edges d' = db_edges d" "db_open d' \<le> db_open d + 1"
    using d0(2) same_graph_eqs(4-6,10,11) [OF d0(1)] by (auto simp: abort_tx_def)
  have out: "outgoing i j d' = outgoing i j d" for i j by (simp add: outgoing_def eqs(4))
  have "q_RenderWorkflowGraph v d' = q_RenderWorkflowGraph v d" by (simp add: q_RenderWorkflowGraph_def eqs(1-3) out)
  then show ?thesis using eqs by (simp add: workflowRepo_RenderWorkflowGraph_def)
qed

theorem failed_update_keeps_workflows_witness:
  "\<exists>e d'. WorkflowService_UpdateWorkflow demo_server_env ''u'' 1 ''mail'' ''moved'' [demo_dto ''7'' 0] [] demo_tables = (Some e, d') \<and>
    workflowRepo_RenderWorkflowGraph demo_server_env 1 d' = Inr demo_graph"
  using failed_update_keeps_workflows [OF demo_inv demo_refused, of demo_server_env 1] demo_refused demo_render by simp

section \<open>Other users\<close>

lemma access_owner:
  assumes ok: "rows_ok d" and a: "checked_access what user i d = Inr (w, u)"
  shows "user = Some u \<and> (\<forall>r\<in>set (db_workflows d). tw_id r = w \<longrightarrow> tw_user r = u)"
proof -
  have u: "user = Some u" "VerifyWorkflowAccess w u d = None"
    using a by (auto simp: checked_access_def split: option.splits if_splits)
  then obtain r where r: "List.find (\<lambda>r. tw_id r = w) (db_workflows d) = Some r" "tw_user r = u"
    by (auto simp: VerifyWorkflowAccess_def q_GetWorkflow_def split: option.splits if_splits sum.splits)
  then have "r \<in> set (db_workflows d)" "tw_id r = w" by (auto simp: find_Some_iff)
  then have "r' = r" if "r' \<in> set (db_workflows d)" "tw_id r' = w" for r'
    using that ok unfolding rows_ok_def by (metis distinct_map inj_onD)
  then show ?thesis using u(1) r(2) by blast
qed

lemma access_refused: "checked_access what user i d = Inl a \<Longrightarrow> \<exists>t. snd a = Failure t"
  by (auto simp: checked_access_def split: option.splits if_splits)

text \<open>The tables with the rows of one user only: what is left if every other user and all their workflows are taken away. The sequences stay.\<close>

definition own_ids :: "string \<Rightarrow> server_db \<Rightarrow> int set" where
  "own_ids u d = tw_id ` {r \<in> set (db_workflows d). tw_user r = u}"

definition own_tables :: "string \<Rightarrow> server_db \<Rightarrow> server_db" where
  "own_tables u d =
     d\<lparr>db_workflows := filter (\<lambda>r. tw_user r = u) (db_workflows d), db_nodes := filter (\<lambda>n. tn_workflow n \<in> own_ids u d) (db_nodes d),
       db_ui := filter (\<lambda>p. \<exists>n\<in>set (db_nodes d). tn_id n = tu_id p \<and> tn_workflow n \<in> own_ids u d) (db_ui d),
       db_edges := filter (\<lambda>e. te_workflow e \<in> own_ids u d) (db_edges d), db_schedules := filter (\<lambda>s. ts_workflow s \<in> own_ids u d) (db_schedules d),
       db_calendars := filter (\<lambda>c. tc_workflow c \<in> own_ids u d) (db_calendars d), db_runs := filter (\<lambda>r. snd r \<in> own_ids u d) (db_runs d),
       db_nodeRuns := filter (\<lambda>i. \<exists>n\<in>set (db_nodes d). tn_id n = i \<and> tn_workflow n \<in> own_ids u d) (db_nodeRuns d)\<rparr>"

definition carries_workflow :: "route_body \<Rightarrow> bool" where
  "carries_workflow b = (case b of WorkflowBody r \<Rightarrow> True | WorkflowsBody rs \<Rightarrow> True | GraphBody g \<Rightarrow> True | _ \<Rightarrow> False)"

lemma filter_of_filter: "(\<And>x. x \<in> set xs \<Longrightarrow> P x \<Longrightarrow> Q x) \<Longrightarrow> filter P (filter Q xs) = filter P xs"
  unfolding filter_filter by (rule filter_cong [OF refl]) blast

lemma find_of_filter: "(\<And>x. x \<in> set xs \<Longrightarrow> P x \<Longrightarrow> Q x) \<Longrightarrow> List.find P (filter Q xs) = List.find P xs"
  by (induction xs) auto

lemma own_GetWorkflow:
  assumes "\<forall>r\<in>set (db_workflows d). tw_id r = w \<longrightarrow> tw_user r = u"
  shows "q_GetWorkflow w (own_tables u d) = q_GetWorkflow w d"
proof -
  have "List.find (\<lambda>r. tw_id r = w) (filter (\<lambda>r. tw_user r = u) (db_workflows d)) = List.find (\<lambda>r. tw_id r = w) (db_workflows d)"
    by (rule find_of_filter) (use assms in blast)
  then show ?thesis by (simp add: q_GetWorkflow_def own_tables_def)
qed

lemma own_render:
  assumes owner: "\<forall>r\<in>set (db_workflows d). tw_id r = w \<longrightarrow> tw_user r = u" and w: "w \<in> own_ids u d"
  shows "workflowRepo_RenderWorkflowGraph ev w (own_tables u d) = workflowRepo_RenderWorkflowGraph ev w d"
proof -
  have ws: "filter (\<lambda>r. tw_id r = w) (db_workflows (own_tables u d)) = filter (\<lambda>r. tw_id r = w) (db_workflows d)"
    unfolding own_tables_def by simp (rule filter_cong [OF refl], use owner in blast)
  have ns: "filter (\<lambda>n. tn_workflow n = w) (db_nodes (own_tables u d)) = filter (\<lambda>n. tn_workflow n = w) (db_nodes d)"
    unfolding own_tables_def by simp (rule filter_cong [OF refl], use w in blast)
  have es: "outgoing w i (own_tables u d) = outgoing w i d" for i
    unfolding outgoing_def own_tables_def by simp (rule filter_cong [OF refl], use w in blast)
  have ps: "filter (\<lambda>p. tu_id p = tn_id n) (db_ui (own_tables u d)) = filter (\<lambda>p. tu_id p = tn_id n) (db_ui d)"
    if "n \<in> set (filter (\<lambda>n. tn_workflow n = w) (db_nodes d))" for n
    unfolding own_tables_def by simp (rule filter_cong [OF refl], use that w in auto)
  have "q_RenderWorkflowGraph w (own_tables u d) = q_RenderWorkflowGraph w d"
    unfolding q_RenderWorkflowGraph_def ws ns es using ps by (intro arg_cong [of _ _ concat] map_cong refl) simp_all
  then show ?thesis by (simp add: workflowRepo_RenderWorkflowGraph_def)
qed

text \<open>An answer with a workflow in it is the answer of a server that has nothing but the workflows of the user.\<close>

lemma reads_own:
  assumes ok: "rows_ok d" and h: "handle_request ev user rq d = (a, d')" and c: "carries_workflow (snd a)"
  shows "\<exists>u. user = Some u \<and> fst (handle_request ev user rq (own_tables u d)) = a"
proof -
  have access: "user = Some u \<and> checked_access what user i (own_tables u d) = Inr (w, u) \<and>
      workflowRepo_RenderWorkflowGraph ev w (own_tables u d) = workflowRepo_RenderWorkflowGraph ev w d"
    if a: "checked_access what user i d = Inr (w, u)" for what i w u
  proof -
    have o: "user = Some u" "\<forall>r\<in>set (db_workflows d). tw_id r = w \<longrightarrow> tw_user r = u" using access_owner [OF ok a] by blast+
    have v: "path_id i = Some w" "VerifyWorkflowAccess w u d = None" using a by (auto simp: checked_access_def split: option.splits if_splits)
    then obtain r where "List.find (\<lambda>r. tw_id r = w) (db_workflows d) = Some r"
      by (auto simp: VerifyWorkflowAccess_def q_GetWorkflow_def split: option.splits if_splits sum.splits)
    then have "r \<in> set (db_workflows d)" "tw_id r = w" by (auto simp: find_Some_iff)
    then have "w \<in> own_ids u d" using o(2) unfolding own_ids_def by blast
    moreover have "VerifyWorkflowAccess w u (own_tables u d) = None" using v(2) by (simp add: VerifyWorkflowAccess_def own_GetWorkflow [OF o(2)])
    then have "checked_access what user i (own_tables u d) = Inr (w, u)" using o(1) v(1) by (simp add: checked_access_def)
    ultimately show ?thesis using o(1) own_render [OF o(2)] by simp
  qed
  show ?thesis
  proof (cases rq)
    case (RenderRequest i)
    then obtain w u where wu: "checked_access ''view workflow'' user i d = Inr (w, u)"
      using h c by (auto simp: ctl_GetWorkflowRender_def carries_workflow_def split: sum.splits dest!: access_refused)
    then show ?thesis using h RenderRequest access [OF wu] by (auto simp: ctl_GetWorkflowRender_def)
  next
    case (WorkflowRequest i)
    then obtain w u r where r: "path_id i = Some w" "user = Some u" "q_GetWorkflow w d = Inr r" "tw_user r = u"
      using h c by (auto simp: ctl_GetWorkflow_def carries_workflow_def split: option.splits sum.splits if_splits)
    then have "r \<in> set (db_workflows d)" "tw_id r = w" by (auto simp: q_GetWorkflow_def find_Some_iff split: option.splits)
    then have "\<forall>r'\<in>set (db_workflows d). tw_id r' = w \<longrightarrow> tw_user r' = u" using ok r(4) unfolding rows_ok_def by (metis distinct_map inj_onD)
    from own_GetWorkflow [OF this] show ?thesis using h r WorkflowRequest by (auto simp: ctl_GetWorkflow_def)
  next
    case WorkflowsRequest
    then show ?thesis using h c by (auto simp: ctl_GetUserWorkflows_def carries_workflow_def own_tables_def split: option.splits)
  next
    case (CreateRequest body)
    then show ?thesis using h c by (auto simp: ctl_CreateWorkflow_def carries_workflow_def split: option.splits prod.splits sum.splits)
  next
    case (UpdateRequest i body)
    then show ?thesis using h c
      by (auto simp: ctl_UpdateWorkflow_def carries_workflow_def split: option.splits prod.splits sum.splits dest!: access_refused)
  next
    case (ArchiveRequest i)
    then show ?thesis using h c
      by (auto simp: ctl_ArchiveWorkflow_def carries_workflow_def split: option.splits prod.splits sum.splits dest!: access_refused)
  qed
qed

lemma keeps_foreign:
  assumes inv: "tables_inv d" and doc: "env_doc ev" and h: "handle_request ev user rq d = (a, d')"
    and r: "r \<in> set (db_workflows d)" "user \<noteq> Some (tw_user r)"
  shows "same_workflow (tw_id r) d d'"
proof -
  have ok: "rows_ok d" using inv by (simp add: tables_inv_def)
  have w: "tw_id r \<in> workflow_ids d" using r(1) by (simp add: workflow_ids_def)
  have ne: "tw_id r \<noteq> w" if "checked_access what user i d = Inr (w, u)" for what i w u
    using access_owner [OF ok that] r by blast
  show ?thesis
  proof (cases rq)
    case (CreateRequest body)
    show ?thesis
    proof (cases "\<exists>u name description status nodes edges x. WorkflowService_CreateWorkflow ev u name description status nodes edges d = (x, d')")
      case True
      then show ?thesis using create_same_workflow [OF inv _ w] by blast
    next
      case False
      then have "d' = d" using h CreateRequest by (auto simp: ctl_CreateWorkflow_def split: option.splits prod.splits sum.splits)
      then show ?thesis by simp
    qed
  next
    case (UpdateRequest i body)
    show ?thesis
    proof (cases "\<exists>u w name description nodes edges x. tw_id r \<noteq> w \<and> WorkflowService_UpdateWorkflow ev u w name description nodes edges d = (x, d')")
      case True
      then show ?thesis using update_same_workflow [OF inv doc] by blast
    next
      case False
      then have "d' = d" using h UpdateRequest
        by (auto simp: ctl_UpdateWorkflow_def split: option.splits prod.splits sum.splits dest!: ne) blast+
      then show ?thesis by simp
    qed
  next
    case (ArchiveRequest i)
    show ?thesis
    proof (cases "\<exists>w. tw_id r \<noteq> w \<and> d' = snd (WorkflowService_ArchiveWorkflow w d)")
      case True
      then show ?thesis using archive_same_workflow by blast
    next
      case False
      then have "d' = d" using h ArchiveRequest ne
        by (auto simp: ctl_ArchiveWorkflow_def split: option.splits prod.splits sum.splits) (metis snd_conv)+
      then show ?thesis by simp
    qed
  qed (use h in auto)
qed

text \<open>Claim C10: whatever a user sends to the routes for workflows, the workflows of other users are neither changed nor read: their rows, nodes, positions, edges and triggers stay as
  they are, and an answer that has a workflow, a list of workflows or a graph in it is the answer that a server with nothing but the user's own workflows would give.\<close>

theorem only_owner_reads_and_changes:
  assumes reach: "server_reach s" and doc: "env_doc ev" and h: "handle_request ev user rq (ps_db s) = (a, d)"
  shows "(\<forall>r\<in>set (db_workflows (ps_db s)). user \<noteq> Some (tw_user r) \<longrightarrow> same_workflow (tw_id r) (ps_db s) d) \<and>
    (\<not> carries_workflow (snd a) \<or> (\<exists>u. user = Some u \<and> fst (handle_request ev user rq (own_tables u (ps_db s))) = a))"
proof -
  have inv: "tables_inv (ps_db s)" and ok: "rows_ok (ps_db s)" using server_tables_inv [OF reach] by (simp_all add: tables_inv_def)
  show ?thesis using keeps_foreign [OF inv doc h] reads_own [OF ok h] by blast
qed

lemma demo_intruder: "handle_request demo_server_env (Some ''v'') (ArchiveRequest ''1'') (ps_db demo_server) = ((403, Failure ''unauthorized to archive workflow''), demo_tables)"
  unfolding demo_server_db
  by (simp add: ctl_ArchiveWorkflow_def checked_access_def path_id_def demo_texts VerifyWorkflowAccess_def q_GetWorkflow_def demo_tables_def)

lemma demo_reader: "handle_request demo_server_env (Some ''u'') (RenderRequest ''1'') (ps_db demo_server) = ((200, GraphBody demo_graph), demo_tables)"
proof -
  have "checked_access ''view workflow'' (Some ''u'') ''1'' demo_tables = Inr (1, ''u'')"
    by (simp add: checked_access_def path_id_def demo_texts VerifyWorkflowAccess_def q_GetWorkflow_def demo_tables_def)
  then show ?thesis by (simp add: demo_server_db ctl_GetWorkflowRender_def demo_render)
qed

theorem only_owner_reads_and_changes_witness:
  "(\<exists>a d. handle_request demo_server_env (Some ''v'') (ArchiveRequest ''1'') (ps_db demo_server) = (a, d) \<and> same_workflow 1 (ps_db demo_server) d) \<and>
   fst (handle_request demo_server_env (Some ''u'') (RenderRequest ''1'') (own_tables ''u'' (ps_db demo_server))) = (200, GraphBody demo_graph)"
proof -
  let ?r = "\<lparr>tw_id = 1, tw_user = ''u'', tw_name = ''mail'', tw_description = ''two mails'', tw_status = ''draft''\<rparr>"
  have r: "?r \<in> set (db_workflows (ps_db demo_server))" unfolding demo_server_db by (simp add: demo_tables_def)
  have "same_workflow (tw_id ?r) (ps_db demo_server) demo_tables"
    using only_owner_reads_and_changes [OF demo_server_reach demo_server_env_doc demo_intruder] r by force
  moreover have "carries_workflow (snd (200, GraphBody demo_graph))" by (simp add: carries_workflow_def)
  then have "fst (handle_request demo_server_env (Some ''u'') (RenderRequest ''1'') (own_tables ''u'' (ps_db demo_server))) = (200, GraphBody demo_graph)"
    using only_owner_reads_and_changes [OF demo_server_reach demo_server_env_doc demo_reader] by (simp del: handle_request.simps)
  ultimately show ?thesis using demo_intruder by auto
qed

section \<open>Archived workflows\<close>

text \<open>Archiving looks for nodes of the category \<open>schedule\<close>, which no node can have, so the schedules of an archived workflow stay and are polled as before.\<close>

lemma archive_keeps_schedules:
  assumes "\<forall>n\<in>set (db_nodes d). tn_category n \<in> {''trigger'', ''action''}"
  shows "db_schedules (snd (WorkflowService_ArchiveWorkflow w d)) = db_schedules d"
proof -
  have f: "fold (\<lambda>n d. if tn_category n = ''schedule'' then q_DeleteWorkflowScheduleByWorkflowID w d else d) ns t = t"
    if "\<forall>n\<in>set ns. tn_category n \<noteq> ''schedule''" for ns :: "node_row list" and t
    using that by (induction ns) auto
  have "\<forall>n\<in>set (db_nodes d). tn_category n \<noteq> ''schedule''" using assms by auto
  then have "\<forall>n\<in>set ns. tn_category n \<noteq> ''schedule''" if "workflowRepo_GetWorkflowGraph w (q_ArchiveWorkflow w ''archived'' d) = Inr (ns, es)" for ns es
    using that by (auto simp: workflowRepo_GetWorkflowGraph_def q_ArchiveWorkflow_def Let_def split: if_splits)
  then have "fold (\<lambda>n d. if tn_category n = ''schedule'' then q_DeleteWorkflowScheduleByWorkflowID w d else d) (root_nodes tn_id ns ts) t = t"
    if "workflowRepo_GetWorkflowGraph w (q_ArchiveWorkflow w ''archived'' d) = Inr (ns, es)" for ns es ts t
    using that by (intro f) (auto simp: root_nodes_def)
  then show ?thesis by (auto simp: WorkflowService_ArchiveWorkflow_def q_ArchiveWorkflow_def Let_def split: sum.splits prod.splits)
qed

end
