(* ===== verification/Wire_Server.thy ===== *)
theory Wire_Server
  imports Wire_Format Workflow_Routes
begin

text \<open>
  From the client to the server: what the handlers for creating and updating a workflow find in the request that the client's code sends. The JSON package of Go reads a
  parsed text into the request types of \<open>backend/controllers/workflow.go\<close> and the data types of \<open>backend/models/workflow.go\<close>.
\<close>

section \<open>Reading JSON into Go values\<close>

text \<open>Values of type \<open>any\<close>: numbers become \<open>float64\<close>, objects become maps, and of entries with the same key the last one counts.\<close>

fun go_any_of :: "jsval \<Rightarrow> go_any"
  and go_items_of :: "jsval list \<Rightarrow> go_any list"
  and go_fields_of :: "(string \<times> jsval) list \<Rightarrow> go_config \<Rightarrow> go_config" where
  "go_any_of (JBool b) = GBool b"
| "go_any_of (JNum x) = GNum x"
| "go_any_of (JStr s) = GStr s"
| "go_any_of (JArr xs) = GArr (go_items_of xs)"
| "go_any_of (JObj fs) = GMap (go_fields_of fs fmempty)"
| "go_any_of _ = GNil"
| "go_items_of [] = []"
| "go_items_of (x # xs) = go_any_of x # go_items_of xs"
| "go_fields_of [] m = m"
| "go_fields_of ((k, v) # fs) m = go_fields_of fs (fmupd k (go_any_of v) m)"

text \<open>A list of the request with \<open>null\<close> in it is left out here: it is read as an error.

  The entries of an object for a field of a struct: their keys are compared without regard to case, and \<open>null\<close> leaves the field as it is.\<close>

definition field_entries :: "string \<Rightarrow> (string \<times> jsval) list \<Rightarrow> jsval list" where
  "field_entries name fs = map snd (filter (\<lambda>(k, v). js_lower k = name \<and> v \<noteq> JNull) fs)"

text \<open>A field is read by \<open>rd\<close>, with \<open>zero\<close> for one that the object does not have. A value of another type is an error.\<close>

definition read_field :: "'a \<Rightarrow> (jsval \<Rightarrow> 'a option) \<Rightarrow> string \<Rightarrow> (string \<times> jsval) list \<Rightarrow> 'a option" where
  "read_field zero rd name fs =
     fold (\<lambda>v r. case r of None \<Rightarrow> None | Some _ \<Rightarrow> rd v) (field_entries name fs) (Some zero)"

fun read_string :: "jsval \<Rightarrow> string option" where
  "read_string (JStr s) = Some s"
| "read_string _ = None"

fun read_float :: "jsval \<Rightarrow> real option" where
  "read_float (JNum x) = Some x"
| "read_float _ = None"

fun read_map :: "jsval \<Rightarrow> go_config option option" where
  "read_map (JObj fs) = Some (Some (go_fields_of fs fmempty))"
| "read_map _ = None"

fun read_list :: "(jsval \<Rightarrow> 'a option) \<Rightarrow> jsval \<Rightarrow> 'a list option option" where
  "read_list rd (JArr vs) = map_option Some (those (map rd vs))"
| "read_list rd _ = None"

fun read_position :: "jsval \<Rightarrow> (real \<times> real) option option" where
  "read_position (JObj fs) =
     (case (read_field 0 read_float ''x'' fs, read_field 0 read_float ''y'' fs) of (Some x, Some y) \<Rightarrow> Some (Some (x, y)) | _ \<Rightarrow> None)"
| "read_position _ = None"

fun read_node :: "jsval \<Rightarrow> node_dto option" where
  "read_node (JObj fs) =
     (case (read_field [] read_string ''id'' fs, read_field [] read_string ''category'' fs, read_field [] read_string ''node_type'' fs,
            read_field None read_map ''config'' fs, read_field None read_position ''position'' fs) of
        (Some i, Some c, Some t, Some cfg, Some p) \<Rightarrow> Some \<lparr>dn_id = i, dn_category = c, dn_type = t, dn_config = cfg, dn_position = p\<rparr>
      | _ \<Rightarrow> None)"
| "read_node _ = None"

fun read_edge :: "jsval \<Rightarrow> edge_dto option" where
  "read_edge (JObj fs) =
     (case (read_field [] read_string ''id'' fs, read_field [] read_string ''source_node_id'' fs, read_field [] read_string ''target_node_id'' fs) of
        (Some i, Some a, Some b) \<Rightarrow> Some \<lparr>de_id = i, de_source = a, de_target = b\<rparr>
      | _ \<Rightarrow> None)"
| "read_edge _ = None"

fun read_create :: "jsval \<Rightarrow> create_request option" where
  "read_create (JObj fs) =
     (case (read_field [] read_string ''name'' fs, read_field [] read_string ''description'' fs, read_field [] read_string ''status'' fs,
            read_field None (read_list read_node) ''nodes'' fs, read_field None (read_list read_edge) ''edges'' fs) of
        (Some n, Some d, Some s, Some ns, Some es) \<Rightarrow>
          Some \<lparr>cr_name = n, cr_description = d, cr_status = s, cr_nodes = ns, cr_edges = es\<rparr>
      | _ \<Rightarrow> None)"
| "read_create _ = None"

fun read_update :: "jsval \<Rightarrow> update_request option" where
  "read_update (JObj fs) =
     (case (read_field [] read_string ''name'' fs, read_field [] read_string ''description'' fs,
            read_field None (read_list read_node) ''nodes'' fs, read_field None (read_list read_edge) ''edges'' fs) of
        (Some n, Some d, Some ns, Some es) \<Rightarrow> Some \<lparr>ur_name = n, ur_description = d, ur_nodes = ns, ur_edges = es\<rparr>
      | _ \<Rightarrow> None)"
| "read_update _ = None"

section \<open>What arrives\<close>

text \<open>The nodes and edges of the client as the server has them: a configuration without its undefined entries, and with \<open>null\<close> for undefined elements of lists.\<close>

definition sent_node :: "workflow_node \<Rightarrow> node_dto" where
  "sent_node n = \<lparr>dn_id = wn_id n, dn_category = wn_category n, dn_type = wn_node_type n,
     dn_config = Some (go_fields_of (norm_fields (wn_config n)) fmempty), dn_position = Some (wn_position n)\<rparr>"

definition sent_edge :: "workflow_edge \<Rightarrow> edge_dto" where
  "sent_edge e = \<lparr>de_id = we_id e, de_source = we_source_node_id e, de_target = we_target_node_id e\<rparr>"

lemma field_names [simp]:
  "js_lower ''id'' = ''id''" "js_lower ''category'' = ''category''" "js_lower ''node_type'' = ''node_type''" "js_lower ''config'' = ''config''"
  "js_lower ''position'' = ''position''" "js_lower ''x'' = ''x''" "js_lower ''y'' = ''y''" "js_lower ''source_node_id'' = ''source_node_id''"
  "js_lower ''target_node_id'' = ''target_node_id''" "js_lower ''name'' = ''name''" "js_lower ''description'' = ''description''"
  "js_lower ''status'' = ''status''" "js_lower ''nodes'' = ''nodes''" "js_lower ''edges'' = ''edges''"
  by code_simp+

lemma read_sent_node: "read_node (node_json (wire_node n)) = Some (sent_node n)"
  by (simp add: node_json_def wire_node_def sent_node_def read_field_def field_entries_def)

lemma read_sent_edge: "read_edge (edge_json e) = Some (sent_edge e)"
  by (simp add: edge_json_def sent_edge_def read_field_def field_entries_def)

lemma those_map_Some: "(\<And>x. x \<in> set xs \<Longrightarrow> f x = Some (g x)) \<Longrightarrow> those (map f xs) = Some (map g xs)"
  by (induction xs) auto

lemma read_sent_nodes: "read_list read_node (JArr (map node_json (map wire_node ns))) = Some (Some (map sent_node ns))"
  using those_map_Some [of ns "\<lambda>n. read_node (node_json (wire_node n))" sent_node] by (simp add: read_sent_node o_def)

lemma read_sent_edges: "read_list read_edge (JArr (map edge_json es)) = Some (Some (map sent_edge es))"
  using those_map_Some [of es "\<lambda>e. read_edge (edge_json e)" sent_edge] by (simp add: read_sent_edge o_def)

lemma read_sent_create:
  "read_create (create_json (d\<lparr>cw_nodes := map wire_node (cw_nodes d)\<rparr>)) =
     Some \<lparr>cr_name = cw_name d, cr_description = cw_description d, cr_status = cw_status d,
       cr_nodes = Some (map sent_node (cw_nodes d)), cr_edges = Some (map sent_edge (cw_edges d))\<rparr>"
  by (simp add: create_json_def read_field_def field_entries_def read_sent_nodes [simplified] read_sent_edges [simplified])

lemma read_sent_update:
  "read_update (update_json (d\<lparr>uw_nodes := map wire_node (uw_nodes d)\<rparr>)) =
     Some \<lparr>ur_name = uw_name d, ur_description = uw_description d,
       ur_nodes = Some (map sent_node (uw_nodes d)), ur_edges = Some (map sent_edge (uw_edges d))\<rparr>"
  by (simp add: update_json_def read_field_def field_entries_def read_sent_nodes [simplified] read_sent_edges [simplified])

text \<open>An entry of a configuration arrives under its key.\<close>

lemma go_fields_lookup:
  "distinct (map fst fs) \<Longrightarrow> fmlookup (go_fields_of fs m) k = (case map_of fs k of None \<Rightarrow> fmlookup m k | Some v \<Rightarrow> Some (go_any_of v))"
proof (induction fs arbitrary: m)
  case (Cons f fs)
  obtain k' v where f: "f = (k', v)" by fastforce
  then have "map_of fs k' = None" using Cons.prems by (simp add: map_of_eq_None_iff)
  then show ?case using Cons f by (auto split: option.split)
qed simp

lemma sent_entry:
  "distinct (map fst (wn_config n)) \<Longrightarrow> (k, v) \<in> set (norm_fields (wn_config n)) \<Longrightarrow>
   fmlookup (the (dn_config (sent_node n))) k = Some (go_any_of v)"
  using distinct_norm_fields [of "wn_config n"] by (simp add: sent_node_def go_fields_lookup)

section \<open>The request\<close>

text \<open>Claim C29: what the caller of the client hands over is what the handler of the route finds: creating and updating a workflow each send one request,
  with the method and the path of the route, whose body is JSON text, and the parsed text, read into the type of the handler's request, has
  the name, the description, the status, the nodes and the edges of the caller, with the configuration and the position of every node. Only entries of a configuration whose
  value is undefined are missing, and undefined elements of lists in it are null. The token, if there is one, can be sent in a header, and the numbers are those of the machine.\<close>

theorem request_body_parses:
  assumes tok: "token_ok tok" and doc: "json_num_doc F num np"
    and cn: "list_all (node_ok F) (cw_nodes c)" and un: "list_all (node_ok F) (uw_nodes d)"
  shows "(\<exists>rq t v. (\<forall>net. createWorkflow num base_url net c tok = request_settle (net rq)) \<and>
      rq_method rq = Some ''POST'' \<and> rq_url rq = base_url @ ''/api/workflow'' \<and> rq_body rq = Some t \<and> json_parse np t = Some v \<and>
      read_create v = Some \<lparr>cr_name = cw_name c, cr_description = cw_description c, cr_status = cw_status c,
        cr_nodes = Some (map sent_node (cw_nodes c)), cr_edges = Some (map sent_edge (cw_edges c))\<rparr>) \<and>
    (\<exists>rq t v. (\<forall>net. updateWorkflow num base_url net i d tok = request_settle (net rq)) \<and>
      rq_method rq = Some ''PUT'' \<and> rq_url rq = base_url @ ''/api/workflow/'' @ i \<and> rq_body rq = Some t \<and> json_parse np t = Some v \<and>
      read_update v = Some \<lparr>ur_name = uw_name d, ur_description = uw_description d,
        ur_nodes = Some (map sent_node (uw_nodes d)), ur_edges = Some (map sent_edge (uw_edges d))\<rparr>)"
    (is "?create \<and> ?update")
proof
  obtain t where t: "json_stringify num (create_json c) = Some t" "json_parse np t = Some (create_json (c\<lparr>cw_nodes := map wire_node (cw_nodes c)\<rparr>))"
    by (rule call_body_parses [OF doc, of "CreateWorkflow c"]) (use cn in simp_all)
  have "body_text num (create_json c) = Some t" using t(1) by (simp add: create_json_def)
  then show ?create using t(2) read_sent_create [of c]
    by (intro exI [of _ "\<lparr>rq_url = base_url @ ''/api/workflow'', rq_method = Some ''POST'', rq_body = Some t, rq_credentials = ''include'',
          rq_headers = auth_headers tok\<rparr>"] exI [of _ t] exI)
      (simp add: createWorkflow_def api_post_def request_sends [OF tok])
next
  obtain t where t: "json_stringify num (update_json d) = Some t" "json_parse np t = Some (update_json (d\<lparr>uw_nodes := map wire_node (uw_nodes d)\<rparr>))"
    by (rule call_body_parses [OF doc, of "UpdateWorkflow i d"]) (use un in simp_all)
  have "body_text num (update_json d) = Some t" using t(1) by (simp add: update_json_def)
  then show ?update using t(2) read_sent_update [of d]
    by (intro exI [of _ "\<lparr>rq_url = base_url @ ''/api/workflow/'' @ i, rq_method = Some ''PUT'', rq_body = Some t, rq_credentials = ''include'',
          rq_headers = auth_headers tok\<rparr>"] exI [of _ t] exI)
      (simp add: updateWorkflow_def api_put_def request_sends [OF tok])
qed

definition demo_create :: create_workflow_dto where
  "demo_create = \<lparr>cw_name = ''m'', cw_description = ''d'', cw_status = ''draft'', cw_nodes = uw_nodes demo_update, cw_edges = []\<rparr>"

theorem request_body_parses_witness:
  "\<exists>rq t v. (\<forall>net. updateWorkflow demo_num ''http://h'' net ''7'' demo_update (Some ''tok'') = request_settle (net rq)) \<and>
     rq_url rq = ''http://h/api/workflow/7'' \<and> rq_body rq = Some t \<and> json_parse demo_np t = Some v \<and>
     read_update v = Some \<lparr>ur_name = [CHR 0x22, CHR 0x0A], ur_description = [],
       ur_nodes = Some [\<lparr>dn_id = ''n'', dn_category = ''action'', dn_type = ''send_email'', dn_config = Some (fmupd ''to'' (GArr [GNil]) fmempty),
         dn_position = Some (0, - 1500)\<rparr>], ur_edges = Some []\<rparr>"
proof -
  have tok: "token_ok (Some ''tok'')" by (simp add: token_ok_def header_value_ok_def)
  have nodes: "list_all (node_ok {0, - 1500}) (cw_nodes demo_create)" "list_all (node_ok {0, - 1500}) (uw_nodes demo_update)"
    by (simp_all add: demo_create_def demo_update_def node_ok_def)
  have sent: "\<lparr>ur_name = uw_name demo_update, ur_description = uw_description demo_update, ur_nodes = Some (map sent_node (uw_nodes demo_update)),
      ur_edges = Some (map sent_edge (uw_edges demo_update))\<rparr> = \<lparr>ur_name = [CHR 0x22, CHR 0x0A], ur_description = [],
       ur_nodes = Some [\<lparr>dn_id = ''n'', dn_category = ''action'', dn_type = ''send_email'', dn_config = Some (fmupd ''to'' (GArr [GNil]) fmempty),
         dn_position = Some (0, - 1500)\<rparr>], ur_edges = Some []\<rparr>"
    by (simp add: demo_update_def sent_node_def)
  from conjunct2 [OF request_body_parses [OF tok demo_json_num_doc nodes, of "''http://h''" "''7''"], unfolded sent]
  obtain rq t v where "\<forall>net. updateWorkflow demo_num ''http://h'' net ''7'' demo_update (Some ''tok'') = request_settle (net rq)"
    and "rq_url rq = ''http://h'' @ ''/api/workflow/'' @ ''7''" "rq_body rq = Some t" "json_parse demo_np t = Some v"
    and "read_update v = Some \<lparr>ur_name = [CHR 0x22, CHR 0x0A], ur_description = [],
       ur_nodes = Some [\<lparr>dn_id = ''n'', dn_category = ''action'', dn_type = ''send_email'', dn_config = Some (fmupd ''to'' (GArr [GNil]) fmempty),
         dn_position = Some (0, - 1500)\<rparr>], ur_edges = Some []\<rparr>" by blast
  then show ?thesis by (intro exI [of _ rq] exI [of _ t] exI [of _ v]) simp
qed

end
