(* ===== verification/Spec2Isabelle.thy ===== *)
theory Spec2Isabelle
  imports Flow_Laws Block_Panel Node_Ui Run_Live Graph_Check Library_Views Schedule_Settings Calendar_Trigger
    Inspector Ui_Primitives Dashboard Wire_Format Local_Storage Server_Laws Wire_Server
begin

text \<open>
  This development models the web front end of TinyAutomator (\<open>src/frontend/src/\<close>), a React application in
  which workflows are drawn as graphs of blocks on a canvas, configured, saved to a server, run and
  watched, and the part of the server (\<open>src/backend/\<close>, in Go) that checks and stores workflows, starts them by their schedules, runs them and reports on the runs. It is a
  shallow embedding: every component is a set of executable definitions over records and
  datatypes that carry the names of the source.

  \<^bold>\<open>Parts of the program and where they are modelled.\<close>

  \<^item> \<open>Prelude\<close>: what the code uses of JavaScript (strings, numbers, objects as association lists, exceptions
    as the left side of a sum), and the locale \<open>machine\<close>, a state with a step and an invariant.
  \<^item> \<open>Js_Json\<close>, \<open>Js_View\<close>, \<open>Js_Date\<close>: values and their JSON text, rendered elements, and the time arithmetic of
    \<open>Date\<close> over a time zone that is an argument.
  \<^item> \<open>Block_Catalog\<close>: the catalogue of blocks (\<open>components/shared/BlockCategories.tsx\<close>).
  \<^item> \<open>Flow_Store\<close>, \<open>Flow_Laws\<close>: the canvas store (\<open>components/Canvas/flowStore.ts\<close>) with every operation, its
    invariant and its laws. The store maps the key of a flow to its nodes, edges, selection, recently used
    blocks, handle animations and node statuses.
  \<^item> \<open>Workflow_Api\<close>: the HTTP client and its endpoints (\<open>api/\<close>); the network is a function from requests to answers.
  \<^item> \<open>Canvas\<close>: opening a workflow, dropping and selecting blocks, saving, and the keys of the builder
    (\<open>CanvasBody.tsx\<close>, \<open>CanvasHeader.tsx\<close> and the builder routes). The data object of a node is shared between the
    store and the settings forms, which mutate it, so it lives in an explicit heap.
  \<^item> \<open>Node_Ui\<close>, \<open>Run_Stream\<close>, \<open>Block_Panel\<close>: the rendered node (\<open>NodeUI.tsx\<close>), the page of a run with its
    event stream, and the panel from which blocks are dragged.
  \<^item> \<open>Inspector\<close> and the four forms it shows: \<open>Email_Settings\<close>, \<open>Schedule_Settings\<close>, \<open>Google_Calendar\<close> and
    \<open>Calendar_Trigger\<close> (\<open>components/InspectorPanel/\<close>).
  \<^item> \<open>Library\<close>, \<open>Library_Views\<close>: the library of workflows with its address, filters, pages and cards.
  \<^item> \<open>Dashboard\<close>: the dashboard, the connection of a mail account and the shared small components.
  \<^item> \<open>Workspace\<close>, \<open>Ui_Kit\<close>, \<open>Ui_Primitives\<close>: theme, cookies, sidebar, navigation and the frames of the pages; the parts of the
    sidebar and of form fields, and the landing page; the other primitives of \<open>components/ui/\<close>.
  \<^item> \<open>Run_Calls\<close>, \<open>Run_Engine\<close>: the engine of workflow runs. The first has the tables, the queue and the cache (\<open>repositories/\<close>,
    \<open>clients/\<close>) as one record \<open>world\<close>, the calls on it, and programs as trees of calls; the second the orchestrator, the executor and the
    consumer (\<open>services/orchestrator.go\<close>, \<open>services/executor.go\<close>, \<open>internal/\<close>, \<open>clients/rabbitmq/client.go\<close>) as such programs, and the system
    of all requests and workers in progress, whose events advance one of them by one call.
  \<^item> \<open>Run_Safety\<close>, \<open>Run_Progress\<close>, \<open>Run_Settles\<close>: what holds of runs under every interleaving, what a handler does to its run when handlers
    follow one another, and that runs then come to an end.
  \<^item> \<open>Graph_Check\<close>: the validation of a workflow graph (\<open>services/workflow.go\<close>).
  \<^item> \<open>Run_Live\<close>: the stream of a run (\<open>controllers/workflow_run.go\<close>, \<open>services/workflow_run.go\<close>) between the engine and the page of the run.
  \<^item> \<open>Server_Tables\<close>, \<open>Server_Triggers\<close>: the tables of the database with their constraints and statements (\<open>db/\<close>) as one record \<open>server_db\<close>, and the triggers of
    workflows: schedules and calendar events, validated, set up and updated (\<open>internal/handlers/triggers/\<close>, \<open>services/scheduler.go\<close>).
  \<^item> \<open>Schedule_Poller\<close>: the scheduler process (\<open>cmd/scheduler/\<close>), with polls of several processes, goroutines in flight and processes that die.
  \<^item> \<open>Workflow_Store\<close>, \<open>Workflow_Routes\<close>: creating, updating, rendering and archiving workflows with their transactions (\<open>services/workflow.go\<close>,
    \<open>repositories/workflow.go\<close>), and the handlers of the routes (\<open>controllers/workflow.go\<close>) with their checks of access.
  \<^item> \<open>Store_Maps\<close>, \<open>Store_Laws\<close>, \<open>Store_Others\<close>, \<open>Store_Safety\<close>, \<open>Server_Laws\<close>: the tables read as maps and the statements as changes of them, what an update and a creation
    mean on these maps, what they leave of other workflows whatever was submitted, the invariant of the tables and what failing requests leave, and the theorems about the server.
  \<^item> \<open>Json_Parse\<close>, \<open>Wire_Format\<close>, \<open>Wire_Server\<close>, \<open>Local_Storage\<close>: reading JSON text, the text of a request, what the handlers of the server find in it, and the
    hook that keeps a value in the browser.
  \<^item> this theory: sessions that interleave the canvas with the forms.

  \<^bold>\<open>How state and effects are represented.\<close> State of hooks and stores is a record that is passed on.
  A throwing operation returns a sum whose left side is the error, or a pair of the state it leaves and the
  error where the state survives. Requests, navigation and notifications are returned as values. Effects of React
  run after a render in which a dependency has changed and see the state of that render; a state change
  during them renders again. The models run two such rounds, and the lemmas \<open>trigger_effects_settle\<close> and
  \<open>inspector_effects_settle\<close> show that a third changes nothing, so two are enough. The JSON parser takes fuel, twice
  the length of its text and one; \<open>json_roundtrip\<close> shows that this reads every text the program writes. The loop for the next run of a
  schedule is a partial function, and \<open>next_run_found\<close> shows that it gives a result. All other loops are structural recursions over lists. On the server a call to the database, the cache or the broker is atomic, and may fail
  before or after it takes effect; a message is taken from the queue in any order, a worker may die, whose message is then
  delivered again, and keys in Redis may expire at any time. \<open>handle\<close> and \<open>quiet_step\<close> are the runs of this system in which one
  handler follows the other and only actions fail; \<open>handle_by_steps\<close> shows that the system has these runs. Requests on workflows are transactions
  on the tables: one that fails gives back the old tables, with the numbers it took from the sequences used up, and counts as left open where the code does not roll it back.
  They are atomic here, and interleave with the polls and goroutines of the scheduler (\<open>server_reach\<close>).

  \<^bold>\<open>Interfaces.\<close> The locale \<open>machine\<close> is interpreted on the store, the block panel, the recipients field, the
  event schedule, the calendar list, the trigger form, the inspector panel, the run engine with all its interleavings and the runs in
  which handlers follow one another, and shown for the canvas, the run page, the
  theme, the scheduler and the sessions under their hypotheses. \<open>current_field\<close> is the contract of a
  field of the current flow, \<open>endpoint\<close> that of a client call, \<open>settings_form\<close> that of a form which stores a
  configuration in the selected node, and \<open>stable_form\<close> extends it with reading the configuration back.

  \<^bold>\<open>What is shown.\<close> For the store: an invariant of all sequences of operations, that handles are animated exactly while
  edges are attached (in the stores that the application reaches: by all operations but the two that no component calls, which set and clear animations by hand), that flows do not influence each other, that nothing throws, and that the bounded list of
  recent blocks is the first part of the full history. For the canvas: loading and saving is the identity, a
  submitted form reaches the saved workflow at its node only, what a drop does. For the client: values and errors of all
  calls against a table of endpoints, and that the handlers for creating and updating a workflow find in the request what the caller passed. For a run: the shown status follows the updates. For the library: the
  loop that filters and counts is the declarative filter, pages partition the list, addresses round trip. For the
  forms: accepted values are stored, read back and accepted again, invariants of the inputs, bounds of widths. For the
  frame: the theme survives a reload. For the engine: under every interleaving and fault a node starts only after its
  parents have succeeded (by a calculus of programs under interference) and no node counts more than three attempts; a handler refines
  an abstract step on the progress of its run; deliveries end (the multiset of messages decreases along the edges of the graph) and a
  run without messages has the right final status (the last three for handlers that follow one another, where only actions fail, and the final status for workflows
  that have an action and whose triggers are exactly their roots). For the check of a workflow: what it accepts has no cycle, and graphs whose nodes lie on
  levels are accepted, whatever the graph package does within its promises. For engine, stream and page together: the page shows of
  every node of a run in progress what the database holds, under the same conditions and as long as the channel of the client does not overflow. For the store of workflows: what was created or updated is rendered as it was submitted, a failed update changes nothing that is
  read, the tables stay consistent and without cycles over all requests, polls and runs, and by the routes for workflows no user reads or changes the workflow of another. For the scheduler: no occurrence of a schedule
  is started twice or early, due ones are started when they fit into one batch, the next run is always found, and a schedule whose poll or process ends at the wrong time is lost. Several theorems state what the code does where that is not what
  a user expects; those are listed as findings in the manifest.

  \<^bold>\<open>What is assumed.\<close> Code outside the repository is an argument: the reducers of the canvas library, the check of an
  e-mail address, the CSV parser, the date library, the zone, the network, number printing and parsing, the order and the neighbours
  that the graph package gives, the order of a Go map, the package for UUIDs, the date package of the scheduler, and the token of a calendar. What the proofs use of it is
  a hypothesis named after it (\<open>addEdge_doc\<close>, \<open>applyNodeChanges_keeps\<close>, \<open>email_doc\<close>, \<open>schedule_doc\<close>, \<open>sorts_graphs\<close>, \<open>carbon_doc\<close>, \<open>uuid_doc\<close>, \<open>order_doc\<close> and the like) and a concrete
  instance in each witness. The combinators of the schema library are written out by their documentation. Characters
  are code units below 256, numbers are reals or integers without rounding, widths are whole pixels, and
  objects have no inherited keys. Debounced calls are read as the call that is finally made. In rendered
  elements constant style classes are left out; those that depend on state are kept.

  \<^bold>\<open>Not modelled.\<close> The text of the landing page, icons and tables of style classes, type
  declarations, \<open>entry.client.tsx\<close>, \<open>routes.ts\<close> and \<open>lib/utils.ts\<close> (calls of a library). Of the server: the poller of calendars, which reads events of the Google API, tokens and accounts, the routes
  that are not about workflows, connecting to the broker and the cache, and what sending an
  e-mail does beyond being attempted. In the engine identifiers of rows do not run out; in the store a sequence that is used up is an error. Timestamps and metadata columns are left out. The tables of the engine and of
  the store are separate models: the store has of a run only the rows that refer to its nodes, and the engine runs on nodes and edges that are fixed during its history, so
  an update of a workflow during its runs is not covered; the routes that start, show and list runs are not among the requests of \<open>Workflow_Routes\<close>.

  \<^bold>\<open>Where a step of the model is coarser than the code.\<close> An update of a workflow is one step, although the code reads the existing graph before it begins the transaction. The scheduler has
  one clock, for the database and for all processes, and checking a changed schedule and writing it are one step. Publishing a failed message again and acknowledging the
  original are one step, so a worker that dies between them (and leaves the message twice) is not covered. An insertion of a node that fails by itself uses up no number of the sequence. In
  the two theorems about what is rendered after creating and updating a workflow the submitted nodes have different identifiers, as the canvas sends them; the invariant of the tables and
  the theorem about other users hold for all submissions.
\<close>

section \<open>Editing sessions\<close>

text \<open>
  The four settings forms of the inspector side by side. A session interleaves what happens on the canvas
  with submissions of forms; the environment holds what the forms take from outside.
\<close>

record form_env =
  fe_is_email :: "string \<Rightarrow> bool"
  fe_tz :: tz
  fe_iso_text :: "int \<Rightarrow> string"
  fe_now :: int
  fe_timeZone :: string

datatype submission =
  SubmitEmail email_form | SubmitSchedule schedule_form | SubmitCalendar calendar_form | SubmitTrigger config

fun submit_settings :: "form_env \<Rightarrow> submission \<Rightarrow> canvas_state \<Rightarrow> canvas_state" where
  "submit_settings env (SubmitEmail v) s = fst (email_onSubmit (fe_is_email env) v s)"
| "submit_settings env (SubmitSchedule v) s = fst (schedule_onSubmit (fe_tz env) (fe_iso_text env) (fe_now env) v s)"
| "submit_settings env (SubmitCalendar v) s = fst (calendar_onSubmit (fe_timeZone env) v s)"
| "submit_settings env (SubmitTrigger v) s = fst (trigger_onSubmit v s)"

fun stored_settings :: "form_env \<Rightarrow> submission \<Rightarrow> config option" where
  "stored_settings env (SubmitEmail v) = map_option email_config (email_accept (fe_is_email env) v)"
| "stored_settings env (SubmitSchedule v) = schedule_stored (fe_tz env) (fe_iso_text env) (fe_now env) v"
| "stored_settings env (SubmitCalendar v) = map_option (calendar_config (fe_timeZone env)) (calendar_accept v)"
| "stored_settings env (SubmitTrigger v) = trigger_stored v"

interpretation any_settings: settings_form "stored_settings env" "submit_settings env" for env
proof
  fix v s
  show "submit_settings env v s = (case stored_settings env v of None \<Rightarrow> s | Some c \<Rightarrow> write_config c s)"
    by (cases v) (simp_all add: email_settings.submit_stores schedule_settings.submit_stores
        calendar_settings.submit_stores trigger_settings.submit_stores)
qed

datatype session_event = OnCanvas canvas_event | OnForm form_env submission

fun session_step :: "_ \<Rightarrow> _ \<Rightarrow> _ \<Rightarrow> session_event \<Rightarrow> canvas_state \<Rightarrow> canvas_state" where
  "session_step anc aec ae (OnCanvas ev) s = fst (canvas_step anc aec ae ev s)"
| "session_step anc aec ae (OnForm env f) s = submit_settings env f s"

lemma session_machine:
  assumes "applyNodeChanges_keeps anc"
  shows "machine init_canvas (session_step anc aec ae) cv_inv"
proof
  show "cv_inv init_canvas" by (rule init_canvas_inv)
next
  fix s e
  assume "cv_inv s"
  then show "cv_inv (session_step anc aec ae e s)"
    by (cases e) (auto intro: canvas_step_inv [OF assms] any_settings.submit_inv)
qed

lemma session_typed: "heap_typed (fold (session_step anc aec ae) evs init_canvas)"
proof -
  have step: "heap_typed s \<Longrightarrow> heap_typed (session_step anc aec ae e s)" for e s
    by (cases e) (simp_all add: canvas_step_typed any_settings.submit_stores write_config_typed split: option.split)
  have "machine init_canvas (session_step anc aec ae) heap_typed"
    by unfold_locales (simp add: heap_typed_def init_canvas_def, rule step)
  then show ?thesis by (rule machine.inv_run)
qed

text \<open>Claim C20: in every session each node of the current flow has a data object, and it describes a block of
  the catalogue: its node type is known, and label, description, icon and status are those of that block, whatever workflow
  was loaded and whatever the forms have stored.\<close>

theorem session_nodes_typed:
  assumes lib: "applyNodeChanges_keeps anc"
    and s: "s = fold (session_step anc aec ae) evs init_canvas"
    and n: "n \<in> set (getNodes (cv_store s))"
  shows "\<exists>d b. cv_heap s (n_data n) = Some d \<and> nodeTypeToBlockMap (d_nodeType d) = Some b \<and>
    d_label d = b_label b \<and> d_description d = b_description b \<and> d_icon d = b_icon b \<and> d_status d = b_status b"
proof -
  have "cv_inv s" unfolding s by (rule machine.inv_run [OF session_machine [OF lib]])
  then have "n_data n \<in> dom (cv_heap s)" using n getNodes_own [of s] by (auto simp: own_data_def)
  then show ?thesis using session_typed [of anc aec ae evs] by (auto simp: s heap_typed_def from_catalogue_def)
qed

lemma save_existing:
  "js_map_err (saved_node (cv_heap s)) (getNodes (cv_store s)) = Inr ws \<Longrightarrow>
   sv_call (handleSaveWorkflow num base_url net (Some w) h s) =
     Some (UpdateWorkflow (rw_id w) (update_dto w h ws (getEdges (cv_store s))))"
  by (simp add: handleSaveWorkflow_def Let_def)

text \<open>Claim C6: after any session of opening workflows, editing the canvas and submitting settings forms,
  clicking a node, submitting one of the four forms for it and saving the workflow sends the nodes as they
  were, except that the clicked node carries the configuration that the form stores; a form that is
  rejected changes nothing of what is sent.\<close>

theorem settings_reach_save:
  assumes lib: "applyNodeChanges_keeps anc"
    and s: "s = fold (session_step anc aec ae) evs init_canvas"
    and i: "i < length (getNodes (cv_store s))"
    and t: "t = submit_settings env f (onNodeClick (getNodes (cv_store s) ! i) s)"
  shows "\<exists>ws. sv_call (handleSaveWorkflow num base_url net (Some w) h s) =
           Some (UpdateWorkflow (rw_id w) (update_dto w h ws (getEdges (cv_store s)))) \<and>
         sv_call (handleSaveWorkflow num base_url net (Some w) h t) =
           Some (UpdateWorkflow (rw_id w) (update_dto w h
             (case stored_settings env f of None \<Rightarrow> ws | Some c \<Rightarrow> ws[i := (ws ! i)\<lparr>wn_config := c\<rparr>])
             (getEdges (cv_store t))))"
proof -
  have "cv_inv s" unfolding s by (rule machine.inv_run [OF session_machine [OF lib]])
  from any_settings.submit_saved [OF this i t] show ?thesis by (auto simp: save_existing)
qed

definition demo_env :: form_env where
  "demo_env = \<lparr>fe_is_email = demo_is_email, fe_tz = fixed_tz 0, fe_iso_text = demo_iso, fe_now = 0,
     fe_timeZone = ''UTC''\<rparr>"

theorem settings_reach_save_witness:
  "\<exists>s t ws. s = fold (session_step demo_applyNodeChanges demo_applyEdgeChanges demo_addEdge)
       [OnCanvas (CE_open (Some demo_workflow))] init_canvas \<and>
     t = submit_settings demo_env (SubmitCalendar calendar_default) (onNodeClick (getNodes (cv_store s) ! 0) s) \<and>
     sv_call (handleSaveWorkflow (\<lambda>x. ''0'') ''http://h'' demo_net (Some demo_workflow) (header_init (Some demo_workflow)) t) =
       Some (UpdateWorkflow ''7'' (update_dto demo_workflow (header_init (Some demo_workflow))
         (ws[0 := (ws ! 0)\<lparr>wn_config := calendar_config ''UTC'' calendar_default\<rparr>]) (getEdges (cv_store t))))"
proof -
  let ?s = "fold (session_step demo_applyNodeChanges demo_applyEdgeChanges demo_addEdge)
       [OnCanvas (CE_open (Some demo_workflow))] init_canvas"
  have i: "0 < length (getNodes (cv_store ?s))" using demo_opened by simp
  have st: "stored_settings demo_env (SubmitCalendar calendar_default) = Some (calendar_config ''UTC'' calendar_default)"
    by (simp add: demo_env_def calendar_accept_def calendarFormSchema_def calendar_default_def max_issue_def
        eventScheduleSchema_def start_transform_def duration_transform_def)
  have wid: "rw_id demo_workflow = ''7''" by (simp add: demo_workflow_def)
  show ?thesis
    using settings_reach_save [OF demo_keeps refl i refl, where env = demo_env and f = "SubmitCalendar calendar_default"
        and num = "\<lambda>x. ''0''" and base_url = "''http://h''" and net = demo_net and w = demo_workflow
        and h = "header_init (Some demo_workflow)"]
    unfolding st wid option.case by blast
qed

theorem session_nodes_typed_witness:
  "\<exists>s n d. s = fold (session_step demo_applyNodeChanges demo_applyEdgeChanges demo_addEdge)
       [OnCanvas (CE_open (Some demo_workflow))] init_canvas \<and>
     n \<in> set (getNodes (cv_store s)) \<and> cv_heap s (n_data n) = Some d \<and> nodeTypeToBlockMap (d_nodeType d) \<noteq> None"
proof -
  let ?s = "fold (session_step demo_applyNodeChanges demo_applyEdgeChanges demo_addEdge)
       [OnCanvas (CE_open (Some demo_workflow))] init_canvas"
  have "getNodes (cv_store ?s) \<noteq> []" using demo_opened by force
  then obtain n where n: "n \<in> set (getNodes (cv_store ?s))" by (cases "getNodes (cv_store ?s)") auto
  from session_nodes_typed [OF demo_keeps refl n] n show ?thesis by blast
qed

end
